(* ===== verification/EDC_Prelude.thy ===== *)
theory EDC_Prelude
  imports Main "HOL-Library.Multiset"
begin

text \<open>
  The shared layer of the development: the exceptions the Java sources throw, the
  state-and-exception operations every stateful component is written in, Java's fixed-width
  integers, association lists as Java maps whose iteration order is kept, and the facts on
  stable sorting that the stores and stored procedures share.
\<close>

named_theorems edc_defs
named_theorems edc_inv

section \<open>Exceptions and operations\<close>

text \<open>
  The Java exceptions the modelled code throws; \<open>JsThrow\<close> is a value thrown by a stored
  procedure, and \<open>JavaError\<close> a \<open>java.lang.Error\<close>, which no handler of \<open>RuntimeException\<close>
  catches.
\<close>

datatype java_exn =
    IllegalStateException string
  | IllegalArgumentException string
  | NullPointerException string
  | EdcException string
  | IndexOutOfBoundsException string
  | JsThrow string
  | JavaError string

fun exnMessage :: "java_exn \<Rightarrow> string" where
  "exnMessage (IllegalStateException m) = m"
| "exnMessage (IllegalArgumentException m) = m"
| "exnMessage (NullPointerException m) = m"
| "exnMessage (EdcException m) = m"
| "exnMessage (IndexOutOfBoundsException m) = m"
| "exnMessage (JsThrow m) = m"
| "exnMessage (JavaError m) = m"

text \<open>
  An operation on a state \<open>'s\<close> returns a value or throws; what it wrote before the throw stays
  written, as in Java. \<open>andThen\<close> runs the second operation only if the first returned.
\<close>

type_synonym ('s, 'a) op = "'s \<Rightarrow> (java_exn + 'a) \<times> 's"

definition ret :: "'a \<Rightarrow> ('s, 'a) op" where
  "ret a s = (Inr a, s)"

definition throw :: "java_exn \<Rightarrow> ('s, 'a) op" where
  "throw e s = (Inl e, s)"

definition andThen :: "('s, 'a) op \<Rightarrow> ('a \<Rightarrow> ('s, 'b) op) \<Rightarrow> ('s, 'b) op" where
  "andThen m f s = (case m s of (Inl e, s') \<Rightarrow> (Inl e, s') | (Inr a, s') \<Rightarrow> f a s')"

definition modify :: "('s \<Rightarrow> 's) \<Rightarrow> ('s, unit) op" where
  "modify f s = (Inr (), f s)"

definition gets :: "('s \<Rightarrow> 'a) \<Rightarrow> ('s, 'a) op" where
  "gets f s = (Inr (f s), s)"

text \<open>A pure computation that may throw, run inside an operation.\<close>

definition liftE :: "java_exn + 'a \<Rightarrow> ('s, 'a) op" where
  "liftE r s = (r, s)"

text \<open>\<open>try\<close>/\<open>catch\<close> of every exception.\<close>

definition catching :: "('s, 'a) op \<Rightarrow> (java_exn \<Rightarrow> ('s, 'a) op) \<Rightarrow> ('s, 'a) op" where
  "catching m h s = (case m s of (Inl e, s') \<Rightarrow> h e s' | (Inr a, s') \<Rightarrow> (Inr a, s'))"

text \<open>Pure computations that may throw, one after the other; and one for each element of a list.\<close>

definition orThrow :: "java_exn + 'a \<Rightarrow> ('a \<Rightarrow> java_exn + 'b) \<Rightarrow> java_exn + 'b" where
  "orThrow r f = (case r of Inl e \<Rightarrow> Inl e | Inr a \<Rightarrow> f a)"

lemma orThrow_simps [simp]: "orThrow (Inl e) f = Inl e" "orThrow (Inr a) f = f a"
  by (simp_all add: orThrow_def)

lemma orThrow_Inr: "orThrow r f = Inr b \<longleftrightarrow> (\<exists>a. r = Inr a \<and> f a = Inr b)"
  by (cases r) auto

primrec mapOrThrow :: "('a \<Rightarrow> java_exn + 'b) \<Rightarrow> 'a list \<Rightarrow> java_exn + 'b list" where
  "mapOrThrow f [] = Inr []"
| "mapOrThrow f (x # xs) = orThrow (f x) (\<lambda>y. orThrow (mapOrThrow f xs) (\<lambda>ys. Inr (y # ys)))"

lemma mapOrThrow_mem: "mapOrThrow f xs = Inr ys \<Longrightarrow> y \<in> set ys \<Longrightarrow> \<exists>x \<in> set xs. f x = Inr y"
  by (induction xs arbitrary: ys) (auto simp: orThrow_Inr)

lemma mapOrThrow_map:
  "mapOrThrow f xs = Inr ys \<Longrightarrow> (\<And>x y. f x = Inr y \<Longrightarrow> g y = h x) \<Longrightarrow> map g ys = map h xs"
  by (induction xs arbitrary: ys) (auto simp: orThrow_Inr)

lemma mapOrThrow_total: "(\<And>x. x \<in> set xs \<Longrightarrow> f x = Inr (g x)) \<Longrightarrow> mapOrThrow f xs = Inr (map g xs)"
  by (induction xs) simp_all

lemma mapOrThrow_Inl: "x \<in> set xs \<Longrightarrow> f x = Inl e \<Longrightarrow> \<exists>e'. mapOrThrow f xs = Inl e'"
  by (induction xs) (auto simp: orThrow_def split: sum.split)

lemma mapOrThrow_snoc:
  "mapOrThrow f (xs @ [x]) = orThrow (mapOrThrow f xs) (\<lambda>ys. orThrow (f x) (\<lambda>y. Inr (ys @ [y])))"
  by (induction xs) (auto simp: orThrow_def split: sum.splits)

text \<open>\<open>filter\<close> and then \<open>flatMap\<close> of a stream: element by element.\<close>

primrec flatMapOrThrow ::
  "('a \<Rightarrow> java_exn + bool) \<Rightarrow> ('a \<Rightarrow> java_exn + 'b list) \<Rightarrow> 'a list \<Rightarrow> java_exn + 'b list" where
  "flatMapOrThrow p f [] = Inr []"
| "flatMapOrThrow p f (x # xs) =
     orThrow (p x) (\<lambda>b.
     orThrow (if b then f x else Inr []) (\<lambda>ys.
     orThrow (flatMapOrThrow p f xs) (\<lambda>zs. Inr (ys @ zs))))"

lemma flatMapOrThrow_mem:
  "flatMapOrThrow p f xs = Inr ys \<Longrightarrow> y \<in> set ys \<Longrightarrow>
     \<exists>x zs. x \<in> set xs \<and> p x = Inr True \<and> f x = Inr zs \<and> y \<in> set zs"
  by (induction xs arbitrary: ys) (fastforce simp: orThrow_Inr split: if_splits)+

text \<open>\<open>Iterable.forEach\<close> with a body that may throw.\<close>

primrec forEachM :: "'a list \<Rightarrow> ('a \<Rightarrow> ('s, unit) op) \<Rightarrow> ('s, unit) op" where
  "forEachM [] f = ret ()"
| "forEachM (x # xs) f = andThen (f x) (\<lambda>_. forEachM xs f)"

lemma ret_run [simp]: "ret a s = (Inr a, s)"
  by (simp add: ret_def)

lemma throw_run [simp]: "throw e s = (Inl e, s)"
  by (simp add: throw_def)

lemma modify_run [simp]: "modify f s = (Inr (), f s)"
  by (simp add: modify_def)

lemma gets_run [simp]: "gets f s = (Inr (f s), s)"
  by (simp add: gets_def)

lemma liftE_run [simp]: "liftE r s = (r, s)"
  by (simp add: liftE_def)

lemma andThen_simps [simp]:
  "andThen (ret a) f s = f a s"
  "andThen (throw e) f s = (Inl e, s)"
  "andThen (modify g) f' s = f' () (g s)"
  "andThen (gets h) f s = f (h s) s"
  "andThen (liftE (Inr a)) f s = f a s"
  "andThen (liftE (Inl e)) f s = (Inl e, s)"
  by (simp_all add: andThen_def)

lemma andThen_liftE_Inr [simp]: "andThen (liftE (Inr a)) f = f a"
  by (rule ext) simp

lemma andThen_Inr:
  "andThen m f s = (Inr b, s'') \<longleftrightarrow>
     (\<exists>a s'. m s = (Inr a, s') \<and> f a s' = (Inr b, s''))"
  by (auto simp: andThen_def split: prod.splits sum.splits)

lemma andThen_cases:
  assumes "andThen m f s = (r, s'')"
  obtains (thrown) e where "m s = (Inl e, s'')" "r = Inl e"
  | (continued) a s' where "m s = (Inr a, s')" "f a s' = (r, s'')"
  using assms by (auto simp: andThen_def split: prod.splits sum.splits)

lemma andThen_assoc:
  "andThen (andThen m f) g = andThen m (\<lambda>a. andThen (f a) g)"
  by (rule ext) (auto simp: andThen_def split: prod.splits sum.splits)

text \<open>
  An invariant of the state kept by the parts of an operation is kept by the operation,
  whether it returns or throws.
\<close>

definition keeps :: "('s \<Rightarrow> bool) \<Rightarrow> ('s, 'a) op \<Rightarrow> bool" where
  "keeps I m \<longleftrightarrow> (\<forall>s. I s \<longrightarrow> I (snd (m s)))"

lemma keepsI: "(\<And>s. I s \<Longrightarrow> I (snd (m s))) \<Longrightarrow> keeps I m"
  by (simp add: keeps_def)

lemma keepsD: "keeps I m \<Longrightarrow> I s \<Longrightarrow> I (snd (m s))"
  by (simp add: keeps_def)

lemma keeps_andThen [intro]:
  assumes "keeps I m" and "\<And>a. keeps I (f a)"
  shows "keeps I (andThen m f)"
proof (rule keepsI)
  fix s assume "I s"
  with assms(1) have "I (snd (m s))" by (rule keepsD)
  then show "I (snd (andThen m f s))"
    using assms(2) by (auto simp: andThen_def keeps_def split: prod.splits sum.splits)
qed

lemma keeps_pure [intro, simp]:
  "keeps I (ret a)" "keeps I (throw e)" "keeps I (gets h)" "keeps I (liftE r)"
  by (simp_all add: keeps_def)

lemma keeps_forEachM [intro]: "(\<And>x. x \<in> set xs \<Longrightarrow> keeps I (f x)) \<Longrightarrow> keeps I (forEachM xs f)"
  by (induction xs) auto

text \<open>
  The same for an operation whose result matters to what follows: the invariant holds
  afterwards, and a returned value satisfies \<open>Q\<close>.
\<close>

definition ensures :: "('s \<Rightarrow> bool) \<Rightarrow> ('s, 'a) op \<Rightarrow> ('a \<Rightarrow> bool) \<Rightarrow> bool" where
  "ensures I m Q \<longleftrightarrow>
     (\<forall>s. I s \<longrightarrow> I (snd (m s)) \<and> (\<forall>a. fst (m s) = Inr a \<longrightarrow> Q a))"

lemma ensuresI:
  "(\<And>s. I s \<Longrightarrow> I (snd (m s))) \<Longrightarrow> (\<And>s a. I s \<Longrightarrow> fst (m s) = Inr a \<Longrightarrow> Q a) \<Longrightarrow> ensures I m Q"
  by (simp add: ensures_def)

lemma ensuresD: "ensures I m Q \<Longrightarrow> I s \<Longrightarrow> I (snd (m s))"
  by (simp add: ensures_def)

lemma ensures_keeps: "ensures I m Q \<Longrightarrow> keeps I m"
  by (simp add: ensures_def keeps_def)

lemma ensures_True: "ensures I m Q \<Longrightarrow> ensures I m (\<lambda>_. True)"
  by (simp add: ensures_def)

lemma ensures_andThen:
  assumes "ensures I m Q" and "\<And>a. Q a \<Longrightarrow> ensures I (f a) R"
  shows "ensures I (andThen m f) R"
proof (rule ensuresI)
  fix s assume s: "I s"
  show "I (snd (andThen m f s))"
    using assms s by (auto simp: andThen_def ensures_def split: prod.splits sum.splits)
  fix b assume "fst (andThen m f s) = Inr b"
  then obtain a where a: "fst (m s) = Inr a" and b: "fst (f a (snd (m s))) = Inr b"
    by (auto simp: andThen_def split: prod.splits sum.splits)
  from assms(1) s a have "I (snd (m s))" "Q a" by (auto simp: ensures_def)
  with assms(2) b show "R b" by (auto simp: ensures_def)
qed

lemma ensures_basic [intro]:
  "Q a \<Longrightarrow> ensures I (ret a) Q"
  "ensures I (throw e) Q"
  "(\<And>b. r = Inr b \<Longrightarrow> Q b) \<Longrightarrow> ensures I (liftE r) Q"
  "(\<And>s. I s \<Longrightarrow> Q (h s)) \<Longrightarrow> ensures I (gets h) Q"
  "(\<And>s. I s \<Longrightarrow> I (g s)) \<Longrightarrow> R () \<Longrightarrow> ensures I (modify g) R"
  by (auto simp: ensures_def)

lemma keeps_if: "(P \<Longrightarrow> keeps I a) \<Longrightarrow> (\<not> P \<Longrightarrow> keeps I b) \<Longrightarrow> keeps I (if P then a else b)"
  by simp

lemma keeps_modify: "(\<And>s. I s \<Longrightarrow> I (g s)) \<Longrightarrow> keeps I (modify g)"
  by (simp add: keeps_def)

lemma keeps_seq: "keeps I m \<Longrightarrow> keeps I k \<Longrightarrow> keeps I (andThen m (\<lambda>_. k))"
  by (rule keeps_andThen)

lemma keeps_ret_andThen [simp]: "keeps I (andThen (ret a) f) = keeps I (f a)"
  by (simp add: keeps_def)

lemma keeps_liftE_andThen: "(\<And>a. r = Inr a \<Longrightarrow> keeps I (f a)) \<Longrightarrow> keeps I (andThen (liftE r) f)"
  by (cases r) (auto simp: keeps_def)

lemma keeps_gets_andThen:
  "(\<And>a. (\<exists>s. I s \<and> h s = a) \<Longrightarrow> keeps I (f a)) \<Longrightarrow> keeps I (andThen (gets h) f)"
  by (auto simp: keeps_def)

lemma keeps_ensures_andThen:
  "ensures I m Q \<Longrightarrow> (\<And>a. Q a \<Longrightarrow> keeps I (f a)) \<Longrightarrow> keeps I (andThen m f)"
  using ensures_andThen [of I m Q f "\<lambda>_. True"] by (auto simp: keeps_def ensures_def)

section \<open>Results\<close>

text \<open>
  \<open>Result\<close> and \<open>StatusResult\<close> of the SPI: a content, or a failure with its messages and,
  for \<open>StatusResult\<close>, its \<open>ResponseStatus\<close>.
\<close>

datatype 'a result = Success (content: 'a) | Failure (failureMessages: "string list")

datatype responseStatus = FATAL_ERROR | ERROR_RETRY

datatype 'a statusResult =
    StatusSuccess 'a
  | StatusFailure responseStatus "string list"

definition failed :: "'a result \<Rightarrow> bool" where
  "failed r \<longleftrightarrow> (case r of Success _ \<Rightarrow> False | Failure _ \<Rightarrow> True)"

lemma failed_simps [simp]: "\<not> failed (Success a)" "failed (Failure ms)"
  by (simp_all add: failed_def)

section \<open>Java integers\<close>

text \<open>
  Java's \<open>int\<close> and \<open>long\<close> arithmetic: the mathematical result wrapped to 32 and 64 bits,
  two's complement.
\<close>

definition wrap :: "nat \<Rightarrow> int \<Rightarrow> int" where
  "wrap w x = (x + 2 ^ (w - 1)) mod 2 ^ w - 2 ^ (w - 1)"

definition i32 :: "int \<Rightarrow> int" where
  "i32 x = wrap 32 x"

definition i64 :: "int \<Rightarrow> int" where
  "i64 x = wrap 64 x"

lemma wrap_id: "0 < w \<Longrightarrow> - (2 ^ (w - 1)) \<le> x \<Longrightarrow> x < 2 ^ (w - 1) \<Longrightarrow> wrap w x = x"
proof -
  assume w: "0 < w" and lo: "- (2 ^ (w - 1)) \<le> x" and hi: "x < 2 ^ (w - 1)"
  from w have "(2::int) ^ w = 2 * 2 ^ (w - 1)"
    by (cases w) simp_all
  with lo hi show ?thesis by (simp add: wrap_def)
qed

lemma i32_id [simp]: "- 2147483648 \<le> x \<Longrightarrow> x < 2147483648 \<Longrightarrow> i32 x = x"
  using wrap_id [of 32 x] by (simp add: i32_def)

lemma i64_id [simp]:
  "- 9223372036854775808 \<le> x \<Longrightarrow> x < 9223372036854775808 \<Longrightarrow> i64 x = x"
  using wrap_id [of 64 x] by (simp add: i64_def)

lemma i64_range: "- 9223372036854775808 \<le> i64 x \<and> i64 x < 9223372036854775808"
  by (auto simp: i64_def wrap_def)

lemma i32_range: "- 2147483648 \<le> i32 x \<and> i32 x < 2147483648"
  by (auto simp: i32_def wrap_def)

section \<open>Java maps as association lists\<close>

text \<open>
  A Java \<open>Map\<close> is an association list with distinct keys; the list order is the order the map
  iterates its values in. \<open>put\<close> replaces the value of a present key where it stands.
\<close>

type_synonym 'v jmap = "(string \<times> 'v) list"

fun put :: "string \<Rightarrow> 'v \<Rightarrow> 'v jmap \<Rightarrow> 'v jmap" where
  "put k v [] = [(k, v)]"
| "put k v ((k', v') # m) = (if k = k' then (k, v) # m else (k', v') # put k v m)"

definition remove_key :: "string \<Rightarrow> 'v jmap \<Rightarrow> 'v jmap" where
  "remove_key k m = filter (\<lambda>p. fst p \<noteq> k) m"

definition keys_distinct :: "'v jmap \<Rightarrow> bool" where
  "keys_distinct m \<longleftrightarrow> distinct (map fst m)"

lemma map_of_put [simp]: "map_of (put k v m) = (map_of m)(k \<mapsto> v)"
  by (induction m) (auto simp: fun_eq_iff)

lemma keys_put: "set (map fst (put k v m)) = insert k (set (map fst m))"
  by (induction k v m rule: put.induct) auto

lemma keys_distinct_put [simp]: "keys_distinct m \<Longrightarrow> keys_distinct (put k v m)"
proof (induction m)
  case (Cons p m)
  then show ?case
    using keys_put [of k v m] by (cases p) (auto simp: keys_distinct_def)
qed (simp add: keys_distinct_def)

lemma map_of_remove_key [simp]: "map_of (remove_key k m) = (map_of m)(k := None)"
  by (induction m) (auto simp: remove_key_def fun_eq_iff)

lemma keys_distinct_remove_key [simp]: "keys_distinct m \<Longrightarrow> keys_distinct (remove_key k m)"
  by (induction m) (auto simp: keys_distinct_def remove_key_def)

lemma set_remove_key: "set (remove_key k m) = {p \<in> set m. fst p \<noteq> k}"
  by (auto simp: remove_key_def)

lemma keys_distinct_Nil [simp]: "keys_distinct []"
  by (simp add: keys_distinct_def)

lemma map_of_mem: "keys_distinct m \<Longrightarrow> (k, v) \<in> set m \<longleftrightarrow> map_of m k = Some v"
  by (auto simp: keys_distinct_def dest: map_of_SomeD)

lemma set_put: "keys_distinct m \<Longrightarrow> set (put k v m) = insert (k, v) {p \<in> set m. fst p \<noteq> k}"
proof (induction m)
  case (Cons p m)
  then show ?case
    by (cases p) (auto simp: keys_distinct_def image_iff)
qed simp

section \<open>Decimal numbers in messages\<close>

fun showNat :: "nat \<Rightarrow> string" where
  "showNat n =
     (if n < 10 then [char_of (48 + n)] else showNat (n div 10) @ [char_of (48 + n mod 10)])"

declare showNat.simps [simp del]

definition showInt :: "int \<Rightarrow> string" where
  "showInt i = (if i < 0 then ''-'' @ showNat (nat (- i)) else showNat (nat i))"

text \<open>\<open>String.join\<close>.\<close>

definition join :: "string \<Rightarrow> string list \<Rightarrow> string" where
  "join sep xs = (case xs of [] \<Rightarrow> [] | y # ys \<Rightarrow> y @ concat (map (\<lambda>z. sep @ z) ys))"

section \<open>Lists: lookups, sorting and batches\<close>

text \<open>\<open>Stream.findFirst\<close> after a \<open>filter\<close> is \<open>List.find\<close>.\<close>

lemma find_SomeD: "List.find P xs = Some x \<Longrightarrow> x \<in> set xs \<and> P x"
  by (induction xs) (auto split: if_splits)

lemma find_NoneD: "List.find P xs = None \<Longrightarrow> x \<in> set xs \<Longrightarrow> \<not> P x"
  by (induction xs) (auto split: if_splits)

lemma set_take_sort: "x \<in> set (take n (sort_key f xs)) \<Longrightarrow> x \<in> set xs"
  by (metis in_set_takeD set_sort)

text \<open>
  The batch a store hands out: the first \<open>n\<close> in the order of \<open>f\<close>. What is left out comes no
  earlier than what is taken.
\<close>

definition batch :: "('a \<Rightarrow> 'k::linorder) \<Rightarrow> nat \<Rightarrow> 'a list \<Rightarrow> 'a list" where
  "batch f n xs = take n (sort_key f xs)"

lemma batch_subset: "set (batch f n xs) \<subseteq> set xs"
  by (auto simp: batch_def dest: set_take_sort)

lemma batch_length: "length (batch f n xs) = min n (length xs)"
  by (simp add: batch_def)

lemma batch_sorted: "sorted (map f (batch f n xs))"
proof -
  have "sorted (map f (take n (sort_key f xs)) @ map f (drop n (sort_key f xs)))"
    by (metis map_append append_take_drop_id sorted_sort_key)
  then show ?thesis by (simp add: batch_def sorted_append)
qed

lemma batch_distinct_map: "distinct (map g xs) \<Longrightarrow> distinct (map g (batch f n (filter P xs)))"
proof -
  assume d: "distinct (map g xs)"
  have "set (batch f n (filter P xs)) \<subseteq> set xs" using batch_subset by fastforce
  moreover have "distinct (batch f n (filter P xs))" using d by (simp add: batch_def distinct_map)
  ultimately show ?thesis using d by (auto simp: distinct_map intro: inj_on_subset)
qed

lemma map_insort_key: "map f (insort_key (\<lambda>x. g (f x)) x xs) = insort_key g (f x) (map f xs)"
  by (induction xs) auto

lemma map_batch: "map f (batch (\<lambda>x. g (f x)) n (filter (\<lambda>x. P (f x)) xs)) = batch g n (filter P (map f xs))"
proof -
  have "map f (sort_key (\<lambda>x. g (f x)) ys) = sort_key g (map f ys)" for ys
    by (induction ys) (simp_all add: map_insort_key)
  then show ?thesis by (simp add: batch_def take_map [symmetric] filter_map comp_def)
qed

lemma batch_distinct: "distinct xs \<Longrightarrow> distinct (batch f n xs)"
  by (simp add: batch_def)

lemma batch_first:
  assumes x: "x \<in> set (batch f n xs)" and y: "y \<in> set xs" "y \<notin> set (batch f n xs)"
  shows "f x \<le> f y"
proof -
  let ?s = "sort_key f xs"
  have split: "?s = take n ?s @ drop n ?s" by simp
  have "y \<in> set ?s" using y(1) by simp
  with split y(2) have "y \<in> set (drop n ?s)"
    unfolding batch_def by (metis Un_iff set_append)
  moreover have "sorted (map f (take n ?s) @ map f (drop n ?s))"
    by (metis map_append append_take_drop_id sorted_sort_key)
  ultimately show ?thesis
    using x by (auto simp: batch_def sorted_append)
qed

lemma batch_all: "length xs \<le> n \<Longrightarrow> set (batch f n xs) = set xs"
  by (simp add: batch_def)

lemma batch_filter: "x \<in> set (batch f n (filter P xs)) \<Longrightarrow> P x \<and> x \<in> set xs"
  using batch_subset by fastforce

end
