(* ===== verification/Stateful_Entity.thy ===== *)
theory Stateful_Entity
  imports EDC_Prelude
begin

text \<open>
  The base class of the persistent state machines
  (\<open>spi/core-spi/.../spi/entity/StatefulEntity.java\<close>). A subclass is a record that extends
  \<open>stateful_entity\<close>, so the inherited operations are polymorphic in the extension. The
  entity's \<open>Clock\<close> is the argument \<open>now\<close>: the value \<open>clock.millis()\<close> returns in that call.
\<close>

record stateful_entity =
  entityId :: string
  createdTimestamp :: int
  state :: int
  stateCount :: int
  stateTimestamp :: int
  traceContext :: "string jmap"
  errorDetail :: "string option"

definition setErrorDetail ::
  "string option \<Rightarrow> 'a stateful_entity_scheme \<Rightarrow> 'a stateful_entity_scheme" where
  "setErrorDetail d e = e\<lparr>errorDetail := d\<rparr>"

definition updateStateTimestamp ::
  "int \<Rightarrow> 'a stateful_entity_scheme \<Rightarrow> 'a stateful_entity_scheme" where
  "updateStateTimestamp now e = e\<lparr>stateTimestamp := now\<rparr>"

definition transitionTo ::
  "int \<Rightarrow> int \<Rightarrow> 'a stateful_entity_scheme \<Rightarrow> 'a stateful_entity_scheme" where
  "transitionTo now targetState e =
     updateStateTimestamp now
       (e\<lparr>stateCount := (if state e = targetState then i32 (stateCount e + 1) else 1),
          state := targetState\<rparr>)"

text \<open>
  \<open>Builder.build()\<close>: \<open>id\<close> is the identifier given to the builder, null for \<open>None\<close>; a zero
  state timestamp is replaced by the clock.
\<close>

definition entity_build ::
  "int \<Rightarrow> string option \<Rightarrow> 'a stateful_entity_scheme \<Rightarrow> java_exn + 'a stateful_entity_scheme" where
  "entity_build now ident e =
     (case ident of
        None \<Rightarrow> Inl (NullPointerException ''id'')
      | Some i \<Rightarrow>
          (let e' = e\<lparr>entityId := i\<rparr>
           in Inr (if stateTimestamp e' = 0 then e'\<lparr>stateTimestamp := now\<rparr> else e')))"

text \<open>
  \<open>copy(Builder)\<close>: every field of the base class is handed to a fresh builder, which is then
  built; the identifier of a built entity is never null.
\<close>

definition copy_entity ::
  "int \<Rightarrow> 'a stateful_entity_scheme \<Rightarrow> 'a stateful_entity_scheme" where
  "copy_entity now e = (if stateTimestamp e = 0 then e\<lparr>stateTimestamp := now\<rparr> else e)"

subsection \<open>What a transition changes\<close>

lemma transitionTo_simps [simp]:
  "entityId (transitionTo now t e) = entityId e"
  "state (transitionTo now t e) = t"
  "stateTimestamp (transitionTo now t e) = now"
  "createdTimestamp (transitionTo now t e) = createdTimestamp e"
  "traceContext (transitionTo now t e) = traceContext e"
  "errorDetail (transitionTo now t e) = errorDetail e"
  "stateful_entity.more (transitionTo now t e) = stateful_entity.more e"
  by (simp_all add: transitionTo_def updateStateTimestamp_def)

lemma transitionTo_count:
  "stateCount (transitionTo now t e) =
     (if state e = t then i32 (stateCount e + 1) else 1)"
  by (simp add: transitionTo_def updateStateTimestamp_def)

lemma copy_entity_simps [simp]:
  "entityId (copy_entity now e) = entityId e"
  "state (copy_entity now e) = state e"
  "stateCount (copy_entity now e) = stateCount e"
  "stateful_entity.more (copy_entity now e) = stateful_entity.more e"
  by (simp_all add: copy_entity_def)

lemma copy_entity_id: "stateTimestamp e \<noteq> 0 \<Longrightarrow> copy_entity now e = e"
  by (simp add: copy_entity_def)

lemma entity_build_copy:
  "entity_build now (Some (entityId e)) e = Inr (copy_entity now e)"
  by (simp add: entity_build_def copy_entity_def)

text \<open>
  Re-entering a state \<open>n\<close> times counts the attempts: the count the retry manager reads.
\<close>

lemma transitionTo_repeat:
  assumes "state e = t" and "0 \<le> stateCount e" and "stateCount e + int n < 2147483648"
  shows "stateCount ((transitionTo now t ^^ n) e) = stateCount e + int n \<and>
         state ((transitionTo now t ^^ n) e) = t"
  using assms(3)
proof (induction n)
  case 0
  then show ?case using assms by simp
next
  case (Suc n)
  then have IH: "stateCount ((transitionTo now t ^^ n) e) = stateCount e + int n"
    and st: "state ((transitionTo now t ^^ n) e) = t" by auto
  have "i32 (stateCount e + int n + 1) = stateCount e + int n + 1"
    using Suc.prems assms(2) by (intro i32_id) auto
  with IH st show ?case by (simp add: transitionTo_count)
qed

end
