(* ===== verification/Leasing.thy ===== *)
theory Leasing
  imports EDC_Prelude
begin

text \<open>
  The contract between a state machine and its store
  (\<open>TransferProcessStore.nextForState\<close>, \<open>ContractNegotiationStore.nextForState\<close>): entities
  are handed out in batches, and an entity that was handed out is not handed out again while
  its lease lasts. A request \<open>q\<close> stands for who asks and when; \<open>before\<close> orders requests, and
  \<open>covers q q'\<close> says that the leases taken by \<open>q\<close> still hold at \<open>q'\<close>. The provider's
  laws are those of a single call; what holds of any sequence of calls is proved here once.
\<close>

text \<open>A lease, \<open>spi/core-spi/.../spi/persistence/Lease.java\<close>: who holds it, since when and for how long.\<close>

record lease =
  leasedBy :: string
  leasedAt :: int
  leaseDuration :: int

text \<open>A sequence of calls, each a request with its state and limit; a failed call hands out
  nothing.\<close>

primrec fetches ::
  "(int \<Rightarrow> int \<Rightarrow> 'q \<Rightarrow> ('s, 'e list) op) \<Rightarrow> (int \<times> int \<times> 'q) list \<Rightarrow> 's \<Rightarrow> 'e list list" where
  "fetches fetch [] s = []"
| "fetches fetch (r # rs) s =
     (case r of (st, n, q) \<Rightarrow>
        (case fetch st n q s of
           (Inr es, s') \<Rightarrow> es # fetches fetch rs s'
         | (Inl _, s') \<Rightarrow> [] # fetches fetch rs s'))"

locale lease_source =
  fixes fetch :: "int \<Rightarrow> int \<Rightarrow> 'q \<Rightarrow> ('s, 'e list) op"
    and ident :: "'e \<Rightarrow> string"
    and available :: "'q \<Rightarrow> 's \<Rightarrow> string \<Rightarrow> bool"
    and before :: "'q \<Rightarrow> 'q \<Rightarrow> bool"
    and covers :: "'q \<Rightarrow> 'q \<Rightarrow> bool"
    and invar :: "'s \<Rightarrow> bool"
  assumes fetch_invar: "invar s \<Longrightarrow> invar (snd (fetch st n q s))"
    and fetch_available:
      "invar s \<Longrightarrow> fetch st n q s = (Inr es, s') \<Longrightarrow> e \<in> set es \<Longrightarrow> available q s (ident e)"
    and fetch_takes:
      "invar s \<Longrightarrow> fetch st n q s = (Inr es, s') \<Longrightarrow> e \<in> set es \<Longrightarrow> covers q q' \<Longrightarrow>
       \<not> available q' s' (ident e)"
    and fetch_frame:
      "invar s \<Longrightarrow> \<not> available q' s k \<Longrightarrow> before q q' \<Longrightarrow>
       \<not> available q' (snd (fetch st n q s)) k"
    and fetch_distinct:
      "invar s \<Longrightarrow> fetch st n q s = (Inr es, s') \<Longrightarrow> distinct (map ident es)"
begin

lemma unavailable_stays:
  assumes "invar s" and "\<And>r. r \<in> set rs \<Longrightarrow> \<not> available (snd (snd r)) s k"
    and "sorted_wrt (\<lambda>r r'. before (snd (snd r)) (snd (snd r'))) rs"
  shows "k \<notin> ident ` (\<Union> (set ` set (fetches fetch rs s)))"
  using assms
proof (induction rs arbitrary: s)
  case (Cons r rs)
  obtain st n q where r: "r = (st, n, q)" by (cases r)
  have nav: "\<not> available q s k" using Cons.prems(2) [of r] r by simp
  have inv: "invar (snd (fetch st n q s))" using Cons.prems(1) by (rule fetch_invar)
  have rest: "k \<notin> ident ` (\<Union> (set ` set (fetches fetch rs (snd (fetch st n q s)))))"
  proof (rule Cons.IH [OF inv])
    fix r' assume r': "r' \<in> set rs"
    then have "\<not> available (snd (snd r')) s k" by (intro Cons.prems(2)) simp
    moreover have "before q (snd (snd r'))" using Cons.prems(3) r r' by simp
    ultimately show "\<not> available (snd (snd r')) (snd (fetch st n q s)) k"
      by (rule fetch_frame [OF Cons.prems(1)])
  qed (use Cons.prems(3) in simp)
  show ?case
  proof (cases "fetch st n q s")
    case (Pair res s')
    show ?thesis
    proof (cases res)
      case (Inr es)
      have "k \<notin> ident ` set es"
        using nav fetch_available [OF Cons.prems(1), of st n q es s'] Pair Inr by auto
      then show ?thesis using rest r Pair Inr by auto
    qed (use rest r Pair in auto)
  qed
qed simp

text \<open>No entity is handed out twice by requests that lie in each other's lease windows.\<close>

lemma fetches_disjoint:
  assumes "invar s"
    and "sorted_wrt (\<lambda>r r'. before (snd (snd r)) (snd (snd r')) \<and>
                            covers (snd (snd r)) (snd (snd r'))) rs"
  shows "distinct (map ident (concat (fetches fetch rs s)))"
  using assms
proof (induction rs arbitrary: s)
  case (Cons r rs)
  obtain st n q where r: "r = (st, n, q)" by (cases r)
  have inv: "invar (snd (fetch st n q s))" using Cons.prems(1) by (rule fetch_invar)
  have sw: "sorted_wrt (\<lambda>r r'. before (snd (snd r)) (snd (snd r'))) rs"
    using Cons.prems(2) by (auto intro: sorted_wrt_mono_rel [rotated])
  have rest: "distinct (map ident (concat (fetches fetch rs (snd (fetch st n q s)))))"
    using Cons.IH [OF inv] Cons.prems(2) by simp
  show ?case
  proof (cases "fetch st n q s")
    case (Pair res s')
    show ?thesis
    proof (cases res)
      case (Inr es)
      have "ident e \<notin> ident ` (\<Union> (set ` set (fetches fetch rs s')))" if "e \<in> set es" for e
      proof (rule unavailable_stays)
        show "invar s'" using inv Pair by simp
        show "\<not> available (snd (snd r')) s' (ident e)" if "r' \<in> set rs" for r'
          using fetch_takes [OF Cons.prems(1)] Pair Inr \<open>e \<in> set es\<close> that Cons.prems(2) r
          by fastforce
      qed (rule sw)
      then show ?thesis
        using rest r Pair Inr fetch_distinct [OF Cons.prems(1), of st n q es s'] by auto
    qed (use rest r Pair in auto)
  qed
qed simp

end

end
