(* ===== verification/Cosmos_Lease.thy ===== *)
theory Cosmos_Lease
  imports Stateful_Entity Leasing
begin

text \<open>
  The lease protocol of the CosmosDB stores: the stored procedures \<open>lease.js\<close> and
  \<open>nextForState.js\<close> of \<open>extensions/azure/cosmos/cosmos-common/src/main/resources\<close>, and the
  Java class \<open>LeaseableCosmosDocument\<close>.

  A collection is the list of its documents in the order the engine returns them. The two
  queries are given by what their SQL text says; what the service decides is an input: the
  record \<open>service\<close> holds, for the calls of one procedure, whether each call is accepted and
  the error its callback gets. A stored procedure is a transaction: \<open>invoke\<close> discards the
  writes of a procedure that throws.
\<close>

section \<open>Documents\<close>

text \<open>A JavaScript property: missing, null or a value.\<close>

datatype 'v js = Undefined | Null | Defined 'v

record 'e document =
  docId :: string
  docSelf :: string
  partitionKey :: string
  wrappedInstance :: 'e
  docLease :: "lease js"

type_synonym 'a collection = "'a stateful_entity_scheme document list"

text \<open>\<open>document.lease != null\<close>: loose inequality, true of neither null nor undefined.\<close>

definition hasLease :: "lease js \<Rightarrow> bool" where
  "hasLease l \<longleftrightarrow> (case l of Defined _ \<Rightarrow> True | _ \<Rightarrow> False)"

record service =
  queryAccepted :: bool
  queryError :: "string option"
  replaceAccepted :: "string \<Rightarrow> bool"
  replaceError :: "string \<Rightarrow> string option"

definition working_service :: service where
  "working_service = \<lparr>queryAccepted = True, queryError = None,
     replaceAccepted = (\<lambda>_. True), replaceError = (\<lambda>_. None)\<rparr>"

lemma working_service_simps [simp]:
  "queryAccepted working_service" "queryError working_service = None"
  "replaceAccepted working_service l" "replaceError working_service l = None"
  by (simp_all add: working_service_def)

datatype 'd body = NoBody | TextBody string | DocumentBody 'd | DocumentsBody "'d list"

definition replaceDocument ::
  "service \<Rightarrow> 'e document \<Rightarrow> ('e document list, unit) op" where
  "replaceDocument sv document =
     (if \<not> replaceAccepted sv (docSelf document)
      then throw (JsThrow ''Unable to update Document, abort'')
      else if replaceError sv (docSelf document) \<noteq> None
      then throw (JsThrow ''Unable to update Document, abort '')
      else modify (map (\<lambda>d. if docSelf d = docSelf document then document else d)))"

text \<open>The inner function \<open>lease\<close> both procedures declare.\<close>

definition lease_document ::
  "service \<Rightarrow> int \<Rightarrow> 'e document \<Rightarrow> string \<Rightarrow> ('e document list, 'e document) op" where
  "lease_document sv now document connectorId =
     (let document' = document\<lparr>docLease :=
            Defined \<lparr>leasedBy = connectorId, leasedAt = now, leaseDuration = 60000\<rparr>\<rparr>
      in andThen (replaceDocument sv document') (\<lambda>_. ret document'))"

section \<open>lease.js\<close>

definition leaseQuery ::
  "string \<Rightarrow> 'a collection \<Rightarrow> 'a stateful_entity_scheme document list" where
  "leaseQuery objectId c = filter (\<lambda>t. entityId (wrappedInstance t) = objectId) c"

definition lease_js ::
  "service \<Rightarrow> int \<Rightarrow> string \<Rightarrow> string \<Rightarrow> bool \<Rightarrow>
   ('a collection, 'a stateful_entity_scheme document body) op" where
  "lease_js sv now objectId connectorId shouldLease =
     (if \<not> queryAccepted sv then throw (JsThrow ''Unable to read document details, abort '')
      else
        case queryError sv of
          Some err \<Rightarrow> throw (JsThrow (''Error'' @ err))
        | None \<Rightarrow>
            andThen (gets (leaseQuery objectId)) (\<lambda>items.
              if items = [] then ret (TextBody ''No documents found!'')
              else if length items > 1
              then throw (JsThrow (''too many docs found for query: expected 1, got '' @
                     showNat (length items)))
              else
                let document = hd items
                in case docLease document of
                     Defined l \<Rightarrow>
                       if leasedBy l \<noteq> connectorId
                       then throw (JsThrow ''Document is locked by another connector'')
                       else if shouldLease
                       then andThen (lease_document sv now document connectorId)
                              (\<lambda>d. ret (DocumentBody d))
                       else ret (DocumentBody (document\<lparr>docLease := Null\<rparr>))
                   | _ \<Rightarrow>
                       if shouldLease
                       then andThen (lease_document sv now document connectorId)
                              (\<lambda>d. ret (DocumentBody d))
                       else ret (DocumentBody (document\<lparr>docLease := Null\<rparr>))))"

section \<open>nextForState.js\<close>

text \<open>
  The \<open>WHERE\<close> clause. A comparison with an undefined operand is undefined and selects nothing,
  so a document without a \<open>lease\<close> property is not selected.
\<close>

definition freeAt :: "int \<Rightarrow> lease js \<Rightarrow> bool" where
  "freeAt now l \<longleftrightarrow>
     (case l of
        Undefined \<Rightarrow> False
      | Null \<Rightarrow> True
      | Defined x \<Rightarrow> leasedAt x + leaseDuration x < now)"

definition nextForStateQuery ::
  "int \<Rightarrow> nat \<Rightarrow> int \<Rightarrow> 'a collection \<Rightarrow> 'a stateful_entity_scheme document list" where
  "nextForStateQuery st limit now c =
     batch (\<lambda>t. stateTimestamp (wrappedInstance t)) limit
       (filter (\<lambda>t. state (wrappedInstance t) = st \<and> freeAt now (docLease t)) c)"

primrec lease_documents ::
  "service \<Rightarrow> int \<Rightarrow> string \<Rightarrow> 'e document list \<Rightarrow> ('e document list, 'e document list) op" where
  "lease_documents sv now connectorId [] = ret []"
| "lease_documents sv now connectorId (d # ds) =
     andThen (lease_document sv now d connectorId) (\<lambda>d'.
     andThen (lease_documents sv now connectorId ds) (\<lambda>ds'. ret (d' # ds')))"

definition nextForState_js ::
  "service \<Rightarrow> int \<Rightarrow> int \<Rightarrow> int \<Rightarrow> string \<Rightarrow>
   ('a collection, 'a stateful_entity_scheme document body) op" where
  "nextForState_js sv now st limit connectorId =
     (if \<not> queryAccepted sv then throw (JsThrow ''Unable to read document details, abort '')
      else
        case queryError sv of
          Some err \<Rightarrow> throw (JsThrow (''Error'' @ err))
        | None \<Rightarrow>
            andThen (gets (nextForStateQuery st (nat limit) now)) (\<lambda>items.
            andThen (lease_documents sv now connectorId items) (\<lambda>leased.
              ret (DocumentsBody leased))))"

text \<open>A stored procedure that throws is rolled back.\<close>

definition invoke :: "('c, 'a) op \<Rightarrow> ('c, 'a) op" where
  "invoke proc c = (case proc c of (Inl e, _) \<Rightarrow> (Inl e, c) | (Inr a, c') \<Rightarrow> (Inr a, c'))"

section \<open>LeaseableCosmosDocument\<close>

text \<open>The dates in the message of \<open>acquireLease\<close> are left out.\<close>

definition doc_breakLease :: "string \<Rightarrow> 'e document \<Rightarrow> java_exn + 'e document" where
  "doc_breakLease identifier d =
     (case docLease d of
        Defined l \<Rightarrow>
          if leasedBy l = identifier then Inr (d\<lparr>docLease := Null\<rparr>)
          else Inl (IllegalStateException (''Was not leased by '' @ identifier))
      | _ \<Rightarrow> Inr d)"

definition doc_acquireLease :: "string \<Rightarrow> int \<Rightarrow> int \<Rightarrow> 'e document \<Rightarrow> java_exn + 'e document" where
  "doc_acquireLease leaseBy now duration d =
     (case docLease d of
        Defined l \<Rightarrow>
          if leasedBy l = leaseBy
          then Inr (d\<lparr>docLease := Defined \<lparr>leasedBy = leaseBy, leasedAt = now, leaseDuration = duration\<rparr>\<rparr>)
          else Inl (IllegalStateException ''This document is leased'')
      | _ \<Rightarrow> Inr (d\<lparr>docLease := Defined \<lparr>leasedBy = leaseBy, leasedAt = now, leaseDuration = duration\<rparr>\<rparr>))"

section \<open>What the procedures do to a collection\<close>

text \<open>Identifiers and self links are unique, and a document is stored under the identifier of
  the instance it wraps (\<open>TransferProcessDocument.getId\<close>).\<close>

definition coll_ok :: "'a collection \<Rightarrow> bool" where
  "coll_ok c \<longleftrightarrow> distinct (map docSelf c) \<and> distinct (map docId c) \<and>
     (\<forall>d \<in> set c. docId d = entityId (wrappedInstance d))"

definition leaseFor :: "string \<Rightarrow> int \<Rightarrow> 'e document \<Rightarrow> 'e document" where
  "leaseFor connectorId now d = d\<lparr>docLease :=
     Defined \<lparr>leasedBy = connectorId, leasedAt = now, leaseDuration = 60000\<rparr>\<rparr>"

lemma leaseFor_simps [simp]:
  "docId (leaseFor b now d) = docId d"
  "docSelf (leaseFor b now d) = docSelf d"
  "wrappedInstance (leaseFor b now d) = wrappedInstance d"
  "docLease (leaseFor b now d) =
     Defined \<lparr>leasedBy = b, leasedAt = now, leaseDuration = 60000\<rparr>"
  by (simp_all add: leaseFor_def)

lemma freeAt_simps [simp]:
  "\<not> freeAt now Undefined" "freeAt now Null"
  "freeAt now (Defined x) \<longleftrightarrow> leasedAt x + leaseDuration x < now"
  by (simp_all add: freeAt_def)

lemma freeAt_mono: "freeAt now l \<Longrightarrow> now \<le> now' \<Longrightarrow> freeAt now' l"
  by (cases l) auto

lemma coll_ok_docSelf: "coll_ok c \<Longrightarrow> d \<in> set c \<Longrightarrow> x \<in> set c \<Longrightarrow> docSelf d = docSelf x \<Longrightarrow> d = x"
  by (auto simp: coll_ok_def distinct_map inj_on_def)

lemma coll_ok_docId: "coll_ok c \<Longrightarrow> d \<in> set c \<Longrightarrow> x \<in> set c \<Longrightarrow> docId d = docId x \<Longrightarrow> d = x"
  by (auto simp: coll_ok_def distinct_map inj_on_def)

lemma coll_ok_map:
  assumes "coll_ok c"
    and "\<And>d. d \<in> set c \<Longrightarrow> docSelf (f d) = docSelf d" "\<And>d. d \<in> set c \<Longrightarrow> docId (f d) = docId d"
    and "\<And>d. d \<in> set c \<Longrightarrow> entityId (wrappedInstance (f d)) = entityId (wrappedInstance d)"
  shows "coll_ok (map f c)"
proof -
  have "map docSelf (map f c) = map docSelf c" "map docId (map f c) = map docId c"
    using assms(2,3) by auto
  moreover have "\<forall>d \<in> set (map f c). docId d = entityId (wrappedInstance d)"
    using assms by (simp add: coll_ok_def)
  ultimately show ?thesis using assms(1) unfolding coll_ok_def by (simp only:)
qed

lemma replaceDocument_run:
  assumes "replaceDocument sv d c = (Inr u, c')"
  shows "c' = map (\<lambda>x. if docSelf x = docSelf d then d else x) c"
  using assms by (auto simp: replaceDocument_def split: if_splits)

lemma lease_document_run:
  assumes "lease_document sv now d b c = (Inr d', c')"
  shows "d' = leaseFor b now d \<and>
         c' = map (\<lambda>x. if docSelf x = docSelf d then leaseFor b now d else x) c"
  using assms unfolding lease_document_def Let_def andThen_Inr
  by (auto simp: leaseFor_def dest: replaceDocument_run)

lemma lease_documents_run:
  assumes "lease_documents sv now b ds c = (Inr ds', c')"
    and "distinct (map docSelf ds)"
    and "\<And>x d. x \<in> set ds \<Longrightarrow> d \<in> set c \<Longrightarrow> docSelf d = docSelf x \<Longrightarrow> d = x"
  shows "ds' = map (leaseFor b now) ds \<and>
         c' = map (\<lambda>d. if docSelf d \<in> docSelf ` set ds then leaseFor b now d else d) c"
  using assms
proof (induction ds arbitrary: c ds' c')
  case (Cons a ds)
  from Cons.prems(1) obtain a' c1 ds1 where
    a: "lease_document sv now a b c = (Inr a', c1)"
    and rest: "lease_documents sv now b ds c1 = (Inr ds1, c')" and ds': "ds' = a' # ds1"
    by (auto simp: andThen_Inr)
  from lease_document_run [OF a] have a': "a' = leaseFor b now a"
    and c1: "c1 = map (\<lambda>x. if docSelf x = docSelf a then leaseFor b now a else x) c" by auto
  have IH: "ds1 = map (leaseFor b now) ds \<and>
      c' = map (\<lambda>d. if docSelf d \<in> docSelf ` set ds then leaseFor b now d else d) c1"
    using rest Cons.prems(2,3) by (intro Cons.IH) (auto simp: c1 split: if_splits)
  have "c1 = map (\<lambda>x. if docSelf x = docSelf a then leaseFor b now x else x) c"
    unfolding c1 using Cons.prems(3) [of a] by (intro map_cong) auto
  with IH a' ds' Cons.prems(2) show ?case by auto
qed simp

lemma nextForStateQuery_mem:
  "d \<in> set (nextForStateQuery st n now c) \<Longrightarrow>
   d \<in> set c \<and> state (wrappedInstance d) = st \<and> freeAt now (docLease d)"
  by (auto simp: nextForStateQuery_def dest: batch_filter)

lemma nextForStateQuery_distinct:
  assumes "coll_ok c"
  shows "distinct (map docSelf (nextForStateQuery st n now c))"
    and "distinct (map docId (nextForStateQuery st n now c))"
proof -
  have d: "distinct (nextForStateQuery st n now c)"
    using assms by (simp add: nextForStateQuery_def batch_distinct coll_ok_def distinct_map)
  have sub: "set (nextForStateQuery st n now c) \<subseteq> set c"
    using nextForStateQuery_mem by blast
  from d sub assms show "distinct (map docSelf (nextForStateQuery st n now c))"
    by (auto simp: coll_ok_def distinct_map intro: inj_on_subset)
  from d sub assms show "distinct (map docId (nextForStateQuery st n now c))"
    by (auto simp: coll_ok_def distinct_map intro: inj_on_subset)
qed

text \<open>
  The characterisation of a successful \<open>nextForState\<close>: it answers the selected documents with
  their new lease, and writes that lease, and nothing else, to exactly those documents.
\<close>

lemma nextForState_js_run:
  assumes "coll_ok c" and "nextForState_js sv now st limit b c = (Inr r, c')"
  shows "r = DocumentsBody (map (leaseFor b now) (nextForStateQuery st (nat limit) now c))"
    and "c' = map (\<lambda>d. if d \<in> set (nextForStateQuery st (nat limit) now c)
                      then leaseFor b now d else d) c"
proof -
  let ?q = "nextForStateQuery st (nat limit) now c"
  from assms(2) obtain ds where l: "lease_documents sv now b ?q c = (Inr ds, c')"
    and r: "r = DocumentsBody ds"
    by (auto simp: nextForState_js_def andThen_Inr split: if_splits option.splits)
  have run: "ds = map (leaseFor b now) ?q \<and>
      c' = map (\<lambda>d. if docSelf d \<in> docSelf ` set ?q then leaseFor b now d else d) c"
    using l nextForStateQuery_distinct(1) [OF assms(1)]
    by (rule lease_documents_run) (use assms(1) nextForStateQuery_mem coll_ok_docSelf in blast)
  from run r show "r = DocumentsBody (map (leaseFor b now) ?q)" by simp
  have "\<And>d. d \<in> set c \<Longrightarrow> docSelf d \<in> docSelf ` set ?q \<longleftrightarrow> d \<in> set ?q"
    using assms(1) nextForStateQuery_mem coll_ok_docSelf by blast
  with run show "c' = map (\<lambda>d. if d \<in> set ?q then leaseFor b now d else d) c"
    by (auto intro: map_cong)
qed

lemma invoke_Inr: "invoke p c = (Inr a, c') \<longleftrightarrow> p c = (Inr a, c')"
  by (auto simp: invoke_def split: prod.splits sum.splits)

lemma invoke_Inl: "invoke p c = (Inl e, c') \<Longrightarrow> c' = c"
  by (auto simp: invoke_def split: prod.splits sum.splits)

lemma leaseQuery_single:
  assumes "coll_ok c" and "d \<in> set c"
  shows "leaseQuery (docId d) c = [d]"
proof -
  have "set (leaseQuery (docId d) c) = {d}"
    using assms coll_ok_docId [OF assms(1)] by (auto simp: leaseQuery_def coll_ok_def)
  moreover have "distinct (leaseQuery (docId d) c)"
    using assms(1) by (auto simp: leaseQuery_def coll_ok_def distinct_map)
  ultimately show ?thesis
    by (metis distinct.simps(2) empty_iff insertI1 list.exhaust list.set(1) list.set_intros(1)
        list.set_intros(2) singletonD)
qed

lemma leaseQuery_none: "coll_ok c \<Longrightarrow> k \<notin> docId ` set c \<Longrightarrow> leaseQuery k c = []"
  by (auto simp: leaseQuery_def coll_ok_def filter_empty_conv)

end
