(* ===== verification/Cosmos_Store.thy ===== *)
theory Cosmos_Store
  imports Cosmos_Lease
begin

text \<open>
  The CosmosDB entity stores: \<open>CosmosLeaseContext\<close>, the item operations of
  \<open>CosmosDbApiImpl\<close>, and the write path the two stores \<open>CosmosTransferProcessStore\<close> and
  \<open>CosmosContractNegotiationStore\<close> share, generic in the entity. Retries are those of an
  external library; an operation here is its last attempt. JSON conversion is the identity.
  Every remote call has its own \<open>service\<close> outcome; \<open>writeService\<close> is that of an upsert or a
  delete: the error the client raises, if any, and the self link the service gives a new item.
\<close>

record writeService =
  writeError :: "string option"
  newSelf :: string

definition mk_document :: "string \<Rightarrow> 'a stateful_entity_scheme \<Rightarrow> 'a stateful_entity_scheme document" where
  "mk_document pk process =
     \<lparr>docId = entityId process, docSelf = [], partitionKey = pk, wrappedInstance = process,
      docLease = Null\<rparr>"

text \<open>\<open>saveItem\<close>: an upsert by identifier.\<close>

definition saveItem ::
  "writeService \<Rightarrow> 'e document \<Rightarrow> ('e document list, unit) op" where
  "saveItem w d =
     (case writeError w of
        Some m \<Rightarrow> throw (EdcException m)
      | None \<Rightarrow>
          modify (\<lambda>c. if docId d \<in> docId ` set c
                      then map (\<lambda>x. if docId x = docId d then d\<lparr>docSelf := docSelf x\<rparr> else x) c
                      else c @ [d\<lparr>docSelf := newSelf w\<rparr>]))"

definition queryItemById :: "string \<Rightarrow> ('e document list, 'e document option) op" where
  "queryItemById ident = gets (\<lambda>c. List.find (\<lambda>d. docId d = ident) c)"

text \<open>\<open>deleteItem\<close>; \<open>False\<close> is the client's \<open>NotFoundException\<close>.\<close>

definition deleteItem :: "writeService \<Rightarrow> string \<Rightarrow> ('e document list, bool) op" where
  "deleteItem w ident =
     andThen (queryItemById ident) (\<lambda>item.
       case item of
         None \<Rightarrow> ret False
       | Some d \<Rightarrow>
           (case writeError w of
              Some m \<Rightarrow> throw (EdcException m)
            | None \<Rightarrow> andThen (modify (filter (\<lambda>x. docId x \<noteq> ident))) (\<lambda>_. ret True)))"

section \<open>CosmosLeaseContext\<close>

definition writeLease ::
  "service \<Rightarrow> int \<Rightarrow> string \<Rightarrow> string \<Rightarrow> bool \<Rightarrow> ('a collection, unit) op" where
  "writeLease sv now leaseHolder entityId' w =
     andThen (invoke (lease_js sv now entityId' leaseHolder w)) (\<lambda>_. ret ())"

definition breakLease :: "service \<Rightarrow> int \<Rightarrow> string \<Rightarrow> string \<Rightarrow> ('a collection, unit) op" where
  "breakLease sv now leaseHolder ident = writeLease sv now leaseHolder ident False"

definition acquireLease :: "service \<Rightarrow> int \<Rightarrow> string \<Rightarrow> string \<Rightarrow> ('a collection, unit) op" where
  "acquireLease sv now leaseHolder ident = writeLease sv now leaseHolder ident True"

text \<open>
  The client raises \<open>BadRequestException\<close> for a procedure that throws; the stores turn it into
  an \<open>EdcException\<close>.
\<close>

definition badRequestToEdc :: "('s, 'a) op \<Rightarrow> ('s, 'a) op" where
  "badRequestToEdc m =
     catching m (\<lambda>e. case e of JsThrow msg \<Rightarrow> throw (EdcException msg) | _ \<Rightarrow> throw e)"

section \<open>The stores\<close>

text \<open>The outcomes of the three remote calls of one write.\<close>

record callOutcomes =
  acquireOutcome :: service
  writeOutcome :: writeService
  breakOutcome :: service

definition cosmos_find :: "string \<Rightarrow> ('a collection, 'a stateful_entity_scheme option) op" where
  "cosmos_find ident =
     andThen (queryItemById ident) (\<lambda>obj. ret (map_option wrappedInstance obj))"

definition cosmos_create ::
  "writeService \<Rightarrow> string \<Rightarrow> 'a stateful_entity_scheme \<Rightarrow> ('a collection, unit) op" where
  "cosmos_create w pk process = saveItem w (mk_document pk process)"

definition cosmos_update ::
  "callOutcomes \<Rightarrow> int \<Rightarrow> string \<Rightarrow> string \<Rightarrow> 'a stateful_entity_scheme \<Rightarrow> ('a collection, unit) op" where
  "cosmos_update o' now pk leaseHolder process =
     (let document = mk_document pk process
      in badRequestToEdc
           (andThen (acquireLease (acquireOutcome o') now leaseHolder (entityId process)) (\<lambda>_.
            andThen (saveItem (writeOutcome o') document) (\<lambda>_.
            breakLease (breakOutcome o') now leaseHolder (entityId process)))))"

text \<open>
  \<open>delete\<close> of the transfer process store: a missing item is ignored.
\<close>

definition cosmos_delete ::
  "callOutcomes \<Rightarrow> int \<Rightarrow> string \<Rightarrow> string \<Rightarrow> ('a collection, unit) op" where
  "cosmos_delete o' now leaseHolder processId =
     badRequestToEdc
       (andThen (acquireLease (acquireOutcome o') now leaseHolder processId) (\<lambda>_.
        andThen (deleteItem (writeOutcome o') processId) (\<lambda>_. ret ())))"

text \<open>
  \<open>nextForState\<close>: the fallback turns a failed call into null, which is an empty list.
\<close>

definition cosmos_nextForState ::
  "int \<Rightarrow> int \<Rightarrow> string \<times> int \<times> service \<Rightarrow> ('a collection, 'a stateful_entity_scheme list) op" where
  "cosmos_nextForState st limit q c =
     (case q of (leaseHolderName, now, sv) \<Rightarrow>
        (case invoke (nextForState_js sv now st limit leaseHolderName) c of
           (Inl _, c') \<Rightarrow> (Inr [], c')
         | (Inr (DocumentsBody l), c') \<Rightarrow> (Inr (map wrappedInstance l), c')
         | (Inr _, c') \<Rightarrow> (Inr [], c')))"

section \<open>The lease procedure\<close>

definition lockedByOther :: "string \<Rightarrow> 'e document \<Rightarrow> bool" where
  "lockedByOther b d \<longleftrightarrow> (\<exists>l. docLease d = Defined l \<and> leasedBy l \<noteq> b)"

lemma lease_js_locked:
  assumes "coll_ok c" "d \<in> set c" "lockedByOther b d"
  shows "\<exists>e. invoke (lease_js sv now (docId d) b w) c = (Inl (JsThrow e), c)"
  using assms leaseQuery_single [OF assms(1,2)]
  by (auto simp: invoke_def lease_js_def lockedByOther_def split: option.splits)

lemma lease_js_frame:
  assumes "coll_ok c"
  shows "\<exists>f. snd (invoke (lease_js sv now k b w) c) = map f c \<and>
             (\<forall>d \<in> set c. f d = d \<or> (docId d = k \<and> \<not> lockedByOther b d \<and> w \<and> f d = leaseFor b now d))"
proof (cases "invoke (lease_js sv now k b w) c")
  case (Pair r c')
  show ?thesis
  proof (cases "c' = c")
    case True
    with Pair show ?thesis by (intro exI [of _ id]) simp
  next
    case False
    with Pair obtain body where "invoke (lease_js sv now k b w) c = (Inr body, c')"
      by (cases r) (auto dest: invoke_Inl)
    then have r: "lease_js sv now k b w c = (Inr body, c')" by (simp add: invoke_Inr)
    with False obtain d where q: "leaseQuery k c = [d]"
      by (cases "leaseQuery k c") (auto simp: lease_js_def split: if_splits option.splits list.splits)
    then have d: "d \<in> set c" "docId d = k"
      using assms by (auto simp: leaseQuery_def coll_ok_def filter_eq_Cons_iff)
    from r q False have nl: "\<not> lockedByOther b d" and w: "w"
      by (auto simp: lease_js_def lockedByOther_def split: if_splits option.splits js.splits)
    from r q w nl obtain d' where "lease_document sv now d b c = (Inr d', c')"
      by (cases "docLease d")
         (auto simp: lease_js_def lockedByOther_def andThen_Inr split: if_splits option.splits)
    from lease_document_run [OF this]
    have c': "c' = map (\<lambda>x. if docSelf x = docSelf d then leaseFor b now d else x) c" by simp
    show ?thesis
      using Pair c' d nl w coll_ok_docSelf [OF assms(1) _ d(1)]
      by (intro exI [of _ "\<lambda>x. if docSelf x = docSelf d then leaseFor b now d else x"]) auto
  qed
qed

lemma lease_js_run:
  assumes "coll_ok c"
  shows "invoke (lease_js working_service now k b w) c =
    (case List.find (\<lambda>d. docId d = k) c of
       None \<Rightarrow> (Inr (TextBody ''No documents found!''), c)
     | Some d \<Rightarrow>
         if lockedByOther b d
         then (Inl (JsThrow ''Document is locked by another connector''), c)
         else if w
         then (Inr (DocumentBody (leaseFor b now d)),
               map (\<lambda>x. if docId x = k then leaseFor b now x else x) c)
         else (Inr (DocumentBody (d\<lparr>docLease := Null\<rparr>)), c))"
proof (cases "List.find (\<lambda>d. docId d = k) c")
  case None
  then have "k \<notin> docId ` set c" by (auto dest: find_NoneD)
  then have "leaseQuery k c = []" by (rule leaseQuery_none [OF assms])
  with None show ?thesis by (simp add: invoke_def lease_js_def)
next
  case (Some d)
  then have d: "d \<in> set c" "docId d = k" by (auto dest: find_SomeD)
  with assms leaseQuery_single have q: "leaseQuery k c = [d]" by blast
  have m: "map (\<lambda>x. if docSelf x = docSelf d then leaseFor b now d else x) c =
           map (\<lambda>x. if docId x = k then leaseFor b now x else x) c"
  proof (rule map_cong [OF refl])
    fix x assume x: "x \<in> set c"
    show "(if docSelf x = docSelf d then leaseFor b now d else x) =
          (if docId x = k then leaseFor b now x else x)"
      using d coll_ok_docSelf [OF assms x d(1)] coll_ok_docId [OF assms x d(1)]
      by (cases "x = d") auto
  qed
  have "lease_document working_service now d b c =
    (Inr (leaseFor b now d), map (\<lambda>x. if docSelf x = docSelf d then leaseFor b now d else x) c)"
    by (simp add: lease_document_def Let_def replaceDocument_def andThen_def leaseFor_def)
  then have l: "lease_document working_service now d b c =
    (Inr (leaseFor b now d), map (\<lambda>x. if docId x = k then leaseFor b now x else x) c)"
    by (simp only: m)
  show ?thesis
    using Some q l
    by (cases "docLease d")
       (auto simp: invoke_def lease_js_def lockedByOther_def andThen_def [of "lease_document _ _ _ _"])
qed

lemma lease_single_map:
  assumes "distinct (map docSelf c)" and "filter (\<lambda>x. entityId (wrappedInstance x) = k) c = [d]"
  shows "map (\<lambda>x. if docSelf x = docSelf d then leaseFor b now d else x) c =
    map (\<lambda>x. if entityId (wrappedInstance x) = k then leaseFor b now x else x) c"
proof (rule map_cong [OF refl])
  fix x assume x: "x \<in> set c"
  have iff: "y \<in> set c \<and> entityId (wrappedInstance y) = k \<longleftrightarrow> y = d" for y
    using arg_cong [OF assms(2), of set] by auto
  then have "docSelf x = docSelf d \<longleftrightarrow> x = d"
    using assms(1) x by (auto simp: distinct_map inj_on_def)
  with iff x show "(if docSelf x = docSelf d then leaseFor b now d else x) =
      (if entityId (wrappedInstance x) = k then leaseFor b now x else x)"
    by (cases "x = d") auto
qed

text \<open>
  (C3) \<open>lease.js\<close>, on every branch, whatever the service does and whatever the collection
  holds: a query that is not accepted or fails, an object found in no document (answered with a
  text) or in more than one, a document another connector holds (refused, whether or not that
  lease has expired), and a replacement that is not accepted or fails. Only a call that asks to
  lease the one document of the object changes the collection: that document alone gets a lease
  of 60 seconds in the caller's name. Every throw, and a call that asks to break the lease,
  leaves the collection as it is. Self links are assumed unique, as the service promises.
\<close>

theorem lease_js_spec:
  assumes "distinct (map docSelf c)"
  shows "invoke (lease_js sv now k b w) c =
    (if \<not> queryAccepted sv
     then (Inl (JsThrow ''Unable to read document details, abort ''), c)
     else if queryError sv \<noteq> None
     then (Inl (JsThrow (''Error'' @ the (queryError sv))), c)
     else
       case filter (\<lambda>x. entityId (wrappedInstance x) = k) c of
         [] \<Rightarrow> (Inr (TextBody ''No documents found!''), c)
       | [d] \<Rightarrow>
           if lockedByOther b d
           then (Inl (JsThrow ''Document is locked by another connector''), c)
           else if \<not> w then (Inr (DocumentBody (d\<lparr>docLease := Null\<rparr>)), c)
           else if \<not> replaceAccepted sv (docSelf d)
           then (Inl (JsThrow ''Unable to update Document, abort''), c)
           else if replaceError sv (docSelf d) \<noteq> None
           then (Inl (JsThrow ''Unable to update Document, abort ''), c)
           else (Inr (DocumentBody (leaseFor b now d)),
                 map (\<lambda>x. if entityId (wrappedInstance x) = k then leaseFor b now x else x) c)
       | ds \<Rightarrow> (Inl (JsThrow (''too many docs found for query: expected 1, got '' @
                          showNat (length ds))), c))"
proof (cases "filter (\<lambda>x. entityId (wrappedInstance x) = k) c")
  case Nil
  then show ?thesis by (simp add: invoke_def lease_js_def leaseQuery_def split: option.split)
next
  case (Cons d ds)
  note q = Cons
  show ?thesis
  proof (cases ds)
    case Nil
    have m: "map (\<lambda>x. if docSelf x = docSelf d then leaseFor b now d else x) c =
        map (\<lambda>x. if entityId (wrappedInstance x) = k then leaseFor b now x else x) c"
      using assms q Nil by (intro lease_single_map) simp_all
    have "lease_document sv now d b c =
      (if \<not> replaceAccepted sv (docSelf d) then (Inl (JsThrow ''Unable to update Document, abort''), c)
       else if replaceError sv (docSelf d) \<noteq> None
       then (Inl (JsThrow ''Unable to update Document, abort ''), c)
       else (Inr (leaseFor b now d),
             map (\<lambda>x. if docSelf x = docSelf d then leaseFor b now d else x) c))"
      by (simp add: lease_document_def Let_def replaceDocument_def andThen_def leaseFor_def)
    then have l: "lease_document sv now d b c =
      (if \<not> replaceAccepted sv (docSelf d) then (Inl (JsThrow ''Unable to update Document, abort''), c)
       else if replaceError sv (docSelf d) \<noteq> None
       then (Inl (JsThrow ''Unable to update Document, abort ''), c)
       else (Inr (leaseFor b now d),
             map (\<lambda>x. if entityId (wrappedInstance x) = k then leaseFor b now x else x) c))"
      by (simp only: m)
    show ?thesis using q Nil l
      by (cases "docLease d")
         (auto simp: invoke_def lease_js_def leaseQuery_def lockedByOther_def
           andThen_def [of "lease_document _ _ _ _"] split: option.split)
  next
    case (Cons d' ds')
    then show ?thesis using q
      by (simp add: invoke_def lease_js_def leaseQuery_def split: option.split)
  qed
qed

definition demo_entity_doc :: "string \<Rightarrow> int \<Rightarrow> int \<Rightarrow> lease js \<Rightarrow> unit stateful_entity_scheme document" where
  "demo_entity_doc k st ts l =
     \<lparr>docId = k, docSelf = ''/self/'' @ k, partitionKey = ''dataspaceconnector'',
      wrappedInstance = \<lparr>entityId = k, createdTimestamp = 0, state = st, stateCount = 1,
        stateTimestamp = ts, traceContext = [], errorDetail = None\<rparr>,
      docLease = l\<rparr>"

definition demo_collection :: "unit collection" where
  "demo_collection =
     [demo_entity_doc ''t1'' 100 20 Null,
      demo_entity_doc ''t2'' 100 10 Null,
      demo_entity_doc ''t3'' 100 5 (Defined \<lparr>leasedBy = ''A'', leasedAt = 1000, leaseDuration = 60000\<rparr>)]"

lemmas demo_collection_defs = demo_collection_def demo_entity_doc_def

lemma demo_collection_ok: "coll_ok demo_collection"
  by (simp add: coll_ok_def demo_collection_defs)

theorem lease_js_spec_witness:
  "distinct (map docSelf demo_collection) \<and>
   invoke (lease_js working_service 2000 ''t3'' ''B'' True) demo_collection =
     (Inl (JsThrow ''Document is locked by another connector''), demo_collection) \<and>
   invoke (lease_js working_service 2000 ''t1'' ''B'' True) demo_collection =
     (Inr (DocumentBody (leaseFor ''B'' 2000 (demo_entity_doc ''t1'' 100 20 Null))),
      leaseFor ''B'' 2000 (demo_entity_doc ''t1'' 100 20 Null) # tl demo_collection) \<and>
   invoke (lease_js (working_service\<lparr>replaceError := \<lambda>l. Some ''conflict''\<rparr>) 2000 ''t1'' ''B'' True)
     demo_collection = (Inl (JsThrow ''Unable to update Document, abort ''), demo_collection)"
proof -
  have d: "distinct (map docSelf demo_collection)" by (simp add: demo_collection_defs)
  show ?thesis
    using d lease_js_spec [OF d, of working_service 2000 "''t3''" "''B''" True]
      lease_js_spec [OF d, of working_service 2000 "''t1''" "''B''" True]
      lease_js_spec [OF d, of "working_service\<lparr>replaceError := \<lambda>l. Some ''conflict''\<rparr>" 2000
        "''t1''" "''B''" True]
    by (simp add: demo_collection_defs lockedByOther_def)
qed

lemma breakLease_snd [simp]: "snd (breakLease sv now leaseHolder ident c) = c"
proof -
  have "snd (invoke (lease_js sv now ident leaseHolder False) c) = c"
    by (auto simp: invoke_def lease_js_def Let_def split: if_splits option.splits js.splits)
  then show ?thesis
    by (auto simp: breakLease_def writeLease_def andThen_def split: prod.splits sum.splits)
qed

text \<open>
  Breaking a lease never reaches the collection: \<open>lease.js\<close> clears the lease of the
  document it read and answers with it, but does not replace the stored document, so
  \<open>CosmosLeaseContext.breakLease\<close> leaves the collection as it is, whatever the service does.
\<close>

theorem breakLease_not_persisted:
  "snd (breakLease sv now leaseHolder ident c) = c"
  by (rule breakLease_snd)

section \<open>The next batch\<close>

text \<open>Both outcomes of a call: it failed and changed nothing, or it leased the selected batch.\<close>

lemma cosmos_nextForState_cases:
  assumes "coll_ok c" and "cosmos_nextForState st limit (b, now, sv) c = (Inr es, c')"
  obtains (failed) "es = []" "c' = c"
  | (leased) "es = map wrappedInstance (nextForStateQuery st (nat limit) now c)"
      "c' = map (\<lambda>d. if d \<in> set (nextForStateQuery st (nat limit) now c)
                    then leaseFor b now d else d) c"
proof (cases "invoke (nextForState_js sv now st limit b) c")
  case (Pair r c1)
  show thesis
  proof (cases r)
    case (Inl e)
    with Pair assms(2) show thesis
      by (intro failed) (auto simp: cosmos_nextForState_def dest: invoke_Inl)
  next
    case (Inr body)
    with Pair have "nextForState_js sv now st limit b c = (Inr body, c1)" by (simp add: invoke_Inr)
    from nextForState_js_run [OF assms(1) this] Pair Inr assms(2) show thesis
      by (intro leased) (auto simp: cosmos_nextForState_def comp_def)
  qed
qed

lemma cosmos_nextForState_total: "\<exists>es c'. cosmos_nextForState st limit q c = (Inr es, c')"
  by (auto simp: cosmos_nextForState_def split: prod.splits sum.splits body.splits)

lemma cosmos_nextForState_member:
  assumes "coll_ok c" and "cosmos_nextForState st limit (b, now, sv) c = (Inr es, c')" and "e \<in> set es"
  obtains d where "d \<in> set c" "docId d = entityId e" "freeAt now (docLease d)"
    "d \<in> set (nextForStateQuery st (nat limit) now c)"
    "c' = map (\<lambda>d. if d \<in> set (nextForStateQuery st (nat limit) now c)
                  then leaseFor b now d else d) c"
  using assms(1,2)
proof (cases rule: cosmos_nextForState_cases)
  case leased
  with assms(3) obtain d where d: "d \<in> set (nextForStateQuery st (nat limit) now c)"
    "e = wrappedInstance d" by auto
  with assms(1) nextForStateQuery_mem [OF d(1)] leased(2) show thesis
    by (intro that [of d]) (auto simp: coll_ok_def)
qed (use assms(3) in simp)

lemma coll_ok_lease_map:
  "coll_ok c \<Longrightarrow> coll_ok (map (\<lambda>d. if P d then leaseFor b now d else d) c)"
  by (rule coll_ok_map) auto

lemma coll_ok_nextForState:
  assumes "coll_ok c"
  shows "coll_ok (snd (cosmos_nextForState st limit q c))"
proof -
  obtain b now sv where q: "q = (b, now, sv)" by (cases q)
  obtain es c' where r: "cosmos_nextForState st limit (b, now, sv) c = (Inr es, c')"
    using cosmos_nextForState_total by blast
  from assms r have "coll_ok c'"
    by (cases rule: cosmos_nextForState_cases) (simp_all add: assms coll_ok_lease_map)
  with q r show ?thesis by simp
qed

lemma lease_documents_working:
  "\<exists>ds' c'. lease_documents working_service now b ds c = (Inr ds', c')"
proof (induction ds arbitrary: c)
  case (Cons d ds)
  obtain c1 where "lease_document working_service now d b c = (Inr (leaseFor b now d), c1)"
    by (simp add: lease_document_def Let_def replaceDocument_def andThen_def leaseFor_def)
  with Cons [of c1] show ?case by (auto simp: andThen_def)
qed simp

lemma cosmos_nextForState_working:
  assumes "coll_ok c"
  shows "cosmos_nextForState st limit (b, now, working_service) c =
    (Inr (map wrappedInstance (nextForStateQuery st (nat limit) now c)),
     map (\<lambda>d. if d \<in> set (nextForStateQuery st (nat limit) now c) then leaseFor b now d else d) c)"
proof -
  obtain r c' where r: "nextForState_js working_service now st limit b c = (Inr r, c')"
    using lease_documents_working [of now b "nextForStateQuery st (nat limit) now c" c]
    by (auto simp: nextForState_js_def andThen_def)
  with nextForState_js_run [OF assms r] show ?thesis
    by (simp add: cosmos_nextForState_def invoke_def comp_def)
qed

definition freeFor :: "string \<times> int \<times> service \<Rightarrow> 'a collection \<Rightarrow> string \<Rightarrow> bool" where
  "freeFor q c k \<longleftrightarrow> (\<exists>d \<in> set c. docId d = k \<and> freeAt (fst (snd q)) (docLease d))"

definition notLaterThan :: "string \<times> int \<times> service \<Rightarrow> string \<times> int \<times> service \<Rightarrow> bool" where
  "notLaterThan q q' \<longleftrightarrow> fst (snd q) \<le> fst (snd q')"

definition withinLease :: "string \<times> int \<times> service \<Rightarrow> string \<times> int \<times> service \<Rightarrow> bool" where
  "withinLease q q' \<longleftrightarrow> fst (snd q') \<le> fst (snd q) + 60000"

text \<open>The stored procedures implement the leasing contract, with leases of one minute.\<close>

interpretation cosmos: lease_source cosmos_nextForState entityId freeFor notLaterThan withinLease
  coll_ok
proof unfold_locales
  fix c :: "'a collection" and st n and q q' :: "string \<times> int \<times> service" and es c' e k
  assume ok: "coll_ok c"
  obtain b now sv where q: "q = (b, now, sv)" by (cases q)
  let ?Q = "nextForStateQuery st (nat n) now c"
  show "coll_ok (snd (cosmos_nextForState st n q c))"
    using ok by (rule coll_ok_nextForState)
  show "distinct (map entityId es)" if "cosmos_nextForState st n q c = (Inr es, c')"
  proof -
    have "map (entityId \<circ> wrappedInstance) ?Q = map docId ?Q"
      using ok nextForStateQuery_mem by (fastforce simp: coll_ok_def)
    then have "distinct (map (entityId \<circ> wrappedInstance) ?Q)"
      using nextForStateQuery_distinct(2) [OF ok] by (simp only:)
    then show ?thesis
      using ok that q by (auto elim!: cosmos_nextForState_cases)
  qed
  show "freeFor q c (entityId e)" if "cosmos_nextForState st n q c = (Inr es, c')" "e \<in> set es"
    using ok that q by (auto simp: freeFor_def elim!: cosmos_nextForState_member)
  show "\<not> freeFor q' c' (entityId e)"
    if run: "cosmos_nextForState st n q c = (Inr es, c')" and e: "e \<in> set es"
      and w: "withinLease q q'"
  proof -
    from run e q ok obtain d where d: "d \<in> set ?Q" "entityId e = docId d"
      and c': "c' = map (\<lambda>d. if d \<in> set ?Q then leaseFor b now d else d) c"
      by (auto elim!: cosmos_nextForState_member)
    have "x = d" if "x \<in> set c" "docId x = docId d" for x
      using coll_ok_docId [OF ok that(1)] d(1) nextForStateQuery_mem that(2) by blast
    with d c' w q show ?thesis
      by (auto simp: freeFor_def withinLease_def split: if_splits)
  qed
  show "\<not> freeFor q' (snd (cosmos_nextForState st n q c)) k"
    if nf: "\<not> freeFor q' c k" and le: "notLaterThan q q'"
  proof -
    obtain es1 c1 where r: "cosmos_nextForState st n (b, now, sv) c = (Inr es1, c1)"
      using cosmos_nextForState_total by blast
    have "d \<notin> set ?Q" if "docId d = k" for d
      using nf le that q nextForStateQuery_mem [of d st "nat n" now c]
        freeAt_mono [of now "docLease d" "fst (snd q')"]
      by (auto simp: freeFor_def notLaterThan_def)
    with ok r nf have "\<not> freeFor q' c1 k"
      by (auto simp: freeFor_def elim!: cosmos_nextForState_cases)
    with q r show ?thesis by simp
  qed
qed

text \<open>
  (C4) \<open>nextForState\<close> with a working service: at most \<open>limit\<close> entities are handed out, oldest
  state change first, each in the asked state and not under a live lease; an eligible entity
  that is left out is no older than any that was taken; and afterwards exactly the documents
  handed out carry a new lease in the caller's name, all others being untouched.
\<close>

theorem cosmos_nextForState_spec:
  fixes c :: "'a collection"
  assumes "coll_ok c" and "0 \<le> limit"
  shows "\<exists>ds. set ds \<subseteq> set c \<and> distinct (map docId ds) \<and> int (length ds) \<le> limit \<and>
    sorted (map (\<lambda>d. stateTimestamp (wrappedInstance d)) ds) \<and>
    list_all (\<lambda>d. state (wrappedInstance d) = st \<and> freeAt now (docLease d)) ds \<and>
    list_all (\<lambda>d. d \<in> set ds \<or> state (wrappedInstance d) \<noteq> st \<or> \<not> freeAt now (docLease d) \<or>
         (int (length ds) = limit \<and>
          list_all (\<lambda>x. stateTimestamp (wrappedInstance x) \<le> stateTimestamp (wrappedInstance d)) ds)) c \<and>
    cosmos_nextForState st limit (b, now, working_service) c =
      (Inr (map wrappedInstance ds),
       map (\<lambda>d. if d \<in> set ds then leaseFor b now d else d) c)"
proof (intro exI conjI)
  let ?Q = "nextForStateQuery st (nat limit) now c"
  let ?el = "filter (\<lambda>t. state (wrappedInstance t) = st \<and> freeAt now (docLease t)) c"
  show "set ?Q \<subseteq> set c" using nextForStateQuery_mem by blast
  show "distinct (map docId ?Q)" using nextForStateQuery_distinct(2) [OF assms(1)] .
  have len: "length ?Q = min (nat limit) (length ?el)"
    by (simp add: nextForStateQuery_def batch_length)
  then show "int (length ?Q) \<le> limit" using assms(2) by simp
  show "sorted (map (\<lambda>d. stateTimestamp (wrappedInstance d)) ?Q)"
    unfolding nextForStateQuery_def by (rule batch_sorted)
  show "list_all (\<lambda>d. state (wrappedInstance d) = st \<and> freeAt now (docLease d)) ?Q"
    by (auto simp: list_all_iff dest: nextForStateQuery_mem)
  have "int (length ?Q) = limit"
    if "d \<in> set ?el" "d \<notin> set ?Q" for d
    using that len assms(2) batch_all [of ?el "nat limit"]
    unfolding nextForStateQuery_def by (cases "length ?el \<le> nat limit") auto
  moreover have "stateTimestamp (wrappedInstance x) \<le> stateTimestamp (wrappedInstance d)"
    if "d \<in> set ?el" "d \<notin> set ?Q" "x \<in> set ?Q" for d x
    using that unfolding nextForStateQuery_def by (intro batch_first) auto
  ultimately show "list_all (\<lambda>d. d \<in> set ?Q \<or> state (wrappedInstance d) \<noteq> st \<or>
       \<not> freeAt now (docLease d) \<or> (int (length ?Q) = limit \<and>
       list_all (\<lambda>x. stateTimestamp (wrappedInstance x) \<le> stateTimestamp (wrappedInstance d)) ?Q)) c"
    by (auto simp: list_all_iff)
  show "cosmos_nextForState st limit (b, now, working_service) c =
    (Inr (map wrappedInstance ?Q), map (\<lambda>d. if d \<in> set ?Q then leaseFor b now d else d) c)"
    by (rule cosmos_nextForState_working [OF assms(1)])
qed

text \<open>
  (C2) The contract the state machines rely on: whatever the connectors that call
  \<open>nextForState\<close>, for whatever states and batch sizes, and whichever calls the service fails,
  no entity is handed out twice by calls made within one minute of each other.
\<close>

theorem cosmos_batches_disjoint:
  fixes c :: "'a collection"
  assumes "coll_ok c"
    and "sorted_wrt (\<lambda>r r'. notLaterThan (snd (snd r)) (snd (snd r')) \<and>
                            withinLease (snd (snd r)) (snd (snd r'))) rs"
  shows "distinct (map entityId (concat (fetches cosmos_nextForState rs c)))"
  using assms by (rule cosmos.fetches_disjoint)

theorem cosmos_batches_disjoint_witness:
  "coll_ok demo_collection \<and>
   distinct (map entityId (concat (fetches cosmos_nextForState
     [(100, 1, ''A'', 2000, working_service), (100, 5, ''B'', 62000, working_service)]
     demo_collection)))"
  using demo_collection_ok
    cosmos_batches_disjoint [OF demo_collection_ok,
      of "[(100, 1, ''A'', 2000, working_service), (100, 5, ''B'', 62000, working_service)]"]
  by (simp add: notLaterThan_def withinLease_def)

theorem cosmos_nextForState_spec_witness:
  "coll_ok demo_collection \<and> (0::int) \<le> 1 \<and>
   (\<exists>ds. int (length ds) \<le> 1 \<and>
     cosmos_nextForState 100 1 (''B'', 2000, working_service) demo_collection =
      (Inr (map wrappedInstance ds),
       map (\<lambda>d. if d \<in> set ds then leaseFor ''B'' 2000 d else d) demo_collection))"
  using demo_collection_ok cosmos_nextForState_spec [OF demo_collection_ok, of 1 100 2000 "''B''"]
  by auto

end
