(* ===== verification/Cosmos_Exclusion.thy ===== *)
theory Cosmos_Exclusion
  imports Cosmos_Store
begin

text \<open>
  Several connectors on one CosmosDB collection: the interleavings of the store operations as a
  step relation, and the exclusion the leases give. Every remote call may fail in every way
  \<open>service\<close> and \<open>writeService\<close> allow; the only assumption on the service is that the self
  link of a new item is new.
\<close>

datatype 'a cosmos_call =
    FindCall string
  | CreateCall "'a stateful_entity_scheme"
  | UpdateCall "'a stateful_entity_scheme"
  | DeleteCall string
  | NextCall int int

inductive cosmos_step ::
  "string \<Rightarrow> int \<Rightarrow> 'a cosmos_call \<Rightarrow> 'a collection \<Rightarrow> 'a collection \<Rightarrow> bool" where
  step_find: "cosmos_step b now (FindCall k) c (snd (cosmos_find k c))"
| step_create: "newSelf w \<notin> docSelf ` set c \<Longrightarrow>
     cosmos_step b now (CreateCall e) c (snd (cosmos_create w pk e c))"
| step_update: "newSelf (writeOutcome o') \<notin> docSelf ` set c \<Longrightarrow>
     cosmos_step b now (UpdateCall e) c (snd (cosmos_update o' now pk b e c))"
| step_delete: "cosmos_step b now (DeleteCall k) c (snd (cosmos_delete o' now b k c))"
| step_next: "cosmos_step b now (NextCall st limit) c
     (snd (cosmos_nextForState st limit (b, now, sv) c))"

inductive cosmos_run ::
  "(string \<times> int \<times> 'a cosmos_call) list \<Rightarrow> 'a collection \<Rightarrow> 'a collection \<Rightarrow> bool" where
  run_done: "cosmos_run [] c c"
| run_step: "cosmos_step b now call c c1 \<Longrightarrow> cosmos_run ops c1 c' \<Longrightarrow>
     cosmos_run ((b, now, call) # ops) c c'"

inductive_cases cosmos_runE: "cosmos_run (op # ops) c c'"

section \<open>What one operation does to the other documents\<close>

lemma acquireLease_frame:
  assumes "coll_ok c"
  shows "\<exists>f. snd (acquireLease sv now b k c) = map f c \<and>
     (\<forall>d \<in> set c. f d = d \<or> (docId d = k \<and> \<not> lockedByOther b d \<and> f d = leaseFor b now d))"
proof -
  have "snd (acquireLease sv now b k c) = snd (invoke (lease_js sv now k b True) c)"
    by (auto simp: acquireLease_def writeLease_def andThen_def split: prod.splits sum.splits)
  with lease_js_frame [OF assms, of sv now k b True] show ?thesis by auto
qed

lemma acquireLease_ok:
  assumes "coll_ok c"
  shows "coll_ok (snd (acquireLease sv now b k c))"
    and "docSelf ` set (snd (acquireLease sv now b k c)) = docSelf ` set c"
proof -
  obtain f where f: "snd (acquireLease sv now b k c) = map f c"
    and fd: "\<forall>d \<in> set c. f d = d \<or> (docId d = k \<and> \<not> lockedByOther b d \<and> f d = leaseFor b now d)"
    using acquireLease_frame [OF assms] by blast
  let ?g = "\<lambda>d. if f d = d then d else leaseFor b now d"
  have fg: "map f c = map ?g c" using fd by (intro map_cong) auto
  show "coll_ok (snd (acquireLease sv now b k c))"
    unfolding f fg using assms by (rule coll_ok_map) auto
  show "docSelf ` set (snd (acquireLease sv now b k c)) = docSelf ` set c"
    unfolding f fg set_map image_image by (rule image_cong) auto
qed

lemma acquireLease_other:
  assumes "coll_ok c" "d \<in> set c" "docId d \<noteq> k \<or> lockedByOther b d"
  shows "d \<in> set (snd (acquireLease sv now b k c))"
  using acquireLease_frame [OF assms(1), of sv now b k] assms(2,3) by force

lemma acquireLease_locked:
  assumes "coll_ok c" "d \<in> set c" "lockedByOther b d"
  shows "\<exists>e. acquireLease sv now b (docId d) c = (Inl (JsThrow e), c)"
  using lease_js_locked [OF assms, of sv now True]
  by (auto simp: acquireLease_def writeLease_def andThen_def)

lemma mk_document_simps [simp]:
  "docId (mk_document pk e) = entityId e" "wrappedInstance (mk_document pk e) = e"
  "docLease (mk_document pk e) = Null"
  by (simp_all add: mk_document_def)

lemma saveItem_ok:
  assumes "coll_ok c" "newSelf w \<notin> docSelf ` set c"
  shows "coll_ok (snd (saveItem w (mk_document pk e) c))"
proof (cases "writeError w = None \<and> entityId e \<in> docId ` set c")
  case True
  have "coll_ok (map (\<lambda>x. if docId x = entityId e
      then (mk_document pk e)\<lparr>docSelf := docSelf x\<rparr> else x) c)"
    using assms(1) by (rule coll_ok_map) (use assms(1) in \<open>auto simp: coll_ok_def mk_document_def\<close>)
  then show ?thesis using True by (simp add: saveItem_def)
next
  case False
  then show ?thesis
    using assms by (auto simp: saveItem_def mk_document_def coll_ok_def split: option.splits)
qed

lemma saveItem_unleased:
  assumes "d \<in> set (snd (saveItem w (mk_document pk e) c))" "writeError w = None" "docId d = entityId e"
  shows "docLease d = Null"
proof (cases "entityId e \<in> docId ` set c")
  case True
  with assms show ?thesis by (auto simp: saveItem_def split: if_splits)
next
  case False
  then have "d \<notin> set c" using assms(3) by (metis imageI)
  with False assms show ?thesis by (simp add: saveItem_def)
qed

lemma saveItem_other:
  "d \<in> set c \<Longrightarrow> docId d \<noteq> entityId e \<Longrightarrow> d \<in> set (snd (saveItem w (mk_document pk e) c))"
  by (force simp: saveItem_def mk_document_def split: option.splits)

lemma deleteItem_ok: "coll_ok c \<Longrightarrow> coll_ok (snd (deleteItem w k c))"
  by (auto simp: deleteItem_def queryItemById_def coll_ok_def distinct_map inj_on_def
      split: option.splits)

lemma deleteItem_other: "d \<in> set c \<Longrightarrow> docId d \<noteq> k \<Longrightarrow> d \<in> set (snd (deleteItem w k c))"
  by (auto simp: deleteItem_def queryItemById_def split: option.splits)

lemma badRequestToEdc_snd [simp]: "snd (badRequestToEdc m s) = snd (m s)"
  by (auto simp: badRequestToEdc_def catching_def split: prod.splits sum.splits java_exn.splits)

lemma snd_andThenI:
  assumes "P (snd (m s))" and "\<And>a. P (snd (f a (snd (m s))))"
  shows "P (snd (andThen m f s))"
  using assms by (auto simp: andThen_def split: prod.splits sum.splits)

section \<open>Exclusion\<close>

lemma cosmos_update_ok:
  assumes "coll_ok c" "newSelf (writeOutcome o') \<notin> docSelf ` set c"
  shows "coll_ok (snd (cosmos_update o' now pk b e c))"
proof -
  let ?a = "acquireLease (acquireOutcome o') now b (entityId e)"
  have a: "coll_ok (snd (?a c))" "newSelf (writeOutcome o') \<notin> docSelf ` set (snd (?a c))"
    using acquireLease_ok [OF assms(1)] assms(2) by simp_all
  then show ?thesis
    using saveItem_ok [OF a]
    by (simp add: cosmos_update_def Let_def snd_andThenI [where P = coll_ok])
qed

lemma cosmos_update_other:
  assumes "coll_ok c" "d \<in> set c" "docId d \<noteq> entityId e \<or> lockedByOther b d"
  shows "d \<in> set (snd (cosmos_update o' now pk b e c))"
proof (cases "docId d = entityId e")
  case True
  with assms obtain m where "acquireLease (acquireOutcome o') now b (entityId e) c = (Inl (JsThrow m), c)"
    using acquireLease_locked by metis
  with assms(2) show ?thesis by (simp add: cosmos_update_def Let_def andThen_def)
next
  case False
  let ?a = "acquireLease (acquireOutcome o') now b (entityId e)"
  have "d \<in> set (snd (?a c))" using acquireLease_other assms False by metis
  with saveItem_other [OF this False] show ?thesis
    by (simp add: cosmos_update_def Let_def snd_andThenI [where P = "\<lambda>c. d \<in> set c"])
qed

lemma cosmos_delete_ok: "coll_ok c \<Longrightarrow> coll_ok (snd (cosmos_delete o' now b k c))"
  by (simp add: cosmos_delete_def snd_andThenI [where P = coll_ok] acquireLease_ok deleteItem_ok)

lemma cosmos_delete_other:
  assumes "coll_ok c" "d \<in> set c" "docId d \<noteq> k \<or> lockedByOther b d"
  shows "d \<in> set (snd (cosmos_delete o' now b k c))"
proof (cases "docId d = k")
  case True
  with assms obtain m where "acquireLease (acquireOutcome o') now b k c = (Inl (JsThrow m), c)"
    using acquireLease_locked by metis
  with assms(2) show ?thesis by (simp add: cosmos_delete_def andThen_def)
next
  case False
  let ?a = "acquireLease (acquireOutcome o') now b k"
  have "d \<in> set (snd (?a c))" using acquireLease_other assms False by metis
  with deleteItem_other [OF this False] show ?thesis
    by (simp add: cosmos_delete_def snd_andThenI [where P = "\<lambda>c. d \<in> set c"])
qed

lemma cosmos_next_other:
  assumes "coll_ok c" "d \<in> set c" "\<not> freeAt now (docLease d)"
  shows "d \<in> set (snd (cosmos_nextForState st limit (b, now, sv) c))"
proof -
  obtain es c' where r: "cosmos_nextForState st limit (b, now, sv) c = (Inr es, c')"
    using cosmos_nextForState_total by blast
  have "d \<notin> set (nextForStateQuery st (nat limit) now c)"
    using assms(3) nextForStateQuery_mem by blast
  with assms r have "d \<in> set c'" by (auto elim!: cosmos_nextForState_cases)
  with r show ?thesis by simp
qed

lemma cosmos_step_ok: "cosmos_step b now call c c' \<Longrightarrow> coll_ok c \<Longrightarrow> coll_ok c'"
  by (induction rule: cosmos_step.induct)
     (auto simp: cosmos_find_def queryItemById_def cosmos_create_def saveItem_ok cosmos_update_ok
       cosmos_delete_ok coll_ok_nextForState)

text \<open>\<open>outsider\<close>: an operation of another connector, made while the lease lives.\<close>

definition outsider :: "lease \<Rightarrow> string \<times> int \<times> 'a cosmos_call \<Rightarrow> bool" where
  "outsider l op \<longleftrightarrow>
     (case op of (b, now, call) \<Rightarrow> b \<noteq> leasedBy l \<and> now \<le> leasedAt l + leaseDuration l)"

lemma cosmos_step_outsider:
  assumes "cosmos_step b now call c c'" "coll_ok c" "d \<in> set c" "docLease d = Defined l"
    "outsider l (b, now, call)" "\<And>e. call = CreateCall e \<Longrightarrow> entityId e \<noteq> docId d"
  shows "d \<in> set c'"
proof -
  have locked: "lockedByOther b d" and live: "\<not> freeAt now (docLease d)"
    using assms(4,5) by (auto simp: outsider_def lockedByOther_def)
  from assms(1,2,3,6) locked live show ?thesis
    by (induction rule: cosmos_step.induct)
       (auto simp: cosmos_find_def queryItemById_def cosmos_create_def
         intro: saveItem_other cosmos_update_other cosmos_delete_other cosmos_next_other)
qed

lemma cosmos_run_outsiders:
  assumes "cosmos_run ops c c'" and "coll_ok c" and "d \<in> set c" and "docLease d = Defined l"
    and "list_all (outsider l) ops"
  shows "coll_ok c' \<and> (d \<in> set c' \<or> (\<exists>b now e. (b, now, CreateCall e) \<in> set ops \<and> entityId e = docId d))"
  using assms
proof (induction rule: cosmos_run.induct)
  case (run_step b now call c c1 ops c')
  have ok1: "coll_ok c1" using run_step.hyps(1) run_step.prems(1) by (rule cosmos_step_ok)
  show ?case
  proof (cases "\<exists>e. call = CreateCall e \<and> entityId e = docId d")
    case True
    then have "\<exists>b' now' e. (b', now', CreateCall e) \<in> set ((b, now, call) # ops) \<and> entityId e = docId d"
      by auto
    moreover have "coll_ok c'" using run_step.hyps(2) ok1
      by (induction rule: cosmos_run.induct) (auto dest: cosmos_step_ok)
    ultimately show ?thesis by (intro conjI disjI2)
  next
    case False
    have "outsider l (b, now, call)" using run_step.prems(4) by simp
    with run_step.hyps(1) run_step.prems(1,2,3) False have "d \<in> set c1"
      by (blast intro: cosmos_step_outsider)
    then show ?thesis using run_step.IH ok1 run_step.prems(3,4) by auto
  qed
qed simp

text \<open>\<open>create\<close> saves the document without asking for the lease.\<close>

lemma create_overwrites:
  assumes "coll_ok c" and "d \<in> set c" and "entityId e = docId d" and "writeError w = None"
  shows "cosmos_create w pk e c =
    (Inr (), map (\<lambda>x. if x = d then (mk_document pk e)\<lparr>docSelf := docSelf d\<rparr> else x) c)"
proof -
  have "x \<in> set c \<Longrightarrow> docId x = docId d \<longleftrightarrow> x = d" for x
    using coll_ok_docId [OF assms(1), of x d] assms(2) by auto
  then have "map (\<lambda>x. if docId x = docId d then (mk_document pk e)\<lparr>docSelf := docSelf x\<rparr> else x) c =
      map (\<lambda>x. if x = d then (mk_document pk e)\<lparr>docSelf := docSelf d\<rparr> else x) c"
    by (intro map_cong) auto
  moreover have "entityId e \<in> docId ` set c" using assms(2,3) by simp
  ultimately show ?thesis
    using assms(3,4) by (simp add: cosmos_create_def saveItem_def badRequestToEdc_def catching_def)
qed

text \<open>
  (C1) Exclusive access, and its gap: while a connector's lease on an entity lives, no
  interleaving of operations by other connectors changes, removes or re-leases its document,
  whichever of the remote calls fail, unless one of the operations is a \<open>create\<close> of an entity
  with the same identifier; and every collection reached keeps identifiers and self links
  unique. A \<open>create\<close> is not stopped by the lease: it is an upsert that asks for no lease, so one
  whose write succeeds, by any connector at any time, replaces the leased document (and no
  other one) by a document of the new entity that carries no lease.
\<close>

theorem lease_exclusive:
  assumes "cosmos_run ops c c'" and "coll_ok c" and "d \<in> set c" and "docLease d = Defined l"
    and "list_all (outsider l) ops"
  shows "coll_ok c' \<and>
    (d \<in> set c' \<or> (\<exists>b now e. (b, now, CreateCall e) \<in> set ops \<and> entityId e = docId d)) \<and>
    (\<forall>w pk e. entityId e = docId d \<and> writeError w = None \<longrightarrow>
       cosmos_create w pk e c =
         (Inr (), map (\<lambda>x. if x = d then (mk_document pk e)\<lparr>docSelf := docSelf d\<rparr> else x) c))"
  using cosmos_run_outsiders [OF assms] create_overwrites [OF assms(2,3)] by blast

section \<open>Updates\<close>

definition working_calls :: "string \<Rightarrow> callOutcomes" where
  "working_calls self = \<lparr>acquireOutcome = working_service,
     writeOutcome = \<lparr>writeError = None, newSelf = self\<rparr>, breakOutcome = working_service\<rparr>"

lemma breakLease_working:
  assumes "coll_ok c" and "\<And>d. d \<in> set c \<Longrightarrow> docId d = k \<Longrightarrow> docLease d = Null"
  shows "breakLease working_service now b k c = (Inr (), c)"
  using assms find_SomeD
  by (fastforce simp: breakLease_def writeLease_def andThen_def lease_js_run lockedByOther_def
      split: option.splits)

lemma acquireLease_working:
  assumes "coll_ok c" and "\<And>d. d \<in> set c \<Longrightarrow> docId d = k \<Longrightarrow> \<not> lockedByOther b d"
  shows "acquireLease working_service now b k c =
    (Inr (), map (\<lambda>x. if docId x = k then leaseFor b now x else x) c)"
proof (cases "List.find (\<lambda>d. docId d = k) c")
  case None
  then have "map (\<lambda>x. if docId x = k then leaseFor b now x else x) c = c"
    by (intro map_idI) (auto dest: find_NoneD)
  with None show ?thesis
    by (simp add: acquireLease_def writeLease_def andThen_def lease_js_run [OF assms(1)])
next
  case (Some d)
  then show ?thesis using assms(2) find_SomeD [OF Some]
    by (simp add: acquireLease_def writeLease_def andThen_def lease_js_run [OF assms(1)])
qed

text \<open>What an \<open>update\<close> that is not refused saves.\<close>

definition updated ::
  "string \<Rightarrow> string \<Rightarrow> 'a stateful_entity_scheme \<Rightarrow> 'a collection \<Rightarrow> 'a collection" where
  "updated self pk e c =
     (if entityId e \<in> docId ` set c
      then map (\<lambda>x. if docId x = entityId e then (mk_document pk e)\<lparr>docSelf := docSelf x\<rparr> else x) c
      else c @ [(mk_document pk e)\<lparr>docSelf := self\<rparr>])"

lemma save_over_lease:
  "saveItem \<lparr>writeError = None, newSelf = self\<rparr> (mk_document pk e)
     (map (\<lambda>x. if docId x = entityId e then leaseFor b now x else x) c) = (Inr (), updated self pk e c)"
proof -
  let ?c1 = "map (\<lambda>x. if docId x = entityId e then leaseFor b now x else x) c"
  have ids: "docId ` set ?c1 = docId ` set c" unfolding set_map image_image by (rule image_cong) auto
  have "?c1 = c" if "entityId e \<notin> docId ` set c"
    using that by (intro map_idI) (metis imageI)
  then show ?thesis unfolding updated_def saveItem_def using ids by (simp del: set_map cong: if_cong)
qed

lemma cosmos_update_unlocked:
  assumes ok: "coll_ok c" and "self \<notin> docSelf ` set c"
    and "\<And>d. d \<in> set c \<Longrightarrow> docId d = entityId e \<Longrightarrow> \<not> lockedByOther b d"
  shows "cosmos_update (working_calls self) now pk b e c = (Inr (), updated self pk e c)"
proof -
  let ?w = "\<lparr>writeError = None, newSelf = self\<rparr>"
  let ?c1 = "map (\<lambda>x. if docId x = entityId e then leaseFor b now x else x) c"
  have acq: "acquireLease working_service now b (entityId e) c = (Inr (), ?c1)"
    using ok assms(3) by (intro acquireLease_working) auto
  have ok1: "coll_ok ?c1" and self1: "newSelf ?w \<notin> docSelf ` set ?c1"
    using assms(2) coll_ok_lease_map [OF ok] by auto
  have c2: "updated self pk e c = snd (saveItem ?w (mk_document pk e) ?c1)"
    by (simp add: save_over_lease)
  have "breakLease working_service now b (entityId e) (updated self pk e c) = (Inr (), updated self pk e c)"
    unfolding c2 using saveItem_ok [OF ok1 self1]
    by (rule breakLease_working) (erule saveItem_unleased, simp_all)
  then show ?thesis
    using acq by (simp add: cosmos_update_def working_calls_def badRequestToEdc_def catching_def andThen_def
        save_over_lease)
qed

text \<open>
  An \<open>update\<close> whose calls succeed, on every branch: a document another connector leased is
  refused and the collection kept; otherwise the entity is stored (in its document's place, or
  as a new document) and the document carries no lease afterwards. The lease is gone although
  breaking it has no effect of its own, because the document \<open>update\<close> saves carries none.
\<close>

theorem cosmos_update_spec:
  assumes "coll_ok c" and "self \<notin> docSelf ` set c"
  shows "cosmos_update (working_calls self) now pk b e c =
    (case List.find (\<lambda>d. docId d = entityId e) c of
       None \<Rightarrow> (Inr (), c @ [(mk_document pk e)\<lparr>docSelf := self\<rparr>])
     | Some d \<Rightarrow>
         if lockedByOther b d
         then (Inl (EdcException ''Document is locked by another connector''), c)
         else (Inr (), map (\<lambda>x. if docId x = entityId e
                                then (mk_document pk e)\<lparr>docSelf := docSelf x\<rparr> else x) c))"
proof (cases "List.find (\<lambda>d. docId d = entityId e) c")
  case None
  then have absent: "d \<in> set c \<Longrightarrow> docId d \<noteq> entityId e" for d by (auto dest: find_NoneD)
  then have "cosmos_update (working_calls self) now pk b e c = (Inr (), updated self pk e c)"
    by (intro cosmos_update_unlocked assms) auto
  moreover from absent have "entityId e \<notin> docId ` set c" by force
  ultimately show ?thesis using None by (simp add: updated_def)
next
  case (Some d)
  note found = find_SomeD [OF Some]
  show ?thesis
  proof (cases "lockedByOther b d")
    case True
    with Some show ?thesis
      by (auto simp: cosmos_update_def working_calls_def badRequestToEdc_def catching_def Let_def
          acquireLease_def writeLease_def andThen_def lease_js_run [OF assms(1)])
  next
    case False
    have "cosmos_update (working_calls self) now pk b e c = (Inr (), updated self pk e c)"
      using found False coll_ok_docId [OF assms(1), of _ d] by (intro cosmos_update_unlocked assms) metis
    moreover have "entityId e \<in> docId ` set c" using found by force
    ultimately show ?thesis using Some False by (simp add: updated_def)
  qed
qed

section \<open>Instances\<close>

theorem cosmos_update_spec_witness:
  "coll_ok demo_collection \<and> ''/self/new'' \<notin> docSelf ` set demo_collection \<and>
   cosmos_update (working_calls ''/self/new'') 2000 ''p'' ''B''
     (wrappedInstance (demo_entity_doc ''t3'' 200 30 Null)) demo_collection =
   (Inl (EdcException ''Document is locked by another connector''), demo_collection) \<and>
   snd (cosmos_update (working_calls ''/self/new'') 2000 ''dataspaceconnector'' ''A''
     (wrappedInstance (demo_entity_doc ''t3'' 200 30 Null)) demo_collection) =
   [demo_entity_doc ''t1'' 100 20 Null, demo_entity_doc ''t2'' 100 10 Null,
    demo_entity_doc ''t3'' 200 30 Null]"
proof -
  have self: "''/self/new'' \<notin> docSelf ` set demo_collection"
    by (simp add: demo_collection_defs)
  show ?thesis
    using demo_collection_ok self
      cosmos_update_spec [OF demo_collection_ok self, of 2000 "''p''" "''B''"
        "wrappedInstance (demo_entity_doc ''t3'' 200 30 Null)"]
      cosmos_update_spec [OF demo_collection_ok self, of 2000 "''dataspaceconnector''" "''A''"
        "wrappedInstance (demo_entity_doc ''t3'' 200 30 Null)"]
    by (simp add: demo_collection_defs lockedByOther_def mk_document_def)
qed

text \<open>The third document is leased to A until 61000; connector B tries to update, then to
  delete it, then asks for a batch: the document stays. Had B created an entity of the same
  identifier, the lease would be gone.\<close>

theorem lease_exclusive_witness:
  "\<exists>c'. cosmos_run
     [(''B'', 2000, UpdateCall (wrappedInstance (demo_entity_doc ''t3'' 200 30 Null))),
      (''B'', 3000, DeleteCall ''t3''), (''B'', 61000, NextCall 100 10)] demo_collection c' \<and>
     demo_collection ! 2 \<in> set c' \<and> coll_ok c' \<and>
     snd (cosmos_create \<lparr>writeError = None, newSelf = ''/self/new''\<rparr> ''dataspaceconnector''
       (wrappedInstance (demo_entity_doc ''t3'' 200 30 Null)) demo_collection) =
     [demo_entity_doc ''t1'' 100 20 Null, demo_entity_doc ''t2'' 100 10 Null,
      demo_entity_doc ''t3'' 200 30 Null] \<and>
     demo_collection ! 2 \<noteq> demo_entity_doc ''t3'' 200 30 Null"
proof -
  let ?e = "wrappedInstance (demo_entity_doc ''t3'' 200 30 Null)"
  let ?o = "working_calls ''/self/new''"
  let ?w = "\<lparr>writeError = None, newSelf = ''/self/new''\<rparr>"
  let ?c1 = "snd (cosmos_update ?o 2000 ''p'' ''B'' ?e demo_collection)"
  let ?c2 = "snd (cosmos_delete ?o 3000 ''B'' ''t3'' ?c1)"
  let ?c3 = "snd (cosmos_nextForState 100 10 (''B'', 61000, working_service) ?c2)"
  let ?ops = "[(''B'', 2000, UpdateCall ?e), (''B'', 3000, DeleteCall ''t3''), (''B'', 61000, NextCall 100 10)]"
  have self: "newSelf (writeOutcome ?o) \<notin> docSelf ` set demo_collection"
    by (simp add: demo_collection_defs working_calls_def)
  have run: "cosmos_run ?ops demo_collection ?c3"
    by (rule run_step [OF step_update [OF self]] run_step [OF step_delete] run_step [OF step_next]
        run_done)+
  let ?d = "demo_collection ! 2"
  let ?l = "\<lparr>leasedBy = ''A'', leasedAt = 1000, leaseDuration = 60000\<rparr>"
  have leased: "?d \<in> set demo_collection" "docLease ?d = Defined ?l" "list_all (outsider ?l) ?ops"
    by (simp_all add: demo_collection_defs outsider_def)
  note exclusive = lease_exclusive [OF run demo_collection_ok leased]
  have kept: "?d \<in> set ?c3" "coll_ok ?c3" using exclusive by simp_all
  have "entityId ?e = docId ?d \<and> writeError ?w = None" by (simp add: demo_collection_defs)
  with exclusive have "cosmos_create ?w ''dataspaceconnector'' ?e demo_collection =
      (Inr (), map (\<lambda>x. if x = ?d then (mk_document ''dataspaceconnector'' ?e)\<lparr>docSelf := docSelf ?d\<rparr>
        else x) demo_collection)"
    by blast
  then have "snd (cosmos_create ?w ''dataspaceconnector'' ?e demo_collection) =
      [demo_entity_doc ''t1'' 100 20 Null, demo_entity_doc ''t2'' 100 10 Null,
       demo_entity_doc ''t3'' 200 30 Null]" "?d \<noteq> demo_entity_doc ''t3'' 200 30 Null"
    by (simp_all add: demo_collection_defs mk_document_def)
  with run kept show ?thesis by blast
qed

end
