(* ===== verification/Entity_Store.thy ===== *)
theory Entity_Store
  imports Stateful_Entity Leasing
begin

text \<open>
  \<open>core/defaults/.../InMemoryStatefulEntityStore.java\<close>, generic in the entity. The map
  \<open>entitiesById\<close> is an association list in the order it is iterated; \<open>copy\<close> is the entity
  class's own copy method, whose laws are those of the locale \<open>entity_copy\<close>. The lock that
  makes \<open>nextForState\<close> atomic is the atomicity of the function.
\<close>

record 'e item =
  item :: 'e
  leased :: bool

type_synonym 'e entity_store = "'e item jmap"

definition new_item :: "'e \<Rightarrow> 'e item" where
  "new_item e = \<lparr>item = e, leased = False\<rparr>"

definition find_entity :: "('e \<Rightarrow> 'e) \<Rightarrow> string \<Rightarrow> 'e entity_store \<Rightarrow> 'e option" where
  "find_entity copy ident m =
     (case map_of m ident of None \<Rightarrow> None | Some t \<Rightarrow> Some (copy (item t)))"

definition upsert ::
  "('a stateful_entity_scheme \<Rightarrow> 'a stateful_entity_scheme) \<Rightarrow> 'a stateful_entity_scheme \<Rightarrow>
   'a stateful_entity_scheme entity_store \<Rightarrow> 'a stateful_entity_scheme entity_store" where
  "upsert copy entity m = put (entityId entity) (new_item (copy entity)) m"

definition delete_entity :: "string \<Rightarrow> 'e entity_store \<Rightarrow> 'e entity_store" where
  "delete_entity ident m = remove_key ident m"

definition findAll_entities :: "'e entity_store \<Rightarrow> 'e list" where
  "findAll_entities m = map (item \<circ> snd) m"

definition selectable :: "int \<Rightarrow> 'a stateful_entity_scheme item \<Rightarrow> bool" where
  "selectable st e \<longleftrightarrow> state (item e) = st \<and> \<not> leased e"

definition markLeased :: "string list \<Rightarrow> 'e entity_store \<Rightarrow> 'e entity_store" where
  "markLeased ks m = map (\<lambda>(k, i). (k, if k \<in> set ks then i\<lparr>leased := True\<rparr> else i)) m"

definition nextItems ::
  "int \<Rightarrow> nat \<Rightarrow> 'a stateful_entity_scheme entity_store \<Rightarrow>
   (string \<times> 'a stateful_entity_scheme item) list" where
  "nextItems st n m =
     batch (\<lambda>p. stateTimestamp (item (snd p))) n (filter (\<lambda>p. selectable st (snd p)) m)"

definition nextForState ::
  "('a stateful_entity_scheme \<Rightarrow> 'a stateful_entity_scheme) \<Rightarrow> int \<Rightarrow> int \<Rightarrow>
   ('a stateful_entity_scheme entity_store, 'a stateful_entity_scheme list) op" where
  "nextForState copy st limit m =
     (if limit < 0 then (Inl (IllegalArgumentException ''limit''), m)
      else
        let items = nextItems st (nat limit) m
        in (Inr (map (\<lambda>p. copy (item (snd p))) items), markLeased (map fst items) m))"

text \<open>Every entity is stored under its own identifier, once.\<close>

definition store_ok :: "'a stateful_entity_scheme entity_store \<Rightarrow> bool" where
  "store_ok m \<longleftrightarrow> keys_distinct m \<and> (\<forall>p \<in> set m. entityId (item (snd p)) = fst p)"

lemma store_ok_empty [simp]: "store_ok []"
  by (simp add: store_ok_def)

lemma map_of_markLeased:
  "map_of (markLeased ks m) k =
     map_option (\<lambda>i. if k \<in> set ks then i\<lparr>leased := True\<rparr> else i) (map_of m k)"
  by (induction m) (auto simp: markLeased_def)

lemma keys_markLeased [simp]: "map fst (markLeased ks m) = map fst m"
  by (induction m) (auto simp: markLeased_def)

lemma store_ok_markLeased [simp]: "store_ok m \<Longrightarrow> store_ok (markLeased ks m)"
  by (auto simp: store_ok_def keys_distinct_def markLeased_def comp_def case_prod_beta)

lemma nextItems_mem:
  "p \<in> set (nextItems st n m) \<Longrightarrow> p \<in> set m \<and> selectable st (snd p)"
  by (auto simp: nextItems_def dest: batch_filter)

lemma nextItems_keys_distinct: "keys_distinct m \<Longrightarrow> distinct (map fst (nextItems st n m))"
proof -
  assume m: "keys_distinct m"
  let ?f = "filter (\<lambda>p. selectable st (snd p)) m"
  have "distinct ?f" using m by (simp add: keys_distinct_def distinct_map)
  then have "distinct (nextItems st n m)" by (simp add: nextItems_def batch_distinct)
  moreover have "set (nextItems st n m) \<subseteq> set m" using nextItems_mem by blast
  then have "inj_on fst (set (nextItems st n m))"
    using m by (auto simp: keys_distinct_def distinct_map intro: inj_on_subset)
  ultimately show ?thesis by (simp add: distinct_map)
qed

text \<open>What the store relies on of the entity class: copying keeps identity and state.\<close>

locale entity_copy =
  fixes copy :: "'a stateful_entity_scheme \<Rightarrow> 'a stateful_entity_scheme"
  assumes copy_id [simp]: "entityId (copy e) = entityId e"
    and copy_state [simp]: "state (copy e) = state e"
    and copy_count [simp]: "stateCount (copy e) = stateCount e"
begin

lemma upsert_ok: "store_ok m \<Longrightarrow> store_ok (upsert copy e m)"
  by (auto simp: store_ok_def upsert_def set_put new_item_def)

lemma delete_ok: "store_ok m \<Longrightarrow> store_ok (delete_entity k m)"
  by (auto simp: store_ok_def delete_entity_def remove_key_def keys_distinct_def distinct_map_filter)

lemma nextForState_ok: "store_ok m \<Longrightarrow> store_ok (snd (nextForState copy st n m))"
  by (simp add: nextForState_def Let_def)

lemma find_upsert:
  "find_entity copy k (upsert copy e m) =
     (if k = entityId e then Some (copy (copy e)) else find_entity copy k m)"
  by (simp add: find_entity_def upsert_def new_item_def)

lemma find_delete:
  "find_entity copy k (delete_entity k' m) = (if k = k' then None else find_entity copy k m)"
  by (simp add: find_entity_def delete_entity_def)

lemma find_nextForState:
  "find_entity copy k (snd (nextForState copy st n m)) = find_entity copy k m"
  by (auto simp: find_entity_def nextForState_def Let_def map_of_markLeased split: option.splits)

lemma nextForState_mem:
  assumes "store_ok m" and "nextForState copy st n m = (Inr es, m')" and "e \<in> set es"
  shows "\<exists>i. map_of m (entityId e) = Some i \<and> selectable st i \<and> e = copy (item i)"
proof -
  from assms(2) have es: "es = map (\<lambda>p. copy (item (snd p))) (nextItems st (nat n) m)"
    by (auto simp: nextForState_def Let_def split: if_splits)
  with assms(3) obtain p where p: "p \<in> set (nextItems st (nat n) m)"
    and e: "e = copy (item (snd p))" by auto
  from nextItems_mem [OF p] have pm: "p \<in> set m" and sel: "selectable st (snd p)" by auto
  have k: "entityId e = fst p" using assms(1) pm e by (auto simp: store_ok_def)
  have "map_of m (fst p) = Some (snd p)"
    using assms(1) pm by (auto simp: store_ok_def keys_distinct_def)
  with sel e k show ?thesis by auto
qed

end

text \<open>
  An item is available to a request when it is not leased; in memory a lease has no expiry, so
  it covers every later request until the entity is written again.
\<close>

definition mem_available :: "unit \<Rightarrow> 'e entity_store \<Rightarrow> string \<Rightarrow> bool" where
  "mem_available q m k \<longleftrightarrow> (\<exists>i. map_of m k = Some i \<and> \<not> leased i)"

sublocale entity_copy \<subseteq> mem_lease: lease_source
  "\<lambda>st n q. nextForState copy st n" entityId mem_available "\<lambda>_ _. True" "\<lambda>_ _. True" store_ok
proof unfold_locales
  fix s :: "'a stateful_entity_scheme entity_store" and st n s' k
  fix es :: "'a stateful_entity_scheme list" and e :: "'a stateful_entity_scheme" and q q' :: unit
  show "store_ok s \<Longrightarrow> store_ok (snd (nextForState copy st n s))" by (rule nextForState_ok)
  show "store_ok s \<Longrightarrow> nextForState copy st n s = (Inr es, s') \<Longrightarrow> e \<in> set es \<Longrightarrow>
      mem_available q s (entityId e)"
    using nextForState_mem by (fastforce simp: mem_available_def selectable_def)
  show "\<not> mem_available q' s k \<Longrightarrow> \<not> mem_available q' (snd (nextForState copy st n s)) k"
    by (auto simp: mem_available_def nextForState_def Let_def map_of_markLeased split: if_splits)
  show "store_ok s \<Longrightarrow> nextForState copy st n s = (Inr es, s') \<Longrightarrow> distinct (map entityId es)"
  proof -
    assume ok: "store_ok s" and n: "nextForState copy st n s = (Inr es, s')"
    from n have es: "es = map (\<lambda>p. copy (item (snd p))) (nextItems st (nat n) s)"
      by (auto simp: nextForState_def Let_def split: if_splits)
    have "map entityId es = map fst (nextItems st (nat n) s)"
      using ok nextItems_mem by (fastforce simp: es store_ok_def)
    then show ?thesis using ok by (simp add: store_ok_def nextItems_keys_distinct)
  qed
  show "store_ok s \<Longrightarrow> nextForState copy st n s = (Inr es, s') \<Longrightarrow> e \<in> set es \<Longrightarrow>
      \<not> mem_available q' s' (entityId e)"
  proof -
    assume ok: "store_ok s" and n: "nextForState copy st n s = (Inr es, s')" and e: "e \<in> set es"
    from n have es: "es = map (\<lambda>p. copy (item (snd p))) (nextItems st (nat n) s)"
      and s': "s' = markLeased (map fst (nextItems st (nat n) s)) s"
      by (auto simp: nextForState_def Let_def split: if_splits)
    from e es obtain p where p: "p \<in> set (nextItems st (nat n) s)" and "e = copy (item (snd p))"
      by auto
    with ok nextItems_mem [OF p] have "entityId e = fst p" by (auto simp: store_ok_def)
    with p show ?thesis by (auto simp: s' mem_available_def map_of_markLeased)
  qed
qed

end
