(* ===== verification/Transfer_Process.thy ===== *)
theory Transfer_Process
  imports Entity_Store
begin

text \<open>
  The transfer process of \<open>spi/transfer-spi/.../types/domain/transfer\<close>: the states, the entity
  with its request, manifest and resources, and every operation that changes it. Objects
  the process refers to are values of its record; the entity's clock is the argument \<open>now\<close>.
  The request of a process is never null, as the manager creates none without one.
\<close>

section \<open>States\<close>

datatype transferProcessStates =
    UNSAVED | INITIAL | PROVISIONING | PROVISIONED | REQUESTING | REQUESTED | IN_PROGRESS
  | STREAMING | COMPLETED | DEPROVISIONING | DEPROVISIONED | ENDED | CANCELLED | ERROR

primrec code :: "transferProcessStates \<Rightarrow> int" where
  "code UNSAVED = 0"
| "code INITIAL = 100"
| "code PROVISIONING = 200"
| "code PROVISIONED = 300"
| "code REQUESTING = 400"
| "code REQUESTED = 500"
| "code IN_PROGRESS = 600"
| "code STREAMING = 700"
| "code COMPLETED = 800"
| "code DEPROVISIONING = 900"
| "code DEPROVISIONED = 1000"
| "code ENDED = 1100"
| "code CANCELLED = 1200"
| "code ERROR = - 1"

definition all_states :: "transferProcessStates list" where
  "all_states = [UNSAVED, INITIAL, PROVISIONING, PROVISIONED, REQUESTING, REQUESTED, IN_PROGRESS,
     STREAMING, COMPLETED, DEPROVISIONING, DEPROVISIONED, ENDED, CANCELLED, ERROR]"

definition from_code :: "int \<Rightarrow> transferProcessStates option" where
  "from_code c = List.find (\<lambda>tps. code tps = c) all_states"

primrec state_name :: "transferProcessStates \<Rightarrow> string" where
  "state_name UNSAVED = ''UNSAVED''"
| "state_name INITIAL = ''INITIAL''"
| "state_name PROVISIONING = ''PROVISIONING''"
| "state_name PROVISIONED = ''PROVISIONED''"
| "state_name REQUESTING = ''REQUESTING''"
| "state_name REQUESTED = ''REQUESTED''"
| "state_name IN_PROGRESS = ''IN_PROGRESS''"
| "state_name STREAMING = ''STREAMING''"
| "state_name COMPLETED = ''COMPLETED''"
| "state_name DEPROVISIONING = ''DEPROVISIONING''"
| "state_name DEPROVISIONED = ''DEPROVISIONED''"
| "state_name ENDED = ''ENDED''"
| "state_name CANCELLED = ''CANCELLED''"
| "state_name ERROR = ''ERROR''"

definition show_state :: "int \<Rightarrow> string" where
  "show_state c = (case from_code c of None \<Rightarrow> ''null'' | Some s \<Rightarrow> state_name s)"

section \<open>Requests and resources\<close>

type_synonym dataAddress = "string jmap"

definition getType :: "dataAddress \<Rightarrow> string option" where
  "getType a = map_of a ''type''"

definition setKeyName :: "string \<Rightarrow> dataAddress \<Rightarrow> dataAddress" where
  "setKeyName keyName a = put ''keyName'' keyName a"

record transferType =
  contentType :: string
  isFinite :: bool

record dataRequest =
  requestId :: string
  requestProcessId :: "string option"
  connectorAddress :: string
  protocol :: string
  connectorId :: string
  assetId :: string
  contractId :: string
  dataDestination :: "dataAddress option"
  managedResources :: bool
  requestProperties :: "string jmap"
  requestTransferType :: transferType

definition getDestinationType :: "dataRequest \<Rightarrow> string option" where
  "getDestinationType r = (case dataDestination r of None \<Rightarrow> None | Some a \<Rightarrow> getType a)"

definition updateDestination :: "dataAddress \<Rightarrow> dataRequest \<Rightarrow> dataRequest" where
  "updateDestination a r = r\<lparr>dataDestination := Some a\<rparr>"

text \<open>A resource definition; \<open>definitionClass\<close> is the name of its concrete class.\<close>

record resourceDefinition =
  definitionId :: string
  definitionProcessId :: "string option"
  definitionClass :: string

record resourceManifest =
  manifestProcessId :: "string option"
  definitions :: "resourceDefinition list"

definition manifest_setTransferProcessId :: "string \<Rightarrow> resourceManifest \<Rightarrow> resourceManifest" where
  "manifest_setTransferProcessId ident m =
     m\<lparr>manifestProcessId := Some ident,
       definitions := map (\<lambda>d. d\<lparr>definitionProcessId := Some ident\<rparr>) (definitions m)\<rparr>"

text \<open>
  The class of a provisioned resource: plain, or one of the subclasses of
  \<open>ProvisionedDataAddressResource\<close> with the resource name and the data address.
\<close>

datatype resourceKind =
    PlainResource
  | DataAddressResource string dataAddress
  | DataDestinationResource string dataAddress
  | ContentResource string dataAddress

record provisionedResource =
  resourceId :: string
  resourceProcessId :: "string option"
  resourceDefinitionId :: string
  hasToken :: bool
  resourceClass :: string
  resourceKind :: resourceKind

record provisionedResourceSet =
  setProcessId :: "string option"
  resources :: "provisionedResource list"

definition set_setTransferProcessId ::
  "string \<Rightarrow> provisionedResourceSet \<Rightarrow> provisionedResourceSet" where
  "set_setTransferProcessId ident s =
     s\<lparr>setProcessId := Some ident,
       resources := map (\<lambda>r. r\<lparr>resourceProcessId := Some ident\<rparr>) (resources s)\<rparr>"

definition addResource ::
  "provisionedResource \<Rightarrow> provisionedResourceSet \<Rightarrow> provisionedResourceSet" where
  "addResource r s =
     (let r' = (case setProcessId s of None \<Rightarrow> r | Some i \<Rightarrow> r\<lparr>resourceProcessId := Some i\<rparr>)
      in s\<lparr>resources := resources s @ [r']\<rparr>)"

record deprovisionedResource =
  provisionedResourceId :: string
  deprovisionInProcess :: bool
  deprovisionError :: bool
  deprovisionErrorMessage :: "string option"

section \<open>The process\<close>

datatype tpType = CONSUMER | PROVIDER

record transfer_process = stateful_entity +
  tpType :: tpType
  dataRequest :: dataRequest
  contentDataAddress :: "dataAddress option"
  resourceManifest :: "resourceManifest option"
  provisionedResourceSet :: "provisionedResourceSet option"
  deprovisionedResources :: "deprovisionedResource list"

definition transition ::
  "int \<Rightarrow> transferProcessStates \<Rightarrow> transferProcessStates list \<Rightarrow> transfer_process \<Rightarrow>
   java_exn + transfer_process" where
  "transition now end starts p =
     (if code end < state p then Inr p
      else if \<not> list_ex (\<lambda>s. code s = state p) starts
      then Inl (IllegalStateException
             (''Cannot transition from state '' @ show_state (state p) @ '' to '' @
              show_state (code end)))
      else Inr (transitionTo now (code end) p))"

definition transitionInitial :: "int \<Rightarrow> transfer_process \<Rightarrow> java_exn + transfer_process" where
  "transitionInitial now p = transition now INITIAL [UNSAVED] p"

text \<open>The manifest is set even when the transition is one that \<open>transition\<close> ignores.\<close>

definition transitionProvisioning ::
  "int \<Rightarrow> resourceManifest \<Rightarrow> transfer_process \<Rightarrow> java_exn + transfer_process" where
  "transitionProvisioning now manifest p =
     (case transition now PROVISIONING [INITIAL, PROVISIONING] p of
        Inl e \<Rightarrow> Inl e
      | Inr p' \<Rightarrow>
          Inr (p'\<lparr>resourceManifest := Some (manifest_setTransferProcessId (entityId p') manifest)\<rparr>))"

definition addProvisionedResource ::
  "provisionedResource \<Rightarrow> transfer_process \<Rightarrow> transfer_process" where
  "addProvisionedResource r p =
     (let s = (case provisionedResourceSet p of
                 None \<Rightarrow> \<lparr>setProcessId = Some (entityId p), resources = []\<rparr>
               | Some s \<Rightarrow> s)
      in p\<lparr>provisionedResourceSet := Some (addResource r s)\<rparr>)"

definition addContentDataAddress ::
  "dataAddress option \<Rightarrow> transfer_process \<Rightarrow> transfer_process" where
  "addContentDataAddress a p = p\<lparr>contentDataAddress := a\<rparr>"

definition addDeprovisionedResource ::
  "deprovisionedResource \<Rightarrow> transfer_process \<Rightarrow> transfer_process" where
  "addDeprovisionedResource r p = p\<lparr>deprovisionedResources := deprovisionedResources p @ [r]\<rparr>"

definition getProvisionedResource ::
  "string \<Rightarrow> transfer_process \<Rightarrow> provisionedResource option" where
  "getProvisionedResource ident p =
     (case provisionedResourceSet p of
        None \<Rightarrow> None
      | Some s \<Rightarrow> List.find (\<lambda>r. resourceId r = ident) (resources s))"

definition getResourcesToProvision :: "transfer_process \<Rightarrow> resourceDefinition list" where
  "getResourcesToProvision p =
     (case resourceManifest p of
        None \<Rightarrow> []
      | Some m \<Rightarrow>
          (case provisionedResourceSet p of
             None \<Rightarrow> definitions m
           | Some s \<Rightarrow>
               filter (\<lambda>r. definitionId r \<notin> set (map resourceDefinitionId (resources s)))
                 (definitions m)))"

definition provisioningComplete :: "transfer_process \<Rightarrow> bool" where
  "provisioningComplete p \<longleftrightarrow> resourceManifest p \<noteq> None \<and> getResourcesToProvision p = []"

definition getResourcesToDeprovision :: "transfer_process \<Rightarrow> provisionedResource list" where
  "getResourcesToDeprovision p =
     (case provisionedResourceSet p of
        None \<Rightarrow> []
      | Some s \<Rightarrow>
          filter (\<lambda>r. resourceId r \<notin> set (map provisionedResourceId (deprovisionedResources p)))
            (resources s))"

definition deprovisionComplete :: "transfer_process \<Rightarrow> bool" where
  "deprovisionComplete p \<longleftrightarrow> getResourcesToDeprovision p = []"

definition transitionProvisioned :: "int \<Rightarrow> transfer_process \<Rightarrow> java_exn + transfer_process" where
  "transitionProvisioned now p = transition now PROVISIONED [PROVISIONING, PROVISIONED, REQUESTED] p"

definition transitionRequesting :: "int \<Rightarrow> transfer_process \<Rightarrow> java_exn + transfer_process" where
  "transitionRequesting now p =
     (if tpType p = PROVIDER
      then Inl (IllegalStateException ''Provider processes have no REQUESTING state'')
      else transition now REQUESTING [PROVISIONED, REQUESTING] p)"

definition transitionRequested :: "int \<Rightarrow> transfer_process \<Rightarrow> java_exn + transfer_process" where
  "transitionRequested now p =
     (if tpType p = PROVIDER
      then Inl (IllegalStateException ''Provider processes have no REQUESTED state'')
      else transition now REQUESTED [PROVISIONED, REQUESTING, REQUESTED] p)"

definition transitionInProgress :: "int \<Rightarrow> transfer_process \<Rightarrow> java_exn + transfer_process" where
  "transitionInProgress now p =
     (if tpType p = CONSUMER then transition now IN_PROGRESS [REQUESTED, IN_PROGRESS] p
      else transition now IN_PROGRESS [REQUESTED, PROVISIONED, IN_PROGRESS] p)"

definition transitionStreaming :: "int \<Rightarrow> transfer_process \<Rightarrow> java_exn + transfer_process" where
  "transitionStreaming now p =
     (if tpType p = CONSUMER then transition now STREAMING [REQUESTED, STREAMING] p
      else transition now STREAMING [PROVISIONED, STREAMING] p)"

definition transitionInProgressOrStreaming ::
  "int \<Rightarrow> transfer_process \<Rightarrow> java_exn + transfer_process" where
  "transitionInProgressOrStreaming now p =
     (if isFinite (requestTransferType (dataRequest p)) then transitionInProgress now p
      else transitionStreaming now p)"

definition transitionCompleted :: "int \<Rightarrow> transfer_process \<Rightarrow> java_exn + transfer_process" where
  "transitionCompleted now p =
     transition now COMPLETED [COMPLETED, IN_PROGRESS, REQUESTED, STREAMING] p"

definition transitionDeprovisioning :: "int \<Rightarrow> transfer_process \<Rightarrow> java_exn + transfer_process" where
  "transitionDeprovisioning now p = transition now DEPROVISIONING [COMPLETED, DEPROVISIONING] p"

definition transitionDeprovisioned :: "int \<Rightarrow> transfer_process \<Rightarrow> java_exn + transfer_process" where
  "transitionDeprovisioned now p = transition now DEPROVISIONED [DEPROVISIONING, DEPROVISIONED] p"

definition transitionCancelled :: "int \<Rightarrow> transfer_process \<Rightarrow> java_exn + transfer_process" where
  "transitionCancelled now p =
     transition now CANCELLED
       [UNSAVED, INITIAL, PROVISIONING, PROVISIONED, REQUESTED, REQUESTING, IN_PROGRESS, STREAMING,
        DEPROVISIONED, DEPROVISIONING, CANCELLED] p"

definition transitionEnded :: "int \<Rightarrow> transfer_process \<Rightarrow> java_exn + transfer_process" where
  "transitionEnded now p = transition now ENDED [DEPROVISIONED] p"

definition transitionError :: "int \<Rightarrow> string option \<Rightarrow> transfer_process \<Rightarrow> transfer_process" where
  "transitionError now detail p =
     updateStateTimestamp now (p\<lparr>errorDetail := detail, state := code ERROR, stateCount := 1\<rparr>)"

text \<open>\<open>Builder.build()\<close> on a complete process, and \<open>copy()\<close>, which hands every field to it.\<close>

definition associate :: "transfer_process \<Rightarrow> transfer_process" where
  "associate p =
     p\<lparr>resourceManifest := map_option (manifest_setTransferProcessId (entityId p)) (resourceManifest p),
       provisionedResourceSet :=
         map_option (set_setTransferProcessId (entityId p)) (provisionedResourceSet p),
       dataRequest := (dataRequest p)\<lparr>requestProcessId := Some (entityId p)\<rparr>\<rparr>"

definition build_process ::
  "int \<Rightarrow> string option \<Rightarrow> transfer_process \<Rightarrow> java_exn + transfer_process" where
  "build_process now ident p =
     (case ident of
        None \<Rightarrow>
          if resourceManifest p \<noteq> None then Inl (NullPointerException ''transferProcessId'')
          else entity_build now None p
      | Some i \<Rightarrow> entity_build now (Some i) (associate (p\<lparr>entityId := i\<rparr>)))"

definition copy_process :: "int \<Rightarrow> transfer_process \<Rightarrow> transfer_process" where
  "copy_process now p = copy_entity now (associate p)"

section \<open>Facts on the operations\<close>

lemma code_inj [simp]: "code s = code t \<longleftrightarrow> s = t"
  by (cases s; cases t) simp_all

lemma from_code_code [simp]: "from_code (code s) = Some s"
  by (cases s) (simp_all add: from_code_def all_states_def)

lemma code_ERROR_le: "- 1 \<le> code s"
  by (cases s) simp_all

lemmas transition_ops =
  transitionInitial_def transitionProvisioned_def transitionRequesting_def
  transitionRequested_def transitionInProgress_def transitionStreaming_def
  transitionInProgressOrStreaming_def transitionCompleted_def transitionDeprovisioning_def
  transitionDeprovisioned_def transitionCancelled_def transitionEnded_def

lemma transition_InrE:
  assumes "transition now end starts p = Inr p'"
  obtains (ignored) "code end < state p" "p' = p"
  | (moved) s where "s \<in> set starts" "state p = code s" "code s \<le> code end"
      "p' = transitionTo now (code end) p"
  using assms by (auto simp: transition_def list_ex_iff split: if_splits)

lemma transition_moves:
  "state p = code s \<Longrightarrow> s \<in> set starts \<Longrightarrow> code s \<le> code end \<Longrightarrow>
   transition now end starts p = Inr (transitionTo now (code end) p)"
  by (auto simp: transition_def list_ex_iff)

lemma transferType_kept [simp]:
  "tpType (transitionTo now t p) = tpType p"
  "dataRequest (transitionTo now t p) = dataRequest p"
  "resourceManifest (transitionTo now t p) = resourceManifest p"
  "provisionedResourceSet (transitionTo now t p) = provisionedResourceSet p"
  "deprovisionedResources (transitionTo now t p) = deprovisionedResources p"
  by (simp_all add: transitionTo_def updateStateTimestamp_def)

lemma transitionError_simps [simp]:
  "state (transitionError now m p) = - 1"
  "stateCount (transitionError now m p) = 1"
  "entityId (transitionError now m p) = entityId p"
  "tpType (transitionError now m p) = tpType p"
  "errorDetail (transitionError now m p) = m"
  by (simp_all add: transitionError_def updateStateTimestamp_def)

lemma adders_keep [simp]:
  "state (addProvisionedResource r p) = state p"
  "entityId (addProvisionedResource r p) = entityId p"
  "tpType (addProvisionedResource r p) = tpType p"
  "resourceManifest (addProvisionedResource r p) = resourceManifest p"
  "state (addDeprovisionedResource d p) = state p"
  "entityId (addDeprovisionedResource d p) = entityId p"
  "tpType (addDeprovisionedResource d p) = tpType p"
  "resourceManifest (addDeprovisionedResource d p) = resourceManifest p"
  "provisionedResourceSet (addDeprovisionedResource d p) = provisionedResourceSet p"
  "state (addContentDataAddress a p) = state p"
  "entityId (addContentDataAddress a p) = entityId p"
  "tpType (addContentDataAddress a p) = tpType p"
  by (simp_all add: addProvisionedResource_def addDeprovisionedResource_def
      addContentDataAddress_def Let_def)

lemma copy_process_simps [simp]:
  "entityId (copy_process now p) = entityId p"
  "state (copy_process now p) = state p"
  "stateCount (copy_process now p) = stateCount p"
  "tpType (copy_process now p) = tpType p"
  by (simp_all add: copy_process_def copy_entity_def associate_def)

lemma build_process_copy: "build_process now (Some (entityId p)) p = Inr (copy_process now p)"
  by (simp add: build_process_def entity_build_def copy_process_def copy_entity_def associate_def)

text \<open>The in-memory transfer process store: the generic store on the copies of a process.\<close>

interpretation tp_store: entity_copy "copy_process now" for now
  by unfold_locales simp_all

section \<open>The state machine\<close>

text \<open>One call of a mutating method that returns.\<close>

inductive tp_step :: "transfer_process \<Rightarrow> transfer_process \<Rightarrow> bool" where
  "transitionInitial now p = Inr p' \<Longrightarrow> tp_step p p'"
| "transitionProvisioning now m p = Inr p' \<Longrightarrow> tp_step p p'"
| "transitionProvisioned now p = Inr p' \<Longrightarrow> tp_step p p'"
| "transitionRequesting now p = Inr p' \<Longrightarrow> tp_step p p'"
| "transitionRequested now p = Inr p' \<Longrightarrow> tp_step p p'"
| "transitionInProgress now p = Inr p' \<Longrightarrow> tp_step p p'"
| "transitionStreaming now p = Inr p' \<Longrightarrow> tp_step p p'"
| "transitionInProgressOrStreaming now p = Inr p' \<Longrightarrow> tp_step p p'"
| "transitionCompleted now p = Inr p' \<Longrightarrow> tp_step p p'"
| "transitionDeprovisioning now p = Inr p' \<Longrightarrow> tp_step p p'"
| "transitionDeprovisioned now p = Inr p' \<Longrightarrow> tp_step p p'"
| "transitionCancelled now p = Inr p' \<Longrightarrow> tp_step p p'"
| "transitionEnded now p = Inr p' \<Longrightarrow> tp_step p p'"
| "tp_step p (transitionError now m p)"
| "tp_step p (addProvisionedResource r p)"
| "tp_step p (addContentDataAddress a p)"
| "tp_step p (addDeprovisionedResource d p)"
| "tp_step p (p\<lparr>dataRequest := updateDestination a (dataRequest p)\<rparr>)"
| "tp_step p (setErrorDetail m p)"
| "tp_step p (copy_process now p)"

text \<open>The state diagram: the edges a consumer's and a provider's process can take.\<close>

definition tp_edges :: "tpType \<Rightarrow> (transferProcessStates \<times> transferProcessStates) list" where
  "tp_edges t =
     [(UNSAVED, INITIAL), (INITIAL, PROVISIONING), (PROVISIONING, PROVISIONED),
      (REQUESTED, IN_PROGRESS), (IN_PROGRESS, COMPLETED), (REQUESTED, COMPLETED),
      (STREAMING, COMPLETED), (COMPLETED, DEPROVISIONING), (DEPROVISIONING, DEPROVISIONED),
      (DEPROVISIONED, ENDED)] @
     map (\<lambda>s. (s, CANCELLED))
       [UNSAVED, INITIAL, PROVISIONING, PROVISIONED, REQUESTING, REQUESTED, IN_PROGRESS, STREAMING,
        DEPROVISIONING, DEPROVISIONED] @
     map (\<lambda>s. (s, ERROR)) all_states @
     (case t of
        CONSUMER \<Rightarrow>
          [(PROVISIONED, REQUESTING), (PROVISIONED, REQUESTED), (REQUESTING, REQUESTED),
           (REQUESTED, STREAMING)]
      | PROVIDER \<Rightarrow> [(PROVISIONED, IN_PROGRESS), (PROVISIONED, STREAMING)])"

text \<open>\<open>p'\<close> is \<open>p\<close> after at most one edge of the diagram.\<close>

definition tp_follows :: "transfer_process \<Rightarrow> transfer_process \<Rightarrow> bool" where
  "tp_follows p p' \<longleftrightarrow> tpType p' = tpType p \<and> entityId p' = entityId p \<and>
     (state p' = state p \<or>
      list_ex (\<lambda>(s, t). state p = code s \<and> state p' = code t) (tp_edges (tpType p)))"

lemma transition_follows:
  assumes "transition now end starts p = Inr p'"
    and "list_all (\<lambda>s. code s < code end \<longrightarrow> (s, end) \<in> set (tp_edges (tpType p))) starts"
  shows "tp_follows p p'"
  using assms(1)
proof (cases rule: transition_InrE)
  case (moved s)
  show ?thesis
  proof (cases "s = end")
    case False
    with moved(3) have "code s < code end" by (metis code_inj order_le_less)
    with assms(2) moved show ?thesis by (auto simp: tp_follows_def list_ex_iff list_all_iff)
  qed (use moved in \<open>auto simp: tp_follows_def\<close>)
qed (simp add: tp_follows_def)

lemma edge_facts:
  "(UNSAVED, INITIAL) \<in> set (tp_edges t)" "(INITIAL, PROVISIONING) \<in> set (tp_edges t)"
  "(PROVISIONING, PROVISIONED) \<in> set (tp_edges t)" "(REQUESTED, IN_PROGRESS) \<in> set (tp_edges t)"
  "(IN_PROGRESS, COMPLETED) \<in> set (tp_edges t)" "(REQUESTED, COMPLETED) \<in> set (tp_edges t)"
  "(STREAMING, COMPLETED) \<in> set (tp_edges t)" "(COMPLETED, DEPROVISIONING) \<in> set (tp_edges t)"
  "(DEPROVISIONING, DEPROVISIONED) \<in> set (tp_edges t)" "(DEPROVISIONED, ENDED) \<in> set (tp_edges t)"
  "s \<in> {UNSAVED, INITIAL, PROVISIONING, PROVISIONED, REQUESTING, REQUESTED, IN_PROGRESS, STREAMING,
        DEPROVISIONING, DEPROVISIONED} \<Longrightarrow> (s, CANCELLED) \<in> set (tp_edges t)"
  "(s, ERROR) \<in> set (tp_edges t)"
  "(PROVISIONED, REQUESTING) \<in> set (tp_edges CONSUMER)"
  "(PROVISIONED, REQUESTED) \<in> set (tp_edges CONSUMER)"
  "(REQUESTING, REQUESTED) \<in> set (tp_edges CONSUMER)"
  "(REQUESTED, STREAMING) \<in> set (tp_edges CONSUMER)"
  "(PROVISIONED, IN_PROGRESS) \<in> set (tp_edges PROVIDER)"
  "(PROVISIONED, STREAMING) \<in> set (tp_edges PROVIDER)"
  by (auto simp: tp_edges_def) (cases s; simp add: all_states_def)+

lemma not_provider: "t \<noteq> PROVIDER \<longleftrightarrow> t = CONSUMER" and not_consumer: "t \<noteq> CONSUMER \<longleftrightarrow> t = PROVIDER"
  by (cases t; simp)+

lemma inProgress_follows: "transitionInProgress now p = Inr p' \<Longrightarrow> tp_follows p p'"
  unfolding transitionInProgress_def
  by (auto split: if_splits simp: edge_facts not_consumer elim!: transition_follows)

lemma streaming_follows: "transitionStreaming now p = Inr p' \<Longrightarrow> tp_follows p p'"
  unfolding transitionStreaming_def
  by (auto split: if_splits simp: edge_facts not_consumer elim!: transition_follows)

lemma requesting_follows: "transitionRequesting now p = Inr p' \<Longrightarrow> tp_follows p p'"
  unfolding transitionRequesting_def
  by (auto split: if_splits simp: edge_facts not_provider elim!: transition_follows)

lemma requested_follows: "transitionRequested now p = Inr p' \<Longrightarrow> tp_follows p p'"
  unfolding transitionRequested_def
  by (auto split: if_splits simp: edge_facts not_provider elim!: transition_follows)

lemma provisioning_follows: "transitionProvisioning now m p = Inr p' \<Longrightarrow> tp_follows p p'"
proof -
  assume "transitionProvisioning now m p = Inr p'"
  then obtain q where q: "transition now PROVISIONING [INITIAL, PROVISIONING] p = Inr q"
    and p': "state p' = state q" "tpType p' = tpType q" "entityId p' = entityId q"
    by (auto simp: transitionProvisioning_def split: sum.splits)
  from q have "tp_follows p q" by (rule transition_follows) (simp add: edge_facts)
  with p' show ?thesis by (simp add: tp_follows_def)
qed

lemma error_follows: "state p \<in> range code \<Longrightarrow> tp_follows p (transitionError now m p)"
  using edge_facts(12) by (force simp: tp_follows_def list_ex_iff)

lemmas plain_ops =
  transitionInitial_def transitionProvisioned_def transitionCompleted_def
  transitionDeprovisioning_def transitionDeprovisioned_def transitionCancelled_def
  transitionEnded_def

lemma plain_follows:
  "transitionInitial now p = Inr p' \<Longrightarrow> tp_follows p p'"
  "transitionProvisioned now p = Inr p' \<Longrightarrow> tp_follows p p'"
  "transitionCompleted now p = Inr p' \<Longrightarrow> tp_follows p p'"
  "transitionDeprovisioning now p = Inr p' \<Longrightarrow> tp_follows p p'"
  "transitionDeprovisioned now p = Inr p' \<Longrightarrow> tp_follows p p'"
  "transitionCancelled now p = Inr p' \<Longrightarrow> tp_follows p p'"
  "transitionEnded now p = Inr p' \<Longrightarrow> tp_follows p p'"
  unfolding plain_ops by (erule transition_follows, simp add: edge_facts)+

lemma field_writes_follow:
  "tp_follows p (addProvisionedResource r p)" "tp_follows p (addContentDataAddress a p)"
  "tp_follows p (addDeprovisionedResource d p)" "tp_follows p (copy_process now p)"
  "tp_follows p (p\<lparr>dataRequest := q\<rparr>)" "tp_follows p (setErrorDetail m p)"
  by (simp_all add: tp_follows_def setErrorDetail_def)

lemma tp_step_follows:
  assumes "tp_step p p'" and "state p \<in> range code"
  shows "tp_follows p p'"
  using assms
  by (induction rule: tp_step.induct)
     (auto intro: plain_follows inProgress_follows streaming_follows requesting_follows
       requested_follows provisioning_follows error_follows field_writes_follow
       simp: transitionInProgressOrStreaming_def split: if_splits)

lemma tp_edges_ascend: "(s, t) \<in> set (tp_edges ty) \<Longrightarrow> t = ERROR \<or> (code s < code t \<and> s \<noteq> ERROR)"
  by (auto simp: tp_edges_def all_states_def split: tpType.splits)

text \<open>The method that enters a state, with a manifest where it takes one.\<close>

definition enter_state ::
  "int \<Rightarrow> resourceManifest \<Rightarrow> transferProcessStates \<Rightarrow> transfer_process \<Rightarrow> java_exn + transfer_process" where
  "enter_state now m t p =
     (case t of
        UNSAVED \<Rightarrow> Inr p
      | INITIAL \<Rightarrow> transitionInitial now p
      | PROVISIONING \<Rightarrow> transitionProvisioning now m p
      | PROVISIONED \<Rightarrow> transitionProvisioned now p
      | REQUESTING \<Rightarrow> transitionRequesting now p
      | REQUESTED \<Rightarrow> transitionRequested now p
      | IN_PROGRESS \<Rightarrow> transitionInProgress now p
      | STREAMING \<Rightarrow> transitionStreaming now p
      | COMPLETED \<Rightarrow> transitionCompleted now p
      | DEPROVISIONING \<Rightarrow> transitionDeprovisioning now p
      | DEPROVISIONED \<Rightarrow> transitionDeprovisioned now p
      | ENDED \<Rightarrow> transitionEnded now p
      | CANCELLED \<Rightarrow> transitionCancelled now p
      | ERROR \<Rightarrow> Inr (transitionError now None p))"

lemma enter_state_step: "enter_state now m t p = Inr p' \<Longrightarrow> t \<noteq> UNSAVED \<Longrightarrow> tp_step p p'"
  by (cases t) (auto simp: enter_state_def intro: tp_step.intros)

lemma enter_state_edge:
  assumes "(s, t) \<in> set (tp_edges (tpType p))" and "state p = code s"
  shows "t \<noteq> UNSAVED \<and> (\<exists>p'. enter_state now m t p = Inr p' \<and> state p' = code t)"
  using assms
  by (cases "tpType p"; cases t)
     (auto simp: tp_edges_def enter_state_def transition_ops transitionProvisioning_def transition_def)

text \<open>
  The state diagram, exactly: from a valid state, the methods of a transfer process can
  reach another state in one call if and only if the diagram of the process's type has that
  edge. In particular a process never goes back, \<open>transitionProvisioned\<close> has no effect on a
  \<open>REQUESTED\<close> process, and a provider's process enters \<open>IN_PROGRESS\<close> straight from
  \<open>PROVISIONED\<close>.
\<close>

theorem tp_transitions_exact:
  assumes "state p = code s" and "s \<noteq> t"
  shows "(\<exists>p'. tp_step p p' \<and> state p' = code t) \<longleftrightarrow> (s, t) \<in> set (tp_edges (tpType p))"
proof
  assume "\<exists>p'. tp_step p p' \<and> state p' = code t"
  then obtain p' where step: "tp_step p p'" and st: "state p' = code t" by blast
  have "state p \<in> range code" using assms(1) by simp
  from tp_step_follows [OF step this] assms st show "(s, t) \<in> set (tp_edges (tpType p))"
    by (auto simp: tp_follows_def list_ex_iff)
next
  assume "(s, t) \<in> set (tp_edges (tpType p))"
  from enter_state_edge [OF this assms(1)] obtain p' where
    "t \<noteq> UNSAVED" "enter_state 0 \<lparr>manifestProcessId = None, definitions = []\<rparr> t p = Inr p'"
    "state p' = code t" by blast
  then show "\<exists>p'. tp_step p p' \<and> state p' = code t" using enter_state_step by blast
qed

definition demo_request :: dataRequest where
  "demo_request = \<lparr>requestId = ''r1'', requestProcessId = None, connectorAddress = ''http://provider'',
     protocol = ''ids-multipart'', connectorId = ''c'', assetId = ''a1'', contractId = ''k1'',
     dataDestination = Some [(''type'', ''HttpData'')], managedResources = False,
     requestProperties = [],
     requestTransferType = \<lparr>contentType = ''application/octet-stream'', isFinite = True\<rparr>\<rparr>"

definition demo_process :: "tpType \<Rightarrow> transferProcessStates \<Rightarrow> transfer_process" where
  "demo_process ty st = \<lparr>entityId = ''p1'', createdTimestamp = 1, state = code st, stateCount = 1,
     stateTimestamp = 1, traceContext = [], errorDetail = None, tpType = ty,
     dataRequest = demo_request, contentDataAddress = None, resourceManifest = None,
     provisionedResourceSet = None, deprovisionedResources = []\<rparr>"

theorem tp_transitions_exact_witness:
  "state (demo_process CONSUMER REQUESTED) = code REQUESTED \<and> REQUESTED \<noteq> PROVISIONED \<and>
   \<not> (\<exists>p'. tp_step (demo_process CONSUMER REQUESTED) p' \<and> state p' = code PROVISIONED) \<and>
   (\<exists>p'. tp_step (demo_process CONSUMER REQUESTED) p' \<and> state p' = code STREAMING)"
  using tp_transitions_exact [of "demo_process CONSUMER REQUESTED" REQUESTED PROVISIONED]
    tp_transitions_exact [of "demo_process CONSUMER REQUESTED" REQUESTED STREAMING]
  by (simp add: demo_process_def tp_edges_def all_states_def)

section \<open>Histories of a process\<close>

lemma tp_run_valid:
  assumes "tp_step\<^sup>*\<^sup>* p p'" and "state p \<in> range code"
  shows "state p' \<in> range code \<and> tpType p' = tpType p \<and> entityId p' = entityId p"
  using assms
proof (induction rule: rtranclp_induct)
  case (step q q')
  then have q: "state q \<in> range code" by simp
  from tp_step_follows [OF step.hyps(2) this] step show ?case
    by (auto simp: tp_follows_def list_ex_iff)
qed simp

lemma code_numerals [simp]:
  "- 1 = code s \<longleftrightarrow> s = ERROR" "code s = - 1 \<longleftrightarrow> s = ERROR"
  "1100 = code s \<longleftrightarrow> s = ENDED" "code s = 1100 \<longleftrightarrow> s = ENDED"
  "1200 = code s \<longleftrightarrow> s = CANCELLED" "code s = 1200 \<longleftrightarrow> s = CANCELLED"
  by (cases s; simp)+

lemma code_range [simp]: "code s \<in> range code"
  by simp

lemma tp_edges_final: "(s, t) \<in> set (tp_edges ty) \<Longrightarrow> s \<in> {ENDED, CANCELLED} \<Longrightarrow> t = ERROR"
  by (auto simp: tp_edges_def all_states_def split: tpType.splits)

lemma tp_step_state:
  assumes "tp_step p p'" and "state p \<in> range code"
  shows "state p' = - 1 \<or> state p \<le> state p' \<and> state p \<noteq> - 1"
    and "state p = 1100 \<or> state p = 1200 \<Longrightarrow> state p' = state p \<or> state p' = - 1"
proof -
  from tp_step_follows [OF assms] consider "state p' = state p"
    | s t where "(s, t) \<in> set (tp_edges (tpType p))" "state p = code s" "state p' = code t"
    by (auto simp: tp_follows_def list_ex_iff)
  note c = this
  from c show "state p' = - 1 \<or> state p \<le> state p' \<and> state p \<noteq> - 1"
    by cases (auto dest!: tp_edges_ascend)
  from c show "state p' = state p \<or> state p' = - 1" if "state p = 1100 \<or> state p = 1200"
    using that by cases (auto dest!: tp_edges_final)
qed

text \<open>
  Whatever sequence of methods is called on a process, its identifier and type stay, its
  state is one of the declared states, it only moves forward through them or to \<open>ERROR\<close>,
  it never leaves \<open>ERROR\<close>, and an ended or cancelled process can only go to \<open>ERROR\<close>.
\<close>

theorem tp_history_forward:
  assumes "tp_step\<^sup>*\<^sup>* p p'" and "state p \<in> range code"
  shows "entityId p' = entityId p \<and> tpType p' = tpType p \<and> state p' \<in> range code \<and>
    (state p' = code ERROR \<or> state p \<le> state p') \<and>
    (state p = code ERROR \<longrightarrow> state p' = code ERROR) \<and>
    (state p \<in> {code ENDED, code CANCELLED} \<longrightarrow> state p' \<in> {state p, code ERROR})"
  using assms
proof (induction rule: rtranclp_induct)
  case (step q q')
  have q: "state q \<in> range code" using tp_run_valid [OF step.hyps(1) step.prems] by simp
  have q': "state q' \<in> range code \<and> tpType q' = tpType q \<and> entityId q' = entityId q"
    using step.hyps(2) q by (intro tp_run_valid) auto
  from step.IH [OF step.prems] q' tp_step_state [OF step.hyps(2) q] show ?case
    by (elim conjE, intro conjI) auto
qed simp

theorem tp_history_forward_witness:
  "tp_step\<^sup>*\<^sup>* (demo_process PROVIDER ENDED) (transitionError 5 None (demo_process PROVIDER ENDED)) \<and>
   state (demo_process PROVIDER ENDED) \<in> range code \<and>
   entityId (transitionError 5 None (demo_process PROVIDER ENDED)) = ''p1''"
proof -
  have r: "tp_step\<^sup>*\<^sup>* (demo_process PROVIDER ENDED) (transitionError 5 None (demo_process PROVIDER ENDED))"
    by (intro r_into_rtranclp tp_step.intros)
  have s: "state (demo_process PROVIDER ENDED) \<in> range code"
    unfolding demo_process_def by (simp del: code.simps)
  from tp_history_forward [OF r s] r s show ?thesis by (simp add: demo_process_def)
qed

lemma provider_edges:
  "(s, REQUESTING) \<notin> set (tp_edges PROVIDER)" "(s, REQUESTED) \<notin> set (tp_edges PROVIDER)"
  by (auto simp: tp_edges_def)

text \<open>
  A provider's process created in \<open>UNSAVED\<close> is never \<open>REQUESTING\<close> or \<open>REQUESTED\<close>, as
  its documentation says.
\<close>

theorem provider_never_requests:
  assumes "tp_step\<^sup>*\<^sup>* p p'" and "state p = code UNSAVED" and "tpType p = PROVIDER"
  shows "state p' \<noteq> code REQUESTING \<and> state p' \<noteq> code REQUESTED"
  using assms
proof (induction rule: rtranclp_induct)
  case (step q q')
  have q: "state q \<in> range code" "tpType q = PROVIDER"
    using tp_run_valid [OF step.hyps(1)] step.prems code_range [of UNSAVED] by metis+
  have "state q \<noteq> code REQUESTING" "state q \<noteq> code REQUESTED" using step by auto
  with tp_step_follows [OF step.hyps(2) q(1)] q(2) show ?case
    by (auto simp: tp_follows_def list_ex_iff provider_edges simp del: code.simps)
qed simp

theorem provider_never_requests_witness:
  "\<exists>p'. tp_step\<^sup>*\<^sup>* (demo_process PROVIDER UNSAVED) p' \<and> state p' = code INITIAL \<and>
     state p' \<noteq> code REQUESTING"
proof -
  let ?p = "demo_process PROVIDER UNSAVED"
  have "transitionInitial 7 ?p = Inr (transitionTo 7 100 ?p)"
    by (simp add: transitionInitial_def transition_def demo_process_def)
  then have "tp_step\<^sup>*\<^sup>* ?p (transitionTo 7 100 ?p)" by (intro r_into_rtranclp tp_step.intros)
  from provider_never_requests [OF this] this show ?thesis
    by (intro exI [of _ "transitionTo 7 100 ?p"]) (simp add: demo_process_def)
qed

end
