(* ===== verification/Provisioning.thy ===== *)
theory Provisioning
  imports Transfer_Process
begin

text \<open>
  The services of \<open>core/transfer\<close> the transfer manager calls: \<open>ProvisionManagerImpl\<close>,
  \<open>ResourceManifestGeneratorImpl\<close>, \<open>DataFlowManagerImpl\<close>, \<open>StatusCheckerRegistryImpl\<close>, and
  \<open>AsyncUtils.asyncAllOf\<close>. Provisioners, generators, controllers and status checkers are
  extensions of the connector, given by what they answer; \<open>'pol\<close> is the policy they are handed.
\<close>

section \<open>Futures\<close>

text \<open>
  A future is the outcome it completes with. \<open>allOf\<close> completes when all have completed,
  exceptionally if one did.
\<close>

primrec asyncAllOf :: "(java_exn + 'a) list \<Rightarrow> java_exn + 'a list" where
  "asyncAllOf [] = Inr []"
| "asyncAllOf (f # fs) =
     (case f of
        Inl e \<Rightarrow> Inl e
      | Inr a \<Rightarrow> (case asyncAllOf fs of Inl e \<Rightarrow> Inl e | Inr as \<Rightarrow> Inr (a # as)))"

lemma asyncAllOf_map [simp]: "asyncAllOf (map Inr as) = Inr as"
  by (induction as) auto

lemma asyncAllOf_Inr: "asyncAllOf fs = Inr as \<Longrightarrow> fs = map Inr as"
  by (induction fs arbitrary: as) (auto split: sum.splits)

section \<open>ProvisionManagerImpl\<close>

text \<open>The outcome of a provision request: still in process, or a resource and its secret.\<close>

datatype provisionResponse =
    InProcess
  | ProvisionResponse provisionedResource "string option"

record 'pol provisioner =
  canProvision :: "resourceDefinition \<Rightarrow> bool"
  canDeprovision :: "provisionedResource \<Rightarrow> bool"
  provisionCall :: "resourceDefinition \<Rightarrow> 'pol \<Rightarrow> java_exn + provisionResponse statusResult"
  deprovisionCall :: "provisionedResource \<Rightarrow> 'pol \<Rightarrow> java_exn + deprovisionedResource statusResult"

definition provision_one ::
  "'pol provisioner list \<Rightarrow> 'pol \<Rightarrow> resourceDefinition \<Rightarrow> java_exn + provisionResponse statusResult" where
  "provision_one provisioners policy definition' =
     (case List.find (\<lambda>it. canProvision it definition') provisioners of
        None \<Rightarrow> Inl (EdcException (''Unknown provision type'' @ definitionClass definition'))
      | Some it \<Rightarrow> provisionCall it definition' policy)"

definition deprovision_one ::
  "'pol provisioner list \<Rightarrow> 'pol \<Rightarrow> provisionedResource \<Rightarrow> java_exn + deprovisionedResource statusResult" where
  "deprovision_one provisioners policy r =
     (case List.find (\<lambda>it. canDeprovision it r) provisioners of
        None \<Rightarrow> Inl (EdcException (''Unknown provision type'' @ resourceClass r))
      | Some it \<Rightarrow> deprovisionCall it r policy)"

definition provision ::
  "'pol provisioner list \<Rightarrow> resourceDefinition list \<Rightarrow> 'pol \<Rightarrow> java_exn + provisionResponse statusResult list" where
  "provision provisioners definitions' policy =
     asyncAllOf (map (provision_one provisioners policy) definitions')"

definition deprovision ::
  "'pol provisioner list \<Rightarrow> provisionedResource list \<Rightarrow> 'pol \<Rightarrow> java_exn + deprovisionedResource statusResult list" where
  "deprovision provisioners resources' policy =
     asyncAllOf (map (deprovision_one provisioners policy) resources')"

section \<open>ResourceManifestGeneratorImpl\<close>

definition empty_manifest :: resourceManifest where
  "empty_manifest = \<lparr>manifestProcessId = None, definitions = []\<rparr>"

text \<open>
  \<open>verify\<close> is the policy engine on the scope of manifest verification; its functions may change
  the definitions through the manifest context.
\<close>

definition generateConsumerResourceManifest ::
  "(dataRequest \<Rightarrow> 'pol \<Rightarrow> resourceDefinition option) list \<Rightarrow>
   ('pol \<Rightarrow> resourceDefinition list \<Rightarrow> unit result \<times> resourceDefinition list) \<Rightarrow>
   dataRequest \<Rightarrow> 'pol \<Rightarrow> resourceManifest result" where
  "generateConsumerResourceManifest consumerGenerators verify r policy =
     (if \<not> managedResources r then Success empty_manifest
      else
        let defs = List.map_filter (\<lambda>generate. generate r policy) consumerGenerators;
            (result, defs') = verify policy defs
        in case result of
             Success _ \<Rightarrow> Success (empty_manifest\<lparr>definitions := defs'\<rparr>)
           | Failure ms \<Rightarrow> Failure ms)"

definition generateProviderResourceManifest ::
  "(dataRequest \<Rightarrow> dataAddress option \<Rightarrow> 'pol \<Rightarrow> resourceDefinition option) list \<Rightarrow>
   dataRequest \<Rightarrow> dataAddress option \<Rightarrow> 'pol \<Rightarrow> resourceManifest" where
  "generateProviderResourceManifest providerGenerators r assetAddress policy =
     empty_manifest\<lparr>definitions :=
       List.map_filter (\<lambda>generate. generate r assetAddress policy) providerGenerators\<rparr>"

section \<open>DataFlowManagerImpl\<close>

record 'pol dataFlowController =
  canHandle :: "dataRequest \<Rightarrow> dataAddress option \<Rightarrow> java_exn + bool"
  initiateFlow :: "dataRequest \<Rightarrow> dataAddress option \<Rightarrow> 'pol \<Rightarrow> java_exn + unit statusResult"

primrec firstController ::
  "dataRequest \<Rightarrow> dataAddress option \<Rightarrow> 'pol dataFlowController list \<Rightarrow>
   java_exn + 'pol dataFlowController option" where
  "firstController r a [] = Inr None"
| "firstController r a (c # cs) =
     (case canHandle c r a of
        Inl e \<Rightarrow> Inl e
      | Inr b \<Rightarrow> if b then Inr (Some c) else firstController r a cs)"

text \<open>\<open>catch (Exception e)\<close>: an error passes.\<close>

definition initiate ::
  "'pol dataFlowController list \<Rightarrow> dataRequest \<Rightarrow> dataAddress option \<Rightarrow> 'pol \<Rightarrow> java_exn + unit statusResult" where
  "initiate controllers r contentAddress policy =
     (let outcome =
        (case firstController r contentAddress controllers of
           Inl e \<Rightarrow> Inl e
         | Inr None \<Rightarrow>
             Inr (StatusFailure FATAL_ERROR
               [''Unable to process data request '' @ requestId r @ ''. No data flow controller found''])
         | Inr (Some c) \<Rightarrow> initiateFlow c r contentAddress policy)
      in case outcome of
           Inl (JavaError m) \<Rightarrow> Inl (JavaError m)
         | Inl e \<Rightarrow>
             Inr (StatusFailure FATAL_ERROR
               [''Unable to process data request '' @ requestId r @
                ''. Data flow controller throws an exception: '' @ exnMessage e])
         | Inr x \<Rightarrow> Inr x)"

section \<open>What they promise\<close>

text \<open>
  Provisioning all definitions of a manifest answers with one response per definition, in
  order, each from the first provisioner that can provision it; it fails as a whole if one
  request fails or one definition has no provisioner.
\<close>

theorem provision_spec:
  "provision provisioners defs policy =
     (case List.find (\<lambda>d. \<exists>e. provision_one provisioners policy d = Inl e) defs of
        Some d \<Rightarrow> Inl (projl (provision_one provisioners policy d))
      | None \<Rightarrow> Inr (map (\<lambda>d. projr (provision_one provisioners policy d)) defs))"
  unfolding provision_def by (induction defs) (auto split: sum.splits option.splits)

text \<open>
  Initiating a data flow never throws an exception, whatever the controllers do: their
  exceptions, and the absence of a controller, are fatal failures that name the request.
\<close>

lemma initiate_no_exception:
  "initiate controllers r a policy = Inl e \<Longrightarrow> \<exists>m. e = JavaError m"
  by (auto simp: initiate_def Let_def split: sum.splits option.splits java_exn.splits)

end
