(* ===== verification/State_Machine.thy ===== *)
theory State_Machine
  imports Stateful_Entity
begin

text \<open>
  The loop that drives every state machine of the connector and the retry policy it consults:
  \<open>common/state-machine-lib\<close> (\<open>StateMachineManager\<close>, \<open>StateProcessorImpl\<close>,
  \<open>EntitySendRetryManager\<close>) and \<open>spi/core-spi/.../spi/retry\<close> (\<open>WaitStrategy\<close>,
  \<open>ExponentialWaitStrategy\<close>). Thread scheduling is left out: an iteration is a function that
  returns the delay with which the executor is asked to run the next one.
\<close>

section \<open>Wait strategies\<close>

text \<open>The interface \<open>WaitStrategy\<close> over an implementation's own state \<open>'w\<close>.\<close>

record 'w waitStrategy =
  waitForMillis :: "'w \<Rightarrow> int"
  success :: "'w \<Rightarrow> 'w"
  failures :: "int \<Rightarrow> 'w \<Rightarrow> 'w"
  retryInMillis :: "'w \<Rightarrow> int \<times> 'w"

text \<open>A strategy that only overrides \<open>waitForMillis\<close>, such as \<open>() -> 5000L\<close>: the defaults.\<close>

definition fixedWait :: "int \<Rightarrow> unit waitStrategy" where
  "fixedWait d =
     \<lparr>waitForMillis = (\<lambda>_. d), success = id, failures = (\<lambda>_. id), retryInMillis = (\<lambda>w. (d, w))\<rparr>"

text \<open>
  \<open>ExponentialWaitStrategy\<close>: the state is \<open>errorCount\<close>. Java takes the shift distance of
  \<open>1L << n\<close> modulo 64, and both the shift and the product wrap.
\<close>

definition shiftLong :: "int \<Rightarrow> int" where
  "shiftLong n = i64 (2 ^ nat (n mod 64))"

definition exponentialRetryInMillis :: "int \<Rightarrow> int \<Rightarrow> int \<times> int" where
  "exponentialRetryInMillis successWaitPeriodMillis errorCount =
     (i64 (shiftLong errorCount * successWaitPeriodMillis), i32 (errorCount + 1))"

definition exponentialWait :: "int \<Rightarrow> int waitStrategy" where
  "exponentialWait successWaitPeriodMillis =
     \<lparr>waitForMillis = (\<lambda>_. successWaitPeriodMillis),
      success = (\<lambda>_. 0),
      failures = (\<lambda>numberOfFailures errorCount. i32 (errorCount + numberOfFailures)),
      retryInMillis = exponentialRetryInMillis successWaitPeriodMillis\<rparr>"

section \<open>The retry manager\<close>

text \<open>
  \<open>EntitySendRetryManager\<close>: \<open>fresh\<close> is the state of the strategy the supplier creates.
\<close>

definition shouldDelay ::
  "'w waitStrategy \<Rightarrow> 'w \<Rightarrow> int \<Rightarrow> 'a stateful_entity_scheme \<Rightarrow> bool" where
  "shouldDelay ws fresh now process =
     (let retryCount = i32 (stateCount process - 1)
      in if retryCount \<le> 0 then False
         else
           let delayStrategy = failures ws retryCount fresh;
               waitMillis = fst (retryInMillis ws delayStrategy);
               remainingWaitMillis = i64 (i64 (stateTimestamp process + waitMillis) - now)
           in remainingWaitMillis > 0)"

definition retriesExhausted :: "int \<Rightarrow> 'a stateful_entity_scheme \<Rightarrow> bool" where
  "retriesExhausted retryLimit entity \<longleftrightarrow> stateCount entity > retryLimit"

section \<open>Processors and the loop\<close>

text \<open>
  \<open>StateProcessorImpl.process\<close>: fetch the entities, run the function on each in order, count
  the ones it reports processed. A throw ends the stream.
\<close>

primrec countProcessed :: "('e \<Rightarrow> ('s, bool) op) \<Rightarrow> 'e list \<Rightarrow> ('s, int) op" where
  "countProcessed f [] = ret 0"
| "countProcessed f (x # xs) =
     andThen (f x) (\<lambda>isProcessed.
     andThen (countProcessed f xs) (\<lambda>n. ret (if isProcessed then n + 1 else n)))"

definition stateProcessor ::
  "('s, 'e list) op \<Rightarrow> ('e \<Rightarrow> ('s, bool) op) \<Rightarrow> ('s, int) op" where
  "stateProcessor entities process = andThen entities (countProcessed process)"

primrec sumProcessors :: "('s, int) op list \<Rightarrow> ('s, int) op" where
  "sumProcessors [] = ret 0"
| "sumProcessors (p # ps) =
     andThen p (\<lambda>n. andThen (sumProcessors ps) (\<lambda>m. ret (i64 (n + m))))"

record ('s, 'w) loop_state =
  active :: bool
  strategy :: 'w
  world :: 's

definition performLogic ::
  "'w waitStrategy \<Rightarrow> ('s, int) op list \<Rightarrow> ('s, 'w) loop_state \<Rightarrow> int \<times> ('s, 'w) loop_state" where
  "performLogic ws processors l =
     (case sumProcessors processors (world l) of
        (Inr processed, s') \<Rightarrow>
          (let w' = success ws (strategy l); l' = l\<lparr>strategy := w', world := s'\<rparr>
           in if processed = 0 then (waitForMillis ws w', l') else (0, l'))
      | (Inl (JavaError m), s') \<Rightarrow> (0, l\<lparr>active := False, world := s'\<rparr>)
      | (Inl e, s') \<Rightarrow>
          (let (delay, w') = retryInMillis ws (strategy l)
           in (delay, l\<lparr>strategy := w', world := s'\<rparr>)))"

text \<open>
  One run of the submitted task: \<open>None\<close> when the loop is not active, so that nothing is
  submitted any more; otherwise the delay of the next submission.
\<close>

definition loop ::
  "'w waitStrategy \<Rightarrow> ('s, int) op list \<Rightarrow> ('s, 'w) loop_state \<Rightarrow> int option \<times> ('s, 'w) loop_state" where
  "loop ws processors l =
     (if active l then (let (delay, l') = performLogic ws processors l in (Some delay, l'))
      else (None, l))"

definition start :: "('s, 'w) loop_state \<Rightarrow> int option \<times> ('s, 'w) loop_state" where
  "start l = (Some 0, l\<lparr>active := True\<rparr>)"

definition stop :: "('s, 'w) loop_state \<Rightarrow> ('s, 'w) loop_state" where
  "stop l = l\<lparr>active := False\<rparr>"

text \<open>\<open>n\<close> runs of the task, each submitted by the one before.\<close>

primrec run_loop ::
  "nat \<Rightarrow> 'w waitStrategy \<Rightarrow> ('s, int) op list \<Rightarrow> ('s, 'w) loop_state \<Rightarrow> ('s, 'w) loop_state" where
  "run_loop 0 ws ps l = l"
| "run_loop (Suc n) ws ps l =
     (case loop ws ps l of (None, l') \<Rightarrow> l' | (Some _, l') \<Rightarrow> run_loop n ws ps l')"

section \<open>Properties\<close>

lemma countProcessed_run:
  assumes "\<And>x s. x \<in> set xs \<Longrightarrow> \<exists>b s'. f x s = (Inr b, s')"
  shows "\<exists>n s'. countProcessed f xs s = (Inr n, s') \<and> 0 \<le> n \<and> n \<le> int (length xs)"
  using assms
proof (induction xs arbitrary: s)
  case (Cons x xs)
  from Cons.prems obtain b s1 where x: "f x s = (Inr b, s1)" by (meson list.set_intros(1))
  from Cons.IH Cons.prems obtain n s2 where
    "countProcessed f xs s1 = (Inr n, s2)" "0 \<le> n" "n \<le> int (length xs)"
    by (meson list.set_intros(2))
  with x show ?case by (simp add: andThen_def)
qed simp

lemma keeps_countProcessed [intro]:
  "(\<And>x. x \<in> set xs \<Longrightarrow> keeps I (f x)) \<Longrightarrow> keeps I (countProcessed f xs)"
  by (induction xs) auto

lemma keeps_stateProcessor [intro]:
  "keeps I fetch \<Longrightarrow> (\<And>x. keeps I (f x)) \<Longrightarrow> keeps I (stateProcessor fetch f)"
  unfolding stateProcessor_def by auto

lemma keeps_sumProcessors [intro]:
  "(\<And>p. p \<in> set ps \<Longrightarrow> keeps I p) \<Longrightarrow> keeps I (sumProcessors ps)"
  by (induction ps) auto

lemma performLogic_keeps:
  assumes "\<And>p. p \<in> set ps \<Longrightarrow> keeps I p" and "I (world l)"
  shows "I (world (snd (performLogic ws ps l)))"
proof -
  have "keeps I (sumProcessors ps)" using assms(1) by auto
  with assms(2) have "I (snd (sumProcessors ps (world l)))" by (simp add: keepsD)
  then show ?thesis
    by (auto simp: performLogic_def Let_def split: prod.splits sum.splits java_exn.splits)
qed

lemma loop_keeps:
  assumes "\<And>p. p \<in> set ps \<Longrightarrow> keeps I p" and "I (world l)"
  shows "I (world (snd (loop ws ps l)))"
  using performLogic_keeps [where I = I and ps = ps and l = l and ws = ws] assms
  by (auto simp: loop_def split: prod.splits)

lemma run_loop_inactive: "\<not> active l \<Longrightarrow> run_loop n ws ps l = l"
  by (cases n) (simp_all add: loop_def)

text \<open>
  Invariants survive the loop: what every processor keeps of the world is kept by any
  number of iterations, whatever the processors throw and whatever the wait strategy answers.
\<close>

theorem run_loop_keeps:
  assumes "\<And>p. p \<in> set ps \<Longrightarrow> keeps I p" and "I (world l)"
  shows "I (world (run_loop n ws ps l))"
  using assms(2)
proof (induction n arbitrary: l)
  case (Suc n)
  have step: "I (world (snd (loop ws ps l)))" using assms(1) Suc.prems by (rule loop_keeps)
  show ?case
  proof (cases "loop ws ps l")
    case (Pair d l')
    with step Suc.IH [of l'] show ?thesis by (cases d) auto
  qed
qed simp

definition demo_processor :: "(int, int) op" where
  "demo_processor = andThen (modify (\<lambda>s. s + 1)) (\<lambda>_. ret 1)"

theorem run_loop_keeps_witness:
  "(0::int) \<le> world (run_loop 3 (exponentialWait 1000) [demo_processor]
      \<lparr>active = True, strategy = 0, world = 0\<rparr>)"
proof (rule run_loop_keeps [where I = "\<lambda>s. (0::int) \<le> s"])
  fix p assume "p \<in> set [demo_processor]"
  then show "keeps (\<lambda>s. 0 \<le> s) p" by (simp add: demo_processor_def keeps_def)
qed simp

text \<open>
  The loop survives every exception but a \<open>java.lang.Error\<close>: after a throwing iteration
  it is still active, and the next run is submitted with the strategy's retry delay; after an
  \<open>Error\<close> it is inactive, and no further run changes anything.
\<close>

theorem loop_survives_exceptions:
  assumes "active l" and "sumProcessors ps (world l) = (Inl e, s')"
  shows "case e of
           JavaError m \<Rightarrow>
             \<not> active (snd (loop ws ps l)) \<and>
             (\<forall>n. run_loop n ws ps (snd (loop ws ps l)) = snd (loop ws ps l))
         | _ \<Rightarrow>
             active (snd (loop ws ps l)) \<and>
             fst (loop ws ps l) = Some (fst (retryInMillis ws (strategy l)))"
  using assms
  by (cases e)
     (auto simp: loop_def performLogic_def run_loop_inactive split: prod.splits)

theorem loop_survives_exceptions_witness:
  "fst (loop (exponentialWait 1000) [throw (EdcException ''x'') :: (int, int) op]
      \<lparr>active = True, strategy = 2, world = 0\<rparr>) = Some 4000"
  using loop_survives_exceptions [of "\<lparr>active = True, strategy = 2, world = (0::int)\<rparr>"
      "[throw (EdcException ''x'')]" "EdcException ''x''" 0 "exponentialWait 1000"]
  by (simp add: exponentialWait_def exponentialRetryInMillis_def shiftLong_def)

subsection \<open>Exponential back-off\<close>

lemma shiftLong_pow: "0 \<le> n \<Longrightarrow> n < 63 \<Longrightarrow> shiftLong n = 2 ^ nat n"
proof -
  assume n: "0 \<le> n" "n < 63"
  then have "(2::int) ^ nat n \<le> 4611686018427387904"
    using power_increasing [of "nat n" 62 "2::int"] by simp
  moreover have "0 \<le> (2::int) ^ nat n" by simp
  ultimately have "- 9223372036854775808 \<le> (2::int) ^ nat n"
    and "(2::int) ^ nat n < 9223372036854775808" by linarith+
  then have "i64 (2 ^ nat n) = 2 ^ nat n" by (rule i64_id)
  with n show ?thesis by (simp add: shiftLong_def)
qed

text \<open>
  Back-off: as long as the product fits a \<open>long\<close>, the delay after \<open>n\<close> failures is
  \<open>2 ^ n\<close> times the success period, and the entity is held back exactly until that much time has
  passed since it entered its state; a first attempt is never held back.
\<close>

theorem shouldDelay_exponential:
  assumes "1 \<le> stateCount process" "stateCount process \<le> 63"
    and "0 \<le> period" and "2 ^ nat (stateCount process - 1) * period < 4611686018427387904"
    and "0 \<le> stateTimestamp process" "stateTimestamp process < 4611686018427387904"
    and "0 \<le> now" "now < 4611686018427387904"
  shows "shouldDelay (exponentialWait period) 0 now process \<longleftrightarrow>
    1 < stateCount process \<and>
    now < stateTimestamp process + 2 ^ nat (stateCount process - 1) * period"
proof -
  let ?n = "stateCount process - 1"
  let ?w = "2 ^ nat ?n * period"
  have n: "i32 ?n = ?n" using assms(1,2) by (intro i32_id) auto
  have sh: "shiftLong ?n = 2 ^ nat ?n" using assms(1,2) by (intro shiftLong_pow) auto
  have w0: "0 \<le> ?w" using assms(3) by simp
  have "i64 ?w = ?w" using w0 assms(4) by (intro i64_id) auto
  moreover have "i64 (stateTimestamp process + ?w) = stateTimestamp process + ?w"
    using w0 assms(4,5,6) by (intro i64_id) auto
  moreover have "i64 (stateTimestamp process + ?w - now) = stateTimestamp process + ?w - now"
    using w0 assms(4-8) by (intro i64_id) auto
  ultimately show ?thesis
    using n sh
    by (auto simp: shouldDelay_def exponentialWait_def exponentialRetryInMillis_def Let_def)
qed

definition demo_entity :: stateful_entity where
  "demo_entity = \<lparr>entityId = ''p1'', createdTimestamp = 1000, state = 400, stateCount = 3,
     stateTimestamp = 5000, traceContext = [], errorDetail = None\<rparr>"

theorem shouldDelay_exponential_witness:
  "shouldDelay (exponentialWait 1000) 0 8999 demo_entity \<and>
   \<not> shouldDelay (exponentialWait 1000) 0 9000 demo_entity"
  using shouldDelay_exponential [of demo_entity 1000 8999]
    shouldDelay_exponential [of demo_entity 1000 9000]
  by (simp add: demo_entity_def)

text \<open>
  Overflow: \<open>1L << n\<close> is not \<open>2 ^ n\<close> beyond 62 failures. Whatever the period, the delay
  after \<open>n\<close> and after \<open>n + 64\<close> failures is the same, and with the default period of one second
  the 61st retry is not held back at all.
\<close>

theorem exponential_wait_overflow:
  "fst (exponentialRetryInMillis period (n + 64)) = fst (exponentialRetryInMillis period n) \<and>
   fst (exponentialRetryInMillis 1000 61) = 0"
proof -
  have "shiftLong (n + 64) = shiftLong n" by (simp add: shiftLong_def)
  moreover have "i64 (2305843009213693952 * 1000) = 0" by (simp add: i64_def wrap_def)
  ultimately show ?thesis by (simp add: exponentialRetryInMillis_def shiftLong_pow)
qed

end
