(* ===== verification/Commands.thy ===== *)
theory Commands
  imports EDC_Prelude
begin

text \<open>
  The command subsystem of \<open>spi/core-spi/.../spi/command\<close>: \<open>Command\<close>,
  \<open>BoundedCommandQueue\<close>, \<open>CommandRunner\<close> and \<open>CommandProcessor\<close>. A command is an object whose
  error counter is mutated while it is run; here the runner returns the command it leaves
  behind. The handler registry maps a payload to its handler, \<open>None\<close> when no handler is
  registered for the class.
\<close>

record 'p command =
  commandId :: string
  errorCount :: int
  payload :: 'p

definition increaseErrorCount :: "'p command \<Rightarrow> 'p command" where
  "increaseErrorCount c = c\<lparr>errorCount := i32 (errorCount c + 1)\<rparr>"

definition getMaxRetry :: "'p command \<Rightarrow> int" where
  "getMaxRetry c = 5"

definition canRetry :: "'p command \<Rightarrow> bool" where
  "canRetry c \<longleftrightarrow> errorCount c < getMaxRetry c"

section \<open>The bounded queue\<close>

record 'c command_queue =
  bound :: nat
  queue :: "'c list"

definition enqueue :: "'c \<Rightarrow> 'c command_queue \<Rightarrow> java_exn + 'c command_queue" where
  "enqueue c q =
     (if length (queue q) < bound q then Inr (q\<lparr>queue := queue q @ [c]\<rparr>)
      else Inl (IllegalStateException ''Queue full''))"

definition dequeue :: "'c command_queue \<Rightarrow> 'c option \<times> 'c command_queue" where
  "dequeue q = (case queue q of [] \<Rightarrow> (None, q) | c # cs \<Rightarrow> (Some c, q\<lparr>queue := cs\<rparr>))"

definition dequeueN :: "int \<Rightarrow> 'c command_queue \<Rightarrow> java_exn + 'c list \<times> 'c command_queue" where
  "dequeueN amount q =
     (if amount < 0 then Inl (IllegalArgumentException '''')
      else Inr (take (nat amount) (queue q), q\<lparr>queue := drop (nat amount) (queue q)\<rparr>))"

definition peek :: "'c command_queue \<Rightarrow> 'c option" where
  "peek q = (case queue q of [] \<Rightarrow> None | c # _ \<Rightarrow> Some c)"

definition within_bound :: "'c command_queue \<Rightarrow> bool" where
  "within_bound q \<longleftrightarrow> length (queue q) \<le> bound q"

section \<open>Running and retrying\<close>

definition runCommand ::
  "('p \<Rightarrow> ('s, unit) op option) \<Rightarrow> 'p command \<Rightarrow> ('s, unit result \<times> 'p command) op" where
  "runCommand commandHandlerRegistry command =
     (case commandHandlerRegistry (payload command) of
        None \<Rightarrow> ret (Failure [''No command handler found for command type''],
                      increaseErrorCount command)
      | Some handler \<Rightarrow>
          (\<lambda>s. case handler s of
             (Inr _, s') \<Rightarrow> (Inr (Success (), command), s')
           | (Inl (JavaError m), s') \<Rightarrow> (Inl (JavaError m), s')
           | (Inl ex, s') \<Rightarrow> (Inr (Failure [exnMessage ex], increaseErrorCount command), s')))"

text \<open>
  \<open>CommandProcessor.processCommandQueue\<close>, on the queue and the state the handlers work on.
\<close>

definition processCommandQueue ::
  "('p \<Rightarrow> ('s, unit) op option) \<Rightarrow> 'p command \<Rightarrow> ('p command command_queue \<times> 's, bool) op" where
  "processCommandQueue commandHandlerRegistry command qs =
     (case qs of (q, s) \<Rightarrow>
        (case runCommand commandHandlerRegistry command s of
           (Inl e, s') \<Rightarrow> (Inl e, (q, s'))
         | (Inr (commandResult, command'), s') \<Rightarrow>
             (if failed commandResult then
                (if canRetry command' then
                   (case enqueue command' q of
                      Inl e \<Rightarrow> (Inl e, (q, s'))
                    | Inr q' \<Rightarrow> (Inr False, (q', s')))
                 else (Inr False, (q, s')))
              else (Inr True, (q, s')))))"

text \<open>
  The processor of a state machine drains the queue in batches of five; here one command at a
  time, until the queue is empty or the fuel is used up. The result counts the runs.
\<close>

primrec drain ::
  "nat \<Rightarrow> ('p \<Rightarrow> ('s, unit) op option) \<Rightarrow> 'p command command_queue \<times> 's \<Rightarrow>
   nat \<times> ('p command command_queue \<times> 's)" where
  "drain 0 reg qs = (0, qs)"
| "drain (Suc n) reg qs =
     (case dequeue (fst qs) of
        (None, _) \<Rightarrow> (0, qs)
      | (Some c, q) \<Rightarrow>
          (let (k, qs') = drain n reg (snd (processCommandQueue reg c (q, snd qs)))
           in (Suc k, qs')))"

section \<open>Properties\<close>

lemma enqueue_within_bound: "enqueue c q = Inr q' \<Longrightarrow> within_bound q'"
  by (auto simp: enqueue_def within_bound_def split: if_splits)

lemma dequeueN_within_bound: "dequeueN n q = Inr (cs, q') \<Longrightarrow> within_bound q \<Longrightarrow> within_bound q'"
  by (auto simp: dequeueN_def within_bound_def split: if_splits)

text \<open>The interface of a FIFO command queue, as the managers use it.\<close>

locale fifo_queue =
  fixes enq :: "'c \<Rightarrow> 'q \<Rightarrow> java_exn + 'q"
    and deqN :: "int \<Rightarrow> 'q \<Rightarrow> java_exn + 'c list \<times> 'q"
    and elems :: "'q \<Rightarrow> 'c list"
    and invar :: "'q \<Rightarrow> bool"
  assumes enq_elems: "enq c q = Inr q' \<Longrightarrow> elems q' = elems q @ [c]"
    and enq_invar: "invar q \<Longrightarrow> enq c q = Inr q' \<Longrightarrow> invar q'"
    and deqN_split: "deqN n q = Inr (cs, q') \<Longrightarrow> elems q = cs @ elems q' \<and> length cs \<le> nat n"
    and deqN_invar: "invar q \<Longrightarrow> deqN n q = Inr (cs, q') \<Longrightarrow> invar q'"
    and deqN_total: "0 \<le> n \<Longrightarrow> \<exists>cs q'. deqN n q = Inr (cs, q') \<and>
                       (length (elems q) \<le> nat n \<longrightarrow> elems q' = [])"
begin

text \<open>Commands leave the queue in the order they entered it, and none is lost.\<close>

lemma fifo_order:
  assumes "enq c q = Inr q1" and "deqN n q1 = Inr (cs, q2)"
  shows "cs @ elems q2 = elems q @ [c]"
  using enq_elems [OF assms(1)] deqN_split [OF assms(2)] by simp

lemma drained:
  assumes "0 \<le> n" and "length (elems q) \<le> nat n"
  obtains q' where "deqN n q = Inr (elems q, q')" and "elems q' = []"
proof -
  from deqN_total [OF assms(1)] assms(2) obtain cs q' where
    d: "deqN n q = Inr (cs, q')" and "elems q' = []" by blast
  moreover from deqN_split [OF d] \<open>elems q' = []\<close> have "cs = elems q" by simp
  ultimately show ?thesis using that by simp
qed

end

interpretation bounded: fifo_queue enqueue dequeueN queue within_bound
proof unfold_locales
  fix c :: 'a and q q' n cs
  show "enqueue c q = Inr q' \<Longrightarrow> queue q' = queue q @ [c]"
    by (auto simp: enqueue_def split: if_splits)
  show "within_bound q \<Longrightarrow> enqueue c q = Inr q' \<Longrightarrow> within_bound q'"
    by (rule enqueue_within_bound)
  show "dequeueN n q = Inr (cs, q') \<Longrightarrow> queue q = cs @ queue q' \<and> length cs \<le> nat n"
    for cs :: "'a list"
    by (auto simp: dequeueN_def split: if_splits)
  show "within_bound q \<Longrightarrow> dequeueN n q = Inr (cs, q') \<Longrightarrow> within_bound q'" for cs :: "'a list"
    by (rule dequeueN_within_bound)
  show "0 \<le> n \<Longrightarrow> \<exists>cs q'. dequeueN n q = Inr (cs, q') \<and>
      (length (queue q) \<le> nat n \<longrightarrow> queue q' = [])" for q :: "'a command_queue"
    by (auto simp: dequeueN_def)
qed

text \<open>
  The bounded queue is a bounded FIFO: what was enqueued comes out behind what was there
  before, nothing is lost or duplicated, and the queue never exceeds its capacity.
\<close>

theorem bounded_queue_fifo:
  assumes "within_bound q" and "enqueue c q = Inr q1" and "dequeueN n q1 = Inr (cs, q2)"
  shows "cs @ queue q2 = queue q @ [c] \<and> within_bound q1 \<and> within_bound q2"
  using bounded.fifo_order [OF assms(2,3)] bounded.enq_invar [OF assms(1,2)]
    bounded.deqN_invar [OF _ assms(3)] by blast

definition demo_queue :: "nat command_queue" where
  "demo_queue = \<lparr>bound = 3, queue = [1, 2]\<rparr>"

theorem bounded_queue_fifo_witness:
  "enqueue 3 demo_queue = Inr \<lparr>bound = 3, queue = [1, 2, 3]\<rparr> \<and>
   [1, 2] @ queue \<lparr>bound = 3, queue = [3]\<rparr> = queue demo_queue @ [3]"
proof -
  have e: "enqueue 3 demo_queue = Inr \<lparr>bound = 3, queue = [1, 2, 3]\<rparr>"
    by (simp add: enqueue_def demo_queue_def)
  have d: "dequeueN 2 \<lparr>bound = 3, queue = [1, 2, 3::nat]\<rparr> = Inr ([1, 2], \<lparr>bound = 3, queue = [3]\<rparr>)"
    by (simp add: dequeueN_def)
  have "within_bound demo_queue" by (simp add: within_bound_def demo_queue_def)
  from bounded_queue_fifo [OF this e d] e show ?thesis by simp
qed

subsection \<open>How often a command is run\<close>

definition always_throws :: "('p \<Rightarrow> ('s, unit) op option) \<Rightarrow> 'p \<Rightarrow> bool" where
  "always_throws reg p \<longleftrightarrow>
     (\<exists>h. reg p = Some h \<and> (\<forall>s. \<exists>m s'. h s = (Inl (EdcException m), s')))"

lemma runCommand_state:
  "snd (runCommand reg c s) = (case reg (payload c) of None \<Rightarrow> s | Some h \<Rightarrow> snd (h s))"
proof (cases "reg (payload c)")
  case (Some h)
  obtain x s' where h: "h s = (x, s')" by (cases "h s")
  show ?thesis
  proof (cases x)
    case (Inl e)
    then show ?thesis using Some h by (cases e) (simp_all add: runCommand_def)
  qed (use Some h in \<open>simp add: runCommand_def\<close>)
qed (simp add: runCommand_def)

lemma runCommand_throws:
  assumes "always_throws reg (payload c)"
  shows "\<exists>m s'. runCommand reg c s = (Inr (Failure [m], increaseErrorCount c), s')"
proof -
  from assms obtain h where h: "reg (payload c) = Some h"
    and t: "\<And>s. \<exists>m s'. h s = (Inl (EdcException m), s')" by (auto simp: always_throws_def)
  from t [of s] obtain m s' where "h s = (Inl (EdcException m), s')" by blast
  with h show ?thesis by (simp add: runCommand_def)
qed

lemma process_failing:
  assumes "always_throws reg (payload c)" and "errorCount c = int k" and "k < 5"
    and "0 < bound q" and "queue q = []"
  shows "\<exists>s'. processCommandQueue reg c (q, s) =
     (Inr False,
       (if k < 4 then (q\<lparr>queue := [c\<lparr>errorCount := int k + 1\<rparr>]\<rparr>, s') else (q, s')))"
proof -
  from runCommand_throws [OF assms(1), of s] obtain m s' where
    "runCommand reg c s = (Inr (Failure [m], increaseErrorCount c), s')"
    by blast
  moreover have "increaseErrorCount c = c\<lparr>errorCount := int k + 1\<rparr>"
    using assms(2,3) by (simp add: increaseErrorCount_def)
  ultimately show ?thesis
    using assms(3-5)
    by (auto simp: processCommandQueue_def canRetry_def getMaxRetry_def enqueue_def)
qed

lemma drain_failing:
  assumes "always_throws reg (payload c)" and "errorCount c = int k" and "k < 5"
    and "0 < bound q" and "queue q = [c]" and "5 - k \<le> n"
  shows "\<exists>s'. drain n reg (q, s) = (5 - k, (q\<lparr>queue := []\<rparr>, s'))"
  using assms
proof (induction n arbitrary: c k q s)
  case (Suc n)
  let ?q = "q\<lparr>queue := []\<rparr>"
  have dq: "dequeue q = (Some c, ?q)" using Suc.prems(5) by (simp add: dequeue_def)
  from process_failing [OF Suc.prems(1-3), of ?q s] Suc.prems(4) obtain s1 where
    p: "processCommandQueue reg c (?q, s) = (Inr False,
       (if k < 4 then (q\<lparr>queue := [c\<lparr>errorCount := int k + 1\<rparr>]\<rparr>, s1) else (?q, s1)))"
    by auto
  show ?case
  proof (cases "k < 4")
    case True
    let ?c = "c\<lparr>errorCount := int (Suc k)\<rparr>" and ?q1 = "q\<lparr>queue := [c\<lparr>errorCount := int (Suc k)\<rparr>]\<rparr>"
    have "\<exists>s'. drain n reg (?q1, s1) = (5 - Suc k, (?q1\<lparr>queue := []\<rparr>, s'))"
      using True Suc.prems by (intro Suc.IH [of ?c]) auto
    with True dq p show ?thesis by (auto simp: add.commute)
  next
    case False
    with Suc.prems(3) have "k = 4" by simp
    moreover have "drain n reg (?q, s1) = (0, (?q, s1))"
      by (cases n) (simp_all add: dequeue_def)
    ultimately show ?thesis using dq p by simp
  qed
qed simp

text \<open>
  (C40) A command whose handler always throws is run five times in all, then it is discarded
  and the queue is empty: the four re-enqueued runs are its retries.
\<close>

theorem failing_command_runs_five_times:
  assumes "always_throws reg (payload c)" and "errorCount c = 0"
    and "0 < bound q" and "queue q = [c]" and "5 \<le> n"
  shows "\<exists>s'. drain n reg (q, s) = (5, (q\<lparr>queue := []\<rparr>, s'))"
  using drain_failing [OF assms(1), of 0 q n s] assms(2-5) by simp

theorem failing_command_runs_five_times_witness:
  "\<exists>s'. drain 9 (\<lambda>_::nat. Some (throw (EdcException ''x'') :: (int, unit) op))
      (\<lparr>bound = 10, queue = [\<lparr>commandId = ''c'', errorCount = 0, payload = 7\<rparr>]\<rparr>, 0) =
    (5, (\<lparr>bound = 10, queue = []\<rparr>, s'))"
  using failing_command_runs_five_times
    [of "\<lambda>_::nat. Some (throw (EdcException ''x'') :: (int, unit) op)"
        "\<lparr>commandId = ''c'', errorCount = 0, payload = 7\<rparr>"
        "\<lparr>bound = 10, queue = [\<lparr>commandId = ''c'', errorCount = 0, payload = 7\<rparr>]\<rparr>" 9 0]
  by (simp add: always_throws_def)

end
