(* ===== verification/Transfer_Manager.thy ===== *)
theory Transfer_Manager
  imports Provisioning State_Machine Commands
begin

text \<open>
  The transfer manager: \<open>TransferProcessManagerImpl\<close> and the command handlers of
  \<open>core/transfer/.../command/handlers\<close>, on the in-memory store.

  The manager's state \<open>tpm\<close> holds the store, the vault, the command queue, the notifications
  sent to the listeners, and the callbacks of asynchronous calls that have not run yet. An
  asynchronous call is made by a handler with the outcome it will complete with, and its callback
  runs in a later step. A callback keeps what it captured: the identifier of the process, or
  the process object itself. What extensions answer, the settings and the random identifiers are
  the fields of \<open>tpm_env\<close>; \<open>now\<close> is the clock during a handler. Log output is left out.
\<close>

section \<open>State and environment\<close>

datatype tpEvent =
    Ev_preCreated | Ev_initiated | Ev_preProvisioning | Ev_preProvisioned | Ev_provisioned
  | Ev_preRequesting | Ev_preRequested | Ev_requested | Ev_preInProgress | Ev_preCompleted
  | Ev_completed | Ev_preDeprovisioning | Ev_preDeprovisioned | Ev_deprovisioned | Ev_preEnded
  | Ev_ended | Ev_preError | Ev_failed | Ev_cancelled

text \<open>A notification: the event, the process, its state, and the state stored at that time.\<close>

type_synonym notification = "tpEvent \<times> string \<times> int \<times> int option"

datatype tpPending =
    ProvisionDone string "java_exn + provisionResponse statusResult list"
  | DeprovisionDone string "java_exn + deprovisionedResource statusResult list"
  | RequestSent transfer_process "java_exn + unit"

datatype tpCommand =
    CancelTransferCommand string
  | DeprovisionRequest string
  | AddProvisionedResourceCommand string provisionResponse
  | DeprovisionCompleteCommand string deprovisionedResource

record tpm =
  tpStore :: "transfer_process entity_store"
  vault :: "string jmap"
  events :: "notification list"
  pending :: "tpPending list"
  commandQueue :: "tpCommand command command_queue"

record 'pol tpm_env =
  findPolicyForContract :: "string \<Rightarrow> 'pol"
  consumerGenerators :: "(dataRequest \<Rightarrow> 'pol \<Rightarrow> resourceDefinition option) list"
  providerGenerators :: "(dataRequest \<Rightarrow> dataAddress option \<Rightarrow> 'pol \<Rightarrow> resourceDefinition option) list"
  verifyManifest :: "'pol \<Rightarrow> resourceDefinition list \<Rightarrow> unit result \<times> resourceDefinition list"
  provisioners :: "'pol provisioner list"
  controllers :: "'pol dataFlowController list"
  statusCheckers :: "(transfer_process \<Rightarrow> provisionedResource list \<Rightarrow> bool) jmap"
  resolveForAsset :: "string \<Rightarrow> dataAddress option"
  sendMessage :: "dataRequest \<Rightarrow> java_exn + unit"
  storeSecretFails :: "string \<Rightarrow> string list option"
  deleteSecretFails :: "string \<Rightarrow> string list option"
  retryBaseDelay :: int
  tpRetryLimit :: int
  currentTraceContext :: "string jmap"

definition newline :: string where
  "newline = [CHR 0x0A]"

section \<open>Store, vault and listeners\<close>

definition tp_find :: "int \<Rightarrow> string \<Rightarrow> (tpm, transfer_process option) op" where
  "tp_find now ident = gets (\<lambda>s. find_entity (copy_process now) ident (tpStore s))"

definition tp_update :: "int \<Rightarrow> transfer_process \<Rightarrow> (tpm, unit) op" where
  "tp_update now p = modify (\<lambda>s. s\<lparr>tpStore := upsert (copy_process now) p (tpStore s)\<rparr>)"

definition processIdForTransferId :: "string \<Rightarrow> (tpm, string option) op" where
  "processIdForTransferId ident =
     gets (\<lambda>s. map_option entityId
       (List.find (\<lambda>p. ident = requestId (dataRequest p)) (findAll_entities (tpStore s))))"

definition tp_nextForState :: "int \<Rightarrow> int \<Rightarrow> int \<Rightarrow> (tpm, transfer_process list) op" where
  "tp_nextForState now st limit s =
     (case nextForState (copy_process now) st limit (tpStore s) of
        (r, m) \<Rightarrow> (r, s\<lparr>tpStore := m\<rparr>))"

definition notify :: "tpEvent \<Rightarrow> transfer_process \<Rightarrow> (tpm, unit) op" where
  "notify ev p = modify (\<lambda>s. s\<lparr>events := events s @
     [(ev, entityId p, state p,
       map_option (\<lambda>i. state (item i)) (map_of (tpStore s) (entityId p)))]\<rparr>)"

definition storeSecret :: "'pol tpm_env \<Rightarrow> string \<Rightarrow> string \<Rightarrow> (tpm, unit result) op" where
  "storeSecret env key v =
     (case storeSecretFails env key of
        Some ms \<Rightarrow> ret (Failure ms)
      | None \<Rightarrow> andThen (modify (\<lambda>s. s\<lparr>vault := put key v (vault s)\<rparr>)) (\<lambda>_. ret (Success ())))"

definition deleteSecret :: "'pol tpm_env \<Rightarrow> string \<Rightarrow> (tpm, unit result) op" where
  "deleteSecret env key =
     (case deleteSecretFails env key of
        Some ms \<Rightarrow> ret (Failure ms)
      | None \<Rightarrow> andThen (modify (\<lambda>s. s\<lparr>vault := remove_key key (vault s)\<rparr>)) (\<lambda>_. ret (Success ())))"

definition whenComplete :: "tpPending \<Rightarrow> (tpm, unit) op" where
  "whenComplete c = modify (\<lambda>s. s\<lparr>pending := pending s @ [c]\<rparr>)"

section \<open>Transitions of the manager\<close>

definition updateTransferProcess :: "int \<Rightarrow> tpEvent \<Rightarrow> transfer_process \<Rightarrow> (tpm, unit) op" where
  "updateTransferProcess now ev p = andThen (notify ev p) (\<lambda>_. tp_update now p)"

definition tp_breakLease :: "int \<Rightarrow> transfer_process \<Rightarrow> (tpm, unit) op" where
  "tp_breakLease now p = tp_update now p"

definition transitionToCompleted :: "int \<Rightarrow> transfer_process \<Rightarrow> (tpm, unit) op" where
  "transitionToCompleted now p =
     andThen (liftE (transitionCompleted now p)) (\<lambda>p'.
     andThen (updateTransferProcess now Ev_preCompleted p') (\<lambda>_.
     notify Ev_completed p'))"

definition transitionToError :: "int \<Rightarrow> transfer_process \<Rightarrow> string \<Rightarrow> (tpm, transfer_process) op" where
  "transitionToError now p message =
     (let p' = transitionError now (Some message) p
      in andThen (updateTransferProcess now Ev_preError p') (\<lambda>_.
         andThen (notify Ev_failed p') (\<lambda>_. ret p')))"

definition transitionToErrorById :: "int \<Rightarrow> string \<Rightarrow> java_exn \<Rightarrow> string \<Rightarrow> (tpm, unit) op" where
  "transitionToErrorById now ident throwable message =
     andThen (tp_find now ident) (\<lambda>found.
       case found of
         None \<Rightarrow> ret ()
       | Some p \<Rightarrow>
           andThen (transitionToError now p (message @ '': '' @ exnMessage throwable)) (\<lambda>_. ret ()))"

section \<open>Creating a process\<close>

definition new_process :: "tpType \<Rightarrow> dataRequest \<Rightarrow> int \<Rightarrow> string jmap \<Rightarrow> transfer_process" where
  "new_process ty r created tc =
     \<lparr>entityId = [], createdTimestamp = created, state = 0, stateCount = 0, stateTimestamp = 0,
      traceContext = tc, errorDetail = None, tpType = ty, dataRequest = r,
      contentDataAddress = None, resourceManifest = None, provisionedResourceSet = None,
      deprovisionedResources = []\<rparr>"

definition initiateRequest ::
  "'pol tpm_env \<Rightarrow> int \<Rightarrow> string \<Rightarrow> tpType \<Rightarrow> dataRequest \<Rightarrow> (tpm, string statusResult) op" where
  "initiateRequest env now uuid ty r =
     andThen (processIdForTransferId (requestId r)) (\<lambda>existing.
       case existing of
         Some processId \<Rightarrow> ret (StatusSuccess processId)
       | None \<Rightarrow>
           andThen (liftE (build_process now (Some uuid) (new_process ty r now (currentTraceContext env)))) (\<lambda>p.
           andThen (liftE (if state p = code UNSAVED then transitionInitial now p else Inr p)) (\<lambda>p'.
           andThen (notify Ev_preCreated p') (\<lambda>_.
           andThen (tp_update now p') (\<lambda>_.
           andThen (notify Ev_initiated p') (\<lambda>_.
           ret (StatusSuccess (entityId p'))))))))"

section \<open>Results of provisioning\<close>

definition handleProvisionDataAddressResource ::
  "resourceKind \<Rightarrow> transfer_process \<Rightarrow> transfer_process" where
  "handleProvisionDataAddressResource k p =
     (case k of
        DataDestinationResource _ a \<Rightarrow> p\<lparr>dataRequest := updateDestination a (dataRequest p)\<rparr>
      | ContentResource _ a \<Rightarrow> addContentDataAddress (Some a) p
      | _ \<Rightarrow> p)"

definition resourceName :: "resourceKind \<Rightarrow> string option" where
  "resourceName k =
     (case k of
        PlainResource \<Rightarrow> None
      | DataAddressResource n _ \<Rightarrow> Some n
      | DataDestinationResource n _ \<Rightarrow> Some n
      | ContentResource n _ \<Rightarrow> Some n)"

definition kind_setKeyName :: "string \<Rightarrow> resourceKind \<Rightarrow> resourceKind" where
  "kind_setKeyName key k =
     (case k of
        PlainResource \<Rightarrow> PlainResource
      | DataAddressResource n a \<Rightarrow> DataAddressResource n (setKeyName key a)
      | DataDestinationResource n a \<Rightarrow> DataDestinationResource n (setKeyName key a)
      | ContentResource n a \<Rightarrow> ContentResource n (setKeyName key a))"

text \<open>One response: the process with the resource, and the fatal errors it adds.\<close>

definition handleProvisionResponse ::
  "'pol tpm_env \<Rightarrow> provisionResponse statusResult \<Rightarrow> transfer_process \<Rightarrow> (tpm, transfer_process \<times> string list) op" where
  "handleProvisionResponse env result p =
     (case result of
        StatusFailure status ms \<Rightarrow> ret (p, if status = FATAL_ERROR then ms else [])
      | StatusSuccess InProcess \<Rightarrow> ret (p, [])
      | StatusSuccess (ProvisionResponse r secretToken) \<Rightarrow>
          (case (resourceName (resourceKind r), secretToken) of
             (Some keyName, Some secret) \<Rightarrow>
               andThen (storeSecret env keyName secret) (\<lambda>secretResult.
                 let k = kind_setKeyName keyName (resourceKind r);
                     p' = handleProvisionDataAddressResource k p
                 in ret (addProvisionedResource (r\<lparr>resourceKind := k\<rparr>) p',
                         case secretResult of
                           Success _ \<Rightarrow> []
                         | Failure ms \<Rightarrow>
                             [''Error storing secret in vault with key '' @ keyName @
                              '' for transfer process '' @ entityId p @ '': '' @ newline @ '' '' @
                              join newline ms]))
           | _ \<Rightarrow>
               ret (addProvisionedResource r
                      (handleProvisionDataAddressResource (resourceKind r) p), [])))"

primrec handleProvisionResponses ::
  "'pol tpm_env \<Rightarrow> provisionResponse statusResult list \<Rightarrow> transfer_process \<times> string list \<Rightarrow>
   (tpm, transfer_process \<times> string list) op" where
  "handleProvisionResponses env [] pe = ret pe"
| "handleProvisionResponses env (r # rs) pe =
     andThen (handleProvisionResponse env r (fst pe)) (\<lambda>(p', es).
     handleProvisionResponses env rs (p', snd pe @ es))"

definition handleProvisionResult ::
  "'pol tpm_env \<Rightarrow> int \<Rightarrow> transfer_process \<Rightarrow> provisionResponse statusResult list \<Rightarrow> (tpm, unit) op" where
  "handleProvisionResult env now p responses =
     andThen (handleProvisionResponses env responses (p, [])) (\<lambda>(p', fatalErrors).
       if fatalErrors \<noteq> [] then
         andThen (transitionToError now p'
           (''Transitioning transfer process '' @ entityId p' @
            '' to ERROR state due to fatal provisioning errors: '' @ newline @
            join newline fatalErrors)) (\<lambda>_. ret ())
       else if provisioningComplete p' then
         andThen (liftE (transitionProvisioned now p')) (\<lambda>p''.
         andThen (notify Ev_preProvisioned p'') (\<lambda>_.
         andThen (tp_update now p'') (\<lambda>_.
         notify Ev_provisioned p'')))
       else tp_update now p')"

definition handleProvisionResultById ::
  "'pol tpm_env \<Rightarrow> int \<Rightarrow> string \<Rightarrow> provisionResponse statusResult list \<Rightarrow> (tpm, unit) op" where
  "handleProvisionResultById env now processId responses =
     andThen (tp_find now processId) (\<lambda>found.
       case found of
         None \<Rightarrow> ret ()
       | Some p \<Rightarrow>
           if state p = code ERROR then ret () else handleProvisionResult env now p responses)"

definition removeDeprovisionedSecrets :: "'pol tpm_env \<Rightarrow> string \<Rightarrow> (tpm, unit) op" where
  "removeDeprovisionedSecrets env keyName =
     andThen (deleteSecret env keyName) (\<lambda>_. ret ())"

definition handleDeprovisionResponse ::
  "'pol tpm_env \<Rightarrow> deprovisionedResource statusResult \<Rightarrow> transfer_process \<Rightarrow> (tpm, transfer_process \<times> string list) op" where
  "handleDeprovisionResponse env result p =
     (case result of
        StatusFailure status ms \<Rightarrow> ret (p, if status = FATAL_ERROR then ms else [])
      | StatusSuccess d \<Rightarrow>
          if deprovisionInProcess d then ret (p, [])
          else
            (case getProvisionedResource (provisionedResourceId d) p of
               None \<Rightarrow> ret (p, [])
             | Some r \<Rightarrow>
                 andThen
                   (case resourceName (resourceKind r) of
                      Some keyName \<Rightarrow>
                        if hasToken r then removeDeprovisionedSecrets env keyName else ret ()
                    | None \<Rightarrow> ret ())
                   (\<lambda>_. ret (addDeprovisionedResource d p, []))))"

primrec handleDeprovisionResponses ::
  "'pol tpm_env \<Rightarrow> deprovisionedResource statusResult list \<Rightarrow> transfer_process \<times> string list \<Rightarrow>
   (tpm, transfer_process \<times> string list) op" where
  "handleDeprovisionResponses env [] pe = ret pe"
| "handleDeprovisionResponses env (r # rs) pe =
     andThen (handleDeprovisionResponse env r (fst pe)) (\<lambda>(p', es).
     handleDeprovisionResponses env rs (p', snd pe @ es))"

definition handleDeprovisionResult ::
  "'pol tpm_env \<Rightarrow> int \<Rightarrow> transfer_process \<Rightarrow> deprovisionedResource statusResult list \<Rightarrow> (tpm, unit) op" where
  "handleDeprovisionResult env now p results =
     andThen (handleDeprovisionResponses env results (p, [])) (\<lambda>(p', fatalErrors).
       if fatalErrors \<noteq> [] then
         andThen (transitionToError now p'
           (''Transitioning transfer process '' @ entityId p' @
            '' to ERROR state due to fatal deprovisioning errors: '' @ newline @
            join newline fatalErrors)) (\<lambda>_. ret ())
       else if deprovisionComplete p' then
         andThen (liftE (transitionDeprovisioned now p')) (\<lambda>p''.
         andThen (notify Ev_preDeprovisioned p'') (\<lambda>_.
         andThen (tp_update now p'') (\<lambda>_.
         notify Ev_deprovisioned p'')))
       else tp_update now p')"

definition handleDeprovisionResultById ::
  "'pol tpm_env \<Rightarrow> int \<Rightarrow> string \<Rightarrow> deprovisionedResource statusResult list \<Rightarrow> (tpm, unit) op" where
  "handleDeprovisionResultById env now processId results =
     andThen (tp_find now processId) (\<lambda>found.
       case found of
         None \<Rightarrow> ret ()
       | Some p \<Rightarrow>
           if state p = code ERROR then ret () else handleDeprovisionResult env now p results)"

section \<open>Handlers of the states\<close>

text \<open>
  \<open>processInitial\<close>: after a missing data address the process goes to \<open>ERROR\<close> and the
  handler goes on with it.
\<close>

definition processInitial :: "'pol tpm_env \<Rightarrow> int \<Rightarrow> transfer_process \<Rightarrow> (tpm, bool) op" where
  "processInitial env now p =
     (let r = dataRequest p;
          policy = findPolicyForContract env (contractId r);
          proceed = (\<lambda>p manifest.
            andThen (liftE (transitionProvisioning now manifest p)) (\<lambda>p'.
            andThen (updateTransferProcess now Ev_preProvisioning p') (\<lambda>_. ret True)))
      in if tpType p = CONSUMER then
           (case generateConsumerResourceManifest (consumerGenerators env) (verifyManifest env) r policy of
              Failure _ \<Rightarrow>
                andThen (updateTransferProcess now Ev_preError
                  (transitionError now (Some (''Resource manifest for process '' @ entityId p @
                     '' cannot be modified to fulfil policy.'')) p)) (\<lambda>_. ret True)
            | Success manifest \<Rightarrow> proceed p manifest)
         else
           let dataAddress = resolveForAsset env (assetId r)
           in andThen
                (if dataAddress = None
                 then transitionToError now p (''Asset not found: '' @ assetId r)
                 else ret p)
                (\<lambda>p'. proceed (addContentDataAddress dataAddress p')
                   (generateProviderResourceManifest (providerGenerators env) r dataAddress policy)))"

definition processProvisioning :: "'pol tpm_env \<Rightarrow> int \<Rightarrow> transfer_process \<Rightarrow> (tpm, bool) op" where
  "processProvisioning env now p =
     (let policy = findPolicyForContract env (contractId (dataRequest p))
      in andThen (whenComplete (ProvisionDone (entityId p)
           (provision (provisioners env) (getResourcesToProvision p) policy))) (\<lambda>_. ret True))"

definition processProviderRequest :: "'pol tpm_env \<Rightarrow> int \<Rightarrow> transfer_process \<Rightarrow> (tpm, unit) op" where
  "processProviderRequest env now p =
     (let r = dataRequest p; policy = findPolicyForContract env (contractId r)
      in andThen (liftE (initiate (controllers env) r (contentDataAddress p) policy)) (\<lambda>response.
         case response of
           StatusSuccess _ \<Rightarrow>
             andThen (liftE (transitionInProgressOrStreaming now p)) (\<lambda>p'.
             updateTransferProcess now Ev_preInProgress p')
         | StatusFailure ERROR_RETRY _ \<Rightarrow>
             andThen (liftE (transitionProvisioned now p)) (\<lambda>p'.
             updateTransferProcess now Ev_preProvisioned p')
         | StatusFailure FATAL_ERROR ms \<Rightarrow>
             andThen (transitionToError now p (''Fatal error processing transfer request: '' @
               entityId p @ ''. Error details: '' @ join '', '' ms)) (\<lambda>_. ret ())))"

definition processProvisioned :: "'pol tpm_env \<Rightarrow> int \<Rightarrow> transfer_process \<Rightarrow> (tpm, bool) op" where
  "processProvisioned env now p =
     andThen
       (if tpType p = CONSUMER then
          andThen (liftE (transitionRequesting now p)) (\<lambda>p'.
          andThen (tp_update now p') (\<lambda>_.
          notify Ev_preRequesting p'))
        else processProviderRequest env now p)
       (\<lambda>_. ret True)"

definition sendConsumerRequest :: "'pol tpm_env \<Rightarrow> transfer_process \<Rightarrow> (tpm, unit) op" where
  "sendConsumerRequest env p = whenComplete (RequestSent p (sendMessage env (dataRequest p)))"

definition processConsumerRequest :: "'pol tpm_env \<Rightarrow> int \<Rightarrow> transfer_process \<Rightarrow> (tpm, bool) op" where
  "processConsumerRequest env now p =
     (if shouldDelay (exponentialWait (retryBaseDelay env)) 0 now p
      then andThen (tp_breakLease now p) (\<lambda>_. ret False)
      else andThen (sendConsumerRequest env p) (\<lambda>_. ret True))"

definition tp_processRequesting :: "'pol tpm_env \<Rightarrow> int \<Rightarrow> transfer_process \<Rightarrow> (tpm, bool) op" where
  "tp_processRequesting env now p =
     (if tpType p = CONSUMER then processConsumerRequest env now p else ret False)"

definition sendConsumerRequestSuccess :: "int \<Rightarrow> transfer_process \<Rightarrow> (tpm, unit) op" where
  "sendConsumerRequestSuccess now p =
     andThen (liftE (transitionRequested now p)) (\<lambda>p'.
     andThen (updateTransferProcess now Ev_preRequested p') (\<lambda>_.
     notify Ev_requested p'))"

definition sendCustomerRequestFailure ::
  "'pol tpm_env \<Rightarrow> int \<Rightarrow> transfer_process \<Rightarrow> java_exn \<Rightarrow> (tpm, unit) op" where
  "sendCustomerRequestFailure env now p e =
     (if retriesExhausted (tpRetryLimit env) p
      then transitionToErrorById now (entityId p) e ''Retry limit exceeded''
      else andThen (liftE (transitionRequesting now p)) (\<lambda>p'. tp_update now p'))"

definition processRequested :: "int \<Rightarrow> transfer_process \<Rightarrow> (tpm, bool) op" where
  "processRequested now p =
     (if \<not> managedResources (dataRequest p) \<or>
         (case provisionedResourceSet p of None \<Rightarrow> False | Some s \<Rightarrow> resources s \<noteq> [])
      then andThen (liftE (transitionInProgressOrStreaming now p)) (\<lambda>p'.
           andThen (updateTransferProcess now Ev_preInProgress p') (\<lambda>_. ret True))
      else ret False)"

text \<open>A checker asks a managed process for its resources, which throws when it has none.\<close>

definition processInProgress :: "'pol tpm_env \<Rightarrow> int \<Rightarrow> transfer_process \<Rightarrow> (tpm, bool) op" where
  "processInProgress env now p =
     (if tpType p \<noteq> CONSUMER then ret False
      else
        (case (case getDestinationType (dataRequest p) of
                 None \<Rightarrow> None | Some t \<Rightarrow> map_of (statusCheckers env) t) of
           None \<Rightarrow>
             if managedResources (dataRequest p) then ret False
             else andThen (transitionToCompleted now p) (\<lambda>_. ret True)
         | Some isComplete \<Rightarrow>
             andThen
               (liftE (if managedResources (dataRequest p)
                       then (case provisionedResourceSet p of
                               None \<Rightarrow> Inl (NullPointerException ''getProvisionedResourceSet'')
                             | Some s \<Rightarrow> Inr (resources s))
                       else Inr []))
               (\<lambda>rs. if isComplete p rs
                     then andThen (transitionToCompleted now p) (\<lambda>_. ret True)
                     else andThen (tp_breakLease now p) (\<lambda>_. ret False))))"

definition processDeprovisioning :: "'pol tpm_env \<Rightarrow> int \<Rightarrow> transfer_process \<Rightarrow> (tpm, bool) op" where
  "processDeprovisioning env now p =
     andThen (notify Ev_preDeprovisioning p) (\<lambda>_.
       let policy = findPolicyForContract env (contractId (dataRequest p))
       in andThen (whenComplete (DeprovisionDone (entityId p)
            (deprovision (provisioners env) (getResourcesToDeprovision p) policy))) (\<lambda>_. ret True))"

definition processDeprovisioned :: "int \<Rightarrow> transfer_process \<Rightarrow> (tpm, bool) op" where
  "processDeprovisioned now p =
     andThen (liftE (transitionEnded now p)) (\<lambda>p'.
     andThen (notify Ev_preEnded p') (\<lambda>_.
     andThen (tp_update now p') (\<lambda>_.
     andThen (notify Ev_ended p') (\<lambda>_. ret True))))"

section \<open>Callbacks\<close>

definition tp_callback :: "'pol tpm_env \<Rightarrow> int \<Rightarrow> tpPending \<Rightarrow> (tpm, unit) op" where
  "tp_callback env now c =
     (case c of
        ProvisionDone ident (Inr responses) \<Rightarrow> handleProvisionResultById env now ident responses
      | ProvisionDone ident (Inl e) \<Rightarrow> transitionToErrorById now ident e ''Error during provisioning''
      | DeprovisionDone ident (Inr results) \<Rightarrow> handleDeprovisionResultById env now ident results
      | DeprovisionDone ident (Inl e) \<Rightarrow> transitionToErrorById now ident e ''Error during deprovisioning''
      | RequestSent p (Inr _) \<Rightarrow> sendConsumerRequestSuccess now p
      | RequestSent p (Inl e) \<Rightarrow> sendCustomerRequestFailure env now p e)"

section \<open>Commands\<close>

text \<open>\<open>modify\<close> of the two single-process handlers; \<open>None\<close>: not modified.\<close>

definition cancel_modify :: "int \<Rightarrow> transfer_process \<Rightarrow> java_exn + transfer_process option" where
  "cancel_modify now p =
     (if state p \<in> {code COMPLETED, code ERROR, code CANCELLED, code ENDED} then Inr None
      else case transitionCancelled now p of Inl e \<Rightarrow> Inl e | Inr p' \<Rightarrow> Inr (Some p'))"

definition deprovisionRequest_modify ::
  "int \<Rightarrow> transfer_process \<Rightarrow> java_exn + transfer_process option" where
  "deprovisionRequest_modify now p =
     (case transitionDeprovisioning now p of Inl e \<Rightarrow> Inl e | Inr p' \<Rightarrow> Inr (Some p'))"

definition singleTransferProcessCommand ::
  "int \<Rightarrow> (transfer_process \<Rightarrow> java_exn + transfer_process option) \<Rightarrow>
   (transfer_process \<Rightarrow> (tpm, unit) op) \<Rightarrow> string \<Rightarrow> (tpm, unit) op" where
  "singleTransferProcessCommand now modify' postAction ident =
     andThen (tp_find now ident) (\<lambda>found.
       case found of
         None \<Rightarrow> throw (EdcException (''Could not find TransferProcess with ID ['' @ ident @ '']''))
       | Some p \<Rightarrow>
           andThen (liftE (modify' p)) (\<lambda>modified.
             case modified of
               None \<Rightarrow> ret ()
             | Some p' \<Rightarrow> andThen (tp_update now p') (\<lambda>_. postAction p')))"

definition tp_handle :: "'pol tpm_env \<Rightarrow> int \<Rightarrow> tpCommand \<Rightarrow> (tpm, unit) op" where
  "tp_handle env now c =
     (case c of
        CancelTransferCommand ident \<Rightarrow>
          singleTransferProcessCommand now (cancel_modify now) (notify Ev_cancelled) ident
      | DeprovisionRequest ident \<Rightarrow>
          singleTransferProcessCommand now (deprovisionRequest_modify now) (\<lambda>_. ret ()) ident
      | AddProvisionedResourceCommand ident response \<Rightarrow>
          handleProvisionResultById env now ident [StatusSuccess response]
      | DeprovisionCompleteCommand ident resource \<Rightarrow>
          handleDeprovisionResultById env now ident [StatusSuccess resource])"

definition enqueueCommand :: "tpCommand command \<Rightarrow> (tpm, unit) op" where
  "enqueueCommand c s =
     (case enqueue c (commandQueue s) of
        Inl e \<Rightarrow> (Inl e, s)
      | Inr q \<Rightarrow> (Inr (), s\<lparr>commandQueue := q\<rparr>))"

definition processCommand :: "'pol tpm_env \<Rightarrow> int \<Rightarrow> tpCommand command \<Rightarrow> (tpm, bool) op" where
  "processCommand env now c s =
     (case processCommandQueue (\<lambda>cmd. Some (tp_handle env now cmd)) c (commandQueue s, s) of
        (r, (q, s')) \<Rightarrow> (r, s'\<lparr>commandQueue := q\<rparr>))"

definition dequeueCommands :: "int \<Rightarrow> (tpm, tpCommand command list) op" where
  "dequeueCommands n s =
     (case dequeueN n (commandQueue s) of
        Inl e \<Rightarrow> (Inl e, s)
      | Inr (cs, q) \<Rightarrow> (Inr cs, s\<lparr>commandQueue := q\<rparr>))"

section \<open>The processors of the loop\<close>

definition process_in_state :: "'pol tpm_env \<Rightarrow> int \<Rightarrow> transferProcessStates \<Rightarrow> transfer_process \<Rightarrow> (tpm, bool) op" where
  "process_in_state env now st p =
     (case st of
        INITIAL \<Rightarrow> processInitial env now p
      | PROVISIONING \<Rightarrow> processProvisioning env now p
      | PROVISIONED \<Rightarrow> processProvisioned env now p
      | REQUESTING \<Rightarrow> tp_processRequesting env now p
      | REQUESTED \<Rightarrow> processRequested now p
      | IN_PROGRESS \<Rightarrow> processInProgress env now p
      | DEPROVISIONING \<Rightarrow> processDeprovisioning env now p
      | DEPROVISIONED \<Rightarrow> processDeprovisioned now p
      | _ \<Rightarrow> ret False)"

definition processed_states :: "transferProcessStates list" where
  "processed_states = [INITIAL, PROVISIONING, PROVISIONED, REQUESTING, REQUESTED, IN_PROGRESS,
     DEPROVISIONING, DEPROVISIONED]"

definition processTransfersInState ::
  "'pol tpm_env \<Rightarrow> int \<Rightarrow> int \<Rightarrow> transferProcessStates \<Rightarrow> (tpm, int) op" where
  "processTransfersInState env now batchSize st =
     stateProcessor (tp_nextForState now (code st) batchSize) (process_in_state env now st)"

definition onCommands :: "'pol tpm_env \<Rightarrow> int \<Rightarrow> (tpm, int) op" where
  "onCommands env now = stateProcessor (dequeueCommands 5) (processCommand env now)"

definition transfer_processors :: "'pol tpm_env \<Rightarrow> int \<Rightarrow> int \<Rightarrow> (tpm, int) op list" where
  "transfer_processors env now batchSize =
     map (processTransfersInState env now batchSize) processed_states @ [onCommands env now]"

section \<open>The manager as a transition system\<close>

text \<open>
  A state of the running manager: its data, and the processes its thread has fetched and not
  handled yet, with the state they were fetched for. Callbacks and calls of clients run on other
  threads, between any two handlers. Every step may see another environment of the set \<open>E\<close>.
\<close>

inductive tpm_step ::
  "'pol tpm_env set \<Rightarrow> tpm \<times> (transferProcessStates \<times> transfer_process) list \<Rightarrow>
   tpm \<times> (transferProcessStates \<times> transfer_process) list \<Rightarrow> bool"
  for E :: "'pol tpm_env set" where
  step_fetch:
    "st \<in> set processed_states \<Longrightarrow> tp_nextForState now (code st) n s = (Inr ps, s') \<Longrightarrow>
     tpm_step E (s, []) (s', map (Pair st) ps)"
| step_handle:
    "env \<in> E \<Longrightarrow> process_in_state env now st p s = (Inr b, s') \<Longrightarrow>
     tpm_step E (s, (st, p) # w) (s', w)"
| step_handle_throws:
    "env \<in> E \<Longrightarrow> process_in_state env now st p s = (Inl e, s') \<Longrightarrow>
     tpm_step E (s, (st, p) # w) (s', [])"
| step_callback:
    "env \<in> E \<Longrightarrow> pending s = xs @ c # ys \<Longrightarrow>
     tpm_step E (s, w) (snd (tp_callback env now c (s\<lparr>pending := xs @ ys\<rparr>)), w)"
| step_command:
    "env \<in> E \<Longrightarrow> dequeueCommands 1 s = (Inr [c], s') \<Longrightarrow>
     tpm_step E (s, w) (snd (processCommand env now c s'), w)"
| step_enqueue: "tpm_step E (s, w) (snd (enqueueCommand c s), w)"
| step_initiate:
    "env \<in> E \<Longrightarrow> uuid \<notin> fst ` set (tpStore s) \<Longrightarrow>
     tpm_step E (s, w) (snd (initiateRequest env now uuid ty r s), w)"

inductive_cases tpm_stepE: "tpm_step E x y"

end
