(* ===== verification/Transfer_Safety.thy ===== *)
theory Transfer_Safety
  imports Transfer_Manager
begin

text \<open>
  The invariant of the transfer manager: whatever the interleaving of handlers, callbacks,
  commands and client calls, every stored process is one that its own methods can produce.
\<close>

section \<open>Legal processes\<close>

definition tp_legal :: "transfer_process \<Rightarrow> bool" where
  "tp_legal p \<longleftrightarrow> (\<exists>p0. state p0 = code UNSAVED \<and> tp_step\<^sup>*\<^sup>* p0 p)"

lemma tp_legal_new: "state p = code UNSAVED \<Longrightarrow> tp_legal p"
  unfolding tp_legal_def by blast

lemma tp_legal_step: "tp_legal p \<Longrightarrow> tp_step p p' \<Longrightarrow> tp_legal p'"
  unfolding tp_legal_def by (meson rtranclp.rtrancl_into_rtrancl)

lemma tp_legal_state:
  assumes "tp_legal p"
  shows "state p \<in> range code"
    and "tpType p = PROVIDER \<Longrightarrow> state p \<noteq> code REQUESTING \<and> state p \<noteq> code REQUESTED"
proof -
  obtain p0 where p0: "state p0 = code UNSAVED" "tp_step\<^sup>*\<^sup>* p0 p"
    using assms by (auto simp: tp_legal_def)
  have r: "state p0 \<in> range code" unfolding p0(1) by (rule code_range)
  show "state p \<in> range code" using tp_run_valid [OF p0(2) r] by simp
  have ty: "tpType p = tpType p0" using tp_run_valid [OF p0(2) r] by simp
  show "state p \<noteq> code REQUESTING \<and> state p \<noteq> code REQUESTED" if "tpType p = PROVIDER"
    using p0(2,1) ty that
  proof (induction arbitrary: rule: rtranclp_induct)
    case (step q q')
    have q: "state q \<in> range code" "tpType q = tpType p0"
      using tp_run_valid [OF step.hyps(1) r] by auto
    then have "tpType q' = tpType p0" using tp_step_follows [OF step.hyps(2) q(1)]
      by (simp add: tp_follows_def)
    with step q have "state q \<noteq> code REQUESTING" "state q \<noteq> code REQUESTED" "tpType q = PROVIDER"
      by auto
    with tp_step_follows [OF step.hyps(2) q(1)] show ?case
      by (auto simp: tp_follows_def list_ex_iff provider_edges simp del: code.simps)
  qed simp
qed

lemmas tp_legal_ops = tp_step.intros [THEN tp_legal_step [rotated]]

declare keeps_andThen [rule del]
declare keeps_seq [intro!]

section \<open>The invariant\<close>

definition tp_sent_ok :: "tpPending \<Rightarrow> bool" where
  "tp_sent_ok c \<longleftrightarrow> (case c of RequestSent p _ \<Rightarrow> tp_legal p | _ \<Rightarrow> True)"

lemma tp_sent_ok_simps [simp]:
  "tp_sent_ok (ProvisionDone k r)" "tp_sent_ok (DeprovisionDone k d)"
  "tp_sent_ok (RequestSent p x) = tp_legal p"
  by (simp_all add: tp_sent_ok_def)

definition tpm_ok :: "tpm \<Rightarrow> bool" where
  "tpm_ok s \<longleftrightarrow> store_ok (tpStore s) \<and> (\<forall>x \<in> set (tpStore s). tp_legal (item (snd x))) \<and>
     (\<forall>c \<in> set (pending s). tp_sent_ok c) \<and> within_bound (commandQueue s)"

lemma tpm_ok_other [simp]:
  "tpm_ok (s\<lparr>vault := v\<rparr>) = tpm_ok s" "tpm_ok (s\<lparr>events := es\<rparr>) = tpm_ok s"
  by (simp_all add: tpm_ok_def)

lemma tpm_ok_upsert:
  "tpm_ok s \<Longrightarrow> tp_legal p \<Longrightarrow> tpm_ok (s\<lparr>tpStore := upsert (copy_process now) p (tpStore s)\<rparr>)"
  using tp_store.upsert_ok [of "tpStore s" now p]
  by (auto simp: tpm_ok_def upsert_def store_ok_def set_put new_item_def intro: tp_legal_ops)

lemma tpm_ok_find:
  "tpm_ok s \<Longrightarrow> find_entity (copy_process now) k (tpStore s) = Some p \<Longrightarrow> tp_legal p"
  by (fastforce simp: tpm_ok_def find_entity_def split: option.splits dest!: map_of_SomeD
      intro: tp_legal_ops(20))

lemma keeps_notify [intro, simp]: "keeps tpm_ok (notify ev p)"
  by (simp add: notify_def keeps_modify)

lemma keeps_tp_update [intro!]: "tp_legal p \<Longrightarrow> keeps tpm_ok (tp_update now p)"
  unfolding tp_update_def by (intro keeps_modify tpm_ok_upsert)

lemma keeps_updateTransferProcess [intro!]:
  "tp_legal p \<Longrightarrow> keeps tpm_ok (updateTransferProcess now ev p)"
  unfolding updateTransferProcess_def by auto

lemma keeps_find [intro!]:
  assumes "keeps tpm_ok (f None)" and "\<And>p. tp_legal p \<Longrightarrow> keeps tpm_ok (f (Some p))"
  shows "keeps tpm_ok (andThen (tp_find now k) f)"
  unfolding tp_find_def
proof (rule keeps_gets_andThen)
  fix a assume "\<exists>s. tpm_ok s \<and> find_entity (copy_process now) k (tpStore s) = a"
  with assms show "keeps tpm_ok (f a)" by (cases a) (auto dest: tpm_ok_find)
qed

lemma keeps_secrets [intro, simp]:
  "keeps tpm_ok (storeSecret env k v)" "keeps tpm_ok (deleteSecret env k)"
  by (auto simp: storeSecret_def deleteSecret_def intro!: keeps_modify split: option.splits)

lemma keeps_whenComplete [intro!]: "tp_sent_ok c \<Longrightarrow> keeps tpm_ok (whenComplete c)"
  unfolding whenComplete_def by (intro keeps_modify) (auto simp: tpm_ok_def)

lemma keeps_transitionToErrorAnd [intro!]:
  assumes "tp_legal p" and "\<And>p'. tp_legal p' \<Longrightarrow> keeps tpm_ok (f p')"
  shows "keeps tpm_ok (andThen (transitionToError now p m) f)"
  unfolding transitionToError_def Let_def andThen_assoc
proof -
  let ?p = "transitionError now (Some m) p"
  have legal: "tp_legal ?p" using assms(1) by (rule tp_legal_ops)
  have "keeps tpm_ok (andThen (ret ?p) f)"
    using assms(2) [OF legal] by (simp add: keeps_def)
  then show "keeps tpm_ok (andThen (updateTransferProcess now Ev_preError ?p)
      (\<lambda>_. andThen (notify Ev_failed ?p) (\<lambda>_. andThen (ret ?p) f)))"
    using legal by blast
qed

lemma keeps_transitionToErrorById [intro!]: "keeps tpm_ok (transitionToErrorById now k e m)"
  unfolding transitionToErrorById_def by (rule keeps_find) auto

lemma keeps_transitionToCompleted [intro!]:
  "tp_legal p \<Longrightarrow> keeps tpm_ok (transitionToCompleted now p)"
  unfolding transitionToCompleted_def
  by (rule keeps_liftE_andThen) (auto dest: tp_legal_ops)

section \<open>Handlers\<close>

lemma handleProvisionDataAddressResource_legal:
  "tp_legal p \<Longrightarrow> tp_legal (handleProvisionDataAddressResource k p)"
  by (cases k) (auto simp: handleProvisionDataAddressResource_def intro: tp_legal_ops)

lemma ensures_after:
  "keeps I m \<Longrightarrow> (\<And>a. ensures I (f a) Q) \<Longrightarrow> ensures I (andThen m f) Q"
  by (rule ensures_andThen [where Q = "\<lambda>_. True"]) (auto simp: ensures_def keeps_def)

lemma ensures_provisionResponse:
  assumes "tp_legal p"
  shows "ensures tpm_ok (handleProvisionResponse env r p) (\<lambda>x. tp_legal (fst x))"
proof (cases r)
  case (StatusSuccess x)
  have k: "\<And>q k. tp_legal (addProvisionedResource q (handleProvisionDataAddressResource k p))"
    using assms by (intro tp_legal_ops(15) handleProvisionDataAddressResource_legal)
  show ?thesis
  proof (cases x)
    case (ProvisionResponse q t)
    then show ?thesis using StatusSuccess k
      by (auto simp: handleProvisionResponse_def Let_def split: option.splits intro!: ensures_after)
  qed (use assms StatusSuccess in \<open>auto simp: handleProvisionResponse_def\<close>)
qed (use assms in \<open>auto simp: handleProvisionResponse_def\<close>)

lemma ensures_provisionResponses:
  "tp_legal (fst pe) \<Longrightarrow> ensures tpm_ok (handleProvisionResponses env rs pe) (\<lambda>x. tp_legal (fst x))"
proof (induction rs arbitrary: pe)
  case (Cons r rs)
  show ?case unfolding handleProvisionResponses.simps
    by (rule ensures_andThen [OF ensures_provisionResponse [OF Cons.prems]])
       (auto split: prod.splits intro: Cons.IH)
qed auto

lemma ensures_deprovisionResponse:
  assumes "tp_legal p"
  shows "ensures tpm_ok (handleDeprovisionResponse env r p) (\<lambda>x. tp_legal (fst x))"
proof -
  have "tp_legal (addDeprovisionedResource d p)" for d using assms by (rule tp_legal_ops(17))
  moreover have "keeps tpm_ok (removeDeprovisionedSecrets env k)" for k
    by (auto simp: removeDeprovisionedSecrets_def)
  ultimately show ?thesis using assms
    by (cases r) (auto simp: handleDeprovisionResponse_def split: option.splits intro!: ensures_after)
qed

lemma ensures_deprovisionResponses:
  "tp_legal (fst pe) \<Longrightarrow> ensures tpm_ok (handleDeprovisionResponses env rs pe) (\<lambda>x. tp_legal (fst x))"
proof (induction rs arbitrary: pe)
  case (Cons r rs)
  show ?case unfolding handleDeprovisionResponses.simps
    by (rule ensures_andThen [OF ensures_deprovisionResponse [OF Cons.prems]])
       (auto split: prod.splits intro: Cons.IH)
qed auto

text \<open>A transition, if it is allowed, followed by what the manager does with the process.\<close>

lemma keeps_transition:
  assumes "\<And>p'. r = Inr p' \<Longrightarrow> tp_step p p'" and "tp_legal p"
    and "\<And>p'. tp_legal p' \<Longrightarrow> keeps tpm_ok (g p')"
  shows "keeps tpm_ok (andThen (liftE r) g)"
  using assms by (intro keeps_liftE_andThen) (auto intro: tp_legal_step)

lemmas keeps_transitions [intro!] =
  keeps_transition [where r = "transitionInitial now p", OF tp_step.intros(1)]
  keeps_transition [where r = "transitionProvisioning now m p", OF tp_step.intros(2)]
  keeps_transition [where r = "transitionProvisioned now p", OF tp_step.intros(3)]
  keeps_transition [where r = "transitionRequesting now p", OF tp_step.intros(4)]
  keeps_transition [where r = "transitionRequested now p", OF tp_step.intros(5)]
  keeps_transition [where r = "transitionInProgress now p", OF tp_step.intros(6)]
  keeps_transition [where r = "transitionStreaming now p", OF tp_step.intros(7)]
  keeps_transition [where r = "transitionInProgressOrStreaming now p", OF tp_step.intros(8)]
  keeps_transition [where r = "transitionCompleted now p", OF tp_step.intros(9)]
  keeps_transition [where r = "transitionDeprovisioning now p", OF tp_step.intros(10)]
  keeps_transition [where r = "transitionDeprovisioned now p", OF tp_step.intros(11)]
  keeps_transition [where r = "transitionCancelled now p", OF tp_step.intros(12)]
  keeps_transition [where r = "transitionEnded now p", OF tp_step.intros(13)]
  for now m p

lemma keeps_handleProvisionResult [intro!]:
  assumes "tp_legal p"
  shows "keeps tpm_ok (handleProvisionResult env now p rs)"
  unfolding handleProvisionResult_def
  by (rule keeps_ensures_andThen [OF ensures_provisionResponses])
     (use assms in \<open>auto split: prod.splits\<close>)

lemma keeps_handleDeprovisionResult [intro!]:
  assumes "tp_legal p"
  shows "keeps tpm_ok (handleDeprovisionResult env now p rs)"
  unfolding handleDeprovisionResult_def
  by (rule keeps_ensures_andThen [OF ensures_deprovisionResponses])
     (use assms in \<open>auto split: prod.splits\<close>)

lemma keeps_results_by_id [intro!]:
  "keeps tpm_ok (handleProvisionResultById env now k rs)"
  "keeps tpm_ok (handleDeprovisionResultById env now k ds)"
  unfolding handleProvisionResultById_def handleDeprovisionResultById_def
  by (rule keeps_find; auto)+

lemma keeps_processInitial: "tp_legal p \<Longrightarrow> keeps tpm_ok (processInitial env now p)"
  unfolding processInitial_def Let_def
  by (auto split: result.splits if_splits intro: tp_legal_ops(14,16))

lemma keeps_processProvisioning: "keeps tpm_ok (processProvisioning env now p)"
  unfolding processProvisioning_def Let_def by (intro keeps_seq keeps_whenComplete) simp_all

lemma keeps_processProviderRequest [intro!]:
  assumes "tp_legal p"
  shows "keeps tpm_ok (processProviderRequest env now p)"
  unfolding processProviderRequest_def Let_def
proof (rule keeps_liftE_andThen)
  fix r :: "unit statusResult"
  show "keeps tpm_ok (case r of
      StatusSuccess _ \<Rightarrow>
        andThen (liftE (transitionInProgressOrStreaming now p)) (updateTransferProcess now Ev_preInProgress)
    | StatusFailure ERROR_RETRY _ \<Rightarrow>
        andThen (liftE (transitionProvisioned now p)) (updateTransferProcess now Ev_preProvisioned)
    | StatusFailure FATAL_ERROR ms \<Rightarrow>
        andThen (transitionToError now p (''Fatal error processing transfer request: '' @
          entityId p @ ''. Error details: '' @ join '', '' ms)) (\<lambda>_. ret ()))"
    using assms
    by (auto split: statusResult.splits responseStatus.splits)
qed

lemma keeps_processProvisioned: "tp_legal p \<Longrightarrow> keeps tpm_ok (processProvisioned env now p)"
  unfolding processProvisioned_def by auto

lemma keeps_tp_processRequesting: "tp_legal p \<Longrightarrow> keeps tpm_ok (tp_processRequesting env now p)"
  unfolding tp_processRequesting_def processConsumerRequest_def sendConsumerRequest_def tp_breakLease_def
  by auto

lemma keeps_processRequested: "tp_legal p \<Longrightarrow> keeps tpm_ok (processRequested now p)"
  unfolding processRequested_def by auto

lemma keeps_processInProgress: "tp_legal p \<Longrightarrow> keeps tpm_ok (processInProgress env now p)"
  unfolding processInProgress_def tp_breakLease_def
  by (auto split: option.splits intro!: keeps_liftE_andThen)

lemma keeps_processDeprovisioning: "keeps tpm_ok (processDeprovisioning env now p)"
  unfolding processDeprovisioning_def Let_def
  by (intro keeps_seq keeps_whenComplete keeps_notify) simp_all

lemma keeps_processDeprovisioned: "tp_legal p \<Longrightarrow> keeps tpm_ok (processDeprovisioned now p)"
  unfolding processDeprovisioned_def by auto

lemma keeps_process_in_state: "tp_legal p \<Longrightarrow> keeps tpm_ok (process_in_state env now st p)"
  by (cases st) (simp_all add: process_in_state_def keeps_processInitial keeps_processProvisioning
      keeps_processProvisioned keeps_tp_processRequesting keeps_processRequested
      keeps_processInProgress keeps_processDeprovisioning keeps_processDeprovisioned)

section \<open>Callbacks, commands and client calls\<close>

lemma keeps_tp_callback: "tp_sent_ok c \<Longrightarrow> keeps tpm_ok (tp_callback env now c)"
  unfolding tp_callback_def sendConsumerRequestSuccess_def sendCustomerRequestFailure_def
  by (auto split: tpPending.splits sum.splits)

lemma modify_legal:
  "tp_legal p \<Longrightarrow> cancel_modify now p = Inr (Some p') \<Longrightarrow> tp_legal p'"
  "tp_legal p \<Longrightarrow> deprovisionRequest_modify now p = Inr (Some p') \<Longrightarrow> tp_legal p'"
  by (auto simp: cancel_modify_def deprovisionRequest_modify_def split: if_splits sum.splits
      dest: tp_legal_ops(10) tp_legal_ops(12))

lemma keeps_singleTransferProcessCommand:
  assumes "\<And>p p'. tp_legal p \<Longrightarrow> m p = Inr (Some p') \<Longrightarrow> tp_legal p'"
    and "\<And>p. keeps tpm_ok (post p)"
  shows "keeps tpm_ok (singleTransferProcessCommand now m post k)"
  unfolding singleTransferProcessCommand_def
  using assms by (auto split: option.splits intro!: keeps_liftE_andThen)

lemma keeps_tp_handle: "keeps tpm_ok (tp_handle env now c)"
  unfolding tp_handle_def
  by (auto split: tpCommand.splits intro!: keeps_singleTransferProcessCommand intro: modify_legal)

lemma tpm_ok_queue: "tpm_ok s \<Longrightarrow> within_bound q \<Longrightarrow> tpm_ok (s\<lparr>commandQueue := q\<rparr>)"
  by (simp add: tpm_ok_def)

lemma keeps_processCommand: "keeps tpm_ok (processCommand env now c)"
proof (rule keepsI)
  fix s assume ok: "tpm_ok s"
  obtain r s' where run: "runCommand (\<lambda>cmd. Some (tp_handle env now cmd)) c s = (r, s')"
    by (cases "runCommand (\<lambda>cmd. Some (tp_handle env now cmd)) c s")
  have "tpm_ok s'" using runCommand_state [of "\<lambda>cmd. Some (tp_handle env now cmd)" c s] run keepsD [OF keeps_tp_handle ok] by simp
  moreover have "within_bound (commandQueue s)" using ok by (simp add: tpm_ok_def)
  ultimately show "tpm_ok (snd (processCommand env now c s))"
    by (auto simp: processCommand_def processCommandQueue_def run intro!: tpm_ok_queue
        dest: enqueue_within_bound split: sum.splits prod.splits)
qed

lemma keeps_queue_ops:
  "keeps tpm_ok (enqueueCommand c)" "keeps tpm_ok (dequeueCommands n)"
  by (auto simp: keeps_def enqueueCommand_def dequeueCommands_def tpm_ok_def
      dest: enqueue_within_bound dequeueN_within_bound split: sum.splits)

lemma keeps_initiateRequest: "keeps tpm_ok (initiateRequest env now uuid ty r)"
proof -
  have "tp_legal p" if "build_process now (Some uuid) (new_process ty r now tc) = Inr p" for p tc
    using that
    by (intro tp_legal_new) (auto simp: build_process_def entity_build_def new_process_def
        associate_def Let_def split: if_splits)
  moreover have "tp_legal p'"
    if "tp_legal p" "(if state p = code UNSAVED then transitionInitial now p else Inr p) = Inr p'" for p p'
    using that by (auto split: if_splits dest: tp_legal_ops(1))
  ultimately have legal: "tp_legal p'"
    if "build_process now (Some uuid) (new_process ty r now tc) = Inr p"
      "(if state p = code UNSAVED then transitionInitial now p else Inr p) = Inr p'" for p p' tc
    using that by blast
  show ?thesis
    unfolding initiateRequest_def processIdForTransferId_def
    by (auto split: option.splits intro!: keeps_gets_andThen keeps_liftE_andThen legal simp del: code.simps)
qed

lemma tp_nextForState_ok:
  assumes "tpm_ok s" "tp_nextForState now st n s = (Inr ps, s')"
  shows "tpm_ok s' \<and> list_all tp_legal ps"
proof -
  obtain m where n: "nextForState (copy_process now) st n (tpStore s) = (Inr ps, m)"
    and s': "s' = s\<lparr>tpStore := m\<rparr>"
    using assms(2) by (auto simp: tp_nextForState_def split: prod.splits)
  have sok: "store_ok (tpStore s)" using assms(1) by (simp add: tpm_ok_def)
  have m: "m = markLeased (map fst (nextItems st (nat n) (tpStore s))) (tpStore s)"
    using n by (auto simp: nextForState_def Let_def split: if_splits)
  have "tp_legal (item (snd x))" if "x \<in> set m" for x
    using that assms(1) by (auto simp: m markLeased_def tpm_ok_def split: if_splits)
  moreover have "tp_legal e" if e: "e \<in> set ps" for e
  proof -
    obtain i where i: "map_of (tpStore s) (entityId e) = Some i" "e = copy_process now (item i)"
      using tp_store.nextForState_mem [OF sok n e] by blast
    then show ?thesis using assms(1) tp_legal_ops(20)
      by (fastforce simp: tpm_ok_def dest!: map_of_SomeD)
  qed
  ultimately show ?thesis
    using assms(1) sok by (auto simp: s' m tpm_ok_def list_all_iff)
qed

section \<open>Every interleaving\<close>

definition tpm_run_ok :: "tpm \<times> (transferProcessStates \<times> transfer_process) list \<Rightarrow> bool" where
  "tpm_run_ok x \<longleftrightarrow> tpm_ok (fst x) \<and> list_all (\<lambda>(st, p). tp_legal p) (snd x)"

lemma tpm_step_ok: "tpm_step E x y \<Longrightarrow> tpm_run_ok x \<Longrightarrow> tpm_run_ok y"
proof (induction rule: tpm_step.induct)
  case (step_fetch st now n s ps s')
  then show ?case
    using tp_nextForState_ok [of s now "code st" n ps s']
    by (auto simp: tpm_run_ok_def list_all_iff)
next
  case (step_handle env now st p s b s' w)
  then show ?case using keepsD [OF keeps_process_in_state, of p s env now st]
    by (auto simp: tpm_run_ok_def)
next
  case (step_handle_throws env now st p s e s' w)
  then show ?case using keepsD [OF keeps_process_in_state, of p s env now st]
    by (auto simp: tpm_run_ok_def)
next
  case (step_callback env s xs c ys w now)
  then have "tpm_ok (s\<lparr>pending := xs @ ys\<rparr>)" "tp_sent_ok c" by (auto simp: tpm_run_ok_def tpm_ok_def)
  then show ?case using step_callback.prems keepsD [OF keeps_tp_callback]
    by (auto simp: tpm_run_ok_def)
next
  case (step_command env s c s' w now)
  then have "tpm_ok s'" using keepsD [OF keeps_queue_ops(2), of s 1] by (auto simp: tpm_run_ok_def)
  then show ?case using step_command.prems keepsD [OF keeps_processCommand]
    by (auto simp: tpm_run_ok_def)
next
  case (step_enqueue s w c)
  then show ?case using keepsD [OF keeps_queue_ops(1)] by (auto simp: tpm_run_ok_def)
next
  case (step_initiate env uuid s w now ty r)
  then show ?case using keepsD [OF keeps_initiateRequest] by (auto simp: tpm_run_ok_def)
qed

lemma tpm_run_ok_star: "(tpm_step E)\<^sup>*\<^sup>* x y \<Longrightarrow> tpm_run_ok x \<Longrightarrow> tpm_run_ok y"
  by (induction rule: rtranclp_induct) (auto intro: tpm_step_ok)

definition tpm_start :: "nat \<Rightarrow> tpm" where
  "tpm_start n = \<lparr>tpStore = [], vault = [], events = [], pending = [],
     commandQueue = \<lparr>bound = n, queue = []\<rparr>\<rparr>"

lemma tpm_start_ok: "tpm_run_ok (tpm_start n, [])"
  by (simp add: tpm_run_ok_def tpm_ok_def tpm_start_def within_bound_def)

text \<open>
  (C5) From an empty manager, under every interleaving of the loop's handlers with callbacks,
  commands and client calls, and whatever extensions answer: each process is stored once, under
  its own identifier; its state is a declared state; a provider's process is never
  \<open>REQUESTING\<close> or \<open>REQUESTED\<close>; and the command queue stays within its bound.
\<close>

theorem transfer_manager_safe:
  assumes "(tpm_step E)\<^sup>*\<^sup>* (tpm_start n, []) (s, w)"
  shows "keys_distinct (tpStore s) \<and>
    list_all (\<lambda>(k, i). entityId (item i) = k \<and> from_code (state (item i)) \<noteq> None \<and>
      \<not> (tpType (item i) = PROVIDER \<and> state (item i) \<in> {code REQUESTING, code REQUESTED}))
      (tpStore s) \<and>
    within_bound (commandQueue s)"
proof -
  have ok: "tpm_ok s" using tpm_run_ok_star [OF assms tpm_start_ok] by (simp add: tpm_run_ok_def)
  have "from_code (state p) \<noteq> None" if "tp_legal p" for p
    using tp_legal_state(1) [OF that] by auto
  then show ?thesis using ok tp_legal_state(2)
    by (fastforce simp: tpm_ok_def store_ok_def list_all_iff split: prod.splits)
qed

end
