(* ===== verification/Transfer_Properties.thy ===== *)
theory Transfer_Properties
  imports Transfer_Safety
begin

text \<open>
  What the transfer manager does: creating a process is idempotent, sends are retried up to the
  limit, an unmanaged consumer transfer completes, and three places where the manager does not
  do what its documentation says.
\<close>

definition stored_state :: "tpm \<Rightarrow> string \<Rightarrow> int option" where
  "stored_state s k = map_option (\<lambda>i. state (item i)) (map_of (tpStore s) k)"

lemma stored_state_simps [simp]:
  "stored_state (s\<lparr>events := es\<rparr>) k = stored_state s k"
  "stored_state (s\<lparr>pending := ps\<rparr>) k = stored_state s k"
  "stored_state (s\<lparr>vault := v\<rparr>) k = stored_state s k"
  "stored_state (s\<lparr>tpStore := upsert (copy_process now) p m\<rparr>) k =
     (if k = entityId p then Some (state p)
      else map_option (\<lambda>i. state (item i)) (map_of m k))"
  by (simp_all add: stored_state_def upsert_def new_item_def)

lemma copy_process_fields [simp]:
  "requestId (dataRequest (copy_process now p)) = requestId (dataRequest p)"
  "managedResources (dataRequest (copy_process now p)) = managedResources (dataRequest p)"
  "errorDetail (copy_process now p) = errorDetail p"
  "requestTransferType (dataRequest (copy_process now p)) = requestTransferType (dataRequest p)"
  by (simp_all add: copy_process_def copy_entity_def associate_def)

lemmas tp_run_defs = tp_update_def notify_def tp_find_def updateTransferProcess_def

section \<open>Creating a process\<close>

lemma find_put:
  assumes "\<And>x. x \<in> set m \<Longrightarrow> \<not> P (item (snd x))" and "P v"
  shows "List.find P (findAll_entities (put k (new_item v) m)) = Some v"
  using assms
proof (induction m)
  case (Cons x m)
  obtain k' i where x: "x = (k', i)" by (cases x)
  have "\<not> P (item i)" using Cons.prems(1) [of x] x by simp
  with Cons x show ?case by (simp add: findAll_entities_def new_item_def)
qed (simp add: findAll_entities_def new_item_def)

definition new_initial :: "'pol tpm_env \<Rightarrow> int \<Rightarrow> string \<Rightarrow> tpType \<Rightarrow> dataRequest \<Rightarrow> transfer_process" where
  "new_initial env now uuid ty r =
     transitionTo now 100 (associate (copy_entity now ((new_process ty r now (currentTraceContext env))\<lparr>entityId := uuid\<rparr>)))"

lemma new_initial_simps [simp]:
  "entityId (new_initial env now uuid ty r) = uuid"
  "state (new_initial env now uuid ty r) = 100"
  "dataRequest (new_initial env now uuid ty r) = r\<lparr>requestProcessId := Some uuid\<rparr>"
  "tpType (new_initial env now uuid ty r) = ty"
  "stateTimestamp (new_initial env now uuid ty r) = now"
  "provisionedResourceSet (new_initial env now uuid ty r) = None"
  by (simp_all add: new_initial_def associate_def copy_entity_def new_process_def)

lemma build_new_process:
  "build_process now (Some uuid) (new_process ty r now tc) =
     Inr (associate (copy_entity now ((new_process ty r now tc)\<lparr>entityId := uuid\<rparr>)))"
  by (simp add: build_process_def entity_build_def copy_entity_def associate_def new_process_def)

lemma initiateRequest_run:
  "initiateRequest env now uuid ty r s =
     (case List.find (\<lambda>p. requestId r = requestId (dataRequest p)) (findAll_entities (tpStore s)) of
        Some p \<Rightarrow> (Inr (StatusSuccess (entityId p)), s)
      | None \<Rightarrow>
          let p = new_initial env now uuid ty r
          in (Inr (StatusSuccess uuid),
              s\<lparr>tpStore := upsert (copy_process now) p (tpStore s),
                events := events s @ [(Ev_preCreated, uuid, 100, stored_state s uuid),
                                      (Ev_initiated, uuid, 100, Some 100)]\<rparr>))"
proof -
  let ?p = "associate (copy_entity now ((new_process ty r now (currentTraceContext env))\<lparr>entityId := uuid\<rparr>))"
  have "state ?p = 0" by (simp add: associate_def copy_entity_def new_process_def)
  then have "transitionInitial now ?p = Inr (new_initial env now uuid ty r)"
    by (simp add: transitionInitial_def transition_def new_initial_def)
  with \<open>state ?p = 0\<close> show ?thesis
    by (auto simp: initiateRequest_def processIdForTransferId_def build_new_process tp_run_defs
        stored_state_def upsert_def new_item_def Let_def split: option.splits)
qed

text \<open>
  Initiating a transfer is idempotent: it always succeeds, and a second request with the
  same request identifier, whatever else it says and whichever side it is for, answers with the
  identifier of the first and changes nothing.
\<close>

theorem initiateRequest_idempotent:
  "\<exists>k s'. initiateRequest env now uuid ty r s = (Inr (StatusSuccess k), s') \<and>
     initiateRequest env' now' uuid' ty' (r'\<lparr>requestId := requestId r\<rparr>) s' =
       (Inr (StatusSuccess k), s')"
proof (cases "List.find (\<lambda>p. requestId r = requestId (dataRequest p)) (findAll_entities (tpStore s))")
  case (Some p)
  then show ?thesis by (simp add: initiateRequest_run)
next
  case None
  let ?p = "copy_process now (new_initial env now uuid ty r)"
  have "List.find (\<lambda>p. requestId r = requestId (dataRequest p))
      (findAll_entities (upsert (copy_process now) (new_initial env now uuid ty r) (tpStore s))) = Some ?p"
    unfolding upsert_def
  proof (rule find_put)
    fix x assume "x \<in> set (tpStore s)"
    then have "item (snd x) \<in> set (findAll_entities (tpStore s))"
      by (force simp: findAll_entities_def)
    with find_NoneD [OF None] show "requestId r \<noteq> requestId (dataRequest (item (snd x)))" by blast
  qed simp
  with None show ?thesis by (simp add: initiateRequest_run Let_def)
qed

section \<open>Sending and retrying\<close>

lemma stored_state_upsert [simp]:
  "map_of (upsert (copy_process now) p m) k =
     (if k = entityId p then Some (new_item (copy_process now p)) else map_of m k)"
  by (simp add: upsert_def)

text \<open>A send of the stored process \<open>k\<close> fails \<open>n\<close> times in a row, each attempt on the process
  as it is stored then.\<close>

primrec failing_sends ::
  "'pol tpm_env \<Rightarrow> int \<Rightarrow> java_exn \<Rightarrow> string \<Rightarrow> nat \<Rightarrow> tpm \<Rightarrow> tpm" where
  "failing_sends env now e k 0 s = s"
| "failing_sends env now e k (Suc n) s =
     (let s' = failing_sends env now e k n s
      in case find_entity (copy_process now) k (tpStore s') of
           None \<Rightarrow> s'
         | Some p \<Rightarrow> snd (tp_callback env now (RequestSent p (Inl e)) s'))"

lemma transitionRequesting_again:
  "state p = 400 \<Longrightarrow> tpType p = CONSUMER \<Longrightarrow> transitionRequesting now p = Inr (transitionTo now 400 p)"
  by (auto simp: transitionRequesting_def transition_def)

lemma failing_sends_within:
  assumes "map_of (tpStore s) k = Some i" "entityId (item i) = k" "state (item i) = 400"
    "stateCount (item i) = 1" "tpType (item i) = CONSUMER"
    and "int n \<le> tpRetryLimit env" "tpRetryLimit env < 2147483647"
  shows "\<exists>j. map_of (tpStore (failing_sends env now e k n s)) k = Some j \<and> entityId (item j) = k \<and>
     state (item j) = 400 \<and> stateCount (item j) = 1 + int n \<and> tpType (item j) = CONSUMER"
  using assms(6)
proof (induction n)
  case (Suc n)
  then obtain j where j: "map_of (tpStore (failing_sends env now e k n s)) k = Some j"
    "entityId (item j) = k" "state (item j) = 400" "stateCount (item j) = 1 + int n"
    "tpType (item j) = CONSUMER"
    by auto
  let ?p = "copy_process now (item j)"
  have "\<not> retriesExhausted (tpRetryLimit env) ?p"
    using j Suc.prems by (simp add: retriesExhausted_def)
  moreover have "i32 (1 + int n + 1) = 2 + int n"
    using Suc.prems assms(7) by (subst i32_id) auto
  ultimately show ?case
    using j transitionRequesting_again [of ?p now]
    by (simp add: Let_def find_entity_def tp_callback_def sendCustomerRequestFailure_def
        tp_update_def new_item_def transitionTo_count)
qed (use assms in auto)

text \<open>
  The retry limit of a send: a consumer's process whose sends keep failing stays in
  \<open>REQUESTING\<close>, counting its attempts, for as many failures as the limit allows, and goes to
  \<open>ERROR\<close> with the next one, with the message of the exception.
\<close>

theorem send_retries_then_error:
  assumes "map_of (tpStore s) k = Some i" "entityId (item i) = k" "state (item i) = code REQUESTING"
    "stateCount (item i) = 1" "tpType (item i) = CONSUMER"
    and "int L = tpRetryLimit env" "tpRetryLimit env < 2147483647"
  shows "(\<forall>n\<le>L. \<exists>j. map_of (tpStore (failing_sends env now e k n s)) k = Some j \<and>
       state (item j) = code REQUESTING \<and> stateCount (item j) = 1 + int n) \<and>
     (\<exists>j. map_of (tpStore (failing_sends env now e k (Suc L) s)) k = Some j \<and>
       state (item j) = code ERROR \<and>
       errorDetail (item j) = Some (''Retry limit exceeded: '' @ exnMessage e))"
proof
  show "\<forall>n\<le>L. \<exists>j. map_of (tpStore (failing_sends env now e k n s)) k = Some j \<and>
       state (item j) = code REQUESTING \<and> stateCount (item j) = 1 + int n"
  proof (intro allI impI)
    fix n assume "n \<le> L"
    then have "int n \<le> tpRetryLimit env" using assms(6) by simp
    from failing_sends_within [OF assms(1,2) _ assms(4,5) this assms(7)] assms(3)
    show "\<exists>j. map_of (tpStore (failing_sends env now e k n s)) k = Some j \<and>
       state (item j) = code REQUESTING \<and> stateCount (item j) = 1 + int n" by fastforce
  qed
next
  from failing_sends_within [OF assms(1,2) _ assms(4,5) _ assms(7), of L now e] assms(3,6)
  obtain j where j: "map_of (tpStore (failing_sends env now e k L s)) k = Some j"
    "entityId (item j) = k" "state (item j) = 400" "stateCount (item j) = 1 + int L"
    by auto
  let ?p = "copy_process now (item j)"
  have "retriesExhausted (tpRetryLimit env) ?p"
    using j assms(6) by (simp add: retriesExhausted_def)
  then show "\<exists>j. map_of (tpStore (failing_sends env now e k (Suc L) s)) k = Some j \<and>
       state (item j) = code ERROR \<and>
       errorDetail (item j) = Some (''Retry limit exceeded: '' @ exnMessage e)"
    using j
    by (simp add: Let_def find_entity_def tp_callback_def sendCustomerRequestFailure_def
        transitionToErrorById_def transitionToError_def tp_run_defs new_item_def andThen_def)
qed

section \<open>Divergences\<close>

text \<open>
  (C39) A cancellation can be lost. While the request of a consumer's process is on its way, a
  cancel command finds the process in the store and cancels it; when the request then completes,
  the callback stores the process object it captured, and the process is \<open>REQUESTED\<close> again.
\<close>

theorem cancel_lost_while_sending:
  assumes "map_of (tpStore s) k = Some i" "entityId (item i) = k" "state (item i) = code REQUESTING"
    "tpType (item i) = CONSUMER"
  shows "stored_state (snd (tp_handle env now (CancelTransferCommand k) s)) k = Some (code CANCELLED) \<and>
     stored_state (snd (tp_callback env now' (RequestSent (copy_process now (item i)) (Inr ()))
       (snd (tp_handle env now (CancelTransferCommand k) s)))) k = Some (code REQUESTED)"
proof -
  let ?p = "copy_process now (item i)"
  have "cancel_modify now ?p = Inr (Some (transitionTo now 1200 ?p))"
    using assms(3) by (simp add: cancel_modify_def transitionCancelled_def transition_def)
  then have c: "stored_state (snd (tp_handle env now (CancelTransferCommand k) s)) k = Some 1200"
    using assms
    by (simp add: tp_handle_def singleTransferProcessCommand_def tp_run_defs find_entity_def
        stored_state_def new_item_def)
  have "transitionRequested now' ?p = Inr (transitionTo now' 500 ?p)"
    using assms(3,4) by (simp add: transitionRequested_def transition_def)
  then have "stored_state (snd (tp_callback env now' (RequestSent ?p (Inr ())) s')) k = Some 500" for s'
    using assms(2)
    by (simp add: tp_callback_def sendConsumerRequestSuccess_def tp_run_defs stored_state_def
        new_item_def andThen_def)
  with c show ?thesis by simp
qed

text \<open>
  A provider's request for an unknown asset ends its handler with an exception: the process
  is stored in \<open>ERROR\<close>, but the handler goes on with it and fails to move it to
  \<open>PROVISIONING\<close>. The exception ends the batch: the other processes fetched with it stay as
  they are, handed out and not handled.
\<close>

theorem unknown_asset_aborts_batch:
  assumes "tpType p = PROVIDER" "state p = code INITIAL" "resolveForAsset env (assetId (dataRequest p)) = None"
  shows "\<exists>s'. countProcessed (process_in_state env now INITIAL) (p # ps) s =
       (Inl (IllegalStateException ''Cannot transition from state ERROR to PROVISIONING''), s') \<and>
     stored_state s' (entityId p) = Some (code ERROR) \<and>
     (\<forall>k. k = entityId p \<or> map_of (tpStore s') k = map_of (tpStore s) k)"
  using assms
  by (simp add: process_in_state_def processInitial_def Let_def transitionToError_def tp_run_defs
      transitionProvisioning_def transition_def show_state_def from_code_def all_states_def
      andThen_def stored_state_def new_item_def)

text \<open>
  The listeners of \<open>preRequesting\<close> are called after the change is persisted, not before:
  when the notification is sent, the store already holds the process in \<open>REQUESTING\<close>.
\<close>

theorem preRequesting_after_update:
  assumes "tpType p = CONSUMER" "state p = code PROVISIONED"
  shows "events (snd (processProvisioned env now p s)) =
    events s @ [(Ev_preRequesting, entityId p, code REQUESTING, Some (code REQUESTING))]"
proof -
  have "transitionRequesting now p = Inr (transitionTo now 400 p)"
    using assms by (simp add: transitionRequesting_def transition_def)
  then show ?thesis using assms
    by (simp add: processProvisioned_def tp_run_defs andThen_def new_item_def)
qed

end
