(* ===== verification/Transfer_Liveness.thy ===== *)
theory Transfer_Liveness
  imports Transfer_Properties
begin

text \<open>
  A consumer's transfer of unmanaged resources from its creation to \<open>COMPLETED\<close>: three
  iterations of the loop, each followed by the callbacks of the calls it made.
\<close>

definition deliver_all :: "'pol tpm_env \<Rightarrow> int \<Rightarrow> tpm \<Rightarrow> tpm" where
  "deliver_all env now s =
     fold (\<lambda>c s. snd (tp_callback env now c s)) (pending s) (s\<lparr>pending := []\<rparr>)"

definition tp_round :: "'pol tpm_env \<Rightarrow> int \<Rightarrow> int \<Rightarrow> tpm \<Rightarrow> tpm" where
  "tp_round env now batchSize s =
     deliver_all env now (snd (sumProcessors (transfer_processors env now batchSize) s))"

section \<open>One process in the store\<close>

definition unmanaged :: "string \<Rightarrow> transferProcessStates \<Rightarrow> transfer_process \<Rightarrow> bool" where
  "unmanaged k st p \<longleftrightarrow> entityId p = k \<and> state p = code st \<and> stateCount p = 1 \<and>
     tpType p = CONSUMER \<and> \<not> managedResources (dataRequest p) \<and>
     isFinite (requestTransferType (dataRequest p)) \<and>
     (case resourceManifest p of None \<Rightarrow> st = INITIAL | Some m \<Rightarrow> definitions m = [])"

definition alone :: "string \<Rightarrow> transferProcessStates \<Rightarrow> bool \<Rightarrow> transfer_process entity_store \<Rightarrow> bool" where
  "alone k st l m \<longleftrightarrow> (\<exists>p. m = [(k, \<lparr>item = p, leased = l\<rparr>)] \<and> unmanaged k st p)"

definition stored_alone :: "string \<Rightarrow> transferProcessStates \<Rightarrow> bool \<Rightarrow> tpPending list \<Rightarrow> tpm \<Rightarrow> bool" where
  "stored_alone k st l ps s \<longleftrightarrow>
     alone k st l (tpStore s) \<and> pending s = ps \<and> queue (commandQueue s) = []"

lemma unmanaged_copy [simp]: "unmanaged k st (copy_process now p) = unmanaged k st p"
  by (auto simp: unmanaged_def copy_process_def copy_entity_def associate_def
      manifest_setTransferProcessId_def split: option.splits)

lemma unmanaged_transition:
  "unmanaged k st p \<Longrightarrow> st \<noteq> st' \<Longrightarrow> st \<noteq> INITIAL \<Longrightarrow> unmanaged k st' (transitionTo now (code st') p)"
  by (auto simp: unmanaged_def transitionTo_count split: option.splits)

lemma provision_nothing: "provision ps [] pol = Inr []"
  by (simp add: provision_def)

lemma unmanaged_complete:
  "unmanaged k st p \<Longrightarrow> st \<noteq> INITIAL \<Longrightarrow> provisioningComplete p \<and> getResourcesToProvision p = []"
  by (auto simp: unmanaged_def provisioningComplete_def getResourcesToProvision_def split: option.splits)

lemma tp_nextForState_alone:
  assumes "tpStore s = [(k, \<lparr>item = p, leased = l\<rparr>)]" and "0 < b"
  shows "tp_nextForState now (code st) b s =
    (if state p = code st \<and> \<not> l
     then (Inr [copy_process now p], s\<lparr>tpStore := [(k, \<lparr>item = p, leased = True\<rparr>)]\<rparr>)
     else (Inr [], s))"
  using assms
  by (simp add: tp_nextForState_def nextForState_def nextItems_def batch_def selectable_def
      markLeased_def Let_def)

lemma processor_idle:
  assumes "stored_alone k st l ps s" and "st \<noteq> st' \<or> l" and "0 < b"
  shows "processTransfersInState env now b st' s = (Inr 0, s)"
  using assms tp_nextForState_alone
  by (fastforce simp: stored_alone_def alone_def unmanaged_def processTransfersInState_def stateProcessor_def
      andThen_def)

lemma processor_handles:
  assumes "stored_alone k st False ps s" and "0 < b"
    and "\<And>p s'. unmanaged k st p \<Longrightarrow> stored_alone k st True ps s' \<Longrightarrow>
      \<exists>s''. process_in_state env now st p s' = (Inr True, s'') \<and> R s''"
  shows "\<exists>n s''. processTransfersInState env now b st s = (Inr n, s'') \<and> R s''"
proof -
  obtain p where p: "tpStore s = [(k, \<lparr>item = p, leased = False\<rparr>)]" "unmanaged k st p"
    using assms(1) by (auto simp: stored_alone_def alone_def)
  let ?s = "s\<lparr>tpStore := [(k, \<lparr>item = p, leased = True\<rparr>)]\<rparr>"
  have "stored_alone k st True ps ?s" using assms(1) p by (auto simp: stored_alone_def alone_def)
  with assms(3) [of "copy_process now p" ?s] p obtain s'' where
    "process_in_state env now st (copy_process now p) ?s = (Inr True, s'')" "R s''" by auto
  with p tp_nextForState_alone [OF p(1) assms(2)] show ?thesis
    by (auto simp: processTransfersInState_def stateProcessor_def unmanaged_def andThen_def)
qed

lemma onCommands_idle: "stored_alone k st l ps s \<Longrightarrow> onCommands env now s = (Inr 0, s)"
  by (simp add: stored_alone_def onCommands_def stateProcessor_def dequeueCommands_def dequeueN_def
      andThen_def)

section \<open>The handlers\<close>

lemma unmanagedD:
  assumes "unmanaged k st p"
  shows "entityId p = k" "state p = code st" "stateCount p = 1" "tpType p = CONSUMER"
    "\<not> managedResources (dataRequest p)" "isFinite (requestTransferType (dataRequest p))"
  using assms by (simp_all add: unmanaged_def)

lemma alone_upsert:
  assumes "alone k st l m" "unmanaged k st' p"
  shows "alone k st' False (upsert (copy_process now) p m)"
proof -
  obtain q where m: "m = [(k, \<lparr>item = q, leased = l\<rparr>)]" using assms(1) by (auto simp: alone_def)
  have "upsert (copy_process now) p m = [(k, \<lparr>item = copy_process now p, leased = False\<rparr>)]"
    using unmanagedD(1) [OF assms(2)] by (simp add: m upsert_def new_item_def)
  with assms(2) show ?thesis by (simp add: alone_def)
qed

lemma initial_handled:
  assumes "unmanaged k INITIAL p" "stored_alone k INITIAL True [] s"
  shows "\<exists>s'. process_in_state env now INITIAL p s = (Inr True, s') \<and> stored_alone k PROVISIONING False [] s'"
proof -
  let ?p = "(transitionTo now 200 p)\<lparr>resourceManifest :=
    Some (manifest_setTransferProcessId (entityId p) empty_manifest)\<rparr>"
  have "transitionProvisioning now empty_manifest p = Inr ?p"
    using unmanagedD [OF assms(1)] by (simp add: transitionProvisioning_def transition_def)
  moreover have "unmanaged k PROVISIONING ?p"
    using unmanagedD [OF assms(1)] by (simp add: unmanaged_def transitionTo_count
        manifest_setTransferProcessId_def empty_manifest_def)
  ultimately show ?thesis
    using assms(2) unmanagedD [OF assms(1)] alone_upsert [of k INITIAL True "tpStore s"]
    by (simp add: process_in_state_def processInitial_def generateConsumerResourceManifest_def
        tp_run_defs andThen_def Let_def stored_alone_def)
qed

lemma provisioning_handled:
  assumes "unmanaged k PROVISIONING p" "stored_alone k PROVISIONING True [] s"
  shows "\<exists>s'. process_in_state env now PROVISIONING p s = (Inr True, s') \<and>
    stored_alone k PROVISIONING True [ProvisionDone k (Inr [])] s'"
  using assms(2) unmanaged_complete [OF assms(1)] unmanagedD [OF assms(1)]
  by (simp add: process_in_state_def processProvisioning_def whenComplete_def provision_nothing
      stored_alone_def Let_def)

lemma provisioned_delivered:
  assumes "stored_alone k PROVISIONING True [ProvisionDone k (Inr [])] s"
  shows "stored_alone k PROVISIONED False [] (deliver_all env now s)"
proof -
  obtain p where p: "tpStore s = [(k, \<lparr>item = p, leased = True\<rparr>)]" "unmanaged k PROVISIONING p"
    using assms by (auto simp: stored_alone_def alone_def)
  let ?p = "copy_process now p"
  have u: "unmanaged k PROVISIONING ?p" using p(2) by simp
  have t: "transitionProvisioned now ?p = Inr (transitionTo now 300 ?p)"
    using unmanagedD [OF u] by (simp add: transitionProvisioned_def transition_def)
  have "unmanaged k PROVISIONED (transitionTo now 300 ?p)"
    using unmanaged_transition [OF u, of PROVISIONED] by simp
  then have "alone k PROVISIONED False (upsert (copy_process now) (transitionTo now 300 ?p) (tpStore s))"
    using assms alone_upsert by (auto simp: stored_alone_def)
  with t show ?thesis
    using assms p(1) unmanaged_complete [OF u] unmanagedD [OF u]
    by (simp add: deliver_all_def stored_alone_def tp_callback_def handleProvisionResultById_def
        handleProvisionResult_def tp_run_defs find_entity_def andThen_def)
qed

lemma provisioned_handled:
  assumes "unmanaged k PROVISIONED p" "stored_alone k PROVISIONED True [] s"
  shows "\<exists>s'. process_in_state env now PROVISIONED p s = (Inr True, s') \<and> stored_alone k REQUESTING False [] s'"
proof -
  have "transitionRequesting now p = Inr (transitionTo now 400 p)"
    using unmanagedD [OF assms(1)] by (simp add: transitionRequesting_def transition_def)
  moreover have "unmanaged k REQUESTING (transitionTo now 400 p)"
    using unmanaged_transition [OF assms(1), of REQUESTING] by simp
  ultimately show ?thesis
    using assms(2) unmanagedD [OF assms(1)] alone_upsert [of k PROVISIONED True "tpStore s"]
    by (simp add: process_in_state_def processProvisioned_def tp_run_defs andThen_def stored_alone_def)
qed

lemma requesting_handled:
  assumes "unmanaged k REQUESTING p" "stored_alone k REQUESTING True [] s"
    and "\<And>q. sendMessage env q = Inr ()"
  shows "\<exists>s'. process_in_state env now REQUESTING p s = (Inr True, s') \<and>
    (\<exists>q. unmanaged k REQUESTING q \<and> stored_alone k REQUESTING True [RequestSent q (Inr ())] s')"
  using assms unmanagedD [OF assms(1)]
  by (auto simp: process_in_state_def tp_processRequesting_def processConsumerRequest_def
      sendConsumerRequest_def shouldDelay_def whenComplete_def stored_alone_def Let_def)

lemma requested_delivered:
  assumes "unmanaged k REQUESTING q" "stored_alone k REQUESTING True [RequestSent q (Inr ())] s"
  shows "stored_alone k REQUESTED False [] (deliver_all env now s)"
proof -
  have t: "transitionRequested now q = Inr (transitionTo now 500 q)"
    using unmanagedD [OF assms(1)] by (simp add: transitionRequested_def transition_def)
  have "unmanaged k REQUESTED (transitionTo now 500 q)"
    using unmanaged_transition [OF assms(1), of REQUESTED] by simp
  then have "alone k REQUESTED False (upsert (copy_process now) (transitionTo now 500 q) (tpStore s))"
    using assms(2) alone_upsert by (auto simp: stored_alone_def)
  with t show ?thesis
    using assms(2)
    by (simp add: deliver_all_def stored_alone_def tp_callback_def sendConsumerRequestSuccess_def
        tp_run_defs andThen_def)
qed

lemma requested_handled:
  assumes "unmanaged k REQUESTED p" "stored_alone k REQUESTED True [] s"
  shows "\<exists>s'. process_in_state env now REQUESTED p s = (Inr True, s') \<and> stored_alone k IN_PROGRESS False [] s'"
proof -
  have "transitionInProgressOrStreaming now p = Inr (transitionTo now 600 p)"
    using unmanagedD [OF assms(1)]
    by (simp add: transitionInProgressOrStreaming_def transitionInProgress_def transition_def)
  moreover have "unmanaged k IN_PROGRESS (transitionTo now 600 p)"
    using unmanaged_transition [OF assms(1), of IN_PROGRESS] by simp
  ultimately show ?thesis
    using assms(2) unmanagedD [OF assms(1)] alone_upsert [of k REQUESTED True "tpStore s"]
    by (simp add: process_in_state_def processRequested_def tp_run_defs andThen_def stored_alone_def)
qed

lemma inProgress_handled:
  assumes "unmanaged k IN_PROGRESS p" "stored_alone k IN_PROGRESS True [] s" "statusCheckers env = []"
  shows "\<exists>s'. process_in_state env now IN_PROGRESS p s = (Inr True, s') \<and> stored_alone k COMPLETED False [] s'"
proof -
  have "transitionCompleted now p = Inr (transitionTo now 800 p)"
    using unmanagedD [OF assms(1)] by (simp add: transitionCompleted_def transition_def)
  moreover have "unmanaged k COMPLETED (transitionTo now 800 p)"
    using unmanaged_transition [OF assms(1), of COMPLETED] by simp
  ultimately show ?thesis
    using assms(2,3) unmanagedD [OF assms(1)] alone_upsert [of k IN_PROGRESS True "tpStore s"]
    by (simp add: process_in_state_def processInProgress_def transitionToCompleted_def tp_run_defs
        andThen_def stored_alone_def split: option.splits)
qed

section \<open>The rounds\<close>

lemma snd_sum:
  "snd (sumProcessors (p # ps) s) =
     (case p s of (Inl e, s') \<Rightarrow> s' | (Inr n, s') \<Rightarrow> snd (sumProcessors ps s'))"
  by (auto simp: andThen_def split: prod.splits sum.splits)

lemmas round_defs = tp_round_def transfer_processors_def processed_states_def

lemma first_round:
  assumes "stored_alone k INITIAL False [] s" "0 < b"
  shows "stored_alone k PROVISIONED False [] (tp_round env now b s)"
proof -
  obtain n s1 where s1: "processTransfersInState env now b INITIAL s = (Inr n, s1)"
    "stored_alone k PROVISIONING False [] s1"
    using processor_handles [OF assms initial_handled] by blast
  obtain m s2 where s2: "processTransfersInState env now b PROVISIONING s1 = (Inr m, s2)"
    "stored_alone k PROVISIONING True [ProvisionDone k (Inr [])] s2"
    using processor_handles [OF s1(2) assms(2) provisioning_handled] by blast
  have "snd (sumProcessors (transfer_processors env now b) s) = s2"
    using s1 s2 processor_idle [where env = env, OF s2(2) _ assms(2)] onCommands_idle [where env = env, OF s2(2)]
    by (simp add: round_defs snd_sum del: sumProcessors.simps(2))
  with provisioned_delivered [OF s2(2)] show ?thesis by (simp add: tp_round_def)
qed

lemma second_round:
  assumes "stored_alone k PROVISIONED False [] s" "0 < b" and "\<And>q. sendMessage env q = Inr ()"
  shows "stored_alone k REQUESTED False [] (tp_round env now b s)"
proof -
  obtain n s1 where s1: "processTransfersInState env now b PROVISIONED s = (Inr n, s1)"
    "stored_alone k REQUESTING False [] s1"
    using processor_handles [OF assms(1,2) provisioned_handled] by blast
  obtain m s2 q where s2: "processTransfersInState env now b REQUESTING s1 = (Inr m, s2)"
    "unmanaged k REQUESTING q" "stored_alone k REQUESTING True [RequestSent q (Inr ())] s2"
    using processor_handles [OF s1(2) assms(2) requesting_handled [OF _ _ assms(3)]] by blast
  have "snd (sumProcessors (transfer_processors env now b) s) = s2"
    using s1 s2 processor_idle [where env = env, OF assms(1) _ assms(2)] processor_idle [where env = env, OF s2(3) _ assms(2)]
      onCommands_idle [where env = env, OF s2(3)]
    by (simp add: round_defs snd_sum del: sumProcessors.simps(2))
  with requested_delivered [OF s2(2,3)] show ?thesis by (simp add: tp_round_def)
qed

lemma third_round:
  assumes "stored_alone k REQUESTED False [] s" "0 < b" and "statusCheckers env = []"
  shows "stored_alone k COMPLETED False [] (tp_round env now b s)"
proof -
  obtain n s1 where s1: "processTransfersInState env now b REQUESTED s = (Inr n, s1)"
    "stored_alone k IN_PROGRESS False [] s1"
    using processor_handles [OF assms(1,2) requested_handled] by blast
  obtain m s2 where s2: "processTransfersInState env now b IN_PROGRESS s1 = (Inr m, s2)"
    "stored_alone k COMPLETED False [] s2"
    using processor_handles [OF s1(2) assms(2) inProgress_handled [OF _ _ assms(3)]] by blast
  have "snd (sumProcessors (transfer_processors env now b) s) = s2"
    using s1 s2 processor_idle [where env = env, OF assms(1) _ assms(2)] processor_idle [where env = env, OF s2(2) _ assms(2)]
      onCommands_idle [where env = env, OF s2(2)]
    by (simp add: round_defs snd_sum del: sumProcessors.simps(2))
  moreover have "deliver_all env now s2 = s2"
    using s2(2) by (simp add: deliver_all_def stored_alone_def)
  ultimately show ?thesis using s2(2) by (simp add: tp_round_def)
qed

lemma initiated_alone:
  assumes "\<not> managedResources r" "isFinite (requestTransferType r)"
  shows "stored_alone k INITIAL False []
    (snd (initiateRequest env now k CONSUMER r (tpm_start n)))"
proof -
  have "unmanaged k INITIAL (new_initial env now k CONSUMER r)"
    using assms by (simp add: unmanaged_def)
      (simp add: new_initial_def transitionTo_count associate_def copy_entity_def new_process_def)
  then show ?thesis
    by (simp add: initiateRequest_run findAll_entities_def tpm_start_def stored_alone_def Let_def
        alone_def upsert_def new_item_def)
qed

text \<open>
  (C13) A consumer's transfer completes: for a finite transfer of unmanaged resources, whose
  request can be sent and whose destination has no status checker, three iterations of the loop
  and the callbacks of the calls they make take the process from its creation to \<open>COMPLETED\<close>,
  whatever the provisioners, generators, policies and batch size are.
\<close>

theorem consumer_transfer_completes:
  assumes "\<not> managedResources r" "isFinite (requestTransferType r)" "0 < b"
    and "\<And>q. sendMessage env q = Inr ()" and "statusCheckers env = []"
  shows "stored_state
    (tp_round env t3 b (tp_round env t2 b (tp_round env t1 b
      (snd (initiateRequest env now k CONSUMER r (tpm_start n)))))) k = Some (code COMPLETED)"
proof -
  have "stored_alone k COMPLETED False [] (tp_round env t3 b (tp_round env t2 b (tp_round env t1 b
      (snd (initiateRequest env now k CONSUMER r (tpm_start n))))))"
    using assms by (intro third_round second_round first_round initiated_alone)
  then show ?thesis by (auto simp: stored_alone_def alone_def stored_state_def unmanaged_def)
qed

section \<open>Instances\<close>

definition demo_env :: "unit tpm_env" where
  "demo_env = \<lparr>findPolicyForContract = (\<lambda>_. ()), consumerGenerators = [], providerGenerators = [],
     verifyManifest = (\<lambda>_ ds. (Success (), ds)), provisioners = [], controllers = [],
     statusCheckers = [], resolveForAsset = (\<lambda>_. None), sendMessage = (\<lambda>_. Inr ()),
     storeSecretFails = (\<lambda>_. None), deleteSecretFails = (\<lambda>_. None), retryBaseDelay = 100,
     tpRetryLimit = 7, currentTraceContext = []\<rparr>"

definition demo_tpm :: "tpType \<Rightarrow> transferProcessStates \<Rightarrow> tpm" where
  "demo_tpm ty st = (tpm_start 10)\<lparr>tpStore := [(''p1'', \<lparr>item = demo_process ty st, leased = True\<rparr>)]\<rparr>"

theorem consumer_transfer_completes_witness:
  "stored_state
    (tp_round demo_env 300 5 (tp_round demo_env 200 5 (tp_round demo_env 100 5
      (snd (initiateRequest demo_env 7 ''p1'' CONSUMER demo_request (tpm_start 10)))))) ''p1'' =
    Some (code COMPLETED)"
  by (rule consumer_transfer_completes) (simp_all add: demo_request_def demo_env_def)

theorem send_retries_then_error_witness:
  "\<exists>j. map_of (tpStore (failing_sends demo_env 5 (EdcException ''down'') ''p1'' 8
       (demo_tpm CONSUMER REQUESTING))) ''p1'' = Some j \<and>
     state (item j) = code ERROR \<and> errorDetail (item j) = Some (''Retry limit exceeded: '' @ ''down'')"
proof -
  let ?i = "\<lparr>item = demo_process CONSUMER REQUESTING, leased = True\<rparr>"
  have "map_of (tpStore (demo_tpm CONSUMER REQUESTING)) ''p1'' = Some ?i" "entityId (item ?i) = ''p1''"
    "state (item ?i) = code REQUESTING" "stateCount (item ?i) = 1" "tpType (item ?i) = CONSUMER"
    "int 7 = tpRetryLimit demo_env" "tpRetryLimit demo_env < 2147483647"
    by (simp_all add: demo_tpm_def demo_process_def demo_env_def)
  from send_retries_then_error [OF this, of 5 "EdcException ''down''"] show ?thesis
    by (simp only: exnMessage.simps numeral_eq_Suc pred_numeral_simps eval_nat_numeral) auto
qed

theorem cancel_lost_while_sending_witness:
  "stored_state (snd (tp_handle demo_env 5 (CancelTransferCommand ''p1'') (demo_tpm CONSUMER REQUESTING))) ''p1'' =
     Some (code CANCELLED) \<and>
   stored_state (snd (tp_callback demo_env 6
       (RequestSent (copy_process 5 (demo_process CONSUMER REQUESTING)) (Inr ()))
       (snd (tp_handle demo_env 5 (CancelTransferCommand ''p1'') (demo_tpm CONSUMER REQUESTING))))) ''p1'' =
     Some (code REQUESTED)"
  using cancel_lost_while_sending [of "demo_tpm CONSUMER REQUESTING" "''p1''"
      "\<lparr>item = demo_process CONSUMER REQUESTING, leased = True\<rparr>" demo_env 5 6]
  by (simp add: demo_tpm_def demo_process_def)

theorem unknown_asset_aborts_batch_witness:
  "\<exists>s'. countProcessed (process_in_state demo_env 5 INITIAL) [demo_process PROVIDER INITIAL]
       (demo_tpm PROVIDER INITIAL) =
     (Inl (IllegalStateException ''Cannot transition from state ERROR to PROVISIONING''), s') \<and>
     stored_state s' ''p1'' = Some (code ERROR)"
  using unknown_asset_aborts_batch [of "demo_process PROVIDER INITIAL" demo_env 5 "[]" "demo_tpm PROVIDER INITIAL"]
  by (auto simp: demo_env_def demo_process_def)

theorem preRequesting_after_update_witness:
  "events (snd (processProvisioned demo_env 5 (demo_process CONSUMER PROVISIONED)
     (demo_tpm CONSUMER PROVISIONED))) =
   [(Ev_preRequesting, ''p1'', code REQUESTING, Some (code REQUESTING))]"
  using preRequesting_after_update [of "demo_process CONSUMER PROVISIONED" demo_env 5 "demo_tpm CONSUMER PROVISIONED"]
  by (simp add: demo_process_def demo_tpm_def tpm_start_def)

theorem transfer_manager_safe_witness:
  "\<exists>s. (tpm_step {demo_env})\<^sup>*\<^sup>* (tpm_start 10, []) (s, []) \<and> stored_state s ''p1'' = Some 100 \<and>
     keys_distinct (tpStore s)"
proof -
  let ?s = "snd (initiateRequest demo_env 7 ''p1'' PROVIDER demo_request (tpm_start 10))"
  have run: "(tpm_step {demo_env})\<^sup>*\<^sup>* (tpm_start 10, []) (?s, [])"
    by (intro r_into_rtranclp step_initiate) (simp_all add: tpm_start_def)
  have "stored_state ?s ''p1'' = Some 100"
    by (simp add: initiateRequest_run findAll_entities_def tpm_start_def stored_state_def Let_def
        new_item_def)
  with transfer_manager_safe [OF run] run show ?thesis by blast
qed

end
