(* ===== verification/Transfer_Provisioning.thy ===== *)
theory Transfer_Provisioning
  imports Transfer_Liveness
begin

text \<open>
  What a provisioning result does to a process, on every branch of \<open>handleProvisionResult\<close>.
\<close>

text \<open>The resource a response brings, and whether it is recorded as a fatal error.\<close>

definition response_definition :: "provisionResponse statusResult \<Rightarrow> string list" where
  "response_definition r =
     (case r of StatusSuccess (ProvisionResponse q _) \<Rightarrow> [resourceDefinitionId q] | _ \<Rightarrow> [])"

definition response_fatal :: "'pol tpm_env \<Rightarrow> provisionResponse statusResult \<Rightarrow> bool" where
  "response_fatal env r \<longleftrightarrow>
     (case r of
        StatusFailure FATAL_ERROR ms \<Rightarrow> ms \<noteq> []
      | StatusSuccess (ProvisionResponse q (Some _)) \<Rightarrow>
          (case resourceName (resourceKind q) of Some k \<Rightarrow> storeSecretFails env k \<noteq> None | None \<Rightarrow> False)
      | _ \<Rightarrow> False)"

lemma toProvision_add:
  "getResourcesToProvision (addProvisionedResource q p) =
     filter (\<lambda>d. definitionId d \<noteq> resourceDefinitionId q) (getResourcesToProvision p)"
  by (auto simp: getResourcesToProvision_def addProvisionedResource_def addResource_def Let_def
      split: option.splits intro!: filter_cong)

lemma handleProvisionDataAddressResource_simps [simp]:
  "state (handleProvisionDataAddressResource k p) = state p"
  "entityId (handleProvisionDataAddressResource k p) = entityId p"
  "resourceManifest (handleProvisionDataAddressResource k p) = resourceManifest p"
  "getResourcesToProvision (handleProvisionDataAddressResource k p) = getResourcesToProvision p"
  by (auto simp: handleProvisionDataAddressResource_def addContentDataAddress_def
      getResourcesToProvision_def split: resourceKind.splits option.splits)

lemma handleProvisionResponse_run:
  "\<exists>p' es s'. handleProvisionResponse env r p s = (Inr (p', es), s') \<and>
     tpStore s' = tpStore s \<and> (es \<noteq> [] \<longleftrightarrow> response_fatal env r) \<and> state p' = state p \<and>
     entityId p' = entityId p \<and> resourceManifest p' = resourceManifest p \<and>
     getResourcesToProvision p' =
       filter (\<lambda>d. definitionId d \<notin> set (response_definition r)) (getResourcesToProvision p)"
proof (cases r)
  case (StatusSuccess x)
  show ?thesis
  proof (cases x)
    case (ProvisionResponse q t)
    then show ?thesis using StatusSuccess
      by (cases "resourceName (resourceKind q)"; cases t)
         (auto simp: handleProvisionResponse_def storeSecret_def response_definition_def
           response_fatal_def toProvision_add Let_def andThen_def split: option.splits)
  qed (auto simp: StatusSuccess handleProvisionResponse_def response_definition_def response_fatal_def)
next
  case (StatusFailure st ms)
  then show ?thesis
    by (cases st) (auto simp: handleProvisionResponse_def response_definition_def response_fatal_def)
qed

lemma handleProvisionResponses_run:
  "\<exists>p' es' s'. handleProvisionResponses env rs (p, es) s = (Inr (p', es'), s') \<and>
     tpStore s' = tpStore s \<and> (es' \<noteq> [] \<longleftrightarrow> es \<noteq> [] \<or> list_ex (response_fatal env) rs) \<and>
     state p' = state p \<and> entityId p' = entityId p \<and> resourceManifest p' = resourceManifest p \<and>
     getResourcesToProvision p' =
       filter (\<lambda>d. definitionId d \<notin> set (concat (map response_definition rs))) (getResourcesToProvision p)"
proof (induction rs arbitrary: p es s)
  case (Cons r rs)
  obtain p1 es1 s1 where r: "handleProvisionResponse env r p s = (Inr (p1, es1), s1)"
    "tpStore s1 = tpStore s" "es1 \<noteq> [] \<longleftrightarrow> response_fatal env r" "state p1 = state p"
    "entityId p1 = entityId p" "resourceManifest p1 = resourceManifest p"
    "getResourcesToProvision p1 =
       filter (\<lambda>d. definitionId d \<notin> set (response_definition r)) (getResourcesToProvision p)"
    using handleProvisionResponse_run by blast
  obtain p2 es2 s2 where rs: "handleProvisionResponses env rs (p1, es @ es1) s1 = (Inr (p2, es2), s2)"
    "tpStore s2 = tpStore s1" "es2 \<noteq> [] \<longleftrightarrow> es @ es1 \<noteq> [] \<or> list_ex (response_fatal env) rs"
    "state p2 = state p1" "entityId p2 = entityId p1" "resourceManifest p2 = resourceManifest p1"
    "getResourcesToProvision p2 =
       filter (\<lambda>d. definitionId d \<notin> set (concat (map response_definition rs))) (getResourcesToProvision p1)"
    using Cons.IH by blast
  have "handleProvisionResponses env (r # rs) (p, es) s = (Inr (p2, es2), s2)"
    using r(1) rs(1) by (simp add: andThen_def)
  with r rs show ?case by (auto intro!: filter_cong)
qed auto

text \<open>
  The result of provisioning, on every branch: for a process that is being provisioned, a
  fatal error of a response or of storing its secret moves it to \<open>ERROR\<close>; otherwise it is
  \<open>PROVISIONED\<close> as soon as every definition of its manifest has a resource, from this result or
  from earlier ones, and stays \<open>PROVISIONING\<close> until then. Its lease is released in every case.
\<close>

theorem provisioning_result:
  assumes "map_of (tpStore s) k = Some i" "entityId (item i) = k" "state (item i) = code PROVISIONING"
    and "resourceManifest (item i) = Some m"
  shows "\<exists>j. map_of (tpStore (snd (handleProvisionResultById env now k rs s))) k = Some j \<and> \<not> leased j \<and>
    state (item j) =
      (if list_ex (response_fatal env) rs then code ERROR
       else if list_all (\<lambda>d. definitionId d \<in> set (concat (map response_definition rs)))
                 (getResourcesToProvision (item i))
       then code PROVISIONED else code PROVISIONING)"
proof -
  let ?p = "copy_process now (item i)"
  have ids: "map definitionId (getResourcesToProvision ?p) = map definitionId (getResourcesToProvision (item i))"
    using assms(4) by (auto simp: getResourcesToProvision_def copy_process_def copy_entity_def associate_def
        manifest_setTransferProcessId_def set_setTransferProcessId_def filter_map comp_def image_image
        split: option.splits)
  have m: "resourceManifest ?p \<noteq> None"
    using assms(4) by (simp add: copy_process_def copy_entity_def associate_def)
  obtain p' es s' where run: "handleProvisionResponses env rs (?p, []) s = (Inr (p', es), s')"
    "tpStore s' = tpStore s" "es \<noteq> [] \<longleftrightarrow> list_ex (response_fatal env) rs" "state p' = 200"
    "entityId p' = k" "resourceManifest p' \<noteq> None"
    "getResourcesToProvision p' = filter (\<lambda>d. definitionId d \<notin> set (concat (map response_definition rs)))
       (getResourcesToProvision ?p)"
    using handleProvisionResponses_run [of env rs ?p "[]" s] assms m by auto
  have complete: "provisioningComplete p' \<longleftrightarrow>
      list_all (\<lambda>d. definitionId d \<in> set (concat (map response_definition rs))) (getResourcesToProvision (item i))"
  proof -
    have "provisioningComplete p' \<longleftrightarrow>
      set (map definitionId (getResourcesToProvision ?p)) \<subseteq> set (concat (map response_definition rs))"
      using run(6,7) by (auto simp: provisioningComplete_def filter_empty_conv)
    then show ?thesis unfolding ids by (auto simp: list_all_iff)
  qed
  have t: "transitionProvisioned now p' = Inr (transitionTo now 300 p')"
    using run(4) by (simp add: transitionProvisioned_def transition_def)
  have "handleProvisionResultById env now k rs s = handleProvisionResult env now ?p rs s"
    using assms by (simp add: handleProvisionResultById_def tp_find_def find_entity_def)
  then show ?thesis
    using run complete t
    by (cases "list_ex (response_fatal env) rs"; cases "provisioningComplete p'")
       (simp_all add: handleProvisionResult_def transitionToError_def tp_run_defs andThen_def
         new_item_def Let_def)
qed

text \<open>
  A fatal failure that carries no message, as \<open>StatusResult.failure(FATAL_ERROR)\<close> makes it,
  is not recorded: the process is treated as if there had been no response.
\<close>

theorem fatal_failure_without_message_ignored:
  "handleProvisionResult env now p (StatusFailure FATAL_ERROR [] # rs) = handleProvisionResult env now p rs \<and>
   handleDeprovisionResult env now p (StatusFailure FATAL_ERROR [] # ds) = handleDeprovisionResult env now p ds"
  by (simp_all add: handleProvisionResult_def handleDeprovisionResult_def handleProvisionResponse_def
      handleDeprovisionResponse_def andThen_def fun_eq_iff)

definition demo_definition :: resourceDefinition where
  "demo_definition = \<lparr>definitionId = ''d1'', definitionProcessId = None, definitionClass = ''D''\<rparr>"

definition demo_resource :: provisionedResource where
  "demo_resource = \<lparr>resourceId = ''x1'', resourceProcessId = None, resourceDefinitionId = ''d1'',
     hasToken = False, resourceClass = ''R'', resourceKind = PlainResource\<rparr>"

theorem provisioning_result_witness:
  "\<exists>j. map_of (tpStore (snd (handleProvisionResultById demo_env 5 ''p1''
       [StatusSuccess (ProvisionResponse demo_resource None)]
       ((tpm_start 10)\<lparr>tpStore := [(''p1'', new_item ((demo_process CONSUMER PROVISIONING)
          \<lparr>resourceManifest := Some (empty_manifest\<lparr>definitions := [demo_definition]\<rparr>)\<rparr>))]\<rparr>)))) ''p1'' = Some j \<and>
     state (item j) = code PROVISIONED"
proof -
  let ?q = "(demo_process CONSUMER PROVISIONING)
          \<lparr>resourceManifest := Some (empty_manifest\<lparr>definitions := [demo_definition]\<rparr>)\<rparr>"
  let ?s = "(tpm_start 10)\<lparr>tpStore := [(''p1'', new_item ?q)]\<rparr>"
  have "map_of (tpStore ?s) ''p1'' = Some (new_item ?q)" "entityId (item (new_item ?q)) = ''p1''"
    "state (item (new_item ?q)) = code PROVISIONING"
    "resourceManifest (item (new_item ?q)) = Some (empty_manifest\<lparr>definitions := [demo_definition]\<rparr>)"
    by (simp_all add: new_item_def demo_process_def)
  from provisioning_result [OF this, of demo_env 5 "[StatusSuccess (ProvisionResponse demo_resource None)]"]
  show ?thesis
    by (auto simp: response_fatal_def response_definition_def demo_resource_def demo_definition_def
        getResourcesToProvision_def new_item_def demo_process_def empty_manifest_def)
qed

end
