(* ===== verification/Api_Json.thy ===== *)
theory Api_Json
  imports EDC_Prelude
begin

text \<open>
  JSON values, and what an OpenAPI document says when it is read as one: its operations, the
  parameters of their path templates, the responses they declare, what references lead to, and
  the validation of a value against a schema. The document itself, \<open>docs/swaggerui/swagger-spec.js\<close>,
  is in the theories \<open>Api_Schemas\<close> and \<open>Api_Paths\<close>.
\<close>

section \<open>Values\<close>

text \<open>An object keeps its fields in the order they are written; numbers are integers here.\<close>

datatype json =
    JNull
  | JBool bool
  | JNum int
  | JStr string
  | JArr "json list"
  | JObj "(string \<times> json) list"

fun field :: "string \<Rightarrow> json \<Rightarrow> json option" where
  "field k (JObj fs) = map_of fs k"
| "field k _ = None"

fun fields :: "json \<Rightarrow> (string \<times> json) list" where
  "fields (JObj fs) = fs"
| "fields _ = []"

fun elements :: "json \<Rightarrow> json list" where
  "elements (JArr js) = js"
| "elements _ = []"

fun strings :: "json \<Rightarrow> string list" where
  "strings (JStr s) = [s]"
| "strings _ = []"

definition string_field :: "string \<Rightarrow> json \<Rightarrow> string option" where
  "string_field k j = (case field k j of Some (JStr s) \<Rightarrow> Some s | _ \<Rightarrow> None)"

definition field_list :: "string \<Rightarrow> json \<Rightarrow> json list" where
  "field_list k j = (case field k j of Some a \<Rightarrow> elements a | None \<Rightarrow> [])"

definition subfields :: "string \<Rightarrow> json \<Rightarrow> (string \<times> json) list" where
  "subfields k j = (case field k j of Some o' \<Rightarrow> fields o' | None \<Rightarrow> [])"

section \<open>Forms that occur throughout the document\<close>

definition schema_ref :: "string \<Rightarrow> json" where
  "schema_ref name = JObj [(''$ref'', JStr (''#/components/schemas/'' @ name))]"

definition typed :: "string \<Rightarrow> json" where
  "typed t = JObj [(''type'', JStr t)]"

definition formatted :: "string \<Rightarrow> string \<Rightarrow> json" where
  "formatted t f = JObj [(''type'', JStr t), (''format'', JStr f)]"

definition array_of :: "json \<Rightarrow> json" where
  "array_of s = JObj [(''type'', JStr ''array''), (''items'', s)]"

definition map_of_type :: "string \<Rightarrow> json" where
  "map_of_type t = JObj [(''type'', JStr ''object''), (''additionalProperties'', typed t)]"

definition json_content :: "json \<Rightarrow> json" where
  "json_content s = JObj [(''application/json'', JObj [(''schema'', s)])]"

definition api_errors :: json where
  "api_errors = json_content (array_of (schema_ref ''ApiErrorDetail''))"

definition id_parameter :: "string \<Rightarrow> json" where
  "id_parameter name = JObj [(''name'', JStr name), (''in'', JStr ''path''), (''required'', JBool True),
     (''style'', JStr ''simple''), (''explode'', JBool False), (''schema'', typed ''string'')]"

definition query_parameter :: "string \<Rightarrow> json \<Rightarrow> json" where
  "query_parameter name s = JObj [(''name'', JStr name), (''in'', JStr ''query''), (''required'', JBool False),
     (''style'', JStr ''form''), (''explode'', JBool True), (''schema'', s)]"

text \<open>The parameters of the operations that take a query, as \<open>QuerySpecDto\<close> declares them.\<close>

definition query_parameters :: json where
  "query_parameters = JArr [query_parameter ''offset'' (formatted ''integer'' ''int32''),
     query_parameter ''limit'' (formatted ''integer'' ''int32''),
     query_parameter ''filter'' (typed ''string''),
     query_parameter ''sort'' (JObj [(''type'', JStr ''string''), (''enum'', JArr [JStr ''ASC'', JStr ''DESC''])]),
     query_parameter ''sortField'' (typed ''string'')]"

section \<open>Operations of a document\<close>

text \<open>Every operation with its path and its method.\<close>

definition operations :: "json \<Rightarrow> (string \<times> string \<times> json) list" where
  "operations doc =
     concat (map (\<lambda>(p, it). map (\<lambda>(m, op). (p, m, op)) (fields it)) (subfields ''paths'' doc))"

definition operation :: "json \<Rightarrow> string \<Rightarrow> string \<Rightarrow> json option" where
  "operation doc p m = (case map_of (subfields ''paths'' doc) p of None \<Rightarrow> None | Some it \<Rightarrow> field m it)"

text \<open>The status codes an operation declares, as they are written.\<close>

definition declared_statuses :: "json \<Rightarrow> string list" where
  "declared_statuses op = map fst (subfields ''responses'' op)"

text \<open>The schema of the JSON body of a response.\<close>

definition response_schema :: "json \<Rightarrow> string \<Rightarrow> json option" where
  "response_schema op status =
     (case map_of (subfields ''responses'' op) status of
        None \<Rightarrow> None
      | Some r \<Rightarrow>
          (case map_of (subfields ''content'' r) ''application/json'' of
             None \<Rightarrow> None
           | Some c \<Rightarrow> field ''schema'' c))"

text \<open>The names in braces of a path template.\<close>

fun template_params :: "string \<Rightarrow> string list" where
  "template_params [] = []"
| "template_params (c # cs) =
     (if c = CHR ''{'' then takeWhile (\<lambda>x. x \<noteq> CHR ''}'') cs # template_params cs
      else template_params cs)"

definition path_parameters :: "json \<Rightarrow> json list" where
  "path_parameters op = filter (\<lambda>q. string_field ''in'' q = Some ''path'') (field_list ''parameters'' op)"

definition parameters_ok :: "string \<Rightarrow> json \<Rightarrow> bool" where
  "parameters_ok p op \<longleftrightarrow>
     map (string_field ''name'') (path_parameters op) = map Some (template_params p) \<and>
     list_all (\<lambda>q. field ''required'' q = Some (JBool True)) (path_parameters op)"

section \<open>References\<close>

definition ref_prefix :: string where
  "ref_prefix = ''#/components/schemas/''"

definition resolve :: "(string \<times> json) list \<Rightarrow> string \<Rightarrow> json option" where
  "resolve schemas r =
     (if take (length ref_prefix) r = ref_prefix then map_of schemas (drop (length ref_prefix) r)
      else None)"

definition schemas_of :: "json \<Rightarrow> (string \<times> json) list" where
  "schemas_of doc = (case field ''components'' doc of None \<Rightarrow> [] | Some c \<Rightarrow> subfields ''schemas'' c)"

text \<open>A schema, or the one it refers to.\<close>

definition deref :: "(string \<times> json) list \<Rightarrow> json \<Rightarrow> json option" where
  "deref schemas s =
     (case string_field ''$ref'' s of None \<Rightarrow> Some s | Some r \<Rightarrow> resolve schemas r)"

section \<open>Validation\<close>

text \<open>
  A value against a schema, with the keywords the document uses: \<open>type\<close>, \<open>enum\<close>, \<open>required\<close>,
  \<open>properties\<close>, \<open>items\<close> and \<open>additionalProperties\<close>; \<open>format\<close> and \<open>discriminator\<close> are
  annotations. By default a field that is not declared is allowed; in the \<open>closed\<close> reading it is
  not, unless the schema is a free-form object, so that a value carries what its schema documents
  and nothing else. A null value is no value of any type, as no schema is nullable. The value
  shrinks in every recursive call, so schemas may refer to themselves.
\<close>

definition type_ok :: "string option \<Rightarrow> json \<Rightarrow> bool" where
  "type_ok t v =
     (case v of
        JNull \<Rightarrow> False
      | JBool _ \<Rightarrow> t = Some ''boolean''
      | JNum _ \<Rightarrow> t = Some ''integer''
      | JStr _ \<Rightarrow> t = Some ''string''
      | JArr _ \<Rightarrow> t = Some ''array''
      | JObj _ \<Rightarrow> t = Some ''object'')"

definition enum_ok :: "json \<Rightarrow> json \<Rightarrow> bool" where
  "enum_ok s v = (case field ''enum'' s of None \<Rightarrow> True | Some e \<Rightarrow> v \<in> set (elements e))"

definition required_ok :: "json \<Rightarrow> json \<Rightarrow> bool" where
  "required_ok s v = list_all (\<lambda>r. list_all (\<lambda>k. field k v \<noteq> None) (strings r)) (field_list ''required'' s)"

text \<open>The schema of a field of an object; \<open>None\<close> when the field is not allowed.\<close>

definition field_schema :: "json \<Rightarrow> string \<Rightarrow> json option" where
  "field_schema s k =
     (case map_of (subfields ''properties'' s) k of
        Some fs \<Rightarrow> Some fs
      | None \<Rightarrow> field ''additionalProperties'' s)"

definition any_object :: "json \<Rightarrow> bool" where
  "any_object s \<longleftrightarrow> field ''properties'' s = None \<and> field ''additionalProperties'' s = None"

lemma json_size_field: "p \<in> set fs \<Longrightarrow> size (snd p) < size (JObj fs)"
proof (induction fs)
  case (Cons q fs)
  then show ?case by (cases q) auto
qed simp

lemma json_size_element: "v \<in> set vs \<Longrightarrow> size v < size (JArr vs)"
  by (induction vs) auto

function conforms :: "bool \<Rightarrow> (string \<times> json) list \<Rightarrow> json \<Rightarrow> json \<Rightarrow> bool" where
  "conforms closed schemas s v =
     (case deref schemas s of
        None \<Rightarrow> False
      | Some s' \<Rightarrow>
          type_ok (string_field ''type'' s') v \<and> enum_ok s' v \<and> required_ok s' v \<and>
          (case v of
             JArr vs \<Rightarrow>
               (case field ''items'' s' of
                  None \<Rightarrow> True
                | Some si \<Rightarrow> (\<forall>x \<in> set vs. conforms closed schemas si x))
           | JObj fs \<Rightarrow>
               (\<forall>p \<in> set fs. case field_schema s' (fst p) of
                  None \<Rightarrow> \<not> closed \<or> any_object s'
                | Some sf \<Rightarrow> conforms closed schemas sf (snd p))
           | _ \<Rightarrow> True))"
  by pat_completeness auto

termination
  by (relation "measure (\<lambda>(closed, schemas, s, v). size v)") (auto simp del: json.size dest: json_size_field json_size_element)

declare conforms.simps [simp del]

text \<open>What conforms in the closed reading conforms.\<close>

lemma closed_conforms: "conforms True schemas s v \<Longrightarrow> conforms False schemas s v"
proof (induction v arbitrary: s rule: measure_induct_rule [where f = size])
  case (less v)
  from less.prems obtain s' where s': "deref schemas s = Some s'"
    by (auto simp: conforms.simps split: option.splits)
  show ?case
  proof (cases v)
    case (JArr vs)
    with less s' show ?thesis
      using json_size_element [of _ vs]
      by (auto simp: conforms.simps [of _ _ s] simp del: json.size split: option.splits)
  next
    case (JObj fs)
    have "conforms False schemas sf (snd p)" if "p \<in> set fs" "conforms True schemas sf (snd p)" for sf p
      using less.IH [OF _ that(2)] json_size_field [OF that(1)] by (simp add: JObj)
    with less.prems s' JObj show ?thesis
      by (fastforce simp: conforms.simps [of _ _ s] split: option.splits)
  qed (use less.prems s' in \<open>auto simp: conforms.simps [of _ _ s]\<close>)
qed

end
