(* ===== verification/Api_Schemas.thy ===== *)
theory Api_Schemas
  imports Api_Json
begin

text \<open>
  The schemas of \<open>docs/swaggerui/swagger-spec.js\<close>, \<open>components.schemas\<close>, one definition each.
\<close>

definition schema_Action :: json where
  "schema_Action =
     JObj [
       (''type'', JStr ''object''),
       (''properties'', JObj [
         (''constraint'', schema_ref ''Constraint''),
         (''includedIn'', typed ''string''),
         (''type'', typed ''string'')])]"

definition schema_ApiErrorDetail :: json where
  "schema_ApiErrorDetail =
     JObj [
       (''type'', JStr ''object''),
       (''properties'', JObj [
         (''invalidValue'', typed ''string''),
         (''message'', typed ''string''),
         (''path'', typed ''string''),
         (''type'', typed ''string'')])]"

definition schema_Asset :: json where
  "schema_Asset =
     JObj [
       (''type'', JStr ''object''),
       (''properties'', JObj [(''properties'', map_of_type ''object'')])]"

definition schema_AssetDto :: json where
  "schema_AssetDto =
     JObj [
       (''required'', JArr [JStr ''properties'']),
       (''type'', JStr ''object''),
       (''properties'', JObj [(''properties'', map_of_type ''object'')])]"

definition schema_AssetEntryDto :: json where
  "schema_AssetEntryDto =
     JObj [
       (''required'', JArr [JStr ''asset'', JStr ''dataAddress'']),
       (''type'', JStr ''object''),
       (''properties'', JObj [
         (''asset'', schema_ref ''AssetDto''),
         (''dataAddress'', schema_ref ''DataAddressDto'')])]"

definition schema_Catalog :: json where
  "schema_Catalog =
     JObj [
       (''type'', JStr ''object''),
       (''properties'', JObj [
         (''contractOffers'', array_of (schema_ref ''ContractOffer'')),
         (''id'', typed ''string'')])]"

definition schema_Constraint :: json where
  "schema_Constraint =
     JObj [
       (''required'', JArr [JStr ''edctype'']),
       (''type'', JStr ''object''),
       (''properties'', JObj [(''edctype'', typed ''string'')]),
       (''discriminator'', JObj [(''propertyName'', JStr ''edctype'')])]"

definition schema_ContractAgreementDto :: json where
  "schema_ContractAgreementDto =
     JObj [
       (''required'', JArr [
         JStr ''assetId'',
         JStr ''consumerAgentId'',
         JStr ''id'',
         JStr ''policy'',
         JStr ''providerAgentId'']),
       (''type'', JStr ''object''),
       (''properties'', JObj [
         (''assetId'', typed ''string''),
         (''consumerAgentId'', typed ''string''),
         (''contractEndDate'', formatted ''integer'' ''int64''),
         (''contractSigningDate'', formatted ''integer'' ''int64''),
         (''contractStartDate'', formatted ''integer'' ''int64''),
         (''id'', typed ''string''),
         (''policy'', schema_ref ''Policy''),
         (''providerAgentId'', typed ''string'')])]"

definition schema_ContractDefinitionDto :: json where
  "schema_ContractDefinitionDto =
     JObj [
       (''required'', JArr [
         JStr ''accessPolicyId'',
         JStr ''contractPolicyId'',
         JStr ''criteria'',
         JStr ''id'']),
       (''type'', JStr ''object''),
       (''properties'', JObj [
         (''accessPolicyId'', typed ''string''),
         (''contractPolicyId'', typed ''string''),
         (''criteria'', array_of (schema_ref ''Criterion'')),
         (''id'', typed ''string'')])]"

definition schema_ContractNegotiationDto :: json where
  "schema_ContractNegotiationDto =
     JObj [
       (''type'', JStr ''object''),
       (''properties'', JObj [
         (''contractAgreementId'', typed ''string''),
         (''counterPartyAddress'', typed ''string''),
         (''errorDetail'', typed ''string''),
         (''id'', typed ''string''),
         (''protocol'', typed ''string''),
         (''state'', typed ''string''),
         (''type'', JObj [
           (''type'', JStr ''string''),
           (''enum'', JArr [JStr ''CONSUMER'', JStr ''PROVIDER''])])])]"

definition schema_ContractOffer :: json where
  "schema_ContractOffer =
     JObj [
       (''type'', JStr ''object''),
       (''properties'', JObj [
         (''asset'', schema_ref ''Asset''),
         (''assetId'', typed ''string''),
         (''consumer'', formatted ''string'' ''uri''),
         (''contractEnd'', formatted ''string'' ''date-time''),
         (''contractStart'', formatted ''string'' ''date-time''),
         (''id'', typed ''string''),
         (''offerEnd'', formatted ''string'' ''date-time''),
         (''offerStart'', formatted ''string'' ''date-time''),
         (''policy'', schema_ref ''Policy''),
         (''provider'', formatted ''string'' ''uri'')])]"

definition schema_ContractOfferDescription :: json where
  "schema_ContractOfferDescription =
     JObj [
       (''required'', JArr [JStr ''assetId'', JStr ''offerId'', JStr ''policy'']),
       (''type'', JStr ''object''),
       (''properties'', JObj [
         (''assetId'', typed ''string''),
         (''offerId'', typed ''string''),
         (''policy'', schema_ref ''Policy'')])]"

definition schema_Criterion :: json where
  "schema_Criterion =
     JObj [
       (''type'', JStr ''object''),
       (''properties'', JObj [
         (''operandLeft'', typed ''object''),
         (''operandRight'', typed ''object''),
         (''operator'', typed ''string'')])]"

definition schema_DataAddress :: json where
  "schema_DataAddress =
     JObj [
       (''type'', JStr ''object''),
       (''properties'', JObj [(''properties'', map_of_type ''string'')])]"

definition schema_DataAddressDto :: json where
  "schema_DataAddressDto =
     JObj [
       (''type'', JStr ''object''),
       (''properties'', JObj [(''properties'', map_of_type ''string'')])]"

definition schema_DataAddressInformationDto :: json where
  "schema_DataAddressInformationDto =
     JObj [
       (''type'', JStr ''object''),
       (''properties'', JObj [(''properties'', map_of_type ''string'')])]"

definition schema_DataFlowRequest :: json where
  "schema_DataFlowRequest =
     JObj [
       (''type'', JStr ''object''),
       (''properties'', JObj [
         (''destinationDataAddress'', schema_ref ''DataAddress''),
         (''id'', typed ''string''),
         (''processId'', typed ''string''),
         (''properties'', map_of_type ''string''),
         (''sourceDataAddress'', schema_ref ''DataAddress''),
         (''traceContext'', map_of_type ''string''),
         (''trackable'', typed ''boolean'')])]"

definition schema_DataPlaneInstance :: json where
  "schema_DataPlaneInstance =
     JObj [
       (''type'', JStr ''object''),
       (''properties'', JObj [
         (''id'', typed ''string''),
         (''lastActive'', formatted ''integer'' ''int64''),
         (''properties'', map_of_type ''object''),
         (''turnCount'', formatted ''integer'' ''int32''),
         (''url'', formatted ''string'' ''url'')])]"

definition schema_DataRequestDto :: json where
  "schema_DataRequestDto =
     JObj [
       (''type'', JStr ''object''),
       (''properties'', JObj [
         (''assetId'', typed ''string''),
         (''connectorId'', typed ''string''),
         (''contractId'', typed ''string'')])]"

definition schema_DeprovisionedResource :: json where
  "schema_DeprovisionedResource =
     JObj [
       (''type'', JStr ''object''),
       (''properties'', JObj [
         (''error'', typed ''boolean''),
         (''errorMessage'', typed ''string''),
         (''inProcess'', typed ''boolean''),
         (''provisionedResourceId'', typed ''string'')])]"

definition schema_Duty :: json where
  "schema_Duty =
     JObj [
       (''type'', JStr ''object''),
       (''properties'', JObj [
         (''action'', schema_ref ''Action''),
         (''assignee'', typed ''string''),
         (''assigner'', typed ''string''),
         (''consequence'', schema_ref ''Duty''),
         (''constraints'', array_of (schema_ref ''Constraint'')),
         (''parentPermission'', schema_ref ''Permission''),
         (''target'', typed ''string''),
         (''uid'', typed ''string'')])]"

definition schema_Failure :: json where
  "schema_Failure =
     JObj [
       (''type'', JStr ''object''),
       (''properties'', JObj [(''messages'', array_of (typed ''string''))])]"

definition schema_FederatedCatalogCacheQuery :: json where
  "schema_FederatedCatalogCacheQuery =
     JObj [
       (''type'', JStr ''object''),
       (''properties'', JObj [(''criteria'', array_of (schema_ref ''Criterion''))])]"

definition schema_HealthCheckResult :: json where
  "schema_HealthCheckResult =
     JObj [
       (''type'', JStr ''object''),
       (''properties'', JObj [
         (''component'', typed ''string''),
         (''failure'', schema_ref ''Failure''),
         (''isHealthy'', typed ''boolean'')])]"

definition schema_HealthStatus :: json where
  "schema_HealthStatus =
     JObj [
       (''type'', JStr ''object''),
       (''properties'', JObj [
         (''componentResults'', array_of (schema_ref ''HealthCheckResult'')),
         (''isSystemHealthy'', typed ''boolean'')])]"

definition schema_NegotiationId :: json where
  "schema_NegotiationId =
     JObj [
       (''type'', JStr ''object''),
       (''properties'', JObj [(''id'', typed ''string'')])]"

definition schema_NegotiationInitiateRequestDto :: json where
  "schema_NegotiationInitiateRequestDto =
     JObj [
       (''required'', JArr [
         JStr ''connectorAddress'',
         JStr ''connectorId'',
         JStr ''offer'',
         JStr ''protocol'']),
       (''type'', JStr ''object''),
       (''properties'', JObj [
         (''connectorAddress'', typed ''string''),
         (''connectorId'', typed ''string''),
         (''offer'', schema_ref ''ContractOfferDescription''),
         (''protocol'', typed ''string'')])]"

definition schema_NegotiationState :: json where
  "schema_NegotiationState =
     JObj [
       (''type'', JStr ''object''),
       (''properties'', JObj [(''state'', typed ''string'')])]"

definition schema_Permission :: json where
  "schema_Permission =
     JObj [
       (''type'', JStr ''object''),
       (''properties'', JObj [
         (''action'', schema_ref ''Action''),
         (''assignee'', typed ''string''),
         (''assigner'', typed ''string''),
         (''constraints'', array_of (schema_ref ''Constraint'')),
         (''duties'', array_of (schema_ref ''Duty'')),
         (''target'', typed ''string''),
         (''uid'', typed ''string'')])]"

definition schema_Policy :: json where
  "schema_Policy =
     JObj [
       (''type'', JStr ''object''),
       (''properties'', JObj [
         (''@type'', JObj [
           (''type'', JStr ''string''),
           (''enum'', JArr [JStr ''SET'', JStr ''OFFER'', JStr ''CONTRACT''])]),
         (''assignee'', typed ''string''),
         (''assigner'', typed ''string''),
         (''extensibleProperties'', map_of_type ''object''),
         (''inheritsFrom'', typed ''string''),
         (''obligations'', array_of (schema_ref ''Duty'')),
         (''permissions'', array_of (schema_ref ''Permission'')),
         (''prohibitions'', array_of (schema_ref ''Prohibition'')),
         (''target'', typed ''string'')])]"

definition schema_PolicyDefinition :: json where
  "schema_PolicyDefinition =
     JObj [
       (''type'', JStr ''object''),
       (''properties'', JObj [(''policy'', schema_ref ''Policy''), (''uid'', typed ''string'')])]"

definition schema_Prohibition :: json where
  "schema_Prohibition =
     JObj [
       (''type'', JStr ''object''),
       (''properties'', JObj [
         (''action'', schema_ref ''Action''),
         (''assignee'', typed ''string''),
         (''assigner'', typed ''string''),
         (''constraints'', array_of (schema_ref ''Constraint'')),
         (''target'', typed ''string''),
         (''uid'', typed ''string'')])]"

definition schema_ProvisionerWebhookRequest :: json where
  "schema_ProvisionerWebhookRequest =
     JObj [
       (''required'', JArr [
         JStr ''apiKeyJwt'',
         JStr ''assetId'',
         JStr ''contentDataAddress'',
         JStr ''resourceDefinitionId'',
         JStr ''resourceName'']),
       (''type'', JStr ''object''),
       (''properties'', JObj [
         (''apiKeyJwt'', typed ''string''),
         (''assetId'', typed ''string''),
         (''contentDataAddress'', schema_ref ''DataAddress''),
         (''hasToken'', typed ''boolean''),
         (''resourceDefinitionId'', typed ''string''),
         (''resourceName'', typed ''string'')])]"

definition schema_SelectionRequest :: json where
  "schema_SelectionRequest =
     JObj [
       (''type'', JStr ''object''),
       (''properties'', JObj [
         (''destination'', schema_ref ''DataAddress''),
         (''source'', schema_ref ''DataAddress''),
         (''strategy'', typed ''string'')])]"

definition schema_TransferId :: json where
  "schema_TransferId =
     JObj [
       (''type'', JStr ''object''),
       (''properties'', JObj [(''id'', typed ''string'')])]"

definition schema_TransferProcessDto :: json where
  "schema_TransferProcessDto =
     JObj [
       (''type'', JStr ''object''),
       (''properties'', JObj [
         (''createdTimestamp'', formatted ''integer'' ''int64''),
         (''dataDestination'', schema_ref ''DataAddressInformationDto''),
         (''dataRequest'', schema_ref ''DataRequestDto''),
         (''errorDetail'', typed ''string''),
         (''id'', typed ''string''),
         (''state'', typed ''string''),
         (''stateTimestamp'', formatted ''integer'' ''int64''),
         (''type'', typed ''string'')])]"

definition schema_TransferRequestDto :: json where
  "schema_TransferRequestDto =
     JObj [
       (''required'', JArr [
         JStr ''assetId'',
         JStr ''connectorAddress'',
         JStr ''connectorId'',
         JStr ''contractId'',
         JStr ''dataDestination'',
         JStr ''protocol'',
         JStr ''transferType'']),
       (''type'', JStr ''object''),
       (''properties'', JObj [
         (''assetId'', typed ''string''),
         (''connectorAddress'', typed ''string''),
         (''connectorId'', typed ''string''),
         (''contractId'', typed ''string''),
         (''dataDestination'', schema_ref ''DataAddress''),
         (''id'', typed ''string''),
         (''managedResources'', typed ''boolean''),
         (''properties'', map_of_type ''string''),
         (''protocol'', typed ''string''),
         (''transferType'', schema_ref ''TransferType'')])]"

definition schema_TransferState :: json where
  "schema_TransferState =
     JObj [
       (''type'', JStr ''object''),
       (''properties'', JObj [(''state'', typed ''string'')])]"

definition schema_TransferType :: json where
  "schema_TransferType =
     JObj [
       (''type'', JStr ''object''),
       (''properties'', JObj [(''contentType'', typed ''string''), (''isFinite'', typed ''boolean'')])]"

text \<open>All schemas, by name, in the order of the document.\<close>

definition api_schemas :: "(string \<times> json) list" where
  "api_schemas =
     [(''Action'', schema_Action),
      (''ApiErrorDetail'', schema_ApiErrorDetail),
      (''Asset'', schema_Asset),
      (''AssetDto'', schema_AssetDto),
      (''AssetEntryDto'', schema_AssetEntryDto),
      (''Catalog'', schema_Catalog),
      (''Constraint'', schema_Constraint),
      (''ContractAgreementDto'', schema_ContractAgreementDto),
      (''ContractDefinitionDto'', schema_ContractDefinitionDto),
      (''ContractNegotiationDto'', schema_ContractNegotiationDto),
      (''ContractOffer'', schema_ContractOffer),
      (''ContractOfferDescription'', schema_ContractOfferDescription),
      (''Criterion'', schema_Criterion),
      (''DataAddress'', schema_DataAddress),
      (''DataAddressDto'', schema_DataAddressDto),
      (''DataAddressInformationDto'', schema_DataAddressInformationDto),
      (''DataFlowRequest'', schema_DataFlowRequest),
      (''DataPlaneInstance'', schema_DataPlaneInstance),
      (''DataRequestDto'', schema_DataRequestDto),
      (''DeprovisionedResource'', schema_DeprovisionedResource),
      (''Duty'', schema_Duty),
      (''Failure'', schema_Failure),
      (''FederatedCatalogCacheQuery'', schema_FederatedCatalogCacheQuery),
      (''HealthCheckResult'', schema_HealthCheckResult),
      (''HealthStatus'', schema_HealthStatus),
      (''NegotiationId'', schema_NegotiationId),
      (''NegotiationInitiateRequestDto'', schema_NegotiationInitiateRequestDto),
      (''NegotiationState'', schema_NegotiationState),
      (''Permission'', schema_Permission),
      (''Policy'', schema_Policy),
      (''PolicyDefinition'', schema_PolicyDefinition),
      (''Prohibition'', schema_Prohibition),
      (''ProvisionerWebhookRequest'', schema_ProvisionerWebhookRequest),
      (''SelectionRequest'', schema_SelectionRequest),
      (''TransferId'', schema_TransferId),
      (''TransferProcessDto'', schema_TransferProcessDto),
      (''TransferRequestDto'', schema_TransferRequestDto),
      (''TransferState'', schema_TransferState),
      (''TransferType'', schema_TransferType)]"

lemmas schema_defs =
  schema_Action_def
  schema_ApiErrorDetail_def
  schema_Asset_def
  schema_AssetDto_def
  schema_AssetEntryDto_def
  schema_Catalog_def
  schema_Constraint_def
  schema_ContractAgreementDto_def
  schema_ContractDefinitionDto_def
  schema_ContractNegotiationDto_def
  schema_ContractOffer_def
  schema_ContractOfferDescription_def
  schema_Criterion_def
  schema_DataAddress_def
  schema_DataAddressDto_def
  schema_DataAddressInformationDto_def
  schema_DataFlowRequest_def
  schema_DataPlaneInstance_def
  schema_DataRequestDto_def
  schema_DeprovisionedResource_def
  schema_Duty_def
  schema_Failure_def
  schema_FederatedCatalogCacheQuery_def
  schema_HealthCheckResult_def
  schema_HealthStatus_def
  schema_NegotiationId_def
  schema_NegotiationInitiateRequestDto_def
  schema_NegotiationState_def
  schema_Permission_def
  schema_Policy_def
  schema_PolicyDefinition_def
  schema_Prohibition_def
  schema_ProvisionerWebhookRequest_def
  schema_SelectionRequest_def
  schema_TransferId_def
  schema_TransferProcessDto_def
  schema_TransferRequestDto_def
  schema_TransferState_def
  schema_TransferType_def

end
