(* ===== verification/Api_Paths_Management.thy ===== *)
theory Api_Paths_Management
  imports Api_Json
begin

text \<open>
  The paths of the data management API in \<open>docs/swaggerui/swagger-spec.js\<close>, one definition each.
\<close>

definition path_policydefinitions :: json where
  "path_policydefinitions =
     JObj [
       (''get'', JObj [
         (''tags'', JArr [JStr ''Policy'']),
         (''description'', JStr ''Returns all policy definitions according to a query''),
         (''operationId'', JStr ''getAllPolicies''),
         (''parameters'', query_parameters),
         (''responses'', JObj [
           (''200'', JObj [
             (''content'', json_content (array_of (schema_ref ''PolicyDefinition'')))]),
           (''400'', JObj [
             (''description'', JStr ''Request was malformed''),
             (''content'', api_errors)])])]),
       (''post'', JObj [
         (''tags'', JArr [JStr ''Policy'']),
         (''description'', JStr ''Creates a new policy definition''),
         (''operationId'', JStr ''createPolicy''),
         (''requestBody'', JObj [(''content'', json_content (schema_ref ''PolicyDefinition''))]),
         (''responses'', JObj [
           (''200'', JObj [
             (''description'', JStr ''policy definition was created successfully'')]),
           (''400'', JObj [
             (''description'', JStr ''Request body was malformed''),
             (''content'', api_errors)]),
           (''409'', JObj [
             (''description'', JStr ''Could not create policy definition, because a contract definition with that ID already exists''),
             (''content'', api_errors)])])])]"

definition path_policydefinitions_id :: json where
  "path_policydefinitions_id =
     JObj [
       (''get'', JObj [
         (''tags'', JArr [JStr ''Policy'']),
         (''description'', JStr ''Gets a policy definition with the given ID''),
         (''operationId'', JStr ''getPolicy''),
         (''parameters'', JArr [id_parameter ''id'']),
         (''responses'', JObj [
           (''200'', JObj [
             (''description'', JStr ''The  policy definition''),
             (''content'', json_content (schema_ref ''PolicyDefinition''))]),
           (''400'', JObj [
             (''description'', JStr ''Request was malformed, e.g. id was null''),
             (''content'', api_errors)]),
           (''404'', JObj [
             (''description'', JStr ''An  policy definition with the given ID does not exist''),
             (''content'', api_errors)])])]),
       (''delete'', JObj [
         (''tags'', JArr [JStr ''Policy'']),
         (''description'', JStr ''Removes a policy definition with the given ID if possible. Deleting a policy definition is only possible if that policy definition is not yet referenced by a contract definition, in which case an error is returned. DANGER ZONE: Note that deleting policy definitions can have unexpected results, do this at your own risk!''),
         (''operationId'', JStr ''deletePolicy''),
         (''parameters'', JArr [id_parameter ''id'']),
         (''responses'', JObj [
           (''200'', JObj [
             (''description'', JStr ''Policy definition was deleted successfully'')]),
           (''400'', JObj [
             (''description'', JStr ''Request was malformed, e.g. id was null''),
             (''content'', api_errors)]),
           (''404'', JObj [
             (''description'', JStr ''An policy definition with the given ID does not exist''),
             (''content'', api_errors)]),
           (''409'', JObj [
             (''description'', JStr ''The policy definition cannot be deleted, because it is referenced by a contract definition''),
             (''content'', api_errors)])])])]"

definition path_contractnegotiations :: json where
  "path_contractnegotiations =
     JObj [
       (''get'', JObj [
         (''tags'', JArr [JStr ''Contract Negotiation'']),
         (''description'', JStr ''Returns all contract negotiations according to a query''),
         (''operationId'', JStr ''getNegotiations''),
         (''parameters'', query_parameters),
         (''responses'', JObj [
           (''200'', JObj [
             (''content'', json_content (array_of (schema_ref ''ContractNegotiationDto'')))]),
           (''400'', JObj [
             (''description'', JStr ''Request was malformed''),
             (''content'', api_errors)])])]),
       (''post'', JObj [
         (''tags'', JArr [JStr ''Contract Negotiation'']),
         (''description'', JStr ''Initiates a contract negotiation for a given offer and with the given counter part. Please note that successfully invoking this endpoint only means that the negotiation was initiated. Clients must poll the /{id}/state endpoint to track the state''),
         (''operationId'', JStr ''initiateContractNegotiation''),
         (''requestBody'', JObj [
           (''content'', json_content (schema_ref ''NegotiationInitiateRequestDto''))]),
         (''responses'', JObj [
           (''200'', JObj [
             (''description'', JStr ''The negotiation was successfully initiated. Returns the contract negotiation ID''),
             (''content'', json_content (schema_ref ''NegotiationId'')),
             (''links'', JObj [
               (''poll-state'', JObj [
                 (''operationId'', JStr ''getNegotiationState''),
                 (''parameters'', JObj [(''id'', JStr ''$response.body#/id'')])])])]),
           (''400'', JObj [
             (''description'', JStr ''Request body was malformed''),
             (''content'', api_errors)])])])]"

definition path_contractnegotiations_id :: json where
  "path_contractnegotiations_id =
     JObj [
       (''get'', JObj [
         (''tags'', JArr [JStr ''Contract Negotiation'']),
         (''description'', JStr ''Gets an contract negotiation with the given ID''),
         (''operationId'', JStr ''getNegotiation''),
         (''parameters'', JArr [id_parameter ''id'']),
         (''responses'', JObj [
           (''200'', JObj [
             (''description'', JStr ''The contract negotiation''),
             (''content'', json_content (schema_ref ''ContractNegotiationDto''))]),
           (''400'', JObj [
             (''description'', JStr ''Request was malformed, e.g. id was null''),
             (''content'', api_errors)]),
           (''404'', JObj [
             (''description'', JStr ''An contract negotiation with the given ID does not exist''),
             (''content'', api_errors)])])])]"

definition path_contractnegotiations_id_agreement :: json where
  "path_contractnegotiations_id_agreement =
     JObj [
       (''get'', JObj [
         (''tags'', JArr [JStr ''Contract Negotiation'']),
         (''description'', JStr ''Gets a contract agreement for a contract negotiation with the given ID''),
         (''operationId'', JStr ''getAgreementForNegotiation''),
         (''parameters'', JArr [id_parameter ''id'']),
         (''responses'', JObj [
           (''200'', JObj [
             (''description'', JStr ''The contract agreement that is attached to the negotiation, or null''),
             (''content'', json_content (schema_ref ''ContractNegotiationDto''))]),
           (''400'', JObj [
             (''description'', JStr ''Request was malformed, e.g. id was null''),
             (''content'', api_errors)]),
           (''404'', JObj [
             (''description'', JStr ''An contract negotiation with the given ID does not exist''),
             (''content'', api_errors)])])])]"

definition path_contractnegotiations_id_cancel :: json where
  "path_contractnegotiations_id_cancel =
     JObj [
       (''post'', JObj [
         (''tags'', JArr [JStr ''Contract Negotiation'']),
         (''description'', JStr ''Requests aborting the contract negotiation. Due to the asynchronous nature of contract negotiations, a successful response only indicates that the request was successfully received. Clients must poll the /{id}/state endpoint to track the state.''),
         (''operationId'', JStr ''cancelNegotiation''),
         (''parameters'', JArr [id_parameter ''id'']),
         (''responses'', JObj [
           (''200'', JObj [
             (''description'', JStr ''Request to cancel the Contract negotiation was successfully received''),
             (''links'', JObj [
               (''poll-state'', JObj [(''operationId'', JStr ''getNegotiationState'')])])]),
           (''400'', JObj [
             (''description'', JStr ''Request was malformed, e.g. id was null''),
             (''content'', api_errors)]),
           (''404'', JObj [
             (''description'', JStr ''A contract negotiation with the given ID does not exist''),
             (''content'', api_errors)])])])]"

definition path_contractnegotiations_id_decline :: json where
  "path_contractnegotiations_id_decline =
     JObj [
       (''post'', JObj [
         (''tags'', JArr [JStr ''Contract Negotiation'']),
         (''description'', JStr ''Requests cancelling the contract negotiation. Due to the asynchronous nature of contract negotiations, a successful response only indicates that the request was successfully received. Clients must poll the /{id}/state endpoint to track the state.''),
         (''operationId'', JStr ''declineNegotiation''),
         (''parameters'', JArr [id_parameter ''id'']),
         (''responses'', JObj [
           (''200'', JObj [
             (''description'', JStr ''Request to decline the Contract negotiation was successfully received''),
             (''links'', JObj [
               (''poll-state'', JObj [(''operationId'', JStr ''getNegotiationState'')])])]),
           (''400'', JObj [
             (''description'', JStr ''Request was malformed, e.g. id was null''),
             (''content'', api_errors)]),
           (''404'', JObj [
             (''description'', JStr ''A contract negotiation with the given ID does not exist''),
             (''content'', api_errors)])])])]"

definition path_contractnegotiations_id_state :: json where
  "path_contractnegotiations_id_state =
     JObj [
       (''get'', JObj [
         (''tags'', JArr [JStr ''Contract Negotiation'']),
         (''description'', JStr ''Gets the state of a contract negotiation with the given ID''),
         (''operationId'', JStr ''getNegotiationState''),
         (''parameters'', JArr [id_parameter ''id'']),
         (''responses'', JObj [
           (''200'', JObj [
             (''description'', JStr ''The contract negotiation's state''),
             (''content'', json_content (schema_ref ''NegotiationState''))]),
           (''400'', JObj [
             (''description'', JStr ''Request was malformed, e.g. id was null''),
             (''content'', api_errors)]),
           (''404'', JObj [
             (''description'', JStr ''An contract negotiation with the given ID does not exist''),
             (''content'', api_errors)])])])]"

definition path_transferprocess :: json where
  "path_transferprocess =
     JObj [
       (''get'', JObj [
         (''tags'', JArr [JStr ''Transfer Process'']),
         (''description'', JStr ''Returns all transfer process according to a query''),
         (''operationId'', JStr ''getAllTransferProcesses''),
         (''parameters'', query_parameters),
         (''responses'', JObj [
           (''200'', JObj [
             (''content'', json_content (array_of (schema_ref ''TransferProcessDto'')))]),
           (''400'', JObj [
             (''description'', JStr ''Request was malformed''),
             (''content'', api_errors)])])]),
       (''post'', JObj [
         (''tags'', JArr [JStr ''Transfer Process'']),
         (''description'', JStr ''Initiates a data transfer with the given parameters. Please note that successfully invoking this endpoint only means that the transfer was initiated. Clients must poll the /{id}/state endpoint to track the state''),
         (''operationId'', JStr ''initiateTransfer''),
         (''requestBody'', JObj [(''content'', json_content (schema_ref ''TransferRequestDto''))]),
         (''responses'', JObj [
           (''200'', JObj [
             (''description'', JStr ''The transfer was successfully initiated. Returns the transfer process ID''),
             (''content'', json_content (schema_ref ''TransferId'')),
             (''links'', JObj [
               (''poll-state'', JObj [
                 (''operationId'', JStr ''getTransferProcessState''),
                 (''parameters'', JObj [(''id'', JStr ''$response.body#/id'')])])])]),
           (''400'', JObj [
             (''description'', JStr ''Request body was malformed''),
             (''content'', api_errors)])])])]"

definition path_transferprocess_id :: json where
  "path_transferprocess_id =
     JObj [
       (''get'', JObj [
         (''tags'', JArr [JStr ''Transfer Process'']),
         (''description'', JStr ''Gets an transfer process with the given ID''),
         (''operationId'', JStr ''getTransferProcess''),
         (''parameters'', JArr [id_parameter ''id'']),
         (''responses'', JObj [
           (''200'', JObj [
             (''description'', JStr ''The transfer process''),
             (''content'', json_content (schema_ref ''TransferProcessDto''))]),
           (''400'', JObj [
             (''description'', JStr ''Request was malformed, e.g. id was null''),
             (''content'', api_errors)]),
           (''404'', JObj [
             (''description'', JStr ''A transfer process with the given ID does not exist''),
             (''content'', api_errors)])])])]"

definition path_transferprocess_id_cancel :: json where
  "path_transferprocess_id_cancel =
     JObj [
       (''post'', JObj [
         (''tags'', JArr [JStr ''Transfer Process'']),
         (''description'', JStr ''Requests aborting the transfer process. Due to the asynchronous nature of transfers, a successful response only indicates that the request was successfully received. Clients must poll the /{id}/state endpoint to track the state.''),
         (''operationId'', JStr ''cancelTransferProcess''),
         (''parameters'', JArr [id_parameter ''id'']),
         (''responses'', JObj [
           (''200'', JObj [
             (''description'', JStr ''Request to cancel the transfer process was successfully received''),
             (''links'', JObj [
               (''poll-state'', JObj [(''operationId'', JStr ''getTransferProcessState'')])])]),
           (''400'', JObj [
             (''description'', JStr ''Request was malformed, e.g. id was null''),
             (''content'', api_errors)]),
           (''404'', JObj [
             (''description'', JStr ''A contract negotiation with the given ID does not exist''),
             (''content'', api_errors)])])])]"

definition path_transferprocess_id_deprovision :: json where
  "path_transferprocess_id_deprovision =
     JObj [
       (''post'', JObj [
         (''tags'', JArr [JStr ''Transfer Process'']),
         (''description'', JStr ''Requests the deprovisioning of resources associated with a transfer process. Due to the asynchronous nature of transfers, a successful response only indicates that the request was successfully received. This may take a long time, so clients must poll the /{id}/state endpoint to track the state.''),
         (''operationId'', JStr ''deprovisionTransferProcess''),
         (''parameters'', JArr [id_parameter ''id'']),
         (''responses'', JObj [
           (''200'', JObj [
             (''description'', JStr ''Request to deprovision the transfer process was successfully received''),
             (''links'', JObj [
               (''poll-state'', JObj [(''operationId'', JStr ''getTransferProcessState'')])])]),
           (''400'', JObj [
             (''description'', JStr ''Request was malformed, e.g. id was null''),
             (''content'', api_errors)]),
           (''404'', JObj [
             (''description'', JStr ''A contract negotiation with the given ID does not exist''),
             (''content'', api_errors)])])])]"

definition path_transferprocess_id_state :: json where
  "path_transferprocess_id_state =
     JObj [
       (''get'', JObj [
         (''tags'', JArr [JStr ''Transfer Process'']),
         (''description'', JStr ''Gets the state of a transfer process with the given ID''),
         (''operationId'', JStr ''getTransferProcessState''),
         (''parameters'', JArr [id_parameter ''id'']),
         (''responses'', JObj [
           (''200'', JObj [
             (''description'', JStr ''The  transfer process's state''),
             (''content'', json_content (schema_ref ''TransferState''))]),
           (''400'', JObj [
             (''description'', JStr ''Request was malformed, e.g. id was null''),
             (''content'', api_errors)]),
           (''404'', JObj [
             (''description'', JStr ''An  transfer process with the given ID does not exist''),
             (''content'', api_errors)])])])]"

definition path_contractdefinitions :: json where
  "path_contractdefinitions =
     JObj [
       (''get'', JObj [
         (''tags'', JArr [JStr ''Contract Definition'']),
         (''description'', JStr ''Returns all contract definitions according to a query''),
         (''operationId'', JStr ''getAllContractDefinitions''),
         (''parameters'', query_parameters),
         (''responses'', JObj [
           (''200'', JObj [
             (''content'', json_content (array_of (schema_ref ''ContractDefinitionDto'')))]),
           (''400'', JObj [
             (''description'', JStr ''Request was malformed''),
             (''content'', api_errors)])])]),
       (''post'', JObj [
         (''tags'', JArr [JStr ''Contract Definition'']),
         (''description'', JStr ''Creates a new contract definition''),
         (''operationId'', JStr ''createContractDefinition''),
         (''requestBody'', JObj [
           (''content'', JObj [
             (''*/*'', JObj [(''schema'', schema_ref ''ContractDefinitionDto'')])])]),
         (''responses'', JObj [
           (''200'', JObj [
             (''description'', JStr ''contract definition was created successfully'')]),
           (''400'', JObj [
             (''description'', JStr ''Request body was malformed''),
             (''content'', api_errors)]),
           (''409'', JObj [
             (''description'', JStr ''Could not create contract definition, because a contract definition with that ID already exists''),
             (''content'', api_errors)])])])]"

definition path_contractdefinitions_id :: json where
  "path_contractdefinitions_id =
     JObj [
       (''get'', JObj [
         (''tags'', JArr [JStr ''Contract Definition'']),
         (''description'', JStr ''Gets an contract definition with the given ID''),
         (''operationId'', JStr ''getContractDefinition''),
         (''parameters'', JArr [id_parameter ''id'']),
         (''responses'', JObj [
           (''200'', JObj [
             (''description'', JStr ''The contract definition''),
             (''content'', json_content (schema_ref ''ContractDefinitionDto''))]),
           (''400'', JObj [
             (''description'', JStr ''Request was malformed, e.g. id was null''),
             (''content'', api_errors)]),
           (''404'', JObj [
             (''description'', JStr ''An contract agreement with the given ID does not exist''),
             (''content'', api_errors)])])]),
       (''delete'', JObj [
         (''tags'', JArr [JStr ''Contract Definition'']),
         (''description'', JStr ''Removes a contract definition with the given ID if possible. DANGER ZONE: Note that deleting contract definitions can have unexpected results, especially for contract offers that have been sent out or ongoing or contract negotiations.''),
         (''operationId'', JStr ''deleteContractDefinition''),
         (''parameters'', JArr [id_parameter ''id'']),
         (''responses'', JObj [
           (''200'', JObj [
             (''description'', JStr ''Contract definition was deleted successfully'')]),
           (''400'', JObj [
             (''description'', JStr ''Request was malformed, e.g. id was null''),
             (''content'', api_errors)]),
           (''404'', JObj [
             (''description'', JStr ''A contract definition with the given ID does not exist''),
             (''content'', api_errors)])])])]"

definition path_assets :: json where
  "path_assets =
     JObj [
       (''get'', JObj [
         (''tags'', JArr [JStr ''Asset'']),
         (''description'', JStr ''Gets all assets according to a particular query''),
         (''operationId'', JStr ''getAllAssets''),
         (''parameters'', query_parameters),
         (''responses'', JObj [
           (''200'', JObj [(''content'', json_content (array_of (schema_ref ''AssetDto'')))]),
           (''400'', JObj [
             (''description'', JStr ''Request body was malformed''),
             (''content'', api_errors)])])]),
       (''post'', JObj [
         (''tags'', JArr [JStr ''Asset'']),
         (''description'', JStr ''Creates a new asset together with a data address''),
         (''operationId'', JStr ''createAsset''),
         (''requestBody'', JObj [(''content'', json_content (schema_ref ''AssetEntryDto''))]),
         (''responses'', JObj [
           (''200'', JObj [(''description'', JStr ''Asset was created successfully'')]),
           (''400'', JObj [
             (''description'', JStr ''Request body was malformed''),
             (''content'', api_errors)]),
           (''409'', JObj [
             (''description'', JStr ''Could not create asset, because an asset with that ID already exists''),
             (''content'', api_errors)])])])]"

definition path_assets_id :: json where
  "path_assets_id =
     JObj [
       (''get'', JObj [
         (''tags'', JArr [JStr ''Asset'']),
         (''description'', JStr ''Gets an asset with the given ID''),
         (''operationId'', JStr ''getAsset''),
         (''parameters'', JArr [id_parameter ''id'']),
         (''responses'', JObj [
           (''200'', JObj [
             (''description'', JStr ''The asset''),
             (''content'', json_content (schema_ref ''AssetDto''))]),
           (''400'', JObj [
             (''description'', JStr ''Request was malformed, e.g. id was null''),
             (''content'', api_errors)]),
           (''404'', JObj [
             (''description'', JStr ''An asset with the given ID does not exist''),
             (''content'', api_errors)])])]),
       (''delete'', JObj [
         (''tags'', JArr [JStr ''Asset'']),
         (''description'', JStr ''Removes an asset with the given ID if possible. Deleting an asset is only possible if that asset is not yet referenced by a contract agreement, in which case an error is returned. DANGER ZONE: Note that deleting assets can have unexpected results, especially for contract offers that have been sent out or ongoing or contract negotiations.''),
         (''operationId'', JStr ''removeAsset''),
         (''parameters'', JArr [id_parameter ''id'']),
         (''responses'', JObj [
           (''200'', JObj [(''description'', JStr ''Asset was deleted successfully'')]),
           (''400'', JObj [
             (''description'', JStr ''Request was malformed, e.g. id was null''),
             (''content'', api_errors)]),
           (''404'', JObj [
             (''description'', JStr ''An asset with the given ID does not exist''),
             (''content'', api_errors)]),
           (''409'', JObj [
             (''description'', JStr ''The asset cannot be deleted, because it is referenced by a contract agreement''),
             (''content'', api_errors)])])])]"

definition path_contractagreements :: json where
  "path_contractagreements =
     JObj [
       (''get'', JObj [
         (''tags'', JArr [JStr ''Contract Agreement'']),
         (''description'', JStr ''Gets all contract agreements according to a particular query''),
         (''operationId'', JStr ''getAllAgreements''),
         (''parameters'', query_parameters),
         (''responses'', JObj [
           (''200'', JObj [
             (''content'', json_content (array_of (schema_ref ''ContractAgreementDto'')))]),
           (''400'', JObj [
             (''description'', JStr ''Request body was malformed''),
             (''content'', api_errors)])])])]"

definition path_contractagreements_id :: json where
  "path_contractagreements_id =
     JObj [
       (''get'', JObj [
         (''tags'', JArr [JStr ''Contract Agreement'']),
         (''description'', JStr ''Gets an contract agreement with the given ID''),
         (''operationId'', JStr ''getContractAgreement''),
         (''parameters'', JArr [id_parameter ''id'']),
         (''responses'', JObj [
           (''200'', JObj [
             (''description'', JStr ''The contract agreement''),
             (''content'', json_content (schema_ref ''ContractAgreementDto''))]),
           (''400'', JObj [
             (''description'', JStr ''Request was malformed, e.g. id was null''),
             (''content'', api_errors)]),
           (''404'', JObj [
             (''description'', JStr ''An contract agreement with the given ID does not exist''),
             (''content'', api_errors)])])])]"

definition path_catalog :: json where
  "path_catalog =
     JObj [
       (''get'', JObj [
         (''tags'', JArr [JStr ''Catalog'']),
         (''operationId'', JStr ''getCatalog''),
         (''parameters'', JArr [
           query_parameter ''providerUrl'' (typed ''string''),
           query_parameter ''offset'' (formatted ''integer'' ''int32''),
           query_parameter ''limit'' (formatted ''integer'' ''int32''),
           query_parameter ''filter'' (typed ''string''),
           query_parameter ''sort'' (JObj [
             (''type'', JStr ''string''),
             (''enum'', JArr [JStr ''ASC'', JStr ''DESC''])]),
           query_parameter ''sortField'' (typed ''string'')]),
         (''responses'', JObj [
           (''default'', JObj [
             (''description'', JStr ''Gets contract offers (=catalog) of a single connector''),
             (''content'', json_content (schema_ref ''Catalog''))])])])]"

lemmas management_path_defs =
  path_policydefinitions_def
  path_policydefinitions_id_def
  path_contractnegotiations_def
  path_contractnegotiations_id_def
  path_contractnegotiations_id_agreement_def
  path_contractnegotiations_id_cancel_def
  path_contractnegotiations_id_decline_def
  path_contractnegotiations_id_state_def
  path_transferprocess_def
  path_transferprocess_id_def
  path_transferprocess_id_cancel_def
  path_transferprocess_id_deprovision_def
  path_transferprocess_id_state_def
  path_contractdefinitions_def
  path_contractdefinitions_id_def
  path_assets_def
  path_assets_id_def
  path_contractagreements_def
  path_contractagreements_id_def
  path_catalog_def

end
