(* ===== verification/Api_Paths_Other.thy ===== *)
theory Api_Paths_Other
  imports Api_Json
begin

text \<open>
  The other paths of \<open>docs/swaggerui/swagger-spec.js\<close>: federated catalog, data plane and its
  selector, health checks, the identity hub and the callbacks of the provisioner.
\<close>

definition path_federatedcatalog :: json where
  "path_federatedcatalog =
     JObj [
       (''post'', JObj [
         (''operationId'', JStr ''getCachedCatalog''),
         (''requestBody'', JObj [
           (''content'', json_content (schema_ref ''FederatedCatalogCacheQuery''))]),
         (''responses'', JObj [
           (''default'', JObj [
             (''description'', JStr ''default response''),
             (''content'', json_content (array_of (schema_ref ''ContractOffer'')))])])])]"

definition path_instances :: json where
  "path_instances =
     JObj [
       (''get'', JObj [
         (''tags'', JArr [JStr ''Dataplane Selector'']),
         (''operationId'', JStr ''getAll''),
         (''responses'', JObj [
           (''default'', JObj [
             (''description'', JStr ''default response''),
             (''content'', json_content (array_of (schema_ref ''DataPlaneInstance'')))])])]),
       (''post'', JObj [
         (''tags'', JArr [JStr ''Dataplane Selector'']),
         (''operationId'', JStr ''addEntry''),
         (''requestBody'', JObj [(''content'', json_content (schema_ref ''DataPlaneInstance''))]),
         (''responses'', JObj [
           (''default'', JObj [
             (''description'', JStr ''default response''),
             (''content'', JObj [(''application/json'', JObj [])])])])])]"

definition path_instances_select :: json where
  "path_instances_select =
     JObj [
       (''post'', JObj [
         (''tags'', JArr [JStr ''Dataplane Selector'']),
         (''operationId'', JStr ''find''),
         (''requestBody'', JObj [(''content'', json_content (schema_ref ''SelectionRequest''))]),
         (''responses'', JObj [
           (''default'', JObj [
             (''description'', JStr ''default response''),
             (''content'', json_content (schema_ref ''DataPlaneInstance''))])])])]"

definition path_check_health :: json where
  "path_check_health =
     JObj [
       (''get'', JObj [
         (''tags'', JArr [JStr ''Application Observability'']),
         (''description'', JStr ''Performs a liveness probe to determine whether the runtime is working properly.''),
         (''operationId'', JStr ''checkHealth''),
         (''responses'', JObj [
           (''200'', JObj [
             (''content'', json_content (array_of (schema_ref ''HealthStatus'')))])])])]"

definition path_check_liveness :: json where
  "path_check_liveness =
     JObj [
       (''get'', JObj [
         (''tags'', JArr [JStr ''Application Observability'']),
         (''description'', JStr ''Performs a liveness probe to determine whether the runtime is working properly.''),
         (''operationId'', JStr ''getLiveness''),
         (''responses'', JObj [
           (''200'', JObj [
             (''content'', json_content (array_of (schema_ref ''HealthStatus'')))])])])]"

definition path_check_readiness :: json where
  "path_check_readiness =
     JObj [
       (''get'', JObj [
         (''tags'', JArr [JStr ''Application Observability'']),
         (''description'', JStr ''Performs a readiness probe to determine whether the runtime is able to accept requests.''),
         (''operationId'', JStr ''getReadiness''),
         (''responses'', JObj [
           (''200'', JObj [
             (''content'', json_content (array_of (schema_ref ''HealthStatus'')))])])])]"

definition path_check_startup :: json where
  "path_check_startup =
     JObj [
       (''get'', JObj [
         (''tags'', JArr [JStr ''Application Observability'']),
         (''description'', JStr ''Performs a startup probe to determine whether the runtime has completed startup.''),
         (''operationId'', JStr ''getStartup''),
         (''responses'', JObj [
           (''200'', JObj [
             (''content'', json_content (array_of (schema_ref ''HealthStatus'')))])])])]"

definition path_token :: json where
  "path_token =
     JObj [
       (''get'', JObj [
         (''tags'', JArr [JStr ''Token Validation'']),
         (''description'', JStr ''Checks that the provided token has been signed by the present entity and asserts its validity. If token is valid, then the data address contained in its claims is decrypted and returned back to the caller.''),
         (''operationId'', JStr ''validate''),
         (''parameters'', JArr [
           JObj [
             (''name'', JStr ''Authorization''),
             (''in'', JStr ''header''),
             (''required'', JBool True),
             (''style'', JStr ''simple''),
             (''explode'', JBool False),
             (''schema'', typed ''string'')]]),
         (''responses'', JObj [
           (''200'', JObj [(''description'', JStr ''Token is valid'')]),
           (''400'', JObj [(''description'', JStr ''Request was malformed'')]),
           (''403'', JObj [(''description'', JStr ''Token is invalid'')])])])]"

definition path_transfer :: json where
  "path_transfer =
     JObj [
       (''post'', JObj [
         (''tags'', JArr [JStr ''Data Plane control API'']),
         (''description'', JStr ''Initiates a data transfer for the given request. The transfer will be performed asynchronously.''),
         (''operationId'', JStr ''initiateTransfer''),
         (''requestBody'', JObj [(''content'', json_content (schema_ref ''DataFlowRequest''))]),
         (''responses'', JObj [
           (''200'', JObj [(''description'', JStr ''Data transfer initiated'')]),
           (''400'', JObj [(''description'', JStr ''Failed to validate request'')])])])]"

definition path_transfer_processId :: json where
  "path_transfer_processId =
     JObj [
       (''get'', JObj [
         (''tags'', JArr [JStr ''Data Plane control API'']),
         (''description'', JStr ''Get the current state of a data transfer.''),
         (''operationId'', JStr ''getTransferState''),
         (''parameters'', JArr [id_parameter ''processId'']),
         (''responses'', JObj [(''200'', JObj [(''description'', JStr ''Missing access token'')])])])]"

definition path_any :: json where
  "path_any =
     JObj [
       (''get'', JObj [
         (''tags'', JArr [JStr ''Data Plane public API'']),
         (''description'', JStr ''Send `GET` data query to the Data Plane.''),
         (''operationId'', JStr ''get''),
         (''responses'', JObj [
           (''400'', JObj [(''description'', JStr ''Missing access token'')]),
           (''403'', JObj [(''description'', JStr ''Access token is expired or invalid'')]),
           (''500'', JObj [(''description'', JStr ''Failed to transfer data'')])])]),
       (''put'', JObj [
         (''tags'', JArr [JStr ''Data Plane public API'']),
         (''description'', JStr ''Send `PUT` data query to the Data Plane.''),
         (''operationId'', JStr ''put''),
         (''responses'', JObj [
           (''400'', JObj [(''description'', JStr ''Missing access token'')]),
           (''403'', JObj [(''description'', JStr ''Access token is expired or invalid'')]),
           (''500'', JObj [(''description'', JStr ''Failed to transfer data'')])])]),
       (''post'', JObj [
         (''tags'', JArr [JStr ''Data Plane public API'']),
         (''description'', JStr ''Send `POST` data query to the Data Plane.''),
         (''operationId'', JStr ''post''),
         (''responses'', JObj [
           (''400'', JObj [(''description'', JStr ''Missing access token'')]),
           (''403'', JObj [(''description'', JStr ''Access token is expired or invalid'')]),
           (''500'', JObj [(''description'', JStr ''Failed to transfer data'')])])]),
       (''delete'', JObj [
         (''tags'', JArr [JStr ''Data Plane public API'']),
         (''description'', JStr ''Send `DELETE` data query to the Data Plane.''),
         (''operationId'', JStr ''delete''),
         (''responses'', JObj [
           (''400'', JObj [(''description'', JStr ''Missing access token'')]),
           (''403'', JObj [(''description'', JStr ''Access token is expired or invalid'')]),
           (''500'', JObj [(''description'', JStr ''Failed to transfer data'')])])]),
       (''patch'', JObj [
         (''tags'', JArr [JStr ''Data Plane public API'']),
         (''description'', JStr ''Send `PATCH` data query to the Data Plane.''),
         (''operationId'', JStr ''patch''),
         (''responses'', JObj [
           (''400'', JObj [(''description'', JStr ''Missing access token'')]),
           (''403'', JObj [(''description'', JStr ''Access token is expired or invalid'')]),
           (''500'', JObj [(''description'', JStr ''Failed to transfer data'')])])])]"

definition path_identity_hub_collections :: json where
  "path_identity_hub_collections =
     JObj [
       (''post'', JObj [
         (''tags'', JArr [JStr ''Identity Hub'']),
         (''operationId'', JStr ''write''),
         (''requestBody'', JObj [(''content'', json_content (typed ''string''))]),
         (''responses'', JObj [
           (''default'', JObj [
             (''description'', JStr ''default response''),
             (''content'', json_content (typed ''string''))])])])]"

definition path_identity_hub_collections_commit :: json where
  "path_identity_hub_collections_commit =
     JObj [
       (''post'', JObj [
         (''tags'', JArr [JStr ''Identity Hub'']),
         (''operationId'', JStr ''writeCommit''),
         (''requestBody'', JObj [(''content'', json_content (map_of_type ''string''))]),
         (''responses'', JObj [
           (''default'', JObj [
             (''description'', JStr ''default response''),
             (''content'', JObj [(''application/json'', JObj [])])])])])]"

definition path_identity_hub_query_commits :: json where
  "path_identity_hub_query_commits =
     JObj [
       (''post'', JObj [
         (''tags'', JArr [JStr ''Identity Hub'']),
         (''operationId'', JStr ''queryCommits''),
         (''requestBody'', JObj [(''content'', json_content (typed ''string''))]),
         (''responses'', JObj [
           (''default'', JObj [
             (''description'', JStr ''default response''),
             (''content'', json_content (typed ''string''))])])])]"

definition path_identity_hub_query_objects :: json where
  "path_identity_hub_query_objects =
     JObj [
       (''post'', JObj [
         (''tags'', JArr [JStr ''Identity Hub'']),
         (''operationId'', JStr ''queryObjects''),
         (''requestBody'', JObj [(''content'', json_content (typed ''string''))]),
         (''responses'', JObj [
           (''default'', JObj [
             (''description'', JStr ''default response''),
             (''content'', json_content (typed ''string''))])])])]"

definition path_callback_processId_deprovision :: json where
  "path_callback_processId_deprovision =
     JObj [
       (''post'', JObj [
         (''tags'', JArr [JStr ''HTTP Provisioner Webhook'']),
         (''operationId'', JStr ''callDeprovisionWebhook''),
         (''parameters'', JArr [id_parameter ''processId'']),
         (''requestBody'', JObj [(''content'', json_content (schema_ref ''DeprovisionedResource''))]),
         (''responses'', JObj [
           (''default'', JObj [
             (''description'', JStr ''default response''),
             (''content'', JObj [(''application/json'', JObj [])])])])])]"

definition path_callback_processId_provision :: json where
  "path_callback_processId_provision =
     JObj [
       (''post'', JObj [
         (''tags'', JArr [JStr ''HTTP Provisioner Webhook'']),
         (''operationId'', JStr ''callProvisionWebhook''),
         (''parameters'', JArr [id_parameter ''processId'']),
         (''requestBody'', JObj [
           (''content'', json_content (schema_ref ''ProvisionerWebhookRequest''))]),
         (''responses'', JObj [
           (''default'', JObj [
             (''description'', JStr ''default response''),
             (''content'', JObj [(''application/json'', JObj [])])])])])]"

lemmas other_path_defs =
  path_federatedcatalog_def
  path_instances_def
  path_instances_select_def
  path_check_health_def
  path_check_liveness_def
  path_check_readiness_def
  path_check_startup_def
  path_token_def
  path_transfer_def
  path_transfer_processId_def
  path_any_def
  path_identity_hub_collections_def
  path_identity_hub_collections_commit_def
  path_identity_hub_query_commits_def
  path_identity_hub_query_objects_def
  path_callback_processId_deprovision_def
  path_callback_processId_provision_def

end
