(* ===== verification/Api_Spec.thy ===== *)
theory Api_Spec
  imports Api_Schemas Api_Paths_Management Api_Paths_Other
begin

text \<open>
  The document \<open>window.swaggerSpec\<close> of \<open>docs/swaggerui/swagger-spec.js\<close> as a whole.
\<close>

definition spec_info :: json where
  "spec_info =
     JObj [
       (''title'', JStr ''EDC REST API''),
       (''description'', JStr ''All files merged by open api merger''),
       (''license'', JObj [
         (''name'', JStr ''Apache License v2.0''),
         (''url'', JStr ''http://apache.org/v2'')]),
       (''version'', JStr ''1.0.0-SNAPSHOT'')]"

definition spec_servers :: json where
  "spec_servers =
     JArr [JObj [(''url'', JStr ''/'')]]"

definition spec_tags :: json where
  "spec_tags =
     JArr [
       JObj [
         (''name'', JStr ''Data Plane control API''),
         (''description'', JStr ''Api targeted by the Control Plane to delegate a data transfer (Provider Push or Streaming) to the Data Plane after the contract has been successfully negotiated and agreed between the two participants. '')],
       JObj [
         (''name'', JStr ''Data Plane public API''),
         (''description'', JStr ''The public API of the Data Plane is a data proxy enabling a data consumer to actively querydata from the provider data source (e.g. backend Rest API, internal database...) through its Data Planeinstance. Thus the Data Plane is the only entry/output door for the data, which avoids the provider to exposedirectly its data externally.The Data Plane public API being a proxy, it supports all verbs (i.e. GET, POST, PUT, PATCH, DELETE), whichcan then conveyed until the data source is required. This is especially useful when the actual data sourceis a Rest API itself.In the same manner, any set of arbitrary query parameters, path parameters and request body are supported (in the limits fixed by the HTTP server) and can also conveyed to the actual data source.'')]]"

definition api_paths :: "(string \<times> json) list" where
  "api_paths =
     [(''/federatedcatalog'', path_federatedcatalog),
      (''/instances'', path_instances),
      (''/instances/select'', path_instances_select),
      (''/policydefinitions'', path_policydefinitions),
      (''/policydefinitions/{id}'', path_policydefinitions_id),
      (''/check/health'', path_check_health),
      (''/check/liveness'', path_check_liveness),
      (''/check/readiness'', path_check_readiness),
      (''/check/startup'', path_check_startup),
      (''/token'', path_token),
      (''/contractnegotiations'', path_contractnegotiations),
      (''/contractnegotiations/{id}'', path_contractnegotiations_id),
      (''/contractnegotiations/{id}/agreement'', path_contractnegotiations_id_agreement),
      (''/contractnegotiations/{id}/cancel'', path_contractnegotiations_id_cancel),
      (''/contractnegotiations/{id}/decline'', path_contractnegotiations_id_decline),
      (''/contractnegotiations/{id}/state'', path_contractnegotiations_id_state),
      (''/transferprocess'', path_transferprocess),
      (''/transferprocess/{id}'', path_transferprocess_id),
      (''/transferprocess/{id}/cancel'', path_transferprocess_id_cancel),
      (''/transferprocess/{id}/deprovision'', path_transferprocess_id_deprovision),
      (''/transferprocess/{id}/state'', path_transferprocess_id_state),
      (''/contractdefinitions'', path_contractdefinitions),
      (''/contractdefinitions/{id}'', path_contractdefinitions_id),
      (''/transfer'', path_transfer),
      (''/transfer/{processId}'', path_transfer_processId),
      (''/{any}'', path_any),
      (''/identity-hub/collections'', path_identity_hub_collections),
      (''/identity-hub/collections-commit'', path_identity_hub_collections_commit),
      (''/identity-hub/query-commits'', path_identity_hub_query_commits),
      (''/identity-hub/query-objects'', path_identity_hub_query_objects),
      (''/assets'', path_assets),
      (''/assets/{id}'', path_assets_id),
      (''/contractagreements'', path_contractagreements),
      (''/contractagreements/{id}'', path_contractagreements_id),
      (''/callback/{processId}/deprovision'', path_callback_processId_deprovision),
      (''/callback/{processId}/provision'', path_callback_processId_provision),
      (''/catalog'', path_catalog)]"

definition swaggerSpec :: json where
  "swaggerSpec =
     JObj [(''openapi'', JStr ''3.0.1''), (''info'', spec_info), (''servers'', spec_servers),
       (''tags'', spec_tags), (''paths'', JObj api_paths),
       (''components'', JObj [(''schemas'', JObj api_schemas)])]"

end
