(* ===== verification/Api_Document.thy ===== *)
theory Api_Document
  imports Api_Spec
begin

text \<open>
  What \<open>swagger-spec.js\<close> gets right as an OpenAPI document, and where it does not: the
  parameters of its path templates, and the identifiers of its operations.
\<close>

section \<open>The document\<close>

lemma schemas_swaggerSpec [simp]: "schemas_of swaggerSpec = api_schemas"
  by (simp add: schemas_of_def swaggerSpec_def subfields_def)

lemma paths_swaggerSpec [simp]: "subfields ''paths'' swaggerSpec = api_paths"
  by (simp add: swaggerSpec_def subfields_def)

section \<open>Operations\<close>

definition path_item_operations :: "string \<times> json \<Rightarrow> (string \<times> string \<times> json) list" where
  "path_item_operations x = map (\<lambda>(m, op). (fst x, m, op)) (fields (snd x))"

lemma operations_swaggerSpec: "operations swaggerSpec = concat (map path_item_operations api_paths)"
  unfolding operations_def paths_swaggerSpec
  by (rule arg_cong [where f = concat]) (simp add: path_item_operations_def case_prod_beta')

definition undeclared_parameters :: "(string \<times> string \<times> json) list \<Rightarrow> (string \<times> string) list" where
  "undeclared_parameters ops =
     map (\<lambda>(p, m, op). (p, m)) (filter (\<lambda>(p, m, op). \<not> parameters_ok p op) ops)"

lemma undeclared_parameters_concat:
  "undeclared_parameters (concat xs) = concat (map undeclared_parameters xs)"
  by (induction xs) (simp_all add: undeclared_parameters_def)

definition operation_ids :: "(string \<times> string \<times> json) list \<Rightarrow> string option list" where
  "operation_ids ops = map (\<lambda>(p, m, op). string_field ''operationId'' op) ops"

lemma api_paths_undeclared:
  "concat (map (\<lambda>x. undeclared_parameters (path_item_operations x)) api_paths) =
     map (Pair ''/{any}'') [''get'', ''put'', ''post'', ''delete'', ''patch'']"
  unfolding api_paths_def list.map concat.simps
  by code_simp

lemma operation_ids_concat: "operation_ids (concat xs) = concat (map operation_ids xs)"
  by (induction xs) (simp_all add: operation_ids_def)

lemma api_paths_ids:
  "concat (map (\<lambda>x. operation_ids (path_item_operations x)) api_paths) =
     map Some [''getCachedCatalog'', ''getAll'', ''addEntry'', ''find'', ''getAllPolicies'', ''createPolicy'',
       ''getPolicy'', ''deletePolicy'', ''checkHealth'', ''getLiveness'', ''getReadiness'', ''getStartup'',
       ''validate'', ''getNegotiations'', ''initiateContractNegotiation'', ''getNegotiation'',
       ''getAgreementForNegotiation'', ''cancelNegotiation'', ''declineNegotiation'', ''getNegotiationState'',
       ''getAllTransferProcesses'', ''initiateTransfer'', ''getTransferProcess'', ''cancelTransferProcess'',
       ''deprovisionTransferProcess'', ''getTransferProcessState'', ''getAllContractDefinitions'',
       ''createContractDefinition'', ''getContractDefinition'', ''deleteContractDefinition'', ''initiateTransfer'',
       ''getTransferState'', ''get'', ''put'', ''post'', ''delete'', ''patch'', ''write'', ''writeCommit'',
       ''queryCommits'', ''queryObjects'', ''getAllAssets'', ''createAsset'', ''getAsset'', ''removeAsset'',
       ''getAllAgreements'', ''getContractAgreement'', ''callDeprovisionWebhook'', ''callProvisionWebhook'',
       ''getCatalog'']"
  unfolding api_paths_def list.map concat.simps
  by code_simp

text \<open>
  The operations of the document: but for the five of \<open>/{any}\<close>, each declares exactly the
  parameters of its path template, all required; and but for \<open>initiateTransfer\<close>, which two
  operations have, no identifier of an operation is used twice.
\<close>

theorem spec_operations:
  "undeclared_parameters (operations swaggerSpec) =
     map (Pair ''/{any}'') [''get'', ''put'', ''post'', ''delete'', ''patch''] \<and>
   count_list (operation_ids (operations swaggerSpec)) (Some ''initiateTransfer'') = 2 \<and>
   distinct (remove1 (Some ''initiateTransfer'') (operation_ids (operations swaggerSpec)))"
proof -
  have "operation_ids (operations swaggerSpec) =
      concat (map (\<lambda>x. operation_ids (path_item_operations x)) api_paths)"
    by (simp only: operations_swaggerSpec operation_ids_concat list.map_comp comp_def)
  then show ?thesis
    unfolding operations_swaggerSpec undeclared_parameters_concat list.map_comp comp_def
      operation_ids_concat api_paths_undeclared api_paths_ids
    by code_simp
qed

end
