(* ===== verification/Api_Http.thy ===== *)
theory Api_Http
  imports Api_Json
begin

text \<open>
  The HTTP layer of the APIs: authentication of a request (\<open>extensions/api/auth-spi\<close>,
  \<open>auth-tokenbased\<close>), results of services and the exceptions they become
  (\<open>extensions/api/api-core\<close>), and the mapping of exceptions to responses
  (\<open>extensions/http/jersey/.../mapper\<close>). JAX-RS answers 200 with the value a method returns, and
  204 without a body when it returns none.
\<close>

section \<open>Exceptions and responses\<close>

text \<open>
  The exceptions of \<open>spi/web-spi/.../exception\<close> with what they are built with, and those of
  JAX-RS: an exception that carries its status, and the violations of the constraints on a request,
  each with its message, the template of the message, the path and the value. The others are the
  exceptions of the model.
\<close>

datatype apiException =
    ApiThrow java_exn
  | AuthenticationFailedException string
  | NotAuthorizedException string
  | ObjectNotFoundException string string
  | ObjectExistsException string string
  | ObjectNotModifiableException string string
  | UnsupportedOperationException
  | WebApplicationException nat
  | ConstraintViolationException "(string \<times> string \<times> string \<times> string) list"

record httpResponse =
  httpStatus :: nat
  httpBody :: "json option"

text \<open>\<open>getType\<close> and \<open>getMessage\<close> of an \<open>EdcApiException\<close>; \<open>None\<close> for the other exceptions.\<close>

fun apiError :: "apiException \<Rightarrow> (string \<times> string) option" where
  "apiError (AuthenticationFailedException m) = Some (''AuthenticationFailed'', m)"
| "apiError (NotAuthorizedException m) = Some (''NotAuthorized'', m)"
| "apiError (ObjectNotFoundException ty ident) =
     Some (''ObjectNotFound'', ''Object of type '' @ ty @ '' with ID='' @ ident @ '' was not found'')"
| "apiError (ObjectExistsException ty ident) =
     Some (''ObjectExists'', ''Object of type '' @ ty @ '' already exists with ID = '' @ ident)"
| "apiError (ObjectNotModifiableException ident ty) =
     Some (''ObjectNotModifiable'', ''Object of type '' @ ty @ '' with ID='' @ ident @ '' is not modifiable'')"
| "apiError _ = None"

text \<open>The class of the exception itself decides; there is no lookup of superclasses.\<close>

fun exceptionStatus :: "apiException \<Rightarrow> nat" where
  "exceptionStatus (ApiThrow (IllegalArgumentException _)) = 400"
| "exceptionStatus (ApiThrow (NullPointerException _)) = 400"
| "exceptionStatus (AuthenticationFailedException _) = 401"
| "exceptionStatus (NotAuthorizedException _) = 403"
| "exceptionStatus (ObjectNotFoundException _ _) = 404"
| "exceptionStatus (ObjectExistsException _ _) = 409"
| "exceptionStatus (ObjectNotModifiableException _ _) = 409"
| "exceptionStatus UnsupportedOperationException = 501"
| "exceptionStatus (WebApplicationException n) = n"
| "exceptionStatus (ConstraintViolationException _) = 400"
| "exceptionStatus (ApiThrow _) = 503"

text \<open>
  A string field of an object: a null is written as null unless the mapper leaves nulls out. How
  the mapper is configured is the parameter \<open>nulls\<close>.
\<close>

definition string_or_null :: "bool \<Rightarrow> string \<Rightarrow> string option \<Rightarrow> (string \<times> json) list" where
  "string_or_null nulls k v =
     (case v of Some s \<Rightarrow> [(k, JStr s)] | None \<Rightarrow> if nulls then [(k, JNull)] else [])"

definition apiErrorDetail :: "bool \<Rightarrow> string \<Rightarrow> string \<Rightarrow> string option \<Rightarrow> string option \<Rightarrow> json" where
  "apiErrorDetail nulls message ty path value =
     JObj ([(''message'', JStr message), (''type'', JStr ty)] @
       string_or_null nulls ''path'' path @ string_or_null nulls ''invalidValue'' value)"

text \<open>\<open>ValidationExceptionMapper\<close> answers the violations, whether verbose or not.\<close>

definition violationDetail :: "bool \<Rightarrow> string \<times> string \<times> string \<times> string \<Rightarrow> json" where
  "violationDetail nulls v =
     (case v of (message, template, path, value) \<Rightarrow>
        apiErrorDetail nulls message template (Some path) (Some value))"

definition toResponse :: "bool \<Rightarrow> bool \<Rightarrow> apiException \<Rightarrow> httpResponse" where
  "toResponse nulls verboseResponse e =
     \<lparr>httpStatus = exceptionStatus e,
      httpBody =
        (case e of
           ConstraintViolationException vs \<Rightarrow> Some (JArr (map (violationDetail nulls) vs))
         | _ \<Rightarrow>
             (case apiError e of
                Some (ty, message) \<Rightarrow>
                  if verboseResponse then Some (JArr [apiErrorDetail nulls message ty None None]) else None
              | None \<Rightarrow> None))\<rparr>"

text \<open>A resource method: an operation that returns a value or throws an exception of the API.\<close>

type_synonym ('s, 'a) api_op = "'s \<Rightarrow> (apiException + 'a) \<times> 's"

definition respond :: "bool \<Rightarrow> bool \<Rightarrow> ('s, json option) api_op \<Rightarrow> 's \<Rightarrow> httpResponse \<times> 's" where
  "respond nulls verboseResponse m s =
     (case m s of
        (Inl e, s') \<Rightarrow> (toResponse nulls verboseResponse e, s')
      | (Inr None, s') \<Rightarrow> (\<lparr>httpStatus = 204, httpBody = None\<rparr>, s')
      | (Inr (Some j), s') \<Rightarrow> (\<lparr>httpStatus = 200, httpBody = Some j\<rparr>, s'))"

section \<open>Results of services\<close>

datatype failureReason = NOT_FOUND | CONFLICT | BAD_REQUEST

datatype 'a serviceResult = ServiceSuccess 'a | ServiceFailure failureReason "string list"

definition mapToException :: "failureReason \<Rightarrow> string list \<Rightarrow> string \<Rightarrow> string \<Rightarrow> apiException" where
  "mapToException reason messages clazz ident =
     (case reason of
        NOT_FOUND \<Rightarrow> ObjectNotFoundException clazz ident
      | CONFLICT \<Rightarrow> ObjectExistsException clazz ident
      | BAD_REQUEST \<Rightarrow> ApiThrow (IllegalArgumentException (join '', '' messages)))"

text \<open>A controller method without result over a service: nothing, or the mapped exception.\<close>

definition voidOrThrow ::
  "string \<Rightarrow> string \<Rightarrow> (java_exn + 'a serviceResult) \<times> 's \<Rightarrow> (apiException + json option) \<times> 's" where
  "voidOrThrow clazz ident r =
     (case r of
        (Inl e, s) \<Rightarrow> (Inl (ApiThrow e), s)
      | (Inr (ServiceSuccess _), s) \<Rightarrow> (Inr None, s)
      | (Inr (ServiceFailure reason ms), s) \<Rightarrow> (Inl (mapToException reason ms clazz ident), s))"

text \<open>A controller method that returns what it found, or throws that it was not found.\<close>

definition foundOrThrow ::
  "string \<Rightarrow> string \<Rightarrow> (java_exn + json option) \<times> 's \<Rightarrow> (apiException + json option) \<times> 's" where
  "foundOrThrow clazz ident r =
     (case r of
        (Inl e, s) \<Rightarrow> (Inl (ApiThrow e), s)
      | (Inr None, s) \<Rightarrow> (Inl (ObjectNotFoundException clazz ident), s)
      | (Inr (Some j), s) \<Rightarrow> (Inr (Some j), s))"

section \<open>Authentication\<close>

definition upper :: "char \<Rightarrow> char" where
  "upper c = (if of_char c \<in> {97..122::nat} then char_of (of_char c - 32 :: nat) else c)"

text \<open>\<open>String.equalsIgnoreCase\<close> on ASCII.\<close>

definition equalsIgnoreCase :: "string \<Rightarrow> string \<Rightarrow> bool" where
  "equalsIgnoreCase a b \<longleftrightarrow> map upper a = map upper b"

text \<open>
  \<open>TokenBasedAuthenticationService\<close> on the headers of a request, each a name with its values.
\<close>

definition isAuthenticated :: "string \<Rightarrow> (string \<times> string list) list \<Rightarrow> apiException + bool" where
  "isAuthenticated hardCodedApiKey headers =
     (case List.find (\<lambda>h. equalsIgnoreCase (fst h) ''x-api-key'') headers of
        None \<Rightarrow> Inl (AuthenticationFailedException ''x-api-key not found'')
      | Some h \<Rightarrow> Inr (list_ex (equalsIgnoreCase hardCodedApiKey) (snd h)))"

definition authenticationFilter ::
  "string \<Rightarrow> string \<Rightarrow> (string \<times> string list) list \<Rightarrow> apiException + unit" where
  "authenticationFilter hardCodedApiKey httpMethod headers =
     (if equalsIgnoreCase ''OPTIONS'' httpMethod then Inr ()
      else case isAuthenticated hardCodedApiKey headers of
        Inl e \<Rightarrow> Inl e
      | Inr True \<Rightarrow> Inr ()
      | Inr False \<Rightarrow> Inl (AuthenticationFailedException ''Request could not be authenticated''))"

text \<open>A request to a resource method behind the filter.\<close>

definition request ::
  "string \<Rightarrow> bool \<Rightarrow> bool \<Rightarrow> string \<Rightarrow> (string \<times> string list) list \<Rightarrow> ('s, json option) api_op \<Rightarrow> 's \<Rightarrow>
   httpResponse \<times> 's" where
  "request hardCodedApiKey nulls verboseResponse httpMethod headers m s =
     (case authenticationFilter hardCodedApiKey httpMethod headers of
        Inl e \<Rightarrow> (toResponse nulls verboseResponse e, s)
      | Inr _ \<Rightarrow> respond nulls verboseResponse m s)"

end
