(* ===== verification/Api_Responses.thy ===== *)
theory Api_Responses
  imports Api_Document Api_Http
begin

text \<open>
  When a response of an API is the one its document declares, and the facts on schemas, paths and
  errors that the theories of the single APIs share.
\<close>

section \<open>Documented responses\<close>

text \<open>
  A response is documented when its status is declared, and its body, if any, is a value of the
  schema that is declared for it, without fields the schema does not have.
\<close>

definition documented :: "json \<Rightarrow> string \<Rightarrow> string \<Rightarrow> httpResponse \<Rightarrow> bool" where
  "documented doc p m r \<longleftrightarrow>
     (case operation doc p m of
        None \<Rightarrow> False
      | Some op \<Rightarrow>
          List.member (declared_statuses op) (showNat (httpStatus r)) \<and>
          (case httpBody r of
             None \<Rightarrow> True
           | Some j \<Rightarrow>
               (case response_schema op (showNat (httpStatus r)) of
                  None \<Rightarrow> False
                | Some sc \<Rightarrow> conforms True (schemas_of doc) sc j)))"

lemma conforms_simps [simp]:
  "conforms closed schemas s JNull \<longleftrightarrow> False"
  "conforms closed schemas s (JStr x) \<longleftrightarrow>
     (case deref schemas s of None \<Rightarrow> False
      | Some s' \<Rightarrow> string_field ''type'' s' = Some ''string'' \<and> enum_ok s' (JStr x) \<and> required_ok s' (JStr x))"
  "conforms closed schemas s (JNum i) \<longleftrightarrow>
     (case deref schemas s of None \<Rightarrow> False
      | Some s' \<Rightarrow> string_field ''type'' s' = Some ''integer'' \<and> enum_ok s' (JNum i) \<and> required_ok s' (JNum i))"
  "conforms closed schemas s (JArr vs) \<longleftrightarrow>
     (case deref schemas s of None \<Rightarrow> False
      | Some s' \<Rightarrow> string_field ''type'' s' = Some ''array'' \<and> enum_ok s' (JArr vs) \<and> required_ok s' (JArr vs) \<and>
          (case field ''items'' s' of None \<Rightarrow> True
           | Some si \<Rightarrow> (\<forall>x \<in> set vs. conforms closed schemas si x)))"
  "conforms closed schemas s (JObj fs) \<longleftrightarrow>
     (case deref schemas s of None \<Rightarrow> False
      | Some s' \<Rightarrow> string_field ''type'' s' = Some ''object'' \<and> enum_ok s' (JObj fs) \<and> required_ok s' (JObj fs) \<and>
          (\<forall>p \<in> set fs. case field_schema s' (fst p) of
             None \<Rightarrow> \<not> closed \<or> any_object s'
           | Some sf \<Rightarrow> conforms closed schemas sf (snd p)))"
  by (auto simp: conforms.simps [of _ _ s] type_ok_def split: option.splits)

lemma deref_typed [simp]: "deref S (typed t) = Some (typed t)"
  by (simp add: deref_def typed_def string_field_def)

lemma deref_formatted [simp]: "deref S (formatted t f) = Some (formatted t f)"
  by (simp add: deref_def formatted_def string_field_def)

lemma deref_array_of [simp]: "deref S (array_of s) = Some (array_of s)"
  by (simp add: deref_def array_of_def string_field_def)

lemma deref_schema_ref [simp]: "deref S (schema_ref n) = map_of S n"
  by (simp add: deref_def schema_ref_def string_field_def resolve_def ref_prefix_def)

lemma simple_schema_fields [simp]:
  "string_field ''type'' (typed t) = Some t" "string_field ''type'' (formatted t f) = Some t"
  "string_field ''type'' (array_of s) = Some ''array''" "field ''items'' (array_of s) = Some s"
  "enum_ok (typed t) v" "enum_ok (formatted t f) v" "enum_ok (array_of s) v"
  "required_ok (typed t) v" "required_ok (formatted t f) v" "required_ok (array_of s) v"
  by (simp_all add: typed_def formatted_def array_of_def string_field_def enum_ok_def required_ok_def
      field_list_def)

text \<open>The keywords of a schema that is written out.\<close>

lemma schema_simps:
  "string_field k (JObj fs) = (case map_of fs k of Some (JStr s) \<Rightarrow> Some s | _ \<Rightarrow> None)"
  "enum_ok (JObj fs) v = (case map_of fs ''enum'' of None \<Rightarrow> True | Some e \<Rightarrow> v \<in> set (elements e))"
  "required_ok (JObj fs) v =
     list_all (\<lambda>r. list_all (\<lambda>k. field k v \<noteq> None) (strings r))
       (case map_of fs ''required'' of Some a \<Rightarrow> elements a | None \<Rightarrow> [])"
  "field_schema (JObj fs) k =
     (case map_of (case map_of fs ''properties'' of Some p \<Rightarrow> Api_Json.fields p | None \<Rightarrow> []) k of
        Some sc \<Rightarrow> Some sc | None \<Rightarrow> map_of fs ''additionalProperties'')"
  "deref S (JObj fs) =
     (case string_field ''$ref'' (JObj fs) of None \<Rightarrow> Some (JObj fs) | Some r \<Rightarrow> resolve S r)"
  by (simp_all add: string_field_def enum_ok_def required_ok_def field_list_def field_schema_def
      subfields_def deref_def split: option.split)

lemma api_schemas_lookup [simp]:
  "map_of api_schemas ''ApiErrorDetail'' = Some schema_ApiErrorDetail"
  "map_of api_schemas ''ContractNegotiationDto'' = Some schema_ContractNegotiationDto"
  "map_of api_schemas ''ContractAgreementDto'' = Some schema_ContractAgreementDto"
  "map_of api_schemas ''NegotiationState'' = Some schema_NegotiationState"
  "map_of api_schemas ''NegotiationId'' = Some schema_NegotiationId"
  "map_of api_schemas ''TransferProcessDto'' = Some schema_TransferProcessDto"
  "map_of api_schemas ''DataRequestDto'' = Some schema_DataRequestDto"
  "map_of api_schemas ''DataAddressInformationDto'' = Some schema_DataAddressInformationDto"
  "map_of api_schemas ''TransferState'' = Some schema_TransferState"
  "map_of api_schemas ''TransferId'' = Some schema_TransferId"
  by (simp_all add: api_schemas_def)

lemma showNat_status [simp]:
  "showNat 200 = ''200''" "showNat 204 = ''204''" "showNat 400 = ''400''" "showNat 401 = ''401''"
  "showNat 404 = ''404''" "showNat 409 = ''409''" "showNat 503 = ''503''"
  by code_simp+

lemma api_paths_lookup [simp]:
  "map_of api_paths ''/contractnegotiations'' = Some path_contractnegotiations"
  "map_of api_paths ''/contractnegotiations/{id}'' = Some path_contractnegotiations_id"
  "map_of api_paths ''/contractnegotiations/{id}/state'' = Some path_contractnegotiations_id_state"
  "map_of api_paths ''/contractnegotiations/{id}/agreement'' = Some path_contractnegotiations_id_agreement"
  "map_of api_paths ''/contractnegotiations/{id}/cancel'' = Some path_contractnegotiations_id_cancel"
  "map_of api_paths ''/contractnegotiations/{id}/decline'' = Some path_contractnegotiations_id_decline"
  "map_of api_paths ''/transferprocess'' = Some path_transferprocess"
  "map_of api_paths ''/transferprocess/{id}'' = Some path_transferprocess_id"
  "map_of api_paths ''/transferprocess/{id}/state'' = Some path_transferprocess_id_state"
  "map_of api_paths ''/transferprocess/{id}/cancel'' = Some path_transferprocess_id_cancel"
  "map_of api_paths ''/transferprocess/{id}/deprovision'' = Some path_transferprocess_id_deprovision"
  by (simp_all add: api_paths_def)

lemma apiErrorDetail_conforms:
  "conforms closed api_schemas (schema_ref ''ApiErrorDetail'') (apiErrorDetail nulls m ty path value) \<longleftrightarrow>
     nulls \<longrightarrow> path \<noteq> None \<and> value \<noteq> None"
  by (auto simp: apiErrorDetail_def string_or_null_def schema_ApiErrorDetail_def schema_simps
      split: option.splits)

text \<open>The responses a request may get, and how they are read.\<close>

lemma response_simps [simp]:
  "operation swaggerSpec p m = (case map_of api_paths p of None \<Rightarrow> None | Some it \<Rightarrow> field m it)"
  by (simp add: operation_def)

lemma respond_simps [simp]:
  "m s = (Inr (Some j), s') \<Longrightarrow> respond nulls v m s = (\<lparr>httpStatus = 200, httpBody = Some j\<rparr>, s')"
  "m s = (Inr None, s') \<Longrightarrow> respond nulls v m s = (\<lparr>httpStatus = 204, httpBody = None\<rparr>, s')"
  "m s = (Inl e, s') \<Longrightarrow> respond nulls v m s = (toResponse nulls v e, s')"
  by (simp_all add: respond_def)

lemma foundOrThrow_run [simp]:
  "foundOrThrow c k (Inr (Some j), s) = (Inr (Some j), s)"
  "foundOrThrow c k (Inr None, s) = (Inl (ObjectNotFoundException c k), s)"
  "foundOrThrow c k (Inl e, s) = (Inl (ApiThrow e), s)"
  by (simp_all add: foundOrThrow_def)

text \<open>The errors of the API in their form of a response.\<close>

lemma not_found_response:
  "toResponse nulls v (ObjectNotFoundException c k) = \<lparr>httpStatus = 404, httpBody =
     (if v then Some (JArr [apiErrorDetail nulls (''Object of type '' @ c @ '' with ID='' @ k @ '' was not found'')
        ''ObjectNotFound'' None None]) else None)\<rparr>"
  by (simp add: toResponse_def)

lemma api_errors_conform:
  "conforms True api_schemas (array_of (schema_ref ''ApiErrorDetail'')) (JArr [apiErrorDetail nulls m ty None None])
     \<longleftrightarrow> \<not> nulls"
  by (simp add: apiErrorDetail_conforms del: deref_schema_ref)

lemmas response_defs = documented_def declared_statuses_def response_schema_def subfields_def json_content_def
  api_errors_def List.member_iff

lemma queue_full_response:
  "toResponse nulls v (ApiThrow (IllegalStateException m)) = \<lparr>httpStatus = 503, httpBody = None\<rparr>"
  by (simp add: toResponse_def)

lemma violations_conform:
  "conforms True api_schemas (array_of (schema_ref ''ApiErrorDetail'')) (JArr (map (violationDetail nulls) vs))"
  by (auto simp: violationDetail_def apiErrorDetail_conforms simp del: deref_schema_ref split: prod.split)

section \<open>Authentication\<close>

lemma no_operation_declares_401:
  "list_all (\<lambda>x. list_all (\<lambda>y. ''401'' \<notin> set (declared_statuses (snd y))) (Api_Json.fields (snd x))) api_paths"
  unfolding api_paths_def list.pred_inject
  by (intro conjI TrueI; code_simp)

lemma find_unique_key:
  assumes "distinct (map (\<lambda>h. map upper (fst h)) headers)"
  shows "List.find (\<lambda>h. equalsIgnoreCase (fst h) k) headers = Some h \<longleftrightarrow> h \<in> set headers \<and> equalsIgnoreCase (fst h) k"
proof
  assume h: "h \<in> set headers \<and> equalsIgnoreCase (fst h) k"
  have "g = h" if "g \<in> set headers" "equalsIgnoreCase (fst g) k" for g
    using assms h that by (auto simp: distinct_map inj_on_def equalsIgnoreCase_def)
  with h show "List.find (\<lambda>h. equalsIgnoreCase (fst h) k) headers = Some h"
    by (metis (mono_tags, lifting) find_None_iff find_SomeD not_None_eq)
qed (auto dest: find_SomeD)

lemma isAuthenticated_key:
  assumes "distinct (map (\<lambda>h. map upper (fst h)) headers)"
  shows "isAuthenticated key headers = Inr True \<longleftrightarrow>
    (\<exists>h \<in> set headers. equalsIgnoreCase (fst h) ''x-api-key'' \<and> (\<exists>v \<in> set (snd h). equalsIgnoreCase key v))"
proof (cases "List.find (\<lambda>h. equalsIgnoreCase (fst h) ''x-api-key'') headers")
  case None
  then show ?thesis using find_NoneD [OF None] by (auto simp: isAuthenticated_def)
next
  case (Some h)
  then have same: "g = h" if "g \<in> set headers" "equalsIgnoreCase (fst g) ''x-api-key''" for g
    using that find_unique_key [OF assms, of "''x-api-key''" g] by simp
  have h: "h \<in> set headers" "equalsIgnoreCase (fst h) ''x-api-key''" using find_SomeD [OF Some] by simp_all
  have "isAuthenticated key headers = Inr True \<longleftrightarrow> (\<exists>v \<in> set (snd h). equalsIgnoreCase key v)"
    using Some by (simp add: isAuthenticated_def list_ex_iff)
  with same h show ?thesis by metis
qed

lemma request_passes:
  assumes "equalsIgnoreCase ''OPTIONS'' httpMethod \<or> isAuthenticated key headers = Inr True"
  shows "request key nulls verbose httpMethod headers m s = respond nulls verbose m s"
  using assms by (elim disjE) (simp_all add: request_def authenticationFilter_def)

lemma request_refused:
  assumes "\<not> equalsIgnoreCase ''OPTIONS'' httpMethod" "isAuthenticated key headers \<noteq> Inr True"
  shows "httpStatus (fst (request key nulls verbose httpMethod headers m s)) = 401"
    "snd (request key nulls verbose httpMethod headers m s) = s"
proof -
  have "isAuthenticated key headers = Inl (AuthenticationFailedException ''x-api-key not found'') \<or>
      isAuthenticated key headers = Inr False"
    using assms(2) by (auto simp: isAuthenticated_def split: option.splits)
  then have "\<exists>x. authenticationFilter key httpMethod headers = Inl (AuthenticationFailedException x)"
    using assms(1) by (auto simp: authenticationFilter_def)
  then show "httpStatus (fst (request key nulls verbose httpMethod headers m s)) = 401"
    "snd (request key nulls verbose httpMethod headers m s) = s"
    by (auto simp: request_def toResponse_def)
qed

text \<open>
  (C38) A request with the method \<open>OPTIONS\<close> reaches its resource as it is, with or without a key, and so
  does one that has a header \<open>x-api-key\<close> with the key among its values, upper and lower case alike in each
  of the three. Any other request is answered by 401 and has no effect, whatever the resource; also one
  without that header. No operation of the document declares that status. The names of headers are
  distinct, whatever their case, as in the map of headers of JAX-RS.
\<close>

theorem authentication_filter:
  assumes "distinct (map (\<lambda>h. map upper (fst h)) headers)"
  shows "(if map upper httpMethod = ''OPTIONS'' \<or>
       (\<exists>name vs v. (name, vs) \<in> set headers \<and> map upper name = ''X-API-KEY'' \<and>
          v \<in> set vs \<and> map upper v = map upper key)
     then request key nulls verbose httpMethod headers m s = respond nulls verbose m s
     else httpStatus (fst (request key nulls verbose httpMethod headers m s)) = 401 \<and>
       snd (request key nulls verbose httpMethod headers m s) = s) \<and>
   list_all (\<lambda>(p, m, op). ''401'' \<notin> set (declared_statuses op)) (operations swaggerSpec)"
proof -
  have undeclared: "list_all (\<lambda>(p, m, op). ''401'' \<notin> set (declared_statuses op)) (operations swaggerSpec)"
    using no_operation_declares_401
    by (fastforce simp: operations_swaggerSpec path_item_operations_def list_all_iff)
  have names: "map upper ''x-api-key'' = ''X-API-KEY''" "map upper ''OPTIONS'' = ''OPTIONS''" by code_simp+
  have options: "equalsIgnoreCase ''OPTIONS'' httpMethod \<longleftrightarrow> map upper httpMethod = ''OPTIONS''"
    unfolding equalsIgnoreCase_def names by auto
  have "(isAuthenticated key headers = Inr True) \<longleftrightarrow>
      (\<exists>name vs v. (name, vs) \<in> set headers \<and> map upper name = ''X-API-KEY'' \<and>
         v \<in> set vs \<and> map upper v = map upper key)"
    unfolding isAuthenticated_key [OF assms] equalsIgnoreCase_def names
    by (metis fst_conv snd_conv prod.collapse)
  moreover have "if equalsIgnoreCase ''OPTIONS'' httpMethod \<or> isAuthenticated key headers = Inr True
      then request key nulls verbose httpMethod headers m s = respond nulls verbose m s
      else httpStatus (fst (request key nulls verbose httpMethod headers m s)) = 401 \<and>
        snd (request key nulls verbose httpMethod headers m s) = s"
    by (simp add: request_passes request_refused)
  ultimately show ?thesis using undeclared unfolding options by argo
qed

theorem authentication_filter_witness:
  "request ''Key'' False True ''GET'' [(''Accept'', [''*/*'']), (''X-Api-Key'', [''KEY''])] (\<lambda>s. (Inr None, Suc s)) 0 =
     (\<lparr>httpStatus = 204, httpBody = None\<rparr>, 1) \<and>
   httpStatus (fst (request ''Key'' False True ''GET'' [] (\<lambda>s. (Inr None, Suc s)) 0)) = 401 \<and>
   snd (request ''Key'' False True ''GET'' [] (\<lambda>s. (Inr None, Suc s)) 0) = 0"
proof -
  let ?hs = "[(''Accept'', [''*/*'']), (''X-Api-Key'', [''KEY''])]"
  have d: "distinct (map (\<lambda>h. map upper (fst h)) ?hs)" "distinct (map (\<lambda>h. map upper (fst h)) ([] :: (string \<times> string list) list))"
    "map upper ''X-Api-Key'' = ''X-API-KEY''" "map upper ''KEY'' = map upper ''Key''" "map upper ''GET'' \<noteq> ''OPTIONS''"
    by code_simp+
  have "\<exists>name vs v. (name, vs) \<in> set ?hs \<and> map upper name = ''X-API-KEY'' \<and>
      v \<in> set vs \<and> map upper v = map upper ''Key''"
    using d(3,4) by (intro exI [of _ "''X-Api-Key''"] exI [of _ "[''KEY'']"] exI [of _ "''KEY''"]) simp
  with authentication_filter [OF d(1), of "''GET''" "''Key''" False True "\<lambda>s. (Inr None, Suc s)" 0]
    authentication_filter [OF d(2), of "''GET''" "''Key''" False True "\<lambda>s. (Inr None, Suc s)" 0] d(5)
  show ?thesis by (simp add: respond_def)
qed

end
