(* ===== verification/Contract_Negotiation.thy ===== *)
theory Contract_Negotiation
  imports Entity_Store
begin

text \<open>
  The contract negotiation of \<open>spi/contract-spi/.../types/domain/contract\<close>: its states, the
  entity with its offers and its agreement, and every operation that changes it; and the
  contract identifiers of \<open>core/contract/.../common/ContractId.java\<close>. The constructors of the
  states carry the prefix \<open>CN\<close>, as the transfer process has states of the same names. A policy
  is a value of the type \<open>'pol\<close>; dates are milliseconds or seconds, as the code has them.
\<close>

section \<open>Contract identifiers\<close>

text \<open>
  \<open>String.split\<close> with a delimiter of one character: the parts between the delimiters, without
  the empty ones at the end; a string without delimiter is its only part.
\<close>

fun split_parts :: "char \<Rightarrow> string \<Rightarrow> string list" where
  "split_parts d [] = [[]]"
| "split_parts d (c # cs) =
     (if c = d then [] # split_parts d cs
      else case split_parts d cs of [] \<Rightarrow> [[c]] | p # ps \<Rightarrow> (c # p) # ps)"

definition split_string :: "char \<Rightarrow> string \<Rightarrow> string list" where
  "split_string d s =
     (if d \<notin> set s then [s] else rev (dropWhile (\<lambda>p. p = []) (rev (split_parts d s))))"

definition createContractId :: "string \<Rightarrow> string \<Rightarrow> string" where
  "createContractId uuid definitionPart = definitionPart @ '':'' @ uuid"

definition parseContractId :: "string \<Rightarrow> string list" where
  "parseContractId ident = split_string (CHR '':'') ident"

lemma split_parts_not_Nil [simp]: "split_parts d s \<noteq> []"
  by (induction s) (auto split: list.splits)

lemma split_parts_single: "d \<notin> set s \<Longrightarrow> split_parts d s = [s]"
  by (induction s) auto

lemma split_parts_append: "split_parts d (a @ d # b) = split_parts d a @ split_parts d b"
proof (induction a)
  case (Cons c a)
  then show ?case by (cases "split_parts d a") auto
qed simp

lemma split_parts_length: "length (split_parts d s) = 1 \<longleftrightarrow> d \<notin> set s"
proof (induction s)
  case (Cons c s)
  then show ?case by (cases "split_parts d s") auto
qed simp

lemma split_parts_free: "p \<in> set (split_parts d s) \<Longrightarrow> d \<notin> set p"
proof (induction s arbitrary: p)
  case (Cons c s)
  then show ?case by (cases "split_parts d s") (auto split: if_splits)
qed simp

lemma parse_free: "p \<in> set (parseContractId ident) \<Longrightarrow> CHR '':'' \<notin> set p"
  by (auto simp: parseContractId_def split_string_def split: if_splits dest!: set_dropWhileD dest: split_parts_free)

lemma parse_created:
  "uuid \<noteq> [] \<Longrightarrow> CHR '':'' \<notin> set uuid \<Longrightarrow>
     parseContractId (createContractId uuid d) = split_parts (CHR '':'') d @ [uuid]"
  by (simp add: parseContractId_def createContractId_def split_string_def split_parts_append split_parts_single)

section \<open>States\<close>

datatype contractNegotiationStates =
    CN_UNSAVED | CN_INITIAL | CN_REQUESTING | CN_REQUESTED | CN_PROVIDER_OFFERING
  | CN_PROVIDER_OFFERED | CN_CONSUMER_OFFERING | CN_CONSUMER_OFFERED | CN_CONSUMER_APPROVING
  | CN_CONSUMER_APPROVED | CN_DECLINING | CN_DECLINED | CN_CONFIRMING | CN_CONFIRMED | CN_ERROR

primrec cn_code :: "contractNegotiationStates \<Rightarrow> int" where
  "cn_code CN_UNSAVED = 0"
| "cn_code CN_INITIAL = 50"
| "cn_code CN_REQUESTING = 100"
| "cn_code CN_REQUESTED = 200"
| "cn_code CN_PROVIDER_OFFERING = 300"
| "cn_code CN_PROVIDER_OFFERED = 400"
| "cn_code CN_CONSUMER_OFFERING = 500"
| "cn_code CN_CONSUMER_OFFERED = 600"
| "cn_code CN_CONSUMER_APPROVING = 700"
| "cn_code CN_CONSUMER_APPROVED = 800"
| "cn_code CN_DECLINING = 900"
| "cn_code CN_DECLINED = 1000"
| "cn_code CN_CONFIRMING = 1100"
| "cn_code CN_CONFIRMED = 1200"
| "cn_code CN_ERROR = - 1"

definition cn_states :: "contractNegotiationStates list" where
  "cn_states = [CN_UNSAVED, CN_INITIAL, CN_REQUESTING, CN_REQUESTED, CN_PROVIDER_OFFERING,
     CN_PROVIDER_OFFERED, CN_CONSUMER_OFFERING, CN_CONSUMER_OFFERED, CN_CONSUMER_APPROVING,
     CN_CONSUMER_APPROVED, CN_DECLINING, CN_DECLINED, CN_CONFIRMING, CN_CONFIRMED, CN_ERROR]"

definition cn_from :: "int \<Rightarrow> contractNegotiationStates option" where
  "cn_from c = List.find (\<lambda>s. cn_code s = c) cn_states"

primrec cn_name :: "contractNegotiationStates \<Rightarrow> string" where
  "cn_name CN_UNSAVED = ''UNSAVED''"
| "cn_name CN_INITIAL = ''INITIAL''"
| "cn_name CN_REQUESTING = ''REQUESTING''"
| "cn_name CN_REQUESTED = ''REQUESTED''"
| "cn_name CN_PROVIDER_OFFERING = ''PROVIDER_OFFERING''"
| "cn_name CN_PROVIDER_OFFERED = ''PROVIDER_OFFERED''"
| "cn_name CN_CONSUMER_OFFERING = ''CONSUMER_OFFERING''"
| "cn_name CN_CONSUMER_OFFERED = ''CONSUMER_OFFERED''"
| "cn_name CN_CONSUMER_APPROVING = ''CONSUMER_APPROVING''"
| "cn_name CN_CONSUMER_APPROVED = ''CONSUMER_APPROVED''"
| "cn_name CN_DECLINING = ''DECLINING''"
| "cn_name CN_DECLINED = ''DECLINED''"
| "cn_name CN_CONFIRMING = ''CONFIRMING''"
| "cn_name CN_CONFIRMED = ''CONFIRMED''"
| "cn_name CN_ERROR = ''ERROR''"

definition cn_show :: "int \<Rightarrow> string" where
  "cn_show c = (case cn_from c of None \<Rightarrow> ''null'' | Some s \<Rightarrow> cn_name s)"

section \<open>Offers and agreements\<close>

record asset =
  theAssetId :: string
  assetProperties :: "string jmap"

record 'pol contractOffer =
  offerId :: string
  offerPolicy :: 'pol
  offerAsset :: "asset option"
  offerAssetId :: "string option"
  offerProvider :: "string option"
  offerConsumer :: "string option"
  offerStart :: "int option"
  offerEnd :: "int option"
  contractStart :: "int option"
  contractEnd :: "int option"

record 'pol contractAgreement =
  agreementId :: string
  providerAgentId :: string
  consumerAgentId :: string
  contractSigningDate :: int
  contractStartDate :: int
  contractEndDate :: int
  agreementAssetId :: string
  agreementPolicy :: 'pol

section \<open>The negotiation\<close>

datatype cnType = CN_CONSUMER | CN_PROVIDER

record 'pol contract_negotiation = stateful_entity +
  correlationId :: "string option"
  counterPartyId :: string
  counterPartyAddress :: string
  cnProtocol :: string
  cnType :: cnType
  contractAgreement :: "'pol contractAgreement option"
  contractOffers :: "'pol contractOffer list"

definition addContractOffer ::
  "'pol contractOffer \<Rightarrow> 'pol contract_negotiation \<Rightarrow> 'pol contract_negotiation" where
  "addContractOffer offer n = n\<lparr>contractOffers := contractOffers n @ [offer]\<rparr>"

definition getLastContractOffer :: "'pol contract_negotiation \<Rightarrow> 'pol contractOffer option" where
  "getLastContractOffer n =
     (let size = length (contractOffers n)
      in if size = 0 then None else Some (contractOffers n ! (size - 1)))"

definition setContractAgreement ::
  "'pol contractAgreement option \<Rightarrow> 'pol contract_negotiation \<Rightarrow> 'pol contract_negotiation" where
  "setContractAgreement a n = n\<lparr>contractAgreement := a\<rparr>"

definition cn_transition ::
  "int \<Rightarrow> contractNegotiationStates \<Rightarrow> contractNegotiationStates list \<Rightarrow>
   'pol contract_negotiation \<Rightarrow> java_exn + 'pol contract_negotiation" where
  "cn_transition now end starts n =
     (if \<not> list_ex (\<lambda>s. cn_code s = state n) starts
      then Inl (IllegalStateException
             (''Cannot transition from state '' @ cn_show (state n) @ '' to '' @
              cn_show (cn_code end)))
      else Inr (transitionTo now (cn_code end) n))"

definition cn_transitionInitial ::
  "int \<Rightarrow> 'pol contract_negotiation \<Rightarrow> java_exn + 'pol contract_negotiation" where
  "cn_transitionInitial now n = cn_transition now CN_INITIAL [CN_REQUESTING, CN_UNSAVED] n"

definition cn_transitionRequesting ::
  "int \<Rightarrow> 'pol contract_negotiation \<Rightarrow> java_exn + 'pol contract_negotiation" where
  "cn_transitionRequesting now n =
     (if cnType n = CN_PROVIDER
      then Inl (IllegalStateException ''Provider processes have no REQUESTING state'')
      else cn_transition now CN_REQUESTING [CN_REQUESTING, CN_INITIAL] n)"

definition cn_transitionRequested ::
  "int \<Rightarrow> 'pol contract_negotiation \<Rightarrow> java_exn + 'pol contract_negotiation" where
  "cn_transitionRequested now n =
     (if cnType n = CN_PROVIDER then cn_transition now CN_REQUESTED [CN_UNSAVED] n
      else cn_transition now CN_REQUESTED [CN_REQUESTED, CN_REQUESTING] n)"

definition transitionOffering ::
  "int \<Rightarrow> 'pol contract_negotiation \<Rightarrow> java_exn + 'pol contract_negotiation" where
  "transitionOffering now n =
     (if cnType n = CN_CONSUMER
      then cn_transition now CN_CONSUMER_OFFERING [CN_CONSUMER_OFFERING, CN_REQUESTED] n
      else cn_transition now CN_PROVIDER_OFFERING
             [CN_PROVIDER_OFFERING, CN_PROVIDER_OFFERED, CN_REQUESTED] n)"

definition transitionOffered ::
  "int \<Rightarrow> 'pol contract_negotiation \<Rightarrow> java_exn + 'pol contract_negotiation" where
  "transitionOffered now n =
     (if cnType n = CN_CONSUMER
      then cn_transition now CN_CONSUMER_OFFERED [CN_PROVIDER_OFFERED, CN_CONSUMER_OFFERING] n
      else cn_transition now CN_PROVIDER_OFFERED [CN_PROVIDER_OFFERED, CN_PROVIDER_OFFERING] n)"

definition transitionApproving ::
  "int \<Rightarrow> 'pol contract_negotiation \<Rightarrow> java_exn + 'pol contract_negotiation" where
  "transitionApproving now n =
     (if cnType n = CN_PROVIDER
      then Inl (IllegalStateException ''Provider processes have no CONSUMER_APPROVING state'')
      else cn_transition now CN_CONSUMER_APPROVING
             [CN_CONSUMER_APPROVING, CN_CONSUMER_OFFERED, CN_REQUESTED] n)"

definition transitionApproved ::
  "int \<Rightarrow> 'pol contract_negotiation \<Rightarrow> java_exn + 'pol contract_negotiation" where
  "transitionApproved now n =
     (if cnType n = CN_PROVIDER
      then Inl (IllegalStateException ''Provider processes have no CONSUMER_APPROVED state'')
      else cn_transition now CN_CONSUMER_APPROVED
             [CN_CONSUMER_APPROVED, CN_CONSUMER_APPROVING, CN_PROVIDER_OFFERED] n)"

definition transitionDeclining ::
  "int \<Rightarrow> 'pol contract_negotiation \<Rightarrow> java_exn + 'pol contract_negotiation" where
  "transitionDeclining now n =
     (if cnType n = CN_CONSUMER
      then cn_transition now CN_DECLINING
             [CN_DECLINING, CN_REQUESTED, CN_CONSUMER_OFFERED, CN_CONSUMER_APPROVED] n
      else cn_transition now CN_DECLINING
             [CN_DECLINING, CN_REQUESTED, CN_PROVIDER_OFFERED, CN_CONSUMER_APPROVED] n)"

definition transitionDeclined ::
  "int \<Rightarrow> 'pol contract_negotiation \<Rightarrow> java_exn + 'pol contract_negotiation" where
  "transitionDeclined now n =
     (if cnType n = CN_CONSUMER
      then cn_transition now CN_DECLINED [CN_DECLINING, CN_CONSUMER_OFFERED, CN_REQUESTED] n
      else cn_transition now CN_DECLINED
             [CN_DECLINING, CN_PROVIDER_OFFERED, CN_CONFIRMING, CN_CONFIRMED, CN_REQUESTED] n)"

definition transitionConfirming ::
  "int \<Rightarrow> 'pol contract_negotiation \<Rightarrow> java_exn + 'pol contract_negotiation" where
  "transitionConfirming now n =
     (if cnType n = CN_CONSUMER
      then Inl (IllegalStateException ''Consumer processes have no CONFIRMING state'')
      else cn_transition now CN_CONFIRMING [CN_CONFIRMING, CN_REQUESTED, CN_PROVIDER_OFFERED] n)"

definition transitionConfirmed ::
  "int \<Rightarrow> 'pol contract_negotiation \<Rightarrow> java_exn + 'pol contract_negotiation" where
  "transitionConfirmed now n =
     (if cnType n = CN_CONSUMER
      then cn_transition now CN_CONFIRMED
             [CN_CONFIRMING, CN_CONSUMER_APPROVED, CN_REQUESTED, CN_CONSUMER_OFFERED, CN_CONFIRMED] n
      else cn_transition now CN_CONFIRMED [CN_CONFIRMING] n)"

definition cn_transitionError ::
  "int \<Rightarrow> string option \<Rightarrow> 'pol contract_negotiation \<Rightarrow> 'pol contract_negotiation" where
  "cn_transitionError now detail n =
     updateStateTimestamp now (n\<lparr>state := cn_code CN_ERROR, errorDetail := detail, stateCount := 1\<rparr>)"

text \<open>
  \<open>Builder.build()\<close>: the counter-party, its address and the protocol are never null here, as
  the requests they come from require them.
\<close>

definition build_negotiation ::
  "int \<Rightarrow> string option \<Rightarrow> 'pol contract_negotiation \<Rightarrow> java_exn + 'pol contract_negotiation" where
  "build_negotiation now ident n =
     (if cnType n = CN_PROVIDER \<and> correlationId n = None then Inl (NullPointerException [])
      else entity_build now ident n)"

definition copy_negotiation :: "int \<Rightarrow> 'pol contract_negotiation \<Rightarrow> 'pol contract_negotiation" where
  "copy_negotiation now n = copy_entity now n"

section \<open>Facts on the operations\<close>

lemma cn_code_inj [simp]: "cn_code s = cn_code t \<longleftrightarrow> s = t"
  by (cases s; cases t) simp_all

lemma cn_from_code [simp]: "cn_from (cn_code s) = Some s"
  by (cases s) (simp_all add: cn_from_def cn_states_def)

lemma cn_transition_InrE:
  assumes "cn_transition now end starts n = Inr n'"
  obtains s where "s \<in> set starts" "state n = cn_code s" "n' = transitionTo now (cn_code end) n"
  using assms by (auto simp: cn_transition_def list_ex_iff split: if_splits)

lemma cn_fields_kept [simp]:
  "cnType (transitionTo now t n) = cnType n"
  "correlationId (transitionTo now t n) = correlationId n"
  "contractAgreement (transitionTo now t n) = contractAgreement n"
  "contractOffers (transitionTo now t n) = contractOffers n"
  "cnProtocol (transitionTo now t n) = cnProtocol n"
  "counterPartyId (transitionTo now t n) = counterPartyId n"
  "counterPartyAddress (transitionTo now t n) = counterPartyAddress n"
  by (simp_all add: transitionTo_def updateStateTimestamp_def)

lemma cn_transitionError_simps [simp]:
  "state (cn_transitionError now m n) = - 1"
  "entityId (cn_transitionError now m n) = entityId n"
  "cnType (cn_transitionError now m n) = cnType n"
  "correlationId (cn_transitionError now m n) = correlationId n"
  "contractAgreement (cn_transitionError now m n) = contractAgreement n"
  by (simp_all add: cn_transitionError_def updateStateTimestamp_def)

lemma copy_negotiation_simps [simp]:
  "entityId (copy_negotiation now n) = entityId n"
  "state (copy_negotiation now n) = state n"
  "stateCount (copy_negotiation now n) = stateCount n"
  "cnType (copy_negotiation now n) = cnType n"
  "correlationId (copy_negotiation now n) = correlationId n"
  "contractAgreement (copy_negotiation now n) = contractAgreement n"
  "contractOffers (copy_negotiation now n) = contractOffers n"
  "cnProtocol (copy_negotiation now n) = cnProtocol n"
  "counterPartyId (copy_negotiation now n) = counterPartyId n"
  "counterPartyAddress (copy_negotiation now n) = counterPartyAddress n"
  "errorDetail (copy_negotiation now n) = errorDetail n"
  by (simp_all add: copy_negotiation_def copy_entity_def)

lemma addContractOffer_simps [simp]:
  "state (addContractOffer x n) = state n" "entityId (addContractOffer x n) = entityId n"
  "cnType (addContractOffer x n) = cnType n" "correlationId (addContractOffer x n) = correlationId n"
  "contractAgreement (addContractOffer x n) = contractAgreement n"
  "contractOffers (addContractOffer x n) = contractOffers n @ [x]"
  "cnProtocol (addContractOffer x n) = cnProtocol n"
  "stateCount (addContractOffer x n) = stateCount n"
  by (simp_all add: addContractOffer_def)

lemma setters_simps [simp]:
  "state (setContractAgreement a n) = state n" "entityId (setContractAgreement a n) = entityId n"
  "cnType (setContractAgreement a n) = cnType n"
  "correlationId (setContractAgreement a n) = correlationId n"
  "contractAgreement (setContractAgreement a n) = a"
  "state (setErrorDetail m n) = state n" "entityId (setErrorDetail m n) = entityId n"
  "cnType (setErrorDetail m n) = cnType n" "correlationId (setErrorDetail m n) = correlationId n"
  "contractAgreement (setErrorDetail m n) = contractAgreement n"
  "contractOffers (setErrorDetail m n) = contractOffers n"
  by (simp_all add: setContractAgreement_def setErrorDetail_def)

lemma getLastContractOffer_add [simp]: "getLastContractOffer (addContractOffer x n) = Some x"
  by (simp add: getLastContractOffer_def addContractOffer_def Let_def nth_append)

lemma getLastContractOffer_None: "getLastContractOffer n = None \<longleftrightarrow> contractOffers n = []"
  by (simp add: getLastContractOffer_def Let_def)

text \<open>The in-memory negotiation store: the generic store on the copies of a negotiation.\<close>

interpretation cn_store: entity_copy "copy_negotiation now" for now
  by unfold_locales simp_all

end
