(* ===== verification/Negotiation_States.thy ===== *)
theory Negotiation_States
  imports Contract_Negotiation
begin

text \<open>
  The state machine of a contract negotiation: the edges its methods can take, the histories
  they allow, and the round trip of contract identifiers.
\<close>

section \<open>Contract identifiers\<close>

text \<open>
  A contract identifier made for a definition is parsed into that definition and the random
  part if and only if the identifier of the definition contains no colon; otherwise it has more
  than two parts, and everything that checks contract identifiers rejects it.
\<close>

theorem contract_id_roundtrip:
  assumes "uuid \<noteq> []" and "CHR '':'' \<notin> set uuid"
  shows "(parseContractId (createContractId uuid d) = [d, uuid] \<longleftrightarrow> CHR '':'' \<notin> set d) \<and>
    (length (parseContractId (createContractId uuid d)) = 2 \<longleftrightarrow> CHR '':'' \<notin> set d)"
proof -
  have "length (parseContractId (createContractId uuid d)) = 2 \<longleftrightarrow> CHR '':'' \<notin> set d"
    using split_parts_length [of "CHR '':''" d] by (simp add: parse_created [OF assms])
  moreover have "parseContractId (createContractId uuid d) = [d, uuid]" if "CHR '':'' \<notin> set d"
    using that by (simp add: parse_created [OF assms] split_parts_single)
  ultimately show ?thesis by (metis length_Cons list.size(3) numeral_2_eq_2 One_nat_def)
qed

theorem contract_id_roundtrip_witness:
  "parseContractId (createContractId ''6f1b'' ''def'') = [''def'', ''6f1b''] \<and>
   length (parseContractId (createContractId ''6f1b'' ''urn:def'')) \<noteq> 2"
  using contract_id_roundtrip [of "''6f1b''" "''def''"] contract_id_roundtrip [of "''6f1b''" "''urn:def''"]
  by simp

section \<open>The state diagram\<close>

text \<open>One call of a mutating method that returns.\<close>

inductive cn_step :: "'pol contract_negotiation \<Rightarrow> 'pol contract_negotiation \<Rightarrow> bool" where
  "cn_transitionInitial now n = Inr n' \<Longrightarrow> cn_step n n'"
| "cn_transitionRequesting now n = Inr n' \<Longrightarrow> cn_step n n'"
| "cn_transitionRequested now n = Inr n' \<Longrightarrow> cn_step n n'"
| "transitionOffering now n = Inr n' \<Longrightarrow> cn_step n n'"
| "transitionOffered now n = Inr n' \<Longrightarrow> cn_step n n'"
| "transitionApproving now n = Inr n' \<Longrightarrow> cn_step n n'"
| "transitionApproved now n = Inr n' \<Longrightarrow> cn_step n n'"
| "transitionDeclining now n = Inr n' \<Longrightarrow> cn_step n n'"
| "transitionDeclined now n = Inr n' \<Longrightarrow> cn_step n n'"
| "transitionConfirming now n = Inr n' \<Longrightarrow> cn_step n n'"
| "transitionConfirmed now n = Inr n' \<Longrightarrow> cn_step n n'"
| "cn_step n (cn_transitionError now m n)"
| "cn_step n (addContractOffer x n)"
| "cn_step n (setContractAgreement a n)"
| "cn_step n (setErrorDetail m n)"
| "cn_step n (copy_negotiation now n)"

definition cn_edges :: "cnType \<Rightarrow> (contractNegotiationStates \<times> contractNegotiationStates) list" where
  "cn_edges t =
     [(CN_UNSAVED, CN_INITIAL), (CN_REQUESTING, CN_INITIAL), (CN_REQUESTED, CN_DECLINING),
      (CN_CONSUMER_APPROVED, CN_DECLINING), (CN_DECLINING, CN_DECLINED), (CN_REQUESTED, CN_DECLINED),
      (CN_CONFIRMING, CN_CONFIRMED)] @
     map (\<lambda>s. (s, CN_ERROR)) cn_states @
     (case t of
        CN_CONSUMER \<Rightarrow>
          [(CN_INITIAL, CN_REQUESTING), (CN_REQUESTING, CN_REQUESTED),
           (CN_REQUESTED, CN_CONSUMER_OFFERING), (CN_CONSUMER_OFFERING, CN_CONSUMER_OFFERED),
           (CN_PROVIDER_OFFERED, CN_CONSUMER_OFFERED), (CN_CONSUMER_OFFERED, CN_CONSUMER_APPROVING),
           (CN_REQUESTED, CN_CONSUMER_APPROVING), (CN_CONSUMER_APPROVING, CN_CONSUMER_APPROVED),
           (CN_PROVIDER_OFFERED, CN_CONSUMER_APPROVED), (CN_CONSUMER_OFFERED, CN_DECLINING),
           (CN_CONSUMER_OFFERED, CN_DECLINED), (CN_CONSUMER_APPROVED, CN_CONFIRMED),
           (CN_REQUESTED, CN_CONFIRMED), (CN_CONSUMER_OFFERED, CN_CONFIRMED)]
      | CN_PROVIDER \<Rightarrow>
          [(CN_UNSAVED, CN_REQUESTED), (CN_REQUESTED, CN_PROVIDER_OFFERING),
           (CN_PROVIDER_OFFERED, CN_PROVIDER_OFFERING), (CN_PROVIDER_OFFERING, CN_PROVIDER_OFFERED),
           (CN_PROVIDER_OFFERED, CN_DECLINING), (CN_PROVIDER_OFFERED, CN_DECLINED),
           (CN_CONFIRMING, CN_DECLINED), (CN_CONFIRMED, CN_DECLINED), (CN_REQUESTED, CN_CONFIRMING),
           (CN_PROVIDER_OFFERED, CN_CONFIRMING)])"

definition cn_follows :: "'pol contract_negotiation \<Rightarrow> 'pol contract_negotiation \<Rightarrow> bool" where
  "cn_follows n n' \<longleftrightarrow> cnType n' = cnType n \<and> entityId n' = entityId n \<and>
     correlationId n' = correlationId n \<and>
     (state n' = state n \<or>
      list_ex (\<lambda>(s, t). state n = cn_code s \<and> state n' = cn_code t) (cn_edges (cnType n)))"

lemma cn_transition_follows:
  assumes "cn_transition now end starts n = Inr n'"
    and "list_all (\<lambda>s. s = end \<or> (s, end) \<in> set (cn_edges (cnType n))) starts"
  shows "cn_follows n n'"
  using assms(1)
proof (cases rule: cn_transition_InrE)
  case (1 s)
  with assms(2) show ?thesis by (cases "s = end") (auto simp: cn_follows_def list_ex_iff list_all_iff)
qed

lemma cn_type_cases: "t \<noteq> CN_PROVIDER \<longleftrightarrow> t = CN_CONSUMER" "t \<noteq> CN_CONSUMER \<longleftrightarrow> t = CN_PROVIDER"
  by (cases t; simp)+

lemmas cn_transition_defs =
  cn_transitionInitial_def cn_transitionRequesting_def cn_transitionRequested_def
  transitionOffering_def transitionOffered_def transitionApproving_def transitionApproved_def
  transitionDeclining_def transitionDeclined_def transitionConfirming_def transitionConfirmed_def

lemma cn_methods_follow:
  "cn_transitionInitial now n = Inr n' \<Longrightarrow> cn_follows n n'"
  "cn_transitionRequesting now n = Inr n' \<Longrightarrow> cn_follows n n'"
  "cn_transitionRequested now n = Inr n' \<Longrightarrow> cn_follows n n'"
  "transitionOffering now n = Inr n' \<Longrightarrow> cn_follows n n'"
  "transitionOffered now n = Inr n' \<Longrightarrow> cn_follows n n'"
  "transitionApproving now n = Inr n' \<Longrightarrow> cn_follows n n'"
  "transitionApproved now n = Inr n' \<Longrightarrow> cn_follows n n'"
  "transitionDeclining now n = Inr n' \<Longrightarrow> cn_follows n n'"
  "transitionDeclined now n = Inr n' \<Longrightarrow> cn_follows n n'"
  "transitionConfirming now n = Inr n' \<Longrightarrow> cn_follows n n'"
  "transitionConfirmed now n = Inr n' \<Longrightarrow> cn_follows n n'"
  unfolding cn_transition_defs
proof -
qed (auto simp: cn_type_cases cn_edges_def split: if_splits elim!: cn_transition_follows)

lemma cn_writes_follow:
  "cn_follows n (addContractOffer x n)" "cn_follows n (setContractAgreement a n)"
  "cn_follows n (setErrorDetail m n)" "cn_follows n (copy_negotiation now n)"
  by (simp_all add: cn_follows_def)

lemma cn_error_follows: "state n \<in> range cn_code \<Longrightarrow> cn_follows n (cn_transitionError now m n)"
proof -
  assume "state n \<in> range cn_code"
  then obtain s where s: "state n = cn_code s" by auto
  have "(s, CN_ERROR) \<in> set (cn_edges (cnType n))"
    by (cases s) (simp_all add: cn_edges_def cn_states_def)
  with s show ?thesis by (force simp: cn_follows_def list_ex_iff)
qed

lemma cn_step_follows: "cn_step n n' \<Longrightarrow> state n \<in> range cn_code \<Longrightarrow> cn_follows n n'"
  by (induction rule: cn_step.induct)
     (blast intro: cn_methods_follow cn_writes_follow cn_error_follows)+

text \<open>The method that enters a state.\<close>

definition cn_enter ::
  "int \<Rightarrow> contractNegotiationStates \<Rightarrow> 'pol contract_negotiation \<Rightarrow> java_exn + 'pol contract_negotiation" where
  "cn_enter now t n =
     (case t of
        CN_UNSAVED \<Rightarrow> Inr n
      | CN_INITIAL \<Rightarrow> cn_transitionInitial now n
      | CN_REQUESTING \<Rightarrow> cn_transitionRequesting now n
      | CN_REQUESTED \<Rightarrow> cn_transitionRequested now n
      | CN_PROVIDER_OFFERING \<Rightarrow> transitionOffering now n
      | CN_CONSUMER_OFFERING \<Rightarrow> transitionOffering now n
      | CN_PROVIDER_OFFERED \<Rightarrow> transitionOffered now n
      | CN_CONSUMER_OFFERED \<Rightarrow> transitionOffered now n
      | CN_CONSUMER_APPROVING \<Rightarrow> transitionApproving now n
      | CN_CONSUMER_APPROVED \<Rightarrow> transitionApproved now n
      | CN_DECLINING \<Rightarrow> transitionDeclining now n
      | CN_DECLINED \<Rightarrow> transitionDeclined now n
      | CN_CONFIRMING \<Rightarrow> transitionConfirming now n
      | CN_CONFIRMED \<Rightarrow> transitionConfirmed now n
      | CN_ERROR \<Rightarrow> Inr (cn_transitionError now None n))"

lemma cn_enter_step: "cn_enter now t n = Inr n' \<Longrightarrow> t \<noteq> CN_UNSAVED \<Longrightarrow> cn_step n n'"
  by (cases t) (auto simp: cn_enter_def intro: cn_step.intros)

lemma cn_enter_edge:
  assumes "(s, t) \<in> set (cn_edges (cnType n))" and "state n = cn_code s"
  shows "t \<noteq> CN_UNSAVED \<and> (\<exists>n'. cn_enter now t n = Inr n' \<and> state n' = cn_code t)"
  using assms
  by (cases "cnType n"; cases t)
     (auto simp: cn_edges_def cn_states_def cn_enter_def cn_transition_defs cn_transition_def)

text \<open>
  The negotiation's state diagram, exactly: from a valid state, its methods can reach
  another state in one call if and only if the diagram of its type has that edge.
\<close>

theorem cn_transitions_exact:
  assumes "state n = cn_code s" and "s \<noteq> t"
  shows "(\<exists>n'. cn_step n n' \<and> state n' = cn_code t) \<longleftrightarrow> (s, t) \<in> set (cn_edges (cnType n))"
proof
  assume "\<exists>n'. cn_step n n' \<and> state n' = cn_code t"
  then obtain n' where step: "cn_step n n'" and st: "state n' = cn_code t" by blast
  have "state n \<in> range cn_code" using assms(1) by simp
  from cn_step_follows [OF step this] assms st show "(s, t) \<in> set (cn_edges (cnType n))"
    by (auto simp: cn_follows_def list_ex_iff)
next
  assume "(s, t) \<in> set (cn_edges (cnType n))"
  from cn_enter_edge [OF this assms(1)] obtain n' where
    "t \<noteq> CN_UNSAVED" "cn_enter 0 t n = Inr n'" "state n' = cn_code t" by blast
  then show "\<exists>n'. cn_step n n' \<and> state n' = cn_code t" using cn_enter_step by blast
qed

section \<open>Histories\<close>

text \<open>The states a negotiation created in \<open>UNSAVED\<close> can be in.\<close>

definition cn_reachable :: "cnType \<Rightarrow> contractNegotiationStates list" where
  "cn_reachable t =
     [CN_UNSAVED, CN_INITIAL, CN_REQUESTED, CN_DECLINING, CN_DECLINED, CN_CONFIRMED, CN_ERROR] @
     (case t of
        CN_CONSUMER \<Rightarrow>
          [CN_REQUESTING, CN_CONSUMER_OFFERING, CN_CONSUMER_OFFERED, CN_CONSUMER_APPROVING,
           CN_CONSUMER_APPROVED]
      | CN_PROVIDER \<Rightarrow> [CN_PROVIDER_OFFERING, CN_PROVIDER_OFFERED, CN_CONFIRMING])"

lemma cn_reachable_closed:
  "s \<in> set (cn_reachable ty) \<Longrightarrow> (s, t) \<in> set (cn_edges ty) \<Longrightarrow> t \<in> set (cn_reachable ty)"
  by (auto simp: cn_reachable_def cn_edges_def cn_states_def split: cnType.splits)

lemma cn_code_range: "cn_code s \<in> range cn_code"
  by simp

lemma cn_step_reachable:
  assumes "cn_step n n'" and "state n \<in> cn_code ` set (cn_reachable (cnType n))"
  shows "cnType n' = cnType n \<and> entityId n' = entityId n \<and> correlationId n' = correlationId n \<and>
    state n' \<in> cn_code ` set (cn_reachable (cnType n'))"
proof -
  have "state n \<in> range cn_code" using assms(2) by auto
  from cn_step_follows [OF assms(1) this] assms(2) cn_reachable_closed [of _ "cnType n"]
  show ?thesis by (auto simp: cn_follows_def list_ex_iff)
qed

lemma cn_edges_final:
  "(CN_ERROR, t) \<in> set (cn_edges ty) \<Longrightarrow> t = CN_ERROR"
  "(CN_DECLINED, t) \<in> set (cn_edges ty) \<Longrightarrow> t = CN_ERROR"
  "(CN_CONFIRMED, t) \<in> set (cn_edges CN_CONSUMER) \<Longrightarrow> t = CN_ERROR"
  "(CN_CONFIRMED, t) \<in> set (cn_edges CN_PROVIDER) \<Longrightarrow> t \<in> {CN_DECLINED, CN_ERROR}"
  by (auto simp: cn_edges_def cn_states_def split: cnType.splits)

lemma cn_run_valid:
  assumes "cn_step\<^sup>*\<^sup>* n n'" and "state n \<in> range cn_code"
  shows "state n' \<in> range cn_code \<and> cnType n' = cnType n"
  using assms
proof (induction rule: rtranclp_induct)
  case (step m m')
  then have "state m \<in> range cn_code" by simp
  from cn_step_follows [OF step.hyps(2) this] step show ?case
    by (auto simp: cn_follows_def list_ex_iff)
qed simp

text \<open>
  What has been decided stays decided: whatever methods are called, a declined negotiation
  stays declined, a consumer's confirmed negotiation stays confirmed, and a provider's confirmed
  negotiation can only be declined, but for an error; \<open>ERROR\<close> is never left.
\<close>

theorem cn_decisions_final:
  assumes "cn_step\<^sup>*\<^sup>* n n'" and "state n = cn_code s" and "s \<in> {CN_ERROR, CN_DECLINED, CN_CONFIRMED}"
  shows "state n' = cn_code s \<or> state n' = cn_code CN_ERROR \<or>
    (s = CN_CONFIRMED \<and> cnType n = CN_PROVIDER \<and> state n' = cn_code CN_DECLINED)"
  using assms(1)
proof (induction rule: rtranclp_induct)
  case (step m m')
  have n: "state n \<in> range cn_code" unfolding assms(2) by (rule cn_code_range)
  have m: "state m \<in> range cn_code" "cnType m = cnType n" using cn_run_valid [OF step.hyps(1) n] by auto
  from cn_step_follows [OF step.hyps(2) m(1)] consider "state m' = state m"
    | a b where "(a, b) \<in> set (cn_edges (cnType n))" "state m = cn_code a" "state m' = cn_code b"
    using m(2) by (auto simp: cn_follows_def list_ex_iff)
  then show ?case
  proof cases
    case 2
    from step.IH 2(2) have "a = s \<or> a = CN_ERROR \<or> (s = CN_CONFIRMED \<and> cnType n = CN_PROVIDER \<and> a = CN_DECLINED)"
      by (simp del: cn_code.simps)
    with 2 assms(3) show ?thesis
      by (cases "cnType n") (auto dest: cn_edges_final simp del: cn_code.simps)
  qed (use step.IH in simp)
qed (use assms(2) in simp)

definition demo_negotiation :: "cnType \<Rightarrow> contractNegotiationStates \<Rightarrow> string contract_negotiation" where
  "demo_negotiation ty st = \<lparr>entityId = ''n1'', createdTimestamp = 1, state = cn_code st, stateCount = 1,
     stateTimestamp = 1, traceContext = [], errorDetail = None, correlationId = Some ''c1'',
     counterPartyId = ''other'', counterPartyAddress = ''http://other'', cnProtocol = ''ids-multipart'',
     cnType = ty, contractAgreement = None, contractOffers = []\<rparr>"

theorem cn_transitions_exact_witness:
  "state (demo_negotiation CN_PROVIDER CN_REQUESTED) = cn_code CN_REQUESTED \<and> CN_REQUESTED \<noteq> CN_CONFIRMED \<and>
   \<not> (\<exists>n'. cn_step (demo_negotiation CN_PROVIDER CN_REQUESTED) n' \<and> state n' = cn_code CN_CONFIRMED)"
  using cn_transitions_exact [of "demo_negotiation CN_PROVIDER CN_REQUESTED" CN_REQUESTED CN_CONFIRMED]
  by (simp add: demo_negotiation_def cn_edges_def cn_states_def)

theorem cn_decisions_final_witness:
  "\<exists>n'. cn_step\<^sup>*\<^sup>* (demo_negotiation CN_CONSUMER CN_CONFIRMED) n' \<and> state n' = cn_code CN_CONFIRMED"
proof -
  let ?n = "demo_negotiation CN_CONSUMER CN_CONFIRMED"
  have run: "cn_step\<^sup>*\<^sup>* ?n (setErrorDetail None ?n)" by (intro r_into_rtranclp cn_step.intros)
  have "state (setErrorDetail None ?n) \<noteq> cn_code CN_ERROR" by (simp add: demo_negotiation_def)
  with cn_decisions_final [OF run, of CN_CONFIRMED] run show ?thesis
    by (auto simp: demo_negotiation_def)
qed

end
