(* ===== verification/Negotiation_Managers.thy ===== *)
theory Negotiation_Managers
  imports Negotiation_States State_Machine Commands
begin

text \<open>
  The negotiation managers of \<open>core/contract/.../negotiation\<close>:
  \<open>ConsumerContractNegotiationManagerImpl\<close>, \<open>ProviderContractNegotiationManagerImpl\<close>, the
  callbacks of \<open>AbstractContractNegotiationManager\<close> and the cancel command, on the in-memory
  store. A connector runs both managers on one store, so the state \<open>cnm\<close> is that of both.

  The sharing of Java objects that shows is kept: \<open>findForCorrelationId\<close> hands out the stored
  object, so what is written to it is written to the store at once, and all copies of a
  negotiation share one list of offers, so an offer added to a copy is added to the stored one.
  Messages are sent asynchronously; the callback of a send runs in a later step and finds the
  negotiation again by its identifier. \<open>'tok\<close> is the claim token, \<open>'pol\<close> the policy.
\<close>

section \<open>Messages\<close>

datatype offerRequestType = OFFER_INITIAL | OFFER_COUNTER

record 'pol contractOfferRequest =
  offerRequestType :: offerRequestType
  requestProtocol :: string
  requestConnectorId :: string
  requestConnectorAddress :: string
  requestCorrelationId :: "string option"
  requestOffer :: "'pol contractOffer"

record 'pol contractAgreementRequest =
  agreementProtocol :: string
  agreementConnectorId :: string
  agreementConnectorAddress :: string
  agreementCorrelationId :: string
  requestAgreement :: "'pol contractAgreement"
  requestPolicy :: 'pol

record contractRejection =
  rejectionProtocol :: string
  rejectionConnectorId :: string
  rejectionConnectorAddress :: string
  rejectionCorrelationId :: string
  rejectionReason :: string

datatype 'pol cnMessage =
    OfferMessage "'pol contractOfferRequest"
  | AgreementMessage "'pol contractAgreementRequest"
  | RejectionMessage contractRejection

text \<open>The builders' null checks; the fields that are never null here need none.\<close>

definition build_rejection ::
  "'pol contract_negotiation \<Rightarrow> string option \<Rightarrow> java_exn + 'pol cnMessage" where
  "build_rejection n correlation =
     (case (correlation, errorDetail n) of
        (None, _) \<Rightarrow> Inl (NullPointerException ''correlationId'')
      | (Some c, None) \<Rightarrow> Inl (NullPointerException ''rejectionReason'')
      | (Some c, Some reason) \<Rightarrow>
          Inr (RejectionMessage \<lparr>rejectionProtocol = cnProtocol n, rejectionConnectorId = counterPartyId n,
            rejectionConnectorAddress = counterPartyAddress n, rejectionCorrelationId = c,
            rejectionReason = reason\<rparr>))"

definition build_offerRequest ::
  "'pol contract_negotiation \<Rightarrow> offerRequestType \<Rightarrow> string option \<Rightarrow> 'pol contractOffer option \<Rightarrow>
   java_exn + 'pol cnMessage" where
  "build_offerRequest n ty correlation offer =
     (case offer of
        None \<Rightarrow> Inl (NullPointerException ''contractOffer'')
      | Some x \<Rightarrow>
          Inr (OfferMessage \<lparr>offerRequestType = ty, requestProtocol = cnProtocol n,
            requestConnectorId = counterPartyId n, requestConnectorAddress = counterPartyAddress n,
            requestCorrelationId = correlation, requestOffer = x\<rparr>))"

definition build_agreementRequest ::
  "'pol contract_negotiation \<Rightarrow> string option \<Rightarrow> 'pol contractAgreement \<Rightarrow> java_exn + 'pol cnMessage" where
  "build_agreementRequest n correlation a =
     (case correlation of
        None \<Rightarrow> Inl (NullPointerException ''correlationId'')
      | Some c \<Rightarrow>
          Inr (AgreementMessage \<lparr>agreementProtocol = cnProtocol n, agreementConnectorId = counterPartyId n,
            agreementConnectorAddress = counterPartyAddress n, agreementCorrelationId = c,
            requestAgreement = a, requestPolicy = agreementPolicy a\<rparr>))"

section \<open>State and environment\<close>

datatype cnEvent = Cn_initiated | Cn_requested | Cn_offered | Cn_approved | Cn_declined | Cn_confirmed | Cn_failed

datatype 'pol cnCallback =
    OnInitialOfferSent
  | OnCounterOfferSent
  | OnConsumerAgreementSent
  | OnProviderAgreementSent "'pol contractAgreement"
  | OnRejectionSent

datatype cnCommand = CancelNegotiation string

record 'pol cnm =
  cnStore :: "'pol contract_negotiation entity_store"
  cnEvents :: "(cnEvent \<times> string \<times> int) list"
  cnSent :: "'pol cnMessage list"
  cnPending :: "(string \<times> 'pol cnCallback \<times> (java_exn + unit)) list"
  cnQueue :: "cnCommand command command_queue"

record ('tok, 'pol) cnm_env =
  validateOffer :: "'tok \<Rightarrow> 'pol contractOffer \<Rightarrow> unit result"
  validateCounterOffer :: "'tok \<Rightarrow> 'pol contractOffer \<Rightarrow> 'pol contractOffer \<Rightarrow> unit result"
  validateAgreement :: "'tok \<Rightarrow> 'pol contractAgreement \<Rightarrow> 'pol contractOffer \<Rightarrow> bool"
  cnDispatch :: "'pol cnMessage \<Rightarrow> java_exn + unit"
  cnRetryBaseDelay :: int
  cnRetryLimit :: int
  cnTraceContext :: "string jmap"

section \<open>The store\<close>

definition cn_find :: "int \<Rightarrow> string \<Rightarrow> ('pol cnm, 'pol contract_negotiation option) op" where
  "cn_find now ident = gets (\<lambda>s. find_entity (copy_negotiation now) ident (cnStore s))"

definition findForCorrelationId :: "string \<Rightarrow> ('pol cnm, 'pol contract_negotiation option) op" where
  "findForCorrelationId ident =
     gets (\<lambda>s. List.find (\<lambda>n. correlationId n = Some ident) (findAll_entities (cnStore s)))"

definition findContractAgreement :: "string \<Rightarrow> ('pol cnm, 'pol contractAgreement option) op" where
  "findContractAgreement ident =
     gets (\<lambda>s. List.find (\<lambda>a. agreementId a = ident)
       (List.map_filter contractAgreement (findAll_entities (cnStore s))))"

definition cn_save :: "int \<Rightarrow> 'pol contract_negotiation \<Rightarrow> ('pol cnm, unit) op" where
  "cn_save now n = modify (\<lambda>s. s\<lparr>cnStore := upsert (copy_negotiation now) n (cnStore s)\<rparr>)"

definition cn_nextForState :: "int \<Rightarrow> int \<Rightarrow> int \<Rightarrow> ('pol cnm, 'pol contract_negotiation list) op" where
  "cn_nextForState now st limit s =
     (case nextForState (copy_negotiation now) st limit (cnStore s) of
        (r, m) \<Rightarrow> (r, s\<lparr>cnStore := m\<rparr>))"

text \<open>A write to a stored object in place: its lease stays.\<close>

definition inPlace ::
  "string \<Rightarrow> ('pol contract_negotiation \<Rightarrow> 'pol contract_negotiation) \<Rightarrow>
   'pol contract_negotiation entity_store \<Rightarrow> 'pol contract_negotiation entity_store" where
  "inPlace ident f m = map (\<lambda>(k, i). (k, if k = ident then i\<lparr>item := f (item i)\<rparr> else i)) m"

text \<open>
  The negotiation a handler holds has changed to \<open>n\<close>; when it is the stored object itself
  (\<open>aliased\<close>), so has the store.
\<close>

definition cn_assign ::
  "bool \<Rightarrow> 'pol contract_negotiation \<Rightarrow> ('pol cnm, unit) op" where
  "cn_assign aliased n =
     modify (\<lambda>s. if aliased then s\<lparr>cnStore := inPlace (entityId n) (\<lambda>_. n) (cnStore s)\<rparr> else s)"

text \<open>A negotiation fetched earlier, with the offers added to the shared list since.\<close>

definition sharedOffers :: "'pol cnm \<Rightarrow> 'pol contract_negotiation \<Rightarrow> 'pol contract_negotiation" where
  "sharedOffers s n =
     (case map_of (cnStore s) (entityId n) of
        None \<Rightarrow> n
      | Some i \<Rightarrow> n\<lparr>contractOffers := contractOffers (item i)\<rparr>)"

definition cn_addOffer ::
  "'pol contractOffer \<Rightarrow> 'pol contract_negotiation \<Rightarrow> ('pol cnm, 'pol contract_negotiation) op" where
  "cn_addOffer offer n =
     andThen (modify (\<lambda>s. s\<lparr>cnStore := inPlace (entityId n) (addContractOffer offer) (cnStore s)\<rparr>))
       (\<lambda>_. ret (addContractOffer offer n))"

definition cn_notify :: "cnEvent \<Rightarrow> 'pol contract_negotiation \<Rightarrow> ('pol cnm, unit) op" where
  "cn_notify ev n = modify (\<lambda>s. s\<lparr>cnEvents := cnEvents s @ [(ev, entityId n, state n)]\<rparr>)"

definition cn_send ::
  "('tok, 'pol) cnm_env \<Rightarrow> 'pol cnMessage \<Rightarrow> string \<Rightarrow> 'pol cnCallback \<Rightarrow> ('pol cnm, unit) op" where
  "cn_send env m ident callback =
     modify (\<lambda>s. s\<lparr>cnSent := cnSent s @ [m],
                  cnPending := cnPending s @ [(ident, callback, cnDispatch env m)]\<rparr>)"

section \<open>Callbacks of sends\<close>

text \<open>The two handlers of \<open>AsyncSendResultHandler\<close>, for each message.\<close>

definition cn_onSuccess ::
  "int \<Rightarrow> 'pol cnCallback \<Rightarrow> 'pol contract_negotiation \<Rightarrow> ('pol cnm, unit) op" where
  "cn_onSuccess now callback n =
     (case callback of
        OnInitialOfferSent \<Rightarrow>
          andThen (liftE (cn_transitionRequested now n)) (\<lambda>n'.
          andThen (cn_save now n') (\<lambda>_. cn_notify Cn_requested n'))
      | OnCounterOfferSent \<Rightarrow>
          andThen (liftE (transitionOffered now n)) (\<lambda>n'.
          andThen (cn_save now n') (\<lambda>_. cn_notify Cn_offered n'))
      | OnConsumerAgreementSent \<Rightarrow>
          andThen (liftE (transitionApproved now n)) (\<lambda>n'.
          andThen (cn_save now n') (\<lambda>_. cn_notify Cn_approved n'))
      | OnProviderAgreementSent agreement \<Rightarrow>
          andThen (liftE (transitionConfirmed now (setContractAgreement (Some agreement) n))) (\<lambda>n'.
          andThen (cn_save now n') (\<lambda>_. cn_notify Cn_confirmed n'))
      | OnRejectionSent \<Rightarrow>
          andThen (liftE (transitionDeclined now n)) (\<lambda>n'.
          andThen (cn_save now n') (\<lambda>_. cn_notify Cn_declined n')))"

definition cn_onFailure ::
  "int \<Rightarrow> 'pol cnCallback \<Rightarrow> 'pol contract_negotiation \<Rightarrow> ('pol cnm, unit) op" where
  "cn_onFailure now callback n =
     (case callback of
        OnInitialOfferSent \<Rightarrow> andThen (liftE (cn_transitionRequesting now n)) (cn_save now)
      | OnCounterOfferSent \<Rightarrow> andThen (liftE (transitionOffering now n)) (cn_save now)
      | OnConsumerAgreementSent \<Rightarrow> andThen (liftE (transitionApproving now n)) (cn_save now)
      | OnProviderAgreementSent _ \<Rightarrow> andThen (liftE (transitionConfirming now n)) (cn_save now)
      | OnRejectionSent \<Rightarrow> andThen (liftE (transitionDeclining now n)) (cn_save now))"

definition asyncSendResult ::
  "('tok, 'pol) cnm_env \<Rightarrow> int \<Rightarrow> string \<times> 'pol cnCallback \<times> (java_exn + unit) \<Rightarrow> ('pol cnm, unit) op" where
  "asyncSendResult env now c =
     (case c of (negotiationId, callback, outcome) \<Rightarrow>
        andThen (cn_find now negotiationId) (\<lambda>found.
          case found of
            None \<Rightarrow> ret ()
          | Some n \<Rightarrow>
              (case outcome of
                 Inr _ \<Rightarrow> cn_onSuccess now callback n
               | Inl e \<Rightarrow>
                   if retriesExhausted (cnRetryLimit env) n then
                     (let n' = cn_transitionError now (Some (''Retry limited exceeded: '' @ exnMessage e)) n
                      in andThen (cn_save now n') (\<lambda>_. cn_notify Cn_failed n'))
                   else cn_onFailure now callback n)))"

definition cn_breakLease :: "int \<Rightarrow> 'pol contract_negotiation \<Rightarrow> ('pol cnm, unit) op" where
  "cn_breakLease now n = cn_save now n"

text \<open>A handler that sends first consults the retry manager.\<close>

definition cn_delayed ::
  "('tok, 'pol) cnm_env \<Rightarrow> int \<Rightarrow> 'pol contract_negotiation \<Rightarrow> ('pol cnm, bool) op \<Rightarrow> ('pol cnm, bool) op" where
  "cn_delayed env now n proceed =
     (if shouldDelay (exponentialWait (cnRetryBaseDelay env)) 0 now n
      then andThen (cn_breakLease now n) (\<lambda>_. ret False)
      else proceed)"

section \<open>Agreements\<close>

definition epochSecond :: "int \<Rightarrow> int" where
  "epochSecond millis = millis div 1000"

definition valueOf :: "string option \<Rightarrow> string" where
  "valueOf u = (case u of None \<Rightarrow> ''null'' | Some x \<Rightarrow> x)"

text \<open>
  The agreement for the last offer; \<open>None\<close> for an offer whose identifier is not correctly
  formatted. An offer without asset fails.
\<close>

definition agreementFor ::
  "int \<Rightarrow> string \<Rightarrow> 'pol contractOffer option \<Rightarrow> java_exn + 'pol contractAgreement option" where
  "agreementFor now uuid lastOffer =
     (case lastOffer of
        None \<Rightarrow> Inl (NullPointerException ''lastOffer'')
      | Some offer \<Rightarrow>
          let tokens = parseContractId (offerId offer)
          in if length tokens \<noteq> 2 then Inr None
             else case offerAsset offer of
               None \<Rightarrow> Inl (NullPointerException ''getAsset'')
             | Some a \<Rightarrow>
                 Inr (Some \<lparr>agreementId = createContractId uuid (tokens ! 0),
                   providerAgentId = valueOf (offerProvider offer),
                   consumerAgentId = valueOf (offerConsumer offer),
                   contractSigningDate = epochSecond now, contractStartDate = epochSecond now,
                   contractEndDate = epochSecond (now + 365 * 86400000),
                   agreementAssetId = theAssetId a, agreementPolicy = offerPolicy offer\<rparr>))"

end
