(* ===== verification/Consumer_Negotiation.thy ===== *)
theory Consumer_Negotiation
  imports Negotiation_Managers
begin

text \<open>
  The consumer's manager, \<open>ConsumerContractNegotiationManagerImpl\<close>: the operations its clients
  and the counter-party call, and the handlers of its loop. The token, the offer and the
  agreement a message carries are arguments; the hash of previous offers is not used by the code.
\<close>

section \<open>Operations\<close>

definition new_negotiation ::
  "cnType \<Rightarrow> string option \<Rightarrow> string \<Rightarrow> string \<Rightarrow> string \<Rightarrow> string jmap \<Rightarrow> 'pol contract_negotiation" where
  "new_negotiation ty correlation protocol party address tc =
     \<lparr>entityId = [], createdTimestamp = 0, state = 0, stateCount = 0, stateTimestamp = 0,
      traceContext = tc, errorDetail = None, correlationId = correlation, counterPartyId = party,
      counterPartyAddress = address, cnProtocol = protocol, cnType = ty,
      contractAgreement = None, contractOffers = []\<rparr>"

definition cn_initiate ::
  "('tok, 'pol) cnm_env \<Rightarrow> int \<Rightarrow> string \<Rightarrow> 'pol contractOfferRequest \<Rightarrow>
   ('pol cnm, 'pol contract_negotiation statusResult) op" where
  "cn_initiate env now uuid r =
     andThen (liftE (build_negotiation now (Some uuid)
       (new_negotiation CN_CONSUMER None (requestProtocol r) (requestConnectorId r)
         (requestConnectorAddress r) (cnTraceContext env)))) (\<lambda>n.
     andThen (liftE (cn_transitionInitial now (addContractOffer (requestOffer r) n))) (\<lambda>n'.
     andThen (cn_save now n') (\<lambda>_.
     andThen (cn_notify Cn_initiated n') (\<lambda>_.
     ret (StatusSuccess n')))))"

definition consumer_offerReceived ::
  "('tok, 'pol) cnm_env \<Rightarrow> int \<Rightarrow> 'tok \<Rightarrow> string \<Rightarrow> 'pol contractOffer \<Rightarrow>
   ('pol cnm, 'pol contract_negotiation statusResult) op" where
  "consumer_offerReceived env now token negotiationId offer =
     andThen (cn_find now negotiationId) (\<lambda>found.
       case found of
         None \<Rightarrow> ret (StatusFailure FATAL_ERROR [])
       | Some n \<Rightarrow>
           (case getLastContractOffer n of
              None \<Rightarrow> ret (StatusFailure FATAL_ERROR [])
            | Some latest \<Rightarrow>
                (let result = validateCounterOffer env token offer latest
                 in andThen (cn_addOffer offer n) (\<lambda>n.
                    case result of
                      Failure [] \<Rightarrow> throw (IndexOutOfBoundsException ''Index 0 out of bounds for length 0'')
                    | Failure (m # _) \<Rightarrow>
                        andThen (liftE (transitionDeclining now (setErrorDetail (Some m) n))) (\<lambda>n'.
                        andThen (cn_save now n') (\<lambda>_. ret (StatusSuccess n')))
                    | Success _ \<Rightarrow>
                        andThen (liftE (transitionApproving now n)) (\<lambda>n'.
                        andThen (cn_save now n') (\<lambda>_. ret (StatusSuccess n')))))))"

definition consumer_confirmed ::
  "('tok, 'pol) cnm_env \<Rightarrow> int \<Rightarrow> 'tok \<Rightarrow> string \<Rightarrow> 'pol contractAgreement \<Rightarrow>
   ('pol cnm, 'pol contract_negotiation statusResult) op" where
  "consumer_confirmed env now token negotiationId agreement =
     andThen (cn_find now negotiationId) (\<lambda>found.
       case found of
         None \<Rightarrow> ret (StatusFailure FATAL_ERROR
                   [''ContractNegotiation with id '' @ negotiationId @ '' not found''])
       | Some n \<Rightarrow>
           (case getLastContractOffer n of
              None \<Rightarrow> ret (StatusFailure FATAL_ERROR [])
            | Some latest \<Rightarrow>
                if \<not> validateAgreement env token agreement latest then
                  andThen (liftE (transitionDeclining now
                    (setErrorDetail (Some ''Contract rejected.'') n))) (\<lambda>n'.
                  andThen (cn_save now n') (\<lambda>_. ret (StatusSuccess n')))
                else
                  (let n = setContractAgreement (Some agreement) n
                   in andThen (liftE (if state n \<noteq> cn_code CN_CONFIRMED
                                      then transitionConfirmed now n else Inr n)) (\<lambda>n'.
                      andThen (cn_save now n') (\<lambda>_.
                      andThen (cn_notify Cn_confirmed n') (\<lambda>_. ret (StatusSuccess n')))))))"

text \<open>
  \<open>findContractNegotiationById\<close>: by identifier a copy, by correlation identifier the stored
  object; the boolean says which.
\<close>

definition findContractNegotiationById ::
  "int \<Rightarrow> string \<Rightarrow> ('pol cnm, (bool \<times> 'pol contract_negotiation) option) op" where
  "findContractNegotiationById now ident =
     andThen (cn_find now ident) (\<lambda>found.
       case found of
         Some n \<Rightarrow> ret (Some (False, n))
       | None \<Rightarrow>
           andThen (findForCorrelationId ident) (\<lambda>found.
             ret (case found of None \<Rightarrow> None | Some n \<Rightarrow> Some (True, n))))"

definition consumer_declined ::
  "int \<Rightarrow> string \<Rightarrow> ('pol cnm, 'pol contract_negotiation statusResult) op" where
  "consumer_declined now negotiationId =
     andThen (findContractNegotiationById now negotiationId) (\<lambda>found.
       case found of
         None \<Rightarrow> ret (StatusFailure FATAL_ERROR [])
       | Some (aliased, n) \<Rightarrow>
           andThen (liftE (transitionDeclined now n)) (\<lambda>n'.
           andThen (cn_assign aliased n') (\<lambda>_.
           andThen (cn_save now n') (\<lambda>_.
           andThen (cn_notify Cn_declined n') (\<lambda>_. ret (StatusSuccess n'))))))"

section \<open>Handlers of the loop\<close>

definition sendOffer ::
  "('tok, 'pol) cnm_env \<Rightarrow> 'pol contract_negotiation \<Rightarrow> offerRequestType \<Rightarrow> 'pol cnCallback \<Rightarrow>
   ('pol cnm, unit) op" where
  "sendOffer env n ty callback =
     andThen (liftE (build_offerRequest n ty (Some (entityId n)) (getLastContractOffer n))) (\<lambda>m.
     cn_send env m (entityId n) callback)"

definition cn_processInitial :: "int \<Rightarrow> 'pol contract_negotiation \<Rightarrow> ('pol cnm, bool) op" where
  "cn_processInitial now n =
     andThen (liftE (cn_transitionRequesting now n)) (\<lambda>n'.
     andThen (cn_save now n') (\<lambda>_. ret True))"

definition cn_processRequesting ::
  "('tok, 'pol) cnm_env \<Rightarrow> int \<Rightarrow> 'pol contract_negotiation \<Rightarrow> ('pol cnm, bool) op" where
  "cn_processRequesting env now n =
     cn_delayed env now n
       (andThen (sendOffer env n OFFER_INITIAL OnInitialOfferSent) (\<lambda>_. ret True))"

definition processConsumerOffering ::
  "('tok, 'pol) cnm_env \<Rightarrow> int \<Rightarrow> 'pol contract_negotiation \<Rightarrow> ('pol cnm, bool) op" where
  "processConsumerOffering env now n =
     cn_delayed env now n
       (andThen (sendOffer env n OFFER_COUNTER OnCounterOfferSent) (\<lambda>_. ret True))"

definition processConsumerApproving ::
  "('tok, 'pol) cnm_env \<Rightarrow> int \<Rightarrow> string \<Rightarrow> 'pol contract_negotiation \<Rightarrow> ('pol cnm, bool) op" where
  "processConsumerApproving env now uuid n =
     cn_delayed env now n
       (andThen (liftE (agreementFor now uuid (getLastContractOffer n))) (\<lambda>agreement.
          case agreement of
            None \<Rightarrow> ret False
          | Some a \<Rightarrow>
              andThen (liftE (build_agreementRequest n (Some (entityId n)) a)) (\<lambda>m.
              andThen (cn_send env m (entityId n) OnConsumerAgreementSent) (\<lambda>_. ret False))))"

definition consumer_processDeclining ::
  "('tok, 'pol) cnm_env \<Rightarrow> int \<Rightarrow> 'pol contract_negotiation \<Rightarrow> ('pol cnm, bool) op" where
  "consumer_processDeclining env now n =
     cn_delayed env now n
       (andThen (liftE (build_rejection n (Some (entityId n)))) (\<lambda>m.
        andThen (cn_send env m (entityId n) OnRejectionSent) (\<lambda>_. ret False)))"

definition consumer_states :: "contractNegotiationStates list" where
  "consumer_states =
     [CN_INITIAL, CN_REQUESTING, CN_CONSUMER_OFFERING, CN_CONSUMER_APPROVING, CN_DECLINING]"

definition consumer_process ::
  "('tok, 'pol) cnm_env \<Rightarrow> int \<Rightarrow> string \<Rightarrow> contractNegotiationStates \<Rightarrow> 'pol contract_negotiation \<Rightarrow>
   ('pol cnm, bool) op" where
  "consumer_process env now uuid st n =
     (case st of
        CN_INITIAL \<Rightarrow> cn_processInitial now n
      | CN_REQUESTING \<Rightarrow> cn_processRequesting env now n
      | CN_CONSUMER_OFFERING \<Rightarrow> processConsumerOffering env now n
      | CN_CONSUMER_APPROVING \<Rightarrow> processConsumerApproving env now uuid n
      | CN_DECLINING \<Rightarrow> consumer_processDeclining env now n
      | _ \<Rightarrow> ret False)"

end
