(* ===== verification/Provider_Negotiation.thy ===== *)
theory Provider_Negotiation
  imports Consumer_Negotiation
begin

text \<open>
  The provider's manager, \<open>ProviderContractNegotiationManagerImpl\<close>, the cancel command that both
  managers run, and the loops of the two managers on their store as one transition system.
\<close>

section \<open>Operations\<close>

definition provider_declined ::
  "int \<Rightarrow> string \<Rightarrow> ('pol cnm, 'pol contract_negotiation statusResult) op" where
  "provider_declined now correlation =
     andThen (findContractNegotiationById now correlation) (\<lambda>found.
       case found of
         None \<Rightarrow> ret (StatusFailure FATAL_ERROR [])
       | Some (aliased, n) \<Rightarrow>
           (let n = (if contractAgreement n \<noteq> None then setContractAgreement None n else n)
            in andThen (cn_assign aliased n) (\<lambda>_.
               andThen (liftE (transitionDeclined now n)) (\<lambda>n'.
               andThen (cn_assign aliased n') (\<lambda>_.
               andThen (cn_save now n') (\<lambda>_.
               andThen (cn_notify Cn_declined n') (\<lambda>_. ret (StatusSuccess n'))))))))"

definition processIncomingOffer ::
  "('tok, 'pol) cnm_env \<Rightarrow> int \<Rightarrow> bool \<Rightarrow> 'pol contract_negotiation \<Rightarrow> 'tok \<Rightarrow> 'pol contractOffer \<Rightarrow>
   ('pol cnm, 'pol contract_negotiation statusResult) op" where
  "processIncomingOffer env now aliased n token offer =
     (let result = (case getLastContractOffer n of
                      None \<Rightarrow> validateOffer env token offer
                    | Some lastOffer \<Rightarrow> validateCounterOffer env token offer lastOffer)
      in andThen (cn_addOffer offer n) (\<lambda>n.
         case result of
           Failure [] \<Rightarrow> throw (IndexOutOfBoundsException ''Index 0 out of bounds for length 0'')
         | Failure (m # _) \<Rightarrow>
             (let n = setErrorDetail (Some m) n
              in andThen (cn_assign aliased n) (\<lambda>_.
                 andThen (liftE (transitionDeclining now n)) (\<lambda>n'.
                 andThen (cn_assign aliased n') (\<lambda>_.
                 andThen (cn_save now n') (\<lambda>_. ret (StatusSuccess n'))))))
         | Success _ \<Rightarrow>
             andThen (liftE (transitionConfirming now n)) (\<lambda>n'.
             andThen (cn_assign aliased n') (\<lambda>_.
             andThen (cn_save now n') (\<lambda>_. ret (StatusSuccess n'))))))"

definition cn_requested ::
  "('tok, 'pol) cnm_env \<Rightarrow> int \<Rightarrow> string \<Rightarrow> 'tok \<Rightarrow> 'pol contractOfferRequest \<Rightarrow>
   ('pol cnm, 'pol contract_negotiation statusResult) op" where
  "cn_requested env now uuid token r =
     andThen (liftE (build_negotiation now (Some uuid)
       (new_negotiation CN_PROVIDER (requestCorrelationId r) (requestProtocol r) (requestConnectorId r)
         (requestConnectorAddress r) (cnTraceContext env)))) (\<lambda>n.
     andThen (liftE (cn_transitionRequested now n)) (\<lambda>n'.
     andThen (cn_save now n') (\<lambda>_.
     andThen (cn_notify Cn_requested n') (\<lambda>_.
     processIncomingOffer env now False n' token (requestOffer r)))))"

definition provider_offerReceived ::
  "('tok, 'pol) cnm_env \<Rightarrow> int \<Rightarrow> 'tok \<Rightarrow> string \<Rightarrow> 'pol contractOffer \<Rightarrow>
   ('pol cnm, 'pol contract_negotiation statusResult) op" where
  "provider_offerReceived env now token correlation offer =
     andThen (findForCorrelationId correlation) (\<lambda>found.
       case found of
         None \<Rightarrow> ret (StatusFailure FATAL_ERROR [])
       | Some n \<Rightarrow> processIncomingOffer env now True n token offer)"

definition consumerApproved ::
  "int \<Rightarrow> string \<Rightarrow> ('pol cnm, 'pol contract_negotiation statusResult) op" where
  "consumerApproved now correlation =
     andThen (findForCorrelationId correlation) (\<lambda>found.
       case found of
         None \<Rightarrow> ret (StatusFailure FATAL_ERROR [])
       | Some n \<Rightarrow>
           andThen (liftE (transitionConfirming now n)) (\<lambda>n'.
           andThen (cn_assign True n') (\<lambda>_.
           andThen (cn_save now n') (\<lambda>_. ret (StatusSuccess n')))))"

section \<open>Handlers of the loop\<close>

definition processProviderOffering ::
  "('tok, 'pol) cnm_env \<Rightarrow> int \<Rightarrow> 'pol contract_negotiation \<Rightarrow> ('pol cnm, bool) op" where
  "processProviderOffering env now n =
     cn_delayed env now n
       (andThen (liftE (build_offerRequest n OFFER_COUNTER (correlationId n) (getLastContractOffer n))) (\<lambda>m.
        andThen (cn_send env m (entityId n) OnCounterOfferSent) (\<lambda>_. ret False)))"

definition provider_processDeclining ::
  "('tok, 'pol) cnm_env \<Rightarrow> int \<Rightarrow> 'pol contract_negotiation \<Rightarrow> ('pol cnm, bool) op" where
  "provider_processDeclining env now n =
     cn_delayed env now n
       (andThen (liftE (build_rejection n (correlationId n))) (\<lambda>m.
        andThen (cn_send env m (entityId n) OnRejectionSent) (\<lambda>_. ret False)))"

definition processConfirming ::
  "('tok, 'pol) cnm_env \<Rightarrow> int \<Rightarrow> string \<Rightarrow> 'pol contract_negotiation \<Rightarrow> ('pol cnm, bool) op" where
  "processConfirming env now uuid n =
     cn_delayed env now n
       (andThen (liftE (case contractAgreement n of
                          Some a \<Rightarrow> Inr (Some a)
                        | None \<Rightarrow> agreementFor now uuid (getLastContractOffer n))) (\<lambda>agreement.
          case agreement of
            None \<Rightarrow> ret False
          | Some a \<Rightarrow>
              andThen (liftE (build_agreementRequest n (correlationId n) a)) (\<lambda>m.
              andThen (cn_send env m (entityId n) (OnProviderAgreementSent a)) (\<lambda>_. ret True))))"

definition provider_states :: "contractNegotiationStates list" where
  "provider_states = [CN_PROVIDER_OFFERING, CN_DECLINING, CN_CONFIRMING]"

definition provider_process ::
  "('tok, 'pol) cnm_env \<Rightarrow> int \<Rightarrow> string \<Rightarrow> contractNegotiationStates \<Rightarrow> 'pol contract_negotiation \<Rightarrow>
   ('pol cnm, bool) op" where
  "provider_process env now uuid st n =
     (case st of
        CN_PROVIDER_OFFERING \<Rightarrow> processProviderOffering env now n
      | CN_DECLINING \<Rightarrow> provider_processDeclining env now n
      | CN_CONFIRMING \<Rightarrow> processConfirming env now uuid n
      | _ \<Rightarrow> ret False)"

section \<open>Commands\<close>

definition cn_cancel_modify :: "int \<Rightarrow> 'pol contract_negotiation \<Rightarrow> 'pol contract_negotiation" where
  "cn_cancel_modify now n = cn_transitionError now (Some ''Cancelled'') n"

definition singleContractNegotiationCommand ::
  "int \<Rightarrow> ('pol contract_negotiation \<Rightarrow> 'pol contract_negotiation) \<Rightarrow> string \<Rightarrow> ('pol cnm, unit) op" where
  "singleContractNegotiationCommand now modify' negotiationId =
     andThen (cn_find now negotiationId) (\<lambda>found.
       case found of
         None \<Rightarrow> throw (EdcException (''Could not find ContractNegotiation with ID ['' @ negotiationId @ '']''))
       | Some n \<Rightarrow> cn_save now (modify' n))"

definition cn_handle :: "int \<Rightarrow> cnCommand \<Rightarrow> ('pol cnm, unit) op" where
  "cn_handle now c =
     (case c of CancelNegotiation ident \<Rightarrow>
        singleContractNegotiationCommand now (cn_cancel_modify now) ident)"

definition cn_enqueueCommand :: "cnCommand command \<Rightarrow> ('pol cnm, unit) op" where
  "cn_enqueueCommand c s =
     (case enqueue c (cnQueue s) of
        Inl e \<Rightarrow> (Inl e, s)
      | Inr q \<Rightarrow> (Inr (), s\<lparr>cnQueue := q\<rparr>))"

definition cn_processCommand :: "int \<Rightarrow> cnCommand command \<Rightarrow> ('pol cnm, bool) op" where
  "cn_processCommand now c s =
     (case processCommandQueue (\<lambda>cmd. Some (cn_handle now cmd)) c (cnQueue s, s) of
        (r, (q, s')) \<Rightarrow> (r, s'\<lparr>cnQueue := q\<rparr>))"

definition cn_dequeueCommands :: "int \<Rightarrow> ('pol cnm, cnCommand command list) op" where
  "cn_dequeueCommands n s =
     (case dequeueN n (cnQueue s) of
        Inl e \<Rightarrow> (Inl e, s)
      | Inr (cs, q) \<Rightarrow> (Inr cs, s\<lparr>cnQueue := q\<rparr>))"

end
