(* ===== verification/Negotiation_System.thy ===== *)
theory Negotiation_System
  imports Provider_Negotiation
begin

text \<open>
  The two negotiation managers of a connector at work: the processors of their loops, and the
  transition system in which the handlers of both loops, the callbacks of sends, the commands and
  the calls of clients and counter-parties are interleaved on the common store.
\<close>

section \<open>The loops\<close>

text \<open>\<open>uuids\<close> gives the random identifier a handler draws for an entity.\<close>

definition manager_states :: "cnType \<Rightarrow> contractNegotiationStates list" where
  "manager_states ty = (case ty of CN_CONSUMER \<Rightarrow> consumer_states | CN_PROVIDER \<Rightarrow> provider_states)"

definition manager_process ::
  "('tok, 'pol) cnm_env \<Rightarrow> int \<Rightarrow> string \<Rightarrow> cnType \<Rightarrow> contractNegotiationStates \<Rightarrow>
   'pol contract_negotiation \<Rightarrow> ('pol cnm, bool) op" where
  "manager_process env now uuid ty =
     (case ty of
        CN_CONSUMER \<Rightarrow> consumer_process env now uuid
      | CN_PROVIDER \<Rightarrow> provider_process env now uuid)"

definition processNegotiationsInState ::
  "('tok, 'pol) cnm_env \<Rightarrow> int \<Rightarrow> (string \<Rightarrow> string) \<Rightarrow> int \<Rightarrow> cnType \<Rightarrow> contractNegotiationStates \<Rightarrow>
   ('pol cnm, int) op" where
  "processNegotiationsInState env now uuids batchSize ty st =
     stateProcessor (cn_nextForState now (cn_code st) batchSize)
       (\<lambda>n. manager_process env now (uuids (entityId n)) ty st n)"

definition cn_onCommands :: "int \<Rightarrow> ('pol cnm, int) op" where
  "cn_onCommands now = stateProcessor (cn_dequeueCommands 5) (cn_processCommand now)"

definition negotiation_processors ::
  "('tok, 'pol) cnm_env \<Rightarrow> int \<Rightarrow> (string \<Rightarrow> string) \<Rightarrow> int \<Rightarrow> cnType \<Rightarrow> ('pol cnm, int) op list" where
  "negotiation_processors env now uuids batchSize ty =
     map (processNegotiationsInState env now uuids batchSize ty) (manager_states ty) @ [cn_onCommands now]"

section \<open>Calls from outside\<close>

datatype ('tok, 'pol) cnCall =
    Initiate string "'pol contractOfferRequest"
  | ConsumerOfferReceived 'tok string "'pol contractOffer"
  | ConsumerConfirmed 'tok string "'pol contractAgreement"
  | ConsumerDeclined string
  | ProviderRequested string 'tok "'pol contractOfferRequest"
  | ProviderOfferReceived 'tok string "'pol contractOffer"
  | ProviderConsumerApproved string
  | ProviderDeclined string

definition cn_call ::
  "('tok, 'pol) cnm_env \<Rightarrow> int \<Rightarrow> ('tok, 'pol) cnCall \<Rightarrow>
   ('pol cnm, 'pol contract_negotiation statusResult) op" where
  "cn_call env now c =
     (case c of
        Initiate uuid r \<Rightarrow> cn_initiate env now uuid r
      | ConsumerOfferReceived token ident offer \<Rightarrow> consumer_offerReceived env now token ident offer
      | ConsumerConfirmed token ident a \<Rightarrow> consumer_confirmed env now token ident a
      | ConsumerDeclined ident \<Rightarrow> consumer_declined now ident
      | ProviderRequested uuid token r \<Rightarrow> cn_requested env now uuid token r
      | ProviderOfferReceived token ident offer \<Rightarrow> provider_offerReceived env now token ident offer
      | ProviderConsumerApproved ident \<Rightarrow> consumerApproved now ident
      | ProviderDeclined ident \<Rightarrow> provider_declined now ident)"

text \<open>The random identifiers of new negotiations have not been used before.\<close>

definition fresh_call :: "'pol cnm \<Rightarrow> ('tok, 'pol) cnCall \<Rightarrow> bool" where
  "fresh_call s c =
     (case c of
        Initiate uuid r \<Rightarrow> map_of (cnStore s) uuid = None
      | ProviderRequested uuid token r \<Rightarrow> map_of (cnStore s) uuid = None
      | _ \<Rightarrow> True)"

section \<open>Every interleaving\<close>

text \<open>
  A state: the data, and for each manager the negotiations its thread has fetched and not handled
  yet, with the state they were fetched for. Every step may see another environment of \<open>E\<close>.
\<close>

type_synonym 'pol cn_work = "cnType \<Rightarrow> (contractNegotiationStates \<times> 'pol contract_negotiation) list"

inductive cnm_step ::
  "('tok, 'pol) cnm_env set \<Rightarrow> 'pol cnm \<times> 'pol cn_work \<Rightarrow> 'pol cnm \<times> 'pol cn_work \<Rightarrow> bool"
  for E :: "('tok, 'pol) cnm_env set" where
  cn_fetch:
    "w ty = [] \<Longrightarrow> st \<in> set (manager_states ty) \<Longrightarrow>
     cn_nextForState now (cn_code st) k s = (Inr ns, s') \<Longrightarrow>
     cnm_step E (s, w) (s', w(ty := map (Pair st) ns))"
| cn_handled:
    "env \<in> E \<Longrightarrow> w ty = (st, n) # rest \<Longrightarrow>
     manager_process env now uuid ty st (sharedOffers s n) s = (r, s') \<Longrightarrow>
     cnm_step E (s, w) (s', w(ty := (case r of Inl _ \<Rightarrow> [] | Inr _ \<Rightarrow> rest)))"
| cn_sent:
    "env \<in> E \<Longrightarrow> cnPending s = xs @ c # ys \<Longrightarrow>
     cnm_step E (s, w) (snd (asyncSendResult env now c (s\<lparr>cnPending := xs @ ys\<rparr>)), w)"
| cn_command:
    "cn_dequeueCommands 1 s = (Inr [c], s') \<Longrightarrow>
     cnm_step E (s, w) (snd (cn_processCommand now c s'), w)"
| cn_enqueue: "cnm_step E (s, w) (snd (cn_enqueueCommand cmd s), w)"
| cn_called:
    "env \<in> E \<Longrightarrow> fresh_call s call \<Longrightarrow>
     cnm_step E (s, w) (snd (cn_call env now call s), w)"

inductive_cases cnm_stepE: "cnm_step E x y"

end
