(* ===== verification/Api_Negotiations.thy ===== *)
theory Api_Negotiations
  imports Api_Http Negotiation_System
begin

text \<open>
  The data management API of contract negotiations, in
  \<open>extensions/api/data-management/contractnegotiation\<close>: the controller
  \<open>ContractNegotiationApiController\<close> over \<open>ContractNegotiationServiceImpl\<close>, on the negotiation
  managers, with the DTOs it reads and writes. The transaction context runs its block as it is.
  Queries of all negotiations are not modelled.
\<close>

section \<open>Data transfer objects\<close>

text \<open>
  What the API gets from elsewhere: whether null fields are written, how a policy is written,
  which strings are blank for the library of \<open>isNoneBlank\<close>, and the message, the template and the
  path of a violation of \<open>@NotNull\<close> on a field of a request.
\<close>

record 'pol api_env =
  nullsWritten :: bool
  policyJson :: "'pol \<Rightarrow> json"
  isBlank :: "string \<Rightarrow> bool"
  notNullViolation :: "string \<Rightarrow> string \<times> string \<times> string"

fun cnTypeName :: "cnType \<Rightarrow> string" where
  "cnTypeName CN_CONSUMER = ''CONSUMER''"
| "cnTypeName CN_PROVIDER = ''PROVIDER''"

text \<open>\<open>ContractNegotiationToContractNegotiationDtoTransformer\<close> and the DTO as it is written.\<close>

definition contractNegotiationDto :: "bool \<Rightarrow> 'pol contract_negotiation \<Rightarrow> java_exn + json" where
  "contractNegotiationDto nulls n =
     (case cn_from (state n) of
        None \<Rightarrow> Inl (NullPointerException ''ContractNegotiationStates.from'')
      | Some st \<Rightarrow>
          Inr (JObj (
            string_or_null nulls ''contractAgreementId'' (map_option agreementId (contractAgreement n)) @
            [(''counterPartyAddress'', JStr (counterPartyAddress n))] @
            string_or_null nulls ''errorDetail'' (errorDetail n) @
            [(''id'', JStr (entityId n)), (''protocol'', JStr (cnProtocol n)),
             (''state'', JStr (cn_name st)), (''type'', JStr (cnTypeName (cnType n)))])))"

text \<open>\<open>ContractAgreementToContractAgreementDtoTransformer\<close>.\<close>

definition contractAgreementDto :: "('pol \<Rightarrow> json) \<Rightarrow> 'pol contractAgreement \<Rightarrow> json" where
  "contractAgreementDto writePolicy a =
     JObj [(''id'', JStr (agreementId a)), (''providerAgentId'', JStr (providerAgentId a)),
       (''consumerAgentId'', JStr (consumerAgentId a)),
       (''contractSigningDate'', JNum (contractSigningDate a)),
       (''contractStartDate'', JNum (contractStartDate a)),
       (''contractEndDate'', JNum (contractEndDate a)), (''assetId'', JStr (agreementAssetId a)),
       (''policy'', writePolicy (agreementPolicy a))]"

definition negotiationState :: "string \<Rightarrow> json" where
  "negotiationState s = JObj [(''state'', JStr s)]"

definition negotiationId :: "string \<Rightarrow> json" where
  "negotiationId ident = JObj [(''id'', JStr ident)]"

text \<open>The request, as it is read: every field may be missing.\<close>

record 'pol contractOfferDescription =
  descriptionOfferId :: "string option"
  descriptionAssetId :: "string option"
  descriptionPolicy :: "'pol option"

record 'pol negotiationInitiateRequestDto =
  dtoConnectorAddress :: "string option"
  dtoProtocol :: "string option"
  dtoConnectorId :: "string option"
  dtoOffer :: "'pol contractOfferDescription option"

text \<open>The fields with \<open>@NotNull\<close> that are null; \<open>offer\<close> has no \<open>@Valid\<close>, so its own are not checked.\<close>

definition initiateViolations ::
  "'pol negotiationInitiateRequestDto \<Rightarrow> (string \<Rightarrow> string \<times> string \<times> string) \<Rightarrow>
   (string \<times> string \<times> string \<times> string) list" where
  "initiateViolations dto violation =
     map (\<lambda>(f, _). case violation f of (m, t, p) \<Rightarrow> (m, t, p, ''null''))
       (filter snd [(''connectorAddress'', dtoConnectorAddress dto = None), (''protocol'', dtoProtocol dto = None),
          (''connectorId'', dtoConnectorId dto = None), (''offer'', dtoOffer dto = None)])"

definition isNoneBlank :: "(string \<Rightarrow> bool) \<Rightarrow> string option list \<Rightarrow> bool" where
  "isNoneBlank blank = list_all (\<lambda>x. case x of None \<Rightarrow> False | Some s \<Rightarrow> \<not> blank s)"

definition isValid :: "(string \<Rightarrow> bool) \<Rightarrow> 'pol negotiationInitiateRequestDto \<Rightarrow> java_exn + bool" where
  "isValid blank dto =
     (case dtoOffer dto of
        None \<Rightarrow> Inl (NullPointerException ''getOffer'')
      | Some off \<Rightarrow>
          Inr (isNoneBlank blank [dtoConnectorId dto, dtoConnectorAddress dto, dtoProtocol dto,
            descriptionOfferId off, descriptionAssetId off]))"

text \<open>
  \<open>NegotiationInitiateRequestDtoToDataRequestTransformer\<close>, with the checks of the builders it
  calls. The request has passed \<open>isValid\<close>, so its asset identifier is not null.
\<close>

definition toContractOfferRequest ::
  "'pol negotiationInitiateRequestDto \<Rightarrow> java_exn + 'pol contractOfferRequest" where
  "toContractOfferRequest dto =
     (case dtoOffer dto of
        None \<Rightarrow> Inl (NullPointerException ''getOffer'')
      | Some off \<Rightarrow>
          (case descriptionOfferId off of
             None \<Rightarrow> Inl (NullPointerException [])
           | Some oid \<Rightarrow>
               (case descriptionPolicy off of
                  None \<Rightarrow> Inl (IllegalArgumentException ''Policy must not be null!'')
                | Some pol \<Rightarrow>
                    (case (dtoProtocol dto, dtoConnectorId dto, dtoConnectorAddress dto) of
                       (Some protocol, Some connectorId, Some connectorAddress) \<Rightarrow>
                         Inr \<lparr>offerRequestType = OFFER_INITIAL, requestProtocol = protocol,
                           requestConnectorId = connectorId, requestConnectorAddress = connectorAddress,
                           requestCorrelationId = None,
                           requestOffer = \<lparr>offerId = oid, offerPolicy = pol,
                             offerAsset = map_option (\<lambda>a. \<lparr>theAssetId = a, assetProperties = []\<rparr>)
                               (descriptionAssetId off),
                             offerAssetId = None, offerProvider = Some ''urn:connector:provider'',
                             offerConsumer = Some ''urn:connector:consumer'', offerStart = None,
                             offerEnd = None, contractStart = None, contractEnd = None\<rparr>\<rparr>
                     | _ \<Rightarrow> Inl (NullPointerException ''protocol, connectorId or connectorAddress'')))))"

section \<open>The service\<close>

definition getState :: "int \<Rightarrow> string \<Rightarrow> ('pol cnm, string option) op" where
  "getState now ident =
     andThen (cn_find now ident) (\<lambda>found.
       ret (case found of
              None \<Rightarrow> None
            | Some n \<Rightarrow> map_option cn_name (cn_from (state n))))"

definition getForNegotiation :: "int \<Rightarrow> string \<Rightarrow> ('pol cnm, 'pol contractAgreement option) op" where
  "getForNegotiation now ident =
     andThen (cn_find now ident) (\<lambda>found.
       ret (case found of None \<Rightarrow> None | Some n \<Rightarrow> contractAgreement n))"

text \<open>\<open>null\<close> when the manager reports a failure.\<close>

definition initiateNegotiation ::
  "('tok, 'pol) cnm_env \<Rightarrow> int \<Rightarrow> string \<Rightarrow> 'pol contractOfferRequest \<Rightarrow>
   ('pol cnm, 'pol contract_negotiation option) op" where
  "initiateNegotiation env now uuid r =
     andThen (cn_initiate env now uuid r) (\<lambda>result.
       ret (case result of StatusSuccess n \<Rightarrow> Some n | StatusFailure _ _ \<Rightarrow> None))"

definition cancelNegotiation_service ::
  "int \<Rightarrow> string \<Rightarrow> string \<Rightarrow> ('pol cnm, 'pol contract_negotiation serviceResult) op" where
  "cancelNegotiation_service now uuid ident =
     andThen (cn_find now ident) (\<lambda>found.
       case found of
         None \<Rightarrow> ret (ServiceFailure NOT_FOUND [''ContractNegotiation '' @ ident @ '' does not exist''])
       | Some n \<Rightarrow>
           andThen (cn_enqueueCommand \<lparr>commandId = uuid, errorCount = 0, payload = CancelNegotiation ident\<rparr>)
             (\<lambda>_. ret (ServiceSuccess n)))"

text \<open>Every exception is a conflict; an error is not an exception.\<close>

definition declineNegotiation_service ::
  "int \<Rightarrow> string \<Rightarrow> ('pol cnm, 'pol contract_negotiation serviceResult) op" where
  "declineNegotiation_service now ident s =
     (case consumer_declined now ident s of
        (Inr (StatusSuccess n), s') \<Rightarrow> (Inr (ServiceSuccess n), s')
      | (Inr (StatusFailure _ _), s') \<Rightarrow>
          (Inr (ServiceFailure CONFLICT [''Cannot decline ContractNegotiation '' @ ident]), s')
      | (Inl (JavaError m), s') \<Rightarrow> (Inl (JavaError m), s')
      | (Inl e, s') \<Rightarrow>
          (Inr (ServiceFailure CONFLICT
             [''Cannot decline ContractNegotiation '' @ ident @ '': '' @ exnMessage e]), s'))"

section \<open>The controller\<close>

definition getNegotiation :: "'pol api_env \<Rightarrow> int \<Rightarrow> string \<Rightarrow> ('pol cnm, json option) api_op" where
  "getNegotiation api now ident s =
     foundOrThrow ''ContractDefinition'' ident
       (andThen (cn_find now ident) (\<lambda>found.
          case found of
            None \<Rightarrow> ret None
          | Some n \<Rightarrow> andThen (liftE (contractNegotiationDto (nullsWritten api) n)) (\<lambda>j. ret (Some j))) s)"

definition getNegotiationState :: "int \<Rightarrow> string \<Rightarrow> ('pol cnm, json option) api_op" where
  "getNegotiationState now ident s =
     foundOrThrow ''ContractDefinition'' ident
       (andThen (getState now ident) (\<lambda>st. ret (map_option negotiationState st)) s)"

definition getAgreementForNegotiation :: "'pol api_env \<Rightarrow> int \<Rightarrow> string \<Rightarrow> ('pol cnm, json option) api_op" where
  "getAgreementForNegotiation api now ident s =
     foundOrThrow ''ContractDefinition'' ident
       (andThen (getForNegotiation now ident) (\<lambda>a.
          ret (map_option (contractAgreementDto (policyJson api)) a)) s)"

definition cancelNegotiation :: "int \<Rightarrow> string \<Rightarrow> string \<Rightarrow> ('pol cnm, json option) api_op" where
  "cancelNegotiation now uuid ident s =
     voidOrThrow ''ContractNegotiation'' ident (cancelNegotiation_service now uuid ident s)"

definition declineNegotiation :: "int \<Rightarrow> string \<Rightarrow> ('pol cnm, json option) api_op" where
  "declineNegotiation now ident s =
     voidOrThrow ''ContractNegotiation'' ident (declineNegotiation_service now ident s)"

text \<open>The container validates the request before it calls the method; an absent body is \<open>None\<close>.\<close>

definition initiateContractNegotiation ::
  "'pol api_env \<Rightarrow> ('tok, 'pol) cnm_env \<Rightarrow> int \<Rightarrow> string \<Rightarrow> 'pol negotiationInitiateRequestDto option \<Rightarrow>
   ('pol cnm, json option) api_op" where
  "initiateContractNegotiation api env now uuid body s =
     (case body of
        None \<Rightarrow> (Inl (ApiThrow (NullPointerException ''initiateDto'')), s)
      | Some dto \<Rightarrow>
          (case initiateViolations dto (notNullViolation api) of
             v # vs \<Rightarrow> (Inl (ConstraintViolationException (v # vs)), s)
           | [] \<Rightarrow>
               (case andThen (liftE (isValid (isBlank api) dto)) (\<lambda>ok.
                       if \<not> ok then throw (IllegalArgumentException ''Negotiation request is invalid'')
                       else andThen (liftE (toContractOfferRequest dto)) (\<lambda>r.
                            andThen (initiateNegotiation env now uuid r) (\<lambda>found.
                            case found of
                              None \<Rightarrow> throw (NullPointerException ''getId'')
                            | Some n \<Rightarrow> ret (Some (negotiationId (entityId n)))))) s of
                  (Inl e, s') \<Rightarrow> (Inl (ApiThrow e), s')
                | (Inr j, s') \<Rightarrow> (Inr j, s'))))"

text \<open>The requests of this API, with the random identifiers that are drawn for them.\<close>

datatype 'pol negotiationRequest =
    GetNegotiation string
  | GetNegotiationState string
  | GetAgreement string
  | PostCancel string string
  | PostDecline string
  | PostInitiate string "'pol negotiationInitiateRequestDto option"

definition serve ::
  "'pol api_env \<Rightarrow> ('tok, 'pol) cnm_env \<Rightarrow> int \<Rightarrow> 'pol negotiationRequest \<Rightarrow> ('pol cnm, json option) api_op" where
  "serve api env now r =
     (case r of
        GetNegotiation ident \<Rightarrow> getNegotiation api now ident
      | GetNegotiationState ident \<Rightarrow> getNegotiationState now ident
      | GetAgreement ident \<Rightarrow> getAgreementForNegotiation api now ident
      | PostCancel uuid ident \<Rightarrow> cancelNegotiation now uuid ident
      | PostDecline ident \<Rightarrow> declineNegotiation now ident
      | PostInitiate uuid body \<Rightarrow> initiateContractNegotiation api env now uuid body)"

end
