(* ===== verification/Negotiation_Safety.thy ===== *)
theory Negotiation_Safety
  imports Negotiation_System
begin

text \<open>
  The invariant of the negotiation managers: whatever the interleaving of both loops, callbacks,
  commands and calls, every stored negotiation is in a state of its side of the protocol, and a
  confirmed one carries its agreement.
\<close>

section \<open>Valid negotiations\<close>

definition cn_typed :: "'pol contract_negotiation \<Rightarrow> bool" where
  "cn_typed n \<longleftrightarrow> state n \<in> cn_code ` set (cn_reachable (cnType n)) \<and>
     (cnType n = CN_CONSUMER \<longleftrightarrow> correlationId n = None)"

definition cn_ok :: "'pol contract_negotiation \<Rightarrow> bool" where
  "cn_ok n \<longleftrightarrow> cn_typed n \<and> (state n = cn_code CN_CONFIRMED \<longrightarrow> contractAgreement n \<noteq> None)"

lemma cn_ok_typed: "cn_ok n \<Longrightarrow> cn_typed n"
  by (simp add: cn_ok_def)

lemma cn_typed_step: "cn_step n n' \<Longrightarrow> cn_typed n \<Longrightarrow> cn_typed n'"
  using cn_step_reachable [of n n'] by (auto simp: cn_typed_def)

lemma cn_ok_enter:
  assumes "cn_step n n'" and "cn_typed n" and "state n' \<noteq> cn_code CN_CONFIRMED"
  shows "cn_ok n'"
  using cn_typed_step [OF assms(1,2)] assms(3) by (simp add: cn_ok_def)

lemma cn_transition_state: "cn_transition now end starts n = Inr n' \<Longrightarrow> state n' = cn_code end"
  by (auto elim!: cn_transition_InrE)

lemma cn_method_state:
  "cn_transitionInitial now n = Inr n' \<Longrightarrow> state n' = cn_code CN_INITIAL"
  "cn_transitionRequesting now n = Inr n' \<Longrightarrow> state n' = cn_code CN_REQUESTING"
  "cn_transitionRequested now n = Inr n' \<Longrightarrow> state n' = cn_code CN_REQUESTED"
  "transitionOffering now n = Inr n' \<Longrightarrow> state n' \<in> {cn_code CN_CONSUMER_OFFERING, cn_code CN_PROVIDER_OFFERING}"
  "transitionOffered now n = Inr n' \<Longrightarrow> state n' \<in> {cn_code CN_CONSUMER_OFFERED, cn_code CN_PROVIDER_OFFERED}"
  "transitionApproving now n = Inr n' \<Longrightarrow> state n' = cn_code CN_CONSUMER_APPROVING"
  "transitionApproved now n = Inr n' \<Longrightarrow> state n' = cn_code CN_CONSUMER_APPROVED"
  "transitionDeclining now n = Inr n' \<Longrightarrow> state n' = cn_code CN_DECLINING"
  "transitionDeclined now n = Inr n' \<Longrightarrow> state n' = cn_code CN_DECLINED"
  "transitionConfirming now n = Inr n' \<Longrightarrow> state n' = cn_code CN_CONFIRMING"
  by (auto simp: cn_transition_defs simp del: cn_code.simps dest: cn_transition_state split: if_splits)

lemma cn_ok_transitions:
  "cn_transitionInitial now n = Inr n' \<Longrightarrow> cn_typed n \<Longrightarrow> cn_ok n'"
  "cn_transitionRequesting now n = Inr n' \<Longrightarrow> cn_typed n \<Longrightarrow> cn_ok n'"
  "cn_transitionRequested now n = Inr n' \<Longrightarrow> cn_typed n \<Longrightarrow> cn_ok n'"
  "transitionOffering now n = Inr n' \<Longrightarrow> cn_typed n \<Longrightarrow> cn_ok n'"
  "transitionOffered now n = Inr n' \<Longrightarrow> cn_typed n \<Longrightarrow> cn_ok n'"
  "transitionApproving now n = Inr n' \<Longrightarrow> cn_typed n \<Longrightarrow> cn_ok n'"
  "transitionApproved now n = Inr n' \<Longrightarrow> cn_typed n \<Longrightarrow> cn_ok n'"
  "transitionDeclining now n = Inr n' \<Longrightarrow> cn_typed n \<Longrightarrow> cn_ok n'"
  "transitionDeclined now n = Inr n' \<Longrightarrow> cn_typed n \<Longrightarrow> cn_ok n'"
  "transitionConfirming now n = Inr n' \<Longrightarrow> cn_typed n \<Longrightarrow> cn_ok n'"
  by (rule cn_ok_enter; fastforce intro: cn_step.intros dest: cn_method_state)+

lemma cn_ok_confirmed:
  assumes "transitionConfirmed now n = Inr n'" and "cn_typed n" and "contractAgreement n \<noteq> None"
  shows "cn_ok n'"
proof -
  have "contractAgreement n' = contractAgreement n"
    using assms(1) by (auto simp: transitionConfirmed_def elim!: cn_transition_InrE split: if_splits)
  moreover have "cn_typed n'" using assms(1,2) by (blast intro: cn_typed_step cn_step.intros)
  ultimately show ?thesis using assms(3) by (simp add: cn_ok_def)
qed

lemma cn_ok_writes [simp]:
  "cn_ok (addContractOffer x n) = cn_ok n" "cn_typed (addContractOffer x n) = cn_typed n"
  "cn_ok (setErrorDetail m n) = cn_ok n" "cn_typed (setErrorDetail m n) = cn_typed n"
  "cn_typed (setContractAgreement a n) = cn_typed n"
  "cn_ok (copy_negotiation now n) = cn_ok n"
  by (simp_all add: cn_ok_def cn_typed_def)

lemma cn_ok_after_agreement [simp]: "cn_typed n \<Longrightarrow> cn_ok (setContractAgreement (Some a) n)"
  by (simp add: cn_ok_def cn_typed_def)

lemma cn_ok_error: "cn_typed n \<Longrightarrow> cn_ok (cn_transitionError now m n)"
  by (rule cn_ok_enter) (auto intro: cn_step.intros)

lemma cn_ok_sharedOffers: "cn_ok n \<Longrightarrow> cn_ok (sharedOffers s n)"
  by (auto simp: cn_ok_def cn_typed_def sharedOffers_def split: option.splits)

lemma cn_typed_new: "state n = cn_code CN_UNSAVED \<Longrightarrow>
    (cnType n = CN_CONSUMER \<longleftrightarrow> correlationId n = None) \<Longrightarrow> cn_typed n"
  by (simp add: cn_typed_def cn_reachable_def)

section \<open>The invariant\<close>

declare keeps_andThen [rule del]
declare keeps_seq [intro!]

definition cnm_ok :: "'pol cnm \<Rightarrow> bool" where
  "cnm_ok s \<longleftrightarrow> store_ok (cnStore s) \<and> (\<forall>x \<in> set (cnStore s). cn_ok (item (snd x))) \<and>
     within_bound (cnQueue s)"

lemma cnm_ok_other [simp]:
  "cnm_ok (s\<lparr>cnEvents := es\<rparr>) = cnm_ok s" "cnm_ok (s\<lparr>cnSent := ms\<rparr>) = cnm_ok s"
  "cnm_ok (s\<lparr>cnPending := ps\<rparr>) = cnm_ok s"
  by (simp_all add: cnm_ok_def)

lemma keeps_cn_save [intro!]:
  fixes n :: "'a contract_negotiation"
  shows "cn_ok n \<Longrightarrow> keeps cnm_ok (cn_save now n)"
  unfolding cn_save_def
proof (rule keeps_modify)
  fix s :: "'a cnm"
  assume ok: "cn_ok n" "cnm_ok s"
  then show "cnm_ok (s\<lparr>cnStore := upsert (copy_negotiation now) n (cnStore s)\<rparr>)"
    using cn_store.upsert_ok [of "cnStore s" now n]
    by (auto simp: cnm_ok_def upsert_def store_ok_def set_put new_item_def)
qed

lemma cnm_ok_inPlace:
  assumes "cnm_ok s"
    and "\<And>n. cn_ok n \<Longrightarrow> entityId n = k \<Longrightarrow> cn_ok (f n) \<and> entityId (f n) = k"
  shows "cnm_ok (s\<lparr>cnStore := inPlace k f (cnStore s)\<rparr>)"
proof -
  have keys: "map fst (inPlace k f m) = map fst m" for m by (induction m) (auto simp: inPlace_def)
  have "entityId (item (snd x)) = fst x \<and> cn_ok (item (snd x))" if "x \<in> set (inPlace k f (cnStore s))" for x
  proof -
    from that obtain i where i: "(fst x, i) \<in> set (cnStore s)"
      and x: "snd x = (if fst x = k then i\<lparr>item := f (item i)\<rparr> else i)"
      by (auto simp: inPlace_def)
    with assms(1) have "cn_ok (item i)" "entityId (item i) = fst x"
      by (fastforce simp: cnm_ok_def store_ok_def)+
    with assms(2) x show ?thesis by simp
  qed
  with assms(1) keys show ?thesis by (auto simp: cnm_ok_def store_ok_def keys_distinct_def)
qed

lemma keeps_cn_assign [intro!]: "(aliased \<Longrightarrow> cn_ok n) \<Longrightarrow> keeps cnm_ok (cn_assign aliased n)"
  unfolding cn_assign_def
  by (rule keeps_modify) (simp add: cnm_ok_inPlace)

lemma keeps_cn_addOffer:
  assumes "keeps cnm_ok (f (addContractOffer x n))"
  shows "keeps cnm_ok (andThen (cn_addOffer x n) f)"
proof -
  have "andThen (cn_addOffer x n) f =
      andThen (modify (\<lambda>s. s\<lparr>cnStore := inPlace (entityId n) (addContractOffer x) (cnStore s)\<rparr>))
        (\<lambda>_. f (addContractOffer x n))"
    by (simp add: cn_addOffer_def andThen_assoc) (simp add: fun_eq_iff)
  with assms show ?thesis by (simp add: keeps_seq keeps_modify cnm_ok_inPlace)
qed

lemma keeps_cn_notify [intro!]: "keeps cnm_ok (cn_notify ev n)"
  unfolding cn_notify_def by (rule keeps_modify) simp

lemma keeps_cn_send [intro!]: "keeps cnm_ok (cn_send env m k c)"
  unfolding cn_send_def by (rule keeps_modify) (simp add: cnm_ok_def)

lemma keeps_cn_find [intro!]:
  fixes f :: "'pol contract_negotiation option \<Rightarrow> ('pol cnm, 'a) op"
  assumes "keeps cnm_ok (f None)" and "\<And>n. cn_ok n \<Longrightarrow> keeps cnm_ok (f (Some n))"
  shows "keeps cnm_ok (andThen (cn_find now k) f)"
  unfolding cn_find_def
proof (rule keeps_gets_andThen)
  fix a :: "'pol contract_negotiation option"
  assume "\<exists>s. cnm_ok s \<and> find_entity (copy_negotiation now) k (cnStore s) = a"
  then have "\<And>n. a = Some n \<Longrightarrow> cn_ok n"
    by (fastforce simp: cnm_ok_def find_entity_def split: option.splits dest!: map_of_SomeD)
  with assms show "keeps cnm_ok (f a)" by (cases a) auto
qed

lemma keeps_findForCorrelationId [intro!]:
  fixes f :: "'pol contract_negotiation option \<Rightarrow> ('pol cnm, 'a) op"
  assumes "keeps cnm_ok (f None)"
    and "\<And>n. cn_ok n \<Longrightarrow> correlationId n \<noteq> None \<Longrightarrow> keeps cnm_ok (f (Some n))"
  shows "keeps cnm_ok (andThen (findForCorrelationId k) f)"
  unfolding findForCorrelationId_def
proof (rule keeps_gets_andThen)
  fix a :: "'pol contract_negotiation option"
  assume "\<exists>s. cnm_ok s \<and>
    List.find (\<lambda>n. correlationId n = Some k) (findAll_entities (cnStore s)) = a"
  then have "\<And>n. a = Some n \<Longrightarrow> cn_ok n \<and> correlationId n \<noteq> None"
    by (fastforce simp: cnm_ok_def findAll_entities_def dest!: find_SomeD)
  with assms show "keeps cnm_ok (f a)" by (cases a) auto
qed

lemma keeps_find_either [intro!]:
  assumes "keeps cnm_ok (f None)"
    and "\<And>aliased n. cn_ok n \<Longrightarrow> (aliased \<Longrightarrow> cnType n = CN_PROVIDER) \<Longrightarrow>
      keeps cnm_ok (f (Some (aliased, n)))"
  shows "keeps cnm_ok (andThen (findContractNegotiationById now k) f)"
proof -
  have "cnType n = CN_PROVIDER" if "cn_ok n" "correlationId n \<noteq> None" for n :: "'a contract_negotiation"
    using that by (cases "cnType n") (auto simp: cn_ok_def cn_typed_def)
  with assms show ?thesis
    unfolding findContractNegotiationById_def andThen_assoc
    by (intro keeps_cn_find) (auto simp: andThen_assoc)
qed

text \<open>A transition, if it is allowed, followed by what the manager does with the negotiation.\<close>

lemma keeps_cn_transitions [intro!]:
  assumes "cn_typed n" and "\<And>n'. cn_ok n' \<Longrightarrow> keeps cnm_ok (g n')"
  shows "keeps cnm_ok (andThen (liftE (cn_transitionInitial now n)) g)"
    "keeps cnm_ok (andThen (liftE (cn_transitionRequesting now n)) g)"
    "keeps cnm_ok (andThen (liftE (cn_transitionRequested now n)) g)"
    "keeps cnm_ok (andThen (liftE (transitionOffering now n)) g)"
    "keeps cnm_ok (andThen (liftE (transitionOffered now n)) g)"
    "keeps cnm_ok (andThen (liftE (transitionApproving now n)) g)"
    "keeps cnm_ok (andThen (liftE (transitionApproved now n)) g)"
    "keeps cnm_ok (andThen (liftE (transitionDeclining now n)) g)"
    "keeps cnm_ok (andThen (liftE (transitionDeclined now n)) g)"
    "keeps cnm_ok (andThen (liftE (transitionConfirming now n)) g)"
  using assms
  by (auto intro!: keeps_liftE_andThen intro: cn_ok_transitions simp del: cn_code.simps)

section \<open>Operations, handlers and callbacks\<close>

lemma keeps_cn_confirm [intro!]:
  assumes "cn_typed n" and "\<And>n'. cn_ok n' \<Longrightarrow> keeps cnm_ok (g n')"
  shows "keeps cnm_ok (andThen (liftE (transitionConfirmed now (setContractAgreement (Some a) n))) g)"
  using assms by (intro keeps_liftE_andThen) (auto dest!: cn_ok_confirmed)

lemma build_negotiation_ok:
  assumes "build_negotiation now (Some uuid) (new_negotiation ty cor prot party addr tc) = Inr n"
    and "ty = CN_CONSUMER \<Longrightarrow> cor = None"
  shows "cn_typed n"
  using assms
  by (intro cn_typed_new)
     (cases ty; auto simp: build_negotiation_def entity_build_def new_negotiation_def Let_def split: if_splits)+

lemma keeps_cn_initiate: "keeps cnm_ok (cn_initiate env now uuid r)"
  unfolding cn_initiate_def
  by (rule keeps_liftE_andThen) (auto dest: build_negotiation_ok)

lemma keeps_consumer_offerReceived: "keeps cnm_ok (consumer_offerReceived env now token k x)"
  unfolding consumer_offerReceived_def Let_def
  by (auto split: option.splits result.splits list.splits intro!: keeps_cn_addOffer simp: cn_ok_typed)

lemma keeps_consumer_confirmed: "keeps cnm_ok (consumer_confirmed env now token k a)"
proof -
  have "cn_ok n'" if "cn_ok n" "(if state n \<noteq> cn_code CN_CONFIRMED
      then transitionConfirmed now (setContractAgreement (Some a) n)
      else Inr (setContractAgreement (Some a) n)) = Inr n'" for n n'
    using that by (auto split: if_splits simp: cn_ok_typed simp del: cn_code.simps dest!: cn_ok_confirmed)
  then have confirm: "keeps cnm_ok (andThen (liftE (if state n \<noteq> cn_code CN_CONFIRMED
      then transitionConfirmed now (setContractAgreement (Some a) n)
      else Inr (setContractAgreement (Some a) n))) g)"
    if "cn_ok n" "\<And>n'. cn_ok n' \<Longrightarrow> keeps cnm_ok (g n')" for n g
    using that by (blast intro: keeps_liftE_andThen)
  show ?thesis
    unfolding consumer_confirmed_def Let_def setters_simps
    by (rule keeps_cn_find)
       (auto intro!: confirm keeps_if simp: cn_ok_typed simp del: cn_code.simps split: option.split split del: if_split)
qed

lemma keeps_consumer_declined: "keeps cnm_ok (consumer_declined now k)"
  unfolding consumer_declined_def by (auto simp: cn_ok_typed)

lemma cn_assign_twice:
  assumes "entityId n' = entityId n"
  shows "andThen (cn_assign b n) (\<lambda>_. andThen (cn_assign b n') f) = andThen (cn_assign b n') f"
proof (rule ext)
  fix s
  have "inPlace k (\<lambda>_. n') (inPlace k (\<lambda>_. n) m) = inPlace k (\<lambda>_. n') m" for k m
    by (induction m) (auto simp: inPlace_def)
  with assms show "andThen (cn_assign b n) (\<lambda>_. andThen (cn_assign b n') f) s = andThen (cn_assign b n') f s"
    by (simp add: cn_assign_def)
qed

text \<open>
  \<open>provider_declined\<close> takes the agreement away before it makes the transition: on the stored
  object itself this shows only if the transition is refused, which it is not for a confirmed
  negotiation of a provider.
\<close>

lemma keeps_provider_declined: "keeps cnm_ok (provider_declined now k)"
proof -
  have step: "keeps cnm_ok (andThen (cn_assign aliased n0) (\<lambda>_.
      andThen (liftE (transitionDeclined now n0)) (\<lambda>n'.
      andThen (cn_assign aliased n') (\<lambda>_. g n'))))"
    if n0: "cn_typed n0" "aliased \<Longrightarrow> \<not> cn_ok n0 \<Longrightarrow> cnType n0 = CN_PROVIDER"
      and g: "\<And>n'. cn_ok n' \<Longrightarrow> keeps cnm_ok (g n')" for aliased n0 g
  proof (cases "aliased \<and> \<not> cn_ok n0")
    case True
    with n0 have "state n0 = cn_code CN_CONFIRMED" "cnType n0 = CN_PROVIDER"
      by (auto simp: cn_ok_def)
    then have r: "transitionDeclined now n0 = Inr (transitionTo now (cn_code CN_DECLINED) n0)"
      by (simp add: transitionDeclined_def cn_transition_def)
    then have "cn_ok (transitionTo now (cn_code CN_DECLINED) n0)"
      using n0(1) by (rule cn_ok_transitions)
    with g have "keeps cnm_ok (andThen (cn_assign aliased (transitionTo now (cn_code CN_DECLINED) n0))
        (\<lambda>_. g (transitionTo now (cn_code CN_DECLINED) n0)))" by auto
    then show ?thesis by (simp add: r cn_assign_twice)
  qed (use n0 g in auto)
  show ?thesis
    unfolding provider_declined_def Let_def
  proof (rule keeps_find_either, goal_cases)
    case (2 aliased n)
    show ?case unfolding option.case prod.case
      by (rule step) (use 2 in \<open>auto simp: cn_ok_typed\<close>)
  qed simp
qed

lemma keeps_processIncomingOffer [intro!]:
  assumes "cn_typed n" and "aliased \<Longrightarrow> cn_ok n"
  shows "keeps cnm_ok (processIncomingOffer env now aliased n token x)"
  unfolding processIncomingOffer_def Let_def using assms
  by (intro keeps_cn_addOffer) (auto split: result.splits list.splits)

lemma keeps_cn_requested: "keeps cnm_ok (cn_requested env now uuid token r)"
proof -
  have "cn_typed n" if "build_negotiation now (Some uuid)
      (new_negotiation CN_PROVIDER (requestCorrelationId r) p q a tc) = Inr n" for n p q a tc
    using that build_negotiation_ok [OF that] by simp
  then show ?thesis
    unfolding cn_requested_def
    by (intro keeps_liftE_andThen keeps_cn_transitions(3)) (auto simp: cn_ok_typed)
qed

lemma keeps_provider_calls:
  "keeps cnm_ok (provider_offerReceived env now token k x)" "keeps cnm_ok (consumerApproved now k)"
  unfolding provider_offerReceived_def consumerApproved_def by (auto simp: cn_ok_typed)

lemma keeps_cn_call: "keeps cnm_ok (cn_call env now c)"
  by (cases c) (simp_all add: cn_call_def keeps_cn_initiate keeps_consumer_offerReceived
      keeps_consumer_confirmed keeps_consumer_declined keeps_cn_requested keeps_provider_calls
      keeps_provider_declined)

lemma keeps_cn_delayed [intro!]: "cn_ok n \<Longrightarrow> keeps cnm_ok m \<Longrightarrow> keeps cnm_ok (cn_delayed env now n m)"
  unfolding cn_delayed_def cn_breakLease_def by auto

lemmas cn_handler_defs =
  cn_processInitial_def cn_processRequesting_def processConsumerOffering_def
  processConsumerApproving_def consumer_processDeclining_def sendOffer_def
  processProviderOffering_def provider_processDeclining_def processConfirming_def

lemma keeps_manager_process: "cn_ok n \<Longrightarrow> keeps cnm_ok (manager_process env now uuid ty st n)"
  unfolding manager_process_def consumer_process_def provider_process_def cn_handler_defs
  by (cases ty; cases st)
     (auto intro!: keeps_liftE_andThen dest: cn_ok_transitions(2) split: option.splits
       simp: cn_ok_typed andThen_assoc)

lemma keeps_asyncSendResult: "keeps cnm_ok (asyncSendResult env now c)"
  unfolding asyncSendResult_def cn_onSuccess_def cn_onFailure_def Let_def
  by (cases c) (auto split: sum.splits cnCallback.splits simp: cn_ok_typed cn_ok_error)

lemma cnm_ok_queue: "cnm_ok s \<Longrightarrow> within_bound q \<Longrightarrow> cnm_ok (s\<lparr>cnQueue := q\<rparr>)"
  by (simp add: cnm_ok_def)

lemma keeps_cn_handle: "keeps cnm_ok (cn_handle now c)"
  unfolding cn_handle_def singleContractNegotiationCommand_def cn_cancel_modify_def
  by (cases c) (auto simp: cn_ok_error cn_ok_typed)

lemma keeps_cn_processCommand: "keeps cnm_ok (cn_processCommand now c)"
proof (rule keepsI)
  fix s :: "'pol cnm" assume ok: "cnm_ok s"
  let ?reg = "\<lambda>cmd. Some (cn_handle now cmd)"
  obtain r s' where run: "runCommand ?reg c s = (r, s')" by (cases "runCommand ?reg c s")
  have "cnm_ok s'" using runCommand_state [of ?reg c s] run keepsD [OF keeps_cn_handle ok] by simp
  moreover have "within_bound (cnQueue s)" using ok by (simp add: cnm_ok_def)
  ultimately show "cnm_ok (snd (cn_processCommand now c s))"
    by (auto simp: cn_processCommand_def processCommandQueue_def run intro!: cnm_ok_queue
        dest: enqueue_within_bound split: sum.splits prod.splits)
qed

lemma keeps_cn_queue:
  "keeps cnm_ok (cn_enqueueCommand c)" "keeps cnm_ok (cn_dequeueCommands k)"
  by (auto simp: keeps_def cn_enqueueCommand_def cn_dequeueCommands_def cnm_ok_def
      dest: enqueue_within_bound dequeueN_within_bound split: sum.splits)

lemma cn_nextForState_ok:
  assumes "cnm_ok s" "cn_nextForState now st k s = (Inr ns, s')"
  shows "cnm_ok s' \<and> list_all cn_ok ns"
proof -
  obtain m where n: "nextForState (copy_negotiation now) st k (cnStore s) = (Inr ns, m)"
    and s': "s' = s\<lparr>cnStore := m\<rparr>"
    using assms(2) by (auto simp: cn_nextForState_def split: prod.splits)
  have sok: "store_ok (cnStore s)" using assms(1) by (simp add: cnm_ok_def)
  have m: "m = markLeased (map fst (nextItems st (nat k) (cnStore s))) (cnStore s)"
    using n by (auto simp: nextForState_def Let_def split: if_splits)
  have "cn_ok (item (snd x))" if "x \<in> set m" for x
    using that assms(1) by (auto simp: m markLeased_def cnm_ok_def split: if_splits)
  moreover have "cn_ok e" if e: "e \<in> set ns" for e
  proof -
    obtain i where i: "map_of (cnStore s) (entityId e) = Some i" "e = copy_negotiation now (item i)"
      using cn_store.nextForState_mem [OF sok n e] by blast
    then show ?thesis using assms(1) by (fastforce simp: cnm_ok_def dest!: map_of_SomeD)
  qed
  ultimately show ?thesis using assms(1) sok by (auto simp: s' m cnm_ok_def list_all_iff)
qed

section \<open>Every interleaving\<close>

definition cnm_run_ok :: "'pol cnm \<times> 'pol cn_work \<Rightarrow> bool" where
  "cnm_run_ok x \<longleftrightarrow> cnm_ok (fst x) \<and> (\<forall>ty. list_all (\<lambda>(st, n). cn_ok n) (snd x ty))"

lemma cnm_step_ok: "cnm_step E x y \<Longrightarrow> cnm_run_ok x \<Longrightarrow> cnm_run_ok y"
proof (induction rule: cnm_step.induct)
  case (cn_fetch w ty st now k s ns s')
  then show ?case
    using cn_nextForState_ok [of s now "cn_code st" k ns s']
    by (auto simp: cnm_run_ok_def list_all_iff)
next
  case (cn_handled env w ty st n rest now uuid s r s')
  then have "list_all (\<lambda>(st, n). cn_ok n) ((st, n) # rest)" by (metis cnm_run_ok_def snd_conv)
  then have n: "cn_ok n" and rest: "list_all (\<lambda>(st, n). cn_ok n) rest" by auto
  have "cnm_ok s'"
    using keepsD [OF keeps_manager_process [OF cn_ok_sharedOffers [OF n, of s]], of s env now uuid ty st]
      cn_handled by (simp add: cnm_run_ok_def)
  then show ?case using cn_handled.prems rest by (auto simp: cnm_run_ok_def split: sum.split)
next
  case (cn_sent env s xs c ys w now)
  then have "cnm_ok (s\<lparr>cnPending := xs @ ys\<rparr>)" by (simp add: cnm_run_ok_def)
  then show ?case using cn_sent.prems keepsD [OF keeps_asyncSendResult, of _ env now c]
    by (auto simp: cnm_run_ok_def)
next
  case (cn_command s c s' w now)
  then have "cnm_ok s'" using keepsD [OF keeps_cn_queue(2), of s 1] by (auto simp: cnm_run_ok_def)
  then show ?case using cn_command.prems keepsD [OF keeps_cn_processCommand]
    by (auto simp: cnm_run_ok_def)
next
  case (cn_enqueue s w cmd)
  then show ?case using keepsD [OF keeps_cn_queue(1)] by (auto simp: cnm_run_ok_def)
next
  case (cn_called env s call w now)
  then show ?case using keepsD [OF keeps_cn_call] by (auto simp: cnm_run_ok_def)
qed

lemma cnm_run_ok_star: "(cnm_step E)\<^sup>*\<^sup>* x y \<Longrightarrow> cnm_run_ok x \<Longrightarrow> cnm_run_ok y"
  by (induction rule: rtranclp_induct) (auto intro: cnm_step_ok)

definition cnm_start :: "nat \<Rightarrow> 'pol cnm" where
  "cnm_start k = \<lparr>cnStore = [], cnEvents = [], cnSent = [], cnPending = [],
     cnQueue = \<lparr>bound = k, queue = []\<rparr>\<rparr>"

lemma cnm_start_ok: "cnm_run_ok (cnm_start k, \<lambda>_. [])"
  by (simp add: cnm_run_ok_def cnm_ok_def cnm_start_def within_bound_def)

text \<open>
  (C6) From an empty connector, under every interleaving of the two loops' handlers with the
  callbacks of sends, the commands, and the calls of clients and of any counter-party: each
  negotiation is stored once, under its own identifier, in a declared state; a consumer's is
  never offering, offered or confirming as a provider, nor a provider's requesting, offering or
  approving as a consumer; and a confirmed negotiation carries its agreement.
\<close>

theorem negotiation_managers_safe:
  assumes "(cnm_step E)\<^sup>*\<^sup>* (cnm_start k, \<lambda>_. []) (s, w)"
  shows "keys_distinct (cnStore s) \<and>
    list_all (\<lambda>(k, i). entityId (item i) = k \<and>
      (\<exists>st. state (item i) = cn_code st \<and> st \<in> set (cn_reachable (cnType (item i)))) \<and>
      (state (item i) = cn_code CN_CONFIRMED \<longrightarrow> contractAgreement (item i) \<noteq> None))
      (cnStore s)"
proof -
  have "cnm_ok s" using cnm_run_ok_star [OF assms cnm_start_ok] by (simp add: cnm_run_ok_def)
  then show ?thesis
    by (fastforce simp: cnm_ok_def store_ok_def list_all_iff cn_ok_def cn_typed_def
        simp del: cn_code.simps split: prod.splits)
qed

end
