(* ===== verification/Negotiation_Liveness.thy ===== *)
theory Negotiation_Liveness
  imports Negotiation_Safety
begin

text \<open>
  Two connectors negotiate: what a connector does with the messages of the other
  (\<open>data-protocols/ids/ids-api-multipart-endpoint-v1/.../handler\<close>), the rounds of the loops with
  the callbacks of their sends, and the negotiation from its initiation to the agreement. The
  transport is left out: the offer, the agreement and the identifiers arrive as they were sent.
\<close>

section \<open>Messages received\<close>

definition fatalError :: "'a statusResult \<Rightarrow> bool" where
  "fatalError r = (case r of StatusFailure FATAL_ERROR _ \<Rightarrow> True | _ \<Rightarrow> False)"

text \<open>
  \<open>ContractRejectionHandler\<close>: one of the managers can handle the process by its identifier.
\<close>

definition receive_rejection ::
  "int \<Rightarrow> contractRejection \<Rightarrow> ('pol cnm, 'pol contract_negotiation statusResult) op" where
  "receive_rejection now r =
     andThen (provider_declined now (rejectionCorrelationId r)) (\<lambda>result.
       if fatalError result then consumer_declined now (rejectionCorrelationId r) else ret result)"

definition receive_agreement ::
  "('tok, 'pol) cnm_env \<Rightarrow> int \<Rightarrow> 'tok \<Rightarrow> 'pol contractAgreementRequest \<Rightarrow>
   ('pol cnm, 'pol contract_negotiation statusResult) op" where
  "receive_agreement env now token r =
     consumer_confirmed env now token (agreementCorrelationId r) (requestAgreement r)"

text \<open>\<open>String.valueOf\<close> of the transfer contract: a missing one becomes the text \<open>null\<close>.\<close>

definition receive_request ::
  "('tok, 'pol) cnm_env \<Rightarrow> int \<Rightarrow> string \<Rightarrow> 'tok \<Rightarrow> 'pol contractOfferRequest \<Rightarrow>
   ('pol cnm, 'pol contract_negotiation statusResult) op" where
  "receive_request env now uuid token r =
     cn_requested env now uuid token
       (r\<lparr>offerRequestType := OFFER_INITIAL, requestProtocol := ''ids-multipart'',
          requestCorrelationId := Some (valueOf (requestCorrelationId r))\<rparr>)"

definition receive ::
  "('tok, 'pol) cnm_env \<Rightarrow> int \<Rightarrow> string \<Rightarrow> 'tok \<Rightarrow> 'pol cnMessage \<Rightarrow> 'pol cnm \<Rightarrow> 'pol cnm" where
  "receive env now uuid token m s =
     snd (case m of
        OfferMessage r \<Rightarrow> receive_request env now uuid token r s
      | AgreementMessage r \<Rightarrow> receive_agreement env now token r s
      | RejectionMessage r \<Rightarrow> receive_rejection now r s)"

section \<open>Rounds\<close>

definition cn_deliver :: "('tok, 'pol) cnm_env \<Rightarrow> int \<Rightarrow> 'pol cnm \<Rightarrow> 'pol cnm" where
  "cn_deliver env now s =
     fold (\<lambda>c s. snd (asyncSendResult env now c s)) (cnPending s) (s\<lparr>cnPending := []\<rparr>)"

definition cn_round ::
  "('tok, 'pol) cnm_env \<Rightarrow> int \<Rightarrow> (string \<Rightarrow> string) \<Rightarrow> int \<Rightarrow> cnType \<Rightarrow> 'pol cnm \<Rightarrow> 'pol cnm" where
  "cn_round env now uuids batchSize ty s =
     cn_deliver env now (snd (sumProcessors (negotiation_processors env now uuids batchSize ty) s))"

text \<open>What is stored of a negotiation: its state and its agreement.\<close>

definition outcome :: "'pol cnm \<Rightarrow> string \<Rightarrow> (int \<times> 'pol contractAgreement option) option" where
  "outcome s k = map_option (\<lambda>i. (state (item i), contractAgreement (item i))) (map_of (cnStore s) k)"

section \<open>One negotiation in the store\<close>

definition cn_at ::
  "cnType \<Rightarrow> string option \<Rightarrow> 'pol contractOffer \<Rightarrow> string \<Rightarrow> contractNegotiationStates \<Rightarrow>
   'pol contractAgreement option \<Rightarrow> 'pol contract_negotiation \<Rightarrow> bool" where
  "cn_at ty cor off k st a n \<longleftrightarrow> entityId n = k \<and> state n = cn_code st \<and> stateCount n = 1 \<and>
     cnType n = ty \<and> correlationId n = cor \<and> contractOffers n = [off] \<and> contractAgreement n = a"

definition cn_alone ::
  "('pol contract_negotiation \<Rightarrow> bool) \<Rightarrow> string \<Rightarrow> bool \<Rightarrow>
   (string \<times> 'pol cnCallback \<times> (java_exn + unit)) list \<Rightarrow> 'pol cnMessage list \<Rightarrow> 'pol cnm \<Rightarrow> bool" where
  "cn_alone P k l ps ms s \<longleftrightarrow> (\<exists>n. cnStore s = [(k, \<lparr>item = n, leased = l\<rparr>)] \<and> P n \<and> entityId n = k) \<and>
     cnPending s = ps \<and> cnSent s = ms \<and> queue (cnQueue s) = []"

lemma cn_at_copy [simp]: "cn_at ty cor off k st a (copy_negotiation now n) = cn_at ty cor off k st a n"
  by (simp add: cn_at_def)

lemma cn_atD:
  assumes "cn_at ty cor off k st a n"
  shows "entityId n = k" "state n = cn_code st" "stateCount n = 1" "cnType n = ty"
    "correlationId n = cor" "contractOffers n = [off]" "contractAgreement n = a"
    "getLastContractOffer n = Some off"
  using assms by (simp_all add: cn_at_def getLastContractOffer_def)

lemma cn_at_transition:
  "cn_at ty cor off k st a n \<Longrightarrow> st \<noteq> st' \<Longrightarrow> cn_at ty cor off k st' a (transitionTo now (cn_code st') n)"
  by (simp add: cn_at_def transitionTo_count)

lemma cn_nextForState_alone:
  assumes "cnStore s = [(k, \<lparr>item = n, leased = l\<rparr>)]" and "0 < b"
  shows "cn_nextForState now c b s =
    (if state n = c \<and> \<not> l
     then (Inr [copy_negotiation now n], s\<lparr>cnStore := [(k, \<lparr>item = n, leased = True\<rparr>)]\<rparr>)
     else (Inr [], s))"
  using assms
  by (simp add: cn_nextForState_def nextForState_def nextItems_def batch_def selectable_def
      markLeased_def Let_def)

lemma cn_processor_idle:
  assumes "cn_alone (cn_at ty cor off k st a) k l ps ms s" and "st \<noteq> st' \<or> l" and "0 < b"
  shows "processNegotiationsInState env now uuids b mgr st' s = (Inr 0, s)"
  using assms cn_nextForState_alone
  by (fastforce simp: cn_alone_def cn_at_def processNegotiationsInState_def stateProcessor_def andThen_def)

lemma cn_processor_handles:
  assumes "cn_alone (cn_at ty cor off k st a) k False ps ms s" and "0 < b"
    and "\<And>n s'. cn_at ty cor off k st a n \<Longrightarrow> cn_alone (cn_at ty cor off k st a) k True ps ms s' \<Longrightarrow>
      \<exists>s''. manager_process env now (uuids k) mgr st n s' = (Inr True, s'') \<and> R s''"
  shows "\<exists>c s''. processNegotiationsInState env now uuids b mgr st s = (Inr c, s'') \<and> R s''"
proof -
  obtain n where n: "cnStore s = [(k, \<lparr>item = n, leased = False\<rparr>)]" "cn_at ty cor off k st a n"
    using assms(1) by (auto simp: cn_alone_def)
  let ?s = "s\<lparr>cnStore := [(k, \<lparr>item = n, leased = True\<rparr>)]\<rparr>"
  have "cn_alone (cn_at ty cor off k st a) k True ps ms ?s"
    using assms(1) n by (auto simp: cn_alone_def)
  with assms(3) [of "copy_negotiation now n" ?s] n obtain s'' where
    "manager_process env now (uuids k) mgr st (copy_negotiation now n) ?s = (Inr True, s'')" "R s''" by auto
  with n cn_nextForState_alone [OF n(1) assms(2)] show ?thesis
    by (auto simp: processNegotiationsInState_def stateProcessor_def cn_at_def andThen_def)
qed

lemma cn_onCommands_idle: "cn_alone P k l ps ms s \<Longrightarrow> cn_onCommands now s = (Inr 0, s)"
  by (simp add: cn_alone_def cn_onCommands_def stateProcessor_def cn_dequeueCommands_def dequeueN_def
      andThen_def)

lemma cn_alone_save:
  assumes "cn_alone (cn_at ty cor off k st a) k l ps ms s" and "cn_at ty cor off k st' a' n"
  shows "\<exists>s'. cn_save now n s = (Inr (), s') \<and> cn_alone (cn_at ty cor off k st' a') k False ps ms s'"
  using assms by (auto simp: cn_alone_def cn_save_def upsert_def new_item_def cn_at_def)

lemma cn_alone_notify:
  "cn_alone P k l ps ms s \<Longrightarrow> \<exists>s'. cn_notify ev n s = (Inr (), s') \<and> cn_alone P k l ps ms s'"
  by (simp add: cn_notify_def cn_alone_def)

lemma cn_find_alone:
  assumes "cn_alone (cn_at ty cor off k st a) k l ps ms s"
  obtains n where "cn_find now k s = (Inr (Some n), s)" "cn_at ty cor off k st a n"
  using assms by (auto simp: cn_alone_def cn_find_def find_entity_def)

section \<open>The consumer's steps\<close>

lemma new_negotiation_built:
  assumes "ty = CN_CONSUMER \<longleftrightarrow> cor = None"
  shows "\<exists>n. build_negotiation now (Some k) (new_negotiation ty cor prot party addr tc) = Inr n \<and>
    entityId n = k \<and> state n = 0 \<and> cnType n = ty \<and> correlationId n = cor \<and> contractOffers n = [] \<and>
    contractAgreement n = None"
  using assms
  by (cases ty) (auto simp: build_negotiation_def entity_build_def new_negotiation_def Let_def)

lemma cn_initiated_alone:
  fixes r :: "'pol contractOfferRequest"
  shows "cn_alone (cn_at CN_CONSUMER None (requestOffer r) k CN_INITIAL None) k False [] []
     (snd (cn_initiate env now k r (cnm_start b)))"
proof -
  obtain n :: "'pol contract_negotiation" where n: "build_negotiation now (Some k) (new_negotiation CN_CONSUMER None (requestProtocol r)
      (requestConnectorId r) (requestConnectorAddress r) (cnTraceContext env)) = Inr n"
    and f: "entityId n = k" "state n = 0" "cnType n = CN_CONSUMER" "correlationId n = None"
      "contractOffers n = []" "contractAgreement n = None"
    using new_negotiation_built [of CN_CONSUMER None] by blast
  let ?n = "addContractOffer (requestOffer r) n"
  have "cn_transitionInitial now ?n = Inr (transitionTo now (cn_code CN_INITIAL) ?n)"
    using f by (simp add: cn_transitionInitial_def cn_transition_def)
  then show ?thesis using n f
    by (simp add: cn_initiate_def cn_save_def cn_notify_def cnm_start_def upsert_def new_item_def
        cn_alone_def cn_at_def transitionTo_count)
qed

lemma cn_initial_handled:
  assumes "cn_at CN_CONSUMER cor off k CN_INITIAL a n"
    and "cn_alone (cn_at CN_CONSUMER cor off k CN_INITIAL a) k True ps ms s"
  shows "\<exists>s'. manager_process env now uuid CN_CONSUMER CN_INITIAL n s = (Inr True, s') \<and>
    cn_alone (cn_at CN_CONSUMER cor off k CN_REQUESTING a) k False ps ms s'"
proof -
  have "cn_transitionRequesting now n = Inr (transitionTo now (cn_code CN_REQUESTING) n)"
    using cn_atD [OF assms(1)] by (simp add: cn_transitionRequesting_def cn_transition_def)
  moreover obtain s' where "cn_save now (transitionTo now (cn_code CN_REQUESTING) n) s = (Inr (), s')"
    "cn_alone (cn_at CN_CONSUMER cor off k CN_REQUESTING a) k False ps ms s'"
    using cn_alone_save [OF assms(2) cn_at_transition [OF assms(1)]] by blast
  ultimately show ?thesis
    by (simp add: manager_process_def consumer_process_def cn_processInitial_def andThen_def)
qed

lemma not_delayed: "stateCount n = 1 \<Longrightarrow> cn_delayed env now n m = m"
  by (simp add: cn_delayed_def shouldDelay_def)

lemma cn_requesting_handled:
  assumes "cn_at CN_CONSUMER cor off k CN_REQUESTING a n"
    and "cn_alone (cn_at CN_CONSUMER cor off k CN_REQUESTING a) k True [] [] s"
    and "\<And>m. cnDispatch env m = Inr ()"
  shows "\<exists>s'. manager_process env now uuid CN_CONSUMER CN_REQUESTING n s = (Inr True, s') \<and>
    (\<exists>q. requestCorrelationId q = Some k \<and> requestOffer q = off \<and>
      cn_alone (cn_at CN_CONSUMER cor off k CN_REQUESTING a) k True
        [(k, OnInitialOfferSent, Inr ())] [OfferMessage q] s')"
  using assms(2,3) cn_atD [OF assms(1)]
  by (simp add: manager_process_def consumer_process_def cn_processRequesting_def not_delayed
      sendOffer_def build_offerRequest_def cn_send_def cn_alone_def andThen_def)

lemma cn_requested_delivered:
  assumes "cn_alone (cn_at CN_CONSUMER cor off k CN_REQUESTING a) k True
    [(k, OnInitialOfferSent, Inr ())] ms s"
  shows "cn_alone (cn_at CN_CONSUMER cor off k CN_REQUESTED a) k False [] ms (cn_deliver env now s)"
proof -
  let ?s = "s\<lparr>cnPending := []\<rparr>"
  have s: "cn_alone (cn_at CN_CONSUMER cor off k CN_REQUESTING a) k True [] ms ?s"
    using assms by (simp add: cn_alone_def)
  obtain n where n: "cn_find now k ?s = (Inr (Some n), ?s)" "cn_at CN_CONSUMER cor off k CN_REQUESTING a n"
    using cn_find_alone [OF s] by blast
  let ?n = "transitionTo now (cn_code CN_REQUESTED) n"
  have "cn_transitionRequested now n = Inr ?n"
    using cn_atD [OF n(2)] by (simp add: cn_transitionRequested_def cn_transition_def)
  moreover obtain s1 where s1: "cn_save now ?n ?s = (Inr (), s1)"
    "cn_alone (cn_at CN_CONSUMER cor off k CN_REQUESTED a) k False [] ms s1"
    using cn_alone_save [OF s cn_at_transition [OF n(2)]] by blast
  moreover obtain s2 where "cn_notify Cn_requested ?n s1 = (Inr (), s2)"
    "cn_alone (cn_at CN_CONSUMER cor off k CN_REQUESTED a) k False [] ms s2"
    using cn_alone_notify [OF s1(2)] by blast
  ultimately show ?thesis using assms n(1)
    by (simp add: cn_deliver_def cn_alone_def asyncSendResult_def cn_onSuccess_def andThen_def)
qed

lemma cn_confirmed_received:
  assumes "cn_alone (cn_at CN_CONSUMER cor off k CN_REQUESTED a) k False [] ms s"
    and "agreementCorrelationId q = k" and "validateAgreement env token (requestAgreement q) off"
  shows "cn_alone (cn_at CN_CONSUMER cor off k CN_CONFIRMED (Some (requestAgreement q))) k False [] ms
    (receive env now uuid token (AgreementMessage q) s)"
proof -
  obtain n where n: "cn_find now k s = (Inr (Some n), s)" "cn_at CN_CONSUMER cor off k CN_REQUESTED a n"
    using cn_find_alone [OF assms(1)] by blast
  let ?m = "setContractAgreement (Some (requestAgreement q)) n"
  let ?n = "transitionTo now (cn_code CN_CONFIRMED) ?m"
  have m: "cn_at CN_CONSUMER cor off k CN_REQUESTED (Some (requestAgreement q)) ?m"
    using n(2) by (simp add: cn_at_def setContractAgreement_def)
  have "transitionConfirmed now ?m = Inr ?n"
    using cn_atD [OF m] by (simp add: transitionConfirmed_def cn_transition_def)
  moreover obtain s1 where s1: "cn_save now ?n s = (Inr (), s1)"
    "cn_alone (cn_at CN_CONSUMER cor off k CN_CONFIRMED (Some (requestAgreement q))) k False [] ms s1"
    using cn_alone_save [OF assms(1) cn_at_transition [OF m]] by blast
  moreover obtain s2 where "cn_notify Cn_confirmed ?n s1 = (Inr (), s2)"
    "cn_alone (cn_at CN_CONSUMER cor off k CN_CONFIRMED (Some (requestAgreement q))) k False [] ms s2"
    using cn_alone_notify [OF s1(2)] by blast
  ultimately show ?thesis using assms(2,3) n cn_atD [OF n(2)]
    by (simp add: receive_def receive_agreement_def consumer_confirmed_def andThen_def Let_def)
qed

section \<open>The provider's steps\<close>

lemma cn_requested_received:
  fixes q :: "'pol contractOfferRequest"
  assumes "requestCorrelationId q = Some cor" and "validateOffer env token (requestOffer q) = Success ()"
  shows "cn_alone (cn_at CN_PROVIDER (Some cor) (requestOffer q) k CN_CONFIRMING None) k False [] []
    (receive env now k token (OfferMessage q) (cnm_start b))"
proof -
  obtain n :: "'pol contract_negotiation" where n: "build_negotiation now (Some k) (new_negotiation CN_PROVIDER (Some cor) ''ids-multipart''
      (requestConnectorId q) (requestConnectorAddress q) (cnTraceContext env)) = Inr n"
    and f: "entityId n = k" "state n = 0" "cnType n = CN_PROVIDER" "correlationId n = Some cor"
      "contractOffers n = []" "contractAgreement n = None"
    using new_negotiation_built [of CN_PROVIDER "Some cor"] by blast
  let ?n = "transitionTo now (cn_code CN_REQUESTED) n"
  let ?m = "addContractOffer (requestOffer q) ?n"
  have "cn_transitionRequested now n = Inr ?n"
    using f by (simp add: cn_transitionRequested_def cn_transition_def)
  moreover have "transitionConfirming now ?m = Inr (transitionTo now (cn_code CN_CONFIRMING) ?m)"
    using f by (simp add: transitionConfirming_def cn_transition_def)
  ultimately show ?thesis using n f assms
    by (simp add: receive_def receive_request_def cn_requested_def processIncomingOffer_def
        getLastContractOffer_def cn_save_def cn_notify_def cn_addOffer_def cn_assign_def cnm_start_def
        upsert_def new_item_def inPlace_def cn_alone_def cn_at_def transitionTo_count valueOf_def andThen_def)
qed

definition agreed ::
  "int \<Rightarrow> string \<Rightarrow> 'pol contractOffer \<Rightarrow> asset \<Rightarrow> 'pol contractAgreement" where
  "agreed now uuid off theAsset =
     \<lparr>agreementId = createContractId uuid (parseContractId (offerId off) ! 0),
      providerAgentId = valueOf (offerProvider off), consumerAgentId = valueOf (offerConsumer off),
      contractSigningDate = now div 1000, contractStartDate = now div 1000,
      contractEndDate = (now + 31536000000) div 1000, agreementAssetId = theAssetId theAsset,
      agreementPolicy = offerPolicy off\<rparr>"

lemma cn_confirming_handled:
  assumes "cn_at CN_PROVIDER (Some cor) off k CN_CONFIRMING None n"
    and "cn_alone (cn_at CN_PROVIDER (Some cor) off k CN_CONFIRMING None) k True [] [] s"
    and "\<And>m. cnDispatch env m = Inr ()"
    and "length (parseContractId (offerId off)) = 2" "offerAsset off = Some theAsset"
  shows "\<exists>s'. manager_process env now uuid CN_PROVIDER CN_CONFIRMING n s = (Inr True, s') \<and>
    (\<exists>q. agreementCorrelationId q = cor \<and> requestAgreement q = agreed now uuid off theAsset \<and>
      cn_alone (cn_at CN_PROVIDER (Some cor) off k CN_CONFIRMING None) k True
        [(k, OnProviderAgreementSent (agreed now uuid off theAsset), Inr ())] [AgreementMessage q] s')"
proof -
  have "agreementFor now uuid (Some off) = Inr (Some (agreed now uuid off theAsset))"
    using assms(4,5) by (simp add: agreementFor_def agreed_def epochSecond_def Let_def)
  then show ?thesis
    using assms(2,3) cn_atD [OF assms(1)]
    by (simp add: manager_process_def provider_process_def processConfirming_def not_delayed
        build_agreementRequest_def cn_send_def cn_alone_def andThen_def)
qed

lemma cn_agreement_delivered:
  assumes "cn_alone (cn_at CN_PROVIDER cor off k CN_CONFIRMING None) k True
    [(k, OnProviderAgreementSent a, Inr ())] ms s"
  shows "cn_alone (cn_at CN_PROVIDER cor off k CN_CONFIRMED (Some a)) k False [] ms (cn_deliver env now s)"
proof -
  let ?s = "s\<lparr>cnPending := []\<rparr>"
  have s: "cn_alone (cn_at CN_PROVIDER cor off k CN_CONFIRMING None) k True [] ms ?s"
    using assms by (simp add: cn_alone_def)
  obtain n where n: "cn_find now k ?s = (Inr (Some n), ?s)" "cn_at CN_PROVIDER cor off k CN_CONFIRMING None n"
    using cn_find_alone [OF s] by blast
  let ?m = "setContractAgreement (Some a) n"
  let ?n = "transitionTo now (cn_code CN_CONFIRMED) ?m"
  have m: "cn_at CN_PROVIDER cor off k CN_CONFIRMING (Some a) ?m"
    using n(2) by (simp add: cn_at_def setContractAgreement_def)
  have "transitionConfirmed now ?m = Inr ?n"
    using cn_atD [OF m] by (simp add: transitionConfirmed_def cn_transition_def)
  moreover obtain s1 where s1: "cn_save now ?n ?s = (Inr (), s1)"
    "cn_alone (cn_at CN_PROVIDER cor off k CN_CONFIRMED (Some a)) k False [] ms s1"
    using cn_alone_save [OF s cn_at_transition [OF m]] by blast
  moreover obtain s2 where "cn_notify Cn_confirmed ?n s1 = (Inr (), s2)"
    "cn_alone (cn_at CN_PROVIDER cor off k CN_CONFIRMED (Some a)) k False [] ms s2"
    using cn_alone_notify [OF s1(2)] by blast
  ultimately show ?thesis using assms n(1)
    by (simp add: cn_deliver_def cn_alone_def asyncSendResult_def cn_onSuccess_def andThen_def)
qed

section \<open>The negotiation\<close>

lemma cn_snd_sum:
  "snd (sumProcessors (p # ps) s) =
     (case p s of (Inl e, s') \<Rightarrow> s' | (Inr c, s') \<Rightarrow> snd (sumProcessors ps s'))"
  by (auto simp: andThen_def split: prod.splits sum.splits)

lemma consumer_round:
  assumes "cn_alone (cn_at CN_CONSUMER cor off k CN_INITIAL a) k False [] [] s" "0 < b"
    and "\<And>m. cnDispatch env m = Inr ()"
  shows "\<exists>q. requestCorrelationId q = Some k \<and> requestOffer q = off \<and>
    cn_alone (cn_at CN_CONSUMER cor off k CN_REQUESTED a) k False [] [OfferMessage q]
      (cn_round env now uuids b CN_CONSUMER s)"
proof -
  let ?P = "processNegotiationsInState env now uuids b CN_CONSUMER"
  obtain c s1 where s1: "?P CN_INITIAL s = (Inr c, s1)"
    "cn_alone (cn_at CN_CONSUMER cor off k CN_REQUESTING a) k False [] [] s1"
    using cn_processor_handles [OF assms(1,2) cn_initial_handled] by blast
  obtain c' s2 q where s2: "?P CN_REQUESTING s1 = (Inr c', s2)"
    and q: "requestCorrelationId q = Some k" "requestOffer q = off"
      "cn_alone (cn_at CN_CONSUMER cor off k CN_REQUESTING a) k True
        [(k, OnInitialOfferSent, Inr ())] [OfferMessage q] s2"
    using cn_processor_handles [OF s1(2) assms(2) cn_requesting_handled [OF _ _ assms(3)]]
    by blast
  have "snd (sumProcessors (negotiation_processors env now uuids b CN_CONSUMER) s) = s2"
    using s1 s2 cn_processor_idle [where env = env, OF q(3) _ assms(2)] cn_onCommands_idle [OF q(3)]
    by (simp add: negotiation_processors_def manager_states_def consumer_states_def cn_snd_sum
        del: sumProcessors.simps(2))
  then show ?thesis using q cn_requested_delivered [OF q(3)] by (auto simp: cn_round_def)
qed

lemma provider_round:
  assumes "cn_alone (cn_at CN_PROVIDER (Some cor) off k CN_CONFIRMING None) k False [] [] s" "0 < b"
    and "\<And>m. cnDispatch env m = Inr ()"
    and "length (parseContractId (offerId off)) = 2" "offerAsset off = Some theAsset"
  shows "\<exists>q. agreementCorrelationId q = cor \<and> requestAgreement q = agreed now (uuids k) off theAsset \<and>
    cn_alone (cn_at CN_PROVIDER (Some cor) off k CN_CONFIRMED (Some (agreed now (uuids k) off theAsset)))
      k False [] [AgreementMessage q] (cn_round env now uuids b CN_PROVIDER s)"
proof -
  let ?P = "processNegotiationsInState env now uuids b CN_PROVIDER"
  obtain c s1 q where s1: "?P CN_CONFIRMING s = (Inr c, s1)"
    and q: "agreementCorrelationId q = cor" "requestAgreement q = agreed now (uuids k) off theAsset"
      "cn_alone (cn_at CN_PROVIDER (Some cor) off k CN_CONFIRMING None) k True
        [(k, OnProviderAgreementSent (agreed now (uuids k) off theAsset), Inr ())] [AgreementMessage q] s1"
    using cn_processor_handles [OF assms(1,2) cn_confirming_handled [OF _ _ assms(3-5)]]
    by blast
  have "snd (sumProcessors (negotiation_processors env now uuids b CN_PROVIDER) s) = s1"
    using s1 cn_processor_idle [where env = env, OF assms(1) _ assms(2)] cn_onCommands_idle [OF q(3)]
    by (simp add: negotiation_processors_def manager_states_def provider_states_def cn_snd_sum
        del: sumProcessors.simps(2))
  then show ?thesis using q cn_agreement_delivered [OF q(3)] by (auto simp: cn_round_def)
qed

text \<open>The whole exchange: the final states of the consumer's and of the provider's connector.\<close>

definition negotiate ::
  "('tok, 'pol) cnm_env \<Rightarrow> ('tok, 'pol) cnm_env \<Rightarrow> int list \<Rightarrow> (string \<Rightarrow> string) \<Rightarrow> int \<Rightarrow> 'tok \<Rightarrow>
   string \<Rightarrow> string \<Rightarrow> 'pol contractOfferRequest \<Rightarrow> nat \<Rightarrow> 'pol cnm \<times> 'pol cnm" where
  "negotiate cenv penv t uuids b token ck pk r k =
     (let c = cn_round cenv (t ! 1) uuids b CN_CONSUMER (snd (cn_initiate cenv (t ! 0) ck r (cnm_start k)));
          p = cn_round penv (t ! 3) uuids b CN_PROVIDER
                (fold (receive penv (t ! 2) pk token) (cnSent c) (cnm_start k))
      in (fold (receive cenv (t ! 4) ck token) (cnSent p) c, p))"

lemma agreement_reached:
  assumes "\<And>m. cnDispatch cenv m = Inr ()" "\<And>m. cnDispatch penv m = Inr ()" and "0 < b"
    and "validateOffer penv token (requestOffer r) = Success ()"
    and "validateAgreement cenv token (agreed (t ! 3) (uuids pk) (requestOffer r) theAsset) (requestOffer r)"
    and "length (parseContractId (offerId (requestOffer r))) = 2"
    and "offerAsset (requestOffer r) = Some theAsset"
    and "negotiate cenv penv t uuids b token ck pk r k = (c, p)"
  shows "\<exists>ms ms' cor.
    cn_alone (cn_at CN_CONSUMER None (requestOffer r) ck CN_CONFIRMED
      (Some (agreed (t ! 3) (uuids pk) (requestOffer r) theAsset))) ck False [] ms c \<and>
    cn_alone (cn_at CN_PROVIDER cor (requestOffer r) pk CN_CONFIRMED
      (Some (agreed (t ! 3) (uuids pk) (requestOffer r) theAsset))) pk False [] ms' p"
proof -
  let ?off = "requestOffer r"
  let ?c = "cn_round cenv (t ! 1) uuids b CN_CONSUMER (snd (cn_initiate cenv (t ! 0) ck r (cnm_start k)))"
  obtain q where q: "requestCorrelationId q = Some ck" "requestOffer q = ?off"
    "cn_alone (cn_at CN_CONSUMER None ?off ck CN_REQUESTED None) ck False [] [OfferMessage q] ?c"
    using consumer_round [OF cn_initiated_alone assms(3,1)] by blast
  then have sent: "cnSent ?c = [OfferMessage q]" by (simp add: cn_alone_def)
  let ?p = "cn_round penv (t ! 3) uuids b CN_PROVIDER (receive penv (t ! 2) pk token (OfferMessage q) (cnm_start k))"
  let ?a = "agreed (t ! 3) (uuids pk) ?off theAsset"
  have "validateOffer penv token (requestOffer q) = Success ()" using assms(4) q(2) by simp
  from cn_requested_received [OF q(1) this]
  have "cn_alone (cn_at CN_PROVIDER (Some ck) ?off pk CN_CONFIRMING None) pk False [] []
      (receive penv (t ! 2) pk token (OfferMessage q) (cnm_start k))" using q(2) by simp
  from provider_round [OF this assms(3,2,6,7)] obtain q' where q': "agreementCorrelationId q' = ck"
    "requestAgreement q' = ?a"
    "cn_alone (cn_at CN_PROVIDER (Some ck) ?off pk CN_CONFIRMED (Some ?a)) pk False [] [AgreementMessage q'] ?p"
    by blast
  then have sent': "cnSent ?p = [AgreementMessage q']" by (simp add: cn_alone_def)
  have "validateAgreement cenv token (requestAgreement q') ?off"
    using assms(5) q'(2) by simp
  from cn_confirmed_received [OF q(3) q'(1) this]
  have "cn_alone (cn_at CN_CONSUMER None ?off ck CN_CONFIRMED (Some ?a)) ck False [] [OfferMessage q]
      (receive cenv (t ! 4) ck token (AgreementMessage q') ?c)" using q'(2) by simp
  moreover have "c = receive cenv (t ! 4) ck token (AgreementMessage q') ?c" "p = ?p"
    using assms(8) by (simp_all add: negotiate_def Let_def sent sent' del: One_nat_def)
  ultimately show ?thesis using q'(3) by auto
qed

lemma cn_alone_outcome:
  "cn_alone (cn_at ty cor off k st a) k l ps ms s \<Longrightarrow> outcome s k = Some (cn_code st, a)"
  by (auto simp: cn_alone_def cn_at_def outcome_def)

text \<open>
  (C7) Two connectors reach an agreement: if the provider finds the offer valid, the offer's
  identifier is well formed and it names an asset, the consumer accepts the agreement that answers
  the offer (the one on the offer's asset and policy under the definition's identifier and the
  provider's new one, whatever its dates), and messages can be sent, then one round of each connector's loop takes a negotiation from its initiation to
  \<open>CONFIRMED\<close> on both sides, with the same agreement on the offered asset and policy, whatever
  the clocks, the batch size and the identifiers are.
\<close>

theorem negotiation_reaches_agreement:
  assumes "\<And>m. cnDispatch cenv m = Inr ()" "\<And>m. cnDispatch penv m = Inr ()" and "0 < b"
    and "validateOffer penv token (requestOffer r) = Success ()"
    and "\<And>a. agreementPolicy a = offerPolicy (requestOffer r) \<Longrightarrow>
      agreementId a = createContractId (uuids pk) (parseContractId (offerId (requestOffer r)) ! 0) \<Longrightarrow>
      agreementAssetId a = theAssetId theAsset \<Longrightarrow> validateAgreement cenv token a (requestOffer r)"
    and "length (parseContractId (offerId (requestOffer r))) = 2"
    and "offerAsset (requestOffer r) = Some theAsset"
    and "negotiate cenv penv t uuids b token ck pk r k = (c, p)"
  shows "\<exists>a. outcome c ck = Some (cn_code CN_CONFIRMED, Some a) \<and>
    outcome p pk = Some (cn_code CN_CONFIRMED, Some a) \<and>
    agreementAssetId a = theAssetId theAsset \<and> agreementPolicy a = offerPolicy (requestOffer r) \<and>
    agreementId a = createContractId (uuids pk) (parseContractId (offerId (requestOffer r)) ! 0)"
proof -
  have "validateAgreement cenv token (agreed (t ! 3) (uuids pk) (requestOffer r) theAsset) (requestOffer r)"
    using assms(5) by (simp add: agreed_def)
  from agreement_reached [OF assms(1-4) this assms(6-8)] show ?thesis
    by (auto simp: agreed_def dest!: cn_alone_outcome)
qed

section \<open>Instances\<close>

definition demo_offer :: "string contractOffer" where
  "demo_offer = \<lparr>offerId = ''def:1'', offerPolicy = ''use'',
     offerAsset = Some \<lparr>theAssetId = ''a1'', assetProperties = []\<rparr>, offerAssetId = None,
     offerProvider = Some ''urn:provider'', offerConsumer = Some ''urn:consumer'', offerStart = None,
     offerEnd = None, contractStart = None, contractEnd = None\<rparr>"

definition demo_offerRequest :: "string contractOfferRequest" where
  "demo_offerRequest = \<lparr>offerRequestType = OFFER_INITIAL, requestProtocol = ''ids-multipart'',
     requestConnectorId = ''provider'', requestConnectorAddress = ''http://provider'',
     requestCorrelationId = None, requestOffer = demo_offer\<rparr>"

definition demo_cnm_env :: "(string, string) cnm_env" where
  "demo_cnm_env = \<lparr>validateOffer = (\<lambda>_ _. Success ()), validateCounterOffer = (\<lambda>_ _ _. Success ()),
     validateAgreement = (\<lambda>_ a _. agreementPolicy a = ''use''), cnDispatch = (\<lambda>_. Inr ()),
     cnRetryBaseDelay = 100, cnRetryLimit = 7, cnTraceContext = []\<rparr>"

lemma demo_offer_id: "parseContractId ''def:1'' = [''def'', ''1'']"
  by (simp add: parseContractId_def split_string_def)

theorem negotiation_managers_safe_witness:
  "\<exists>s. (cnm_step {demo_cnm_env})\<^sup>*\<^sup>* (cnm_start 10, \<lambda>_. []) (s, \<lambda>_. []) \<and>
     outcome s ''n1'' = Some (cn_code CN_INITIAL, None) \<and> keys_distinct (cnStore s)"
proof -
  let ?s = "snd (cn_call demo_cnm_env 7 (Initiate ''n1'' demo_offerRequest) (cnm_start 10))"
  have run: "(cnm_step {demo_cnm_env})\<^sup>*\<^sup>* (cnm_start 10, \<lambda>_. []) (?s, \<lambda>_. [])"
    by (intro r_into_rtranclp cn_called) (simp_all add: fresh_call_def cnm_start_def)
  have "outcome ?s ''n1'' = Some (cn_code CN_INITIAL, None)"
    using cn_initiated_alone [of demo_offerRequest "''n1''" demo_cnm_env 7 10]
    by (auto simp: cn_call_def cn_alone_def cn_at_def outcome_def)
  with negotiation_managers_safe [OF run] run show ?thesis by blast
qed

end
