(* ===== verification/Negotiation_Properties.thy ===== *)
theory Negotiation_Properties
  imports Negotiation_Liveness
begin

text \<open>
  What the managers do with an agreement they receive, on every branch, and two situations in
  which a negotiation is left leased and is never processed again.
\<close>

section \<open>Received agreements\<close>

definition confirmable :: "int \<Rightarrow> bool" where
  "confirmable st \<longleftrightarrow> st \<in> cn_code ` {CN_CONFIRMING, CN_CONSUMER_APPROVED, CN_REQUESTED,
     CN_CONSUMER_OFFERED, CN_CONFIRMED}"

definition declinable :: "int \<Rightarrow> bool" where
  "declinable st \<longleftrightarrow> st \<in> cn_code ` {CN_DECLINING, CN_REQUESTED, CN_CONSUMER_OFFERED, CN_CONSUMER_APPROVED}"

lemma outcome_save:
  "outcome (snd (cn_save now n s)) (entityId n) = Some (state n, contractAgreement n)"
  by (simp add: cn_save_def outcome_def upsert_def new_item_def)

lemma outcome_notify [simp]: "outcome (snd (cn_notify ev n s)) k = outcome s k"
  by (simp add: cn_notify_def outcome_def)

lemma save_run: "cn_save now n s = (Inr (), snd (cn_save now n s))"
  by (simp add: cn_save_def)

lemma notify_run: "cn_notify ev n s = (Inr (), snd (cn_notify ev n s))"
  by (simp add: cn_notify_def)

lemma save_then: "andThen (cn_save now n) f s = f () (snd (cn_save now n s))"
  by (simp add: cn_save_def)

lemma notify_then: "andThen (cn_notify ev n) f s = f () (snd (cn_notify ev n s))"
  by (simp add: cn_notify_def)

text \<open>
  What a consumer's negotiation becomes when an agreement arrives: a valid agreement is
  stored and the negotiation is confirmed if it was waiting for it or is confirmed already, when
  the new agreement takes the place of the old one; an invalid agreement makes it decline; in
  every other state the message fails and nothing changes.
\<close>

theorem consumer_confirmed_spec:
  assumes "map_of (cnStore s) k = Some i" and "entityId (item i) = k"
    and "cnType (item i) = CN_CONSUMER" and "getLastContractOffer (item i) = Some latest"
  shows "(let valid = validateAgreement env token a latest;
             r = consumer_confirmed env now token k a s;
             st = state (item i)
         in if valid \<and> confirmable st then outcome (snd r) k = Some (cn_code CN_CONFIRMED, Some a)
            else if \<not> valid \<and> declinable st then
              outcome (snd r) k = Some (cn_code CN_DECLINING, contractAgreement (item i))
            else (\<exists>m. fst r = Inl (IllegalStateException m)) \<and> snd r = s)"
proof -
  let ?n = "copy_negotiation now (item i)"
  have found: "cn_find now k s = (Inr (Some ?n), s)"
    using assms(1) by (simp add: cn_find_def find_entity_def)
  have last: "getLastContractOffer ?n = Some latest"
    using assms(4) by (simp add: getLastContractOffer_def Let_def del: One_nat_def split: if_splits)
  have run: "consumer_confirmed env now token k a s =
    (if \<not> validateAgreement env token a latest then
       andThen (liftE (transitionDeclining now (setErrorDetail (Some ''Contract rejected.'') ?n))) (\<lambda>n'.
       andThen (cn_save now n') (\<lambda>_. ret (StatusSuccess n'))) s
     else
       andThen (liftE (if state (item i) \<noteq> cn_code CN_CONFIRMED
                       then transitionConfirmed now (setContractAgreement (Some a) ?n)
                       else Inr (setContractAgreement (Some a) ?n))) (\<lambda>n'.
       andThen (cn_save now n') (\<lambda>_.
       andThen (cn_notify Cn_confirmed n') (\<lambda>_. ret (StatusSuccess n')))) s)"
    by (simp add: consumer_confirmed_def andThen_def [of "cn_find now k"] found last Let_def
        del: cn_code.simps)
  show ?thesis
  proof (cases "validateAgreement env token a latest")
    case True
    show ?thesis
    proof (cases "state (item i) = cn_code CN_CONFIRMED")
      case confirmed: True
      then have "confirmable (state (item i))" by (simp add: confirmable_def)
      with True confirmed assms(2) show ?thesis
        using outcome_save [of now "setContractAgreement (Some a) ?n" s]
        by (simp add: run save_then notify_then)
    next
      case False
      let ?m = "setContractAgreement (Some a) ?n"
      have "transitionConfirmed now ?m = (if confirmable (state (item i))
          then Inr (transitionTo now (cn_code CN_CONFIRMED) ?m)
          else Inl (IllegalStateException (''Cannot transition from state '' @ cn_show (state (item i)) @
            '' to '' @ cn_show (cn_code CN_CONFIRMED))))"
        using assms(3) by (auto simp: transitionConfirmed_def cn_transition_def confirmable_def)
      with True False assms(2) show ?thesis
        using outcome_save [of now "transitionTo now (cn_code CN_CONFIRMED) ?m" s]
        by (simp add: run save_then notify_then del: cn_code.simps)
    qed
  next
    case False
    let ?m = "setErrorDetail (Some ''Contract rejected.'') ?n"
    have "transitionDeclining now ?m = (if declinable (state (item i))
        then Inr (transitionTo now (cn_code CN_DECLINING) ?m)
        else Inl (IllegalStateException (''Cannot transition from state '' @ cn_show (state (item i)) @
          '' to '' @ cn_show (cn_code CN_DECLINING))))"
      using assms(3) by (auto simp: transitionDeclining_def cn_transition_def declinable_def)
    with False assms(2) show ?thesis
      using outcome_save [of now "transitionTo now (cn_code CN_DECLINING) ?m" s]
      by (simp add: run save_then del: cn_code.simps)
  qed
qed

section \<open>Negotiations left leased\<close>

lemma leased_idle:
  assumes "cn_alone (cn_at ty cor off k st a) k True ps ms s" and "0 < b"
  shows "sumProcessors (negotiation_processors env now uuids b mgr) s = (Inr 0, s)"
proof -
  have "processNegotiationsInState env now uuids b mgr st' s = (Inr 0, s)" for st'
    using cn_processor_idle [OF assms(1) _ assms(2)] by blast
  then have "sumProcessors (map (processNegotiationsInState env now uuids b mgr) sts @ [cn_onCommands now]) s
      = (Inr 0, s)" for sts
    using cn_onCommands_idle [OF assms(1), of now] by (induction sts) (simp_all add: andThen_def)
  then show ?thesis by (simp add: negotiation_processors_def)
qed

text \<open>
  The loops of the two managers share the store and do not look at a negotiation's type: when
  the provider's loop fetches a consumer's negotiation that is to be declined, building the
  rejection fails, as there is no correlation identifier; the negotiation keeps its lease, and no
  later iteration of either loop processes it.
\<close>

theorem declining_consumer_stuck:
  fixes env :: "('tok, 'pol) cnm_env"
  assumes "cn_alone (cn_at CN_CONSUMER None off k CN_DECLINING a) k False ps ms s" and "0 < b"
  shows "\<exists>s'. sumProcessors (negotiation_processors env now uuids b CN_PROVIDER) s =
      (Inl (NullPointerException ''correlationId''), s') \<and>
    outcome s' k = outcome s k \<and>
    (\<forall>(env' :: ('tok, 'pol) cnm_env) now' uuids' mgr.
      sumProcessors (negotiation_processors env' now' uuids' b mgr) s' = (Inr 0, s'))"
proof -
  obtain n where n: "cnStore s = [(k, \<lparr>item = n, leased = False\<rparr>)]"
    "cn_at CN_CONSUMER None off k CN_DECLINING a n"
    using assms(1) by (auto simp: cn_alone_def)
  let ?s = "s\<lparr>cnStore := [(k, \<lparr>item = n, leased = True\<rparr>)]\<rparr>"
  have "build_rejection (copy_negotiation now n) None = Inl (NullPointerException ''correlationId'')"
    by (simp add: build_rejection_def)
  then have "processNegotiationsInState env now uuids b CN_PROVIDER CN_DECLINING s =
      (Inl (NullPointerException ''correlationId''), ?s)"
    using cn_nextForState_alone [OF n(1) assms(2)] cn_atD [OF n(2)]
    by (simp add: processNegotiationsInState_def stateProcessor_def manager_process_def
        provider_process_def provider_processDeclining_def not_delayed andThen_def)
  moreover have "processNegotiationsInState env now uuids b CN_PROVIDER CN_PROVIDER_OFFERING s = (Inr 0, s)"
    using cn_processor_idle [OF assms(1) _ assms(2)] by blast
  ultimately have "sumProcessors (negotiation_processors env now uuids b CN_PROVIDER) s =
      (Inl (NullPointerException ''correlationId''), ?s)"
    by (simp add: negotiation_processors_def manager_states_def provider_states_def andThen_def)
  moreover have "cn_alone (cn_at CN_CONSUMER None off k CN_DECLINING a) k True ps ms ?s"
    using assms(1) n by (auto simp: cn_alone_def)
  ultimately show ?thesis using leased_idle [OF _ assms(2)] n(1)
    by (fastforce simp: outcome_def)
qed

text \<open>
  An offer whose identifier is not correctly formatted ends the negotiation without saying
  so: the provider's loop fetches it in \<open>CONFIRMING\<close>, reports it as not processed and does not
  break its lease, so that no later iteration of either loop processes it.
\<close>

theorem malformed_offer_stuck:
  fixes env :: "('tok, 'pol) cnm_env"
  assumes "cn_alone (cn_at CN_PROVIDER cor off k CN_CONFIRMING None) k False ps ms s" and "0 < b"
    and "length (parseContractId (offerId off)) \<noteq> 2"
  shows "\<exists>s'. sumProcessors (negotiation_processors env now uuids b CN_PROVIDER) s = (Inr 0, s') \<and>
    outcome s' k = Some (cn_code CN_CONFIRMING, None) \<and>
    (\<forall>(env' :: ('tok, 'pol) cnm_env) now' uuids' mgr.
      sumProcessors (negotiation_processors env' now' uuids' b mgr) s' = (Inr 0, s'))"
proof -
  obtain n where n: "cnStore s = [(k, \<lparr>item = n, leased = False\<rparr>)]"
    "cn_at CN_PROVIDER cor off k CN_CONFIRMING None n"
    using assms(1) by (auto simp: cn_alone_def)
  let ?s = "s\<lparr>cnStore := [(k, \<lparr>item = n, leased = True\<rparr>)]\<rparr>"
  have c: "getLastContractOffer (copy_negotiation now n) = Some off"
    using n(2) by (intro cn_atD(8)) simp
  have al: "cn_alone (cn_at CN_PROVIDER cor off k CN_CONFIRMING None) k True ps ms ?s"
    using assms(1) n by (auto simp: cn_alone_def)
  have "processNegotiationsInState env now uuids b CN_PROVIDER CN_CONFIRMING s = (Inr 0, ?s)"
    using cn_nextForState_alone [OF n(1) assms(2)] cn_atD [OF n(2)] assms(3) c
    by (simp add: processNegotiationsInState_def stateProcessor_def manager_process_def
        provider_process_def processConfirming_def not_delayed agreementFor_def Let_def andThen_def)
  moreover have "processNegotiationsInState env now uuids b CN_PROVIDER st s = (Inr 0, s)"
    if "st \<noteq> CN_CONFIRMING" for st
    by (rule cn_processor_idle [OF assms(1) _ assms(2)]) (use that in auto)
  ultimately have "sumProcessors (negotiation_processors env now uuids b CN_PROVIDER) s = (Inr 0, ?s)"
    using cn_onCommands_idle [OF al, of now]
    by (simp add: negotiation_processors_def manager_states_def provider_states_def andThen_def)
  with leased_idle [OF al assms(2)] n show ?thesis
    by (auto simp: outcome_def cn_at_def)
qed

section \<open>Instances\<close>

definition demo_cnm :: "cnType \<Rightarrow> contractNegotiationStates \<Rightarrow> string contractOffer \<Rightarrow> string cnm" where
  "demo_cnm ty st off = (cnm_start 10)\<lparr>cnStore := [(''n1'', \<lparr>item = (demo_negotiation ty st)
     \<lparr>correlationId := (case ty of CN_CONSUMER \<Rightarrow> None | CN_PROVIDER \<Rightarrow> Some ''c1''),
      contractOffers := [off]\<rparr>, leased = False\<rparr>)]\<rparr>"

lemma demo_cnm_alone:
  "cn_alone (cn_at ty (case ty of CN_CONSUMER \<Rightarrow> None | CN_PROVIDER \<Rightarrow> Some ''c1'') off ''n1'' st None)
     ''n1'' False [] [] (demo_cnm ty st off)"
  by (simp add: demo_cnm_def cnm_start_def cn_alone_def cn_at_def demo_negotiation_def)

definition demo_agreement :: "string contractAgreement" where
  "demo_agreement = agreed 4 ''u'' demo_offer \<lparr>theAssetId = ''a1'', assetProperties = []\<rparr>"

theorem consumer_confirmed_spec_witness:
  "snd (consumer_confirmed demo_cnm_env 5 ''tok'' ''n1'' demo_agreement
     (demo_cnm CN_CONSUMER CN_DECLINED demo_offer)) = demo_cnm CN_CONSUMER CN_DECLINED demo_offer \<and>
   outcome (snd (consumer_confirmed demo_cnm_env 5 ''tok'' ''n1'' demo_agreement
     (demo_cnm CN_CONSUMER CN_REQUESTED demo_offer))) ''n1'' =
     Some (cn_code CN_CONFIRMED, Some demo_agreement)"
proof -
  have v: "validateAgreement demo_cnm_env ''tok'' demo_agreement demo_offer"
    by (simp add: demo_cnm_env_def agreed_def demo_offer_def demo_agreement_def)
  have m: "map_of (cnStore (demo_cnm CN_CONSUMER st demo_offer)) ''n1'' =
      Some \<lparr>item = (demo_negotiation CN_CONSUMER st)\<lparr>correlationId := None, contractOffers := [demo_offer]\<rparr>,
        leased = False\<rparr>" for st
    by (simp add: demo_cnm_def)
  note spec = consumer_confirmed_spec [where latest = demo_offer and env = demo_cnm_env and
      token = "''tok''" and now = 5 and a = demo_agreement, OF m]
  show ?thesis using spec [of CN_DECLINED] spec [of CN_REQUESTED] v
    by (auto simp: demo_negotiation_def getLastContractOffer_def confirmable_def Let_def)
qed

theorem declining_consumer_stuck_witness:
  "\<exists>s'. sumProcessors (negotiation_processors demo_cnm_env 5 id 5 CN_PROVIDER)
      (demo_cnm CN_CONSUMER CN_DECLINING demo_offer) = (Inl (NullPointerException ''correlationId''), s')"
  using declining_consumer_stuck [where b = 5, of demo_offer "''n1''" None "[]" "[]"
      "demo_cnm CN_CONSUMER CN_DECLINING demo_offer" demo_cnm_env 5 id]
    demo_cnm_alone [of CN_CONSUMER demo_offer CN_DECLINING] by auto

theorem malformed_offer_stuck_witness:
  "\<exists>s'. sumProcessors (negotiation_processors demo_cnm_env 5 id 5 CN_PROVIDER)
      (demo_cnm CN_PROVIDER CN_CONFIRMING (demo_offer\<lparr>offerId := ''def''\<rparr>)) = (Inr 0, s') \<and>
    sumProcessors (negotiation_processors demo_cnm_env 9 id 5 CN_PROVIDER) s' = (Inr 0, s')"
proof -
  have "length (parseContractId (offerId (demo_offer\<lparr>offerId := ''def''\<rparr>))) \<noteq> 2"
    by (simp add: parseContractId_def split_string_def)
  with malformed_offer_stuck [where b = 5, of "Some ''c1''" "demo_offer\<lparr>offerId := ''def''\<rparr>" "''n1''" "[]" "[]"
      "demo_cnm CN_PROVIDER CN_CONFIRMING (demo_offer\<lparr>offerId := ''def''\<rparr>)" demo_cnm_env 5 id]
    demo_cnm_alone [of CN_PROVIDER "demo_offer\<lparr>offerId := ''def''\<rparr>" CN_CONFIRMING]
  show ?thesis by auto
qed

end
