(* ===== verification/Api_Negotiation_Responses.thy ===== *)
theory Api_Negotiation_Responses
  imports Api_Responses Api_Negotiations Negotiation_Properties
begin

text \<open>
  The responses of the contract negotiation API: what each request answers and does on every
  branch, and whether the document says so.
\<close>

section \<open>Reading a negotiation\<close>

lemma cn_find_run:
  "cn_find now k s = (Inr (map_option (\<lambda>i. copy_negotiation now (item i)) (map_of (cnStore s) k)), s)"
  by (auto simp: cn_find_def find_entity_def split: option.split)

lemma cn_typed_from: "cn_typed n \<Longrightarrow> \<exists>st. cn_from (state n) = Some st"
  by (auto simp: cn_typed_def)

lemma cnm_ok_from:
  assumes "cnm_ok s" "map_of (cnStore s) k = Some i"
  obtains st where "cn_from (state (item i)) = Some st"
  using assms map_of_SomeD [OF assms(2)] cn_typed_from [of "item i"] by (fastforce simp: cnm_ok_def cn_ok_def)

lemma contractNegotiationDto_conforms:
  "contractNegotiationDto nulls n = Inr j \<Longrightarrow>
     conforms True api_schemas (schema_ref ''ContractNegotiationDto'') j \<longleftrightarrow>
       (nulls \<longrightarrow> contractAgreement n \<noteq> None \<and> errorDetail n \<noteq> None)"
  by (cases "cnType n"; cases "contractAgreement n"; cases "errorDetail n"; cases nulls;
      auto simp: contractNegotiationDto_def string_or_null_def schema_ContractNegotiationDto_def schema_simps
      split: option.splits)

text \<open>
  (C37) \<open>GET /contractnegotiations/{id}\<close> changes nothing and answers 200 for a stored negotiation and
  404 for another identifier, as the document says. The body is documented too, unless null
  fields are written: then it is only when the negotiation has both an agreement and an error.
\<close>

theorem get_negotiation_answer:
  assumes ok: "cnm_ok s" and run: "respond (nullsWritten api) verbose (getNegotiation api now ident) s = (r, s')"
  shows "s' = s \<and>
    httpStatus r = (if map_of (cnStore s) ident = None then 404 else 200) \<and>
    (documented swaggerSpec ''/contractnegotiations/{id}'' ''get'' r \<longleftrightarrow>
      (case map_of (cnStore s) ident of
         None \<Rightarrow> \<not> (nullsWritten api \<and> verbose)
       | Some i \<Rightarrow> nullsWritten api \<longrightarrow> contractAgreement (item i) \<noteq> None \<and> errorDetail (item i) \<noteq> None))"
proof (cases "map_of (cnStore s) ident")
  case None
  then have "r = toResponse (nullsWritten api) verbose (ObjectNotFoundException ''ContractDefinition'' ident)" "s' = s"
    using run by (simp_all add: getNegotiation_def andThen_def cn_find_run)
  then show ?thesis using None
    by (simp add: not_found_response documented_def path_contractnegotiations_id_def declared_statuses_def
        response_schema_def subfields_def json_content_def api_errors_def List.member_iff api_errors_conform
        del: conforms_simps)
next
  case (Some i)
  obtain st where "cn_from (state (item i)) = Some st" using cnm_ok_from [OF ok Some] .
  then obtain j where j: "contractNegotiationDto (nullsWritten api) (copy_negotiation now (item i)) = Inr j"
    by (simp add: contractNegotiationDto_def)
  then have "r = \<lparr>httpStatus = 200, httpBody = Some j\<rparr>" "s' = s"
    using run Some by (simp_all add: getNegotiation_def andThen_def cn_find_run)
  then show ?thesis using Some contractNegotiationDto_conforms [OF j]
    by (simp add: documented_def path_contractnegotiations_id_def declared_statuses_def
        response_schema_def subfields_def json_content_def List.member_iff del: conforms_simps)
qed

section \<open>The agreement of a negotiation\<close>

lemma contractAgreementDto_conforms:
  "conforms True api_schemas (schema_ref ''ContractAgreementDto'') (contractAgreementDto w a) \<longleftrightarrow>
     conforms True api_schemas (schema_ref ''Policy'') (w (agreementPolicy a))"
  "\<not> conforms True api_schemas (schema_ref ''ContractNegotiationDto'') (contractAgreementDto w a)"
  by (auto simp: contractAgreementDto_def schema_ContractAgreementDto_def schema_ContractNegotiationDto_def
      schema_simps any_object_def)

text \<open>
  \<open>GET /contractnegotiations/{id}/agreement\<close> changes nothing and answers the agreement of the
  stored negotiation, or 404 when there is no such negotiation or it has no agreement. What it
  answers is a \<open>ContractAgreementDto\<close> as that schema has it, if the policy is one; but it is never
  what the document declares for this path, a \<open>ContractNegotiationDto\<close>.
\<close>

theorem agreement_answer:
  assumes run: "respond (nullsWritten api) verbose (getAgreementForNegotiation api now ident) s = (r, s')"
  shows "s' = s \<and>
    (case map_of (cnStore s) ident of
       None \<Rightarrow> httpStatus r = 404
     | Some i \<Rightarrow>
         (case contractAgreement (item i) of
            None \<Rightarrow> httpStatus r = 404
          | Some a \<Rightarrow> r = \<lparr>httpStatus = 200, httpBody = Some (contractAgreementDto (policyJson api) a)\<rparr> \<and>
              \<not> documented swaggerSpec ''/contractnegotiations/{id}/agreement'' ''get'' r \<and>
              conforms True api_schemas (schema_ref ''ContractAgreementDto'') (the (httpBody r)) =
                conforms True api_schemas (schema_ref ''Policy'') (policyJson api (agreementPolicy a))))"
  using run
  by (auto simp: getAgreementForNegotiation_def getForNegotiation_def andThen_def cn_find_run not_found_response
      response_defs path_contractnegotiations_id_agreement_def contractAgreementDto_conforms
      simp del: conforms_simps deref_schema_ref split: option.splits)

section \<open>Declining\<close>

text \<open>The negotiation a decline finds: by its identifier, else by the correlation identifier.\<close>

definition declineTarget :: "string \<Rightarrow> 'pol cnm \<Rightarrow> 'pol contract_negotiation option" where
  "declineTarget ident s =
     (case map_of (cnStore s) ident of
        Some i \<Rightarrow> Some (item i)
      | None \<Rightarrow> List.find (\<lambda>n. correlationId n = Some ident) (findAll_entities (cnStore s)))"

lemma transitionDeclined_copy:
  "isl (transitionDeclined now (copy_negotiation now' n)) = isl (transitionDeclined now n)"
  by (simp add: transitionDeclined_def cn_transition_def)

lemma transitionDeclined_cases:
  "(\<exists>m. transitionDeclined now n = Inl (IllegalStateException m)) \<or>
   transitionDeclined now n = Inr (transitionTo now (cn_code CN_DECLINED) n)"
  by (auto simp: transitionDeclined_def cn_transition_def)

lemma declined_cases:
  fixes s :: "'pol cnm"
  assumes "consumer_declined now ident s = (x, s')"
  obtains (unknown) "declineTarget ident s = None" "x = Inr (StatusFailure FATAL_ERROR [])" "s' = s"
    | (refused) n m where "declineTarget ident s = Some n" "isl (transitionDeclined now n)"
        "x = Inl (IllegalStateException m)" "s' = s"
    | (declined) n n' where "declineTarget ident s = Some n" "\<not> isl (transitionDeclined now n)"
        "x = Inr (StatusSuccess n')" "outcome s' (entityId n) = Some (cn_code CN_DECLINED, contractAgreement n)"
proof -
  define t :: "'pol contract_negotiation \<Rightarrow> 'pol contract_negotiation"
    where "t = (if map_of (cnStore s) ident = None then (\<lambda>n. n) else copy_negotiation now)"
  have eq: "consumer_declined now ident s =
      (case declineTarget ident s of
         None \<Rightarrow> (Inr (StatusFailure FATAL_ERROR []), s)
       | Some n \<Rightarrow>
           andThen (liftE (transitionDeclined now (t n))) (\<lambda>n'.
           andThen (cn_assign (map_of (cnStore s) ident = None) n') (\<lambda>_.
           andThen (cn_save now n') (\<lambda>_.
           andThen (cn_notify Cn_declined n') (\<lambda>_. ret (StatusSuccess n'))))) s)"
    by (auto simp: consumer_declined_def findContractNegotiationById_def declineTarget_def cn_find_run andThen_def
        findForCorrelationId_def t_def split: option.splits sum.splits)
  show thesis
  proof (cases "declineTarget ident s")
    case None
    with eq assms show thesis by (intro unknown) auto
  next
    case (Some n)
    have tn: "entityId (t n) = entityId n" "contractAgreement (t n) = contractAgreement n" by (simp_all add: t_def)
    have isl: "isl (transitionDeclined now (t n)) = isl (transitionDeclined now n)"
      by (simp add: t_def transitionDeclined_copy)
    consider m where "transitionDeclined now (t n) = Inl (IllegalStateException m)"
      | "transitionDeclined now (t n) = Inr (transitionTo now (cn_code CN_DECLINED) (t n))"
      using transitionDeclined_cases by blast
    then show thesis
    proof cases
      case 1
      with eq assms Some isl show thesis by (intro refused [of n m]) auto
    next
      case 2
      let ?n' = "transitionTo now (cn_code CN_DECLINED) (t n)"
      have saved: "outcome (snd (cn_notify ev ?n' (snd (cn_save now ?n' u)))) (entityId n) =
          Some (cn_code CN_DECLINED, contractAgreement n)" for ev u
        using outcome_save [of now ?n' u] tn by simp
      have "outcome s' (entityId n) = Some (cn_code CN_DECLINED, contractAgreement n)" "x = Inr (StatusSuccess ?n')"
        using eq assms Some 2 saved by (auto simp: cn_assign_def save_then notify_then)
      with Some isl 2 show thesis by (intro declined [of n ?n']) auto
    qed
  qed
qed

text \<open>
  \<open>POST /contractnegotiations/{id}/decline\<close> answers 204 when the negotiation, found by its
  identifier or by that of the counter-party, may be declined, and then it is declined; otherwise it
  answers 409 and changes nothing, also for an identifier that is not known. The document declares
  200, 400 and 404, so no answer is a documented one.
\<close>

theorem decline_answer:
  assumes run: "respond (nullsWritten api) verbose (declineNegotiation now ident) s = (r, s')"
  shows "httpStatus r =
      (case declineTarget ident s of None \<Rightarrow> 409 | Some n \<Rightarrow> if isl (transitionDeclined now n) then 409 else 204) \<and>
    (httpStatus r = 409 \<longrightarrow> s' = s) \<and>
    (httpStatus r = 204 \<longrightarrow> (\<exists>n. declineTarget ident s = Some n \<and>
       outcome s' (entityId n) = Some (cn_code CN_DECLINED, contractAgreement n))) \<and>
    \<not> documented swaggerSpec ''/contractnegotiations/{id}/decline'' ''post'' r"
proof -
  obtain x u where d: "consumer_declined now ident s = (x, u)" by fastforce
  have undeclared: "\<not> documented swaggerSpec ''/contractnegotiations/{id}/decline'' ''post'' r"
    if "httpStatus r = 204 \<or> httpStatus r = 409"
    using that by (auto simp: response_defs path_contractnegotiations_id_decline_def)
  from d show ?thesis
  proof (cases rule: declined_cases)
    case unknown
    with d run undeclared show ?thesis
      by (auto simp: declineNegotiation_def declineNegotiation_service_def voidOrThrow_def mapToException_def
          respond_def toResponse_def)
  next
    case (refused n m)
    with d run undeclared show ?thesis
      by (auto simp: declineNegotiation_def declineNegotiation_service_def voidOrThrow_def mapToException_def
          respond_def toResponse_def)
  next
    case (declined n n')
    with d run undeclared show ?thesis
      by (auto simp: declineNegotiation_def declineNegotiation_service_def voidOrThrow_def respond_def)
  qed
qed

section \<open>Cancelling\<close>


definition cancelCommand :: "string \<Rightarrow> string \<Rightarrow> cnCommand command" where
  "cancelCommand uuid ident = \<lparr>commandId = uuid, errorCount = 0, payload = CancelNegotiation ident\<rparr>"


text \<open>
  A negotiation whose cancellation was accepted is in \<open>ERROR\<close> with the detail \<open>Cancelled\<close> and
  free, whatever state it was in and whoever had it leased, as soon as the commands are processed;
  a confirmed negotiation too.
\<close>

theorem cancel_takes_effect:
  assumes ok: "cnm_ok s" and i: "map_of (cnStore s) ident = Some i" and q: "queue (cnQueue s) = []"
    and run: "cancelNegotiation now uuid ident s = (Inr x, s')"
    and commands: "cn_onCommands now' s' = (y, s'')"
  shows "\<exists>i'. map_of (cnStore s'') ident = Some i' \<and> state (item i') = cn_code CN_ERROR \<and>
    errorDetail (item i') = Some ''Cancelled'' \<and> \<not> leased i' \<and> queue (cnQueue s'') = []"
proof -
  have id: "entityId (item i) = ident"
    using ok map_of_SomeD [OF i] by (fastforce simp: cnm_ok_def store_ok_def)
  from run i q have b: "0 < bound (cnQueue s)"
    and s': "s' = s\<lparr>cnQueue := (cnQueue s)\<lparr>queue := [cancelCommand uuid ident]\<rparr>\<rparr>"
    by (auto simp: cancelNegotiation_def cancelNegotiation_service_def andThen_def cn_find_run
        voidOrThrow_def cn_enqueueCommand_def enqueue_def cancelCommand_def split: if_splits)
  let ?n = "cn_transitionError now' (Some ''Cancelled'') (copy_negotiation now' (item i))"
  have "s'' = s\<lparr>cnStore := upsert (copy_negotiation now') ?n (cnStore s), cnQueue := (cnQueue s)\<lparr>queue := []\<rparr>\<rparr>"
    using commands i by (simp add: s' cn_onCommands_def stateProcessor_def cn_dequeueCommands_def dequeueN_def
        andThen_def cn_processCommand_def processCommandQueue_def runCommand_def cn_handle_def cancelCommand_def
        singleContractNegotiationCommand_def cn_find_run cn_cancel_modify_def cn_save_def)
  then show ?thesis
    by (simp add: upsert_def new_item_def id cn_transitionError_def updateStateTimestamp_def)
qed

section \<open>Initiating\<close>

definition acceptable :: "(string \<Rightarrow> bool) \<Rightarrow> 'pol negotiationInitiateRequestDto option \<Rightarrow> bool" where
  "acceptable blank body =
     (case body of None \<Rightarrow> False
      | Some dto \<Rightarrow>
          (case dtoOffer dto of None \<Rightarrow> False
           | Some off \<Rightarrow>
               isNoneBlank blank [dtoConnectorId dto, dtoConnectorAddress dto, dtoProtocol dto,
                 descriptionOfferId off, descriptionAssetId off] \<and> descriptionPolicy off \<noteq> None))"

text \<open>What a stored negotiation is right after its initiation: the offer made of the request.\<close>

definition initiatedWith :: "'pol negotiationInitiateRequestDto \<Rightarrow> 'pol contract_negotiation \<Rightarrow> bool" where
  "initiatedWith dto n \<longleftrightarrow> state n = cn_code CN_INITIAL \<and> cnType n = CN_CONSUMER \<and>
     dtoConnectorAddress dto = Some (counterPartyAddress n) \<and> dtoConnectorId dto = Some (counterPartyId n) \<and>
     dtoProtocol dto = Some (cnProtocol n) \<and>
     (\<exists>off offer. dtoOffer dto = Some off \<and> contractOffers n = [offer] \<and>
        descriptionOfferId off = Some (offerId offer) \<and> descriptionPolicy off = Some (offerPolicy offer) \<and>
        descriptionAssetId off = map_option theAssetId (offerAsset offer))"

lemma initiate_run:
  fixes r :: "'pol contractOfferRequest" and s :: "'pol cnm"
  obtains n s' where "cn_initiate env now k r s = (Inr (StatusSuccess n), s')" "entityId n = k"
    "map_of (cnStore s') k = Some (new_item (copy_negotiation now n))" "state n = cn_code CN_INITIAL"
    "cnType n = CN_CONSUMER" "counterPartyAddress n = requestConnectorAddress r"
    "counterPartyId n = requestConnectorId r" "cnProtocol n = requestProtocol r"
    "contractOffers n = [requestOffer r]"
proof -
  obtain n :: "'pol contract_negotiation" where n: "build_negotiation now (Some k) (new_negotiation CN_CONSUMER None (requestProtocol r)
      (requestConnectorId r) (requestConnectorAddress r) (cnTraceContext env)) = Inr n"
    and f: "entityId n = k" "state n = 0" "cnType n = CN_CONSUMER" "contractOffers n = []"
      "counterPartyAddress n = requestConnectorAddress r" "counterPartyId n = requestConnectorId r"
      "cnProtocol n = requestProtocol r"
    by (auto simp: build_negotiation_def entity_build_def new_negotiation_def Let_def)
  let ?n = "addContractOffer (requestOffer r) n"
  let ?n' = "transitionTo now (cn_code CN_INITIAL) ?n"
  have "cn_transitionInitial now ?n = Inr ?n'"
    using f by (simp add: cn_transitionInitial_def cn_transition_def)
  with n have "cn_initiate env now k r s =
      (Inr (StatusSuccess ?n'), snd (cn_notify Cn_initiated ?n' (snd (cn_save now ?n' s))))"
    by (simp add: cn_initiate_def save_then notify_then)
  then show thesis using f
    by (intro that [of ?n' "snd (cn_notify Cn_initiated ?n' (snd (cn_save now ?n' s)))"])
      (simp_all add: cn_save_def cn_notify_def upsert_def addContractOffer_def)
qed

lemma toContractOfferRequest_valid:
  assumes "isValid blank dto = Inr True"
  obtains off where "dtoOffer dto = Some off"
    "descriptionPolicy off = None" "toContractOfferRequest dto = Inl (IllegalArgumentException ''Policy must not be null!'')"
  | off r where "dtoOffer dto = Some off" "descriptionPolicy off = Some (offerPolicy (requestOffer r))"
    "toContractOfferRequest dto = Inr r" "dtoProtocol dto = Some (requestProtocol r)"
    "dtoConnectorId dto = Some (requestConnectorId r)" "dtoConnectorAddress dto = Some (requestConnectorAddress r)"
    "descriptionOfferId off = Some (offerId (requestOffer r))"
    "descriptionAssetId off = map_option theAssetId (offerAsset (requestOffer r))"
proof -
  from assms obtain off a b c d e where f: "dtoOffer dto = Some off" "dtoConnectorId dto = Some a"
    "dtoConnectorAddress dto = Some b" "dtoProtocol dto = Some c" "descriptionOfferId off = Some d"
    "descriptionAssetId off = Some e"
    by (auto simp: isValid_def isNoneBlank_def split: option.splits)
  show thesis
  proof (cases "descriptionPolicy off")
    case None
    with f show thesis by (intro that(1)) (simp_all add: toContractOfferRequest_def)
  next
    case (Some p)
    with f obtain r where "toContractOfferRequest dto = Inr r" by (simp add: toContractOfferRequest_def)
    with f Some show thesis by (intro that(2)) (auto simp: toContractOfferRequest_def)
  qed
qed

lemma initiate_400:
  "httpStatus r = 400 \<Longrightarrow> httpBody r = None \<Longrightarrow> documented swaggerSpec ''/contractnegotiations'' ''post'' r"
  "documented swaggerSpec ''/contractnegotiations'' ''post'' (toResponse nulls v (ConstraintViolationException vs))"
  "documented swaggerSpec ''/contractnegotiations'' ''post'' \<lparr>httpStatus = 200, httpBody = Some (negotiationId k)\<rparr>"
  using violations_conform [of nulls vs]
  by (simp_all add: response_defs path_contractnegotiations_def toResponse_def negotiationId_def
      schema_NegotiationId_def schema_simps)

lemma violations_none:
  "isValid blank dto = Inr True \<Longrightarrow> initiateViolations dto violation = []"
  by (auto simp: isValid_def initiateViolations_def isNoneBlank_def split: option.splits)

text \<open>
  \<open>POST /contractnegotiations\<close> is total and does what the document says: a request with all its
  fields set, none of the strings blank, stores a negotiation in \<open>INITIAL\<close> with the offer of the
  request and answers its identifier; every other request is answered by 400 and stores nothing.
\<close>

theorem initiate_answer:
  assumes run: "respond (nullsWritten api) verbose (initiateContractNegotiation api env now uuid body) s = (r, s')"
  shows "documented swaggerSpec ''/contractnegotiations'' ''post'' r \<and>
    (if acceptable (isBlank api) body
     then httpStatus r = 200 \<and> httpBody r = Some (negotiationId uuid) \<and>
       (\<exists>dto i. body = Some dto \<and> map_of (cnStore s') uuid = Some i \<and> initiatedWith dto (item i))
     else httpStatus r = 400 \<and> s' = s)"
proof (cases body)
  case None
  with run show ?thesis
    by (auto simp: initiateContractNegotiation_def respond_def toResponse_def acceptable_def intro: initiate_400)
next
  case (Some dto)
  consider (violated) v vs where "initiateViolations dto (notNullViolation api) = v # vs"
    | (invalid) e where "initiateViolations dto (notNullViolation api) = []" "isValid (isBlank api) dto = Inl e"
    | (blank) "initiateViolations dto (notNullViolation api) = []" "isValid (isBlank api) dto = Inr False"
    | (valid) "initiateViolations dto (notNullViolation api) = []" "isValid (isBlank api) dto = Inr True"
    by (cases "initiateViolations dto (notNullViolation api)"; cases "isValid (isBlank api) dto") auto
  then show ?thesis
  proof cases
    case violated
    with violations_none have "\<not> acceptable (isBlank api) body"
      by (fastforce simp: acceptable_def Some isValid_def split: option.splits)
    moreover from violated run Some have "r = toResponse (nullsWritten api) verbose (ConstraintViolationException (v # vs))" "s' = s"
      by (simp_all add: initiateContractNegotiation_def respond_def)
    ultimately show ?thesis by (simp add: initiate_400(2)) (simp add: toResponse_def)
  next
    case invalid
    then have "e = NullPointerException ''getOffer''" "\<not> acceptable (isBlank api) body"
      by (auto simp: isValid_def acceptable_def Some split: option.splits)
    with invalid run Some show ?thesis
      by (auto simp: initiateContractNegotiation_def respond_def toResponse_def intro: initiate_400)
  next
    case blank
    then have "\<not> acceptable (isBlank api) body"
      by (auto simp: isValid_def acceptable_def Some split: option.splits)
    with blank run Some show ?thesis
      by (auto simp: initiateContractNegotiation_def respond_def toResponse_def intro: initiate_400)
  next
    case valid
    then have ok: "isValid (isBlank api) dto = Inr True" by simp
    from ok show ?thesis
    proof (cases rule: toContractOfferRequest_valid)
      case (1 off)
      with valid run Some show ?thesis
        by (auto simp: initiateContractNegotiation_def respond_def toResponse_def acceptable_def intro: initiate_400)
    next
      case (2 off q)
      obtain n u where i: "cn_initiate env now uuid q s = (Inr (StatusSuccess n), u)" "entityId n = uuid"
        "map_of (cnStore u) uuid = Some (new_item (copy_negotiation now n))" "state n = cn_code CN_INITIAL"
        "cnType n = CN_CONSUMER" "counterPartyAddress n = requestConnectorAddress q"
        "counterPartyId n = requestConnectorId q" "cnProtocol n = requestProtocol q"
        "contractOffers n = [requestOffer q]"
        by (rule initiate_run)
      have "r = \<lparr>httpStatus = 200, httpBody = Some (negotiationId uuid)\<rparr>" "s' = u"
        using valid run Some 2 i
        by (simp_all add: initiateContractNegotiation_def initiateNegotiation_def respond_def andThen_def)
      moreover have "acceptable (isBlank api) body"
        using ok 2 by (auto simp: acceptable_def Some isValid_def)
      moreover have "initiatedWith dto (item (new_item (copy_negotiation now n)))"
        using 2 i by (simp add: initiatedWith_def new_item_def)
      ultimately show ?thesis using Some i initiate_400(3) by auto
    qed
  qed
qed

section \<open>Requests are steps\<close>








section \<open>Examples\<close>

definition demo_api :: "string api_env" where
  "demo_api = \<lparr>nullsWritten = False, policyJson = (\<lambda>p. JObj [(''target'', JStr p)]), isBlank = (\<lambda>s. s = []),
     notNullViolation = (\<lambda>f. (''must not be null'', ''NotNull'', f))\<rparr>"

abbreviation demo_requested :: "string cnm" where
  "demo_requested \<equiv> demo_cnm CN_CONSUMER CN_REQUESTED demo_offer"

lemma demo_requested_ok: "cnm_ok demo_requested"
  by (auto simp: demo_cnm_def cnm_start_def demo_negotiation_def cnm_ok_def store_ok_def keys_distinct_def
      cn_ok_def cn_typed_def cn_reachable_def within_bound_def)

lemma demo_requested_store:
  "map_of (cnStore demo_requested) ''n1'' = Some \<lparr>item = (demo_negotiation CN_CONSUMER CN_REQUESTED)
     \<lparr>correlationId := None, contractOffers := [demo_offer]\<rparr>, leased = False\<rparr>"
  "queue (cnQueue demo_requested) = []" "bound (cnQueue demo_requested) = 10"
  by (simp_all add: demo_cnm_def cnm_start_def)

theorem get_negotiation_answer_witness:
  "\<exists>r. respond (nullsWritten demo_api) True (getNegotiation demo_api 5 ''n1'') demo_requested = (r, demo_requested) \<and>
     httpStatus r = 200 \<and> documented swaggerSpec ''/contractnegotiations/{id}'' ''get'' r"
proof -
  obtain r s' where run: "respond (nullsWritten demo_api) True (getNegotiation demo_api 5 ''n1'') demo_requested = (r, s')"
    by fastforce
  with get_negotiation_answer [OF demo_requested_ok run] show ?thesis
    by (auto simp: demo_requested_store demo_api_def)
qed

theorem agreement_answer_witness:
  "\<exists>r s. map_of (cnStore s) ''n1'' = Some (new_item ((demo_negotiation CN_CONSUMER CN_CONFIRMED)
       \<lparr>contractAgreement := Some demo_agreement\<rparr>)) \<and>
     respond (nullsWritten demo_api) True (getAgreementForNegotiation demo_api 5 ''n1'') s = (r, s) \<and>
     httpStatus r = 200 \<and> \<not> documented swaggerSpec ''/contractnegotiations/{id}/agreement'' ''get'' r"
proof -
  let ?s = "(cnm_start 10)\<lparr>cnStore := [(''n1'', new_item ((demo_negotiation CN_CONSUMER CN_CONFIRMED)
    \<lparr>contractAgreement := Some demo_agreement\<rparr>))]\<rparr>"
  obtain r s' where run: "respond (nullsWritten demo_api) True (getAgreementForNegotiation demo_api 5 ''n1'') ?s = (r, s')"
    by fastforce
  from agreement_answer [OF run] have "s' = ?s" "httpStatus r = 200"
    "\<not> documented swaggerSpec ''/contractnegotiations/{id}/agreement'' ''get'' r"
    by (auto simp: new_item_def)
  with run show ?thesis by (intro exI [of _ r] exI [of _ ?s]) simp
qed

theorem decline_answer_witness:
  "\<exists>r s'. respond (nullsWritten demo_api) True (declineNegotiation 5 ''n1'') demo_requested = (r, s') \<and>
     httpStatus r = 204 \<and> outcome s' ''n1'' = Some (cn_code CN_DECLINED, None)"
proof -
  obtain r s' where run: "respond (nullsWritten demo_api) True (declineNegotiation 5 ''n1'') demo_requested = (r, s')"
    by fastforce
  from decline_answer [OF run] run show ?thesis
    by (auto simp: declineTarget_def demo_requested_store demo_negotiation_def transitionDeclined_def cn_transition_def)
qed

theorem cancel_takes_effect_witness:
  "\<exists>s' s'' i. cancelNegotiation 5 ''k'' ''n1'' demo_requested = (Inr None, s') \<and> cn_onCommands 6 s' = (Inr 1, s'') \<and>
     map_of (cnStore s'') ''n1'' = Some i \<and> state (item i) = cn_code CN_ERROR"
proof -
  obtain s' where run: "cancelNegotiation 5 ''k'' ''n1'' demo_requested = (Inr None, s')"
    by (simp add: cancelNegotiation_def cancelNegotiation_service_def andThen_def cn_find_run demo_requested_store
        voidOrThrow_def cn_enqueueCommand_def enqueue_def)
  then have s': "s' = demo_requested\<lparr>cnQueue := (cnQueue demo_requested)\<lparr>queue := [cancelCommand ''k'' ''n1'']\<rparr>\<rparr>"
    by (simp add: cancelNegotiation_def cancelNegotiation_service_def andThen_def cn_find_run demo_requested_store
        voidOrThrow_def cn_enqueueCommand_def enqueue_def cancelCommand_def)
  obtain s'' where commands: "cn_onCommands 6 s' = (Inr 1, s'')"
    by (simp add: s' cn_onCommands_def stateProcessor_def cn_dequeueCommands_def dequeueN_def
        andThen_def cn_processCommand_def processCommandQueue_def runCommand_def cn_handle_def cancelCommand_def
        singleContractNegotiationCommand_def cn_find_run demo_requested_store cn_save_def)
  from cancel_takes_effect [OF demo_requested_ok demo_requested_store(1,2) run commands] run commands
  show ?thesis by blast
qed

definition demo_initiate :: "string negotiationInitiateRequestDto" where
  "demo_initiate = \<lparr>dtoConnectorAddress = Some ''http://provider'', dtoProtocol = Some ''ids-multipart'',
     dtoConnectorId = Some ''provider'', dtoOffer = Some \<lparr>descriptionOfferId = Some ''def:1'',
       descriptionAssetId = Some ''a1'', descriptionPolicy = Some ''use''\<rparr>\<rparr>"

theorem initiate_answer_witness:
  "\<exists>r s' i. respond (nullsWritten demo_api) True (initiateContractNegotiation demo_api demo_cnm_env 5 ''u''
       (Some demo_initiate)) demo_requested = (r, s') \<and>
     httpStatus r = 200 \<and> map_of (cnStore s') ''u'' = Some i \<and> initiatedWith demo_initiate (item i)"
proof -
  obtain r s' where run: "respond (nullsWritten demo_api) True (initiateContractNegotiation demo_api demo_cnm_env 5 ''u''
       (Some demo_initiate)) demo_requested = (r, s')" by fastforce
  have "acceptable (isBlank demo_api) (Some demo_initiate)"
    by (simp add: acceptable_def demo_initiate_def demo_api_def isNoneBlank_def)
  with initiate_answer [OF run] run show ?thesis by auto
qed


end
