(* ===== verification/Api_Transfers.thy ===== *)
theory Api_Transfers
  imports Api_Http Transfer_Manager
begin

text \<open>
  The data management API of transfer processes, in
  \<open>extensions/api/data-management/transferprocess\<close>: the controller \<open>TransferProcessApiController\<close>
  over \<open>TransferProcessServiceImpl\<close>, on the transfer manager, with the DTOs it reads and writes.
  The transaction context runs its block as it is. Queries of all processes are not modelled.
\<close>

section \<open>Data transfer objects\<close>

fun tpTypeName :: "tpType \<Rightarrow> string" where
  "tpTypeName CONSUMER = ''CONSUMER''"
| "tpTypeName PROVIDER = ''PROVIDER''"

text \<open>\<open>DataRequestToDataRequestDtoTransformer\<close> and the DTO as it is written.\<close>

definition dataRequestDto :: "dataRequest \<Rightarrow> json" where
  "dataRequestDto r =
     JObj [(''assetId'', JStr (assetId r)), (''contractId'', JStr (contractId r)),
       (''connectorId'', JStr (connectorId r))]"

definition dataAddressInformationDto :: "dataAddress \<Rightarrow> json" where
  "dataAddressInformationDto a = JObj [(''properties'', JObj (map (\<lambda>(k, v). (k, JStr v)) a))]"

text \<open>
  \<open>TransferProcessToTransferProcessDtoTransformer\<close>: \<open>Inr None\<close> when it reports a problem, which the
  registry turns into a failure. A request without destination fails.
\<close>

definition transferProcessDto :: "bool \<Rightarrow> transfer_process \<Rightarrow> java_exn + json option" where
  "transferProcessDto nulls p =
     (case dataDestination (dataRequest p) of
        None \<Rightarrow> Inl (NullPointerException ''getDataDestination'')
      | Some destination \<Rightarrow>
          (case from_code (state p) of
             None \<Rightarrow> Inr None
           | Some st \<Rightarrow>
               Inr (Some (JObj (
                 [(''id'', JStr (entityId p)), (''type'', JStr (tpTypeName (tpType p))),
                  (''state'', JStr (state_name st)), (''stateTimestamp'', JNum (stateTimestamp p)),
                  (''createdTimestamp'', JNum (createdTimestamp p))] @
                 string_or_null nulls ''errorDetail'' (errorDetail p) @
                 [(''dataRequest'', dataRequestDto (dataRequest p)),
                  (''dataDestination'', dataAddressInformationDto destination)])))))"

definition transferState :: "string \<Rightarrow> json" where
  "transferState s = JObj [(''state'', JStr s)]"

definition transferId :: "string \<Rightarrow> json" where
  "transferId ident = JObj [(''id'', JStr ident)]"

text \<open>The request, as it is read. The builder has defaults for the fields that are not optional here.\<close>

record transferRequestDto =
  trConnectorAddress :: "string option"
  trId :: "string option"
  trContractId :: "string option"
  trDataDestination :: "dataAddress option"
  trManagedResources :: bool
  trProperties :: "string jmap"
  trTransferType :: "transferType option"
  trProtocol :: "string option"
  trConnectorId :: "string option"
  trAssetId :: "string option"

definition transferViolations ::
  "transferRequestDto \<Rightarrow> (string \<Rightarrow> string \<times> string \<times> string) \<Rightarrow> (string \<times> string \<times> string \<times> string) list" where
  "transferViolations dto violation =
     map (\<lambda>(f, _). case violation f of (m, t, p) \<Rightarrow> (m, t, p, ''null''))
       (filter snd [(''connectorAddress'', trConnectorAddress dto = None), (''contractId'', trContractId dto = None),
          (''dataDestination'', trDataDestination dto = None), (''transferType'', trTransferType dto = None),
          (''protocol'', trProtocol dto = None), (''connectorId'', trConnectorId dto = None),
          (''assetId'', trAssetId dto = None)])"

text \<open>
  \<open>TransferRequestDtoToDataRequestTransformer\<close>, of a request that has passed the validation: \<open>None\<close>
  when a field that it checks is missing. \<open>uuid\<close> is used when the request has no identifier.
\<close>

definition toDataRequest :: "string \<Rightarrow> transferRequestDto \<Rightarrow> dataRequest option" where
  "toDataRequest uuid dto =
     (case (trConnectorAddress dto, trContractId dto, trDataDestination dto, trTransferType dto,
            trProtocol dto, trConnectorId dto, trAssetId dto) of
        (Some address, Some contract, Some destination, Some ty, Some prot, Some connector, Some asset) \<Rightarrow>
          Some \<lparr>requestId = (case trId dto of None \<Rightarrow> uuid | Some ident \<Rightarrow> ident), requestProcessId = None,
            connectorAddress = address, protocol = prot, connectorId = connector, assetId = asset,
            contractId = contract, dataDestination = Some destination,
            managedResources = trManagedResources dto, requestProperties = trProperties dto,
            requestTransferType = ty\<rparr>
      | _ \<Rightarrow> None)"

section \<open>The service\<close>

text \<open>The name of an unknown state is a null pointer.\<close>

definition tp_getState :: "int \<Rightarrow> string \<Rightarrow> (tpm, string option) op" where
  "tp_getState now ident =
     andThen (tp_find now ident) (\<lambda>found.
       case found of
         None \<Rightarrow> ret None
       | Some p \<Rightarrow>
           (case from_code (state p) of
              None \<Rightarrow> throw (NullPointerException ''TransferProcessStates.from'')
            | Some st \<Rightarrow> ret (Some (state_name st))))"

text \<open>\<open>apply\<close>: the function on the process found, a copy of the stored one.\<close>

definition applyTo ::
  "int \<Rightarrow> string \<Rightarrow> (transfer_process \<Rightarrow> (tpm, transfer_process serviceResult) op) \<Rightarrow>
   (tpm, transfer_process serviceResult) op" where
  "applyTo now ident f =
     andThen (tp_find now ident) (\<lambda>found.
       case found of
         None \<Rightarrow> ret (ServiceFailure NOT_FOUND [''TransferProcess '' @ ident @ '' does not exist''])
       | Some p \<Rightarrow> f p)"

text \<open>
  \<open>cancelImpl\<close> and \<open>deprovisionImpl\<close>: the transition is made on the copy, only to see whether it is
  allowed. Any other exception than the one of a transition is thrown on.
\<close>

definition requestCommand ::
  "string \<Rightarrow> string \<Rightarrow> (transfer_process \<Rightarrow> java_exn + transfer_process) \<Rightarrow> (string \<Rightarrow> tpCommand) \<Rightarrow>
   transfer_process \<Rightarrow> (tpm, transfer_process serviceResult) op" where
  "requestCommand uuid what transition' command p =
     (case transition' p of
        Inl (IllegalStateException _) \<Rightarrow>
          ret (ServiceFailure CONFLICT
            [''TransferProcess '' @ entityId p @ '' cannot be '' @ what @ '' as it is in state '' @
             show_state (state p)])
      | Inl e \<Rightarrow> throw e
      | Inr p' \<Rightarrow>
          andThen (enqueueCommand \<lparr>commandId = uuid, errorCount = 0, payload = command (entityId p')\<rparr>)
            (\<lambda>_. ret (ServiceSuccess p')))"

definition cancelImpl :: "int \<Rightarrow> string \<Rightarrow> transfer_process \<Rightarrow> (tpm, transfer_process serviceResult) op" where
  "cancelImpl now uuid = requestCommand uuid ''canceled'' (transitionCancelled now) CancelTransferCommand"

definition deprovisionImpl ::
  "int \<Rightarrow> string \<Rightarrow> transfer_process \<Rightarrow> (tpm, transfer_process serviceResult) op" where
  "deprovisionImpl now uuid =
     requestCommand uuid ''deprovisioned'' (transitionDeprovisioning now) DeprovisionRequest"

definition initiateTransfer_service ::
  "'pol tpm_env \<Rightarrow> int \<Rightarrow> string \<Rightarrow> dataRequest \<Rightarrow> (tpm, string serviceResult) op" where
  "initiateTransfer_service env now uuid r =
     andThen (initiateRequest env now uuid CONSUMER r) (\<lambda>result.
       ret (case result of
              StatusSuccess ident \<Rightarrow> ServiceSuccess ident
            | StatusFailure _ _ \<Rightarrow> ServiceFailure CONFLICT [''Request couldn't be initialised.'']))"

section \<open>The controller\<close>

definition getTransferProcess :: "bool \<Rightarrow> int \<Rightarrow> string \<Rightarrow> (tpm, json option) api_op" where
  "getTransferProcess nulls now ident s =
     foundOrThrow ''TransferProcess'' ident
       (andThen (tp_find now ident) (\<lambda>found.
          case found of
            None \<Rightarrow> ret None
          | Some p \<Rightarrow> liftE (transferProcessDto nulls p)) s)"

definition getTransferProcessState :: "int \<Rightarrow> string \<Rightarrow> (tpm, json option) api_op" where
  "getTransferProcessState now ident s =
     foundOrThrow ''TransferProcess'' ident
       (andThen (tp_getState now ident) (\<lambda>st. ret (map_option transferState st)) s)"

definition cancelTransferProcess :: "int \<Rightarrow> string \<Rightarrow> string \<Rightarrow> (tpm, json option) api_op" where
  "cancelTransferProcess now uuid ident s =
     voidOrThrow ''TransferProcess'' ident (applyTo now ident (cancelImpl now uuid) s)"

definition deprovisionTransferProcess :: "int \<Rightarrow> string \<Rightarrow> string \<Rightarrow> (tpm, json option) api_op" where
  "deprovisionTransferProcess now uuid ident s =
     voidOrThrow ''TransferProcess'' ident (applyTo now ident (deprovisionImpl now uuid) s)"

text \<open>The request has an identifier for a missing one, \<open>uuid\<close>, and the new process another.\<close>

definition initiateTransfer ::
  "'pol tpm_env \<Rightarrow> (string \<Rightarrow> string \<times> string \<times> string) \<Rightarrow> int \<Rightarrow> string \<Rightarrow> string \<Rightarrow>
   transferRequestDto option \<Rightarrow> (tpm, json option) api_op" where
  "initiateTransfer env violation now uuid uuid' body s =
     (case body of
        None \<Rightarrow> (Inl (ApiThrow (NullPointerException ''object'')), s)
      | Some dto \<Rightarrow>
          (case transferViolations dto violation of
             v # vs \<Rightarrow> (Inl (ConstraintViolationException (v # vs)), s)
           | [] \<Rightarrow>
               (case toDataRequest uuid dto of
                  None \<Rightarrow> (Inl (ApiThrow (NullPointerException ''getDataDestination'')), s)
                | Some r \<Rightarrow>
                    (case initiateTransfer_service env now uuid' r s of
                       (Inl e, s') \<Rightarrow> (Inl (ApiThrow e), s')
                     | (Inr (ServiceSuccess ident), s') \<Rightarrow> (Inr (Some (transferId ident)), s')
                     | (Inr (ServiceFailure _ _), s') \<Rightarrow>
                         (Inl (ApiThrow (EdcException (''Error during initiating the transfer with assetId: '' @
                            assetId r))), s')))))"

end
