(* ===== verification/Api_Transfer_Responses.thy ===== *)
theory Api_Transfer_Responses
  imports Api_Responses Api_Transfers Transfer_Liveness
begin

text \<open>
  The responses of the transfer process API: what each request answers and does on every branch,
  whether the document says so, and what becomes of the commands that were accepted.
\<close>

section \<open>Reading a process\<close>

lemma tp_find_run:
  "tp_find now k s = (Inr (map_option (\<lambda>i. copy_process now (item i)) (map_of (tpStore s) k)), s)"
  by (auto simp: tp_find_def find_entity_def split: option.split)

lemma copy_process_shown [simp]:
  "dataDestination (dataRequest (copy_process now p)) = dataDestination (dataRequest p)"
  "errorDetail (copy_process now p) = errorDetail p"
  by (simp_all add: copy_process_def associate_def copy_entity_def)

lemma transferProcessDto_conforms:
  "transferProcessDto nulls p = Inr (Some j) \<Longrightarrow>
     conforms True api_schemas (schema_ref ''TransferProcessDto'') j \<longleftrightarrow> (nulls \<longrightarrow> errorDetail p \<noteq> None)"
  by (cases "tpType p"; cases "errorDetail p"; cases nulls;
      auto simp: transferProcessDto_def dataRequestDto_def dataAddressInformationDto_def string_or_null_def
        map_of_type_def schema_TransferProcessDto_def schema_DataRequestDto_def
        schema_DataAddressInformationDto_def schema_simps
      split: option.splits)

lemma tpm_ok_from:
  assumes "tpm_ok s" "map_of (tpStore s) k = Some i"
  obtains st where "from_code (state (item i)) = Some st"
proof -
  have "tp_legal (item i)" using assms map_of_SomeD [OF assms(2)] by (fastforce simp: tpm_ok_def)
  then obtain p where "tp_step\<^sup>*\<^sup>* p (item i)" "state p = code UNSAVED" by (auto simp: tp_legal_def)
  then have "state (item i) \<in> range code" using tp_run_valid [of p "item i"] by (metis rangeI)
  with that show thesis by auto
qed

text \<open>
  \<open>GET /transferprocess/{id}\<close> changes nothing. It answers 200 for a stored process and 404 for
  another identifier, as the document says, but for a process without destination, which is a
  request that was malformed, 400. The body is documented too, unless null fields are written and
  the process has no error.
\<close>

theorem get_transfer_answer:
  assumes ok: "tpm_ok s" and run: "respond nulls verbose (getTransferProcess nulls now ident) s = (r, s')"
  shows "s' = s \<and>
    (case map_of (tpStore s) ident of
       None \<Rightarrow> httpStatus r = 404 \<and>
         (documented swaggerSpec ''/transferprocess/{id}'' ''get'' r \<longleftrightarrow> \<not> (nulls \<and> verbose))
     | Some i \<Rightarrow> httpStatus r = (if dataDestination (dataRequest (item i)) = None then 400 else 200) \<and>
         (documented swaggerSpec ''/transferprocess/{id}'' ''get'' r \<longleftrightarrow>
            (nulls \<and> dataDestination (dataRequest (item i)) \<noteq> None \<longrightarrow> errorDetail (item i) \<noteq> None)))"
proof (cases "map_of (tpStore s) ident")
  case None
  then have "r = toResponse nulls verbose (ObjectNotFoundException ''TransferProcess'' ident)" "s' = s"
    using run by (simp_all add: getTransferProcess_def andThen_def tp_find_run)
  then show ?thesis using None
    by (simp add: not_found_response response_defs path_transferprocess_id_def api_errors_conform
        del: conforms_simps)
next
  case (Some i)
  let ?p = "copy_process now (item i)"
  show ?thesis
  proof (cases "dataDestination (dataRequest (item i))")
    case None
    then have "r = \<lparr>httpStatus = 400, httpBody = None\<rparr>" "s' = s"
      using run Some by (simp_all add: getTransferProcess_def andThen_def tp_find_run transferProcessDto_def
          toResponse_def)
    then show ?thesis using Some None by (simp add: response_defs path_transferprocess_id_def)
  next
    case (Some a)
    obtain st where "from_code (state (item i)) = Some st"
      using tpm_ok_from [OF ok \<open>map_of (tpStore s) ident = Some i\<close>] .
    with Some obtain j where j: "transferProcessDto nulls ?p = Inr (Some j)"
      by (simp add: transferProcessDto_def)
    then have "r = \<lparr>httpStatus = 200, httpBody = Some j\<rparr>" "s' = s"
      using run \<open>map_of (tpStore s) ident = Some i\<close>
      by (simp_all add: getTransferProcess_def andThen_def tp_find_run)
    then show ?thesis using Some \<open>map_of (tpStore s) ident = Some i\<close> transferProcessDto_conforms [OF j]
      by (simp add: response_defs path_transferprocess_id_def del: conforms_simps)
  qed
qed

section \<open>Commands\<close>

lemma transition_exn: "transition now st sts p = Inl e \<Longrightarrow> \<exists>m. e = IllegalStateException m"
  by (auto simp: transition_def split: if_splits)

lemma transition_copy:
  "isl (transition now st sts (copy_process now' p)) = isl (transition now st sts p)"
  by (simp add: transition_def)

lemma transition_id: "transition now st sts p = Inr p' \<Longrightarrow> entityId p' = entityId p"
  by (auto simp: transition_def transitionTo_def updateStateTimestamp_def split: if_splits)

text \<open>What a request for a command answers and does; \<open>allowed\<close> says if the transition is.\<close>

definition commandAnswer ::
  "bool \<Rightarrow> (string \<Rightarrow> tpCommand) \<Rightarrow> string \<Rightarrow> string \<Rightarrow> tpm \<Rightarrow> (transfer_process \<Rightarrow> bool) \<Rightarrow> httpResponse \<Rightarrow> tpm \<Rightarrow> bool"
where
  "commandAnswer v command uuid ident s allowed r s' \<longleftrightarrow>
     httpStatus r =
       (case map_of (tpStore s) ident of
          None \<Rightarrow> 404
        | Some i \<Rightarrow>
            if \<not> allowed (item i) then 409
            else if length (queue (commandQueue s)) < bound (commandQueue s) then 204 else 503) \<and>
     s' = (if httpStatus r = 204
           then s\<lparr>commandQueue := (commandQueue s)\<lparr>queue := queue (commandQueue s) @
                  [\<lparr>commandId = uuid, errorCount = 0, payload = command ident\<rparr>]\<rparr>\<rparr>
           else s) \<and>
     (httpBody r = None \<or> httpStatus r \<in> {404, 409} \<and> v)"

lemma requestCommand_answer:
  assumes ok: "store_ok (tpStore s)"
    and run: "respond nulls v (\<lambda>s. voidOrThrow ''TransferProcess'' ident
      (applyTo now ident (requestCommand uuid what (transition now st sts) command) s)) s = (r, s')"
  shows "commandAnswer v command uuid ident s (\<lambda>p. \<not> isl (transition now st sts p)) r s'"
proof (cases "map_of (tpStore s) ident")
  case None
  with run show ?thesis
    by (auto simp: commandAnswer_def applyTo_def andThen_def tp_find_run voidOrThrow_def respond_def
        mapToException_def toResponse_def split: if_splits)
next
  case (Some i)
  let ?p = "copy_process now (item i)"
  have id: "entityId ?p = ident"
    using ok map_of_SomeD [OF Some] by (fastforce simp: store_ok_def)
  show ?thesis
  proof (cases "transition now st sts ?p")
    case (Inl e)
    then obtain m where e: "e = IllegalStateException m" using transition_exn by blast
    have "isl (transition now st sts (item i))" using Inl transition_copy [of now st sts now "item i"] by simp
    with Inl e run Some show ?thesis
      by (auto simp: commandAnswer_def applyTo_def andThen_def tp_find_run requestCommand_def voidOrThrow_def
          respond_def mapToException_def toResponse_def split: if_splits)
  next
    case (Inr p')
    have "\<not> isl (transition now st sts (item i))" using Inr transition_copy [of now st sts now "item i"] by simp
    with Inr run Some id transition_id [OF Inr] show ?thesis
      by (auto simp: commandAnswer_def applyTo_def andThen_def tp_find_run requestCommand_def voidOrThrow_def
          respond_def toResponse_def enqueueCommand_def enqueue_def split: if_splits)
  qed
qed


lemma commandAnswer_cong:
  "(\<And>i. map_of (tpStore s) ident = Some i \<Longrightarrow> P (item i) = Q (item i)) \<Longrightarrow>
     commandAnswer v command uuid ident s P r s' \<longleftrightarrow> commandAnswer v command uuid ident s Q r s'"
  by (cases "map_of (tpStore s) ident") (simp_all add: commandAnswer_def)

lemma command_documented:
  assumes "httpStatus r \<in> {204, 409, 503}"
  shows "\<not> documented swaggerSpec ''/transferprocess/{id}/cancel'' ''post'' r"
    "\<not> documented swaggerSpec ''/transferprocess/{id}/deprovision'' ''post'' r"
  using assms by (auto simp: response_defs path_transferprocess_id_cancel_def path_transferprocess_id_deprovision_def)

lemma command_statuses:
  "commandAnswer v command uuid ident s P r s' \<Longrightarrow> httpStatus r \<in> {204, 404, 409, 503}"
  by (auto simp: commandAnswer_def split: option.splits)

lemma cancel_answer_tp:
  assumes "tpm_ok s" and "respond nulls v (cancelTransferProcess now uuid ident) s = (r, s')"
  shows "commandAnswer v CancelTransferCommand uuid ident s (\<lambda>p. \<not> isl (transitionCancelled now p)) r s'"
  using requestCommand_answer [OF _ assms(2) [unfolded cancelTransferProcess_def [abs_def] cancelImpl_def
      transitionCancelled_def [abs_def]]] assms(1) by (simp add: transitionCancelled_def tpm_ok_def)

lemma deprovision_answer_tp:
  assumes "tpm_ok s" and "respond nulls v (deprovisionTransferProcess now uuid ident) s = (r, s')"
  shows "commandAnswer v DeprovisionRequest uuid ident s (\<lambda>p. \<not> isl (transitionDeprovisioning now p)) r s'"
  using requestCommand_answer [OF _ assms(2) [unfolded deprovisionTransferProcess_def [abs_def] deprovisionImpl_def
      transitionDeprovisioning_def [abs_def]]] assms(1) by (simp add: transitionDeprovisioning_def tpm_ok_def)

text \<open>One command in the queue, processed.\<close>

lemma onCommands_one:
  assumes "queue (commandQueue s) = []"
    and "tp_handle env now cmd (s\<lparr>commandQueue := (commandQueue s)\<lparr>queue := []\<rparr>\<rparr>) = (Inr (), u)"
  shows "onCommands env now (s\<lparr>commandQueue := (commandQueue s)\<lparr>queue := queue (commandQueue s) @
      [\<lparr>commandId = k, errorCount = 0, payload = cmd\<rparr>]\<rparr>\<rparr>) =
    (Inr 1, u\<lparr>commandQueue := (commandQueue s)\<lparr>queue := []\<rparr>\<rparr>)"
  using assms by (simp add: onCommands_def stateProcessor_def dequeueCommands_def dequeueN_def andThen_def
      processCommand_def processCommandQueue_def runCommand_def)

definition refusesCancel :: "transferProcessStates list" where
  "refusesCancel = [COMPLETED, ENDED, ERROR]"

lemma cancelled_exactly:
  "state p = code st \<Longrightarrow> isl (transitionCancelled now p) \<longleftrightarrow> st \<in> set refusesCancel"
  by (cases st) (simp_all add: transitionCancelled_def transition_def refusesCancel_def)

text \<open>
  \<open>POST /transferprocess/{id}/cancel\<close> answers 404 for an unknown process, 409 for one that is
  \<open>COMPLETED\<close>, \<open>ENDED\<close> or in \<open>ERROR\<close>, 503 when the command queue is full, all without effect; else
  204, and the command is the last of the queue. Only the answer 404 can be a documented one.
\<close>

lemma cancel_transfer_answer:
  assumes ok: "tpm_ok s" and run: "respond nulls verbose (cancelTransferProcess now uuid ident) s = (r, s')"
  shows "commandAnswer verbose CancelTransferCommand uuid ident s
      (\<lambda>p. \<forall>st. state p = code st \<longrightarrow> st \<notin> set refusesCancel) r s' \<and>
    (documented swaggerSpec ''/transferprocess/{id}/cancel'' ''post'' r \<longrightarrow> httpStatus r = 404)"
proof -
  have allowed: "(\<not> isl (transitionCancelled now (item i))) = (\<forall>st. state (item i) = code st \<longrightarrow> st \<notin> set refusesCancel)"
    if i: "map_of (tpStore s) ident = Some i" for i
  proof -
    obtain st where "from_code (state (item i)) = Some st" using tpm_ok_from [OF ok i] .
    then have "state (item i) = code st" by (auto simp: from_code_def dest: find_SomeD)
    with cancelled_exactly [of "item i" st now] show ?thesis by simp
  qed
  have "commandAnswer verbose CancelTransferCommand uuid ident s
      (\<lambda>p. \<forall>st. state p = code st \<longrightarrow> st \<notin> set refusesCancel) r s'"
    using cancel_answer_tp [OF ok run] by (rule commandAnswer_cong [THEN iffD1, rotated]) (rule allowed)
  with command_statuses [OF this] command_documented(1) [of r] show ?thesis by blast
qed

lemma accepted_command:
  assumes "commandAnswer v command uuid ident s P r s'" "httpStatus r = 204"
  shows "s' = s\<lparr>commandQueue := (commandQueue s)\<lparr>queue := queue (commandQueue s) @
      [\<lparr>commandId = uuid, errorCount = 0, payload = command ident\<rparr>]\<rparr>\<rparr>"
    "\<exists>i. map_of (tpStore s) ident = Some i \<and> P (item i)"
  using assms by (auto simp: commandAnswer_def split: option.splits if_splits)

text \<open>
  A cancellation that was accepted is done when the commands are processed: if the process
  has not changed in between, it is then \<open>CANCELLED\<close>, whatever state it was in and whoever had it
  leased; and the listeners have been told, unless it had been \<open>CANCELLED\<close> already.
\<close>

theorem cancel_transfer_takes_effect:
  assumes ok: "tpm_ok s" and q: "queue (commandQueue s) = []"
    and run: "respond nulls verbose (cancelTransferProcess now uuid ident) s = (r, s')" and r: "httpStatus r = 204"
    and commands: "onCommands env now' s' = (y, s'')"
  shows "stored_state s'' ident = Some (code CANCELLED) \<and>
    (stored_state s ident \<noteq> Some (code CANCELLED) \<longrightarrow>
       events s'' = events s @ [(Ev_cancelled, ident, code CANCELLED, Some (code CANCELLED))])"
proof -
  note acc = accepted_command [OF cancel_answer_tp [OF ok run] r]
  from acc(2) obtain i where i: "map_of (tpStore s) ident = Some i" and a: "\<not> isl (transitionCancelled now (item i))"
    by blast
  have id: "entityId (item i) = ident"
    using ok map_of_SomeD [OF i] by (fastforce simp: tpm_ok_def store_ok_def)
  let ?p = "copy_process now' (item i)"
  let ?s = "s\<lparr>commandQueue := (commandQueue s)\<lparr>queue := []\<rparr>\<rparr>"
  obtain st where "from_code (state (item i)) = Some st" using tpm_ok_from [OF ok i] .
  then have st: "state (item i) = code st" by (auto simp: from_code_def dest: find_SomeD)
  with a cancelled_exactly [of "item i" st now] have "st \<notin> set refusesCancel" by simp
  show ?thesis
  proof (cases "st = CANCELLED")
    case True
    then have "tp_handle env now' (CancelTransferCommand ident) ?s = (Inr (), ?s)"
      using st i by (simp add: tp_handle_def singleTransferProcessCommand_def andThen_def tp_find_run
          cancel_modify_def)
    with commands acc(1) i st True onCommands_one [OF q this, of uuid] show ?thesis
      by (auto simp: stored_state_def)
  next
    case False
    have "transitionCancelled now' ?p = Inr (transitionTo now' (code CANCELLED) ?p)"
      using st \<open>st \<notin> set refusesCancel\<close> by (cases st) (simp_all add: transitionCancelled_def transition_def refusesCancel_def)
    with st False \<open>st \<notin> set refusesCancel\<close>
    have "cancel_modify now' ?p = Inr (Some (transitionTo now' (code CANCELLED) ?p))"
      by (cases st) (simp_all add: cancel_modify_def refusesCancel_def)
    then have "tp_handle env now' (CancelTransferCommand ident) ?s =
        notify Ev_cancelled (transitionTo now' (code CANCELLED) ?p)
          (?s\<lparr>tpStore := upsert (copy_process now') (transitionTo now' (code CANCELLED) ?p) (tpStore s)\<rparr>)"
      using i by (simp add: tp_handle_def singleTransferProcessCommand_def andThen_def tp_find_run tp_update_def)
    then have "tp_handle env now' (CancelTransferCommand ident) ?s = (Inr (),
        ?s\<lparr>tpStore := upsert (copy_process now') (transitionTo now' (code CANCELLED) ?p) (tpStore s),
          events := events s @ [(Ev_cancelled, ident, code CANCELLED, Some (code CANCELLED))]\<rparr>)"
      by (simp add: notify_def upsert_def new_item_def id)
    with commands acc(1) onCommands_one [OF q this, of uuid] show ?thesis
      by (auto simp: stored_state_def upsert_def new_item_def id)
  qed
qed

text \<open>
  \<open>POST /transferprocess/{id}/deprovision\<close> accepts what will not be done: for a process that is
  \<open>DEPROVISIONED\<close>, \<open>ENDED\<close> or \<open>CANCELLED\<close> the check of the transition passes, since a transition to
  an earlier state is ignored silently, and the answer is 204 as long as the queue has room; but
  when the command is processed the process stays in its state.
\<close>

theorem deprovision_ignored:
  assumes ok: "tpm_ok s" and q: "queue (commandQueue s) = []" and b: "0 < bound (commandQueue s)"
    and st: "stored_state s ident = Some (code st)" "st \<in> {DEPROVISIONED, ENDED, CANCELLED}"
    and run: "respond nulls verbose (deprovisionTransferProcess now uuid ident) s = (r, s')"
    and commands: "onCommands env now' s' = (y, s'')"
  shows "httpStatus r = 204 \<and> stored_state s'' ident = Some (code st) \<and> events s'' = events s"
proof -
  from st(1) obtain i where i: "map_of (tpStore s) ident = Some i" "state (item i) = code st"
    by (auto simp: stored_state_def)
  have id: "entityId (item i) = ident"
    using ok map_of_SomeD [OF i(1)] by (fastforce simp: tpm_ok_def store_ok_def)
  have skip: "transitionDeprovisioning t p = Inr p" if "state p = code st" for t p
    using that st(2) by (auto simp: transitionDeprovisioning_def transition_def)
  note answer = deprovision_answer_tp [OF ok run]
  have r: "httpStatus r = 204"
    using answer i skip [of "item i" now] q b by (simp add: commandAnswer_def)
  let ?p = "copy_process now' (item i)"
  let ?s = "s\<lparr>commandQueue := (commandQueue s)\<lparr>queue := []\<rparr>\<rparr>"
  have "tp_handle env now' (DeprovisionRequest ident) ?s =
      (Inr (), ?s\<lparr>tpStore := upsert (copy_process now') ?p (tpStore s)\<rparr>)"
    using i skip [of ?p now'] by (simp add: tp_handle_def singleTransferProcessCommand_def andThen_def
        tp_find_run tp_update_def deprovisionRequest_modify_def)
  with commands accepted_command(1) [OF answer r] onCommands_one [OF q this, of uuid] r i(2)
  show ?thesis by (auto simp: stored_state_def upsert_def new_item_def id)
qed

section \<open>Initiating\<close>

lemma transfer_post_documented:
  "documented swaggerSpec ''/transferprocess'' ''post'' \<lparr>httpStatus = 400, httpBody = None\<rparr>"
  "documented swaggerSpec ''/transferprocess'' ''post'' (toResponse nulls v (ConstraintViolationException vs))"
  "documented swaggerSpec ''/transferprocess'' ''post'' \<lparr>httpStatus = 200, httpBody = Some (transferId k)\<rparr>"
  using violations_conform [of nulls vs]
  by (simp_all add: response_defs path_transferprocess_def toResponse_def transferId_def
      schema_TransferId_def schema_simps)

lemma toDataRequest_cases:
  obtains (violated) v vs where "transferViolations dto violation = v # vs" "toDataRequest uuid dto = None"
  | (request) r where "transferViolations dto violation = []" "toDataRequest uuid dto = Some r"
      "requestId r = (case trId dto of None \<Rightarrow> uuid | Some k \<Rightarrow> k)"
proof (cases "toDataRequest uuid dto")
  case None
  then have "transferViolations dto violation \<noteq> []"
    by (auto simp: toDataRequest_def transferViolations_def split: option.splits)
  then show thesis using None violated by (cases "transferViolations dto violation") auto
next
  case (Some r)
  then have "transferViolations dto violation = []" "requestId r = (case trId dto of None \<Rightarrow> uuid | Some k \<Rightarrow> k)"
    by (auto simp: toDataRequest_def transferViolations_def split: option.splits)
  with Some show thesis by (intro request)
qed

text \<open>
  \<open>POST /transferprocess\<close> answers as the document says, whatever the request: 400 without
  effect when a required field is missing, else 200 with the identifier of a process. The same
  request sent again, with its identifier, is answered by the same process and changes nothing.
\<close>

theorem initiate_transfer_answer:
  assumes run: "respond nulls verbose (initiateTransfer env violation now uuid uuid' body) s = (r, s')"
    and again: "respond nulls verbose (initiateTransfer env' violation now' uuid2 uuid2' body) s' = (r2, s2)"
  shows "documented swaggerSpec ''/transferprocess'' ''post'' r \<and>
    (case body of
       None \<Rightarrow> httpStatus r = 400 \<and> s' = s
     | Some dto \<Rightarrow>
         if toDataRequest uuid dto = None then httpStatus r = 400 \<and> s' = s
         else \<exists>k. r = \<lparr>httpStatus = 200, httpBody = Some (transferId k)\<rparr> \<and>
           (trId dto \<noteq> None \<longrightarrow> r2 = r \<and> s2 = s'))"
proof (cases body)
  case None
  with run show ?thesis
    by (auto simp: initiateTransfer_def respond_def toResponse_def transfer_post_documented(1))
next
  case (Some dto)
  show ?thesis
  proof (cases rule: toDataRequest_cases [of dto violation uuid])
    case (violated v vs)
    with run Some have "r = toResponse nulls verbose (ConstraintViolationException (v # vs))" "s' = s"
      by (simp_all add: initiateTransfer_def respond_def)
    then show ?thesis using violated Some
      by (simp add: transfer_post_documented(2)) (simp add: toResponse_def)
  next
    case (request q)
    obtain q2 where q2: "toDataRequest uuid2 dto = Some q2"
      using request by (cases rule: toDataRequest_cases [of dto violation uuid2]) auto
    obtain k u where k: "initiateRequest env now uuid' CONSUMER q s = (Inr (StatusSuccess k), u)"
      and k2: "initiateRequest env' now' uuid2' CONSUMER (q2\<lparr>requestId := requestId q\<rparr>) u = (Inr (StatusSuccess k), u)"
      using initiateRequest_idempotent [of env now uuid' CONSUMER q s env' now' uuid2' CONSUMER q2] by blast
    have 1: "r = \<lparr>httpStatus = 200, httpBody = Some (transferId k)\<rparr>" "s' = u"
      using run Some request k
      by (simp_all add: initiateTransfer_def initiateTransfer_service_def andThen_def respond_def)
    have "r2 = r \<and> s2 = s'" if "trId dto \<noteq> None"
    proof -
      have "requestId q2 = requestId q"
        using that q2 request by (auto simp: toDataRequest_def split: option.splits)
      then have "q2\<lparr>requestId := requestId q\<rparr> = q2" by simp
      with again Some request q2 k2 1 show ?thesis
        by (simp_all add: initiateTransfer_def initiateTransfer_service_def andThen_def respond_def)
    qed
    then show ?thesis using Some request 1 by (auto simp: transfer_post_documented(3))
  qed
qed

section \<open>Examples\<close>

abbreviation demo_unsaved :: tpm where
  "demo_unsaved \<equiv> demo_tpm CONSUMER UNSAVED"

lemma demo_unsaved_ok: "tpm_ok demo_unsaved"
  by (auto simp: tpm_ok_def demo_tpm_def tpm_start_def demo_process_def store_ok_def keys_distinct_def
      within_bound_def intro: tp_legal_new)

lemma demo_unsaved_store:
  "map_of (tpStore demo_unsaved) ''p1'' = Some \<lparr>item = demo_process CONSUMER UNSAVED, leased = True\<rparr>"
  "queue (commandQueue demo_unsaved) = []" "bound (commandQueue demo_unsaved) = 10"
  "events demo_unsaved = []" "pending demo_unsaved = []"
  by (simp_all add: demo_tpm_def tpm_start_def)

theorem get_transfer_answer_witness:
  "\<exists>r. respond True True (getTransferProcess True 5 ''p1'') demo_unsaved = (r, demo_unsaved) \<and> httpStatus r = 200 \<and>
     \<not> documented swaggerSpec ''/transferprocess/{id}'' ''get'' r"
proof -
  obtain r s' where run: "respond True True (getTransferProcess True 5 ''p1'') demo_unsaved = (r, s')" by fastforce
  with get_transfer_answer [OF demo_unsaved_ok run] show ?thesis
    by (auto simp: demo_unsaved_store) (auto simp: demo_process_def demo_request_def)
qed

theorem cancel_transfer_takes_effect_witness:
  "\<exists>r s' y s''. respond True True (cancelTransferProcess 5 ''k'' ''p1'') demo_unsaved = (r, s') \<and>
     onCommands demo_env 6 s' = (y, s'') \<and> stored_state s'' ''p1'' = Some (code CANCELLED)"
proof -
  obtain r s' where run: "respond True True (cancelTransferProcess 5 ''k'' ''p1'') demo_unsaved = (r, s')" by fastforce
  obtain y s'' where commands: "onCommands demo_env 6 s' = (y, s'')" by fastforce
  have "httpStatus r = 204"
    using cancel_answer_tp [OF demo_unsaved_ok run]
    by (simp add: commandAnswer_def demo_unsaved_store demo_process_def transitionCancelled_def transition_def)
  from cancel_transfer_takes_effect [OF demo_unsaved_ok demo_unsaved_store(2) run this commands] run commands
  show ?thesis by blast
qed

text \<open>A process that was cancelled before anything else happened to it.\<close>

definition demo_cancelled :: tpm where
  "demo_cancelled = demo_unsaved\<lparr>tpStore :=
     [(''p1'', \<lparr>item = transitionTo 5 (code CANCELLED) (demo_process CONSUMER UNSAVED), leased = False\<rparr>)]\<rparr>"

lemma demo_cancelled_ok: "tpm_ok demo_cancelled"
proof -
  have "transitionCancelled 5 (demo_process CONSUMER UNSAVED) =
      Inr (transitionTo 5 (code CANCELLED) (demo_process CONSUMER UNSAVED))"
    by (simp add: transitionCancelled_def transition_def demo_process_def)
  then have "tp_step (demo_process CONSUMER UNSAVED) (transitionTo 5 (code CANCELLED) (demo_process CONSUMER UNSAVED))"
    by (rule tp_step.intros)
  then have "tp_legal (transitionTo 5 (code CANCELLED) (demo_process CONSUMER UNSAVED))"
    unfolding tp_legal_def by (intro exI [of _ "demo_process CONSUMER UNSAVED"] conjI r_into_rtranclp)
      (simp_all add: demo_process_def)
  then show ?thesis
    by (auto simp: tpm_ok_def demo_cancelled_def demo_unsaved_store store_ok_def keys_distinct_def within_bound_def)
      (simp add: demo_process_def)
qed

theorem deprovision_ignored_witness:
  "\<exists>r s' y s''. respond True True (deprovisionTransferProcess 5 ''k'' ''p1'') demo_cancelled = (r, s') \<and>
     httpStatus r = 204 \<and> onCommands demo_env 6 s' = (y, s'') \<and> stored_state s'' ''p1'' = Some (code CANCELLED)"
proof -
  obtain r s' where run: "respond True True (deprovisionTransferProcess 5 ''k'' ''p1'') demo_cancelled = (r, s')" by fastforce
  obtain y s'' where commands: "onCommands demo_env 6 s' = (y, s'')" by fastforce
  have "stored_state demo_cancelled ''p1'' = Some (code CANCELLED)" "queue (commandQueue demo_cancelled) = []"
    "0 < bound (commandQueue demo_cancelled)"
    by (simp_all add: demo_cancelled_def stored_state_def demo_unsaved_store)
  from deprovision_ignored [OF demo_cancelled_ok this(2,3,1) _ run commands] run commands
  show ?thesis by blast
qed

definition demo_transferRequest :: transferRequestDto where
  "demo_transferRequest = \<lparr>trConnectorAddress = Some ''http://provider'', trId = Some ''r9'', trContractId = Some ''k1'',
     trDataDestination = Some [(''type'', ''HttpData'')], trManagedResources = False, trProperties = [],
     trTransferType = Some \<lparr>contentType = ''application/octet-stream'', isFinite = True\<rparr>,
     trProtocol = Some ''ids-multipart'', trConnectorId = Some ''c'', trAssetId = Some ''a1''\<rparr>"

theorem initiate_transfer_answer_witness:
  "\<exists>r s' k. respond True True (initiateTransfer demo_env (\<lambda>f. (f, f, f)) 5 ''u1'' ''u2'' (Some demo_transferRequest))
       demo_unsaved = (r, s') \<and>
     respond True True (initiateTransfer demo_env (\<lambda>f. (f, f, f)) 6 ''u3'' ''u4'' (Some demo_transferRequest)) s' = (r, s') \<and>
     r = \<lparr>httpStatus = 200, httpBody = Some (transferId k)\<rparr>"
proof -
  obtain r s' where run: "respond True True (initiateTransfer demo_env (\<lambda>f. (f, f, f)) 5 ''u1'' ''u2''
    (Some demo_transferRequest)) demo_unsaved = (r, s')" by fastforce
  obtain r2 s2 where again: "respond True True (initiateTransfer demo_env (\<lambda>f. (f, f, f)) 6 ''u3'' ''u4''
    (Some demo_transferRequest)) s' = (r2, s2)" by fastforce
  have "toDataRequest ''u1'' demo_transferRequest \<noteq> None" "trId demo_transferRequest \<noteq> None"
    by (simp_all add: toDataRequest_def demo_transferRequest_def)
  with initiate_transfer_answer [OF run again] run again show ?thesis by auto
qed

end
