(* ===== verification/Policy_Evaluation.thy ===== *)
theory Policy_Evaluation
  imports EDC_Prelude
begin

text \<open>
  The policies of \<open>core/policy/policy-evaluator/.../policy/model\<close> and their evaluation by
  \<open>core/policy/policy-engine/.../PolicyEvaluator.java\<close>. The functions that extensions register
  are operations on a context \<open>'c\<close>, which they may change, and they may throw. A duty does not keep
  its parent permission, which the evaluation does not read.
\<close>

section \<open>Policies\<close>

datatype operator = EQ | NEQ | GT | GEQ | LT | LEQ | IN

text \<open>The value of a literal, as it is read from JSON; the only expressions are literals.\<close>

datatype literal =
    NullValue
  | StringValue string
  | IntValue int
  | BoolValue bool
  | ListValue "literal list"

text \<open>The expressions of an atomic constraint may be missing.\<close>

datatype policy_constraint =
    AtomicConstraint (leftExpression: "literal option") (operator: operator) (rightExpression: "literal option")
  | AndConstraint "policy_constraint list"
  | OrConstraint "policy_constraint list"
  | XoneConstraint "policy_constraint list"

record action =
  actionType :: string
  includedIn :: "string option"
  actionConstraint :: "policy_constraint option"

text \<open>What every rule has; a prohibition has nothing else.\<close>

record policy_rule =
  ruleUid :: "string option"
  ruleTarget :: "string option"
  ruleAction :: "action option"
  ruleAssignee :: "string option"
  ruleAssigner :: "string option"
  ruleConstraints :: "policy_constraint list"

datatype duty = Duty (dutyRule: policy_rule) (consequence: "duty option")

record permission =
  permissionRule :: policy_rule
  duties :: "duty list"

datatype policyType = SET | OFFER | CONTRACT

record policy =
  permissions :: "permission list"
  prohibitions :: "policy_rule list"
  obligations :: "duty list"
  extensibleProperties :: "literal jmap"
  inheritsFrom :: "string option"
  policyAssigner :: "string option"
  policyAssignee :: "string option"
  policyTarget :: "string option"
  policyType :: policyType

text \<open>\<open>withTarget\<close>: a copy for another target, all rules included.\<close>

definition rule_withTarget :: "string \<Rightarrow> policy_rule \<Rightarrow> policy_rule" where
  "rule_withTarget t r = r\<lparr>ruleTarget := Some t\<rparr>"

primrec duty_withTarget :: "string \<Rightarrow> duty \<Rightarrow> duty" where
  "duty_withTarget t (Duty r c) = Duty (rule_withTarget t r) (map_option (duty_withTarget t) c)"

definition permission_withTarget :: "string \<Rightarrow> permission \<Rightarrow> permission" where
  "permission_withTarget t p =
     p\<lparr>permissionRule := rule_withTarget t (permissionRule p), duties := map (duty_withTarget t) (duties p)\<rparr>"

definition withTarget :: "string \<Rightarrow> policy \<Rightarrow> policy" where
  "withTarget t p =
     p\<lparr>permissions := map (permission_withTarget t) (permissions p),
       prohibitions := map (rule_withTarget t) (prohibitions p),
       obligations := map (duty_withTarget t) (obligations p), policyTarget := Some t\<rparr>"

section \<open>The evaluator\<close>

text \<open>The rule that is being evaluated, as a constraint function sees it.\<close>

datatype ruleContext = InPermission permission | InProhibition policy_rule | InDuty duty

type_synonym 'c constraintFunction = "operator \<Rightarrow> literal \<Rightarrow> ruleContext \<Rightarrow> ('c, bool) op"

record 'c evaluator =
  permissionFunctions :: "'c constraintFunction jmap"
  dutyFunctions :: "'c constraintFunction jmap"
  prohibitionFunctions :: "'c constraintFunction jmap"
  permissionRuleFunctions :: "(permission \<Rightarrow> ('c, bool) op) list"
  dutyRuleFunctions :: "(duty \<Rightarrow> ('c, bool) op) list"
  prohibitionRuleFunctions :: "(policy_rule \<Rightarrow> ('c, bool) op) list"

definition functionsFor :: "'c evaluator \<Rightarrow> ruleContext \<Rightarrow> 'c constraintFunction jmap" where
  "functionsFor ev rc =
     (case rc of
        InPermission _ \<Rightarrow> permissionFunctions ev
      | InProhibition _ \<Rightarrow> prohibitionFunctions ev
      | InDuty _ \<Rightarrow> dutyFunctions ev)"

text \<open>
  \<open>visitAtomicConstraint\<close>: the result for the other operators is null, which every caller unboxes.
\<close>

definition visitAtomicConstraint ::
  "'c evaluator \<Rightarrow> ruleContext \<Rightarrow> literal option \<Rightarrow> operator \<Rightarrow> literal option \<Rightarrow> ('c, bool) op" where
  "visitAtomicConstraint ev rc left oper right =
     (case right of
        None \<Rightarrow> throw (NullPointerException ''getRightExpression'')
      | Some rightValue \<Rightarrow>
          (case left of
             None \<Rightarrow> throw (NullPointerException ''getLeftExpression'')
           | Some leftRawValue \<Rightarrow>
               (case (case leftRawValue of StringValue k \<Rightarrow> map_of (functionsFor ev rc) k | _ \<Rightarrow> None) of
                  Some function \<Rightarrow> function oper rightValue rc
                | None \<Rightarrow>
                    (case oper of
                       EQ \<Rightarrow> ret (leftRawValue = rightValue)
                     | IN \<Rightarrow> ret (leftRawValue = rightValue)
                     | NEQ \<Rightarrow> ret (leftRawValue \<noteq> rightValue)
                     | _ \<Rightarrow> throw (NullPointerException ''visitAtomicConstraint'')))))"

text \<open>\<open>allMatch\<close>, \<open>anyMatch\<close> and the counting loop stop as soon as the result is certain.\<close>

fun visitConstraint :: "'c evaluator \<Rightarrow> ruleContext \<Rightarrow> policy_constraint \<Rightarrow> ('c, bool) op"
  and visitAll :: "'c evaluator \<Rightarrow> ruleContext \<Rightarrow> policy_constraint list \<Rightarrow> ('c, bool) op"
  and visitAny :: "'c evaluator \<Rightarrow> ruleContext \<Rightarrow> policy_constraint list \<Rightarrow> ('c, bool) op"
  and visitXone :: "'c evaluator \<Rightarrow> ruleContext \<Rightarrow> nat \<Rightarrow> policy_constraint list \<Rightarrow> ('c, bool) op" where
  "visitConstraint ev rc (AtomicConstraint l oper r) = visitAtomicConstraint ev rc l oper r"
| "visitConstraint ev rc (AndConstraint cs) = visitAll ev rc cs"
| "visitConstraint ev rc (OrConstraint cs) = visitAny ev rc cs"
| "visitConstraint ev rc (XoneConstraint cs) = visitXone ev rc 0 cs"
| "visitAll ev rc [] = ret True"
| "visitAll ev rc (c # cs) = andThen (visitConstraint ev rc c) (\<lambda>b. if b then visitAll ev rc cs else ret False)"
| "visitAny ev rc [] = ret False"
| "visitAny ev rc (c # cs) = andThen (visitConstraint ev rc c) (\<lambda>b. if b then ret True else visitAny ev rc cs)"
| "visitXone ev rc n [] = ret (n = 1)"
| "visitXone ev rc n (c # cs) = andThen (visitConstraint ev rc c) (\<lambda>b.
     if b then (if n + 1 > 1 then ret False else visitXone ev rc (n + 1) cs) else visitXone ev rc n cs)"

text \<open>
  A problem: the rule, and the constraints that make it one, none when a rule function does. Its
  description is the rule as a string.
\<close>

record ruleProblem =
  problemRule :: ruleContext
  problemConstraints :: "policy_constraint list"

definition isProhibition :: "ruleContext \<Rightarrow> bool" where
  "isProhibition rc = (case rc of InProhibition _ \<Rightarrow> True | _ \<Rightarrow> False)"

text \<open>The constraints of a rule that are not as they should be, all of them evaluated.\<close>

primrec failingConstraints ::
  "'c evaluator \<Rightarrow> ruleContext \<Rightarrow> policy_constraint list \<Rightarrow> ('c, policy_constraint list) op" where
  "failingConstraints ev rc [] = ret []"
| "failingConstraints ev rc (c # cs) =
     andThen (visitConstraint ev rc c) (\<lambda>result.
     andThen (failingConstraints ev rc cs) (\<lambda>rest.
     ret (if result = isProhibition rc then c # rest else rest)))"

text \<open>\<open>visitRule\<close>: the problem it reports, if any.\<close>

definition visitRule :: "'c evaluator \<Rightarrow> ruleContext \<Rightarrow> policy_constraint list \<Rightarrow> ('c, ruleProblem option) op" where
  "visitRule ev rc cs =
     andThen (failingConstraints ev rc cs) (\<lambda>failing.
       ret (if failing = [] then None else Some \<lparr>problemRule = rc, problemConstraints = failing\<rparr>))"

text \<open>The first rule function whose result is \<open>bad\<close> reports a problem; else what follows decides.\<close>

primrec checkRuleFunctions ::
  "bool \<Rightarrow> ruleContext \<Rightarrow> ('c, bool) op list \<Rightarrow> ('c, ruleProblem option) op \<Rightarrow> ('c, ruleProblem option) op" where
  "checkRuleFunctions bad rc [] rest = rest"
| "checkRuleFunctions bad rc (f # fs) rest =
     andThen f (\<lambda>b. if b = bad then ret (Some \<lparr>problemRule = rc, problemConstraints = []\<rparr>)
                    else checkRuleFunctions bad rc fs rest)"

text \<open>The duties of a permission, until one reports a problem; neither their rule functions nor
  their consequences are evaluated.\<close>

primrec visitDuties :: "'c evaluator \<Rightarrow> duty list \<Rightarrow> ('c, ruleProblem option) op \<Rightarrow> ('c, ruleProblem option) op" where
  "visitDuties ev [] rest = rest"
| "visitDuties ev (d # ds) rest =
     andThen (visitRule ev (InDuty d) (ruleConstraints (dutyRule d))) (\<lambda>problem.
       case problem of Some q \<Rightarrow> ret (Some q) | None \<Rightarrow> visitDuties ev ds rest)"

definition visitPermission :: "'c evaluator \<Rightarrow> permission \<Rightarrow> ('c, ruleProblem option) op" where
  "visitPermission ev p =
     checkRuleFunctions False (InPermission p) (map (\<lambda>f. f p) (permissionRuleFunctions ev))
       (visitDuties ev (duties p)
         (visitRule ev (InPermission p) (ruleConstraints (permissionRule p))))"

definition visitProhibition :: "'c evaluator \<Rightarrow> policy_rule \<Rightarrow> ('c, ruleProblem option) op" where
  "visitProhibition ev p =
     checkRuleFunctions True (InProhibition p) (map (\<lambda>f. f p) (prohibitionRuleFunctions ev))
       (visitRule ev (InProhibition p) (ruleConstraints p))"

definition visitDuty :: "'c evaluator \<Rightarrow> duty \<Rightarrow> ('c, ruleProblem option) op" where
  "visitDuty ev d =
     checkRuleFunctions False (InDuty d) (map (\<lambda>f. f d) (dutyRuleFunctions ev))
       (visitRule ev (InDuty d) (ruleConstraints (dutyRule d)))"

text \<open>The problems of a list of rules, in their order.\<close>

primrec collectProblems :: "('c, ruleProblem option) op list \<Rightarrow> ('c, ruleProblem list) op" where
  "collectProblems [] = ret []"
| "collectProblems (m # ms) =
     andThen m (\<lambda>problem. andThen (collectProblems ms) (\<lambda>rest.
       ret (case problem of None \<Rightarrow> rest | Some q \<Rightarrow> q # rest)))"

text \<open>\<open>evaluate\<close>: the policy is valid when there is no problem. An evaluator is used once.\<close>

definition evaluatePolicy :: "'c evaluator \<Rightarrow> policy \<Rightarrow> ('c, ruleProblem list) op" where
  "evaluatePolicy ev p =
     collectProblems (map (visitPermission ev) (permissions p) @ map (visitProhibition ev) (prohibitions p) @
       map (visitDuty ev) (obligations p))"


section \<open>What evaluation decides\<close>

text \<open>
  The meaning of an evaluator whose functions only answer: \<open>answer\<close> is what the constraint functions
  answer, and the lists are the rule functions.
\<close>

record meaning =
  answer :: "ruleContext \<Rightarrow> string \<Rightarrow> operator \<Rightarrow> literal \<Rightarrow> bool"
  permissionChecks :: "(permission \<Rightarrow> bool) list"
  dutyChecks :: "(duty \<Rightarrow> bool) list"
  prohibitionChecks :: "(policy_rule \<Rightarrow> bool) list"

definition means :: "'c evaluator \<Rightarrow> meaning \<Rightarrow> bool" where
  "means ev M \<longleftrightarrow>
     (\<forall>rc k f oper v. map_of (functionsFor ev rc) k = Some f \<longrightarrow> f oper v rc = ret (answer M rc k oper v)) \<and>
     permissionRuleFunctions ev = map (\<lambda>g p. ret (g p)) (permissionChecks M) \<and>
     dutyRuleFunctions ev = map (\<lambda>g d. ret (g d)) (dutyChecks M) \<and>
     prohibitionRuleFunctions ev = map (\<lambda>g p. ret (g p)) (prohibitionChecks M)"

definition boundFunction :: "'c evaluator \<Rightarrow> ruleContext \<Rightarrow> literal \<Rightarrow> string option" where
  "boundFunction ev rc l =
     (case l of StringValue k \<Rightarrow> if map_of (functionsFor ev rc) k = None then None else Some k | _ \<Rightarrow> None)"

definition atomHolds :: "'c evaluator \<Rightarrow> meaning \<Rightarrow> ruleContext \<Rightarrow> literal \<Rightarrow> operator \<Rightarrow> literal \<Rightarrow> bool" where
  "atomHolds ev M rc l oper r =
     (case boundFunction ev rc l of
        Some k \<Rightarrow> answer M rc k oper r
      | None \<Rightarrow> (l = r) = (oper \<noteq> NEQ))"

text \<open>A constraint as a formula: all, some, or exactly one of its parts.\<close>

fun holds :: "'c evaluator \<Rightarrow> meaning \<Rightarrow> ruleContext \<Rightarrow> policy_constraint \<Rightarrow> bool" where
  "holds ev M rc (AtomicConstraint l oper r) = atomHolds ev M rc (the l) oper (the r)"
| "holds ev M rc (AndConstraint cs) = (\<forall>c \<in> set cs. holds ev M rc c)"
| "holds ev M rc (OrConstraint cs) = (\<exists>c \<in> set cs. holds ev M rc c)"
| "holds ev M rc (XoneConstraint cs) = (length (filter (\<lambda>c. holds ev M rc c) cs) = 1)"

text \<open>
  A constraint that can be evaluated: no expression is missing, and an operator other than \<open>EQ\<close>,
  \<open>NEQ\<close> and \<open>IN\<close> has a function for its left side.
\<close>

fun evaluable :: "'c evaluator \<Rightarrow> ruleContext \<Rightarrow> policy_constraint \<Rightarrow> bool" where
  "evaluable ev rc (AtomicConstraint l oper r) =
     (case (l, r) of
        (Some left, Some _) \<Rightarrow> oper \<in> {EQ, NEQ, IN} \<or> boundFunction ev rc left \<noteq> None
      | _ \<Rightarrow> False)"
| "evaluable ev rc (AndConstraint cs) = (\<forall>c \<in> set cs. evaluable ev rc c)"
| "evaluable ev rc (OrConstraint cs) = (\<forall>c \<in> set cs. evaluable ev rc c)"
| "evaluable ev rc (XoneConstraint cs) = (\<forall>c \<in> set cs. evaluable ev rc c)"

lemma andThen_ret [simp]: "andThen (ret a) f = f a"
  by (rule ext) simp

lemma ret_eq [simp]: "(ret a :: ('s, 'a) op) = ret b \<longleftrightarrow> a = b"
  by (auto simp: ret_def fun_eq_iff simp del: ret_run)

lemma visitAtomicConstraint_holds:
  assumes "means ev M" "evaluable ev rc (AtomicConstraint l oper r)"
  shows "visitAtomicConstraint ev rc l oper r = ret (holds ev M rc (AtomicConstraint l oper r))"
  using assms
  by (cases oper; auto simp: visitAtomicConstraint_def atomHolds_def boundFunction_def means_def
      simp del: ret_run split: option.splits literal.splits if_splits)

text \<open>Stopping early does not change the result.\<close>

lemma visit_holds:
  "means ev M \<Longrightarrow> evaluable ev rc c \<Longrightarrow> visitConstraint ev rc c = ret (holds ev M rc c)"
  "means ev M \<Longrightarrow> \<forall>c \<in> set cs. evaluable ev rc c \<Longrightarrow> visitAll ev rc cs = ret (\<forall>c \<in> set cs. holds ev M rc c)"
  "means ev M \<Longrightarrow> \<forall>c \<in> set cs. evaluable ev rc c \<Longrightarrow> visitAny ev rc cs = ret (\<exists>c \<in> set cs. holds ev M rc c)"
  "means ev M \<Longrightarrow> \<forall>c \<in> set cs. evaluable ev rc c \<Longrightarrow> n \<le> 1 \<Longrightarrow>
     visitXone ev rc n cs = ret (n + length (filter (\<lambda>c. holds ev M rc c) cs) = 1)"
proof (induction ev rc c and ev rc cs and ev rc cs and ev rc n cs
    rule: visitConstraint_visitAll_visitAny_visitXone.induct)
  case (1 ev rc l oper r)
  then show ?case by (simp only: visitConstraint.simps visitAtomicConstraint_holds)
qed (auto simp del: holds.simps(1) ret_run)

lemma failingConstraints_holds:
  "means ev M \<Longrightarrow> \<forall>c \<in> set cs. evaluable ev rc c \<Longrightarrow>
     failingConstraints ev rc cs = ret (filter (\<lambda>c. holds ev M rc c = isProhibition rc) cs)"
  by (induction cs) (auto simp: visit_holds(1) simp del: ret_run)

lemma visitRule_holds:
  assumes "means ev M" "\<forall>c \<in> set cs. evaluable ev rc c"
  shows "\<exists>q. visitRule ev rc cs = ret q \<and> (q = None \<longleftrightarrow> (\<forall>c \<in> set cs. holds ev M rc c \<noteq> isProhibition rc))"
  using assms by (auto simp: visitRule_def failingConstraints_holds filter_empty_conv simp del: ret_run)

lemma checkRuleFunctions_pure:
  assumes "\<exists>q. rest = ret q \<and> (q = None \<longleftrightarrow> P)"
  shows "\<exists>q. checkRuleFunctions bad rc (map (\<lambda>g. ret (g x)) gs) rest = ret q \<and>
    (q = None \<longleftrightarrow> (\<forall>g \<in> set gs. g x \<noteq> bad) \<and> P)"
  using assms by (induction gs) (auto simp del: ret_run)

lemma visitDuties_pure:
  assumes "means ev M" "\<forall>d \<in> set ds. \<forall>c \<in> set (ruleConstraints (dutyRule d)). evaluable ev (InDuty d) c"
    and "\<exists>q. rest = ret q \<and> (q = None \<longleftrightarrow> P)"
  shows "\<exists>q. visitDuties ev ds rest = ret q \<and>
    (q = None \<longleftrightarrow> (\<forall>d \<in> set ds. \<forall>c \<in> set (ruleConstraints (dutyRule d)). holds ev M (InDuty d) c) \<and> P)"
  using assms(2,3)
proof (induction ds)
  case (Cons d ds)
  obtain q where q: "visitRule ev (InDuty d) (ruleConstraints (dutyRule d)) = ret q"
    "q = None \<longleftrightarrow> (\<forall>c \<in> set (ruleConstraints (dutyRule d)). holds ev M (InDuty d) c)"
    using visitRule_holds [OF assms(1), of "ruleConstraints (dutyRule d)" "InDuty d"] Cons.prems
    by (auto simp: isProhibition_def simp del: ret_run)
  obtain q' where "visitDuties ev ds rest = ret q'"
    "q' = None \<longleftrightarrow> (\<forall>d \<in> set ds. \<forall>c \<in> set (ruleConstraints (dutyRule d)). holds ev M (InDuty d) c) \<and> P"
    using Cons by (auto simp del: ret_run)
  with q show ?case by (cases q) (auto simp del: ret_run)
qed (simp del: ret_run)

text \<open>
  The rules as formulas. A permission also asks for the constraints of its duties, and a prohibition
  that none of its constraints holds.
\<close>

definition permissionSatisfied :: "'c evaluator \<Rightarrow> meaning \<Rightarrow> permission \<Rightarrow> bool" where
  "permissionSatisfied ev M p \<longleftrightarrow>
     (\<forall>g \<in> set (permissionChecks M). g p) \<and>
     (\<forall>d \<in> set (duties p). \<forall>c \<in> set (ruleConstraints (dutyRule d)). holds ev M (InDuty d) c) \<and>
     (\<forall>c \<in> set (ruleConstraints (permissionRule p)). holds ev M (InPermission p) c)"

definition prohibitionSatisfied :: "'c evaluator \<Rightarrow> meaning \<Rightarrow> policy_rule \<Rightarrow> bool" where
  "prohibitionSatisfied ev M p \<longleftrightarrow>
     (\<forall>g \<in> set (prohibitionChecks M). \<not> g p) \<and> (\<forall>c \<in> set (ruleConstraints p). \<not> holds ev M (InProhibition p) c)"

definition dutySatisfied :: "'c evaluator \<Rightarrow> meaning \<Rightarrow> duty \<Rightarrow> bool" where
  "dutySatisfied ev M d \<longleftrightarrow>
     (\<forall>g \<in> set (dutyChecks M). g d) \<and> (\<forall>c \<in> set (ruleConstraints (dutyRule d)). holds ev M (InDuty d) c)"

definition policySatisfied :: "'c evaluator \<Rightarrow> meaning \<Rightarrow> policy \<Rightarrow> bool" where
  "policySatisfied ev M p \<longleftrightarrow>
     (\<forall>x \<in> set (permissions p). permissionSatisfied ev M x) \<and>
     (\<forall>x \<in> set (prohibitions p). prohibitionSatisfied ev M x) \<and>
     (\<forall>x \<in> set (obligations p). dutySatisfied ev M x)"

definition policyEvaluable :: "'c evaluator \<Rightarrow> policy \<Rightarrow> bool" where
  "policyEvaluable ev p \<longleftrightarrow>
     (\<forall>x \<in> set (permissions p).
        (\<forall>c \<in> set (ruleConstraints (permissionRule x)). evaluable ev (InPermission x) c) \<and>
        (\<forall>d \<in> set (duties x). \<forall>c \<in> set (ruleConstraints (dutyRule d)). evaluable ev (InDuty d) c)) \<and>
     (\<forall>x \<in> set (prohibitions p). \<forall>c \<in> set (ruleConstraints x). evaluable ev (InProhibition x) c) \<and>
     (\<forall>d \<in> set (obligations p). \<forall>c \<in> set (ruleConstraints (dutyRule d)). evaluable ev (InDuty d) c)"

lemma visitPermission_pure:
  assumes M: "means ev M"
    and "\<forall>c \<in> set (ruleConstraints (permissionRule p)). evaluable ev (InPermission p) c"
    and "\<forall>d \<in> set (duties p). \<forall>c \<in> set (ruleConstraints (dutyRule d)). evaluable ev (InDuty d) c"
  shows "\<exists>q. visitPermission ev p = ret q \<and> (q = None \<longleftrightarrow> permissionSatisfied ev M p)"
proof -
  have fs: "map (\<lambda>f. f p) (permissionRuleFunctions ev) = map (\<lambda>g. ret (g p)) (permissionChecks M)"
    using M by (simp add: means_def del: ret_run)
  have "\<exists>q. visitRule ev (InPermission p) (ruleConstraints (permissionRule p)) = ret q \<and>
      (q = None \<longleftrightarrow> (\<forall>c \<in> set (ruleConstraints (permissionRule p)). holds ev M (InPermission p) c))"
    using visitRule_holds [OF M assms(2)] by (simp add: isProhibition_def del: ret_run)
  from checkRuleFunctions_pure [OF visitDuties_pure [OF M assms(3) this], of False "InPermission p" p
      "permissionChecks M"]
  show ?thesis by (simp add: visitPermission_def fs permissionSatisfied_def del: ret_run)
qed

lemma visitProhibition_pure:
  assumes M: "means ev M" and "\<forall>c \<in> set (ruleConstraints p). evaluable ev (InProhibition p) c"
  shows "\<exists>q. visitProhibition ev p = ret q \<and> (q = None \<longleftrightarrow> prohibitionSatisfied ev M p)"
proof -
  have fs: "map (\<lambda>f. f p) (prohibitionRuleFunctions ev) = map (\<lambda>g. ret (g p)) (prohibitionChecks M)"
    using M by (simp add: means_def del: ret_run)
  show ?thesis
    using checkRuleFunctions_pure [OF visitRule_holds [OF assms], of True "InProhibition p" p "prohibitionChecks M"]
    by (simp add: visitProhibition_def fs prohibitionSatisfied_def isProhibition_def del: ret_run)
qed

lemma visitDuty_pure:
  assumes M: "means ev M" and "\<forall>c \<in> set (ruleConstraints (dutyRule d)). evaluable ev (InDuty d) c"
  shows "\<exists>q. visitDuty ev d = ret q \<and> (q = None \<longleftrightarrow> dutySatisfied ev M d)"
proof -
  have fs: "map (\<lambda>f. f d) (dutyRuleFunctions ev) = map (\<lambda>g. ret (g d)) (dutyChecks M)"
    using M by (simp add: means_def del: ret_run)
  show ?thesis
    using checkRuleFunctions_pure [OF visitRule_holds [OF assms], of False "InDuty d" d "dutyChecks M"]
    by (simp add: visitDuty_def fs dutySatisfied_def isProhibition_def del: ret_run)
qed

lemma collectProblems_pure:
  "\<forall>m \<in> set ms. \<exists>q. m = ret q \<Longrightarrow>
     \<exists>qs. collectProblems ms = ret qs \<and> (qs = [] \<longleftrightarrow> (\<forall>m \<in> set ms. m = ret None))"
proof (induction ms)
  case (Cons m ms)
  then obtain q qs where "m = ret q" "collectProblems ms = ret qs" "qs = [] \<longleftrightarrow> (\<forall>m \<in> set ms. m = ret None)"
    by (auto simp del: ret_run)
  then show ?case by (cases q) (auto simp del: ret_run)
qed (simp del: ret_run)

text \<open>
  (C10) Evaluation is equivalent to the formula the policy stands for: when the registered functions
  only answer and every constraint can be evaluated, it returns, and it finds no problem exactly
  if every permission, prohibition and obligation is satisfied, whatever is skipped on the way.
\<close>

theorem evaluation_equivalent:
  assumes M: "means ev M" and "policyEvaluable ev p"
  shows "\<exists>problems. evaluatePolicy ev p = ret problems \<and> (problems = [] \<longleftrightarrow> policySatisfied ev M p)"
proof -
  have 1: "\<exists>q. visitPermission ev x = ret q \<and> (q = None \<longleftrightarrow> permissionSatisfied ev M x)" if "x \<in> set (permissions p)" for x
    using that assms by (intro visitPermission_pure) (auto simp: policyEvaluable_def)
  have 2: "\<exists>q. visitProhibition ev x = ret q \<and> (q = None \<longleftrightarrow> prohibitionSatisfied ev M x)" if "x \<in> set (prohibitions p)" for x
    using that assms by (intro visitProhibition_pure) (auto simp: policyEvaluable_def)
  have 3: "\<exists>q. visitDuty ev x = ret q \<and> (q = None \<longleftrightarrow> dutySatisfied ev M x)" if "x \<in> set (obligations p)" for x
    using that assms by (intro visitDuty_pure) (auto simp: policyEvaluable_def)
  have "\<forall>m \<in> set (map (visitPermission ev) (permissions p) @ map (visitProhibition ev) (prohibitions p) @
       map (visitDuty ev) (obligations p)). \<exists>q. m = ret q"
    using 1 2 3 by (fastforce simp del: ret_run)
  from collectProblems_pure [OF this] obtain qs where qs: "evaluatePolicy ev p = ret qs"
    "qs = [] \<longleftrightarrow> (\<forall>x \<in> set (permissions p). visitPermission ev x = ret None) \<and>
      (\<forall>x \<in> set (prohibitions p). visitProhibition ev x = ret None) \<and>
      (\<forall>x \<in> set (obligations p). visitDuty ev x = ret None)"
    by (auto simp: evaluatePolicy_def ball_Un simp del: ret_run)
  moreover have "visitPermission ev x = ret None \<longleftrightarrow> permissionSatisfied ev M x" if "x \<in> set (permissions p)" for x
    using 1 [OF that] by (auto simp del: ret_run)
  moreover have "visitProhibition ev x = ret None \<longleftrightarrow> prohibitionSatisfied ev M x" if "x \<in> set (prohibitions p)" for x
    using 2 [OF that] by (auto simp del: ret_run)
  moreover have "visitDuty ev x = ret None \<longleftrightarrow> dutySatisfied ev M x" if "x \<in> set (obligations p)" for x
    using 3 [OF that] by (auto simp del: ret_run)
  ultimately show ?thesis by (auto simp: policySatisfied_def simp del: ret_run)
qed

section \<open>An example\<close>

text \<open>Use in one region, decided by a function, for one of two purposes, decided by comparison.\<close>

definition example_rule :: policy_rule where
  "example_rule =
     \<lparr>ruleUid = None, ruleTarget = Some ''asset'',
      ruleAction = Some \<lparr>actionType = ''USE'', includedIn = None, actionConstraint = None\<rparr>,
      ruleAssignee = None, ruleAssigner = None,
      ruleConstraints =
        [AtomicConstraint (Some (StringValue ''region'')) IN (Some (StringValue ''eu'')),
         XoneConstraint
           [AtomicConstraint (Some (StringValue ''a'')) EQ (Some (StringValue ''a'')),
            AtomicConstraint (Some (StringValue ''b'')) EQ (Some (StringValue ''a''))]]\<rparr>"

definition example_policy :: policy where
  "example_policy =
     \<lparr>permissions = [\<lparr>permissionRule = example_rule, duties = []\<rparr>], prohibitions = [], obligations = [],
      extensibleProperties = [], inheritsFrom = None, policyAssigner = None, policyAssignee = None,
      policyTarget = Some ''asset'', policyType = SET\<rparr>"

definition region_function :: "'c constraintFunction" where
  "region_function oper v rc = ret (v = StringValue ''eu'')"

definition example_evaluator :: "'c evaluator" where
  "example_evaluator =
     \<lparr>permissionFunctions = [(''region'', region_function)], dutyFunctions = [], prohibitionFunctions = [],
      permissionRuleFunctions = [\<lambda>p. ret True], dutyRuleFunctions = [], prohibitionRuleFunctions = []\<rparr>"

definition example_meaning :: meaning where
  "example_meaning =
     \<lparr>answer = (\<lambda>rc k oper v. v = StringValue ''eu''), permissionChecks = [\<lambda>p. True], dutyChecks = [],
      prohibitionChecks = []\<rparr>"

lemma example_means: "means example_evaluator example_meaning"
  by (auto simp: means_def example_evaluator_def example_meaning_def functionsFor_def region_function_def
      simp del: ret_run split: ruleContext.splits if_splits)

lemma example_evaluable: "policyEvaluable example_evaluator example_policy"
  by (simp add: policyEvaluable_def example_policy_def example_rule_def example_evaluator_def boundFunction_def
      functionsFor_def)

lemma example_satisfied: "policySatisfied example_evaluator example_meaning example_policy"
  by (simp add: policySatisfied_def permissionSatisfied_def example_policy_def example_rule_def example_evaluator_def
      example_meaning_def atomHolds_def boundFunction_def functionsFor_def)

theorem evaluation_equivalent_witness:
  "means (example_evaluator :: unit evaluator) example_meaning \<and>
   policyEvaluable (example_evaluator :: unit evaluator) example_policy \<and>
   evaluatePolicy (example_evaluator :: unit evaluator) example_policy = ret []"
  using evaluation_equivalent [OF example_means example_evaluable] example_means example_evaluable
    example_satisfied
  by auto

end
