(* ===== verification/Policy_Engine.thy ===== *)
theory Policy_Engine
  imports Policy_Evaluation
begin

text \<open>
  The policy engine of \<open>core/base/.../policy\<close>: \<open>RuleBindingRegistryImpl\<close>, \<open>ScopeFilter\<close> and
  \<open>PolicyEngineImpl\<close>. The context of an evaluation holds the agent, the problems that functions
  report and the data \<open>'d\<close> they share, whose initial value is the information the caller passes in;
  that it is copied back to the caller's map at the end is left out.
\<close>

section \<open>Bindings of rules to scopes\<close>

definition delimited :: "string \<Rightarrow> string" where
  "delimited scope = scope @ ''.''"

definition startsWith :: "string \<Rightarrow> string \<Rightarrow> bool" where
  "startsWith s pre \<longleftrightarrow> take (length pre) s = pre"

type_synonym ruleBindings = "(string \<times> string list) list"

definition bind_rule :: "string \<Rightarrow> string \<Rightarrow> ruleBindings \<Rightarrow> ruleBindings" where
  "bind_rule ruleType scope m =
     put ruleType (List.insert (delimited scope) (case map_of m ruleType of None \<Rightarrow> [] | Some b \<Rightarrow> b)) m"

definition isInScope :: "ruleBindings \<Rightarrow> string \<Rightarrow> string \<Rightarrow> bool" where
  "isInScope m ruleType scope =
     (case map_of m ruleType of
        None \<Rightarrow> False
      | Some boundScopes \<Rightarrow>
          List.member boundScopes ''*.'' \<or> list_ex (startsWith (delimited scope)) boundScopes)"

section \<open>The scope filter\<close>

text \<open>\<open>LiteralExpression.asString\<close>.\<close>

fun asString :: "literal \<Rightarrow> string" where
  "asString NullValue = ''null''"
| "asString (StringValue s) = s"
| "asString (IntValue i) = showInt i"
| "asString (BoolValue b) = (if b then ''true'' else ''false'')"
| "asString (ListValue ls) = ''['' @ join '', '' (map asString ls) @ '']''"

fun filterConstraint :: "ruleBindings \<Rightarrow> string \<Rightarrow> policy_constraint \<Rightarrow> policy_constraint option" where
  "filterConstraint m scope (AtomicConstraint l oper r) =
     (case l of
        None \<Rightarrow> Some (AtomicConstraint l oper r)
      | Some left \<Rightarrow> if isInScope m (asString left) scope then Some (AtomicConstraint l oper r) else None)"
| "filterConstraint m scope (AndConstraint cs) =
     (let fs = List.map_filter id (map (filterConstraint m scope) cs) in if fs = [] then None else Some (AndConstraint fs))"
| "filterConstraint m scope (OrConstraint cs) =
     (let fs = List.map_filter id (map (filterConstraint m scope) cs) in if fs = [] then None else Some (OrConstraint fs))"
| "filterConstraint m scope (XoneConstraint cs) =
     (let fs = List.map_filter id (map (filterConstraint m scope) cs) in if fs = [] then None else Some (XoneConstraint fs))"

definition filterConstraints :: "ruleBindings \<Rightarrow> string \<Rightarrow> policy_constraint list \<Rightarrow> policy_constraint list" where
  "filterConstraints m scope cs = List.map_filter (filterConstraint m scope) cs"

definition actionNotInScope :: "ruleBindings \<Rightarrow> string \<Rightarrow> policy_rule \<Rightarrow> bool" where
  "actionNotInScope m scope r =
     (case ruleAction r of None \<Rightarrow> False | Some a \<Rightarrow> \<not> isInScope m (actionType a) scope)"

definition filterRule :: "ruleBindings \<Rightarrow> string \<Rightarrow> policy_rule \<Rightarrow> policy_rule option" where
  "filterRule m scope r =
     (if actionNotInScope m scope r then None
      else Some (r\<lparr>ruleConstraints := filterConstraints m scope (ruleConstraints r)\<rparr>))"

primrec filterDuty :: "ruleBindings \<Rightarrow> string \<Rightarrow> duty \<Rightarrow> duty option" where
  "filterDuty m scope (Duty r c) =
     (case filterRule m scope r of
        None \<Rightarrow> None
      | Some r' \<Rightarrow> Some (Duty r' (Option.bind (map_option (filterDuty m scope) c) id)))"

definition filterPermission :: "ruleBindings \<Rightarrow> string \<Rightarrow> permission \<Rightarrow> permission option" where
  "filterPermission m scope p =
     (case filterRule m scope (permissionRule p) of
        None \<Rightarrow> None
      | Some r \<Rightarrow> Some \<lparr>permissionRule = r, duties = List.map_filter (filterDuty m scope) (duties p)\<rparr>)"

definition applyScope :: "ruleBindings \<Rightarrow> string \<Rightarrow> policy \<Rightarrow> policy" where
  "applyScope m scope p =
     p\<lparr>obligations := List.map_filter (filterDuty m scope) (obligations p),
       permissions := List.map_filter (filterPermission m scope) (permissions p),
       prohibitions := List.map_filter (filterRule m scope) (prohibitions p)\<rparr>"

section \<open>The engine\<close>

record ('a, 'd) policyContext =
  participantAgent :: 'a
  contextProblems :: "string list"
  contextData :: 'd

text \<open>The class a function is registered for; one for \<open>Rule\<close> itself is never used.\<close>

datatype ruleClass = RuleClass | PermissionClass | ProhibitionClass | DutyClass

record 'c constraintFunctionEntry =
  constraintEntryType :: ruleClass
  constraintEntryKey :: string
  constraintEntryFunction :: "'c constraintFunction"

record 'c ruleFunctionEntry =
  ruleEntryType :: ruleClass
  ruleEntryFunction :: "ruleContext \<Rightarrow> ('c, bool) op"

text \<open>The maps by scope are trees, iterated in the order of their keys. A validator has the name of its class.\<close>

record 'c policyEngine =
  ruleBindingRegistry :: ruleBindings
  constraintFunctions :: "(string \<times> 'c constraintFunctionEntry list) list"
  ruleFunctions :: "(string \<times> 'c ruleFunctionEntry list) list"
  preValidators :: "(string \<times> (policy \<Rightarrow> ('c, bool) op)) list"
  postValidators :: "(string \<times> (policy \<Rightarrow> ('c, bool) op)) list"

fun string_less :: "string \<Rightarrow> string \<Rightarrow> bool" where
  "string_less [] [] = False"
| "string_less [] (_ # _) = True"
| "string_less (_ # _) [] = False"
| "string_less (a # as) (b # bs) =
     (if of_char a = (of_char b :: nat) then string_less as bs else of_char a < (of_char b :: nat))"

fun tree_add :: "string \<Rightarrow> 'v \<Rightarrow> (string \<times> 'v list) list \<Rightarrow> (string \<times> 'v list) list" where
  "tree_add k v [] = [(k, [v])]"
| "tree_add k v ((k', vs) # m) =
     (if k = k' then (k', vs @ [v]) # m
      else if string_less k k' then (k, [v]) # (k', vs) # m
      else (k', vs) # tree_add k v m)"

definition registerFunction ::
  "string \<Rightarrow> ruleClass \<Rightarrow> string \<Rightarrow> 'c constraintFunction \<Rightarrow> 'c policyEngine \<Rightarrow> 'c policyEngine" where
  "registerFunction scope ty key f e =
     e\<lparr>constraintFunctions := tree_add (delimited scope)
         \<lparr>constraintEntryType = ty, constraintEntryKey = key, constraintEntryFunction = f\<rparr> (constraintFunctions e)\<rparr>"

definition registerRuleFunction ::
  "string \<Rightarrow> ruleClass \<Rightarrow> (ruleContext \<Rightarrow> ('c, bool) op) \<Rightarrow> 'c policyEngine \<Rightarrow> 'c policyEngine" where
  "registerRuleFunction scope ty f e =
     e\<lparr>ruleFunctions := tree_add (delimited scope) \<lparr>ruleEntryType = ty, ruleEntryFunction = f\<rparr> (ruleFunctions e)\<rparr>"

text \<open>The scope of a validator is not kept.\<close>

definition registerPreValidator ::
  "string \<Rightarrow> string \<times> (policy \<Rightarrow> ('c, bool) op) \<Rightarrow> 'c policyEngine \<Rightarrow> 'c policyEngine" where
  "registerPreValidator scope v e = e\<lparr>preValidators := preValidators e @ [v]\<rparr>"

definition registerPostValidator ::
  "string \<Rightarrow> string \<times> (policy \<Rightarrow> ('c, bool) op) \<Rightarrow> 'c policyEngine \<Rightarrow> 'c policyEngine" where
  "registerPostValidator scope v e = e\<lparr>postValidators := postValidators e @ [v]\<rparr>"

definition scopeFilter :: "string \<Rightarrow> string \<Rightarrow> bool" where
  "scopeFilter entry scope \<longleftrightarrow> entry = ''*.'' \<or> startsWith scope entry"

definition entriesInScope :: "string \<Rightarrow> (string \<times> 'v list) list \<Rightarrow> 'v list" where
  "entriesInScope scope m = concat (map snd (filter (\<lambda>p. scopeFilter (fst p) (delimited scope)) m))"

text \<open>A later function for the same key replaces an earlier one.\<close>

definition functionsOf :: "ruleClass \<Rightarrow> 'c constraintFunctionEntry list \<Rightarrow> 'c constraintFunction jmap" where
  "functionsOf ty es =
     fold (\<lambda>e. put (constraintEntryKey e) (constraintEntryFunction e)) (filter (\<lambda>e. constraintEntryType e = ty) es) []"

definition ruleFunctionsOf :: "ruleClass \<Rightarrow> 'c ruleFunctionEntry list \<Rightarrow> (ruleContext \<Rightarrow> ('c, bool) op) list" where
  "ruleFunctionsOf ty es = map ruleEntryFunction (filter (\<lambda>e. ruleEntryType e = ty) es)"

definition buildEvaluator :: "'c policyEngine \<Rightarrow> string \<Rightarrow> 'c evaluator" where
  "buildEvaluator e scope =
     (let cs = entriesInScope scope (constraintFunctions e);
          rs = entriesInScope scope (ruleFunctions e)
      in \<lparr>permissionFunctions = functionsOf PermissionClass cs, dutyFunctions = functionsOf DutyClass cs,
          prohibitionFunctions = functionsOf ProhibitionClass cs,
          permissionRuleFunctions = map (\<lambda>f p. f (InPermission p)) (ruleFunctionsOf PermissionClass rs),
          dutyRuleFunctions = map (\<lambda>f d. f (InDuty d)) (ruleFunctionsOf DutyClass rs),
          prohibitionRuleFunctions = map (\<lambda>f p. f (InProhibition p)) (ruleFunctionsOf ProhibitionClass rs)\<rparr>)"

text \<open>The validators in their order; a failure has the problems of the context, or names the validator.\<close>

primrec runValidators ::
  "string \<Rightarrow> policy \<Rightarrow> (string \<times> (policy \<Rightarrow> (('a, 'd) policyContext, bool) op)) list \<Rightarrow>
   (('a, 'd) policyContext, string list option) op" where
  "runValidators what p [] = ret None"
| "runValidators what p (v # vs) =
     andThen (snd v p) (\<lambda>ok.
       if ok then runValidators what p vs
       else gets (\<lambda>c. Some (if contextProblems c \<noteq> [] then contextProblems c
                            else [what @ ''-validator failed: '' @ fst v])))"

text \<open>\<open>describe\<close> is \<open>toString\<close> of a rule.\<close>

definition evaluate ::
  "(ruleContext \<Rightarrow> string) \<Rightarrow> ('a, 'd) policyContext policyEngine \<Rightarrow> string \<Rightarrow> policy \<Rightarrow>
   (('a, 'd) policyContext, policy result) op" where
  "evaluate describe e scope p =
     andThen (runValidators ''Pre'' p (preValidators e)) (\<lambda>refused.
       case refused of
         Some ms \<Rightarrow> ret (Failure ms)
       | None \<Rightarrow>
           andThen (evaluatePolicy (buildEvaluator e scope) (applyScope (ruleBindingRegistry e) scope p)) (\<lambda>problems.
             if problems = [] then
               andThen (runValidators ''Post'' p (postValidators e)) (\<lambda>refused.
                 ret (case refused of Some ms \<Rightarrow> Failure ms | None \<Rightarrow> Success p))
             else ret (Failure (map (\<lambda>q.
                    if problemConstraints q = [] then ''Evalution failed for: '' @ describe (problemRule q)
                    else describe (problemRule q)) problems))))"


section \<open>What the scope filter keeps\<close>

fun constraintInScope :: "ruleBindings \<Rightarrow> string \<Rightarrow> policy_constraint \<Rightarrow> bool" where
  "constraintInScope m scope (AtomicConstraint l oper r) =
     (case l of None \<Rightarrow> True | Some left \<Rightarrow> isInScope m (asString left) scope)"
| "constraintInScope m scope (AndConstraint cs) = (cs \<noteq> [] \<and> (\<forall>c \<in> set cs. constraintInScope m scope c))"
| "constraintInScope m scope (OrConstraint cs) = (cs \<noteq> [] \<and> (\<forall>c \<in> set cs. constraintInScope m scope c))"
| "constraintInScope m scope (XoneConstraint cs) = (cs \<noteq> [] \<and> (\<forall>c \<in> set cs. constraintInScope m scope c))"

definition ruleInScope :: "ruleBindings \<Rightarrow> string \<Rightarrow> policy_rule \<Rightarrow> bool" where
  "ruleInScope m scope r \<longleftrightarrow> \<not> actionNotInScope m scope r \<and> (\<forall>c \<in> set (ruleConstraints r). constraintInScope m scope c)"

primrec dutyInScope :: "ruleBindings \<Rightarrow> string \<Rightarrow> duty \<Rightarrow> bool" where
  "dutyInScope m scope (Duty r c) \<longleftrightarrow> ruleInScope m scope r \<and> pred_option id (map_option (dutyInScope m scope) c)"

text \<open>A filter that leaves what is good and only leaves what is good, lifted to lists.\<close>

definition filters :: "('a \<Rightarrow> 'a option) \<Rightarrow> ('a \<Rightarrow> bool) \<Rightarrow> bool" where
  "filters f good \<longleftrightarrow> (\<forall>x y. f x = Some y \<longrightarrow> good y) \<and> (\<forall>x. good x \<longrightarrow> f x = Some x)"

lemma map_filter_good:
  "\<lbrakk>\<And>x y. x \<in> set xs \<Longrightarrow> f x = Some y \<Longrightarrow> good y\<rbrakk> \<Longrightarrow> \<forall>y \<in> set (List.map_filter f xs). good y"
  by (auto simp: map_filter_def)

lemma map_filter_same:
  "\<lbrakk>\<And>x. x \<in> set xs \<Longrightarrow> f x = Some x\<rbrakk> \<Longrightarrow> List.map_filter f xs = xs"
  by (induction xs) (auto simp: map_filter_simps)

lemma map_filter_id: "List.map_filter id (map f xs) = List.map_filter f xs"
  by (simp add: map_filter_def filter_map comp_def)

lemma filterConstraint_good: "filterConstraint m scope c = Some c' \<Longrightarrow> constraintInScope m scope c'"
proof (induction c arbitrary: c')
  case (AtomicConstraint l oper r)
  then show ?case by (auto split: option.splits if_splits)
next
  case (AndConstraint cs)
  then have "\<forall>y \<in> set (List.map_filter (filterConstraint m scope) cs). constraintInScope m scope y"
    by (intro map_filter_good) blast
  with AndConstraint.prems show ?case by (auto simp: Let_def map_filter_id split: if_splits)
next
  case (OrConstraint cs)
  then have "\<forall>y \<in> set (List.map_filter (filterConstraint m scope) cs). constraintInScope m scope y"
    by (intro map_filter_good) blast
  with OrConstraint.prems show ?case by (auto simp: Let_def map_filter_id split: if_splits)
next
  case (XoneConstraint cs)
  then have "\<forall>y \<in> set (List.map_filter (filterConstraint m scope) cs). constraintInScope m scope y"
    by (intro map_filter_good) blast
  with XoneConstraint.prems show ?case by (auto simp: Let_def map_filter_id split: if_splits)
qed

lemma filterConstraint_same: "constraintInScope m scope c \<Longrightarrow> filterConstraint m scope c = Some c"
proof (induction c)
  case (AtomicConstraint l oper r)
  then show ?case by (auto split: option.splits)
next
  case (AndConstraint cs)
  then have "List.map_filter (filterConstraint m scope) cs = cs" by (intro map_filter_same) simp
  with AndConstraint.prems show ?case by (simp add: Let_def map_filter_id)
next
  case (OrConstraint cs)
  then have "List.map_filter (filterConstraint m scope) cs = cs" by (intro map_filter_same) simp
  with OrConstraint.prems show ?case by (simp add: Let_def map_filter_id)
next
  case (XoneConstraint cs)
  then have "List.map_filter (filterConstraint m scope) cs = cs" by (intro map_filter_same) simp
  with XoneConstraint.prems show ?case by (simp add: Let_def map_filter_id)
qed

lemma filters_rule: "filters (filterRule m scope) (ruleInScope m scope)"
proof -
  have "\<forall>c \<in> set (filterConstraints m scope cs). constraintInScope m scope c" for cs
    unfolding filterConstraints_def by (intro map_filter_good) (rule filterConstraint_good)
  moreover have "filterConstraints m scope cs = cs" if "\<forall>c \<in> set cs. constraintInScope m scope c" for cs
    unfolding filterConstraints_def using that by (intro map_filter_same) (simp add: filterConstraint_same)
  ultimately show ?thesis by (auto simp: filters_def filterRule_def ruleInScope_def actionNotInScope_def)
qed

lemma filterDuty_good: "filterDuty m scope d = Some d' \<Longrightarrow> dutyInScope m scope d'"
proof (induction d arbitrary: d')
  case (Duty r c)
  have r: "filterRule m scope r = Some r' \<Longrightarrow> ruleInScope m scope r'" for r'
    using filters_rule [of m scope] by (auto simp: filters_def)
  show ?case
  proof (cases c)
    case None
    with Duty.prems r show ?thesis by (auto split: option.splits)
  next
    case (Some a)
    with Duty.IH [of a] have "filterDuty m scope a = Some x \<Longrightarrow> dutyInScope m scope x" for x by simp
    with Duty.prems r Some show ?thesis by (cases "filterDuty m scope a") (auto split: option.splits)
  qed
qed

lemma filterDuty_same: "dutyInScope m scope d \<Longrightarrow> filterDuty m scope d = Some d"
proof (induction d)
  case (Duty r c)
  have "ruleInScope m scope r \<Longrightarrow> filterRule m scope r = Some r"
    using filters_rule [of m scope] by (auto simp: filters_def)
  then show ?case using Duty by (cases c) auto
qed

lemma filters_duty: "filters (filterDuty m scope) (dutyInScope m scope)"
  by (simp add: filters_def filterDuty_good filterDuty_same)

lemma filters_list:
  "filters f good \<Longrightarrow> (\<forall>y \<in> set (List.map_filter f xs). good y) \<and> ((\<forall>x \<in> set xs. good x) \<longrightarrow> List.map_filter f xs = xs)"
  unfolding filters_def using map_filter_good [of xs f good] map_filter_same [of xs f] by blast

definition permissionInScope :: "ruleBindings \<Rightarrow> string \<Rightarrow> permission \<Rightarrow> bool" where
  "permissionInScope m scope x \<longleftrightarrow>
     ruleInScope m scope (permissionRule x) \<and> (\<forall>d \<in> set (duties x). dutyInScope m scope d)"

lemma filters_permission: "filters (filterPermission m scope) (permissionInScope m scope)"
proof -
  have good: "permissionInScope m scope y" if f: "filterPermission m scope x = Some y" for x y
  proof -
    obtain r where r: "filterRule m scope (permissionRule x) = Some r"
      and y: "y = \<lparr>permissionRule = r, duties = List.map_filter (filterDuty m scope) (duties x)\<rparr>"
      using f by (auto simp: filterPermission_def split: option.splits)
    have "ruleInScope m scope r" using r filters_rule [of m scope] unfolding filters_def by blast
    then show ?thesis using filters_list [OF filters_duty [of m scope], of "duties x"]
      by (simp add: y permissionInScope_def)
  qed
  have same: "filterPermission m scope x = Some x" if x: "permissionInScope m scope x" for x
  proof -
    have "filterRule m scope (permissionRule x) = Some (permissionRule x)"
      using x filters_rule [of m scope] unfolding filters_def permissionInScope_def by blast
    then show ?thesis using x filters_list [OF filters_duty [of m scope], of "duties x"]
      by (simp add: filterPermission_def permissionInScope_def)
  qed
  from good same show ?thesis unfolding filters_def by blast
qed

definition policyInScope :: "ruleBindings \<Rightarrow> string \<Rightarrow> policy \<Rightarrow> bool" where
  "policyInScope m scope p \<longleftrightarrow>
     (\<forall>x \<in> set (permissions p). permissionInScope m scope x) \<and>
     (\<forall>x \<in> set (prohibitions p). ruleInScope m scope x) \<and>
     (\<forall>d \<in> set (obligations p). dutyInScope m scope d)"

text \<open>
  What the scope filter leaves of a policy is in scope, down to every duty, consequence and
  nested constraint, and it changes a policy only if something in it is not; so filtering twice is
  filtering once.
\<close>

theorem scope_filter_exact:
  "policyInScope m scope (applyScope m scope p) \<and>
   (applyScope m scope p = p \<longleftrightarrow> policyInScope m scope p) \<and>
   applyScope m scope (applyScope m scope p) = applyScope m scope p"
proof -
  note lists = filters_list [OF filters_rule [of m scope]] filters_list [OF filters_duty [of m scope]]
    filters_list [OF filters_permission [of m scope]]
  have kept: "policyInScope m scope (applyScope m scope p)"
    using lists by (simp add: policyInScope_def applyScope_def)
  have same: "applyScope m scope q = q" if "policyInScope m scope q" for q
  proof -
    have "List.map_filter (filterDuty m scope) (obligations q) = obligations q"
      "List.map_filter (filterPermission m scope) (permissions q) = permissions q"
      "List.map_filter (filterRule m scope) (prohibitions q) = prohibitions q"
      using that lists unfolding policyInScope_def by blast+
    then show ?thesis by (simp add: applyScope_def)
  qed
  have "applyScope m scope p = p \<longleftrightarrow> policyInScope m scope p"
  proof
    assume "applyScope m scope p = p"
    with kept show "policyInScope m scope p" by simp
  qed (rule same)
  with kept same [OF kept] show ?thesis by blast
qed

section \<open>Evaluation in a scope\<close>

text \<open>
  A rule whose action is not bound to the scope counts for nothing: if that holds of every
  permission, prohibition and obligation of a policy, and there are no validators, then evaluation
  succeeds, whatever the constraints and the registered functions are, and none of them is called.
\<close>

theorem unbound_policy_fulfilled:
  assumes "preValidators e = []" "postValidators e = []"
    and "\<forall>r \<in> permissionRule ` set (permissions p) \<union> set (prohibitions p) \<union> dutyRule ` set (obligations p).
           actionNotInScope (ruleBindingRegistry e) scope r"
  shows "evaluate describe e scope p c = (Inr (Success p), c)"
proof -
  let ?m = "ruleBindingRegistry e"
  have "List.map_filter (filterPermission ?m scope) (permissions p) = []"
    "List.map_filter (filterRule ?m scope) (prohibitions p) = []"
    using assms(3) by (auto simp: map_filter_def filter_empty_conv filterPermission_def filterRule_def)
  moreover have "filterDuty ?m scope d = None" if "d \<in> set (obligations p)" for d
  proof -
    from that assms(3) have "actionNotInScope ?m scope (dutyRule d)" by simp
    then show ?thesis by (cases d) (simp add: filterRule_def)
  qed
  then have "List.map_filter (filterDuty ?m scope) (obligations p) = []"
    by (auto simp: map_filter_def filter_empty_conv)
  ultimately show ?thesis
    using assms(1,2) by (simp add: evaluate_def evaluatePolicy_def applyScope_def)
qed

text \<open>
  An ordering between values is never decided by the evaluator itself: a bound permission with
  such a constraint, of a key that no function is registered for, ends the evaluation of the whole
  policy with a null pointer exception instead of a result.
\<close>

theorem unsupported_operator:
  assumes "preValidators e = []" "permissionRuleFunctions (buildEvaluator e scope) = []"
    and "applyScope (ruleBindingRegistry e) scope p = q" "permissions q = x # xs" "duties x = []"
    and "ruleConstraints (permissionRule x) = AtomicConstraint (Some l) oper (Some r) # cs"
    and "oper \<in> {GT, GEQ, LT, LEQ}" "boundFunction (buildEvaluator e scope) (InPermission x) l = None"
  shows "\<exists>msg. evaluate describe e scope p c = (Inl (NullPointerException msg), c)"
proof -
  let ?ev = "buildEvaluator e scope"
  have "visitAtomicConstraint ?ev (InPermission x) (Some l) oper (Some r) =
      throw (NullPointerException ''visitAtomicConstraint'')"
    using assms(7,8) by (auto simp: visitAtomicConstraint_def boundFunction_def simp del: ret_run throw_run
        split: literal.splits option.splits if_splits)
  then have "visitPermission ?ev x c = (Inl (NullPointerException ''visitAtomicConstraint''), c)"
    by (simp add: visitPermission_def assms visitRule_def andThen_def)
  then show ?thesis
    using assms(1,3,4) by (simp add: evaluate_def evaluatePolicy_def andThen_def)
qed

section \<open>Examples\<close>

definition empty_engine :: "ruleBindings \<Rightarrow> 'c policyEngine" where
  "empty_engine m =
     \<lparr>ruleBindingRegistry = m, constraintFunctions = [], ruleFunctions = [], preValidators = [], postValidators = []\<rparr>"

definition example_context :: "(string, unit) policyContext" where
  "example_context = \<lparr>participantAgent = ''agent'', contextProblems = [], contextData = ()\<rparr>"

theorem unbound_policy_fulfilled_witness:
  "evaluate (\<lambda>rc. ''rule'') (empty_engine []) ''contract.negotiation'' example_policy example_context =
     (Inr (Success example_policy), example_context)"
  by (rule unbound_policy_fulfilled)
    (simp_all add: empty_engine_def example_policy_def example_rule_def actionNotInScope_def isInScope_def)

definition ordering_policy :: policy where
  "ordering_policy =
     example_policy\<lparr>permissions := [\<lparr>permissionRule = example_rule\<lparr>ruleConstraints :=
       [AtomicConstraint (Some (IntValue 1)) LT (Some (IntValue 2))]\<rparr>, duties = []\<rparr>]\<rparr>"

definition open_bindings :: ruleBindings where
  "open_bindings = bind_rule ''1'' ''*'' (bind_rule ''USE'' ''*'' [])"

lemma ordering_policy_in_scope: "applyScope open_bindings ''contract.negotiation'' ordering_policy = ordering_policy"
  by code_simp

theorem unsupported_operator_witness:
  "\<exists>msg. evaluate (\<lambda>rc. ''rule'') (empty_engine open_bindings) ''contract.negotiation'' ordering_policy example_context =
     (Inl (NullPointerException msg), example_context)"
  by (rule unsupported_operator [where x = "hd (permissions ordering_policy)" and xs = "[]" and q = ordering_policy
        and l = "IntValue 1" and r = "IntValue 2" and oper = LT and cs = "[]"])
    (simp_all add: empty_engine_def buildEvaluator_def entriesInScope_def ruleFunctionsOf_def
      ordering_policy_in_scope boundFunction_def, simp_all add: ordering_policy_def example_policy_def)

end
