(* ===== verification/Asset_Index.thy ===== *)
theory Asset_Index
  imports Contract_Negotiation
begin

text \<open>
  The in-memory asset index, \<open>core/defaults/.../assetindex/InMemoryAssetIndex.java\<close>, with the
  queries and criteria of \<open>spi/core-spi/.../spi/query\<close> and their conversion to predicates. The
  identifier of an asset is its property \<open>asset:prop:id\<close>, which every asset has here; the other
  properties are strings. A data address \<open>'d\<close> is stored as it is. Queries are not sorted, as none of
  the modelled callers asks for it, and nobody else writes while a stream is read.
\<close>

section \<open>Criteria\<close>

datatype operand = NullOperand | StringOperand string | ListOperand "string list"

record criterion =
  operandLeft :: string
  criterionOperator :: string
  operandRight :: operand

definition getProperty :: "asset \<Rightarrow> string \<Rightarrow> string option" where
  "getProperty a k = (if k = ''asset:prop:id'' then Some (theAssetId a) else map_of (assetProperties a) k)"

text \<open>\<open>toLowerCase\<close>, of ASCII.\<close>

definition lower :: "char \<Rightarrow> char" where
  "lower c = (if of_char c \<in> {65..90::nat} then char_of (of_char c + 32 :: nat) else c)"

definition equalPredicate :: "criterion \<Rightarrow> asset \<Rightarrow> java_exn + bool" where
  "equalPredicate c a =
     Inr (case getProperty a (operandLeft c) of
            None \<Rightarrow> False
          | Some p \<Rightarrow> StringOperand p = operandRight c)"

definition inPredicate :: "criterion \<Rightarrow> asset \<Rightarrow> java_exn + bool" where
  "inPredicate c a =
     (case operandRight c of
        ListOperand items \<Rightarrow>
          Inr (case getProperty a (operandLeft c) of None \<Rightarrow> False | Some p \<Rightarrow> List.member items p)
      | NullOperand \<Rightarrow> Inl (NullPointerException ''rightOp'')
      | StringOperand _ \<Rightarrow> Inl (IllegalArgumentException
          ''Operator IN requires the right-hand operand to be an java.lang.Iterable but was java.lang.String''))"

definition convert :: "criterion \<Rightarrow> java_exn + (asset \<Rightarrow> java_exn + bool)" where
  "convert c =
     (let oper = map lower (criterionOperator c)
      in if oper = ''='' then Inr (equalPredicate c)
         else if oper = ''in'' then Inr (inPredicate c)
         else Inl (IllegalArgumentException
           (''Operator ['' @ criterionOperator c @ ''] is not supported by this converter!'')))"

text \<open>\<open>Predicate.and\<close> stops at the first that is false.\<close>

primrec allPredicates :: "(asset \<Rightarrow> java_exn + bool) list \<Rightarrow> asset \<Rightarrow> java_exn + bool" where
  "allPredicates [] a = Inr True"
| "allPredicates (f # fs) a = orThrow (f a) (\<lambda>b. if b then allPredicates fs a else Inr False)"

section \<open>Streams\<close>

text \<open>
  A stream is read lazily: elements are filtered, some are skipped and at most some are returned, and
  the filter is not evaluated any more when there are enough.
\<close>

record 'a javaStream =
  streamSource :: "'a list"
  streamFilter :: "'a \<Rightarrow> java_exn + bool"
  streamSkip :: nat
  streamLimit :: nat

fun filterLimit :: "nat \<Rightarrow> nat \<Rightarrow> ('a \<Rightarrow> java_exn + bool) \<Rightarrow> 'a list \<Rightarrow> java_exn + 'a list" where
  "filterLimit skip 0 f xs = Inr []"
| "filterLimit skip (Suc n) f [] = Inr []"
| "filterLimit skip (Suc n) f (x # xs) =
     orThrow (f x) (\<lambda>b.
       if \<not> b then filterLimit skip (Suc n) f xs
       else (case skip of
               0 \<Rightarrow> orThrow (filterLimit 0 n f xs) (\<lambda>ys. Inr (x # ys))
             | Suc k \<Rightarrow> filterLimit k (Suc n) f xs))"

definition readAll :: "'a javaStream \<Rightarrow> java_exn + 'a list" where
  "readAll st = filterLimit (streamSkip st) (streamLimit st) (streamFilter st) (streamSource st)"

definition findFirst :: "'a javaStream \<Rightarrow> java_exn + 'a option" where
  "findFirst st =
     orThrow (filterLimit (streamSkip st) (min 1 (streamLimit st)) (streamFilter st) (streamSource st)) (\<lambda>ys.
       Inr (case ys of [] \<Rightarrow> None | y # _ \<Rightarrow> Some y))"

section \<open>The index\<close>

record 'd assetIndex =
  cache :: "asset jmap"
  dataAddresses :: "'d jmap"

record querySpec =
  offset :: int
  limit :: int
  filterExpression :: "criterion list"

text \<open>\<open>QuerySpec.none\<close>: no filter, and the limit is 50.\<close>

definition noQuery :: querySpec where
  "noQuery = \<lparr>offset = 0, limit = 50, filterExpression = []\<rparr>"

definition buildQuery :: "querySpec \<Rightarrow> java_exn + querySpec" where
  "buildQuery q =
     (if offset q < 0 then Inl (IllegalArgumentException ''offset'')
      else if limit q \<le> 0 then Inl (IllegalArgumentException ''limit'')
      else Inr q)"

definition queryAssets :: "querySpec \<Rightarrow> 'd assetIndex \<Rightarrow> java_exn + asset javaStream" where
  "queryAssets q ix =
     orThrow (mapOrThrow convert (filterExpression q)) (\<lambda>fs.
       Inr \<lparr>streamSource = map snd (cache ix), streamFilter = allPredicates fs,
            streamSkip = nat (offset q), streamLimit = nat (limit q)\<rparr>)"

text \<open>\<open>SELECT_ALL\<close> is one object; a selector without criteria is another, with the same criteria.\<close>

datatype assetSelectorExpression = SELECT_ALL | Selector "criterion list"

fun getCriteria :: "assetSelectorExpression \<Rightarrow> criterion list" where
  "getCriteria SELECT_ALL = []"
| "getCriteria (Selector cs) = cs"

definition queryAssetsBySelector ::
  "assetSelectorExpression \<Rightarrow> 'd assetIndex \<Rightarrow> java_exn + asset javaStream" where
  "queryAssetsBySelector x ix =
     (case x of
        SELECT_ALL \<Rightarrow> queryAssets noQuery ix
      | Selector cs \<Rightarrow> orThrow (buildQuery (noQuery\<lparr>filterExpression := cs\<rparr>)) (\<lambda>q. queryAssets q ix))"

definition findAssetById :: "string \<Rightarrow> 'd assetIndex \<Rightarrow> asset option" where
  "findAssetById ident ix =
     (case filter (\<lambda>a. theAssetId a = ident) (map snd (cache ix)) of [] \<Rightarrow> None | a # _ \<Rightarrow> Some a)"

definition resolveForAsset :: "string \<Rightarrow> 'd assetIndex \<Rightarrow> java_exn + 'd" where
  "resolveForAsset ident ix =
     (case map_of (dataAddresses ix) ident of
        None \<Rightarrow> Inl (IllegalArgumentException (''No DataAddress found for Asset ID='' @ ident))
      | Some d \<Rightarrow> Inr d)"

definition acceptAsset :: "asset \<Rightarrow> 'd \<Rightarrow> 'd assetIndex \<Rightarrow> 'd assetIndex" where
  "acceptAsset a d ix =
     ix\<lparr>cache := put (theAssetId a) a (cache ix), dataAddresses := put (theAssetId a) d (dataAddresses ix)\<rparr>"

definition deleteAsset :: "string \<Rightarrow> 'd assetIndex \<Rightarrow> asset option \<times> 'd assetIndex" where
  "deleteAsset ident ix =
     (map_of (cache ix) ident,
      ix\<lparr>cache := remove_key ident (cache ix), dataAddresses := remove_key ident (dataAddresses ix)\<rparr>)"

section \<open>The assets are kept by their identifiers\<close>

text \<open>Each asset is stored once, under its identifier, and exactly the stored assets have an address.\<close>

definition assets_ok :: "'d assetIndex \<Rightarrow> bool" where
  "assets_ok ix \<longleftrightarrow>
     keys_distinct (cache ix) \<and> (\<forall>p \<in> set (cache ix). theAssetId (snd p) = fst p) \<and>
     dom (map_of (dataAddresses ix)) = dom (map_of (cache ix))"

lemma assets_ok_empty: "assets_ok \<lparr>cache = [], dataAddresses = []\<rparr>"
  by (simp add: assets_ok_def)

lemma accept_delete_ok:
  assumes "assets_ok ix"
  shows "assets_ok (acceptAsset a d ix)" "assets_ok (snd (deleteAsset k ix))"
proof -
  show "assets_ok (acceptAsset a d ix)"
    using assms by (auto simp: assets_ok_def acceptAsset_def set_put)
  show "assets_ok (snd (deleteAsset k ix))"
    using assms by (auto simp: assets_ok_def deleteAsset_def set_remove_key)
qed

lemma assets_ok_find: "assets_ok ix \<Longrightarrow> findAssetById k ix = map_of (cache ix) k"
proof -
  assume ok: "assets_ok ix"
  have "filter (\<lambda>a. theAssetId a = k) (map snd m) = (case map_of m k of None \<Rightarrow> [] | Some a \<Rightarrow> [a])"
    if "keys_distinct m" "\<forall>p \<in> set m. theAssetId (snd p) = fst p" for m
    using that
  proof (induction m)
    case (Cons p m)
    then show ?case
      by (cases p) (auto simp: keys_distinct_def split: option.splits dest!: map_of_SomeD intro: rev_image_eqI)
  qed simp
  from this [of "cache ix"] ok show ?thesis by (simp add: findAssetById_def assets_ok_def split: option.splits)
qed

lemma assets_ok_unique:
  "assets_ok ix \<Longrightarrow> a \<in> snd ` set (cache ix) \<Longrightarrow> b \<in> snd ` set (cache ix) \<Longrightarrow> theAssetId a = theAssetId b \<longleftrightarrow> a = b"
  by (auto simp: assets_ok_def keys_distinct_def) (metis eq_key_imp_eq_value snd_conv fst_conv)

section \<open>Finding an asset again\<close>

lemma filterLimit_sound: "filterLimit k n f xs = Inr ys \<Longrightarrow> y \<in> set ys \<Longrightarrow> y \<in> set xs \<and> f y = Inr True"
proof (induction k n f xs arbitrary: ys rule: filterLimit.induct)
  case (3 skip n f x xs)
  then show ?case using "3.IH"(1) [of False] "3.IH"(2) [of True] "3.IH"(3) [of True]
    by (cases skip) (auto simp: orThrow_Inr split: if_splits)
qed simp_all

text \<open>
  An element that is read through a predicate is the first one that is found through a predicate
  that refines it and is true of no other element.
\<close>

lemma filterLimit_refined:
  assumes "filterLimit k n f xs = Inr ys" "y \<in> set ys"
    and "\<And>x b. x \<in> set xs \<Longrightarrow> f x = Inr b \<Longrightarrow> g x = Inr (b \<and> x = y)"
  shows "filterLimit 0 1 g xs = Inr [y]"
  using assms
proof (induction k n f xs arbitrary: ys rule: filterLimit.induct)
  case (3 skip n f x xs)
  obtain b where b: "f x = Inr b" using "3.prems"(1) by (auto simp: orThrow_Inr)
  then have gx: "g x = Inr (b \<and> x = y)" using "3.prems"(3) by simp
  show ?case
  proof (cases "b \<and> x = y")
    case False
    then have "filterLimit 0 1 g xs = Inr [y]"
      using "3.prems" "3.IH"(1) [of False] "3.IH"(2) [of True] "3.IH"(3) [of True] b
      by (cases skip) (auto simp: orThrow_Inr split: if_splits)
    with False gx show ?thesis by auto
  qed (use gx in simp)
qed simp_all

text \<open>An asset that satisfies all criteria, none of which throws on the way.\<close>

definition selectedBy :: "criterion list \<Rightarrow> asset \<Rightarrow> bool" where
  "selectedBy cs a \<longleftrightarrow> orThrow (mapOrThrow convert cs) (\<lambda>fs. allPredicates fs a) = Inr True"

definition idCriterion :: "string \<Rightarrow> criterion" where
  "idCriterion k = \<lparr>operandLeft = ''asset:prop:id'', criterionOperator = ''='', operandRight = StringOperand k\<rparr>"

lemma convert_idCriterion: "convert (idCriterion k) = Inr (\<lambda>a. Inr (theAssetId a = k))"
  by (simp add: convert_def idCriterion_def lower_def equalPredicate_def getProperty_def fun_eq_iff)

lemma allPredicates_snoc:
  "allPredicates (fs @ [f]) a = orThrow (allPredicates fs a) (\<lambda>b. if b then f a else Inr False)"
proof (induction fs)
  case Nil
  show ?case by (cases "f a") auto
next
  case (Cons g fs)
  then show ?case by (cases "g a") auto
qed

lemma queryAssets_snoc:
  assumes "filterExpression q = cs @ [idCriterion k]" "queryAssets q ix = Inr st"
  obtains fs where "mapOrThrow convert cs = Inr fs"
    and "streamFilter st = (\<lambda>a. orThrow (allPredicates fs a) (\<lambda>b. Inr (b \<and> theAssetId a = k)))"
proof -
  from assms obtain fs where fs: "mapOrThrow convert cs = Inr fs"
    and st: "streamFilter st = allPredicates (fs @ [\<lambda>a. Inr (theAssetId a = k)])"
    by (auto simp: queryAssets_def mapOrThrow_snoc convert_idCriterion orThrow_Inr)
  have "streamFilter st a = orThrow (allPredicates fs a) (\<lambda>b. Inr (b \<and> theAssetId a = k))" for a
    unfolding st by (cases "allPredicates fs a") (simp_all add: allPredicates_snoc)
  with fs show thesis by (intro that) (auto simp: fun_eq_iff)
qed

lemma read_selected:
  assumes "queryAssets q ix = Inr st" "readAll st = Inr as" "a \<in> set as"
  shows "a \<in> snd ` set (cache ix) \<and> selectedBy (filterExpression q) a"
  using assms filterLimit_sound [of "streamSkip st" "streamLimit st" "streamFilter st" "streamSource st" as a]
  by (auto simp: queryAssets_def readAll_def selectedBy_def orThrow_Inr)

text \<open>The asset found by its identifier besides other criteria.\<close>

lemma found_selected:
  assumes "filterExpression q = cs @ [idCriterion k]" "queryAssets q ix = Inr st" "findFirst st = Inr (Some a)"
  shows "a \<in> snd ` set (cache ix) \<and> theAssetId a = k \<and> selectedBy cs a"
proof -
  obtain fs where fs: "mapOrThrow convert cs = Inr fs"
    and st: "streamFilter st = (\<lambda>a. orThrow (allPredicates fs a) (\<lambda>b. Inr (b \<and> theAssetId a = k)))"
    using queryAssets_snoc [OF assms(1,2)] .
  from assms(3) obtain ys where ys: "filterLimit (streamSkip st) (min 1 (streamLimit st)) (streamFilter st)
      (streamSource st) = Inr ys" "(case ys of [] \<Rightarrow> None | y # _ \<Rightarrow> Some y) = Some a"
    unfolding findFirst_def orThrow_Inr by blast
  from ys(2) have "a \<in> set ys" by (cases ys) simp_all
  from filterLimit_sound [OF ys(1) this] have "a \<in> set (streamSource st)" "streamFilter st a = Inr True" by auto
  then show ?thesis using assms(2) fs by (auto simp: st selectedBy_def queryAssets_def orThrow_Inr)
qed

text \<open>An asset that a query returns is found again by the same criteria and its identifier.\<close>

lemma found_again:
  assumes ok: "assets_ok ix" and st: "queryAssets q ix = Inr st" and "readAll st = Inr as" "a \<in> set as"
    and q': "filterExpression q' = filterExpression q @ [idCriterion (theAssetId a)]" "offset q' = 0" "0 < limit q'"
  obtains st' where "queryAssets q' ix = Inr st'" "findFirst st' = Inr (Some a)"
proof -
  from st obtain gs where gs: "mapOrThrow convert (filterExpression q) = Inr gs"
    and f: "streamFilter st = allPredicates gs" and src: "streamSource st = map snd (cache ix)"
    by (auto simp: queryAssets_def orThrow_Inr)
  then obtain st' where st': "queryAssets q' ix = Inr st'" "streamSkip st' = 0" "streamLimit st' = nat (limit q')"
      "streamSource st' = map snd (cache ix)"
    using q' by (auto simp: queryAssets_def mapOrThrow_snoc convert_idCriterion)
  obtain fs where "mapOrThrow convert (filterExpression q) = Inr fs"
    and f': "streamFilter st' = (\<lambda>x. orThrow (allPredicates fs x) (\<lambda>b. Inr (b \<and> theAssetId x = theAssetId a)))"
    using queryAssets_snoc [OF q'(1) st'(1)] .
  with gs have [simp]: "fs = gs" by simp
  have a: "a \<in> snd ` set (cache ix)" using read_selected [OF st assms(3,4)] by simp
  have "filterLimit 0 1 (streamFilter st') (map snd (cache ix)) = Inr [a]"
  proof (rule filterLimit_refined)
    show "filterLimit (streamSkip st) (streamLimit st) (allPredicates gs) (map snd (cache ix)) = Inr as"
      using assms(3) by (simp add: readAll_def f src)
    show "streamFilter st' x = Inr (b \<and> x = a)" if "x \<in> set (map snd (cache ix))" "allPredicates gs x = Inr b" for x b
      using that assets_ok_unique [OF ok _ a, of x] by (simp add: f')
  qed fact
  moreover have "min 1 (streamLimit st') = 1" using st'(3) q'(3) by simp
  ultimately have "findFirst st' = Inr (Some a)" by (simp only: findFirst_def st'(2,4)) simp
  with st'(1) show thesis by (rule that)
qed

end
