(* ===== verification/Contract_Services.thy ===== *)
theory Contract_Services
  imports Policy_Engine Asset_Index
begin

text \<open>
  The services behind the catalog and the negotiations: \<open>ContractDefinitionServiceImpl\<close>,
  \<open>ContractOfferServiceImpl\<close> and \<open>ContractValidationServiceImpl\<close> of \<open>core/contract\<close>, with
  \<open>ParticipantAgentServiceImpl\<close> of \<open>core/base\<close> and the in-memory stores of contract definitions and
  policies. The extensions that compute the attributes of an agent are functions of its token, and the
  policy functions that extensions register share no state between two evaluations.
\<close>

section \<open>Definitions, policies and agents\<close>

record contractDefinition =
  definitionId :: string
  accessPolicyId :: string
  contractPolicyId :: string
  selectorExpression :: assetSelectorExpression

record policyDefinition =
  policyUid :: string
  definedPolicy :: policy

text \<open>Claims are strings, as \<open>ClaimToken\<close> says.\<close>

record claimToken =
  tokenClaims :: "string jmap"

record participant_agent =
  agentClaims :: "string jmap"
  agentAttributes :: "string jmap"

record ('d, 'addr) contract_services =
  policyEngineOf :: "(participant_agent, 'd) policyContext policyEngine"
  describeRule :: "ruleContext \<Rightarrow> string"
  noContextData :: 'd
  agentExtensions :: "(claimToken \<Rightarrow> string jmap) list"
  assetIndexOf :: "'addr assetIndex"
  definitionStore :: "contractDefinition jmap"
  policyStore :: "policyDefinition jmap"

text \<open>\<open>Collectors.toMap\<close> refuses two values for a key.\<close>

fun toMap :: "string jmap \<Rightarrow> string jmap \<Rightarrow> java_exn + string jmap" where
  "toMap m [] = Inr m"
| "toMap m ((k, v) # es) =
     (case map_of m k of
        Some u \<Rightarrow> Inl (IllegalStateException
          (''Duplicate key '' @ k @ '' (attempted merging values '' @ u @ '' and '' @ v @ '')''))
      | None \<Rightarrow> toMap (put k v m) es)"

definition createFor :: "('d, 'addr) contract_services \<Rightarrow> claimToken \<Rightarrow> java_exn + participant_agent" where
  "createFor sv token =
     orThrow (toMap [] (concat (map (\<lambda>extension. extension token) (agentExtensions sv)))) (\<lambda>attributes.
       Inr \<lparr>agentClaims = tokenClaims token, agentAttributes = attributes\<rparr>)"

text \<open>An evaluation for an agent starts with a new context.\<close>

definition evaluateFor ::
  "('d, 'addr) contract_services \<Rightarrow> string \<Rightarrow> policy \<Rightarrow> participant_agent \<Rightarrow> java_exn + policy result" where
  "evaluateFor sv scope p agent =
     fst (evaluate (describeRule sv) (policyEngineOf sv) scope p
       \<lparr>participantAgent = agent, contextProblems = [], contextData = noContextData sv\<rparr>)"

definition CATALOGING_SCOPE :: string where
  "CATALOGING_SCOPE = ''contract.cataloging''"

definition NEGOTIATION_SCOPE :: string where
  "NEGOTIATION_SCOPE = ''contract.negotiation''"

section \<open>Contract definitions\<close>

definition saveDefinition ::
  "contractDefinition \<Rightarrow> ('d, 'addr) contract_services \<Rightarrow> ('d, 'addr) contract_services" where
  "saveDefinition d sv = sv\<lparr>definitionStore := put (definitionId d) d (definitionStore sv)\<rparr>"

definition deleteDefinition ::
  "string \<Rightarrow> ('d, 'addr) contract_services \<Rightarrow> contractDefinition option \<times> ('d, 'addr) contract_services" where
  "deleteDefinition k sv =
     (map_of (definitionStore sv) k, sv\<lparr>definitionStore := remove_key k (definitionStore sv)\<rparr>)"

definition savePolicy ::
  "policyDefinition \<Rightarrow> ('d, 'addr) contract_services \<Rightarrow> ('d, 'addr) contract_services" where
  "savePolicy p sv = sv\<lparr>policyStore := put (policyUid p) p (policyStore sv)\<rparr>"

definition deletePolicy ::
  "string \<Rightarrow> ('d, 'addr) contract_services \<Rightarrow> policyDefinition option \<times> ('d, 'addr) contract_services" where
  "deletePolicy k sv = (map_of (policyStore sv) k, sv\<lparr>policyStore := remove_key k (policyStore sv)\<rparr>)"

definition evaluateAccessPolicy ::
  "('d, 'addr) contract_services \<Rightarrow> participant_agent \<Rightarrow> contractDefinition \<Rightarrow> java_exn + bool" where
  "evaluateAccessPolicy sv agent d =
     orThrow (case map_of (policyStore sv) (accessPolicyId d) of
                None \<Rightarrow> Inr (Failure [''Policy '' @ accessPolicyId d @ '' not found''])
              | Some p \<Rightarrow> evaluateFor sv CATALOGING_SCOPE (definedPolicy p) agent) (\<lambda>accessResult.
       Inr (\<not> failed accessResult))"

definition definitionFor ::
  "('d, 'addr) contract_services \<Rightarrow> participant_agent \<Rightarrow> string \<Rightarrow> java_exn + contractDefinition option" where
  "definitionFor sv agent ident =
     (case map_of (definitionStore sv) ident of
        None \<Rightarrow> Inr None
      | Some d \<Rightarrow> orThrow (evaluateAccessPolicy sv agent d) (\<lambda>granted. Inr (if granted then Some d else None)))"

text \<open>
  A range, and \<open>definitionsFor\<close>: the definitions are skipped and limited before the access to them is
  checked. The stream is given with the function that its reader maps it by.
\<close>

record range =
  fromIndex :: int
  toIndex :: int

definition definitionsFor ::
  "('d, 'addr) contract_services \<Rightarrow> participant_agent \<Rightarrow> range \<Rightarrow> (contractDefinition \<Rightarrow> java_exn + 'b list) \<Rightarrow>
   java_exn + 'b list" where
  "definitionsFor sv agent r reader =
     orThrow (buildQuery (noQuery\<lparr>offset := fromIndex r, limit := i32 (toIndex r - fromIndex r)\<rparr>)) (\<lambda>q.
       flatMapOrThrow (evaluateAccessPolicy sv agent) reader
         (take (nat (limit q)) (drop (nat (offset q)) (map snd (definitionStore sv)))))"

section \<open>The catalog\<close>

text \<open>\<open>uuids\<close> gives the random part of the identifier for the offer of each definition and asset.\<close>

definition createContractOffer ::
  "(string \<Rightarrow> string \<Rightarrow> string) \<Rightarrow> contractDefinition \<Rightarrow> policy \<Rightarrow> asset \<Rightarrow> policy contractOffer" where
  "createContractOffer uuids d p a =
     \<lparr>offerId = createContractId (uuids (definitionId d) (theAssetId a)) (definitionId d),
      offerPolicy = withTarget (theAssetId a) p, offerAsset = Some a, offerAssetId = None,
      offerProvider = Some ''urn:connector:provider'', offerConsumer = Some ''urn:connector:consumer'',
      offerStart = None, offerEnd = None, contractStart = None, contractEnd = None\<rparr>"

definition offersOf ::
  "('d, 'addr) contract_services \<Rightarrow> (string \<Rightarrow> string \<Rightarrow> string) \<Rightarrow> contractDefinition \<Rightarrow>
   java_exn + policy contractOffer list" where
  "offersOf sv uuids d =
     orThrow (queryAssetsBySelector (selectorExpression d) (assetIndexOf sv)) (\<lambda>assets.
       case map_of (policyStore sv) (contractPolicyId d) of
         None \<Rightarrow> Inr []
       | Some p \<Rightarrow> orThrow (readAll assets) (\<lambda>as. Inr (map (createContractOffer uuids d (definedPolicy p)) as)))"

definition queryContractOffers ::
  "('d, 'addr) contract_services \<Rightarrow> (string \<Rightarrow> string \<Rightarrow> string) \<Rightarrow> claimToken \<Rightarrow> range \<Rightarrow>
   java_exn + policy contractOffer list" where
  "queryContractOffers sv uuids token r =
     orThrow (createFor sv token) (\<lambda>agent. definitionsFor sv agent r (offersOf sv uuids))"

section \<open>Validation\<close>

definition isMandatoryAttributeMissing :: "policy contractOffer \<Rightarrow> bool" where
  "isMandatoryAttributeMissing offer \<longleftrightarrow> offerProvider offer = None \<or> offerConsumer offer = None"

definition createCriteria :: "policy contractOffer \<Rightarrow> contractDefinition \<Rightarrow> java_exn + criterion list" where
  "createCriteria offer d =
     (case offerAsset offer of
        None \<Rightarrow> Inl (NullPointerException ''getAsset'')
      | Some a \<Rightarrow> Inr (getCriteria (selectorExpression d) @
          [\<lparr>operandLeft = ''asset:prop:id'', criterionOperator = ''='', operandRight = StringOperand (theAssetId a)\<rparr>]))"

text \<open>The last part of \<open>validate\<close>, for the asset that was found.\<close>

definition checkContractPolicy ::
  "('d, 'addr) contract_services \<Rightarrow> participant_agent \<Rightarrow> contractDefinition \<Rightarrow> string \<Rightarrow> asset \<Rightarrow>
   java_exn + policy contractOffer result" where
  "checkContractPolicy sv agent d ident targetAsset =
     (case map_of (policyStore sv) (contractPolicyId d) of
        None \<Rightarrow> Inr (Failure [''Policy '' @ contractPolicyId d @ '' not found''])
      | Some p \<Rightarrow>
          orThrow (evaluateFor sv NEGOTIATION_SCOPE (definedPolicy p) agent) (\<lambda>result.
            Inr (if failed result then Failure [''Policy '' @ policyUid p @ '' not fulfilled'']
                 else Success
                   \<lparr>offerId = ident, offerPolicy = definedPolicy p, offerAsset = Some targetAsset,
                    offerAssetId = None, offerProvider = None, offerConsumer = None,
                    offerStart = None, offerEnd = None, contractStart = None, contractEnd = None\<rparr>)))"

text \<open>\<open>validate\<close> of a first offer; a message that is never formatted included.\<close>

definition validateInitialOffer ::
  "('d, 'addr) contract_services \<Rightarrow> claimToken \<Rightarrow> policy contractOffer \<Rightarrow> java_exn + policy contractOffer result" where
  "validateInitialOffer sv token offer =
     (if isMandatoryAttributeMissing offer then Inr (Failure [''Mandatory attributes are missing.''])
      else let contractIdTokens = parseContractId (offerId offer)
      in if length contractIdTokens \<noteq> 2 then Inr (Failure [''Invalid id: '' @ offerId offer])
      else orThrow (createFor sv token) (\<lambda>agent.
           orThrow (definitionFor sv agent (contractIdTokens ! 0)) (\<lambda>found.
           case found of
             None \<Rightarrow> Inr (Failure
               [''The ContractDefinition with id %s either does not exist or the access to it is not granted.''])
           | Some d \<Rightarrow>
               orThrow (createCriteria offer d) (\<lambda>criteria.
               orThrow (buildQuery (noQuery\<lparr>filterExpression := criteria\<rparr>)) (\<lambda>q.
               orThrow (queryAssets q (assetIndexOf sv)) (\<lambda>targetAssets.
               orThrow (findFirst targetAssets) (\<lambda>target.
               case target of
                 None \<Rightarrow> Inr (Failure [''Invalid target: '' @ theAssetId (the (offerAsset offer))])
               | Some a \<Rightarrow> checkContractPolicy sv agent d (offerId offer) a)))))))"

text \<open>\<open>validate\<close> of a counter-offer, which the last offer plays no role in.\<close>

definition validateNextOffer ::
  "('d, 'addr) contract_services \<Rightarrow> claimToken \<Rightarrow> policy contractOffer \<Rightarrow> policy contractOffer \<Rightarrow>
   java_exn + policy contractOffer option result" where
  "validateNextOffer sv token offer latestOffer =
     (if isMandatoryAttributeMissing offer then Inr (Failure [''Mandatory attributes are missing.''])
      else if length (parseContractId (offerId offer)) \<noteq> 2 then Inr (Failure [''Invalid id: '' @ offerId offer])
      else orThrow (createFor sv token) (\<lambda>agent.
           orThrow (evaluateFor sv NEGOTIATION_SCOPE (offerPolicy offer) agent) (\<lambda>result.
           Inr (if failed result then Failure [''Policy not fulfilled for ContractOffer '' @ offerId offer]
                else Success None))))"

definition isStarted :: "int \<Rightarrow> policy contractAgreement \<Rightarrow> bool" where
  "isStarted millis a \<longleftrightarrow> i64 (contractStartDate a * 1000) \<le> millis"

definition isExpired :: "int \<Rightarrow> policy contractAgreement \<Rightarrow> bool" where
  "isExpired millis a \<longleftrightarrow> i64 (contractEndDate a * 1000) < millis"

text \<open>\<open>validate\<close> of an agreement that is to be used.\<close>

definition validateContract ::
  "('d, 'addr) contract_services \<Rightarrow> int \<Rightarrow> claimToken \<Rightarrow> policy contractAgreement \<Rightarrow> java_exn + bool" where
  "validateContract sv millis token agreement =
     (let contractIdTokens = parseContractId (agreementId agreement)
      in if length contractIdTokens \<noteq> 2 then Inr False
      else if \<not> isStarted millis agreement \<or> isExpired millis agreement then Inr False
      else orThrow (createFor sv token) (\<lambda>agent.
           orThrow (definitionFor sv agent (contractIdTokens ! 0)) (\<lambda>found.
           case found of
             None \<Rightarrow> Inr False
           | Some d \<Rightarrow>
               orThrow (evaluateFor sv NEGOTIATION_SCOPE (agreementPolicy agreement) agent) (\<lambda>result.
                 Inr (\<not> failed result)))))"

text \<open>\<open>validate\<close> of an agreement that the provider proposes.\<close>

definition validateConfirmed ::
  "('d, 'addr) contract_services \<Rightarrow> claimToken \<Rightarrow> policy contractAgreement \<Rightarrow> policy contractOffer \<Rightarrow>
   java_exn + bool" where
  "validateConfirmed sv token agreement latestOffer =
     (if length (parseContractId (agreementId agreement)) \<noteq> 2 then Inr False
      else orThrow (createFor sv token) (\<lambda>agent.
           orThrow (evaluateFor sv NEGOTIATION_SCOPE (agreementPolicy agreement) agent) (\<lambda>result.
             Inr (\<not> failed result))))"

section \<open>What validation means\<close>

text \<open>Definitions and policies are stored under their identifiers.\<close>

definition services_ok :: "('d, 'addr) contract_services \<Rightarrow> bool" where
  "services_ok sv \<longleftrightarrow>
     assets_ok (assetIndexOf sv) \<and> keys_distinct (definitionStore sv) \<and>
     (\<forall>p \<in> set (definitionStore sv). definitionId (snd p) = fst p) \<and>
     (\<forall>p \<in> set (policyStore sv). policyUid (snd p) = fst p)"

lemma set_put_sub: "set (put k v m) \<subseteq> insert (k, v) (set m)"
  by (induction k v m rule: put.induct) auto

lemma services_ok_kept:
  assumes "services_ok sv"
  shows "services_ok (saveDefinition d sv)" "services_ok (snd (deleteDefinition k sv))"
    "services_ok (savePolicy p sv)" "services_ok (snd (deletePolicy k sv))"
    "services_ok (sv\<lparr>assetIndexOf := acceptAsset a addr (assetIndexOf sv)\<rparr>)"
    "services_ok (sv\<lparr>assetIndexOf := snd (deleteAsset k (assetIndexOf sv))\<rparr>)"
  using assms set_put_sub [of "policyUid p" p "policyStore sv"]
  by (auto simp: services_ok_def saveDefinition_def deleteDefinition_def savePolicy_def deletePolicy_def
      set_put set_remove_key accept_delete_ok)

lemma definitionFor_Some:
  "definitionFor sv agent k = Inr (Some d) \<longleftrightarrow>
     map_of (definitionStore sv) k = Some d \<and> evaluateAccessPolicy sv agent d = Inr True"
  by (auto simp: definitionFor_def orThrow_Inr split: option.splits)

lemma not_failed: "\<not> failed r \<longleftrightarrow> (\<exists>q. r = Success q)"
  by (cases r) simp_all

lemma access_granted:
  "evaluateAccessPolicy sv agent d = Inr True \<longleftrightarrow>
     (\<exists>p q. map_of (policyStore sv) (accessPolicyId d) = Some p \<and>
        evaluateFor sv CATALOGING_SCOPE (definedPolicy p) agent = Inr (Success q))"
  by (auto simp: not_failed evaluateAccessPolicy_def orThrow_Inr split: option.splits)

lemma contract_policy_fulfilled:
  assumes "checkContractPolicy sv agent d ident t = Inr (Success v)"
  shows "\<exists>p q. map_of (policyStore sv) (contractPolicyId d) = Some p \<and>
        evaluateFor sv NEGOTIATION_SCOPE (definedPolicy p) agent = Inr (Success q) \<and>
        offerPolicy v = definedPolicy p \<and> offerAsset v = Some t \<and> offerId v = ident"
  using assms by (auto simp: not_failed checkContractPolicy_def orThrow_Inr split: option.splits if_splits)

lemma createCriteria_eq:
  "createCriteria offer d = Inr cs \<longleftrightarrow>
     (\<exists>a. offerAsset offer = Some a \<and> cs = getCriteria (selectorExpression d) @ [idCriterion (theAssetId a)])"
  by (auto simp: createCriteria_def idCriterion_def split: option.splits)

text \<open>
  (C9) A first offer is validated only if its identifier names a stored contract definition whose
  access policy the agent fulfils, its asset is stored and satisfies the selector of the definition,
  and the agent fulfils the contract policy; the validated offer is for the stored asset, under the
  contract policy.
\<close>

theorem validated_offer_sound:
  assumes "services_ok sv" and "validateInitialOffer sv token offer = Inr (Success v)"
  shows "\<exists>agent k u d accessPolicy q contractPolicy q' a t.
    createFor sv token = Inr agent \<and> parseContractId (offerId offer) = [k, u] \<and>
    map_of (definitionStore sv) k = Some d \<and>
    map_of (policyStore sv) (accessPolicyId d) = Some accessPolicy \<and>
    evaluateFor sv CATALOGING_SCOPE (definedPolicy accessPolicy) agent = Inr (Success q) \<and>
    map_of (policyStore sv) (contractPolicyId d) = Some contractPolicy \<and>
    evaluateFor sv NEGOTIATION_SCOPE (definedPolicy contractPolicy) agent = Inr (Success q') \<and>
    offerAsset offer = Some a \<and> findAssetById (theAssetId a) (assetIndexOf sv) = Some t \<and>
    selectedBy (getCriteria (selectorExpression d)) t \<and>
    offerAsset v = Some t \<and> offerPolicy v = definedPolicy contractPolicy"
proof -
  obtain k u where ids: "parseContractId (offerId offer) = [k, u]"
    using assms(2) by (auto simp: validateInitialOffer_def Let_def length_Suc_conv numeral_2_eq_2 split: if_splits)
  have "\<exists>agent d cs q st t. createFor sv token = Inr agent \<and> definitionFor sv agent k = Inr (Some d) \<and>
      createCriteria offer d = Inr cs \<and> filterExpression q = cs \<and> queryAssets q (assetIndexOf sv) = Inr st \<and>
      findFirst st = Inr (Some t) \<and> checkContractPolicy sv agent d (offerId offer) t = Inr (Success v)"
    using assms(2) ids
    by (auto simp: validateInitialOffer_def orThrow_Inr buildQuery_def split: if_splits option.splits) force
  then obtain agent d cs q st t where agent: "createFor sv token = Inr agent"
    and d: "definitionFor sv agent k = Inr (Some d)" and cs: "createCriteria offer d = Inr cs" "filterExpression q = cs"
    and st: "queryAssets q (assetIndexOf sv) = Inr st" "findFirst st = Inr (Some t)"
    and v: "checkContractPolicy sv agent d (offerId offer) t = Inr (Success v)"
    by blast
  from cs obtain a where a: "offerAsset offer = Some a"
    "filterExpression q = getCriteria (selectorExpression d) @ [idCriterion (theAssetId a)]"
    by (auto simp: createCriteria_eq)
  from found_selected [OF a(2) st] have "t \<in> snd ` set (cache (assetIndexOf sv))" "theAssetId t = theAssetId a"
    "selectedBy (getCriteria (selectorExpression d)) t" by auto
  moreover from this(1,2) assms(1) have "findAssetById (theAssetId a) (assetIndexOf sv) = Some t"
    by (auto simp: services_ok_def assets_ok_find) (auto simp: assets_ok_def keys_distinct_def map_of_eq_Some_iff)
  ultimately show ?thesis
    using agent ids a(1) d contract_policy_fulfilled [OF v] by (auto simp: definitionFor_Some access_granted)
qed

lemma offer_of_catalog:
  assumes "queryContractOffers sv uuids token r = Inr offers" "o' \<in> set offers"
  obtains agent d p st as a where "createFor sv token = Inr agent"
    "d \<in> snd ` set (definitionStore sv)" "evaluateAccessPolicy sv agent d = Inr True"
    "queryAssetsBySelector (selectorExpression d) (assetIndexOf sv) = Inr st" "readAll st = Inr as" "a \<in> set as"
    "map_of (policyStore sv) (contractPolicyId d) = Some p" "o' = createContractOffer uuids d (definedPolicy p) a"
proof -
  from assms(1) have "\<exists>agent (q :: querySpec). createFor sv token = Inr agent \<and>
      flatMapOrThrow (evaluateAccessPolicy sv agent) (offersOf sv uuids)
        (take (nat (limit q)) (drop (nat (offset q)) (map snd (definitionStore sv)))) = Inr offers"
    by (auto simp: queryContractOffers_def definitionsFor_def orThrow_Inr)
  then obtain agent and q :: querySpec where agent: "createFor sv token = Inr agent"
    and fm: "flatMapOrThrow (evaluateAccessPolicy sv agent) (offersOf sv uuids)
        (take (nat (limit q)) (drop (nat (offset q)) (map snd (definitionStore sv)))) = Inr offers"
    by blast
  from flatMapOrThrow_mem [OF fm assms(2)] obtain d os where
    "d \<in> set (map snd (definitionStore sv))" and granted: "evaluateAccessPolicy sv agent d = Inr True"
    and os: "offersOf sv uuids d = Inr os" "o' \<in> set os"
    by (metis in_set_dropD in_set_takeD)
  from this(1) have d: "d \<in> snd ` set (definitionStore sv)" by simp
  from os obtain st p as where st: "queryAssetsBySelector (selectorExpression d) (assetIndexOf sv) = Inr st"
    "readAll st = Inr as" and p: "map_of (policyStore sv) (contractPolicyId d) = Some p"
    and "o' \<in> createContractOffer uuids d (definedPolicy p) ` set as"
    by (auto simp: offersOf_def orThrow_Inr split: option.splits)
  then obtain a where a: "a \<in> set as" "o' = createContractOffer uuids d (definedPolicy p) a" by blast
  show thesis by (rule that [OF agent d granted st a(1) p a(2)])
qed

lemma queryAssetsBySelector_query:
  "queryAssetsBySelector x ix = Inr st \<Longrightarrow>
     queryAssets (noQuery\<lparr>filterExpression := getCriteria x\<rparr>) ix = Inr st"
  by (cases x) (auto simp: queryAssetsBySelector_def noQuery_def buildQuery_def)

text \<open>An offer of the catalog, sent back as it is; and its asset need only have the same identifier.\<close>

lemma catalog_offer_valid:
  assumes ok: "services_ok sv" and "queryContractOffers sv uuids token r = Inr offers" "offer \<in> set offers"
    and colon: "\<forall>k \<in> fst ` set (definitionStore sv). CHR '':'' \<notin> set k" "\<And>k a. CHR '':'' \<notin> set (uuids k a) \<and> uuids k a \<noteq> []"
  shows "\<exists>agent d p a. createFor sv token = Inr agent \<and> offerAsset offer = Some a \<and>
    map_of (policyStore sv) (contractPolicyId d) = Some p \<and>
    offerPolicy offer = withTarget (theAssetId a) (definedPolicy p) \<and>
    validateInitialOffer sv token offer = checkContractPolicy sv agent d (offerId offer) a"
proof -
  obtain agent d p st as a where agent: "createFor sv token = Inr agent"
    and d: "d \<in> snd ` set (definitionStore sv)" "evaluateAccessPolicy sv agent d = Inr True"
    and st: "queryAssetsBySelector (selectorExpression d) (assetIndexOf sv) = Inr st" "readAll st = Inr as" "a \<in> set as"
    and p: "map_of (policyStore sv) (contractPolicyId d) = Some p"
    and offer: "offer = createContractOffer uuids d (definedPolicy p) a"
    using offer_of_catalog [OF assms(2,3)] .
  from d(1) ok have stored: "map_of (definitionStore sv) (definitionId d) = Some d"
    by (auto simp: services_ok_def keys_distinct_def map_of_eq_Some_iff)
  then have ids: "parseContractId (offerId offer) = [definitionId d, uuids (definitionId d) (theAssetId a)]"
    using colon(2) bspec [OF colon(1) image_eqI [OF _ map_of_SomeD [OF stored]]]
    by (simp add: offer createContractOffer_def parse_created split_parts_single)
  let ?q = "noQuery\<lparr>filterExpression := getCriteria (selectorExpression d) @ [idCriterion (theAssetId a)]\<rparr>"
  obtain st' where "queryAssets ?q (assetIndexOf sv) = Inr st'" "findFirst st' = Inr (Some a)"
    using found_again [OF _ queryAssetsBySelector_query [OF st(1)] st(2,3), of ?q] ok
    by (auto simp: services_ok_def noQuery_def)
  moreover have "buildQuery ?q = Inr ?q" by (simp add: buildQuery_def noQuery_def)
  moreover have "createCriteria offer d = Inr (getCriteria (selectorExpression d) @ [idCriterion (theAssetId a)])"
    by (auto simp: createCriteria_eq offer createContractOffer_def)
  moreover have "definitionFor sv agent (definitionId d) = Inr (Some d)"
    by (simp add: definitionFor_Some stored d(2))
  moreover have "\<not> isMandatoryAttributeMissing offer"
    by (simp add: isMandatoryAttributeMissing_def offer createContractOffer_def)
  ultimately have "validateInitialOffer sv token offer = checkContractPolicy sv agent d (offerId offer) a"
    by (simp add: validateInitialOffer_def ids agent)
  with agent p show ?thesis by (auto simp: offer createContractOffer_def)
qed

lemma validateInitialOffer_asset:
  assumes "offerAsset offer = Some a" "theAssetId b = theAssetId a"
  shows "validateInitialOffer sv token (offer\<lparr>offerAsset := Some b\<rparr>) = validateInitialOffer sv token offer"
  using assms by (simp add: validateInitialOffer_def createCriteria_def isMandatoryAttributeMissing_def Let_def)

text \<open>
  (C11) Every offer of the catalog is valid for the agent it was made for: sent back as it is, its
  identifier leads to the definition it was made from and its asset is found again, so that only the
  contract policy decides. What validation returns is for the same asset; its policy lacks the target.
\<close>

theorem catalog_offers_validate:
  assumes ok: "services_ok sv" and "queryContractOffers sv uuids token r = Inr offers" "offer \<in> set offers"
    and colon: "\<forall>k \<in> fst ` set (definitionStore sv). CHR '':'' \<notin> set k" "\<And>k a. CHR '':'' \<notin> set (uuids k a) \<and> uuids k a \<noteq> []"
  shows "\<exists>agent d p a. createFor sv token = Inr agent \<and> offerAsset offer = Some a \<and>
    map_of (policyStore sv) (contractPolicyId d) = Some p \<and>
    offerPolicy offer = withTarget (theAssetId a) (definedPolicy p) \<and>
    validateInitialOffer sv token offer = checkContractPolicy sv agent d (offerId offer) a"
  by (rule catalog_offer_valid [OF assms])

section \<open>An example\<close>

text \<open>Two assets, of which a definition selects one, under the policy of the evaluator's example.\<close>

definition example_services :: "(unit, unit) contract_services" where
  "example_services =
     \<lparr>policyEngineOf = registerFunction ''contract'' PermissionClass ''region'' region_function
        (empty_engine (bind_rule ''region'' ''contract'' (bind_rule ''USE'' ''contract'' []))),
      describeRule = (\<lambda>_. ''rule''), noContextData = (), agentExtensions = [],
      assetIndexOf =
        acceptAsset \<lparr>theAssetId = ''a2'', assetProperties = [(''type'', ''csv'')]\<rparr> ()
          (acceptAsset \<lparr>theAssetId = ''a1'', assetProperties = [(''type'', ''json'')]\<rparr> ()
            \<lparr>cache = [], dataAddresses = []\<rparr>),
      definitionStore =
        [(''d1'', \<lparr>definitionId = ''d1'', accessPolicyId = ''p1'', contractPolicyId = ''p1'',
           selectorExpression = Selector [\<lparr>operandLeft = ''type'', criterionOperator = ''='',
             operandRight = StringOperand ''csv''\<rparr>]\<rparr>)],
      policyStore = [(''p1'', \<lparr>policyUid = ''p1'', definedPolicy = example_policy\<rparr>)]\<rparr>"

definition example_token :: claimToken where
  "example_token = \<lparr>tokenClaims = []\<rparr>"

definition example_offer :: "policy contractOffer" where
  "example_offer = createContractOffer (\<lambda>_ _. ''u1'') (snd (hd (definitionStore example_services))) example_policy
     \<lparr>theAssetId = ''a2'', assetProperties = [(''type'', ''csv'')]\<rparr>"

lemma example_services_ok: "services_ok example_services"
  by (simp add: services_ok_def example_services_def assets_ok_def acceptAsset_def keys_distinct_def)

lemma example_catalog:
  "queryContractOffers example_services (\<lambda>_ _. ''u1'') example_token \<lparr>fromIndex = 0, toIndex = 10\<rparr> = Inr [example_offer]"
  by code_simp

lemma example_policy_fulfilled:
  "evaluateFor example_services NEGOTIATION_SCOPE example_policy \<lparr>agentClaims = [], agentAttributes = []\<rparr> =
     Inr (Success example_policy)"
  by code_simp

lemma example_offer_valid:
  "validateInitialOffer example_services example_token example_offer =
     Inr (Success (example_offer\<lparr>offerPolicy := example_policy, offerProvider := None, offerConsumer := None\<rparr>))"
  by code_simp

theorem validated_offer_sound_witness:
  "\<exists>agent d accessPolicy q t. createFor example_services example_token = Inr agent \<and>
     map_of (definitionStore example_services) ''d1'' = Some d \<and>
     map_of (policyStore example_services) (accessPolicyId d) = Some accessPolicy \<and>
     evaluateFor example_services CATALOGING_SCOPE (definedPolicy accessPolicy) agent = Inr (Success q) \<and>
     findAssetById ''a2'' (assetIndexOf example_services) = Some t \<and> selectedBy (getCriteria (selectorExpression d)) t"
proof -
  have "parseContractId (offerId example_offer) = [''d1'', ''u1'']" "map_option theAssetId (offerAsset example_offer) = Some ''a2''"
    by code_simp+
  with validated_offer_sound [OF example_services_ok example_offer_valid] show ?thesis by auto
qed

theorem catalog_offers_validate_witness:
  "\<exists>agent d a. createFor example_services example_token = Inr agent \<and> offerAsset example_offer = Some a \<and>
     validateInitialOffer example_services example_token example_offer =
       checkContractPolicy example_services agent d (offerId example_offer) a"
proof -
  have "\<forall>k \<in> fst ` set (definitionStore example_services). CHR '':'' \<notin> set k"
    by (simp add: example_services_def)
  from catalog_offers_validate [OF example_services_ok example_catalog _ this] show ?thesis by auto
qed

end
