(* ===== verification/Catalog_Negotiation.thy ===== *)
theory Catalog_Negotiation
  imports Negotiation_Liveness Contract_Services
begin

text \<open>
  The negotiation managers with the validation service of \<open>core/contract\<close> behind them: what the
  service decides of the offers and agreements of an exchange between two connectors. And
  \<open>PolicyArchiveImpl\<close>, by which a transfer finds the policy of its contract.
\<close>

text \<open>A manager's validation service, where it does not throw.\<close>

definition uses_services ::
  "('d, 'addr) contract_services \<Rightarrow> (claimToken, policy) cnm_env \<Rightarrow> bool" where
  "uses_services sv env \<longleftrightarrow>
     (\<forall>token offer r. validateInitialOffer sv token offer = Inr r \<longrightarrow>
        validateOffer env token offer = map_result (\<lambda>_. ()) r) \<and>
     (\<forall>token offer latest r. validateNextOffer sv token offer latest = Inr r \<longrightarrow>
        validateCounterOffer env token offer latest = map_result (\<lambda>_. ()) r) \<and>
     (\<forall>token agreement latest b. validateConfirmed sv token agreement latest = Inr b \<longrightarrow>
        validateAgreement env token agreement latest = b)"

definition findPolicyForContract :: "string option \<Rightarrow> ('pol cnm, 'pol option) op" where
  "findPolicyForContract contractId =
     (case contractId of
        None \<Rightarrow> ret None
      | Some ident \<Rightarrow>
          andThen (findContractAgreement ident) (\<lambda>found. ret (map_option agreementPolicy found)))"

text \<open>The policy of an offer plays no role in its validation.\<close>

lemma validate_other_policy:
  "validateInitialOffer sv token (offer\<lparr>offerPolicy := p\<rparr>) = validateInitialOffer sv token offer"
proof -
  have "createCriteria (offer\<lparr>offerPolicy := p\<rparr>) = createCriteria offer"
    by (rule ext) (simp add: createCriteria_def)
  moreover have "isMandatoryAttributeMissing (offer\<lparr>offerPolicy := p\<rparr>) = isMandatoryAttributeMissing offer"
    by (simp add: isMandatoryAttributeMissing_def)
  ultimately show ?thesis by (simp add: validateInitialOffer_def cong: if_cong option.case_cong)
qed

lemma validated_offer_asset:
  assumes "validateInitialOffer sv token offer = Inr (Success v)"
  obtains k u a where "parseContractId (offerId offer) = [k, u]" "offerAsset offer = Some a"
proof -
  have "length (parseContractId (offerId offer)) = 2"
    using assms by (auto simp: validateInitialOffer_def Let_def split: if_splits)
  then obtain k u where "parseContractId (offerId offer) = [k, u]"
    by (auto simp: length_Suc_conv numeral_2_eq_2)
  moreover have "offerAsset offer \<noteq> None"
    using assms by (auto simp: validateInitialOffer_def Let_def orThrow_Inr createCriteria_def split: if_splits option.splits)
  ultimately show thesis using that by blast
qed

text \<open>
  (C12) The provider agrees to any policy. Let it find an offer valid, that is let the agent fulfil the
  contract policy of the offer's definition, and let the consumer send the offer with another policy
  \<open>p\<close> that it would accept itself. Then the negotiation ends \<open>CONFIRMED\<close> on both sides with an
  agreement on the offered asset under \<open>p\<close>, and the provider's policy archive answers \<open>p\<close>
  for that contract, whatever the provider's own policy for the asset is.
\<close>

theorem any_policy_agreed:
  assumes env: "uses_services psv penv" "uses_services csv cenv"
    "\<And>m. cnDispatch cenv m = Inr ()" "\<And>m. cnDispatch penv m = Inr ()" "0 < b"
    and valid: "validateInitialOffer psv token offer = Inr (Success v)"
    and accepted: "createFor csv token = Inr agent" "evaluateFor csv NEGOTIATION_SCOPE p agent = Inr (Success q)"
    and request: "requestOffer r = offer\<lparr>offerPolicy := p\<rparr>" "CHR '':'' \<notin> set (uuids pk)" "uuids pk \<noteq> []"
    and run: "negotiate cenv penv t uuids b token ck pk r k = (c, s)"
  shows "\<exists>a. outcome c ck = Some (cn_code CN_CONFIRMED, Some a) \<and> outcome s pk = Some (cn_code CN_CONFIRMED, Some a) \<and>
    agreementPolicy a = p \<and> Some (agreementAssetId a) = map_option theAssetId (offerAsset offer) \<and>
    findPolicyForContract (Some (agreementId a)) s = (Inr (Some p), s)"
proof -
  obtain d u x where offer: "parseContractId (offerId offer) = [d, u]" "offerAsset offer = Some x"
    using validated_offer_asset [OF valid] .
  let ?a = "agreed (t ! 3) (uuids pk) (requestOffer r) x"
  have "validateInitialOffer psv token (requestOffer r) = Inr (Success v)"
    using valid by (simp add: request(1) validate_other_policy)
  then have ok: "validateOffer penv token (requestOffer r) = Success ()"
    using env(1) unfolding uses_services_def by fastforce
  have "parseContractId (agreementId ?a) = [d, uuids pk]"
    using offer(1) parse_free [of d "offerId offer"] request(2,3)
    by (simp add: agreed_def request(1) parse_created split_parts_single)
  then have "validateConfirmed csv token ?a (requestOffer r) = Inr True"
    by (simp add: validateConfirmed_def accepted agreed_def request(1))
  then have "validateAgreement cenv token ?a (requestOffer r)"
    using env(2) unfolding uses_services_def by blast
  from agreement_reached [OF env(3-5) ok this _ _ run] obtain ms ms' cor where
    c: "cn_alone (cn_at CN_CONSUMER None (requestOffer r) ck CN_CONFIRMED (Some ?a)) ck False [] ms c" and
    s: "cn_alone (cn_at CN_PROVIDER cor (requestOffer r) pk CN_CONFIRMED (Some ?a)) pk False [] ms' s"
    using offer by (auto simp: request(1))
  have "findContractAgreement (agreementId ?a) s = (Inr (Some ?a), s)"
    using s by (auto simp: findContractAgreement_def findAll_entities_def cn_alone_def cn_at_def map_filter_simps)
  with c s offer(2) show ?thesis
    by (auto simp: findPolicyForContract_def agreed_def request(1) andThen_def dest!: cn_alone_outcome)
qed

section \<open>An example\<close>

text \<open>Both connectors use the example services; the consumer asks for use without any constraint.\<close>

definition free_policy :: policy where
  "free_policy = example_policy\<lparr>permissions := [], policyTarget := Some ''a2''\<rparr>"

definition example_env :: "(claimToken, policy) cnm_env" where
  "example_env =
     \<lparr>validateOffer = (\<lambda>token offer.
        case validateInitialOffer example_services token offer of Inl _ \<Rightarrow> Failure [] | Inr r \<Rightarrow> map_result (\<lambda>_. ()) r),
      validateCounterOffer = (\<lambda>token offer latest.
        case validateNextOffer example_services token offer latest of Inl _ \<Rightarrow> Failure [] | Inr r \<Rightarrow> map_result (\<lambda>_. ()) r),
      validateAgreement = (\<lambda>token agreement latest.
        case validateConfirmed example_services token agreement latest of Inl _ \<Rightarrow> False | Inr b \<Rightarrow> b),
      cnDispatch = (\<lambda>_. Inr ()), cnRetryBaseDelay = 100, cnRetryLimit = 7, cnTraceContext = []\<rparr>"

definition free_request :: "policy contractOfferRequest" where
  "free_request = \<lparr>offerRequestType = OFFER_INITIAL, requestProtocol = ''ids-multipart'',
     requestConnectorId = ''provider'', requestConnectorAddress = ''http://provider'',
     requestCorrelationId = None, requestOffer = example_offer\<lparr>offerPolicy := free_policy\<rparr>\<rparr>"

lemma example_env_services: "uses_services example_services example_env"
  by (simp add: uses_services_def example_env_def)

lemma free_policy_fulfilled:
  "createFor example_services example_token = Inr \<lparr>agentClaims = [], agentAttributes = []\<rparr>"
  "evaluateFor example_services NEGOTIATION_SCOPE free_policy \<lparr>agentClaims = [], agentAttributes = []\<rparr> =
     Inr (Success free_policy)"
  by code_simp+

theorem any_policy_agreed_witness:
  "free_policy \<noteq> example_policy \<and>
   (\<exists>a. outcome (snd (negotiate example_env example_env [1, 2, 3, 4, 5] (\<lambda>_. ''u2'') 5 example_token ''c1'' ''p1''
       free_request 10)) ''p1'' = Some (cn_code CN_CONFIRMED, Some a) \<and> agreementPolicy a = free_policy)"
proof -
  let ?r = "negotiate example_env example_env [1, 2, 3, 4, 5] (\<lambda>_. ''u2'') 5 example_token ''c1'' ''p1'' free_request 10"
  have r: "?r = (fst ?r, snd ?r)" by simp
  have env: "\<And>m. cnDispatch example_env m = Inr ()" by (simp add: example_env_def)
  have request: "requestOffer free_request = example_offer\<lparr>offerPolicy := free_policy\<rparr>"
    by (simp add: free_request_def)
  have "permissions free_policy \<noteq> permissions example_policy"
    by (simp add: free_policy_def example_policy_def)
  moreover note any_policy_agreed [OF example_env_services example_env_services env env _ example_offer_valid
      free_policy_fulfilled request _ _ r]
  ultimately show ?thesis by auto
qed

text \<open>The same exchange, with the validation services of both connectors behind their managers.\<close>

lemma example_agreement_accepted:
  assumes "agreementPolicy a = free_policy" and "agreementId a = ''d1:u2''"
  shows "validateAgreement example_env example_token a offer"
proof -
  have "parseContractId ''d1:u2'' = [''d1'', ''u2'']" by code_simp
  then have "validateConfirmed example_services example_token a offer = Inr True"
    using assms by (simp add: validateConfirmed_def free_policy_fulfilled)
  then show ?thesis by (simp add: example_env_def)
qed

theorem negotiation_reaches_agreement_witness:
  "\<exists>a. outcome (fst (negotiate example_env example_env [1, 2, 3, 4, 5] (\<lambda>_. ''u2'') 5 example_token ''c1'' ''p1''
       free_request 10)) ''c1'' = Some (cn_code CN_CONFIRMED, Some a) \<and>
     outcome (snd (negotiate example_env example_env [1, 2, 3, 4, 5] (\<lambda>_. ''u2'') 5 example_token ''c1'' ''p1''
       free_request 10)) ''p1'' = Some (cn_code CN_CONFIRMED, Some a) \<and> agreementId a = ''d1:u2''"
proof -
  let ?r = "negotiate example_env example_env [1, 2, 3, 4, 5] (\<lambda>_. ''u2'') 5 example_token ''c1'' ''p1'' free_request 10"
  have r: "?r = (fst ?r, snd ?r)" by simp
  have off: "requestOffer free_request = example_offer\<lparr>offerPolicy := free_policy\<rparr>"
    by (simp add: free_request_def)
  have sent: "\<And>m. cnDispatch example_env m = Inr ()" by (simp add: example_env_def)
  have ids: "offerId (requestOffer free_request) = offerId example_offer" by (simp add: off)
  have parsed: "length (parseContractId (offerId example_offer)) = 2"
    "createContractId ''u2'' (parseContractId (offerId example_offer) ! 0) = ''d1:u2''"
    by code_simp+
  have "validateInitialOffer example_services example_token (requestOffer free_request) =
      validateInitialOffer example_services example_token example_offer"
    by (simp add: off validate_other_policy)
  then have valid: "validateOffer example_env example_token (requestOffer free_request) = Success ()"
    by (simp add: example_env_def example_offer_valid)
  obtain x where x: "offerAsset (requestOffer free_request) = Some x"
    by (auto simp: off example_offer_def createContractOffer_def)
  have "validateAgreement example_env example_token a (requestOffer free_request)"
    if "agreementPolicy a = offerPolicy (requestOffer free_request)"
      "agreementId a = createContractId ''u2'' (parseContractId (offerId (requestOffer free_request)) ! 0)" for a
    using that parsed(2) by (intro example_agreement_accepted) (simp_all add: off)
  then show ?thesis
    using negotiation_reaches_agreement [OF sent sent _ valid _ _ x r] parsed by (auto simp: ids)
qed

end
