(* ===== verification/Topological_Sort.thy ===== *)
theory Topological_Sort
  imports EDC_Prelude
begin

text \<open>
  The sort by dependencies of the boot sequence, \<open>core/boot/.../boot/util/TopologicalSort.java\<close>: a depth
  first search that appends an item after its dependencies. The map of dependencies is a function, a
  set of dependencies a list without duplicates. A dependency that is not in the list to be sorted,
  which the comparator cannot order and the dependency graph never adds, is left out of the model. The
  recursion takes a bound on its depth; \<open>None\<close> is a deeper one, and the length of the list is enough.
\<close>

section \<open>The sort\<close>

type_synonym 'a dependencies = "'a \<Rightarrow> 'a list"

definition addDependency :: "'a \<Rightarrow> 'a \<Rightarrow> 'a dependencies \<Rightarrow> 'a dependencies" where
  "addDependency dependent dependency deps = deps(dependent := List.insert dependency (deps dependent))"

definition cyclicDependency :: "('a \<Rightarrow> string) \<Rightarrow> 'a \<Rightarrow> java_exn" where
  "cyclicDependency shown item = EdcException (''Cyclic extension dependency for ['' @ shown item @ '']'')"

text \<open>\<open>InitialOrderComparator\<close>, for items of the list.\<close>

definition initialIndex :: "'a list \<Rightarrow> 'a \<Rightarrow> nat" where
  "initialIndex xs x = (case map_of (rev (zip xs [0..<length xs])) x of None \<Rightarrow> 0 | Some i \<Rightarrow> i)"

text \<open>What has been visited, and what has been sorted of it.\<close>

type_synonym 'a sortState = "'a list \<times> 'a list"

primrec visitEach ::
  "('a \<Rightarrow> 'a sortState \<Rightarrow> (java_exn + 'a sortState) option) \<Rightarrow> 'a list \<Rightarrow> 'a sortState \<Rightarrow>
   (java_exn + 'a sortState) option" where
  "visitEach f [] st = Some (Inr st)"
| "visitEach f (d # ds) st = (case f d st of Some (Inr st') \<Rightarrow> visitEach f ds st' | r \<Rightarrow> r)"

primrec visit ::
  "nat \<Rightarrow> ('a \<Rightarrow> string) \<Rightarrow> 'a dependencies \<Rightarrow> 'a list \<Rightarrow> 'a \<Rightarrow> 'a sortState \<Rightarrow>
   (java_exn + 'a sortState) option" where
  "visit 0 shown deps initial item st = None"
| "visit (Suc n) shown deps initial item st =
     (if item \<notin> set (fst st) then
        (case visitEach (visit n shown deps initial) (sort_key (initialIndex initial) (deps item))
                (item # fst st, snd st) of
           None \<Rightarrow> None
         | Some (Inl e) \<Rightarrow> Some (Inl (cyclicDependency shown item))
         | Some (Inr (visited, finished)) \<Rightarrow> Some (Inr (visited, finished @ [item])))
      else if item \<notin> set (snd st) then Some (Inl (cyclicDependency shown item))
      else Some (Inr st))"

definition topologicalSort ::
  "('a \<Rightarrow> string) \<Rightarrow> 'a dependencies \<Rightarrow> 'a list \<Rightarrow> (java_exn + 'a list) option" where
  "topologicalSort shown deps xs =
     map_option (map_sum id snd) (visitEach (visit (Suc (length xs)) shown deps xs) xs ([], []))"

section \<open>Orders\<close>

text \<open>Each item of a list comes after its dependencies.\<close>

definition ordered_by :: "'a dependencies \<Rightarrow> 'a list \<Rightarrow> bool" where
  "ordered_by deps xs \<longleftrightarrow> (\<forall>ys x zs. xs = ys @ x # zs \<longrightarrow> set (deps x) \<subseteq> set ys)"

definition edges :: "'a dependencies \<Rightarrow> ('a \<times> 'a) set" where
  "edges deps = {(x, d). d \<in> set (deps x)}"

lemma ordered_by_Nil [simp]: "ordered_by deps []"
  by (simp add: ordered_by_def)

lemma ordered_by_snoc: "ordered_by deps (xs @ [x]) \<longleftrightarrow> ordered_by deps xs \<and> set (deps x) \<subseteq> set xs"
proof
  assume o: "ordered_by deps (xs @ [x])"
  have "set (deps y) \<subseteq> set ys" if "xs = ys @ y # zs" for ys y zs
    using o that unfolding ordered_by_def by force
  then show "ordered_by deps xs \<and> set (deps x) \<subseteq> set xs" using o unfolding ordered_by_def by fastforce
next
  assume o: "ordered_by deps xs \<and> set (deps x) \<subseteq> set xs"
  have "set (deps y) \<subseteq> set ys" if split: "xs @ [x] = ys @ y # zs" for ys y zs
  proof (cases zs rule: rev_cases)
    case Nil
    with split o show ?thesis by simp
  next
    case (snoc ws w)
    with split have "xs = ys @ y # ws" by simp
    with o show ?thesis unfolding ordered_by_def by blast
  qed
  then show "ordered_by deps (xs @ [x])" unfolding ordered_by_def by blast
qed

lemma takeWhile_first: "xs = ys @ a # zs \<Longrightarrow> a \<notin> set ys \<Longrightarrow> takeWhile (\<lambda>z. z \<noteq> a) xs = ys"
  by (induction ys arbitrary: xs) auto

text \<open>An order of the dependencies is a proof that they have no cycle.\<close>

lemma ordered_by_acyclic:
  assumes o: "ordered_by deps xs" and "(x, y) \<in> (edges deps)\<^sup>+" "x \<in> set xs"
  shows "y \<in> set xs \<and> length (takeWhile (\<lambda>z. z \<noteq> y) xs) < length (takeWhile (\<lambda>z. z \<noteq> x) xs)"
proof -
  have step: "d \<in> set xs \<and> length (takeWhile (\<lambda>z. z \<noteq> d) xs) < length (takeWhile (\<lambda>z. z \<noteq> a) xs)"
    if "(a, d) \<in> edges deps" "a \<in> set xs" for a d
  proof -
    from that(2) obtain ys zs where s: "xs = ys @ a # zs" "a \<notin> set ys" by (metis split_list_first)
    with o that(1) have d: "d \<in> set ys" unfolding ordered_by_def edges_def by blast
    then obtain us vs where d': "ys = us @ d # vs" "d \<notin> set us" by (metis split_list_first)
    have "takeWhile (\<lambda>z. z \<noteq> a) xs = ys" "takeWhile (\<lambda>z. z \<noteq> d) xs = us"
      using s d' takeWhile_first [of xs ys a zs] takeWhile_first [of xs us d "vs @ a # zs"] by simp_all
    then show ?thesis using d s d' by simp
  qed
  show ?thesis using assms(2,3) by induction (use step in fastforce)+
qed

section \<open>The search\<close>

definition searchState :: "'a dependencies \<Rightarrow> 'a list \<Rightarrow> 'a sortState \<Rightarrow> bool" where
  "searchState deps xs st \<longleftrightarrow>
     distinct (snd st) \<and> set (snd st) \<subseteq> set (fst st) \<and> set (fst st) \<subseteq> set xs \<and> ordered_by deps (snd st)"

text \<open>
  From one state of the search to a later one: what was visited in between has been sorted, so that
  the items whose visit has not ended are the same.
\<close>

definition extends :: "'a dependencies \<Rightarrow> 'a list \<Rightarrow> 'a sortState \<Rightarrow> 'a sortState \<Rightarrow> bool" where
  "extends deps xs st st' \<longleftrightarrow> searchState deps xs st' \<and>
     (\<exists>T. snd st' = snd st @ T \<and> set (fst st') = set (fst st) \<union> set T \<and> set T \<inter> set (fst st) = {})"

lemma extends_refl: "searchState deps xs st \<Longrightarrow> extends deps xs st st"
  by (auto simp: extends_def)

lemma extends_trans: "extends deps xs a b \<Longrightarrow> extends deps xs b c \<Longrightarrow> extends deps xs a c"
  unfolding extends_def by (elim conjE exE, intro conjI, assumption) (rule exI, auto)

lemma extendsD:
  "extends deps xs st st' \<Longrightarrow> searchState deps xs st'"
  "extends deps xs st st' \<Longrightarrow> set (snd st) \<subseteq> set (snd st')"
  "extends deps xs st st' \<Longrightarrow> set (fst st) \<subseteq> set (fst st')"
  "searchState deps xs st \<Longrightarrow> extends deps xs st st' \<Longrightarrow> set (fst st') - set (snd st') = set (fst st) - set (snd st)"
  by (auto simp: extends_def searchState_def)

text \<open>The visits of a list end where all have returned, or with the first that has not.\<close>

lemma visitEach_cases:
  assumes "\<And>d st st'. d \<in> set ds \<Longrightarrow> searchState deps xs st \<Longrightarrow> f d st = Some (Inr st') \<Longrightarrow>
      extends deps xs st st' \<and> d \<in> set (snd st')"
    and "searchState deps xs st"
  obtains (returned) st' where "visitEach f ds st = Some (Inr st')" "extends deps xs st st'" "set ds \<subseteq> set (snd st')"
  | (failed) d st' where "d \<in> set ds" "extends deps xs st st'" "f d st' = visitEach f ds st"
      "\<And>st''. visitEach f ds st \<noteq> Some (Inr st'')"
  using assms
proof (induction ds arbitrary: st thesis)
  case Nil
  then show thesis by (simp add: extends_refl)
next
  case (Cons d ds)
  show thesis
  proof (cases "\<exists>st1. f d st = Some (Inr st1)")
    case True
    then obtain st1 where st1: "f d st = Some (Inr st1)" by blast
    have e: "extends deps xs st st1" "d \<in> set (snd st1)"
      using Cons.prems(3) [OF _ Cons.prems(4) st1] by simp_all
    show thesis
    proof (rule Cons.IH [of st1])
      fix st' assume "visitEach f ds st1 = Some (Inr st')" "extends deps xs st1 st'" "set ds \<subseteq> set (snd st')"
      then show thesis using st1 e extends_trans [OF e(1)] extendsD(2) [of deps xs st1 st']
        by (intro Cons.prems(1) [of st']) auto
    next
      fix d' st' assume "d' \<in> set ds" "extends deps xs st1 st'" "f d' st' = visitEach f ds st1"
        "\<And>st''. visitEach f ds st1 \<noteq> Some (Inr st'')"
      then show thesis using st1 e extends_trans [OF e(1)] by (intro Cons.prems(2) [of d' st']) auto
    next
      show "extends deps xs sa sb \<and> d' \<in> set (snd sb)"
        if "d' \<in> set ds" "searchState deps xs sa" "f d' sa = Some (Inr sb)" for d' sa sb
        using Cons.prems(3) [of d' sa sb] that by simp
    next
      show "searchState deps xs st1" using e(1) by (rule extendsD)
    qed
  next
    case False
    then have "visitEach f (d # ds) st = f d st" by (auto split: option.splits sum.splits)
    with False Cons.prems(4) show thesis by (intro Cons.prems(2) [of d st]) (auto intro: extends_refl)
  qed
qed

text \<open>A visit that returns has sorted the item, with all its dependencies before it.\<close>

lemma visit_returns:
  assumes closed: "\<forall>x \<in> set xs. set (deps x) \<subseteq> set xs"
  shows "x \<in> set xs \<Longrightarrow> searchState deps xs st \<Longrightarrow> visit n shown deps initial x st = Some (Inr st') \<Longrightarrow>
    extends deps xs st st' \<and> x \<in> set (snd st')"
proof (induction n arbitrary: x st st')
  case (Suc n)
  show ?case
  proof (cases "x \<in> set (fst st)")
    case True
    with Suc.prems show ?thesis by (auto intro: extends_refl split: if_splits)
  next
    case False
    let ?st = "(x # fst st, snd st)" and ?ds = "sort_key (initialIndex initial) (deps x)"
    have ds: "set ?ds \<subseteq> set xs" using closed Suc.prems(1) by simp
    have start: "searchState deps xs ?st" using Suc.prems(1,2) by (auto simp: searchState_def)
    from False Suc.prems(3) obtain v s where each: "visitEach (visit n shown deps initial) ?ds ?st = Some (Inr (v, s))"
      and st': "st' = (v, s @ [x])" by (auto split: option.splits sum.splits)
    have "extends deps xs ?st (v, s) \<and> set ?ds \<subseteq> set s"
    proof (rule visitEach_cases [of ?ds deps xs "visit n shown deps initial" ?st])
      show "extends deps xs a b \<and> d \<in> set (snd b)"
        if "d \<in> set ?ds" "searchState deps xs a" "visit n shown deps initial d a = Some (Inr b)" for d a b
        using Suc.IH [OF _ that(2,3)] ds that(1) by blast
    qed (use each start in auto)
    then show ?thesis using False Suc.prems(1,2) unfolding st'
      by (auto simp: extends_def searchState_def ordered_by_snoc)
  qed
qed simp

text \<open>
  A visit that throws has found a cycle: if the items whose visit has not ended all lead to the item
  that is visited, then one of them is reached from itself.
\<close>

lemma visit_throws:
  assumes closed: "\<forall>x \<in> set xs. set (deps x) \<subseteq> set xs"
  shows "x \<in> set xs \<Longrightarrow> searchState deps xs st \<Longrightarrow>
    \<forall>g \<in> set (fst st) - set (snd st). (g, x) \<in> (edges deps)\<^sup>+ \<Longrightarrow>
    visit n shown deps initial x st = Some (Inl e) \<Longrightarrow> \<exists>y \<in> set xs. (y, y) \<in> (edges deps)\<^sup>+"
proof (induction n arbitrary: x st e)
  case (Suc n)
  show ?case
  proof (cases "x \<in> set (fst st)")
    case True
    with Suc.prems show ?thesis by (auto split: if_splits)
  next
    case False
    let ?st = "(x # fst st, snd st)" and ?ds = "sort_key (initialIndex initial) (deps x)"
    have ds: "set ?ds \<subseteq> set xs" using closed Suc.prems(1) by simp
    have start: "searchState deps xs ?st" using Suc.prems(1,2) by (auto simp: searchState_def)
    from False Suc.prems(4) obtain e' where each: "visitEach (visit n shown deps initial) ?ds ?st = Some (Inl e')"
      by (auto split: option.splits sum.splits)
    obtain d st' where d: "d \<in> set ?ds" "extends deps xs ?st st'" "visit n shown deps initial d st' = Some (Inl e')"
    proof (rule visitEach_cases [of ?ds deps xs "visit n shown deps initial" ?st])
      show "extends deps xs a b \<and> d \<in> set (snd b)"
        if "d \<in> set ?ds" "searchState deps xs a" "visit n shown deps initial d a = Some (Inr b)" for d a b
        using visit_returns [OF closed _ that(2,3)] ds that(1) by blast
    qed (use each start that in auto)
    have edge: "(x, d) \<in> edges deps" using d(1) by (simp add: edges_def)
    have "(g, d) \<in> (edges deps)\<^sup>+" if "g \<in> set (fst st') - set (snd st')" for g
    proof -
      from that have "g = x \<or> g \<in> set (fst st) - set (snd st)" using extendsD(4) [OF start d(2)] by auto
      then show ?thesis using Suc.prems(3) edge by (auto intro: trancl_into_trancl)
    qed
    with Suc.IH [OF _ extendsD(1) [OF d(2)] _ d(3)] d(1) ds show ?thesis by blast
  qed
qed simp

text \<open>The depth of the recursion is bounded by the number of items that have not been visited.\<close>

lemma visit_enough:
  assumes closed: "\<forall>x \<in> set xs. set (deps x) \<subseteq> set xs"
  shows "x \<in> set xs \<Longrightarrow> searchState deps xs st \<Longrightarrow> card (set xs - set (fst st)) < n \<Longrightarrow>
    visit n shown deps initial x st \<noteq> None"
proof (induction n arbitrary: x st)
  case (Suc n)
  show ?case
  proof (cases "x \<in> set (fst st)")
    case False
    let ?st = "(x # fst st, snd st)" and ?ds = "sort_key (initialIndex initial) (deps x)"
    have ds: "set ?ds \<subseteq> set xs" using closed Suc.prems(1) by simp
    have start: "searchState deps xs ?st" using Suc.prems(1,2) by (auto simp: searchState_def)
    have "visitEach (visit n shown deps initial) ?ds ?st \<noteq> None"
    proof (rule visitEach_cases [of ?ds deps xs "visit n shown deps initial" ?st])
      show "extends deps xs a b \<and> d \<in> set (snd b)"
        if "d \<in> set ?ds" "searchState deps xs a" "visit n shown deps initial d a = Some (Inr b)" for d a b
        using visit_returns [OF closed _ that(2,3)] ds that(1) by blast
    next
      fix d st' assume d: "d \<in> set ?ds" "extends deps xs ?st st'"
        "visit n shown deps initial d st' = visitEach (visit n shown deps initial) ?ds ?st"
      have "set xs - set (fst st') \<subset> set xs - set (fst st)"
        using extendsD(3) [OF d(2)] False Suc.prems(1) by auto
      then have "card (set xs - set (fst st')) < n"
        using Suc.prems(3) psubset_card_mono [of "set xs - set (fst st)" "set xs - set (fst st')"] by simp
      moreover have "d \<in> set xs" using d(1) ds by blast
      ultimately have "visit n shown deps initial d st' \<noteq> None"
        using Suc.IH extendsD(1) [OF d(2)] by blast
      then show ?thesis unfolding d(3) .
    qed (use start in auto)
    then show ?thesis using False by (auto split: option.splits sum.splits)
  qed simp
qed simp

section \<open>What the sort does\<close>

lemma visitEach_ordered:
  "ordered_by deps (ys @ zs) \<Longrightarrow> distinct (ys @ zs) \<Longrightarrow>
     visitEach (visit (Suc (Suc n)) shown deps initial) zs (rev ys, ys) = Some (Inr (rev (ys @ zs), ys @ zs))"
proof (induction zs arbitrary: ys)
  case (Cons z zs)
  let ?ds = "sort_key (initialIndex initial) (deps z)"
  have ds: "set ?ds \<subseteq> set ys" using Cons.prems(1) unfolding ordered_by_def by simp
  have "visitEach (visit (Suc n) shown deps initial) ds (z # rev ys, ys) = Some (Inr (z # rev ys, ys))"
    if "set ds \<subseteq> set ys" for ds
    using that by (induction ds) auto
  from this [OF ds] have "visit (Suc (Suc n)) shown deps initial z (rev ys, ys) = Some (Inr (rev (ys @ [z]), ys @ [z]))"
    using Cons.prems(2) by (simp del: visit.simps add: visit.simps(2) [of "Suc n"])
  with Cons.IH [of "ys @ [z]"] Cons.prems show ?case by (simp del: visit.simps)
qed simp

text \<open>
  The sort, for items without duplicates whose dependencies are among them. It ends; it throws
  exactly if the dependencies have a cycle; else it returns all items, each after its dependencies;
  and it does not touch a list that is in order already.
\<close>

lemma topological_sort_spec:
  assumes "distinct xs" and closed: "\<forall>x \<in> set xs. set (deps x) \<subseteq> set xs"
  shows "\<exists>r. topologicalSort shown deps xs = Some r \<and>
    (isl r \<longleftrightarrow> (\<exists>x \<in> set xs. (x, x) \<in> (edges deps)\<^sup>+)) \<and>
    (\<forall>ys. r = Inr ys \<longrightarrow> mset ys = mset xs \<and> ordered_by deps ys) \<and>
    (ordered_by deps xs \<longrightarrow> r = Inr xs)"
proof -
  let ?f = "visit (Suc (length xs)) shown deps xs"
  have start: "searchState deps xs ([], [])" by (simp add: searchState_def)
  have fuel: "?f x st \<noteq> None" if "x \<in> set xs" "searchState deps xs st" for x st
    using that card_mono [of "set xs" "set xs - set (fst st)"] card_length [of xs]
    by (intro visit_enough [OF closed]) auto
  have stable: "ordered_by deps xs \<longrightarrow> topologicalSort shown deps xs = Some (Inr xs)"
    using visitEach_ordered [of deps "[]" xs "length xs - 1" shown xs] assms(1)
    by (cases xs) (auto simp: topologicalSort_def simp del: visit.simps visitEach.simps(2))
  have cases: "(\<exists>ys. topologicalSort shown deps xs = Some (Inr ys) \<and> mset ys = mset xs \<and> ordered_by deps ys) \<or>
      (\<exists>e. topologicalSort shown deps xs = Some (Inl e)) \<and> (\<exists>x \<in> set xs. (x, x) \<in> (edges deps)\<^sup>+)"
  proof (rule visitEach_cases [of xs deps xs ?f "([], [])"])
    show "extends deps xs a b \<and> d \<in> set (snd b)"
      if "d \<in> set xs" "searchState deps xs a" "?f d a = Some (Inr b)" for d a b
      using visit_returns [OF closed that] .
  next
    fix st' assume st': "visitEach ?f xs ([], []) = Some (Inr st')" "extends deps xs ([], []) st'" "set xs \<subseteq> set (snd st')"
    then have "distinct (snd st')" "set (snd st') = set xs" "ordered_by deps (snd st')"
      by (auto simp: extends_def searchState_def)
    with st'(1) assms(1) show ?thesis by (auto simp: topologicalSort_def set_eq_iff_mset_eq_distinct simp del: visit.simps)
  next
    fix d st' assume d: "d \<in> set xs" "extends deps xs ([], []) st'" "?f d st' = visitEach ?f xs ([], [])"
      "\<And>st''. visitEach ?f xs ([], []) \<noteq> Some (Inr st'')"
    have "?f d st' \<noteq> None" using fuel [OF d(1) extendsD(1) [OF d(2)]] .
    with d(3,4) obtain e where e: "?f d st' = Some (Inl e)" by (metis option.exhaust sum.exhaust)
    have "\<forall>g \<in> set (fst st') - set (snd st'). (g, d) \<in> (edges deps)\<^sup>+" using extendsD(4) [OF start d(2)] by auto
    from visit_throws [OF closed d(1) extendsD(1) [OF d(2)] this e] e d(3) show ?thesis
      by (auto simp: topologicalSort_def simp del: visit.simps)
  qed (use start in auto)
  have "\<not> (\<exists>x \<in> set xs. (x, x) \<in> (edges deps)\<^sup>+)" if "mset ys = mset xs" "ordered_by deps ys" for ys
    using ordered_by_acyclic [OF that(2)] mset_eq_setD [OF that(1)] by blast
  with cases stable show ?thesis by fastforce
qed

end
