(* ===== verification/Dependency_Graph.thy ===== *)
theory Dependency_Graph
  imports Topological_Sort
begin

text \<open>
  The order in which the extensions of a runtime are started, \<open>core/boot/.../boot/system/DependencyGraph.java\<close>.
  An extension is given by what the annotations of its class say; the name of its class stands for it.
  The sets that reflection returns are lists here, in the order they are iterated.
\<close>

section \<open>Extensions\<close>

datatype extensionKind = BaseExtension | CoreExtension | OtherExtension

text \<open>A field to be injected; \<open>pointText\<close> is its \<open>toString\<close>.\<close>

record injectionPoint =
  featureName :: string
  isRequired :: bool
  pointText :: string

record serviceExtension =
  extensionName :: string
  extensionKind :: extensionKind
  defaultProvidedFeatures :: "string list"
  providedFeatures :: "string list"
  injectedFields :: "injectionPoint list"
  requiredFeatures :: "string list"

section \<open>The graph\<close>

definition orderFor :: "serviceExtension \<Rightarrow> nat" where
  "orderFor e = (case extensionKind e of BaseExtension \<Rightarrow> 0 | CoreExtension \<Rightarrow> 1 | OtherExtension \<Rightarrow> 2)"

definition sortByType :: "serviceExtension list \<Rightarrow> java_exn + serviceExtension list" where
  "sortByType loaded =
     (if filter (\<lambda>e. extensionKind e = BaseExtension) loaded = []
      then Inl (EdcException (''No base dependencies were found on the classpath. '' @
        ''Please add the \"core:base\" module to your classpath!''))
      else Inr (sort_key orderFor loaded))"

definition addProvider :: "serviceExtension \<Rightarrow> string \<Rightarrow> serviceExtension list jmap \<Rightarrow> serviceExtension list jmap" where
  "addProvider e feature m = put feature ((case map_of m feature of None \<Rightarrow> [] | Some ps \<Rightarrow> ps) @ [e]) m"

definition createDependencyMap :: "serviceExtension list \<Rightarrow> serviceExtension list jmap" where
  "createDependencyMap es =
     fold (\<lambda>e. fold (addProvider e) (providedFeatures e)) es
       (fold (\<lambda>e. fold (addProvider e) (defaultProvidedFeatures e)) es [])"

text \<open>The dependencies found so far, and what is missing.\<close>

type_synonym 'm resolution = "serviceExtension dependencies \<times> 'm list"

definition resolvePoint ::
  "serviceExtension list jmap \<Rightarrow> serviceExtension \<Rightarrow> injectionPoint \<Rightarrow> injectionPoint resolution \<Rightarrow>
   injectionPoint resolution" where
  "resolvePoint dm e ip st =
     (case map_of dm (featureName ip) of
        None \<Rightarrow> (fst st, if isRequired ip then snd st @ [ip] else snd st)
      | Some providers \<Rightarrow> (fold (addDependency e) (filter (\<lambda>d. d \<noteq> e) providers) (fst st), snd st))"

definition resolveRequirement ::
  "serviceExtension list jmap \<Rightarrow> serviceExtension \<Rightarrow> string \<Rightarrow> string resolution \<Rightarrow> string resolution" where
  "resolveRequirement dm e feature st =
     (case map_of dm feature of
        None \<Rightarrow> (fst st, snd st @ [feature])
      | Some dependencies \<Rightarrow> (fold (addDependency e) dependencies (fst st), snd st))"

definition notInjected :: "injectionPoint list \<Rightarrow> java_exn" where
  "notInjected points =
     EdcException (''The following injected fields were not provided:'' @ [CHR 0x0A] @
       join [CHR 0x0A] (map pointText points))"

definition notProvided :: "string list \<Rightarrow> java_exn" where
  "notProvided features =
     EdcException (''The following @Require'' @ [CHR 0x27] @ ''d features were not provided: ['' @
       join '', '' features @ '']'')"

text \<open>\<open>of\<close>: the containers, that is the extensions with their injection points, in their order.\<close>

definition dependencyGraph ::
  "serviceExtension list \<Rightarrow> (java_exn + (serviceExtension \<times> injectionPoint list) list) option" where
  "dependencyGraph loaded =
     (case sortByType loaded of
        Inl err \<Rightarrow> Some (Inl err)
      | Inr extensions \<Rightarrow>
          (let dm = createDependencyMap extensions;
               (deps, unsatisfied) =
                 fold (\<lambda>e. fold (resolvePoint dm e) (injectedFields e)) extensions (\<lambda>_. [], [])
           in if unsatisfied \<noteq> [] then Some (Inl (notInjected unsatisfied))
              else
                let (deps, missing) =
                  fold (\<lambda>e. fold (resolveRequirement dm e) (requiredFeatures e)) extensions (deps, [])
                in if missing \<noteq> [] then Some (Inl (notProvided missing))
                   else map_option (map_sum id (map (\<lambda>e. (e, injectedFields e))))
                     (topologicalSort extensionName deps extensions)))"

section \<open>What an extension needs\<close>

definition provides :: "serviceExtension \<Rightarrow> string \<Rightarrow> bool" where
  "provides p f \<longleftrightarrow> f \<in> set (defaultProvidedFeatures p) \<union> set (providedFeatures p)"

text \<open>An extension needs the providers of the features it injects, but for itself, and of those it requires.\<close>

definition needs :: "serviceExtension list \<Rightarrow> serviceExtension \<Rightarrow> serviceExtension \<Rightarrow> bool" where
  "needs es e p \<longleftrightarrow> p \<in> set es \<and>
     ((p \<noteq> e \<and> (\<exists>ip \<in> set (injectedFields e). provides p (featureName ip))) \<or>
      (\<exists>f \<in> set (requiredFeatures e). provides p f))"

definition satisfied :: "serviceExtension list \<Rightarrow> serviceExtension \<Rightarrow> bool" where
  "satisfied es e \<longleftrightarrow>
     (\<forall>ip \<in> set (injectedFields e). isRequired ip \<longrightarrow> (\<exists>p \<in> set es. provides p (featureName ip))) \<and>
     (\<forall>f \<in> set (requiredFeatures e). \<exists>p \<in> set es. provides p f)"

section \<open>The map of providers\<close>

definition providersOf :: "serviceExtension list jmap \<Rightarrow> string \<Rightarrow> serviceExtension list" where
  "providersOf m f = (case map_of m f of None \<Rightarrow> [] | Some ps \<Rightarrow> ps)"

lemma providersOf_add: "providersOf (addProvider e f m) g = (if g = f then providersOf m f @ [e] else providersOf m g)"
  by (auto simp: providersOf_def addProvider_def)

lemma providersOf_fold:
  "set (providersOf (fold (addProvider e) fs m) g) = set (providersOf m g) \<union> (if g \<in> set fs then {e} else {})"
  by (induction fs arbitrary: m) (auto simp: providersOf_add)

lemma providersOf_fold_all:
  "set (providersOf (fold (\<lambda>e. fold (addProvider e) (F e)) es m) g) = set (providersOf m g) \<union> {e \<in> set es. g \<in> set (F e)}"
  by (induction es arbitrary: m) (auto simp: providersOf_fold)

text \<open>A feature that is in the map has a provider.\<close>

lemma addProvider_not_empty: "\<forall>f. map_of m f \<noteq> Some [] \<Longrightarrow> \<forall>f. map_of (addProvider e g m) f \<noteq> Some []"
  by (auto simp: addProvider_def split: option.splits)

lemma fold_not_empty: "\<forall>f. map_of m f \<noteq> Some [] \<Longrightarrow> \<forall>f. map_of (fold (addProvider e) fs m) f \<noteq> Some []"
  by (induction fs arbitrary: m) (simp_all add: addProvider_not_empty)

lemma fold_all_not_empty:
  "\<forall>f. map_of m f \<noteq> Some [] \<Longrightarrow> \<forall>f. map_of (fold (\<lambda>e. fold (addProvider e) (F e)) es m) f \<noteq> Some []"
  by (induction es arbitrary: m) (simp_all add: fold_not_empty)

lemma createDependencyMap_providers: "set (providersOf (createDependencyMap es) f) = {p \<in> set es. provides p f}"
proof -
  have "providersOf [] f = []" by (simp add: providersOf_def)
  then show ?thesis by (auto simp: createDependencyMap_def providersOf_fold_all provides_def)
qed

lemma createDependencyMap_None:
  "map_of (createDependencyMap es) f = None \<longleftrightarrow> \<not> (\<exists>p \<in> set es. provides p f)"
proof -
  have "\<forall>f. map_of (createDependencyMap es) f \<noteq> Some []"
    unfolding createDependencyMap_def by (intro fold_all_not_empty) simp
  then have "map_of (createDependencyMap es) f = None \<longleftrightarrow> set (providersOf (createDependencyMap es) f) = {}"
    by (cases "map_of (createDependencyMap es) f") (simp_all add: providersOf_def, metis)
  then show ?thesis by (auto simp: createDependencyMap_providers)
qed

section \<open>The dependencies\<close>

lemma fold_addDependency:
  "set (fold (addDependency e) ps deps x) = set (deps x) \<union> (if x = e then set ps else {})"
  by (induction ps arbitrary: deps) (auto simp: addDependency_def)

text \<open>One step of the resolution adds dependencies of an extension and what is missing.\<close>

definition resolve ::
  "serviceExtension \<Rightarrow> ('x \<Rightarrow> serviceExtension list) \<Rightarrow> ('x \<Rightarrow> 'm list) \<Rightarrow> 'x \<Rightarrow> 'm resolution \<Rightarrow> 'm resolution" where
  "resolve e P M x st = (fold (addDependency e) (P x) (fst st), snd st @ M x)"

lemma resolvePoint_resolve:
  "resolvePoint dm e =
     resolve e (\<lambda>ip. filter (\<lambda>d. d \<noteq> e) (providersOf dm (featureName ip)))
       (\<lambda>ip. if isRequired ip \<and> map_of dm (featureName ip) = None then [ip] else [])"
  by (auto simp: fun_eq_iff resolvePoint_def resolve_def providersOf_def split: option.splits)

lemma resolveRequirement_resolve:
  "resolveRequirement dm e = resolve e (providersOf dm) (\<lambda>f. if map_of dm f = None then [f] else [])"
  by (auto simp: fun_eq_iff resolveRequirement_def resolve_def providersOf_def split: option.splits)

lemma fold_resolve:
  "snd (fold (resolve e P M) xs st) = snd st @ concat (map M xs) \<and>
   set (fst (fold (resolve e P M) xs st) x) = set (fst st x) \<union> (if x = e then (\<Union>y \<in> set xs. set (P y)) else {})"
  by (induction xs arbitrary: st) (auto simp: resolve_def fold_addDependency)

lemma fold_resolve_all:
  "snd (fold (\<lambda>e. fold (resolve e (P e) M) (F e)) es st) = snd st @ concat (map (\<lambda>e. concat (map M (F e))) es) \<and>
   set (fst (fold (\<lambda>e. fold (resolve e (P e) M) (F e)) es st) x) =
     set (fst st x) \<union> (if x \<in> set es then (\<Union>y \<in> set (F x). set (P x y)) else {})"
proof (induction es arbitrary: st)
  case (Cons e es)
  let ?st = "fold (resolve e (P e) M) (F e) st"
  show ?case using Cons.IH [of ?st] fold_resolve [of e "P e" M "F e" st x] by auto
qed simp

text \<open>The graph in one piece: what is missing, and the dependencies that are sorted.\<close>

definition missingPoints :: "serviceExtension list \<Rightarrow> injectionPoint list" where
  "missingPoints es = concat (map (\<lambda>e. filter (\<lambda>ip. isRequired ip \<and>
     \<not> (\<exists>p \<in> set es. provides p (featureName ip))) (injectedFields e)) es)"

definition missingFeatures :: "serviceExtension list \<Rightarrow> string list" where
  "missingFeatures es = concat (map (\<lambda>e. filter (\<lambda>f. \<not> (\<exists>p \<in> set es. provides p f)) (requiredFeatures e)) es)"

lemma filter_concat_map: "concat (map (\<lambda>x. if Q x then [x] else []) xs) = filter Q xs"
  by (induction xs) auto

lemma satisfied_all: "missingPoints es = [] \<and> missingFeatures es = [] \<longleftrightarrow> (\<forall>e \<in> set es. satisfied es e)"
  by (auto simp: missingPoints_def missingFeatures_def satisfied_def filter_empty_conv)

lemma resolution:
  obtains deps deps' where
    "fold (\<lambda>e. fold (resolvePoint (createDependencyMap es) e) (injectedFields e)) es (\<lambda>_. [], []) =
       (deps, missingPoints es)"
    "fold (\<lambda>e. fold (resolveRequirement (createDependencyMap es) e) (requiredFeatures e)) es (deps, []) =
       (deps', missingFeatures es)"
    "\<And>x. x \<in> set es \<Longrightarrow> set (deps' x) = {p. needs es x p}"
proof -
  let ?dm = "createDependencyMap es"
  let ?r1 = "fold (\<lambda>e. fold (resolvePoint ?dm e) (injectedFields e)) es (\<lambda>_. [], [])"
  let ?r2 = "fold (\<lambda>e. fold (resolveRequirement ?dm e) (requiredFeatures e)) es (fst ?r1, [])"
  have 1: "snd ?r1 = missingPoints es"
    by (simp add: resolvePoint_resolve fold_resolve_all missingPoints_def filter_concat_map createDependencyMap_None)
  have 2: "snd ?r2 = missingFeatures es"
    by (simp add: resolveRequirement_resolve fold_resolve_all missingFeatures_def filter_concat_map createDependencyMap_None)
  have 3: "set (fst ?r2 x) = {p. needs es x p}" if "x \<in> set es" for x
    using that by (auto simp: resolvePoint_resolve resolveRequirement_resolve fold_resolve_all
        createDependencyMap_providers needs_def)
  show thesis by (rule that [of "fst ?r1" "fst ?r2"]) (simp_all add: 1 [symmetric] 2 [symmetric] 3)
qed

section \<open>The order of the extensions\<close>

lemma needs_closed: "needs es x p \<Longrightarrow> p \<in> set es"
  by (simp add: needs_def)

lemma needs_permuted: "set es = set es' \<Longrightarrow> needs es = needs es'"
  by (intro ext) (simp add: needs_def)

lemma satisfied_permuted: "set es = set es' \<Longrightarrow> satisfied es e = satisfied es' e"
  by (simp add: satisfied_def)

text \<open>On the extensions, the dependencies are what they need, so they have the same cycles.\<close>

lemma needs_cycle:
  assumes "\<And>x. x \<in> set es \<Longrightarrow> set (deps x) = {p. needs es x p}" and "x \<in> set es"
  shows "(x, y) \<in> (edges deps)\<^sup>+ \<longleftrightarrow> (needs es)\<^sup>+\<^sup>+ x y"
proof
  assume "(x, y) \<in> (edges deps)\<^sup>+"
  then have "(needs es)\<^sup>+\<^sup>+ x y \<and> y \<in> set es"
    using assms(2)
  proof induction
    case (base y)
    then have "needs es x y" using assms(1) by (simp add: edges_def)
    then show ?case using needs_closed by blast
  next
    case (step y z)
    then have "needs es y z" using assms(1) by (simp add: edges_def)
    with step show ?case using needs_closed by (auto intro: tranclp.trancl_into_trancl)
  qed
  then show "(needs es)\<^sup>+\<^sup>+ x y" by simp
next
  assume "(needs es)\<^sup>+\<^sup>+ x y"
  then have "(x, y) \<in> (edges deps)\<^sup>+ \<and> y \<in> set es"
    using assms(2)
  proof induction
    case (base y)
    then have "(x, y) \<in> edges deps" using assms(1) by (simp add: edges_def)
    with base show ?case using needs_closed by blast
  next
    case (step y z)
    then have "(y, z) \<in> edges deps" using assms(1) by (simp add: edges_def)
    with step show ?case using needs_closed by (auto intro: trancl_into_trancl)
  qed
  then show "(x, y) \<in> (edges deps)\<^sup>+" by simp
qed

lemma dependencyGraph_cases:
  assumes "sortByType loaded = Inr es"
  shows "\<exists>deps. (\<forall>x \<in> set es. set (deps x) = {p. needs es x p}) \<and> dependencyGraph loaded =
    (if missingPoints es \<noteq> [] then Some (Inl (notInjected (missingPoints es)))
     else if missingFeatures es \<noteq> [] then Some (Inl (notProvided (missingFeatures es)))
     else map_option (map_sum id (map (\<lambda>e. (e, injectedFields e)))) (topologicalSort extensionName deps es))"
proof (rule resolution [of es])
  fix deps deps'
  assume f: "fold (\<lambda>e. fold (resolvePoint (createDependencyMap es) e) (injectedFields e)) es (\<lambda>_. [], []) =
       (deps, missingPoints es)"
    "fold (\<lambda>e. fold (resolveRequirement (createDependencyMap es) e) (requiredFeatures e)) es (deps, []) =
       (deps', missingFeatures es)"
    and n: "\<And>x. x \<in> set es \<Longrightarrow> set (deps' x) = {p. needs es x p}"
  show ?thesis
    by (rule exI [of _ deps'], rule conjI, use n in blast)
      (simp only: dependencyGraph_def assms(1) sum.case Let_def f prod.case)
qed

definition startable :: "serviceExtension list \<Rightarrow> bool" where
  "startable es \<longleftrightarrow>
     (\<exists>e \<in> set es. extensionKind e = BaseExtension) \<and> (\<forall>e \<in> set es. satisfied es e) \<and>
     (\<forall>e \<in> set es. \<not> (needs es)\<^sup>+\<^sup>+ e e)"

text \<open>Every extension of a list comes after those it needs.\<close>

definition startOrder :: "serviceExtension list \<Rightarrow> serviceExtension list \<Rightarrow> bool" where
  "startOrder es xs \<longleftrightarrow> (\<forall>ys e zs p. xs = ys @ e # zs \<longrightarrow> needs es e p \<longrightarrow> p \<in> set ys)"

lemma startOrder_ordered_by:
  assumes "\<And>x. x \<in> set es \<Longrightarrow> set (deps x) = {p. needs es x p}" "set xs \<subseteq> set es"
  shows "startOrder es xs \<longleftrightarrow> ordered_by deps xs"
proof -
  have "set (deps e) \<subseteq> set ys \<longleftrightarrow> (\<forall>p. needs es e p \<longrightarrow> p \<in> set ys)" if "xs = ys @ e # zs" for ys e zs
    using assms(1) [of e] assms(2) that by auto
  then show ?thesis unfolding startOrder_def ordered_by_def by blast
qed

text \<open>The extensions whose features are all provided.\<close>

lemma dependencyGraph_provided:
  assumes "sortByType loaded = Inr es" "distinct es" "missingPoints es = []" "missingFeatures es = []"
  shows "\<exists>r. dependencyGraph loaded = Some r \<and> (isl r \<longleftrightarrow> (\<exists>x \<in> set es. (needs es)\<^sup>+\<^sup>+ x x)) \<and>
    (\<forall>cs. r = Inr cs \<longrightarrow> (\<exists>xs. cs = map (\<lambda>e. (e, injectedFields e)) xs \<and> mset xs = mset es \<and>
       startOrder es xs \<and> (startOrder es es \<longrightarrow> xs = es)))"
proof -
  let ?c = "map (\<lambda>e. (e, injectedFields e))"
  obtain deps where deps: "\<forall>x \<in> set es. set (deps x) = {p. needs es x p}"
    and graph: "dependencyGraph loaded = map_option (map_sum id ?c) (topologicalSort extensionName deps es)"
    using dependencyGraph_cases [OF assms(1)] assms(3,4) by (elim exE conjE) simp
  have closed: "\<forall>x \<in> set es. set (deps x) \<subseteq> set es" using deps needs_closed by auto
  note so = startOrder_ordered_by [OF deps [rule_format]] and nc = needs_cycle [OF deps [rule_format]]
  from topological_sort_spec [OF assms(2) closed, of extensionName] obtain r where
    r: "topologicalSort extensionName deps es = Some r"
      "isl r \<longleftrightarrow> (\<exists>x \<in> set es. (x, x) \<in> (edges deps)\<^sup>+)"
      "\<forall>xs. r = Inr xs \<longrightarrow> mset xs = mset es \<and> ordered_by deps xs" "ordered_by deps es \<longrightarrow> r = Inr es"
    by (elim exE conjE)
  have sorted: "mset xs = mset es \<and> startOrder es xs \<and> (startOrder es es \<longrightarrow> xs = es)" if "r = Inr xs" for xs
  proof -
    have xs: "mset xs = mset es" "ordered_by deps xs" using r(3) that by simp_all
    moreover have "startOrder es xs" using so [of xs] mset_eq_setD [OF xs(1)] xs(2) by simp
    moreover have "startOrder es es \<longrightarrow> xs = es" using so [of es] r(4) that by simp
    ultimately show ?thesis by simp
  qed
  have "isl r \<longleftrightarrow> (\<exists>x \<in> set es. (needs es)\<^sup>+\<^sup>+ x x)" using r(2) nc by simp
  with sorted show ?thesis unfolding graph r(1) by (cases r) (simp, simp, blast)
qed

text \<open>
  (C21) The extensions of a runtime are put in an order, or an exception is thrown, always: an order
  exactly if there is a base extension, every feature that must be injected or is required has a
  provider, and no extension needs itself in turn. The order is one of all extensions, each with its
  own injection points, after all the extensions it needs; and if the extensions by type are in such
  an order already, it is that one.
\<close>

theorem dependency_graph_spec:
  assumes "distinct loaded"
  shows "\<exists>r. dependencyGraph loaded = Some r \<and> (isl r \<longleftrightarrow> \<not> startable loaded) \<and>
    (\<forall>cs. r = Inr cs \<longrightarrow> (\<exists>xs. cs = map (\<lambda>e. (e, injectedFields e)) xs \<and> mset xs = mset loaded \<and>
       startOrder loaded xs \<and>
       (startOrder loaded (sort_key orderFor loaded) \<longrightarrow> xs = sort_key orderFor loaded)))"
proof (cases "sortByType loaded")
  case (Inl e)
  then have "\<not> startable loaded"
    by (auto simp: sortByType_def startable_def filter_empty_conv split: if_splits)
  with Inl show ?thesis by (simp add: dependencyGraph_def)
next
  case (Inr es)
  then have es: "es = sort_key orderFor loaded" and base: "\<exists>e \<in> set loaded. extensionKind e = BaseExtension"
    by (auto simp: sortByType_def filter_empty_conv split: if_splits)
  then have same: "set es = set loaded" "mset es = mset loaded" "distinct es" using assms by simp_all
  have n: "needs es = needs loaded" "startOrder es = startOrder loaded"
    using needs_permuted [OF same(1)] by (simp_all add: fun_eq_iff startOrder_def)
  have sat: "missingPoints es = [] \<and> missingFeatures es = [] \<longleftrightarrow> (\<forall>e \<in> set loaded. satisfied loaded e)"
    using satisfied_all [of es] satisfied_permuted [OF same(1)] same(1) by simp
  show ?thesis
  proof (cases "missingPoints es = [] \<and> missingFeatures es = []")
    case False
    then have "\<not> startable loaded" using sat by (simp add: startable_def)
    moreover from False have "\<exists>e. dependencyGraph loaded = Some (Inl e)"
      using dependencyGraph_cases [OF Inr] by (elim exE conjE) (simp split: if_splits)
    ultimately show ?thesis by auto
  next
    case True
    then have "startable loaded \<longleftrightarrow> \<not> (\<exists>x \<in> set es. (needs es)\<^sup>+\<^sup>+ x x)"
      using base sat by (simp add: startable_def n same(1))
    then show ?thesis
      using dependencyGraph_provided [OF Inr same(3)] True unfolding n same(2) es [symmetric] by simp
  qed
qed

text \<open>A runtime of three extensions, of which the first needs the second.\<close>

definition bootExample :: "serviceExtension list" where
  "bootExample =
     [\<lparr>extensionName = ''api'', extensionKind = OtherExtension, defaultProvidedFeatures = [],
        providedFeatures = [], injectedFields = [\<lparr>featureName = ''store'', isRequired = True, pointText = ''s''\<rparr>],
        requiredFeatures = [''base'']\<rparr>,
      \<lparr>extensionName = ''store'', extensionKind = OtherExtension, defaultProvidedFeatures = [],
        providedFeatures = [''store''], injectedFields = [], requiredFeatures = []\<rparr>,
      \<lparr>extensionName = ''base'', extensionKind = BaseExtension, defaultProvidedFeatures = [''base''],
        providedFeatures = [], injectedFields = [], requiredFeatures = []\<rparr>]"

lemma bootExample_order:
  "map_option (map_sum id (map (\<lambda>c. extensionName (fst c)))) (dependencyGraph bootExample) =
     Some (Inr [''base'', ''store'', ''api''])"
  by code_simp

theorem dependency_graph_spec_witness:
  "distinct bootExample \<and> startable bootExample"
proof -
  have d: "distinct bootExample" by code_simp
  obtain r where "dependencyGraph bootExample = Some r" "isl r \<longleftrightarrow> \<not> startable bootExample"
    using dependency_graph_spec [OF d] by blast
  with d show ?thesis using bootExample_order by (cases r) auto
qed

end
