(* ===== verification/Sql_Transaction.thy ===== *)
theory Sql_Transaction
  imports EDC_Prelude
begin

text \<open>
  Transactions and statements: \<open>extensions/transaction/transaction-local/.../LocalTransactionContext.java\<close>
  with its one resource \<open>DataSourceResource\<close>, and \<open>extensions/sql/common-sql/.../SqlQueryExecutor.java\<close>.
  A session is what the thread of a call sees: the database as it was committed, the one its
  transaction works on, and the transaction itself, with \<open>rollbackOnly\<close>. Transactions of different
  threads follow each other. The database may fail at any statement (\<open>statementsLeft\<close> more succeed,
  \<open>None\<close> is all of them) or at the commit, and \<open>databaseError\<close> is its message. Random identifiers are a
  supply that is used up.
\<close>

record 'db session =
  committed :: 'db
  current :: 'db
  rollbackOnly :: "bool option"
  statementsLeft :: "nat option"
  databaseError :: string
  commitFails :: bool
  randomIds :: "nat \<Rightarrow> string"

section \<open>Transactions\<close>

text \<open>What is thrown in a block is an \<open>EdcException\<close> outside it; \<open>catch (Exception)\<close> lets an error pass.\<close>

definition isError :: "java_exn \<Rightarrow> bool" where
  "isError e = (case e of JavaError m \<Rightarrow> True | _ \<Rightarrow> False)"

definition rethrown :: "java_exn \<Rightarrow> java_exn" where
  "rethrown e = (if isError e then e else EdcException (exnMessage e))"

definition runBlock :: "('db session, 'a) op \<Rightarrow> ('db session, 'a) op" where
  "runBlock block s =
     (case block s of
        (Inr a, s') \<Rightarrow> (Inr a, s')
      | (Inl e, s') \<Rightarrow> (Inl (rethrown e), if isError e then s' else s'\<lparr>rollbackOnly := Some True\<rparr>))"

definition startTransaction :: "'db session \<Rightarrow> 'db session" where
  "startTransaction s = s\<lparr>rollbackOnly := Some False, current := committed s\<rparr>"

text \<open>The \<open>finally\<close> block of the call that started the transaction; what a commit throws is logged.\<close>

definition endTransaction :: "'db session \<Rightarrow> 'db session" where
  "endTransaction s =
     s\<lparr>committed := (if rollbackOnly s = Some True \<or> commitFails s then committed s else current s),
       rollbackOnly := None\<rparr>"

definition execute :: "('db session, 'a) op \<Rightarrow> ('db session, 'a) op" where
  "execute block s =
     (case rollbackOnly s of
        None \<Rightarrow> (case runBlock block (startTransaction s) of (r, s') \<Rightarrow> (r, endTransaction s'))
      | Some _ \<Rightarrow> runBlock block s)"

section \<open>Statements\<close>

text \<open>One statement; an exception of the database or of the mapping of its result is an \<open>EdcPersistenceException\<close>.\<close>

definition statementDone :: "'db session \<Rightarrow> 'db session" where
  "statementDone s = s\<lparr>statementsLeft := map_option (\<lambda>n. n - 1) (statementsLeft s)\<rparr>"

text \<open>A reading query, with the mapping of its result; the message is that of an error of the database.\<close>

definition executeQuery :: "(string \<Rightarrow> 'db \<Rightarrow> java_exn + 'a) \<Rightarrow> ('db session, 'a) op" where
  "executeQuery q s =
     (if statementsLeft s = Some 0 then (Inl (EdcException (databaseError s)), s)
      else (map_sum (\<lambda>e. EdcException (exnMessage e)) id (q (databaseError s) (current s)), statementDone s))"

text \<open>A statement that changes tables; \<open>None\<close> where it violates a constraint.\<close>

definition executeUpdate :: "('db \<Rightarrow> 'db option) \<Rightarrow> ('db session, unit) op" where
  "executeUpdate u s =
     (if statementsLeft s = Some 0 then (Inl (EdcException (databaseError s)), s)
      else case u (current s) of
             None \<Rightarrow> (Inl (EdcException (databaseError s)), s)
           | Some db \<Rightarrow> (Inr (), statementDone (s\<lparr>current := db\<rparr>)))"

definition randomUUID :: "('db session, string) op" where
  "randomUUID s = (Inr (randomIds s 0), s\<lparr>randomIds := \<lambda>n. randomIds s (Suc n)\<rparr>)"

section \<open>Inside a transaction\<close>

text \<open>A block works on the tables of its transaction only, and draws from the supply of identifiers.\<close>

definition within :: "'db session \<Rightarrow> 'db session \<Rightarrow> bool" where
  "within s0 s \<longleftrightarrow> rollbackOnly s \<noteq> None \<and> committed s = committed s0 \<and> commitFails s = commitFails s0 \<and>
     (\<exists>m. randomIds s = (\<lambda>n. randomIds s0 (m + n)))"

lemma withinD: "within s0 s \<Longrightarrow> \<exists>b. rollbackOnly s = Some b"
  by (auto simp: within_def)

lemma keeps_executeQuery [intro]: "keeps (within s0) (executeQuery q)"
  by (auto simp: keeps_def within_def executeQuery_def statementDone_def)

lemma keeps_executeUpdate [intro]: "keeps (within s0) (executeUpdate u)"
  by (auto simp: keeps_def within_def executeUpdate_def statementDone_def split: option.splits)

lemma keeps_randomUUID [intro]: "keeps (within s0) randomUUID"
proof (rule keepsI)
  fix s assume s: "within s0 s"
  then obtain m where m: "randomIds s = (\<lambda>n. randomIds s0 (m + n))" by (auto simp: within_def)
  then have "\<exists>m. (\<lambda>n. randomIds s (Suc n)) = (\<lambda>n. randomIds s0 (m + n))" by (intro exI [of _ "Suc m"]) simp
  then show "within s0 (snd (randomUUID s))" using s by (simp add: within_def randomUUID_def)
qed

lemma keeps_runBlock: "keeps (within s0) m \<Longrightarrow> keeps (within s0) (runBlock m)"
  by (fastforce simp: keeps_def within_def runBlock_def split: prod.splits sum.splits)

lemma keeps_execute [intro]: "keeps (within s0) m \<Longrightarrow> keeps (within s0) (execute m)"
proof (rule keepsI)
  fix s assume m: "keeps (within s0) m" and s: "within s0 s"
  from withinD [OF s] obtain b where "rollbackOnly s = Some b" ..
  with keepsD [OF keeps_runBlock [OF m] s] show "within s0 (snd (execute m s))" by (simp add: execute_def)
qed

text \<open>A nested transaction that returns is the block itself.\<close>

lemma execute_nested_Inr:
  "rollbackOnly s \<noteq> None \<Longrightarrow> execute m s = (Inr a, s') \<longleftrightarrow> m s = (Inr a, s')"
  by (auto simp: execute_def runBlock_def split: prod.splits sum.splits)

lemma execute_nested_Inl:
  "rollbackOnly s \<noteq> None \<Longrightarrow> m s = (Inl e, s') \<Longrightarrow> \<not> isError e \<Longrightarrow>
     execute m s = (Inl (EdcException (exnMessage e)), s'\<lparr>rollbackOnly := Some True\<rparr>)"
  by (auto simp: execute_def runBlock_def rethrown_def)

lemma executeQuery_Inr:
  "executeQuery q s = (Inr a, s') \<longleftrightarrow> statementsLeft s \<noteq> Some 0 \<and> q (databaseError s) (current s) = Inr a \<and> s' = statementDone s"
  by (cases "q (databaseError s) (current s)") (auto simp: executeQuery_def)

lemma executeUpdate_Inr:
  "executeUpdate u s = (Inr (), s') \<longleftrightarrow>
     statementsLeft s \<noteq> Some 0 \<and> (\<exists>db. u (current s) = Some db \<and> s' = statementDone (s\<lparr>current := db\<rparr>))"
  by (auto simp: executeUpdate_def split: option.splits)

text \<open>The outermost transaction: what an exception leaves is what was committed before.\<close>

lemma within_start [simp]: "within s (startTransaction s)"
  by (auto simp: within_def startTransaction_def intro: exI [of _ 0])

lemma execute_outer:
  assumes "rollbackOnly s = None" "keeps (within s) m" "execute m s = (r, s')"
  obtains (returned) a s1 where "m (startTransaction s) = (Inr a, s1)" "r = Inr a"
      "within s s1" "s' = endTransaction s1"
  | (thrown) e s1 where "m (startTransaction s) = (Inl e, s1)" "r = Inl (rethrown e)"
      "within s s1" "randomIds s' = randomIds s1" "rollbackOnly s' = None"
      "commitFails s' = commitFails s" "\<not> isError e \<Longrightarrow> committed s' = committed s"
proof -
  obtain x s1 where x: "m (startTransaction s) = (x, s1)" by (cases "m (startTransaction s)")
  have w: "within s s1" using keepsD [OF assms(2) within_start] x by simp
  show thesis
  proof (cases x)
    case (Inl e)
    with assms(1,3) x w show thesis
      by (intro thrown [of e s1])
        (auto simp: execute_def runBlock_def endTransaction_def within_def split: if_splits)
  next
    case (Inr a)
    with assms(1,3) x w show thesis
      by (intro returned [of a s1]) (auto simp: execute_def runBlock_def)
  qed
qed

text \<open>Operations that throw exceptions only.\<close>

definition noError :: "('s, 'a) op \<Rightarrow> bool" where
  "noError m \<longleftrightarrow> (\<forall>s e s'. m s = (Inl e, s') \<longrightarrow> \<not> isError e)"

lemma isError_simps [simp]: "\<not> isError (EdcException m)" "\<not> isError (IllegalStateException m)"
  by (simp_all add: isError_def)

lemma noErrorD: "noError m \<Longrightarrow> m s = (Inl e, s') \<Longrightarrow> \<not> isError e"
  by (auto simp: noError_def)

lemma noError_andThen:
  assumes "noError m" "\<And>a. noError (f a)"
  shows "noError (andThen m f)"
proof -
  have "\<not> isError e" if "andThen m f s = (Inl e, s')" for s e s'
    using that by (cases rule: andThen_cases) (use noErrorD [OF assms(1)] noErrorD [OF assms(2)] in auto)
  then show ?thesis by (simp add: noError_def)
qed

lemma noError_basic:
  "noError (ret a)" "noError (gets h)" "noError randomUUID" "noError (executeQuery q)" "noError (executeUpdate u)"
  "\<not> isError e \<Longrightarrow> noError (throw e)" "(\<And>e. r = Inl e \<Longrightarrow> \<not> isError e) \<Longrightarrow> noError (liftE r)"
  unfolding noError_def executeQuery_def executeUpdate_def randomUUID_def
  by (auto simp: map_sum_def split: if_splits option.splits sum.splits)

lemma noError_execute: "noError m \<Longrightarrow> noError (execute m)"
  unfolding noError_def execute_def runBlock_def rethrown_def
  by (auto split: option.splits prod.splits sum.splits if_splits)

lemma noError_forEachM: "(\<And>x. noError (f x)) \<Longrightarrow> noError (forEachM xs f)"
  by (induction xs) (simp_all add: noError_andThen noError_basic)

lemmas noError_intros = noError_andThen noError_basic noError_execute noError_forEachM
lemmas within_intros = keeps_execute keeps_andThen keeps_executeQuery keeps_executeUpdate keeps_randomUUID
  keeps_pure keeps_forEachM

text \<open>What an operation returns, whatever the tables hold.\<close>

definition yields :: "('a \<Rightarrow> bool) \<Rightarrow> ('s, 'a) op \<Rightarrow> bool" where
  "yields P m \<longleftrightarrow> (\<forall>s a. fst (m s) = Inr a \<longrightarrow> P a)"

lemma yieldsD: "yields P m \<Longrightarrow> fst (m s) = Inr a \<Longrightarrow> P a"
  by (simp add: yields_def)

lemma yields_andThen:
  assumes "yields Q m" "\<And>a. Q a \<Longrightarrow> yields P (f a)"
  shows "yields P (andThen m f)"
  unfolding yields_def
proof (intro allI impI)
  fix s a assume "fst (andThen m f s) = Inr a"
  then obtain b s1 where "m s = (Inr b, s1)" "fst (f b s1) = Inr a"
    by (auto simp: andThen_def split: prod.splits sum.splits)
  then show "P a" using yieldsD [OF assms(1), of s b] yieldsD [OF assms(2), of b s1 a] by simp
qed

lemma yields_executeQuery: "(\<And>message db a. q message db = Inr a \<Longrightarrow> P a) \<Longrightarrow> yields P (executeQuery q)"
  by (auto simp: yields_def executeQuery_def map_sum_def split: sum.splits)

lemma yields_execute: "yields P m \<Longrightarrow> yields P (execute m)"
proof -
  have "fst (runBlock m s) = Inr a \<longleftrightarrow> fst (m s) = Inr a" for s a
    by (cases "m s"; cases "fst (m s)") (simp_all add: runBlock_def)
  then show "yields P m \<Longrightarrow> yields P (execute m)"
    by (simp add: yields_def execute_def split: option.split prod.split) (metis fst_conv)
qed

lemma yields_any: "(\<And>a. P a) \<Longrightarrow> yields P m"
  by (simp add: yields_def)

lemma yields_pure: "P a \<Longrightarrow> yields P (ret a)" "(\<And>a. r = Inr a \<Longrightarrow> P a) \<Longrightarrow> yields P (liftE r)"
  by (auto simp: yields_def)

text \<open>A transaction whose block throws an exception leaves nothing.\<close>

lemma execute_rolled_back:
  assumes "rollbackOnly s = None" "keeps (within s) m" "noError m" "execute m s = (Inl e, s')"
  shows "committed s' = committed s \<and> rollbackOnly s' = None \<and> commitFails s' = commitFails s \<and>
    (\<exists>n. randomIds s' = (\<lambda>i. randomIds s (n + i)))"
proof -
  from assms(1,2,4) obtain e s1 where "m (startTransaction s) = (Inl e, s1)" "within s s1"
    "randomIds s' = randomIds s1" "rollbackOnly s' = None" "commitFails s' = commitFails s"
    "\<not> isError e \<Longrightarrow> committed s' = committed s"
    by (cases rule: execute_outer) auto
  with assms(3) show ?thesis by (auto simp: noError_def within_def)
qed

lemma execute_isl:
  assumes "rollbackOnly s = None" "keeps (within s) m" "noError m" "isl (fst (execute m s))"
  shows "committed (snd (execute m s)) = committed s"
proof -
  obtain e where "fst (execute m s) = Inl e" using assms(4) unfolding isl_def by blast
  then have "execute m s = (Inl e, snd (execute m s))" by (metis prod.collapse)
  from execute_rolled_back [OF assms(1-3) this] show ?thesis by simp
qed

text \<open>An outermost transaction is a nested one between its start and its end.\<close>

lemma execute_start:
  "rollbackOnly s = None \<Longrightarrow> execute m s = map_prod id endTransaction (execute m (startTransaction s))"
  by (auto simp: execute_def startTransaction_def split: prod.split)

end
