(* ===== verification/Sql_Lease.thy ===== *)
theory Sql_Lease
  imports Sql_Transaction Leasing
begin

text \<open>
  Leases in SQL: \<open>extensions/sql/lease-sql\<close>, with the statements that \<open>BaseSqlDialectStatements\<close> of the
  two stores give it. A lease is a row of its own table; the row of an entity refers to it by a foreign
  key, \<open>ON DELETE SET NULL\<close> (\<open>docs/schema.sql\<close> of the stores). Tables are lists of rows. Times are
  milliseconds of the epoch, whose sum with a duration does not reach the bounds of \<open>long\<close>.
\<close>

record sqlLease = lease +
  leaseId :: string

record leasedRow =
  rowId :: string
  rowLease :: "string option"

text \<open>The table of the entities and the one that is joined to it: data requests, or agreements.\<close>

record ('a, 'b) database =
  leaseTable :: "sqlLease list"
  entityTable :: "'a leasedRow_scheme list"
  relatedTable :: "'b list"

type_synonym ('a, 'b) sqlSession = "('a, 'b) database session"

section \<open>Statements\<close>

definition findLeaseByEntity :: "string \<Rightarrow> ('a, 'b) database \<Rightarrow> sqlLease list" where
  "findLeaseByEntity ident db =
     filter (\<lambda>l. \<exists>r \<in> set (entityTable db). rowId r = ident \<and> rowLease r = Some (leaseId l)) (leaseTable db)"

definition deleteLease :: "string \<Rightarrow> ('a, 'b) database \<Rightarrow> ('a, 'b) database" where
  "deleteLease lid db =
     db\<lparr>leaseTable := filter (\<lambda>l. leaseId l \<noteq> lid) (leaseTable db),
        entityTable := map (\<lambda>r. if rowLease r = Some lid then r\<lparr>rowLease := None\<rparr> else r) (entityTable db)\<rparr>"

definition insertLease :: "sqlLease \<Rightarrow> ('a, 'b) database \<Rightarrow> ('a, 'b) database option" where
  "insertLease l db =
     (if leaseId l \<in> leaseId ` set (leaseTable db) then None
      else Some (db\<lparr>leaseTable := leaseTable db @ [l]\<rparr>))"

definition setLease :: "string \<Rightarrow> string \<Rightarrow> 'a leasedRow_scheme list \<Rightarrow> 'a leasedRow_scheme list" where
  "setLease lid ident rows = map (\<lambda>r. if rowId r = ident then r\<lparr>rowLease := Some lid\<rparr> else r) rows"

definition updateLease :: "string \<Rightarrow> string \<Rightarrow> ('a, 'b) database \<Rightarrow> ('a, 'b) database option" where
  "updateLease lid ident db =
     (if ident \<in> rowId ` set (entityTable db) \<and> lid \<notin> leaseId ` set (leaseTable db) then None
      else Some (db\<lparr>entityTable := setLease lid ident (entityTable db)\<rparr>))"

section \<open>SqlLeaseContext\<close>

definition sqlLease_isExpired :: "int \<Rightarrow> 'a lease_scheme \<Rightarrow> bool" where
  "sqlLease_isExpired now l \<longleftrightarrow> leasedAt l + leaseDuration l < now"

definition sql_getLease :: "string \<Rightarrow> (('a, 'b) sqlSession, sqlLease option) op" where
  "sql_getLease ident =
     andThen (executeQuery (\<lambda>_ db. Inr (findLeaseByEntity ident db))) (\<lambda>ls.
     ret (case ls of [] \<Rightarrow> None | l # _ \<Rightarrow> Some l))"

definition sql_breakLease :: "string \<Rightarrow> string \<Rightarrow> (('a, 'b) sqlSession, unit) op" where
  "sql_breakLease leaseHolder ident =
     execute (andThen (sql_getLease ident) (\<lambda>lease.
       case lease of
         None \<Rightarrow> ret ()
       | Some l \<Rightarrow>
           if leaseHolder \<noteq> leasedBy l
           then throw (IllegalStateException (''Current runtime does not hold the lease for Object (id ['' @ ident @
                  '']), cannot break lease!''))
           else executeUpdate (\<lambda>db. Some (deleteLease (leaseId l) db))))"

text \<open>The clean-up passes the identifier of the entity to the statement that deletes a lease by its own.\<close>

definition sql_acquireLease ::
  "string \<Rightarrow> int option \<Rightarrow> int \<Rightarrow> string \<Rightarrow> (('a, 'b) sqlSession, unit) op" where
  "sql_acquireLease leaseHolder duration now ident =
     execute (andThen (sql_getLease ident) (\<lambda>lease.
       if (case lease of None \<Rightarrow> False | Some l \<Rightarrow> \<not> sqlLease_isExpired now l)
       then throw (IllegalStateException ''Entity is currently leased!'')
       else
         andThen (executeUpdate (\<lambda>db. Some (deleteLease ident db))) (\<lambda>_.
         andThen randomUUID (\<lambda>lid.
         andThen (executeUpdate (insertLease
             \<lparr>leasedBy = leaseHolder, leasedAt = now,
              leaseDuration = (case duration of None \<Rightarrow> 60000 | Some d \<Rightarrow> d), leaseId = lid\<rparr>)) (\<lambda>_.
         executeUpdate (updateLease lid ident))))))"

text \<open>The condition on leases in \<open>getNextForStateTemplate\<close>.\<close>

definition leaseFree :: "int \<Rightarrow> ('a, 'b) database \<Rightarrow> 'c leasedRow_scheme \<Rightarrow> bool" where
  "leaseFree now db r \<longleftrightarrow>
     (case rowLease r of
        None \<Rightarrow> True
      | Some lid \<Rightarrow> \<exists>l \<in> set (leaseTable db). leaseId l = lid \<and> leasedAt l + leaseDuration l < now)"

section \<open>Well-formed tables\<close>

text \<open>Primary and foreign keys; and no two entities share a lease.\<close>

definition db_ok :: "('a, 'b) database \<Rightarrow> bool" where
  "db_ok db \<longleftrightarrow>
     distinct (map rowId (entityTable db)) \<and> distinct (map leaseId (leaseTable db)) \<and>
     (\<forall>r \<in> set (entityTable db). \<forall>lid. rowLease r = Some lid \<longrightarrow> lid \<in> leaseId ` set (leaseTable db)) \<and>
     (\<forall>r \<in> set (entityTable db). \<forall>r' \<in> set (entityTable db).
        rowLease r \<noteq> None \<longrightarrow> rowLease r = rowLease r' \<longrightarrow> rowId r = rowId r')"

text \<open>Random identifiers do not repeat, and are neither those of leases nor of entities.\<close>

definition ids_fresh :: "(nat \<Rightarrow> string) \<Rightarrow> ('a, 'b) database \<Rightarrow> bool" where
  "ids_fresh ids db \<longleftrightarrow> inj ids \<and>
     range ids \<inter> (leaseId ` set (leaseTable db) \<union> rowId ` set (entityTable db)) = {} \<and>
     leaseId ` set (leaseTable db) \<inter> rowId ` set (entityTable db) = {}"

section \<open>Leases by entity\<close>

text \<open>The lease of an entity: what the two tables stand for.\<close>

definition leaseOf :: "('a, 'b) database \<Rightarrow> string \<Rightarrow> sqlLease option" where
  "leaseOf db ident = (case findLeaseByEntity ident db of [] \<Rightarrow> None | l # _ \<Rightarrow> Some l)"

definition leases :: "('a, 'b) database \<Rightarrow> string \<Rightarrow> lease option" where
  "leases db ident = map_option lease.truncate (leaseOf db ident)"

lemma db_ok_row:
  "db_ok db \<Longrightarrow> r \<in> set (entityTable db) \<Longrightarrow> r' \<in> set (entityTable db) \<Longrightarrow> rowId r = rowId r' \<Longrightarrow> r = r'"
  unfolding db_ok_def distinct_map by (blast dest: inj_onD)

lemma db_ok_lease:
  "db_ok db \<Longrightarrow> l \<in> set (leaseTable db) \<Longrightarrow> l' \<in> set (leaseTable db) \<Longrightarrow> leaseId l = leaseId l' \<Longrightarrow> l = l'"
  unfolding db_ok_def distinct_map by (blast dest: inj_onD)

lemma db_ok_fk:
  "db_ok db \<Longrightarrow> r \<in> set (entityTable db) \<Longrightarrow> rowLease r = Some lid \<Longrightarrow> \<exists>l \<in> set (leaseTable db). leaseId l = lid"
  unfolding db_ok_def by fastforce

lemma db_ok_share:
  "db_ok db \<Longrightarrow> r \<in> set (entityTable db) \<Longrightarrow> r' \<in> set (entityTable db) \<Longrightarrow>
     rowLease r = Some lid \<Longrightarrow> rowLease r' = Some lid \<Longrightarrow> r = r'"
  using db_ok_row [of db r r'] unfolding db_ok_def by (metis option.distinct(1))

lemma leaseOf_mem: "leaseOf db k = Some l \<Longrightarrow> l \<in> set (findLeaseByEntity k db)"
  by (cases "findLeaseByEntity k db") (simp_all add: leaseOf_def)

lemma leaseOf_None: "leaseOf db k = None \<longleftrightarrow> findLeaseByEntity k db = []"
  by (cases "findLeaseByEntity k db") (simp_all add: leaseOf_def)

lemma findLease_mem:
  "l \<in> set (findLeaseByEntity k db) \<longleftrightarrow>
     l \<in> set (leaseTable db) \<and> (\<exists>r \<in> set (entityTable db). rowId r = k \<and> rowLease r = Some (leaseId l))"
  by (auto simp: findLeaseByEntity_def)

lemma leaseOf_Some:
  assumes "db_ok db"
  shows "leaseOf db k = Some l \<longleftrightarrow>
    l \<in> set (leaseTable db) \<and> (\<exists>r \<in> set (entityTable db). rowId r = k \<and> rowLease r = Some (leaseId l))"
proof -
  have single: "l = l'" if "l \<in> set (findLeaseByEntity k db)" "l' \<in> set (findLeaseByEntity k db)" for l l'
    using that db_ok_row [OF assms] db_ok_lease [OF assms] unfolding findLease_mem by (metis option.inject)
  have "leaseOf db k = Some l \<longleftrightarrow> l \<in> set (findLeaseByEntity k db)"
    using single leaseOf_mem [of db k] leaseOf_None [of db k]
    by (metis empty_iff list.set(1) not_Some_eq)
  then show ?thesis by (simp add: findLease_mem)
qed

lemma leaseOf_eqI: "(\<And>l. leaseOf db k = Some l \<longleftrightarrow> leaseOf db' k' = Some l) \<Longrightarrow> leaseOf db k = leaseOf db' k'"
  by (metis option.exhaust)

lemma leaseOf_row:
  assumes "db_ok db" "r \<in> set (entityTable db)"
  shows "leaseOf db (rowId r) = Some l \<longleftrightarrow> l \<in> set (leaseTable db) \<and> rowLease r = Some (leaseId l)"
  unfolding leaseOf_Some [OF assms(1)] using assms(2) db_ok_row [OF assms(1)] by blast

lemma leaseFree_leaseOf:
  assumes "db_ok db" "r \<in> set (entityTable db)"
  shows "leaseFree now db r \<longleftrightarrow> (\<forall>l. leaseOf db (rowId r) = Some l \<longrightarrow> sqlLease_isExpired now l)"
proof (cases "rowLease r")
  case None
  then show ?thesis by (simp add: leaseFree_def leaseOf_row [OF assms])
next
  case (Some lid)
  then obtain l where l: "l \<in> set (leaseTable db)" "leaseId l = lid" using db_ok_fk [OF assms] by blast
  then have "leaseOf db (rowId r) = Some l" using Some by (simp add: leaseOf_row [OF assms])
  moreover have "leaseFree now db r \<longleftrightarrow> sqlLease_isExpired now l"
    using Some l db_ok_lease [OF assms(1)] unfolding leaseFree_def sqlLease_isExpired_def
    by (simp, blast)
  ultimately show ?thesis by simp
qed

section \<open>Acquiring a lease\<close>

definition newLease :: "string \<Rightarrow> int option \<Rightarrow> int \<Rightarrow> string \<Rightarrow> sqlLease" where
  "newLease h d now lid = \<lparr>leasedBy = h, leasedAt = now,
     leaseDuration = (case d of None \<Rightarrow> 60000 | Some d \<Rightarrow> d), leaseId = lid\<rparr>"

definition leaseEntity ::
  "string \<Rightarrow> int option \<Rightarrow> int \<Rightarrow> string \<Rightarrow> string \<Rightarrow> ('a, 'b) database \<Rightarrow> ('a, 'b) database" where
  "leaseEntity h d now lid k db =
     db\<lparr>leaseTable := leaseTable db @ [newLease h d now lid], entityTable := setLease lid k (entityTable db)\<rparr>"

lemma newLease_simps [simp]:
  "leaseId (newLease h d now lid) = lid" "leasedBy (newLease h d now lid) = h"
  "leasedAt (newLease h d now lid) = now"
  by (simp_all add: newLease_def)

lemma leaseEntity_simps [simp]:
  "leaseTable (leaseEntity h d now lid k db) = leaseTable db @ [newLease h d now lid]"
  "entityTable (leaseEntity h d now lid k db) = setLease lid k (entityTable db)"
  "relatedTable (leaseEntity h d now lid k db) = relatedTable db"
  by (simp_all add: leaseEntity_def)

lemma setLease_ids [simp]: "map rowId (setLease lid k rows) = map rowId rows"
  by (induction rows) (simp_all add: setLease_def)

lemma setLease_id_set [simp]: "rowId ` set (setLease lid k rows) = rowId ` set rows"
  by (metis setLease_ids list.set_map)

lemma setLease_mem:
  "(\<exists>r \<in> set (setLease lid k rows). rowId r = k' \<and> rowLease r = Some i) \<longleftrightarrow>
     (\<exists>r \<in> set rows. rowId r = k' \<and> (if k' = k then i = lid else rowLease r = Some i))"
  by (induction rows) (auto simp: setLease_def)

lemma setLease_cases:
  assumes "r \<in> set (setLease lid k rows)" "rowLease r = Some i"
  obtains (old) r0 where "r0 \<in> set rows" "rowId r0 = rowId r" "rowLease r0 = Some i" | (new) "i = lid" "rowId r = k"
  using assms by (auto simp: setLease_def split: if_splits)

lemma db_ok_leaseEntity:
  assumes ok: "db_ok db" and lid: "lid \<notin> leaseId ` set (leaseTable db)"
  shows "db_ok (leaseEntity h d now lid k db)"
proof -
  have fk: "rowLease r \<noteq> Some lid" if "r \<in> set (entityTable db)" for r
    using db_ok_fk [OF ok that] lid by auto
  have "rowId r = rowId r'"
    if "r \<in> set (setLease lid k (entityTable db))" "r' \<in> set (setLease lid k (entityTable db))"
      "rowLease r \<noteq> None" "rowLease r = rowLease r'" for r r'
  proof -
    from that(3,4) obtain i where i: "rowLease r = Some i" "rowLease r' = Some i" by auto
    show ?thesis
      using that(1) i(1)
    proof (cases rule: setLease_cases)
      case (old r0)
      show ?thesis using that(2) i(2)
        by (cases rule: setLease_cases) (use old fk db_ok_share [OF ok] in \<open>metis, metis\<close>)
    next
      case new
      show ?thesis using that(2) i(2)
        by (cases rule: setLease_cases) (use new fk in \<open>metis, metis\<close>)
    qed
  qed
  moreover have "i = lid \<or> i \<in> leaseId ` set (leaseTable db)"
    if "r \<in> set (setLease lid k (entityTable db))" "rowLease r = Some i" for r i
    using that by (cases rule: setLease_cases) (use db_ok_fk [OF ok] in blast)+
  ultimately show ?thesis
    using ok lid unfolding db_ok_def by simp metis
qed

lemma leaseOf_leaseEntity:
  assumes ok: "db_ok db" and lid: "lid \<notin> leaseId ` set (leaseTable db)"
  shows "leaseOf (leaseEntity h d now lid k db) k' =
    (if k' = k \<and> k \<in> rowId ` set (entityTable db) then Some (newLease h d now lid) else leaseOf db k')"
proof -
  note ok' = db_ok_leaseEntity [OF assms, of h d now k]
  have fk: "rowLease r \<noteq> Some lid" if "r \<in> set (entityTable db)" for r
    using db_ok_fk [OF ok that] lid by auto
  show ?thesis
  proof (cases "k' = k \<and> k \<in> rowId ` set (entityTable db)")
    case True
    then have "leaseOf (leaseEntity h d now lid k db) k' = Some (newLease h d now lid)"
      unfolding leaseOf_Some [OF ok'] by (simp add: setLease_mem, blast)
    with True show ?thesis by simp
  next
    case False
    have "leaseOf (leaseEntity h d now lid k db) k' = leaseOf db k'"
    proof (rule leaseOf_eqI)
      show "leaseOf (leaseEntity h d now lid k db) k' = Some l \<longleftrightarrow> leaseOf db k' = Some l" for l
        unfolding leaseOf_Some [OF ok'] leaseOf_Some [OF ok] leaseEntity_simps setLease_mem
        using False fk lid by auto
    qed
    with False show ?thesis by auto
  qed
qed

text \<open>The clean-up finds no lease to delete.\<close>

lemma deleteLease_absent:
  assumes "db_ok db" "lid \<notin> leaseId ` set (leaseTable db)"
  shows "deleteLease lid db = db"
proof -
  have "rowLease r \<noteq> Some lid" if "r \<in> set (entityTable db)" for r
    using db_ok_fk [OF assms(1) that] assms(2) by auto
  then have "map (\<lambda>r. if rowLease r = Some lid then r\<lparr>rowLease := None\<rparr> else r) (entityTable db) = entityTable db"
    by (intro map_idI) simp
  moreover have "filter (\<lambda>l. leaseId l \<noteq> lid) (leaseTable db) = leaseTable db"
    using assms(2) by (auto simp: filter_id_conv)
  ultimately show ?thesis by (simp add: deleteLease_def)
qed

lemma sql_getLease_run:
  "statementsLeft s \<noteq> Some 0 \<Longrightarrow> sql_getLease k s = (Inr (leaseOf (current s) k), statementDone s)"
  by (simp add: sql_getLease_def andThen_def executeQuery_def leaseOf_def)

lemma statementDone_simps [simp]:
  "committed (statementDone s) = committed s" "current (statementDone s) = current s"
  "rollbackOnly (statementDone s) = rollbackOnly s" "randomIds (statementDone s) = randomIds s"
  "commitFails (statementDone s) = commitFails s" "databaseError (statementDone s) = databaseError s"
  "statementsLeft s = None \<Longrightarrow> statementDone s = s"
  by (simp_all add: statementDone_def)

definition isLeased :: "int \<Rightarrow> ('a, 'b) database \<Rightarrow> string \<Rightarrow> bool" where
  "isLeased now db k \<longleftrightarrow> (\<exists>l. leaseOf db k = Some l \<and> \<not> sqlLease_isExpired now l)"

lemma isLeased_case:
  "(case leaseOf db k of None \<Rightarrow> False | Some l \<Rightarrow> \<not> sqlLease_isExpired now l) \<longleftrightarrow> isLeased now db k"
  by (auto simp: isLeased_def split: option.splits)

text \<open>Tables and identifiers as they are in the course of a transaction.\<close>

definition session_ok :: "('a, 'b) sqlSession \<Rightarrow> bool" where
  "session_ok s \<longleftrightarrow> rollbackOnly s \<noteq> None \<and> db_ok (current s) \<and> ids_fresh (randomIds s) (current s)"

text \<open>The session after a lease was acquired.\<close>

definition acquired ::
  "string \<Rightarrow> int option \<Rightarrow> int \<Rightarrow> string \<Rightarrow> ('a, 'b) sqlSession \<Rightarrow> ('a, 'b) sqlSession" where
  "acquired h d now k s =
     s\<lparr>randomIds := \<lambda>n. randomIds s (Suc n), current := leaseEntity h d now (randomIds s 0) k (current s)\<rparr>"

lemma ids_freshD:
  assumes "ids_fresh ids db"
  shows "ids n \<notin> leaseId ` set (leaseTable db)" "ids n \<notin> rowId ` set (entityTable db)"
    "k \<in> rowId ` set (entityTable db) \<Longrightarrow> k \<notin> leaseId ` set (leaseTable db)"
  using assms unfolding ids_fresh_def by blast+

lemma ids_fresh_leaseEntity:
  assumes "ids_fresh ids db"
  shows "ids_fresh (\<lambda>n. ids (Suc n)) (leaseEntity h d now (ids 0) k db)"
  using assms ids_freshD [OF assms] unfolding ids_fresh_def by (auto simp: inj_on_def)

lemma acquired_ok: "session_ok s \<Longrightarrow> session_ok (acquired h d now k s)"
  by (simp add: session_ok_def acquired_def db_ok_leaseEntity ids_fresh_leaseEntity ids_freshD)

lemma setLease_fk: "ids_fresh ids db \<Longrightarrow> updateLease (ids 0) k (db\<lparr>leaseTable := leaseTable db @ [newLease h d now (ids 0)]\<rparr>) =
    Some (leaseEntity h d now (ids 0) k db)"
  by (simp add: updateLease_def leaseEntity_def)

lemma sql_acquireLease_Inr:
  assumes ok: "session_ok s" and k: "k \<in> rowId ` set (entityTable (current s))"
    and run: "sql_acquireLease h d now k s = (Inr (), s')"
  shows "\<not> isLeased now (current s) k \<and> (\<exists>n. s' = (acquired h d now k s)\<lparr>statementsLeft := n\<rparr>)"
proof -
  have fresh: "ids_fresh (randomIds s) (current s)" and db: "db_ok (current s)" and t: "rollbackOnly s \<noteq> None"
    using ok by (auto simp: session_ok_def)
  note del = deleteLease_absent [OF db ids_freshD(3) [OF fresh k]]
  have ins: "insertLease (newLease h d now (randomIds s 0)) (current s) =
      Some ((current s)\<lparr>leaseTable := leaseTable (current s) @ [newLease h d now (randomIds s 0)]\<rparr>)"
    using ids_freshD(1) [OF fresh] by (simp add: insertLease_def)
  from run have "statementsLeft s \<noteq> Some 0"
    by (auto simp: sql_acquireLease_def execute_nested_Inr [OF t] andThen_Inr sql_getLease_def executeQuery_Inr)
  with run t show ?thesis
    by (auto simp: sql_acquireLease_def execute_nested_Inr andThen_Inr sql_getLease_run isLeased_case
        executeUpdate_Inr randomUUID_def del newLease_def [symmetric] ins setLease_fk [OF fresh]
        acquired_def statementDone_def intro!: exI [where P = "\<lambda>n. _ = _\<lparr>statementsLeft := n\<rparr>"] split: if_splits)
qed

text \<open>The same with a database that works, on every branch.\<close>

definition failedWith :: "string \<Rightarrow> ('a, 'b) sqlSession \<Rightarrow> (java_exn + 'c) \<times> ('a, 'b) sqlSession" where
  "failedWith m s = (Inl (EdcException m), s\<lparr>rollbackOnly := Some True\<rparr>)"

lemma sql_acquireLease_run:
  assumes ok: "session_ok s" and k: "k \<in> rowId ` set (entityTable (current s))" and w: "statementsLeft s = None"
  shows "sql_acquireLease h d now k s =
    (if isLeased now (current s) k then failedWith ''Entity is currently leased!'' s
     else (Inr (), acquired h d now k s))"
proof -
  have fresh: "ids_fresh (randomIds s) (current s)" and db: "db_ok (current s)" and t: "rollbackOnly s \<noteq> None"
    using ok by (auto simp: session_ok_def)
  note del = deleteLease_absent [OF db ids_freshD(3) [OF fresh k]]
  have ins: "insertLease (newLease h d now (randomIds s 0)) (current s) =
      Some ((current s)\<lparr>leaseTable := leaseTable (current s) @ [newLease h d now (randomIds s 0)]\<rparr>)"
    using ids_freshD(1) [OF fresh] by (simp add: insertLease_def)
  show ?thesis
    using t w by (auto simp: sql_acquireLease_def execute_def runBlock_def andThen_def sql_getLease_run isLeased_case
        executeUpdate_def randomUUID_def del newLease_def [symmetric] ins setLease_fk [OF fresh]
        acquired_def statementDone_def failedWith_def rethrown_def isError_def)
qed

section \<open>Breaking a lease\<close>

lemma deleteLease_ids [simp]: "map rowId (entityTable (deleteLease lid db)) = map rowId (entityTable db)"
  by (simp add: deleteLease_def comp_def if_distrib [of rowId] cong: if_cong)

lemma deleteLease_mem:
  "(\<exists>r \<in> set (entityTable (deleteLease lid db)). rowId r = k \<and> rowLease r = Some i) \<longleftrightarrow>
     i \<noteq> lid \<and> (\<exists>r \<in> set (entityTable db). rowId r = k \<and> rowLease r = Some i)"
  by (auto simp: deleteLease_def)

lemma deleteLease_leases: "set (leaseTable (deleteLease lid db)) = {l \<in> set (leaseTable db). leaseId l \<noteq> lid}"
  by (auto simp: deleteLease_def)

lemma deleteLease_row:
  "r \<in> set (entityTable (deleteLease lid db)) \<Longrightarrow> rowLease r = Some i \<Longrightarrow> r \<in> set (entityTable db) \<and> i \<noteq> lid"
  by (auto simp: deleteLease_def split: if_splits)

lemma db_ok_deleteLease:
  assumes "db_ok db"
  shows "db_ok (deleteLease lid db)"
proof -
  have "distinct (map leaseId (leaseTable (deleteLease lid db)))"
    using assms by (auto simp: db_ok_def deleteLease_def intro: distinct_map_filter)
  moreover have "i \<in> leaseId ` set (leaseTable (deleteLease lid db))"
    if "r \<in> set (entityTable (deleteLease lid db))" "rowLease r = Some i" for r i
    using deleteLease_row [OF that] db_ok_fk [OF assms, of r i] that(2) unfolding deleteLease_leases by auto
  moreover have "rowId r = rowId r'" if "r \<in> set (entityTable (deleteLease lid db))"
    "r' \<in> set (entityTable (deleteLease lid db))" "rowLease r \<noteq> None" "rowLease r = rowLease r'" for r r'
    using that deleteLease_row [of r lid db] deleteLease_row [of r' lid db] db_ok_share [OF assms]
    by (metis option.exhaust)
  ultimately show ?thesis using assms unfolding db_ok_def deleteLease_ids by metis
qed

lemma leaseOf_deleteLease:
  assumes "db_ok db" "leaseOf db k = Some l"
  shows "leaseOf (deleteLease (leaseId l) db) k' = (if k' = k then None else leaseOf db k')"
proof -
  note ok' = db_ok_deleteLease [OF assms(1), of "leaseId l"]
  obtain r where r: "r \<in> set (entityTable db)" "rowId r = k" "rowLease r = Some (leaseId l)"
    using assms(2) unfolding leaseOf_Some [OF assms(1)] by blast
  have "leaseOf (deleteLease (leaseId l) db) k' = Some l' \<longleftrightarrow> k' \<noteq> k \<and> leaseOf db k' = Some l'" for l'
    unfolding leaseOf_Some [OF ok'] leaseOf_Some [OF assms(1)] deleteLease_mem deleteLease_leases
    using r db_ok_share [OF assms(1)] db_ok_row [OF assms(1)] by (smt (verit) mem_Collect_eq option.inject)
  then show ?thesis by (metis option.exhaust)
qed

lemma sql_breakLease_run:
  assumes t: "rollbackOnly s \<noteq> None" and w: "statementsLeft s = None"
  shows "sql_breakLease h k s =
    (case leaseOf (current s) k of
       None \<Rightarrow> (Inr (), s)
     | Some l \<Rightarrow>
         if leasedBy l = h then (Inr (), s\<lparr>current := deleteLease (leaseId l) (current s)\<rparr>)
         else failedWith (''Current runtime does not hold the lease for Object (id ['' @ k @ '']), cannot break lease!'') s)"
  using t w by (auto simp: sql_breakLease_def execute_def runBlock_def andThen_def sql_getLease_run
      executeUpdate_def failedWith_def rethrown_def isError_def split: option.splits)

section \<open>The abstract leases\<close>

text \<open>What a lease context promises, on a map of leases; \<open>None\<close> is a refusal.\<close>

definition acquireSpec :: "string \<Rightarrow> int \<Rightarrow> string \<Rightarrow> (string \<Rightarrow> lease option) \<Rightarrow> (string \<Rightarrow> lease option) option" where
  "acquireSpec h now k m =
     (if \<exists>l. m k = Some l \<and> \<not> sqlLease_isExpired now l then None
      else Some (m(k \<mapsto> \<lparr>leasedBy = h, leasedAt = now, leaseDuration = 60000\<rparr>)))"

definition breakSpec :: "string \<Rightarrow> string \<Rightarrow> (string \<Rightarrow> lease option) \<Rightarrow> (string \<Rightarrow> lease option) option" where
  "breakSpec h k m =
     (case m k of None \<Rightarrow> Some m | Some l \<Rightarrow> if leasedBy l = h then Some (m(k := None)) else None)"

definition implements ::
  "(('a, 'b) sqlSession, unit) op \<Rightarrow> ((string \<Rightarrow> lease option) \<Rightarrow> (string \<Rightarrow> lease option) option) \<Rightarrow>
   ('a, 'b) sqlSession \<Rightarrow> bool" where
  "implements m spec s \<longleftrightarrow>
     (case spec (leases (current s)) of
        None \<Rightarrow> isl (fst (m s)) \<and> current (snd (m s)) = current s \<and> rollbackOnly (snd (m s)) = Some True
      | Some ls \<Rightarrow> fst (m s) = Inr () \<and> leases (current (snd (m s))) = ls \<and> session_ok (snd (m s)))"

lemma leases_Some: "leases db k = Some l \<longleftrightarrow> (\<exists>l'. leaseOf db k = Some l' \<and> l = lease.truncate l')"
  by (auto simp: leases_def)

lemma truncate_simps [simp]:
  "leasedBy (lease.truncate l) = leasedBy l" "sqlLease_isExpired now (lease.truncate l) = sqlLease_isExpired now l"
  by (simp_all add: lease.truncate_def sqlLease_isExpired_def)

lemma isLeased_leases: "(\<exists>l. leases db k = Some l \<and> \<not> sqlLease_isExpired now l) \<longleftrightarrow> isLeased now db k"
  by (auto simp: leases_Some isLeased_def)

lemma leases_leaseEntity:
  "db_ok db \<Longrightarrow> lid \<notin> leaseId ` set (leaseTable db) \<Longrightarrow> k \<in> rowId ` set (entityTable db) \<Longrightarrow>
     leases (leaseEntity h None now lid k db) =
       (leases db)(k \<mapsto> \<lparr>leasedBy = h, leasedAt = now, leaseDuration = 60000\<rparr>)"
  by (auto simp: fun_eq_iff leases_def leaseOf_leaseEntity newLease_def lease.truncate_def)

lemma leases_deleteLease:
  "db_ok db \<Longrightarrow> leaseOf db k = Some l \<Longrightarrow> leases (deleteLease (leaseId l) db) = (leases db)(k := None)"
  by (auto simp: fun_eq_iff leases_def leaseOf_deleteLease)

lemma fresh_sets:
  "B' = B \<Longrightarrow> A' \<subseteq> A \<Longrightarrow> P \<and> R \<inter> (A \<union> B) = {} \<and> A \<inter> B = {} \<Longrightarrow> P \<and> R \<inter> (A' \<union> B') = {} \<and> A' \<inter> B' = {}"
  by blast

lemma session_ok_deleteLease:
  assumes "session_ok s"
  shows "session_ok (s\<lparr>current := deleteLease lid (current s)\<rparr>)"
proof -
  have "rowId ` set (entityTable (deleteLease lid (current s))) = rowId ` set (entityTable (current s))"
    using arg_cong [where f = set, OF deleteLease_ids [of lid "current s"]] unfolding list.set_map .
  moreover have "leaseId ` set (leaseTable (deleteLease lid (current s))) \<subseteq> leaseId ` set (leaseTable (current s))"
    unfolding deleteLease_leases by (intro image_mono) simp
  moreover have "ids_fresh (randomIds s) (current s)" using assms by (simp add: session_ok_def)
  ultimately have "ids_fresh (randomIds s) (deleteLease lid (current s))"
    unfolding ids_fresh_def by (rule fresh_sets)
  then show ?thesis using assms db_ok_deleteLease [of "current s" lid] by (simp add: session_ok_def)
qed

text \<open>
  (C22) The tables of leases and entities implement a map from entities to leases: with a database that
  works, acquiring and breaking the lease of an entity do to the map what is promised, and are refused,
  with the transaction marked for rollback, exactly when that refuses them.
\<close>

theorem sql_lease_refines:
  assumes "session_ok s" "k \<in> rowId ` set (entityTable (current s))" "statementsLeft s = None"
  shows "implements (sql_acquireLease h None now k) (acquireSpec h now k) s \<and>
         implements (sql_breakLease h k) (breakSpec h k) s"
proof
  have db: "db_ok (current s)" and f: "randomIds s 0 \<notin> leaseId ` set (leaseTable (current s))"
    and t: "rollbackOnly s \<noteq> None"
    using assms(1) ids_freshD(1) by (auto simp: session_ok_def)
  show "implements (sql_acquireLease h None now k) (acquireSpec h now k) s"
    unfolding implements_def acquireSpec_def isLeased_leases sql_acquireLease_run [OF assms]
    using acquired_ok [OF assms(1)] leases_leaseEntity [OF db f assms(2)]
    by (simp add: failedWith_def acquired_def)
  show "implements (sql_breakLease h k) (breakSpec h k) s"
    unfolding implements_def breakSpec_def sql_breakLease_run [OF t assms(3)]
    using session_ok_deleteLease [OF assms(1)] leases_deleteLease [OF db] assms(1)
    by (auto simp: leases_def failedWith_def split: option.splits)
qed

section \<open>The leases of a batch\<close>

text \<open>What a database holds besides leases.\<close>

definition unleased :: "('a, 'b) database \<Rightarrow> 'a leasedRow_scheme list \<times> 'b list" where
  "unleased db = (map (\<lambda>r. r\<lparr>rowLease := None\<rparr>) (entityTable db), relatedTable db)"

lemma unleased_leaseEntity [simp]: "unleased (leaseEntity h d now lid k db) = unleased db"
  by (simp add: unleased_def setLease_def)

lemma unleased_deleteLease [simp]: "unleased (deleteLease lid db) = unleased db"
  by (simp add: unleased_def deleteLease_def)

lemma unleased_rowIds: "unleased db = unleased db' \<Longrightarrow> map rowId (entityTable db) = map rowId (entityTable db')"
proof -
  assume "unleased db = unleased db'"
  then have "map rowId (map (\<lambda>r. r\<lparr>rowLease := None\<rparr>) (entityTable db)) =
      map rowId (map (\<lambda>r. r\<lparr>rowLease := None\<rparr>) (entityTable db'))" by (simp add: unleased_def del: map_map)
  then show ?thesis by (simp add: comp_def)
qed

lemma acquired_simps [simp]:
  "current (acquired h d now k s) = leaseEntity h d now (randomIds s 0) k (current s)"
  "statementsLeft (acquired h d now k s) = statementsLeft s"
  "rollbackOnly (acquired h d now k s) = rollbackOnly s"
  "acquired h d now k (s\<lparr>statementsLeft := n\<rparr>) = (acquired h d now k s)\<lparr>statementsLeft := n\<rparr>"
  by (simp_all add: acquired_def)

lemma session_ok_statementsLeft [simp]: "session_ok (s\<lparr>statementsLeft := n\<rparr>) = session_ok s"
  by (simp add: session_ok_def)

lemma fold_acquired_statementsLeft:
  "fold (acquired h d now) ks (s\<lparr>statementsLeft := n\<rparr>) = (fold (acquired h d now) ks s)\<lparr>statementsLeft := n\<rparr>"
  by (induction ks arbitrary: s) simp_all

lemma acquire_all_Inr:
  "session_ok s \<Longrightarrow> set ks \<subseteq> rowId ` set (entityTable (current s)) \<Longrightarrow>
     forEachM ks (sql_acquireLease h d now) s = (Inr (), s') \<Longrightarrow>
     \<exists>n. s' = (fold (acquired h d now) ks s)\<lparr>statementsLeft := n\<rparr>"
proof (induction ks arbitrary: s)
  case Nil
  then show ?case by (auto intro!: exI [of _ "statementsLeft s"])
next
  case (Cons k ks)
  from Cons.prems(3) obtain s1 where s1: "sql_acquireLease h d now k s = (Inr (), s1)"
    "forEachM ks (sql_acquireLease h d now) s1 = (Inr (), s')" by (auto simp: andThen_Inr)
  obtain n where n: "s1 = (acquired h d now k s)\<lparr>statementsLeft := n\<rparr>"
    using sql_acquireLease_Inr [OF Cons.prems(1) _ s1(1)] Cons.prems(2) by auto
  with Cons.IH [of s1] s1(2) acquired_ok [OF Cons.prems(1), of h d now k] Cons.prems(2) show ?case
    by (auto simp: fold_acquired_statementsLeft)
qed

lemma fold_acquired:
  "session_ok s \<Longrightarrow> set ks \<subseteq> rowId ` set (entityTable (current s)) \<Longrightarrow>
     session_ok (fold (acquired h None now) ks s) \<and>
     rollbackOnly (fold (acquired h None now) ks s) = rollbackOnly s \<and>
     unleased (current (fold (acquired h None now) ks s)) = unleased (current s) \<and>
     leases (current (fold (acquired h None now) ks s)) =
       (\<lambda>k. if k \<in> set ks then Some \<lparr>leasedBy = h, leasedAt = now, leaseDuration = 60000\<rparr>
            else leases (current s) k)"
proof (induction ks arbitrary: s)
  case (Cons k ks)
  let ?s = "acquired h None now k s"
  have f: "randomIds s 0 \<notin> leaseId ` set (leaseTable (current s))" and db: "db_ok (current s)"
    using Cons.prems(1) ids_freshD(1) by (auto simp: session_ok_def)
  have "leases (current ?s) = (leases (current s))(k \<mapsto> \<lparr>leasedBy = h, leasedAt = now, leaseDuration = 60000\<rparr>)"
    using leases_leaseEntity [OF db f] Cons.prems(2) by simp
  with Cons.IH [OF acquired_ok [OF Cons.prems(1)], of h None now k] Cons.prems(2) show ?case by (auto simp: fun_eq_iff)
qed simp

lemma isLeased_leaseEntity:
  "db_ok db \<Longrightarrow> lid \<notin> leaseId ` set (leaseTable db) \<Longrightarrow> k' \<noteq> k \<Longrightarrow>
     isLeased now' (leaseEntity h d now lid k db) k' = isLeased now' db k'"
  by (simp add: isLeased_def leaseOf_leaseEntity)

lemma acquire_all_run:
  "session_ok s \<Longrightarrow> statementsLeft s = None \<Longrightarrow> distinct ks \<Longrightarrow> set ks \<subseteq> rowId ` set (entityTable (current s)) \<Longrightarrow>
     \<forall>k \<in> set ks. \<not> isLeased now (current s) k \<Longrightarrow>
     forEachM ks (sql_acquireLease h d now) s = (Inr (), fold (acquired h d now) ks s)"
proof (induction ks arbitrary: s)
  case (Cons k ks)
  have f: "randomIds s 0 \<notin> leaseId ` set (leaseTable (current s))" and db: "db_ok (current s)"
    using Cons.prems(1) ids_freshD(1) by (auto simp: session_ok_def)
  have "sql_acquireLease h d now k s = (Inr (), acquired h d now k s)"
    using sql_acquireLease_run [OF Cons.prems(1) _ Cons.prems(2)] Cons.prems(4,5) by simp
  moreover have "\<not> isLeased now (current (acquired h d now k s)) k'" if "k' \<in> set ks" for k'
  proof -
    have "k' \<noteq> k" using Cons.prems(3) that by auto
    from isLeased_leaseEntity [OF db f this] show ?thesis using Cons.prems(5) that by simp
  qed
  ultimately show ?case
    using Cons.IH [OF acquired_ok [OF Cons.prems(1)], of h d now k] Cons.prems by (simp add: andThen_def)
qed simp

lemma keeps_sql_leases [intro]:
  "keeps (within s0) (sql_getLease k)"
  "keeps (within s0) (sql_acquireLease h d now k)"
  "keeps (within s0) (sql_breakLease h k)"
  unfolding sql_getLease_def sql_acquireLease_def sql_breakLease_def
  by (auto intro!: keeps_execute keeps_andThen keeps_executeQuery keeps_executeUpdate keeps_randomUUID
      split: option.split)

lemma noError_sql_leases:
  "noError (sql_acquireLease h d now k)" "noError (sql_breakLease h k)"
  unfolding sql_getLease_def sql_acquireLease_def sql_breakLease_def
  by (auto intro!: noError_intros split: option.split)

end
