(* ===== verification/Sql_Leasing.thy ===== *)
theory Sql_Leasing
  imports Sql_Lease
begin

text \<open>
  Handing out leased entities from SQL tables, which the stores of transfer processes and of negotiations
  do alike: the entities that a query selects are leased one by one, in the same transaction. The
  query of a store is the interface \<open>leased_query\<close>; where it selects free entities only, the store
  keeps the contract \<open>lease_source\<close>.
\<close>

text \<open>\<open>nextForState\<close> of the stores; the query is given the message of an error of the database.\<close>

definition handOut ::
  "(string \<Rightarrow> ('a, 'b) database \<Rightarrow> java_exn + 'e list) \<Rightarrow> ('e \<Rightarrow> string) \<Rightarrow> string \<Rightarrow> int \<Rightarrow>
   (('a, 'b) sqlSession, 'e list) op" where
  "handOut query ident leaseHolder now =
     execute (andThen (executeQuery query) (\<lambda>es.
       andThen (forEachM es (\<lambda>e. sql_acquireLease leaseHolder None now (ident e))) (\<lambda>_.
       ret es)))"

text \<open>A session between two calls, of a store with the tables \<open>ok\<close>, whose commits work.\<close>

definition sessionOk :: "(('a, 'b) database \<Rightarrow> bool) \<Rightarrow> ('a, 'b) sqlSession \<Rightarrow> bool" where
  "sessionOk ok s \<longleftrightarrow> rollbackOnly s = None \<and> \<not> commitFails s \<and> ok (committed s) \<and>
     ids_fresh (randomIds s) (committed s)"

text \<open>A call with its holder, its time, and the number of statements after which the database fails.\<close>

type_synonym sqlCall = "string \<times> int \<times> nat option"

definition sqlFetch ::
  "(int \<Rightarrow> int \<Rightarrow> int \<Rightarrow> string \<Rightarrow> ('a, 'b) database \<Rightarrow> java_exn + 'e list) \<Rightarrow> ('e \<Rightarrow> string) \<Rightarrow>
   int \<Rightarrow> int \<Rightarrow> sqlCall \<Rightarrow> (('a, 'b) sqlSession, 'e list) op" where
  "sqlFetch select ident st limit q s =
     (case q of (h, now, left) \<Rightarrow> handOut (select st limit now) ident h now (s\<lparr>statementsLeft := left\<rparr>))"

definition sqlFree :: "sqlCall \<Rightarrow> ('a, 'b) sqlSession \<Rightarrow> string \<Rightarrow> bool" where
  "sqlFree q s k \<longleftrightarrow> k \<in> rowId ` set (entityTable (committed s)) \<and> \<not> isLeased (fst (snd q)) (committed s) k"

definition sqlBefore :: "sqlCall \<Rightarrow> sqlCall \<Rightarrow> bool" where
  "sqlBefore q q' \<longleftrightarrow> fst (snd q) \<le> fst (snd q')"

definition sqlCovers :: "sqlCall \<Rightarrow> sqlCall \<Rightarrow> bool" where
  "sqlCovers q q' \<longleftrightarrow> fst (snd q') \<le> fst (snd q) + 60000"

section \<open>What the stores share\<close>

definition leftJoin :: "('r \<Rightarrow> 'd \<Rightarrow> bool) \<Rightarrow> 'd list \<Rightarrow> 'r list \<Rightarrow> ('r \<times> 'd option) list" where
  "leftJoin on ds rs =
     concat (map (\<lambda>r. case filter (on r) ds of [] \<Rightarrow> [(r, None)] | js \<Rightarrow> map (\<lambda>d. (r, Some d)) js) rs)"

definition single :: "'x list \<Rightarrow> java_exn + 'x option" where
  "single xs =
     (case xs of
        [] \<Rightarrow> Inr None
      | [x] \<Rightarrow> Inr (Some x)
      | _ \<Rightarrow> Inl (IllegalStateException (''Expected to find 1 items, but found '' @ showNat (length xs))))"

lemma single_noError: "single xs = Inl e \<Longrightarrow> \<not> isError e"
  by (auto simp: single_def split: list.splits)

lemma filter_unique: "distinct (map f xs) \<Longrightarrow> x \<in> set xs \<Longrightarrow> filter (\<lambda>y. f y = f x) xs = [x]"
proof (induction xs)
  case (Cons y ys)
  show ?case
  proof (cases "x = y")
    case True
    with Cons.prems(1) show ?thesis by (auto simp: filter_empty_conv image_iff)
  next
    case False
    with Cons show ?thesis by (auto simp: image_iff)
  qed
qed simp

lemma filter_key_le1: "distinct (map f ds) \<Longrightarrow> length (filter (\<lambda>d. f d = k) ds) \<le> 1"
  by (induction ds) (auto simp: filter_empty_conv image_iff)

lemma leftJoin_fst:
  "(\<And>r. r \<in> set rs \<Longrightarrow> length (filter (on r) ds) \<le> 1) \<Longrightarrow> map fst (leftJoin on ds rs) = rs"
proof (induction rs)
  case (Cons r rs)
  then have "length (filter (on r) ds) \<le> 1" by simp
  then have "map fst (case filter (on r) ds of [] \<Rightarrow> [(r, None)] | js \<Rightarrow> map (\<lambda>d. (r, Some d)) js) = [r]"
    by (cases "filter (on r) ds") auto
  with Cons show ?case by (simp add: leftJoin_def)
qed (simp add: leftJoin_def)

lemma leftJoin_cong: "(\<And>r d. r \<in> set rs \<Longrightarrow> d \<in> set ds \<Longrightarrow> on r d = on' r d) \<Longrightarrow> leftJoin on ds rs = leftJoin on' ds rs"
proof -
  assume c: "\<And>r d. r \<in> set rs \<Longrightarrow> d \<in> set ds \<Longrightarrow> on r d = on' r d"
  have "filter (on r) ds = filter (on' r) ds" if "r \<in> set rs" for r
    using c [OF that] by (intro filter_cong) auto
  then show ?thesis by (simp add: leftJoin_def cong: map_cong)
qed

section \<open>Tables and leases\<close>

text \<open>Leases only depend on the identifiers and the lease column of the rows.\<close>

lemma lease_columns:
  assumes "leaseTable db' = leaseTable db" "entityTable db' = map f (entityTable db)"
    and f: "\<And>r. rowId (f r) = rowId r" "\<And>r. rowLease (f r) = rowLease r"
  shows "leases db' = leases db" "db_ok db' = db_ok db" "map rowId (entityTable db') = map rowId (entityTable db)"
  using assms by (simp_all add: fun_eq_iff leases_def leaseOf_def findLeaseByEntity_def db_ok_def comp_def)

lemma lease_columns_snoc:
  assumes "leaseTable db' = leaseTable db" "entityTable db' = entityTable db @ [r]" "rowLease r = None"
  shows "leases db' = leases db" "rowId r \<notin> rowId ` set (entityTable db) \<Longrightarrow> db_ok db \<Longrightarrow> db_ok db'"
proof -
  show "leases db' = leases db"
    using assms by (simp add: fun_eq_iff leases_def leaseOf_def findLeaseByEntity_def)
  assume new: "rowId r \<notin> rowId ` set (entityTable db)" and ok: "db_ok db"
  have "rowId x = rowId y" if "x \<in> set (entityTable db')" "y \<in> set (entityTable db')"
    "rowLease x \<noteq> None" "rowLease x = rowLease y" for x y
  proof -
    have "x \<in> set (entityTable db)" "y \<in> set (entityTable db)" using that assms(2,3) by auto
    with ok that(3,4) show ?thesis unfolding db_ok_def by blast
  qed
  then have share: "\<forall>x \<in> set (entityTable db'). \<forall>y \<in> set (entityTable db').
      rowLease x \<noteq> None \<longrightarrow> rowLease x = rowLease y \<longrightarrow> rowId x = rowId y" by blast
  have "distinct (map rowId (entityTable db'))" "\<forall>x \<in> set (entityTable db'). \<forall>lid. rowLease x = Some lid \<longrightarrow>
      lid \<in> leaseId ` set (leaseTable db')"
    using assms new ok by (simp_all add: db_ok_def)
  with share ok assms(1) show "db_ok db'" unfolding db_ok_def by metis
qed

definition brokenLease :: "string \<Rightarrow> ('a, 'b) database \<Rightarrow> ('a, 'b) database" where
  "brokenLease k db = (case leaseOf db k of None \<Rightarrow> db | Some l \<Rightarrow> deleteLease (leaseId l) db)"

definition heldByOther :: "string \<Rightarrow> string \<Rightarrow> ('a, 'b) database \<Rightarrow> bool" where
  "heldByOther h k db \<longleftrightarrow> (\<exists>l. leases db k = Some l \<and> leasedBy l \<noteq> h)"

lemma brokenLease_facts:
  assumes "db_ok db"
  shows "db_ok (brokenLease k db)" "leases (brokenLease k db) = (leases db)(k := None)"
    "unleased (brokenLease k db) = unleased db"
proof -
  have "leases db = (leases db)(k := None)" if "leaseOf db k = None" using that by (simp add: fun_eq_iff leases_def)
  then show "leases (brokenLease k db) = (leases db)(k := None)"
    using leases_deleteLease [OF assms, of k] by (simp add: brokenLease_def split: option.split)
qed (simp_all add: brokenLease_def assms db_ok_deleteLease split: option.split)

lemma heldByOther_absent: "k \<notin> rowId ` set (entityTable db) \<Longrightarrow> leaseOf db k = None"
  by (auto simp: leaseOf_None findLeaseByEntity_def filter_empty_conv)

lemma heldByOther_leaseOf: "heldByOther h k db \<longleftrightarrow> (\<exists>l. leaseOf db k = Some l \<and> leasedBy l \<noteq> h)"
  by (auto simp: heldByOther_def leases_Some)

section \<open>Facts on sessions\<close>

lemma sessionOk_statementsLeft [simp]: "sessionOk ok (s\<lparr>statementsLeft := n\<rparr>) = sessionOk ok s"
  by (simp add: sessionOk_def)

lemma ids_fresh_shift: "ids_fresh ids db \<Longrightarrow> ids_fresh (\<lambda>i. ids (n + i)) db"
proof -
  assume f: "ids_fresh ids db"
  have "range (\<lambda>i. ids (n + i)) \<subseteq> range ids" by blast
  moreover have "inj (\<lambda>i. ids (n + i))"
  proof (rule injI)
    fix x y assume e: "ids (n + x) = ids (n + y)"
    have "inj ids" using f by (simp add: ids_fresh_def)
    from injD [OF this e] show "x = y" by simp
  qed
  ultimately show ?thesis using f unfolding ids_fresh_def by (meson disjoint_iff subsetD)
qed

lemma sql_rowIds:
  "unleased (committed s') = unleased (committed s) \<Longrightarrow>
     rowId ` set (entityTable (committed s')) = rowId ` set (entityTable (committed s))"
  using arg_cong [where f = set, OF unleased_rowIds] unfolding list.set_map .

lemma forEachM_map: "forEachM xs (\<lambda>x. f (g x)) = forEachM (map g xs) f"
  by (induction xs) simp_all

lemma keeps_handOut:
  "keeps (within s0) (andThen (executeQuery q) (\<lambda>es.
     andThen (forEachM es (\<lambda>e. sql_acquireLease h None now (ident e))) (\<lambda>_. ret es)))"
  by (auto intro!: within_intros)

lemma noError_handOut:
  "noError (andThen (executeQuery q) (\<lambda>es.
     andThen (forEachM es (\<lambda>e. sql_acquireLease h None now (ident e))) (\<lambda>_. ret es)))"
  by (auto intro!: noError_intros noError_sql_leases)

section \<open>Queries for free entities\<close>

locale leased_query =
  fixes select :: "int \<Rightarrow> int \<Rightarrow> int \<Rightarrow> string \<Rightarrow> ('a, 'b) database \<Rightarrow> java_exn + 'e list"
    and ident :: "'e \<Rightarrow> string"
    and tables_ok :: "('a, 'b) database \<Rightarrow> bool"
  assumes tables_db_ok: "tables_ok db \<Longrightarrow> db_ok db"
    and tables_unleased: "tables_ok db \<Longrightarrow> unleased db' = unleased db \<Longrightarrow> db_ok db' \<Longrightarrow> tables_ok db'"
    and select_free:
      "tables_ok db \<Longrightarrow> select st n now m db = Inr es \<Longrightarrow> e \<in> set es \<Longrightarrow>
       ident e \<in> rowId ` set (entityTable db) \<and> \<not> isLeased now db (ident e)"
    and select_distinct: "tables_ok db \<Longrightarrow> select st n now m db = Inr es \<Longrightarrow> distinct (map ident es)"
begin

lemma session_ok_start: "sessionOk tables_ok s \<Longrightarrow> session_ok (startTransaction s)"
  by (simp add: sessionOk_def session_ok_def startTransaction_def tables_db_ok)

text \<open>A session at the end of a call that has leased some entities.\<close>

lemma leased_end:
  assumes ok: "sessionOk tables_ok s" and ks: "set ks \<subseteq> rowId ` set (entityTable (committed s))"
    and s0: "session_ok s0" "current s0 = committed s" "rollbackOnly s0 = Some False"
    and s1: "s1 = (fold (acquired h None now) ks s0)\<lparr>statementsLeft := n\<rparr>" "commitFails s1 = commitFails s"
  shows "sessionOk tables_ok (endTransaction s1)"
    and "unleased (committed (endTransaction s1)) = unleased (committed s)"
    and "leases (committed (endTransaction s1)) = (\<lambda>k. if k \<in> set ks
       then Some \<lparr>leasedBy = h, leasedAt = now, leaseDuration = 60000\<rparr> else leases (committed s) k)"
proof -
  note f = fold_acquired [OF s0(1), unfolded s0(2,3), OF ks, of h now]
  have end': "committed (endTransaction s1) = current s1"
    using f s1 ok by (simp add: endTransaction_def sessionOk_def)
  show un: "unleased (committed (endTransaction s1)) = unleased (committed s)"
    unfolding end' using f by (simp add: s1(1))
  show "leases (committed (endTransaction s1)) = (\<lambda>k. if k \<in> set ks
       then Some \<lparr>leasedBy = h, leasedAt = now, leaseDuration = 60000\<rparr> else leases (committed s) k)"
    unfolding end' using f by (simp add: s1(1))
  have "session_ok s1" using f by (simp add: s1(1))
  then have "db_ok (committed (endTransaction s1))" "ids_fresh (randomIds s1) (committed (endTransaction s1))"
    unfolding end' by (simp_all add: session_ok_def)
  moreover have "randomIds (endTransaction s1) = randomIds s1" "rollbackOnly (endTransaction s1) = None"
    "commitFails (endTransaction s1) = commitFails s1" by (simp_all add: endTransaction_def)
  ultimately show "sessionOk tables_ok (endTransaction s1)"
    using ok s1(2) tables_unleased [OF _ un] by (simp add: sessionOk_def)
qed

text \<open>A batch that is handed out has been selected from the tables, and is leased in them.\<close>

lemma handOut_Inr:
  assumes ok: "sessionOk tables_ok s" and run: "handOut (select st n now) ident h now s = (Inr es, s')"
  shows "select st n now (databaseError s) (committed s) = Inr es"
    and "sessionOk tables_ok s'" "unleased (committed s') = unleased (committed s)"
    and "leases (committed s') = (\<lambda>k. if k \<in> ident ` set es
       then Some \<lparr>leasedBy = h, leasedAt = now, leaseDuration = 60000\<rparr> else leases (committed s) k)"
proof -
  let ?s = "startTransaction s"
  have t: "rollbackOnly s = None" and db: "tables_ok (committed s)" using ok by (auto simp: sessionOk_def)
  from execute_outer [OF t keeps_handOut run [unfolded handOut_def]]
  obtain s1 where s1: "andThen (executeQuery (select st n now)) (\<lambda>es.
       andThen (forEachM es (\<lambda>e. sql_acquireLease h None now (ident e))) (\<lambda>_. ret es)) ?s = (Inr es, s1)"
    "within s s1" "s' = endTransaction s1" by auto
  show sel: "select st n now (databaseError s) (committed s) = Inr es"
    using s1(1) by (auto simp: andThen_Inr executeQuery_Inr startTransaction_def)
  have acq: "forEachM (map ident es) (sql_acquireLease h None now) (statementDone ?s) = (Inr (), s1)"
    using s1(1) by (auto simp: andThen_Inr executeQuery_Inr forEachM_map)
  have ks: "set (map ident es) \<subseteq> rowId ` set (entityTable (committed s))"
    using select_free [OF db sel] by auto
  have s0: "session_ok (statementDone ?s)" "current (statementDone ?s) = committed s"
    "rollbackOnly (statementDone ?s) = Some False"
    using session_ok_start [OF ok] by (simp_all add: statementDone_def startTransaction_def)
  obtain m where m: "s1 = (fold (acquired h None now) (map ident es) (statementDone ?s))\<lparr>statementsLeft := m\<rparr>"
    using acquire_all_Inr [OF s0(1) _ acq] ks unfolding s0(2) by blast
  have "commitFails s1 = commitFails s" using s1(2) by (simp add: within_def)
  note e = leased_end [OF ok ks s0 m this, folded s1(3)]
  show "sessionOk tables_ok s'" "unleased (committed s') = unleased (committed s)"
    "leases (committed s') = (\<lambda>k. if k \<in> ident ` set es
       then Some \<lparr>leasedBy = h, leasedAt = now, leaseDuration = 60000\<rparr> else leases (committed s) k)"
    using e by simp_all
qed

text \<open>A call that throws has changed nothing.\<close>

lemma handOut_Inl:
  assumes "sessionOk tables_ok s" "handOut q ident h now s = (Inl e, s')"
  shows "committed s' = committed s" "sessionOk tables_ok s'"
proof -
  have t: "rollbackOnly s = None" using assms(1) by (simp add: sessionOk_def)
  from execute_rolled_back [OF t keeps_handOut noError_handOut assms(2) [unfolded handOut_def]] assms(1)
  show "committed s' = committed s" "sessionOk tables_ok s'"
    by (auto simp: sessionOk_def ids_fresh_shift)
qed

lemma handOut_throws:
  assumes "sessionOk tables_ok s" "select st n now (databaseError s) (committed s) = Inl e"
  shows "isl (fst (handOut (select st n now) ident h now s))"
proof (cases "handOut (select st n now) ident h now s")
  case (Pair r s')
  then show ?thesis using assms(2) handOut_Inr(1) [OF assms(1), of st n now h _ s'] by (cases r) auto
qed

text \<open>With a database that works, whatever the query selects is handed out.\<close>

lemma handOut_run:
  assumes ok: "sessionOk tables_ok s" and w: "statementsLeft s = None"
    and sel: "select st n now (databaseError s) (committed s) = Inr es"
  shows "\<exists>s'. handOut (select st n now) ident h now s = (Inr es, s')"
proof -
  let ?s = "startTransaction s"
  have t: "rollbackOnly s = None" and db: "tables_ok (committed s)" using ok by (auto simp: sessionOk_def)
  have s: "current ?s = committed s" "statementsLeft ?s = None" "databaseError ?s = databaseError s" "rollbackOnly ?s = Some False"
    using w by (simp_all add: startTransaction_def)
  have ks: "set (map ident es) \<subseteq> rowId ` set (entityTable (current ?s))"
    "\<forall>k \<in> set (map ident es). \<not> isLeased now (current ?s) k"
    using select_free [OF db sel] s(1) by auto
  note acq = acquire_all_run [OF session_ok_start [OF ok] s(2) select_distinct [OF db sel] ks, of h None]
  have "handOut (select st n now) ident h now ?s = (Inr es, fold (acquired h None now) (map ident es) ?s)"
    using acq sel s by (simp add: handOut_def execute_def runBlock_def andThen_def executeQuery_def forEachM_map)
  then show ?thesis unfolding handOut_def by (simp only: execute_start [OF t]) simp
qed

text \<open>With a commit that fails, the batch is handed out all the same, and no lease is stored.\<close>

lemma handOut_uncommitted:
  assumes ok: "sessionOk tables_ok s" and w: "statementsLeft s = None"
    and sel: "select st n now (databaseError s) (committed s) = Inr es"
  shows "\<exists>s'. handOut (select st n now) ident h now (s\<lparr>commitFails := True\<rparr>) = (Inr es, s') \<and>
    committed s' = committed s"
proof -
  let ?c = "s\<lparr>commitFails := True\<rparr>" and ?s = "startTransaction (s\<lparr>commitFails := True\<rparr>)"
  let ?block = "andThen (executeQuery (select st n now)) (\<lambda>es.
     andThen (forEachM es (\<lambda>e. sql_acquireLease h None now (ident e))) (\<lambda>_. ret es))"
  have t: "rollbackOnly ?c = None" and db: "tables_ok (committed s)" using ok by (auto simp: sessionOk_def)
  have s: "current ?s = committed s" "statementsLeft ?s = None" "databaseError ?s = databaseError s"
    using w by (simp_all add: startTransaction_def)
  have start: "session_ok ?s"
    using session_ok_start [OF ok] by (simp add: session_ok_def startTransaction_def)
  have ks: "set (map ident es) \<subseteq> rowId ` set (entityTable (current ?s))"
    "\<forall>k \<in> set (map ident es). \<not> isLeased now (current ?s) k"
    using select_free [OF db sel] s(1) by auto
  note acq = acquire_all_run [OF start s(2) select_distinct [OF db sel] ks, of h None]
  have run: "?block ?s = (Inr es, fold (acquired h None now) (map ident es) ?s)"
    using acq sel s by (simp add: andThen_def executeQuery_def forEachM_map)
  obtain r s' where x: "execute ?block ?c = (r, s')" by (cases "execute ?block ?c")
  from t keeps_handOut x show ?thesis
  proof (cases rule: execute_outer)
    case (returned a s1)
    then have "r = Inr es" "committed s' = committed s"
      using run by (simp_all add: endTransaction_def within_def)
    with x show ?thesis by (simp add: handOut_def)
  qed (use run in simp)
qed

end

text \<open>The contract of the state machines, unless a commit fails.\<close>

sublocale leased_query \<subseteq> source: lease_source "sqlFetch select ident" ident sqlFree sqlBefore sqlCovers "sessionOk tables_ok"
proof unfold_locales
  fix s :: "('a, 'b) sqlSession" and st n k and q q' :: sqlCall and es s' e
  assume ok: "sessionOk tables_ok s"
  obtain h now left where q: "q = (h, now, left)" by (cases q)
  let ?s = "s\<lparr>statementsLeft := left\<rparr>" and ?run = "handOut (select st n now) ident h now"
  have ok': "sessionOk tables_ok ?s" using ok by simp
  have db: "tables_ok (committed s)" using ok by (simp add: sessionOk_def)
  show "sessionOk tables_ok (snd (sqlFetch select ident st n q s))"
    using handOut_Inl(2) [OF ok'] handOut_Inr(2) [OF ok']
    by (cases "?run ?s"; cases "fst (?run ?s)") (auto simp: sqlFetch_def q)
  show "\<not> sqlFree q' (snd (sqlFetch select ident st n q s)) k" if "\<not> sqlFree q' s k" "sqlBefore q q'"
  proof (cases "?run ?s")
    case (Pair r s')
    show ?thesis
    proof (cases r)
      case (Inl e)
      then show ?thesis using that(1) handOut_Inl(1) [OF ok', of "select st n now" h now e s'] Pair
        by (simp add: sqlFetch_def q sqlFree_def)
    next
      case (Inr es)
      note run = handOut_Inr [OF ok' Pair [unfolded Inr]]
      have "\<not> isLeased now (committed s) k" if "k \<in> ident ` set es"
        using select_free [OF db, of st n now _ es] run(1) that by auto
      moreover have "isLeased now (committed s) k" if "isLeased (fst (snd q')) (committed s) k"
        using that \<open>sqlBefore q q'\<close> by (auto simp: isLeased_def sqlLease_isExpired_def sqlBefore_def q)
      ultimately show ?thesis
        using that(1) sql_rowIds [OF run(3)] Pair Inr
        by (auto simp: sqlFetch_def q sqlFree_def isLeased_leases [symmetric] run(4))
    qed
  qed
  assume "sqlFetch select ident st n q s = (Inr es, s')"
  then have run: "?run ?s = (Inr es, s')" by (simp add: sqlFetch_def q)
  have sel: "select st n now (databaseError s) (committed s) = Inr es" using handOut_Inr(1) [OF ok' run] by simp
  show "distinct (map ident es)" by (rule select_distinct [OF db sel])
  assume e: "e \<in> set es"
  show "sqlFree q s (ident e)" using select_free [OF db sel e] by (simp add: sqlFree_def q)
  show "\<not> sqlFree q' s' (ident e)" if "sqlCovers q q'"
    using that e by (auto simp: sqlFree_def isLeased_leases [symmetric] handOut_Inr(4) [OF ok' run]
        sqlLease_isExpired_def sqlCovers_def q)
qed

end
