(* ===== verification/Sql_Transfer_Store.thy ===== *)
theory Sql_Transfer_Store
  imports Sql_Leasing Transfer_Process
begin

text \<open>
  The SQL store of transfer processes, \<open>extensions/sql/transfer-process-store-sql\<close>:
  \<open>SqlTransferProcessStore\<close> on the tables of \<open>docs/schema.sql\<close>, with the statements of
  \<open>BaseSqlDialectStatements\<close>. A data request has a row of its own. JSON columns hold the values
  they are the text of. Rows that are equal in an order come as they stand in their table.
\<close>

section \<open>Rows\<close>

record processRow = leasedRow +
  rowType :: tpType
  rowState :: int
  rowStateCount :: int
  rowStateTimestamp :: int
  rowCreatedTimestamp :: int
  rowTraceContext :: "string jmap"
  rowErrorDetail :: "string option"
  rowResourceManifest :: "resourceManifest option"
  rowProvisionedResources :: "provisionedResourceSet option"
  rowContentDataAddress :: "dataAddress option"
  rowDeprovisionedResources :: "deprovisionedResource list"

text \<open>A data request, and the foreign key to its process, \<open>ON DELETE CASCADE\<close>.\<close>

record requestRow =
  rowRequest :: dataRequest
  transferProcessId :: string

type_synonym transferDb = "(unit processRow_ext, requestRow) database"

definition rowOf :: "transfer_process \<Rightarrow> processRow" where
  "rowOf p =
     \<lparr>rowId = entityId p, rowLease = None, rowType = tpType p, rowState = state p,
      rowStateCount = stateCount p, rowStateTimestamp = stateTimestamp p,
      rowCreatedTimestamp = createdTimestamp p, rowTraceContext = traceContext p,
      rowErrorDetail = errorDetail p, rowResourceManifest = resourceManifest p,
      rowProvisionedResources = provisionedResourceSet p,
      rowContentDataAddress = contentDataAddress p,
      rowDeprovisionedResources = deprovisionedResources p\<rparr>"

text \<open>The columns that an update sets.\<close>

definition overwriteRow :: "transfer_process \<Rightarrow> processRow \<Rightarrow> processRow" where
  "overwriteRow p r =
     r\<lparr>rowState := state p, rowStateCount := stateCount p, rowStateTimestamp := stateTimestamp p,
       rowTraceContext := traceContext p, rowErrorDetail := errorDetail p,
       rowResourceManifest := resourceManifest p, rowProvisionedResources := provisionedResourceSet p,
       rowContentDataAddress := contentDataAddress p,
       rowDeprovisionedResources := deprovisionedResources p\<rparr>"

text \<open>A row and the request that was joined to it, if any: a request without destination cannot be built.\<close>

definition mapTransferProcess :: "int \<Rightarrow> processRow \<times> requestRow option \<Rightarrow> java_exn + transfer_process" where
  "mapTransferProcess now rr =
     (case rr of
        (r, None) \<Rightarrow> Inl (IllegalArgumentException ''A data destination or type must be specified'')
      | (r, Some d) \<Rightarrow>
          if dataDestination (rowRequest d) = None
          then Inl (IllegalArgumentException ''A data destination or type must be specified'')
          else build_process now (Some (rowId r))
            \<lparr>entityId = rowId r, createdTimestamp = rowCreatedTimestamp r, state = rowState r,
             stateCount = rowStateCount r, stateTimestamp = rowStateTimestamp r,
             traceContext = rowTraceContext r, errorDetail = rowErrorDetail r, tpType = rowType r,
             dataRequest = rowRequest d, contentDataAddress = rowContentDataAddress r,
             resourceManifest = rowResourceManifest r,
             provisionedResourceSet = rowProvisionedResources r,
             deprovisionedResources = rowDeprovisionedResources r\<rparr>)"

section \<open>Statements\<close>

definition selectNextForState ::
  "int \<Rightarrow> int \<Rightarrow> nat \<Rightarrow> transferDb \<Rightarrow> (processRow \<times> requestRow option) list" where
  "selectNextForState st now limit db =
     batch (\<lambda>rr. rowStateTimestamp (fst rr)) limit
       (filter (\<lambda>rr. rowState (fst rr) = st \<and> leaseFree now db (fst rr))
         (leftJoin (\<lambda>r d. transferProcessId d = rowId r) (relatedTable db) (entityTable db)))"

text \<open>\<open>findAll\<close> with the filter \<open>id = ident\<close> and the default limit of a query.\<close>

definition selectById :: "string \<Rightarrow> transferDb \<Rightarrow> (processRow \<times> requestRow option) list" where
  "selectById ident db =
     take 50 (filter (\<lambda>rr. rowId (fst rr) = ident)
       (leftJoin (\<lambda>r d. requestProcessId (rowRequest d) = Some (rowId r)) (relatedTable db) (entityTable db)))"

text \<open>\<open>getProcessIdForTransferIdTemplate\<close>; a scalar subquery with more than one row is an error.\<close>

definition selectProcessIds :: "string \<Rightarrow> string \<Rightarrow> transferDb \<Rightarrow> java_exn + string list" where
  "selectProcessIds message transferId db =
     (case filter (\<lambda>d. requestProcessId (rowRequest d) = Some transferId) (relatedTable db) of
        [] \<Rightarrow> Inr []
      | [d] \<Rightarrow> Inr (map rowId (filter (\<lambda>r. rowId r = transferProcessId d) (entityTable db)))
      | _ \<Rightarrow> Inl (EdcException message))"

definition insertProcess :: "transfer_process \<Rightarrow> transferDb \<Rightarrow> transferDb option" where
  "insertProcess p db =
     (if entityId p \<in> rowId ` set (entityTable db) then None
      else Some (db\<lparr>entityTable := entityTable db @ [rowOf p]\<rparr>))"

text \<open>The columns of a data request that must not be null.\<close>

definition requestComplete :: "dataRequest \<Rightarrow> bool" where
  "requestComplete d \<longleftrightarrow> requestProcessId d \<noteq> None \<and> dataDestination d \<noteq> None"

definition insertRequest :: "string \<Rightarrow> dataRequest \<Rightarrow> transferDb \<Rightarrow> transferDb option" where
  "insertRequest processId dr db =
     (if requestId dr \<in> (\<lambda>d. requestId (rowRequest d)) ` set (relatedTable db) \<or> \<not> requestComplete dr \<or>
         processId \<notin> rowId ` set (entityTable db) then None
      else Some (db\<lparr>relatedTable := relatedTable db @ [\<lparr>rowRequest = dr, transferProcessId = processId\<rparr>]\<rparr>))"

definition updateProcess :: "transfer_process \<Rightarrow> transferDb \<Rightarrow> transferDb option" where
  "updateProcess p db =
     Some (db\<lparr>entityTable := map (\<lambda>r. if rowId r = entityId p then overwriteRow p r else r) (entityTable db)\<rparr>)"

definition updateRequest :: "dataRequest \<Rightarrow> string \<Rightarrow> transferDb \<Rightarrow> transferDb option" where
  "updateRequest dr existing db =
     (if existing \<notin> (\<lambda>d. requestId (rowRequest d)) ` set (relatedTable db) then Some db
      else if \<not> requestComplete dr \<or>
        (requestId dr \<noteq> existing \<and> requestId dr \<in> (\<lambda>d. requestId (rowRequest d)) ` set (relatedTable db)) then None
      else Some (db\<lparr>relatedTable := map (\<lambda>d. if requestId (rowRequest d) = existing then d\<lparr>rowRequest := dr\<rparr> else d)
             (relatedTable db)\<rparr>))"

definition deleteProcess :: "string \<Rightarrow> transferDb \<Rightarrow> transferDb" where
  "deleteProcess ident db =
     db\<lparr>entityTable := filter (\<lambda>r. rowId r \<noteq> ident) (entityTable db),
        relatedTable := filter (\<lambda>d. transferProcessId d \<noteq> ident) (relatedTable db)\<rparr>"

section \<open>SqlTransferProcessStore\<close>

text \<open>\<open>distinct\<close> of a stream: processes are equal if their identifiers are.\<close>

definition distinctById :: "transfer_process list \<Rightarrow> transfer_process list" where
  "distinctById ps = rev (fold (\<lambda>p qs. if entityId p \<in> entityId ` set qs then qs else p # qs) ps [])"

definition sql_find :: "int \<Rightarrow> string \<Rightarrow> (transferDb session, transfer_process option) op" where
  "sql_find now ident =
     execute (andThen (execute (executeQuery (\<lambda>_ db. mapOrThrow (mapTransferProcess now) (selectById ident db)))) (\<lambda>ps.
       liftE (single (distinctById ps))))"

definition sql_processIdForTransferId :: "string \<Rightarrow> (transferDb session, string option) op" where
  "sql_processIdForTransferId transferId =
     execute (andThen (executeQuery (\<lambda>message. selectProcessIds message transferId)) (\<lambda>ids. liftE (single ids)))"

text \<open>
  The operations that write a process \<open>p\<close>: \<open>dr\<close> is what its \<open>getDataRequest\<close> returns, \<open>None\<close> where
  that is null, as a process may be built without one.
\<close>

definition sql_insert :: "dataRequest option \<Rightarrow> transfer_process \<Rightarrow> (transferDb session, unit) op" where
  "sql_insert dr p =
     execute (andThen (executeUpdate (insertProcess p)) (\<lambda>_.
       case dr of
         None \<Rightarrow> ret ()
       | Some d \<Rightarrow> executeUpdate (insertRequest (entityId p) d)))"

text \<open>The request is dereferenced after the statement that updates the process.\<close>

definition sql_update ::
  "int \<Rightarrow> string \<Rightarrow> dataRequest option \<Rightarrow> transfer_process \<Rightarrow> (transferDb session, unit) op" where
  "sql_update now leaseHolder dr p =
     execute (andThen (sql_find now (entityId p)) (\<lambda>existing.
       case existing of
         None \<Rightarrow> sql_insert dr p
       | Some e \<Rightarrow>
           andThen (sql_breakLease leaseHolder (entityId p)) (\<lambda>_.
           andThen (executeUpdate (updateProcess p)) (\<lambda>_.
           case dr of
             None \<Rightarrow> throw (NullPointerException ''dataRequest'')
           | Some d \<Rightarrow> executeUpdate (updateRequest d (requestId (dataRequest e)))))))"

definition sql_create ::
  "int \<Rightarrow> string \<Rightarrow> dataRequest option \<Rightarrow> transfer_process \<Rightarrow> (transferDb session, unit) op" where
  "sql_create now leaseHolder dr p =
     (if dr = None
      then throw (IllegalArgumentException ''Cannot store TransferProcess without a DataRequest'')
      else execute (andThen (sql_find now (entityId p)) (\<lambda>existing.
        case existing of None \<Rightarrow> sql_insert dr p | Some e \<Rightarrow> sql_update now leaseHolder dr p)))"

definition sql_delete :: "int \<Rightarrow> string \<Rightarrow> string \<Rightarrow> (transferDb session, unit) op" where
  "sql_delete now leaseHolder processId =
     execute (andThen (sql_find now processId) (\<lambda>existing.
       case existing of
         None \<Rightarrow> ret ()
       | Some e \<Rightarrow>
           andThen (sql_acquireLease leaseHolder None now processId) (\<lambda>_.
           andThen (executeUpdate (\<lambda>db. Some (deleteProcess processId db))) (\<lambda>_.
           sql_breakLease leaseHolder processId))))"

text \<open>The batch that \<open>nextForState\<close> selects; a negative limit is an error of the database.\<close>

definition nextProcesses ::
  "int \<Rightarrow> int \<Rightarrow> int \<Rightarrow> string \<Rightarrow> transferDb \<Rightarrow> java_exn + transfer_process list" where
  "nextProcesses st limit now message db =
     (if limit < 0 then Inl (EdcException message)
      else mapOrThrow (mapTransferProcess now) (selectNextForState st now (nat limit) db))"

definition sql_nextForState ::
  "int \<Rightarrow> int \<Rightarrow> int \<Rightarrow> string \<Rightarrow> (transferDb session, transfer_process list) op" where
  "sql_nextForState st limit now leaseHolder = handOut (nextProcesses st limit now) entityId leaseHolder now"

section \<open>Well-formed tables\<close>

text \<open>Keys, and one request for each process, which it names, as that of a process that was built.\<close>

definition transferDb_ok :: "transferDb \<Rightarrow> bool" where
  "transferDb_ok db \<longleftrightarrow> db_ok db \<and>
     distinct (map (\<lambda>d. requestId (rowRequest d)) (relatedTable db)) \<and>
     distinct (map transferProcessId (relatedTable db)) \<and>
     transferProcessId ` set (relatedTable db) = rowId ` set (entityTable db) \<and>
     (\<forall>d \<in> set (relatedTable db).
        requestProcessId (rowRequest d) = Some (transferProcessId d) \<and> requestComplete (rowRequest d))"

abbreviation store_session_ok :: "transferDb session \<Rightarrow> bool" where
  "store_session_ok \<equiv> sessionOk transferDb_ok"

lemma transferDb_ok_unleased:
  assumes "transferDb_ok db" "unleased db' = unleased db" "db_ok db'"
  shows "transferDb_ok db'"
proof -
  have "map rowId (entityTable db') = map rowId (entityTable db)" using assms(2) by (rule unleased_rowIds)
  then have "rowId ` set (entityTable db') = rowId ` set (entityTable db)" by (metis list.set_map)
  with assms show ?thesis by (simp add: transferDb_ok_def unleased_def)
qed

lemma joined_fst:
  "transferDb_ok db \<Longrightarrow>
     map fst (leftJoin (\<lambda>r d. transferProcessId d = rowId r) (relatedTable db) (entityTable db)) = entityTable db"
  by (rule leftJoin_fst, rule filter_key_le1) (simp add: transferDb_ok_def)

lemma mapTransferProcess_id: "mapTransferProcess now rr = Inr p \<Longrightarrow> entityId p = rowId (fst rr)"
  by (auto simp: mapTransferProcess_def build_process_def entity_build_def associate_def Let_def
      split: prod.splits option.splits if_splits)

lemma selected_ids:
  assumes "transferDb_ok db"
  shows "distinct (map (\<lambda>rr. rowId (fst rr)) (selectNextForState st now n db))"
    and "rr \<in> set (selectNextForState st now n db) \<Longrightarrow>
      fst rr \<in> set (entityTable db) \<and> rowState (fst rr) = st \<and> leaseFree now db (fst rr)"
proof -
  let ?j = "leftJoin (\<lambda>r d. transferProcessId d = rowId r) (relatedTable db) (entityTable db)"
  note j = joined_fst [OF assms]
  have "map (\<lambda>rr. rowId (fst rr)) ?j = map rowId (map fst ?j)" by simp
  then have "distinct (map (\<lambda>rr. rowId (fst rr)) ?j)"
    using assms unfolding j by (simp add: transferDb_ok_def db_ok_def)
  then show "distinct (map (\<lambda>rr. rowId (fst rr)) (selectNextForState st now n db))"
    unfolding selectNextForState_def by (rule batch_distinct_map)
  assume "rr \<in> set (selectNextForState st now n db)"
  then have "rowState (fst rr) = st \<and> leaseFree now db (fst rr)" "rr \<in> set ?j"
    unfolding selectNextForState_def by (auto dest: batch_filter)
  moreover have "set (map fst ?j) = set (entityTable db)" unfolding j ..
  ultimately show "fst rr \<in> set (entityTable db) \<and> rowState (fst rr) = st \<and> leaseFree now db (fst rr)" by auto
qed

section \<open>The leasing contract\<close>

lemma nextProcesses_ids:
  "nextProcesses st limit now m db = Inr ps \<Longrightarrow>
     map entityId ps = map (\<lambda>rr. rowId (fst rr)) (selectNextForState st now (nat limit) db)"
  unfolding nextProcesses_def
  by (rule mapOrThrow_map [where f = "mapTransferProcess now"]) (auto split: if_splits dest: mapTransferProcess_id)

lemma nextProcesses_free:
  assumes ok: "transferDb_ok db" and ps: "nextProcesses st limit now m db = Inr ps" and p: "p \<in> set ps"
  shows "entityId p \<in> rowId ` set (entityTable db) \<and> \<not> isLeased now db (entityId p)"
proof -
  have "entityId p \<in> set (map entityId ps)" using p by simp
  then obtain rr where rr: "rr \<in> set (selectNextForState st now (nat limit) db)" "rowId (fst rr) = entityId p"
    unfolding nextProcesses_ids [OF ps] by auto
  from selected_ids(2) [OF ok rr(1)] have r: "fst rr \<in> set (entityTable db)" "leaseFree now db (fst rr)" by simp_all
  have "db_ok db" using ok by (simp add: transferDb_ok_def)
  from leaseFree_leaseOf [OF this r(1)] r(2) rr(2) have "\<not> isLeased now db (entityId p)" by (simp add: isLeased_def)
  with imageI [OF r(1), of rowId] rr(2) show ?thesis by simp
qed

text \<open>The SQL store implements the contract of the state machines, unless a commit fails.\<close>

interpretation transfers: leased_query nextProcesses entityId transferDb_ok
proof unfold_locales
  fix db db' :: transferDb and st n now m es e
  show "transferDb_ok db \<Longrightarrow> db_ok db" by (simp add: transferDb_ok_def)
  show "transferDb_ok db \<Longrightarrow> unleased db' = unleased db \<Longrightarrow> db_ok db' \<Longrightarrow> transferDb_ok db'"
    by (rule transferDb_ok_unleased)
  show "transferDb_ok db \<Longrightarrow> nextProcesses st n now m db = Inr es \<Longrightarrow> e \<in> set es \<Longrightarrow>
      entityId e \<in> rowId ` set (entityTable db) \<and> \<not> isLeased now db (entityId e)" by (rule nextProcesses_free)
  show "distinct (map entityId es)" if "transferDb_ok db" "nextProcesses st n now m db = Inr es"
    unfolding nextProcesses_ids [OF that(2)] by (rule selected_ids(1) [OF that(1)])
qed

lemmas session_ok_start = transfers.session_ok_start

text \<open>A call of a runtime at a time, at which the database fails after a number of statements.\<close>

definition sql_fetch :: "int \<Rightarrow> int \<Rightarrow> sqlCall \<Rightarrow> (transferDb session, transfer_process list) op" where
  "sql_fetch st limit q s =
     (case q of (h, now, left) \<Rightarrow> sql_nextForState st limit now h (s\<lparr>statementsLeft := left\<rparr>))"

lemma sql_fetch_query: "sql_fetch = sqlFetch nextProcesses entityId"
  by (intro ext) (simp add: sql_fetch_def sqlFetch_def sql_nextForState_def)

text \<open>
  (C14) The SQL store keeps the contract of the state machines as long as commits work: whatever the
  runtimes that call \<open>nextForState\<close>, for whatever states and batch sizes, and whichever statement of a
  call the database fails at, no process is handed out twice by calls made within one minute of each
  other. A commit that fails breaks it, since it is only logged: the batch that a call would hand out
  is handed out all the same, but the tables stay as they were, so that it is free for the next call.
\<close>

theorem sql_batches_disjoint:
  assumes "store_session_ok s"
    and "sorted_wrt (\<lambda>r r'. sqlBefore (snd (snd r)) (snd (snd r')) \<and> sqlCovers (snd (snd r)) (snd (snd r'))) rs"
  shows "distinct (map entityId (concat (fetches sql_fetch rs s))) \<and>
    (\<forall>st limit now h ps s1. statementsLeft s = None \<longrightarrow> sql_nextForState st limit now h s = (Inr ps, s1) \<longrightarrow>
      (\<exists>s2. sql_nextForState st limit now h (s\<lparr>commitFails := True\<rparr>) = (Inr ps, s2) \<and>
        committed s2 = committed s))"
  using transfers.source.fetches_disjoint [OF assms]
    transfers.handOut_Inr(1) [OF assms(1)] transfers.handOut_uncommitted [OF assms(1)]
  unfolding sql_fetch_query sql_nextForState_def by blast

end
