(* ===== verification/Sql_Transfer_Properties.thy ===== *)
theory Sql_Transfer_Properties
  imports Sql_Transfer_Store
begin

text \<open>
  What the operations of the SQL store do, with a database that works, and what is left of them when
  it does not.
\<close>

section \<open>Lookups\<close>

text \<open>The row of a process and its data request.\<close>

lemma row_request:
  assumes "transferDb_ok db" "k \<in> rowId ` set (entityTable db)"
  obtains r d where "r \<in> set (entityTable db)" "rowId r = k" "d \<in> set (relatedTable db)" "transferProcessId d = k"
proof -
  have "k \<in> transferProcessId ` set (relatedTable db)" using assms by (simp add: transferDb_ok_def)
  then obtain d where "d \<in> set (relatedTable db)" "transferProcessId d = k" by blast
  moreover from assms(2) obtain r where "r \<in> set (entityTable db)" "rowId r = k" by blast
  ultimately show thesis by (intro that)
qed

lemma joins_agree:
  "transferDb_ok db \<Longrightarrow>
     leftJoin (\<lambda>r d. requestProcessId (rowRequest d) = Some (rowId r)) (relatedTable db) (entityTable db) =
     leftJoin (\<lambda>r d. transferProcessId d = rowId r) (relatedTable db) (entityTable db)"
  by (rule leftJoin_cong) (simp add: transferDb_ok_def)

lemma joined_unique:
  assumes ok: "transferDb_ok db" and r: "r \<in> set (entityTable db)" "rowId r = k"
    and d: "d \<in> set (relatedTable db)" "transferProcessId d = k"
  shows "filter (\<lambda>rr. rowId (fst rr) = k)
    (leftJoin (\<lambda>r d. transferProcessId d = rowId r) (relatedTable db) (entityTable db)) = [(r, Some d)]"
proof -
  let ?j = "leftJoin (\<lambda>r d. transferProcessId d = rowId r) (relatedTable db) (entityTable db)"
  have "filter (\<lambda>d'. transferProcessId d' = transferProcessId d) (relatedTable db) = [d]"
    using ok d(1) by (intro filter_unique) (simp_all add: transferDb_ok_def)
  then have "(r, Some d) \<in> set ?j" using r d(2) by (auto simp: leftJoin_def intro!: bexI [of _ r])
  moreover have "distinct (map (\<lambda>rr. rowId (fst rr)) ?j)"
  proof -
    have "map (\<lambda>rr. rowId (fst rr)) ?j = map rowId (map fst ?j)" by simp
    then show ?thesis using ok unfolding joined_fst [OF ok] by (simp add: transferDb_ok_def db_ok_def)
  qed
  ultimately show ?thesis using filter_unique [of "\<lambda>rr. rowId (fst rr)" ?j "(r, Some d)"] r(2) by simp
qed

lemma joined_absent:
  assumes "transferDb_ok db" "k \<notin> rowId ` set (entityTable db)"
  shows "filter (\<lambda>rr. rowId (fst rr) = k)
    (leftJoin (\<lambda>r d. transferProcessId d = rowId r) (relatedTable db) (entityTable db)) = []"
proof -
  let ?j = "leftJoin (\<lambda>r d. transferProcessId d = rowId r) (relatedTable db) (entityTable db)"
  have "fst rr \<in> set (entityTable db)" if "rr \<in> set ?j" for rr
    using imageI [OF that, of fst] joined_fst [OF assms(1)] by (metis list.set_map)
  then show ?thesis using assms(2) by (auto simp: filter_empty_conv)
qed

text \<open>The process that a row and its request stand for.\<close>

definition processOf :: "int \<Rightarrow> processRow \<Rightarrow> dataRequest \<Rightarrow> transfer_process" where
  "processOf now r d = copy_process now
     \<lparr>entityId = rowId r, createdTimestamp = rowCreatedTimestamp r, state = rowState r,
      stateCount = rowStateCount r, stateTimestamp = rowStateTimestamp r,
      traceContext = rowTraceContext r, errorDetail = rowErrorDetail r, tpType = rowType r,
      dataRequest = d, contentDataAddress = rowContentDataAddress r,
      resourceManifest = rowResourceManifest r, provisionedResourceSet = rowProvisionedResources r,
      deprovisionedResources = rowDeprovisionedResources r\<rparr>"

lemma mapTransferProcess_Some:
  "requestComplete (rowRequest d) \<Longrightarrow> mapTransferProcess now (r, Some d) = Inr (processOf now r (rowRequest d))"
  by (auto simp: mapTransferProcess_def requestComplete_def build_process_def entity_build_def Let_def
      processOf_def copy_process_def copy_entity_def associate_def)

lemma processOf_simps [simp]:
  "entityId (processOf now r d) = rowId r" "requestId (dataRequest (processOf now r d)) = requestId d"
  by (auto simp: processOf_def copy_process_def copy_entity_def associate_def)

lemma request_complete: "transferDb_ok db \<Longrightarrow> d \<in> set (relatedTable db) \<Longrightarrow> requestComplete (rowRequest d)"
  by (simp add: transferDb_ok_def)

text \<open>\<open>find\<close>, in a transaction.\<close>

lemma sql_find_present:
  assumes "transferDb_ok (current s)" "rollbackOnly s \<noteq> None" "statementsLeft s = None"
    and "r \<in> set (entityTable (current s))" "rowId r = k" "d \<in> set (relatedTable (current s))" "transferProcessId d = k"
  shows "sql_find now k s = (Inr (Some (processOf now r (rowRequest d))), s)"
proof -
  have "selectById k (current s) = [(r, Some d)]"
    using joined_unique [OF assms(1,4-7)] by (simp add: selectById_def joins_agree [OF assms(1)])
  then have "mapOrThrow (mapTransferProcess now) (selectById k (current s)) = Inr [processOf now r (rowRequest d)]"
    using mapTransferProcess_Some [OF request_complete [OF assms(1,6)]] by simp
  then show ?thesis using assms(2,3)
    by (auto simp: sql_find_def execute_def runBlock_def andThen_def executeQuery_def distinctById_def single_def)
qed

lemma sql_find_absent:
  assumes "transferDb_ok (current s)" "rollbackOnly s \<noteq> None" "statementsLeft s = None"
    and "k \<notin> rowId ` set (entityTable (current s))"
  shows "sql_find now k s = (Inr None, s)"
proof -
  have "selectById k (current s) = []"
    using joined_absent [OF assms(1,4)] by (simp add: selectById_def joins_agree [OF assms(1)])
  then show ?thesis using assms(2,3)
    by (auto simp: sql_find_def execute_def runBlock_def andThen_def executeQuery_def distinctById_def single_def)
qed

section \<open>Writing a process\<close>

definition inserted :: "transfer_process \<Rightarrow> transferDb \<Rightarrow> transferDb" where
  "inserted p db =
     db\<lparr>entityTable := entityTable db @ [rowOf p],
        relatedTable := relatedTable db @ [\<lparr>rowRequest = dataRequest p, transferProcessId = entityId p\<rparr>]\<rparr>"

definition overwritten :: "transfer_process \<Rightarrow> transferDb \<Rightarrow> transferDb" where
  "overwritten p db =
     db\<lparr>entityTable := map (\<lambda>r. if rowId r = entityId p then overwriteRow p r else r) (entityTable db),
        relatedTable := map (\<lambda>d. if transferProcessId d = entityId p then d\<lparr>rowRequest := dataRequest p\<rparr> else d)
          (relatedTable db)\<rparr>"

definition written :: "transfer_process \<Rightarrow> transferDb \<Rightarrow> transferDb" where
  "written p db = (if entityId p \<in> rowId ` set (entityTable db) then overwritten p db else inserted p db)"

text \<open>A process that was built, with a destination, and whose request is not that of another process.\<close>

definition storable :: "transfer_process \<Rightarrow> transferDb \<Rightarrow> bool" where
  "storable p db \<longleftrightarrow>
     requestProcessId (dataRequest p) = Some (entityId p) \<and> dataDestination (dataRequest p) \<noteq> None \<and>
     (\<forall>d \<in> set (relatedTable db). requestId (rowRequest d) = requestId (dataRequest p) \<longrightarrow>
        transferProcessId d = entityId p)"

lemma overwriteRow_simps [simp]:
  "rowId (overwriteRow p r) = rowId r" "rowLease (overwriteRow p r) = rowLease r"
  "(overwriteRow p r)\<lparr>rowLease := l\<rparr> = overwriteRow p (r\<lparr>rowLease := l\<rparr>)"
  by (simp_all add: overwriteRow_def)

lemma unleased_overwritten:
  "unleased db = unleased db' \<Longrightarrow> unleased (overwritten p db) = unleased (overwritten p db')"
proof -
  assume u: "unleased db = unleased db'"
  have "map (\<lambda>r. r\<lparr>rowLease := None\<rparr>) (entityTable (overwritten p e)) =
      map (\<lambda>r. if rowId r = entityId p then overwriteRow p r else r) (map (\<lambda>r. r\<lparr>rowLease := None\<rparr>) (entityTable e))" for e
    by (simp add: overwritten_def)
  with u show ?thesis by (simp add: unleased_def overwritten_def del: map_map)
qed

lemma overwritten_leases:
  "leases (overwritten p db) = leases db" "db_ok (overwritten p db) = db_ok db"
  "map rowId (entityTable (overwritten p db)) = map rowId (entityTable db)"
  by (rule lease_columns [where f = "\<lambda>r. if rowId r = entityId p then overwriteRow p r else r"];
      simp add: overwritten_def)+

lemma request_by_key:
  assumes "transferDb_ok db" "d \<in> set (relatedTable db)" "d' \<in> set (relatedTable db)"
  shows "transferProcessId d = transferProcessId d' \<Longrightarrow> d = d'"
    "requestId (rowRequest d) = requestId (rowRequest d') \<Longrightarrow> d = d'"
  using assms unfolding transferDb_ok_def distinct_map by (blast dest: inj_onD)+

lemma transferDb_ok_overwritten:
  assumes ok: "transferDb_ok db" and p: "storable p db"
  shows "transferDb_ok (overwritten p db)"
proof -
  let ?f = "\<lambda>d. if transferProcessId d = entityId p then d\<lparr>rowRequest := dataRequest p\<rparr> else d"
  have ids: "rowId ` set (entityTable (overwritten p db)) = rowId ` set (entityTable db)"
    using arg_cong [where f = set, OF overwritten_leases(3)] unfolding list.set_map .
  have "distinct (map (\<lambda>d. requestId (rowRequest (?f d))) (relatedTable db))"
  proof -
    have "d = d'" if "d \<in> set (relatedTable db)" "d' \<in> set (relatedTable db)"
      "requestId (rowRequest (?f d)) = requestId (rowRequest (?f d'))" for d d'
      using that p request_by_key [OF ok that(1,2)] unfolding storable_def
      by (cases "transferProcessId d = entityId p"; cases "transferProcessId d' = entityId p") auto
    moreover have "distinct (relatedTable db)" using ok by (simp add: transferDb_ok_def distinct_map)
    ultimately show ?thesis unfolding distinct_map by (blast intro: inj_onI)
  qed
  then have "distinct (map (\<lambda>d. requestId (rowRequest d)) (relatedTable (overwritten p db)))"
    by (simp add: overwritten_def comp_def)
  moreover have tp: "map transferProcessId (relatedTable (overwritten p db)) = map transferProcessId (relatedTable db)"
    by (simp add: overwritten_def)
  moreover have "transferProcessId ` set (relatedTable (overwritten p db)) = transferProcessId ` set (relatedTable db)"
    using arg_cong [where f = set, OF tp] unfolding list.set_map .
  moreover have "\<forall>d \<in> set (relatedTable (overwritten p db)).
      requestProcessId (rowRequest d) = Some (transferProcessId d) \<and> requestComplete (rowRequest d)"
    using ok p by (auto simp: overwritten_def transferDb_ok_def storable_def requestComplete_def)
  ultimately show ?thesis using ok unfolding transferDb_ok_def overwritten_leases(2) ids by metis
qed

lemma transferDb_ok_inserted:
  assumes ok: "transferDb_ok db" and p: "storable p db" and new: "entityId p \<notin> rowId ` set (entityTable db)"
  shows "transferDb_ok (inserted p db)" "leases (inserted p db) = leases db"
proof -
  note l = lease_columns_snoc [of "inserted p db" db "rowOf p"]
  show "leases (inserted p db) = leases db" by (rule l(1)) (simp_all add: inserted_def rowOf_def)
  have "db_ok (inserted p db)"
    by (rule l(2)) (use ok new in \<open>simp_all add: inserted_def rowOf_def transferDb_ok_def\<close>)
  moreover have "requestId (dataRequest p) \<notin> (\<lambda>d. requestId (rowRequest d)) ` set (relatedTable db)"
    using ok p new unfolding transferDb_ok_def storable_def by force
  ultimately show "transferDb_ok (inserted p db)"
    using ok p new by (simp add: transferDb_ok_def inserted_def storable_def requestComplete_def rowOf_def)
qed

section \<open>Create and update\<close>

lemma update_statements:
  assumes ok: "transferDb_ok db" and p: "storable p db"
    and d: "d \<in> set (relatedTable db)" "transferProcessId d = entityId p"
  shows "updateProcess p db = Some (db\<lparr>entityTable := entityTable (overwritten p db)\<rparr>)"
    and "updateRequest (dataRequest p) (requestId (rowRequest d)) (db\<lparr>entityTable := entityTable (overwritten p db)\<rparr>) =
      Some (overwritten p db)"
proof -
  show "updateProcess p db = Some (db\<lparr>entityTable := entityTable (overwritten p db)\<rparr>)"
    by (simp add: updateProcess_def overwritten_def)
  have same: "requestId (rowRequest d') = requestId (rowRequest d) \<longleftrightarrow> transferProcessId d' = entityId p"
    if "d' \<in> set (relatedTable db)" for d'
    using request_by_key [OF ok that d(1)] d(2) by auto
  have "requestId (dataRequest p) = requestId (rowRequest d)"
    if "requestId (dataRequest p) \<in> (\<lambda>d. requestId (rowRequest d)) ` set (relatedTable db)"
    using that p same unfolding storable_def by fastforce
  moreover have "map (\<lambda>d'. if requestId (rowRequest d') = requestId (rowRequest d) then d'\<lparr>rowRequest := dataRequest p\<rparr> else d')
      (relatedTable db) = relatedTable (overwritten p db)"
    unfolding overwritten_def by (simp add: same)
  moreover have "requestComplete (dataRequest p)" using p by (simp add: storable_def requestComplete_def)
  ultimately show "updateRequest (dataRequest p) (requestId (rowRequest d)) (db\<lparr>entityTable := entityTable (overwritten p db)\<rparr>) =
      Some (overwritten p db)"
    using d(1) by (auto simp: updateRequest_def overwritten_def)
qed

lemma sql_insert_run:
  assumes t: "rollbackOnly s \<noteq> None" "statementsLeft s = None" and p: "storable p (current s)"
    and new: "entityId p \<notin> rowId ` set (entityTable (current s))" and ok: "transferDb_ok (current s)"
  shows "sql_insert (Some (dataRequest p)) p s = (Inr (), s\<lparr>current := inserted p (current s)\<rparr>)"
proof -
  have "requestId (dataRequest p) \<notin> (\<lambda>d. requestId (rowRequest d)) ` set (relatedTable (current s))"
    using ok p new unfolding transferDb_ok_def storable_def by force
  then show ?thesis
    using t p new by (auto simp: sql_insert_def execute_def runBlock_def andThen_def executeUpdate_def insertProcess_def
        insertRequest_def statementDone_def inserted_def storable_def requestComplete_def rowOf_def)
qed

text \<open>In a transaction, both operations write the process, unless another runtime holds its lease.\<close>

definition writeResult ::
  "string \<Rightarrow> transfer_process \<Rightarrow> transferDb session \<Rightarrow> (java_exn + unit) \<times> transferDb session" where
  "writeResult h p s =
     (if heldByOther h (entityId p) (current s)
      then failedWith (''Current runtime does not hold the lease for Object (id ['' @ entityId p @ '']), cannot break lease!'') s
      else (Inr (), s\<lparr>current := written p (brokenLease (entityId p) (current s))\<rparr>))"

lemma sql_update_nested:
  assumes t: "rollbackOnly s \<noteq> None" "statementsLeft s = None" and p: "storable p (current s)"
    and ok: "transferDb_ok (current s)"
  shows "sql_update now h (Some (dataRequest p)) p s = writeResult h p s"
proof (cases "entityId p \<in> rowId ` set (entityTable (current s))")
  case False
  then show ?thesis
    using sql_find_absent [OF ok t False] sql_insert_run [OF t p False ok] t heldByOther_absent [OF False]
    by (auto simp: sql_update_def execute_def runBlock_def andThen_def writeResult_def heldByOther_leaseOf
        written_def brokenLease_def)
next
  case True
  obtain r d where rd: "r \<in> set (entityTable (current s))" "rowId r = entityId p"
    "d \<in> set (relatedTable (current s))" "transferProcessId d = entityId p"
    using row_request [OF ok True] .
  note find = sql_find_present [OF ok t rd, of now] and break = sql_breakLease_run [OF t, of h "entityId p"]
  let ?db = "brokenLease (entityId p) (current s)"
  have db: "db_ok (current s)" using ok by (simp add: transferDb_ok_def)
  note b = brokenLease_facts [OF db, of "entityId p"]
  have ok': "transferDb_ok ?db" by (rule transferDb_ok_unleased [OF ok b(3,1)])
  have rel: "relatedTable ?db = relatedTable (current s)" using b(3) by (simp add: unleased_def)
  have p': "storable p ?db" using p by (simp add: storable_def rel)
  have "entityId p \<in> rowId ` set (entityTable ?db)"
    using True arg_cong [where f = set, OF unleased_rowIds [OF b(3)]] unfolding list.set_map by simp
  then have w: "written p ?db = overwritten p ?db" by (simp add: written_def)
  note st = update_statements [OF ok' p' rd(3,4) [folded rel]]
  show ?thesis
    using t find break st w
    by (auto simp: sql_update_def execute_def runBlock_def andThen_def writeResult_def heldByOther_leaseOf failedWith_def
        executeUpdate_def brokenLease_def rethrown_def split: option.splits)
qed

lemma sql_create_nested:
  assumes t: "rollbackOnly s \<noteq> None" "statementsLeft s = None" and p: "storable p (current s)"
    and ok: "transferDb_ok (current s)"
  shows "sql_create now h (Some (dataRequest p)) p s = writeResult h p s"
proof (cases "entityId p \<in> rowId ` set (entityTable (current s))")
  case False
  then show ?thesis
    using sql_find_absent [OF ok t False] sql_insert_run [OF t p False ok] t heldByOther_absent [OF False]
    by (auto simp: sql_create_def execute_def runBlock_def andThen_def writeResult_def heldByOther_leaseOf
        written_def brokenLease_def)
next
  case True
  obtain r d where rd: "r \<in> set (entityTable (current s))" "rowId r = entityId p"
    "d \<in> set (relatedTable (current s))" "transferProcessId d = entityId p"
    using row_request [OF ok True] .
  show ?thesis
    using t sql_find_present [OF ok t rd, of now] sql_update_nested [OF t p ok, of now h]
    by (auto simp: sql_create_def execute_def runBlock_def andThen_def writeResult_def failedWith_def rethrown_def)
qed

lemma storable_relatedTable: "relatedTable db' = relatedTable db \<Longrightarrow> storable p db' = storable p db"
  by (simp add: storable_def)

lemma written_facts:
  assumes "transferDb_ok db" "storable p db"
  shows "transferDb_ok (written p db)" "leases (written p db) = leases db"
  using assms transferDb_ok_overwritten transferDb_ok_inserted overwritten_leases(1) by (auto simp: written_def)

lemma unleased_written:
  assumes "unleased db = unleased db'"
  shows "unleased (written p db) = unleased (written p db')"
proof -
  have "rowId ` set (entityTable db) = rowId ` set (entityTable db')"
    using arg_cong [where f = set, OF unleased_rowIds [OF assms]] unfolding list.set_map .
  moreover have "unleased (inserted p db) = unleased (inserted p db')"
    using assms by (simp add: unleased_def inserted_def)
  ultimately show ?thesis using unleased_overwritten [OF assms] by (simp add: written_def)
qed

text \<open>The outermost calls.\<close>

lemma create_start:
  "rollbackOnly s = None \<Longrightarrow>
     sql_create now h (Some d) p s = map_prod id endTransaction (sql_create now h (Some d) p (startTransaction s))"
  unfolding sql_create_def by (simp add: execute_start [symmetric])

lemma store_outer:
  assumes "rollbackOnly s = None" "statementsLeft s = None" "storable p (committed s)" "transferDb_ok (committed s)"
  shows "sql_update now h (Some (dataRequest p)) p s = map_prod id endTransaction (writeResult h p (startTransaction s))"
    and "sql_create now h (Some (dataRequest p)) p s = map_prod id endTransaction (writeResult h p (startTransaction s))"
proof -
  let ?s = "startTransaction s"
  have s: "rollbackOnly ?s \<noteq> None" "statementsLeft ?s = None" "storable p (current ?s)" "transferDb_ok (current ?s)"
    using assms by (simp_all add: startTransaction_def)
  show "sql_update now h (Some (dataRequest p)) p s = map_prod id endTransaction (writeResult h p ?s)"
    using sql_update_nested [OF s, of now h] unfolding sql_update_def by (simp only: execute_start [OF assms(1)])
  show "sql_create now h (Some (dataRequest p)) p s = map_prod id endTransaction (writeResult h p ?s)"
    using sql_create_nested [OF s, of now h] create_start [OF assms(1), of now h "dataRequest p" p] by simp
qed

lemma store_written:
  assumes "store_session_ok s" "statementsLeft s = None" "storable p (committed s)"
  shows "if heldByOther h (entityId p) (committed s)
     then isl (fst (sql_update now h (Some (dataRequest p)) p s)) \<and> committed (snd (sql_update now h (Some (dataRequest p)) p s)) = committed s
     else fst (sql_update now h (Some (dataRequest p)) p s) = Inr () \<and> transferDb_ok (committed (snd (sql_update now h (Some (dataRequest p)) p s))) \<and>
       unleased (committed (snd (sql_update now h (Some (dataRequest p)) p s))) = unleased (written p (committed s)) \<and>
       leases (committed (snd (sql_update now h (Some (dataRequest p)) p s))) = (leases (committed s))(entityId p := None)"
proof -
  have t: "rollbackOnly s = None" "\<not> commitFails s" and ok: "transferDb_ok (committed s)"
    using assms(1) by (simp_all add: sessionOk_def)
  let ?db = "brokenLease (entityId p) (committed s)"
  have "db_ok (committed s)" using ok by (simp add: transferDb_ok_def)
  note b = brokenLease_facts [OF this, of "entityId p"]
  have "transferDb_ok ?db" by (rule transferDb_ok_unleased [OF ok b(3,1)])
  moreover have "storable p ?db"
    using assms(3) b(3) storable_relatedTable [of ?db "committed s"] by (simp add: unleased_def)
  ultimately have "transferDb_ok (written p ?db)" "leases (written p ?db) = (leases (committed s))(entityId p := None)"
    "unleased (written p ?db) = unleased (written p (committed s))"
    using written_facts b(2) unleased_written [OF b(3)] by simp_all
  then show ?thesis
    using t unfolding store_outer(1) [OF t(1) assms(2,3) ok]
    by (simp add: writeResult_def failedWith_def endTransaction_def startTransaction_def)
qed

lemma update_session:
  assumes "store_session_ok s" "statementsLeft s = None" "storable p (committed s)"
  shows "rollbackOnly (snd (sql_update now h (Some (dataRequest p)) p s)) = None" "statementsLeft (snd (sql_update now h (Some (dataRequest p)) p s)) = None"
  using assms store_outer(1) [of s p now h]
  by (simp_all add: sessionOk_def writeResult_def failedWith_def endTransaction_def startTransaction_def)

text \<open>
  A commit that fails is only logged: \<open>create\<close> and \<open>update\<close> return as if they had stored the
  process, and the database is as it was.
\<close>

theorem commit_failure_hidden:
  assumes "rollbackOnly s = None" "transferDb_ok (committed s)" "commitFails s" "statementsLeft s = None"
    and "storable p (committed s)" "\<not> heldByOther h (entityId p) (committed s)"
  shows "fst (sql_update now h (Some (dataRequest p)) p s) = Inr () \<and> committed (snd (sql_update now h (Some (dataRequest p)) p s)) = committed s \<and>
    fst (sql_create now h (Some (dataRequest p)) p s) = Inr () \<and> committed (snd (sql_create now h (Some (dataRequest p)) p s)) = committed s"
  using assms unfolding store_outer [OF assms(1,4,5,2)]
  by (simp add: writeResult_def endTransaction_def startTransaction_def)

text \<open>Operations within a transaction, wherever the database fails.\<close>

lemma keeps_sql_find: "keeps (within s0) (sql_find now k)"
  unfolding sql_find_def by (auto intro!: within_intros)

lemma noError_sql_find: "noError (sql_find now k)"
  unfolding sql_find_def by (auto intro!: noError_intros dest: single_noError)

section \<open>What is found\<close>

definition findIn :: "int \<Rightarrow> transferDb \<Rightarrow> string \<Rightarrow> transfer_process option" where
  "findIn now db k =
     (case (filter (\<lambda>r. rowId r = k) (entityTable db), filter (\<lambda>d. transferProcessId d = k) (relatedTable db)) of
        (r # _, d # _) \<Rightarrow> Some (processOf now r (rowRequest d))
      | _ \<Rightarrow> None)"

lemma findIn_present:
  assumes ok: "transferDb_ok db" and r: "r \<in> set (entityTable db)" "rowId r = k"
    and d: "d \<in> set (relatedTable db)" "transferProcessId d = k"
  shows "findIn now db k = Some (processOf now r (rowRequest d))"
proof -
  have "filter (\<lambda>r'. rowId r' = rowId r) (entityTable db) = [r]"
    using ok r(1) by (intro filter_unique) (simp_all add: transferDb_ok_def db_ok_def)
  moreover have "filter (\<lambda>d'. transferProcessId d' = transferProcessId d) (relatedTable db) = [d]"
    using ok d(1) by (intro filter_unique) (simp_all add: transferDb_ok_def)
  ultimately show ?thesis using r(2) d(2) by (simp add: findIn_def)
qed

lemma findIn_absent: "k \<notin> rowId ` set (entityTable db) \<Longrightarrow> findIn now db k = None"
proof -
  assume "k \<notin> rowId ` set (entityTable db)"
  then have "filter (\<lambda>r. rowId r = k) (entityTable db) = []" by (auto simp: filter_empty_conv)
  then show ?thesis by (simp add: findIn_def)
qed

lemma find_working:
  assumes t: "rollbackOnly s = None" and "statementsLeft s = None" and ok: "transferDb_ok (committed s)"
  shows "fst (sql_find now k s) = Inr (findIn now (committed s) k)"
proof -
  let ?s = "startTransaction s"
  have s: "transferDb_ok (current ?s)" "rollbackOnly ?s \<noteq> None" "statementsLeft ?s = None" "current ?s = committed s"
    using assms(2) ok by (simp_all add: startTransaction_def)
  have "sql_find now k ?s = (Inr (findIn now (committed s) k), ?s)"
  proof (cases "k \<in> rowId ` set (entityTable (committed s))")
    case True
    obtain r d where rd: "r \<in> set (entityTable (committed s))" "rowId r = k"
      "d \<in> set (relatedTable (committed s))" "transferProcessId d = k"
      using row_request [OF ok True] .
    with sql_find_present [OF s(1-3), of r k d now] findIn_present [OF ok rd] s(4) show ?thesis by simp
  next
    case False
    with sql_find_absent [OF s(1-3), of k now] findIn_absent [OF False] s(4) show ?thesis by simp
  qed
  then show ?thesis unfolding sql_find_def by (simp only: execute_start [OF t]) simp
qed

lemma processOf_rowLease [simp]: "processOf now (r\<lparr>rowLease := l\<rparr>) d = processOf now r d"
  by (simp add: processOf_def)

lemma findIn_unleased:
  assumes "unleased db = unleased db'"
  shows "findIn now db = findIn now db'"
proof
  fix k
  have rows: "map (\<lambda>r. processOf now r) (filter (\<lambda>r. rowId r = k) rs) =
      map (\<lambda>r. processOf now r) (filter (\<lambda>r. rowId r = k) (map (\<lambda>r. r\<lparr>rowLease := None\<rparr>) rs))" for rs
    by (simp add: filter_map comp_def fun_eq_iff)
  have find: "findIn now e k = (case (map (\<lambda>r. processOf now r) (filter (\<lambda>r. rowId r = k) (entityTable e)),
        filter (\<lambda>d. transferProcessId d = k) (relatedTable e)) of
      (f # _, d # _) \<Rightarrow> Some (f (rowRequest d)) | _ \<Rightarrow> None)" for e
    by (simp add: findIn_def split: list.splits)
  show "findIn now db k = findIn now db' k"
    using assms unfolding find rows [of "entityTable db"] rows [of "entityTable db'"] unleased_def by simp
qed

lemma processOf_rowOf: "processOf now (rowOf p) (dataRequest p) = copy_process now p"
  by (cases p) (simp add: processOf_def rowOf_def)

lemma processOf_overwriteRow:
  "rowId r = entityId p \<Longrightarrow> processOf now (overwriteRow p r) (dataRequest p) =
     copy_process now (p\<lparr>createdTimestamp := rowCreatedTimestamp r, tpType := rowType r\<rparr>)"
  by (cases p) (simp add: processOf_def overwriteRow_def)

lemma processOf_kept: "createdTimestamp (processOf now r d) = rowCreatedTimestamp r" "tpType (processOf now r d) = rowType r"
  by (simp_all add: processOf_def copy_process_def copy_entity_def associate_def)

text \<open>A process is found as it was written; a row keeps its creation time and its type.\<close>

definition keptColumns :: "transfer_process option \<Rightarrow> transfer_process \<Rightarrow> transfer_process" where
  "keptColumns existing p =
     (case existing of
        None \<Rightarrow> p
      | Some e \<Rightarrow> p\<lparr>createdTimestamp := createdTimestamp e, tpType := tpType e\<rparr>)"

lemma findIn_written:
  assumes ok: "transferDb_ok db" and p: "storable p db"
  shows "findIn now (written p db) (entityId p) = Some (copy_process now (keptColumns (findIn now db (entityId p)) p))"
proof (cases "entityId p \<in> rowId ` set (entityTable db)")
  case True
  obtain r d where rd: "r \<in> set (entityTable db)" "rowId r = entityId p"
    "d \<in> set (relatedTable db)" "transferProcessId d = entityId p"
    using row_request [OF ok True] .
  have w: "written p db = overwritten p db" using True by (simp add: written_def)
  have "overwriteRow p r \<in> set (entityTable (overwritten p db))" "d\<lparr>rowRequest := dataRequest p\<rparr> \<in> set (relatedTable (overwritten p db))"
    using rd by (auto simp: overwritten_def image_iff intro: bexI [of _ r] bexI [of _ d])
  then show ?thesis
    using findIn_present [OF transferDb_ok_overwritten [OF ok p]] findIn_present [OF ok rd] rd
    by (simp add: w processOf_overwriteRow keptColumns_def processOf_kept)
next
  case False
  have "findIn now (inserted p db) (entityId p) = Some (processOf now (rowOf p) (dataRequest p))"
    using findIn_present [OF transferDb_ok_inserted(1) [OF ok p False], of "rowOf p" "entityId p"
        "\<lparr>rowRequest = dataRequest p, transferProcessId = entityId p\<rparr>"]
    by (simp add: inserted_def rowOf_def)
  with False show ?thesis by (simp add: written_def findIn_absent keptColumns_def processOf_rowOf)
qed

lemma findIn_written_other:
  assumes "k \<noteq> entityId p"
  shows "findIn now (written p db) k = findIn now db k"
proof -
  have "filter (\<lambda>r. rowId r = k) (map (\<lambda>r. if rowId r = entityId p then overwriteRow p r else r) rs) =
      filter (\<lambda>r. rowId r = k) rs" for rs :: "processRow list"
    using assms by (induction rs) auto
  moreover have "filter (\<lambda>d. transferProcessId d = k)
      (map (\<lambda>d. if transferProcessId d = entityId p then d\<lparr>rowRequest := dataRequest p\<rparr> else d) ds) =
      filter (\<lambda>d. transferProcessId d = k) ds" for ds :: "requestRow list"
    using assms by (induction ds) auto
  ultimately have
    "filter (\<lambda>r. rowId r = k) (entityTable (written p db)) = filter (\<lambda>r. rowId r = k) (entityTable db)"
    "filter (\<lambda>d. transferProcessId d = k) (relatedTable (written p db)) =
       filter (\<lambda>d. transferProcessId d = k) (relatedTable db)"
    using assms by (simp_all add: written_def overwritten_def inserted_def rowOf_def)
  then show ?thesis unfolding findIn_def by simp
qed

text \<open>
  What was stored is found: after \<open>update\<close> or \<open>create\<close> has returned, \<open>find\<close> gives a copy of the
  process, but for the creation time and the type of one that was there before, which no update
  changes; and every other process as before.
\<close>

theorem sql_find_stored:
  assumes "store_session_ok s" "statementsLeft s = None" "storable p (committed s)"
    and "\<not> heldByOther h (entityId p) (committed s)"
  shows "\<exists>existing. fst (sql_find now' (entityId p) s) = Inr existing \<and>
    fst (sql_find now' k (snd (sql_update now h (Some (dataRequest p)) p s))) =
      (if k = entityId p then Inr (Some (copy_process now' (keptColumns existing p))) else fst (sql_find now' k s))"
proof -
  let ?s' = "snd (sql_update now h (Some (dataRequest p)) p s)" and ?s = "startTransaction s"
  have ok: "transferDb_ok (committed s)" and t: "rollbackOnly s = None" "\<not> commitFails s"
    using assms(1) by (simp_all add: sessionOk_def)
  have ok': "transferDb_ok (committed ?s')" and un: "unleased (committed ?s') = unleased (written p (committed s))"
    using store_written [OF assms(1-3), where now = now and h = h] assms(4) by simp_all
  have "rollbackOnly ?s' = None" "statementsLeft ?s' = None"
    using update_session [OF assms(1-3), where now = now and h = h] by simp_all
  from find_working [OF this ok'] find_working [OF t(1) assms(2) ok]
    findIn_unleased [OF un] findIn_written [OF ok assms(3)] findIn_written_other [of k p now' "committed s"]
  show ?thesis by auto
qed

section \<open>Delete\<close>

lemma deleteProcess_leaseOf: "leaseOf (deleteProcess k db) k = None"
  by (rule heldByOther_absent) (auto simp: deleteProcess_def)

text \<open>
  Deleting a process, with a database that works: it fails and changes nothing while a lease on the
  process lasts, also one of the runtime that deletes it; else the process and its request are gone,
  but the lease that was acquired for it stays in the table of leases, where no row refers to it.
\<close>

theorem sql_delete_spec:
  assumes "store_session_ok s" "statementsLeft s = None"
  shows "if k \<notin> rowId ` set (entityTable (committed s))
    then fst (sql_delete now h k s) = Inr () \<and> committed (snd (sql_delete now h k s)) = committed s
    else if isLeased now (committed s) k
    then isl (fst (sql_delete now h k s)) \<and> committed (snd (sql_delete now h k s)) = committed s
    else fst (sql_delete now h k s) = Inr () \<and> committed (snd (sql_delete now h k s)) =
      \<lparr>leaseTable = leaseTable (committed s) @ [newLease h None now (randomIds s 0)],
       entityTable = filter (\<lambda>r. rowId r \<noteq> k) (entityTable (committed s)),
       relatedTable = filter (\<lambda>d. transferProcessId d \<noteq> k) (relatedTable (committed s))\<rparr>"
proof -
  let ?s = "startTransaction s"
  have t: "rollbackOnly s = None" "\<not> commitFails s" and ok: "transferDb_ok (committed s)"
    using assms(1) by (simp_all add: sessionOk_def)
  have s: "transferDb_ok (current ?s)" "rollbackOnly ?s \<noteq> None" "statementsLeft ?s = None" "current ?s = committed s"
    "committed ?s = committed s" "commitFails ?s = commitFails s" "rollbackOnly ?s = Some False" "randomIds ?s = randomIds s"
    using assms(2) ok by (simp_all add: startTransaction_def)
  have outer: "sql_delete now h k s = map_prod id endTransaction (sql_delete now h k ?s)"
    unfolding sql_delete_def by (rule execute_start [OF t(1)])
  show ?thesis
  proof (cases "k \<in> rowId ` set (entityTable (committed s))")
    case False
    have "sql_delete now h k ?s = (Inr (), ?s)"
      using sql_find_absent [OF s(1-3), of k now] False s(4,7)
      by (simp add: sql_delete_def execute_def runBlock_def andThen_def)
    then show ?thesis using False s t by (simp add: outer endTransaction_def)
  next
    case True
    obtain r d where rd: "r \<in> set (entityTable (committed s))" "rowId r = k"
      "d \<in> set (relatedTable (committed s))" "transferProcessId d = k"
      using row_request [OF ok True] .
    note find = sql_find_present [OF s(1-3), unfolded s(4), OF rd, of now]
    note acquire = sql_acquireLease_run [OF session_ok_start [OF assms(1)] _ s(3), unfolded s(4), OF True, of h None now]
    let ?db = "deleteProcess k (leaseEntity h None now (randomIds s 0) k (committed s))"
    let ?s1 = "acquired h None now k ?s" and ?s2 = "(acquired h None now k ?s)\<lparr>current := ?db\<rparr>"
    have s2: "rollbackOnly ?s2 \<noteq> None" "statementsLeft ?s2 = None" using s by simp_all
    have break: "sql_breakLease h k ?s2 = (Inr (), ?s2)"
      using sql_breakLease_run [OF s2, of h k] by (simp add: deleteProcess_leaseOf)
    have del: "executeUpdate (\<lambda>db. Some (deleteProcess k db)) ?s1 = (Inr (), ?s2)"
      using s by (simp add: executeUpdate_def statementDone_def acquired_def)
    have "sql_delete now h k ?s =
        (if isLeased now (committed s) k then failedWith ''Entity is currently leased!'' ?s else (Inr (), ?s2))"
      using find acquire break del s(7)
      by (simp add: sql_delete_def execute_def runBlock_def andThen_def failedWith_def rethrown_def)
    moreover have "filter (\<lambda>r. rowId r \<noteq> k) (setLease lid k rs) = filter (\<lambda>r. rowId r \<noteq> k) rs" for lid and rs :: "processRow list"
      by (induction rs) (simp_all add: setLease_def)
    then have "?db = \<lparr>leaseTable = leaseTable (committed s) @ [newLease h None now (randomIds s 0)],
       entityTable = filter (\<lambda>r. rowId r \<noteq> k) (entityTable (committed s)),
       relatedTable = filter (\<lambda>d. transferProcessId d \<noteq> k) (relatedTable (committed s))\<rparr>"
      by (simp add: deleteProcess_def leaseEntity_def)
    ultimately show ?thesis using True s t
      by (simp add: outer failedWith_def endTransaction_def acquired_def)
  qed
qed

section \<open>Repeated requests\<close>

text \<open>
  A request that is repeated: the store looks for a process by its own identifier, not by that of
  the data request it is given, so it does not find the process of a request it holds, and to
  store a second process for it fails, changing nothing.
\<close>

theorem sql_request_repeated:
  assumes "store_session_ok s" "statementsLeft s = None" "d \<in> set (relatedTable (committed s))"
    and "requestId (rowRequest d) \<notin> rowId ` set (entityTable (committed s))"
    and "requestId (dataRequest p) = requestId (rowRequest d)" "entityId p \<notin> rowId ` set (entityTable (committed s))"
  shows "fst (sql_processIdForTransferId (requestId (rowRequest d)) s) = Inr None \<and>
    isl (fst (sql_create now h (Some (dataRequest p)) p s)) \<and> committed (snd (sql_create now h (Some (dataRequest p)) p s)) = committed s"
proof -
  let ?s = "startTransaction s"
  have t: "rollbackOnly s = None" and ok: "transferDb_ok (committed s)"
    using assms(1) by (simp_all add: sessionOk_def)
  have s: "transferDb_ok (current ?s)" "rollbackOnly ?s \<noteq> None" "statementsLeft ?s = None" "current ?s = committed s"
    "committed ?s = committed s" "rollbackOnly ?s = Some False"
    using assms(2) ok by (simp_all add: startTransaction_def)
  have "requestProcessId (rowRequest d') \<noteq> Some (requestId (rowRequest d))" if "d' \<in> set (relatedTable (committed s))" for d'
    using ok assms(4) that unfolding transferDb_ok_def by (metis imageI option.inject)
  then have "filter (\<lambda>d'. requestProcessId (rowRequest d') = Some (requestId (rowRequest d))) (relatedTable (committed s)) = []"
    by (simp add: filter_empty_conv)
  then have "sql_processIdForTransferId (requestId (rowRequest d)) ?s = (Inr None, ?s)"
    using s by (simp add: sql_processIdForTransferId_def execute_def runBlock_def executeQuery_def selectProcessIds_def
        andThen_def single_def)
  then have 1: "fst (sql_processIdForTransferId (requestId (rowRequest d)) s) = Inr None"
    unfolding sql_processIdForTransferId_def by (simp only: execute_start [OF t]) simp
  have "requestId (dataRequest p) \<in> (\<lambda>d. requestId (rowRequest d)) ` set (relatedTable (committed s))"
    using assms(3,5) by simp
  then have "fst (sql_create now h (Some (dataRequest p)) p ?s) = Inl (EdcException (databaseError s)) \<and>
      rollbackOnly (snd (sql_create now h (Some (dataRequest p)) p ?s)) = Some True \<and> committed (snd (sql_create now h (Some (dataRequest p)) p ?s)) = committed s"
    using sql_find_absent [OF s(1-3), of "entityId p" now] assms(6) s
    by (simp add: sql_create_def sql_insert_def execute_def runBlock_def andThen_def executeUpdate_def insertProcess_def
        insertRequest_def rethrown_def statementDone_def startTransaction_def)
  moreover have "sql_create now h (Some (dataRequest p)) p s =
      map_prod id endTransaction (sql_create now h (Some (dataRequest p)) p ?s)"
    by (rule create_start [OF t])
  ultimately show ?thesis using 1 by (simp add: endTransaction_def)
qed

section \<open>The next batch\<close>

definition dueRows :: "int \<Rightarrow> int \<Rightarrow> nat \<Rightarrow> transferDb \<Rightarrow> processRow list" where
  "dueRows st now limit db =
     batch rowStateTimestamp limit
       (filter (\<lambda>r. rowState r = st \<and> \<not> isLeased now db (rowId r)) (entityTable db))"

lemma joined_request:
  assumes ok: "transferDb_ok db"
    and rr: "rr \<in> set (leftJoin (\<lambda>r d. transferProcessId d = rowId r) (relatedTable db) (entityTable db))"
  shows "\<exists>d \<in> set (relatedTable db). snd rr = Some d \<and> transferProcessId d = rowId (fst rr)"
proof -
  from rr obtain r where r: "r \<in> set (entityTable db)" "rr \<in> set (case filter (\<lambda>d. transferProcessId d = rowId r) (relatedTable db) of
      [] \<Rightarrow> [(r, None)] | js \<Rightarrow> map (\<lambda>d. (r, Some d)) js)" by (auto simp: leftJoin_def)
  obtain d where "d \<in> set (relatedTable db)" "transferProcessId d = rowId r"
    using row_request [OF ok imageI [OF r(1)]] by metis
  then have "d \<in> set (filter (\<lambda>d. transferProcessId d = rowId r) (relatedTable db))" by simp
  moreover have "set (filter (\<lambda>d. transferProcessId d = rowId r) (relatedTable db)) =
      {d \<in> set (relatedTable db). transferProcessId d = rowId r}" by auto
  ultimately show ?thesis using r(2)
    by (cases "filter (\<lambda>d. transferProcessId d = rowId r) (relatedTable db)") auto
qed

lemma selected_due:
  assumes ok: "transferDb_ok db"
  shows "map fst (selectNextForState st now n db) = dueRows st now n db"
    and "\<exists>ps. mapOrThrow (mapTransferProcess now) (selectNextForState st now n db) = Inr ps \<and>
      map Some ps = map (\<lambda>r. findIn now db (rowId r)) (dueRows st now n db)"
proof -
  let ?j = "leftJoin (\<lambda>r d. transferProcessId d = rowId r) (relatedTable db) (entityTable db)"
  let ?sel = "selectNextForState st now n db"
  have db: "db_ok db" using ok by (simp add: transferDb_ok_def)
  have "map fst ?sel = batch rowStateTimestamp n (filter (\<lambda>r. rowState r = st \<and> leaseFree now db r) (map fst ?j))"
    unfolding selectNextForState_def
    using map_batch [of fst rowStateTimestamp n "\<lambda>r. rowState r = st \<and> leaseFree now db r" ?j] by simp
  also have "filter (\<lambda>r. rowState r = st \<and> leaseFree now db r) (map fst ?j) =
      filter (\<lambda>r. rowState r = st \<and> \<not> isLeased now db (rowId r)) (entityTable db)"
    unfolding joined_fst [OF ok]
    by (rule filter_cong [OF refl]) (auto simp: isLeased_def leaseFree_leaseOf [OF db])
  finally show due: "map fst ?sel = dueRows st now n db" by (simp add: dueRows_def)
  have found: "\<exists>p. mapTransferProcess now rr = Inr p \<and> findIn now db (rowId (fst rr)) = Some p" if "rr \<in> set ?sel" for rr
  proof -
    have "rr \<in> set ?j" using that unfolding selectNextForState_def by (auto dest: batch_filter)
    then obtain d where d: "d \<in> set (relatedTable db)" "snd rr = Some d" "transferProcessId d = rowId (fst rr)"
      using joined_request [OF ok] by blast
    have "fst rr \<in> set (entityTable db)" using selected_ids(2) [OF ok that] by simp
    from findIn_present [OF ok this refl d(1,3)] mapTransferProcess_Some [OF request_complete [OF ok d(1)], of now "fst rr"]
    show ?thesis using d(2) by (metis prod.collapse)
  qed
  let ?g = "\<lambda>rr. the (findIn now db (rowId (fst rr)))"
  have "mapOrThrow (mapTransferProcess now) ?sel = Inr (map ?g ?sel)"
    by (rule mapOrThrow_total) (use found in force)
  moreover have "Some (?g rr) = findIn now db (rowId (fst rr))" if "rr \<in> set ?sel" for rr
    using found [OF that] by auto
  then have "map Some (map ?g ?sel) = map (\<lambda>rr. findIn now db (rowId (fst rr))) ?sel" by simp
  then have "map Some (map ?g ?sel) = map (\<lambda>r. findIn now db (rowId r)) (dueRows st now n db)"
    unfolding due [symmetric] by (simp add: comp_def)
  ultimately show "\<exists>ps. mapOrThrow (mapTransferProcess now) ?sel = Inr ps \<and>
      map Some ps = map (\<lambda>r. findIn now db (rowId r)) (dueRows st now n db)" by blast
qed

text \<open>
  \<open>nextForState\<close> with a database that works and a limit that is not negative: it hands out the
  processes of the oldest rows in the state, up to the limit, that no runtime has leased or whose lease
  has expired; each is leased to the caller for a minute, and all else stays as it is.
\<close>

theorem sql_nextForState_spec:
  assumes "store_session_ok s" "statementsLeft s = None" "0 \<le> limit"
  shows "\<exists>ps s'. sql_nextForState st limit now h s = (Inr ps, s') \<and>
    map Some ps = map (\<lambda>r. findIn now (committed s) (rowId r)) (dueRows st now (nat limit) (committed s)) \<and>
    unleased (committed s') = unleased (committed s) \<and>
    leases (committed s') = (\<lambda>k. if k \<in> rowId ` set (dueRows st now (nat limit) (committed s))
      then Some \<lparr>leasedBy = h, leasedAt = now, leaseDuration = 60000\<rparr> else leases (committed s) k)"
proof -
  let ?db = "committed s" and ?due = "dueRows st now (nat limit) (committed s)"
  have ok: "transferDb_ok ?db" using assms(1) by (simp add: sessionOk_def)
  obtain ps where ps: "mapOrThrow (mapTransferProcess now) (selectNextForState st now (nat limit) ?db) = Inr ps"
    "map Some ps = map (\<lambda>r. findIn now ?db (rowId r)) ?due"
    using selected_due(2) [OF ok] by blast
  have sel: "nextProcesses st limit now (databaseError s) ?db = Inr ps"
    using ps(1) assms(3) by (simp add: nextProcesses_def)
  have "map entityId ps = map rowId ?due"
    unfolding nextProcesses_ids [OF sel] selected_due(1) [OF ok, symmetric] by simp
  then have "entityId ` set ps = rowId ` set ?due" by (metis list.set_map)
  moreover obtain s' where run: "handOut (nextProcesses st limit now) entityId h now s = (Inr ps, s')"
    using transfers.handOut_run [OF assms(1,2) sel] by blast
  ultimately show ?thesis
    using transfers.handOut_Inr(3,4) [OF assms(1) run] ps(2) by (auto simp: sql_nextForState_def)
qed

lemma keeps_sql_write:
  "keeps (within s0) (sql_insert dr p)" "keeps (within s0) (sql_update now h dr p)"
  unfolding sql_update_def sql_insert_def
  by (auto intro!: within_intros keeps_sql_leases keeps_sql_find split: option.split)

lemma noError_sql_write: "noError (sql_insert dr p)" "noError (sql_update now h dr p)"
  unfolding sql_update_def sql_insert_def
  by (auto intro!: noError_intros noError_sql_leases noError_sql_find simp: isError_def split: option.split)

lemma sql_rolled_back_update:
  "rollbackOnly s = None \<Longrightarrow> isl (fst (sql_update now h dr p s)) \<Longrightarrow>
     committed (snd (sql_update now h dr p s)) = committed s"
  unfolding sql_update_def
  by (intro execute_isl)
    (auto intro!: within_intros noError_intros keeps_sql_leases noError_sql_leases keeps_sql_find noError_sql_find
      simp: sql_insert_def isError_def split: option.split)

text \<open>
  Wherever the database fails within an operation that changes the store, and whatever it throws:
  an operation that throws has changed nothing.
\<close>

theorem sql_rolled_back:
  assumes "rollbackOnly s = None"
  shows "(isl (fst (sql_create now h dr p s)) \<longrightarrow> committed (snd (sql_create now h dr p s)) = committed s) \<and>
    (isl (fst (sql_update now h dr p s)) \<longrightarrow> committed (snd (sql_update now h dr p s)) = committed s) \<and>
    (isl (fst (sql_delete now h k s)) \<longrightarrow> committed (snd (sql_delete now h k s)) = committed s) \<and>
    (isl (fst (sql_nextForState st n now h s)) \<longrightarrow> committed (snd (sql_nextForState st n now h s)) = committed s)"
proof (intro conjI impI)
  show "committed (snd (sql_create now h dr p s)) = committed s" if "isl (fst (sql_create now h dr p s))"
  proof (cases "dr = None")
    case False
    then have create: "sql_create now h dr p = execute (andThen (sql_find now (entityId p)) (\<lambda>existing.
        case existing of None \<Rightarrow> sql_insert dr p | Some e \<Rightarrow> sql_update now h dr p))"
      by (auto simp: sql_create_def fun_eq_iff)
    show ?thesis
      using that unfolding create
      by (intro execute_isl [OF assms])
        (auto intro!: within_intros noError_intros keeps_sql_find noError_sql_find keeps_sql_write noError_sql_write split: option.split)
  qed (simp add: sql_create_def)
  show "committed (snd (sql_update now h dr p s)) = committed s" if "isl (fst (sql_update now h dr p s))"
    by (rule sql_rolled_back_update [OF assms that])
qed (unfold sql_delete_def sql_nextForState_def handOut_def,
    (rule execute_isl [OF assms], auto intro!: within_intros noError_intros keeps_sql_leases noError_sql_leases
       keeps_sql_find noError_sql_find split: option.split)+)

section \<open>A process without a request\<close>

text \<open>Its row is inserted alone, and cannot be read again.\<close>

definition insertedAlone :: "transfer_process \<Rightarrow> transferDb \<Rightarrow> transferDb" where
  "insertedAlone p db = db\<lparr>entityTable := entityTable db @ [rowOf p]\<rparr>"

lemma leftJoin_snoc:
  "leftJoin on ds (rs @ [r]) = leftJoin on ds rs @
     (case filter (on r) ds of [] \<Rightarrow> [(r, None)] | js \<Rightarrow> map (\<lambda>d. (r, Some d)) js)"
  by (simp add: leftJoin_def)

lemma selectById_alone:
  assumes ok: "transferDb_ok db" and new: "entityId p \<notin> rowId ` set (entityTable db)"
  shows "selectById (entityId p) (insertedAlone p db) = [(rowOf p, None)]"
proof -
  let ?on = "\<lambda>r d. requestProcessId (rowRequest d) = Some (rowId r)"
  have "requestProcessId (rowRequest d) \<noteq> Some (entityId p)" if "d \<in> set (relatedTable db)" for d
    using ok new that unfolding transferDb_ok_def by (metis imageI option.inject)
  then have "filter (?on (rowOf p)) (relatedTable db) = []" by (simp add: filter_empty_conv rowOf_def)
  then have "leftJoin ?on (relatedTable db) (entityTable db @ [rowOf p]) =
      leftJoin ?on (relatedTable db) (entityTable db) @ [(rowOf p, None)]"
    by (simp add: leftJoin_snoc)
  moreover have "filter (\<lambda>rr. rowId (fst rr) = entityId p) (leftJoin ?on (relatedTable db) (entityTable db)) = []"
    using joined_absent [OF ok new] by (simp add: joins_agree [OF ok])
  ultimately show ?thesis by (simp add: selectById_def insertedAlone_def rowOf_def)
qed

lemma find_alone:
  assumes t: "rollbackOnly s = None" and db: "committed s = insertedAlone p db"
    and ok: "transferDb_ok db" and new: "entityId p \<notin> rowId ` set (entityTable db)"
  shows "isl (fst (sql_find now (entityId p) s))"
proof -
  let ?s = "startTransaction s"
  have "mapOrThrow (mapTransferProcess now) (selectById (entityId p) (current ?s)) =
      Inl (IllegalArgumentException ''A data destination or type must be specified'')"
    using selectById_alone [OF ok new] by (simp add: startTransaction_def db mapTransferProcess_def)
  then have "isl (fst (sql_find now (entityId p) ?s))"
    by (simp add: sql_find_def execute_def runBlock_def andThen_def executeQuery_def startTransaction_def)
  then show ?thesis unfolding sql_find_def by (simp only: execute_start [OF t]) simp
qed

lemma update_without_request:
  assumes ok: "store_session_ok s" and w: "statementsLeft s = None"
  shows "if entityId p \<in> rowId ` set (entityTable (committed s))
    then isl (fst (sql_update now h None p s)) \<and> committed (snd (sql_update now h None p s)) = committed s
    else fst (sql_update now h None p s) = Inr () \<and>
      committed (snd (sql_update now h None p s)) = insertedAlone p (committed s) \<and>
      isl (fst (sql_find now' (entityId p) (snd (sql_update now h None p s))))"
proof -
  let ?s = "startTransaction s"
  have t: "rollbackOnly s = None" "\<not> commitFails s" and db: "transferDb_ok (committed s)"
    using ok by (simp_all add: sessionOk_def)
  have s: "transferDb_ok (current ?s)" "rollbackOnly ?s \<noteq> None" "statementsLeft ?s = None" "current ?s = committed s"
    "committed ?s = committed s" "rollbackOnly ?s = Some False" "commitFails ?s = commitFails s"
    using w db by (simp_all add: startTransaction_def)
  have outer: "sql_update now h None p s = map_prod id endTransaction (sql_update now h None p ?s)"
    unfolding sql_update_def by (rule execute_start [OF t(1)])
  show ?thesis
  proof (cases "entityId p \<in> rowId ` set (entityTable (committed s))")
    case False
    have "sql_insert None p ?s = (Inr (), ?s\<lparr>current := insertedAlone p (committed s)\<rparr>)"
      using False s by (simp add: sql_insert_def execute_def runBlock_def andThen_def executeUpdate_def
          insertProcess_def insertedAlone_def statementDone_def)
    then have "sql_update now h None p ?s = (Inr (), ?s\<lparr>current := insertedAlone p (committed s)\<rparr>)"
      using sql_find_absent [OF s(1-3), of "entityId p" now] False s
      by (simp add: sql_update_def execute_def runBlock_def andThen_def)
    then have run: "fst (sql_update now h None p s) = Inr ()"
      "committed (snd (sql_update now h None p s)) = insertedAlone p (committed s)"
      "rollbackOnly (snd (sql_update now h None p s)) = None"
      using s t by (simp_all add: outer endTransaction_def)
    with find_alone [OF run(3,2) db False, of now'] False show ?thesis by simp
  next
    case True
    obtain r d where rd: "r \<in> set (entityTable (committed s))" "rowId r = entityId p"
      "d \<in> set (relatedTable (committed s))" "transferProcessId d = entityId p"
      using row_request [OF db True] .
    note find = sql_find_present [OF s(1-3), unfolded s(4), OF rd, of now]
      and break = sql_breakLease_run [OF s(2,3), of h "entityId p"]
    have "isl (fst (sql_update now h None p ?s))"
      using find break s(2,3,6)
      by (auto simp: sql_update_def execute_def runBlock_def andThen_def failedWith_def executeUpdate_def
          updateProcess_def split: option.splits)
    then have fails: "isl (fst (sql_update now h None p s))" by (simp add: outer)
    with sql_rolled_back_update [OF t(1), of now h None p] True show ?thesis by simp
  qed
qed

text \<open>
  (C20) Storing a process, with a database that works. A process that was built with a request that is
  not that of another: \<open>create\<close> and \<open>update\<close> do the same. They fail and change nothing if another
  runtime holds the lease of the process, expired or not; else they write the process, to its row or a
  new one, with its request, and end its lease, leaving all other processes, requests and leases.
  A process without a request: \<open>create\<close> throws and changes nothing. \<open>update\<close> throws and changes
  nothing if the process is stored already; else it inserts the row of the process alone, and
  from then on to find the process throws.
\<close>

theorem sql_store_spec:
  assumes "store_session_ok s" "statementsLeft s = None"
  shows "(storable p (committed s) \<longrightarrow>
      sql_create now h (Some (dataRequest p)) p s = sql_update now h (Some (dataRequest p)) p s \<and>
      (if heldByOther h (entityId p) (committed s)
       then isl (fst (sql_update now h (Some (dataRequest p)) p s)) \<and>
         committed (snd (sql_update now h (Some (dataRequest p)) p s)) = committed s
       else fst (sql_update now h (Some (dataRequest p)) p s) = Inr () \<and>
         transferDb_ok (committed (snd (sql_update now h (Some (dataRequest p)) p s))) \<and>
         unleased (committed (snd (sql_update now h (Some (dataRequest p)) p s))) = unleased (written p (committed s)) \<and>
         leases (committed (snd (sql_update now h (Some (dataRequest p)) p s))) =
           (leases (committed s))(entityId p := None))) \<and>
    sql_create now h None p s =
      (Inl (IllegalArgumentException ''Cannot store TransferProcess without a DataRequest''), s) \<and>
    (if entityId p \<in> rowId ` set (entityTable (committed s))
     then isl (fst (sql_update now h None p s)) \<and> committed (snd (sql_update now h None p s)) = committed s
     else fst (sql_update now h None p s) = Inr () \<and>
       committed (snd (sql_update now h None p s)) =
         (committed s)\<lparr>entityTable := entityTable (committed s) @ [rowOf p]\<rparr> \<and>
       isl (fst (sql_find now' (entityId p) (snd (sql_update now h None p s)))))"
proof -
  have "sql_create now h (Some (dataRequest p)) p s = sql_update now h (Some (dataRequest p)) p s"
    if "storable p (committed s)"
    using store_outer [of s p now h] assms that by (simp add: sessionOk_def)
  then show ?thesis
    using store_written [OF assms, where now = now and h = h]
      update_without_request [OF assms, of p now h now', unfolded insertedAlone_def]
    by (simp add: sql_create_def)
qed

end
