(* ===== verification/Sql_Transfer_Examples.thy ===== *)
theory Sql_Transfer_Examples
  imports Sql_Transfer_Properties
begin

text \<open>
  The properties of the SQL store on concrete tables: two transfer processes, of which the second is
  leased by the runtime \<open>A\<close>.
\<close>

definition sqlProcess :: "string \<Rightarrow> string \<Rightarrow> int \<Rightarrow> transfer_process" where
  "sqlProcess k rid ts =
     \<lparr>entityId = k, createdTimestamp = 5, state = 100, stateCount = 1, stateTimestamp = ts,
      traceContext = [], errorDetail = None, tpType = CONSUMER,
      dataRequest = \<lparr>requestId = rid, requestProcessId = Some k, connectorAddress = ''http://provider'',
        protocol = ''ids-multipart'', connectorId = ''provider'', assetId = ''asset'', contractId = ''contract'',
        dataDestination = Some [(''type'', ''file'')], managedResources = True, requestProperties = [],
        requestTransferType = \<lparr>contentType = ''application/octet-stream'', isFinite = True\<rparr>\<rparr>,
      contentDataAddress = None, resourceManifest = None, provisionedResourceSet = None,
      deprovisionedResources = []\<rparr>"

definition sqlExampleDb :: transferDb where
  "sqlExampleDb =
     \<lparr>leaseTable = [\<lparr>leasedBy = ''A'', leasedAt = 1000, leaseDuration = 60000, leaseId = ''l1''\<rparr>],
      entityTable = [rowOf (sqlProcess ''t1'' ''r1'' 20), (rowOf (sqlProcess ''t2'' ''r2'' 10))\<lparr>rowLease := Some ''l1''\<rparr>],
      relatedTable = [\<lparr>rowRequest = dataRequest (sqlProcess ''t1'' ''r1'' 20), transferProcessId = ''t1''\<rparr>,
                      \<lparr>rowRequest = dataRequest (sqlProcess ''t2'' ''r2'' 10), transferProcessId = ''t2''\<rparr>]\<rparr>"

definition sqlExample :: "transferDb session" where
  "sqlExample =
     \<lparr>committed = sqlExampleDb, current = sqlExampleDb, rollbackOnly = None, statementsLeft = None,
      databaseError = ''connection lost'', commitFails = False,
      randomIds = \<lambda>n. replicate (Suc n) (CHR ''u'')\<rparr>"

lemmas sqlExample_defs = sqlExample_def sqlExampleDb_def sqlProcess_def rowOf_def

lemma sqlExample_db: "transferDb_ok sqlExampleDb"
  by (auto simp: transferDb_ok_def db_ok_def requestComplete_def sqlExample_defs)

lemma sqlExample_fresh: "ids_fresh (randomIds sqlExample) sqlExampleDb"
proof -
  have "inj (\<lambda>n. replicate (Suc n) (CHR ''u''))" by (rule injI) (metis Suc_inject length_replicate)
  moreover have "replicate (Suc n) (CHR ''u'') \<noteq> CHR ''l'' # xs" "replicate (Suc n) (CHR ''u'') \<noteq> CHR ''t'' # xs" for n xs
    by simp_all
  ultimately show ?thesis by (auto simp: ids_fresh_def sqlExample_defs)
qed

lemma sqlExample_ok: "store_session_ok sqlExample"
  using sqlExample_db sqlExample_fresh by (simp add: sessionOk_def sqlExample_def)

lemma sqlExample_simps [simp]:
  "statementsLeft sqlExample = None" "committed sqlExample = sqlExampleDb" "rollbackOnly sqlExample = None"
  by (simp_all add: sqlExample_def)

lemma sqlExample_rows [simp]: "map rowId (entityTable sqlExampleDb) = [''t1'', ''t2'']"
  by (simp add: sqlExample_defs)

lemma sqlExample_row_set [simp]: "rowId ` set (entityTable sqlExampleDb) = {''t1'', ''t2''}"
  using arg_cong [where f = set, OF sqlExample_rows] unfolding list.set_map by simp

lemma sqlExample_leases: "leases sqlExampleDb =
    [''t2'' \<mapsto> \<lparr>leasedBy = ''A'', leasedAt = 1000, leaseDuration = 60000\<rparr>]"
  by (auto simp: fun_eq_iff leases_def leaseOf_def findLeaseByEntity_def lease.truncate_def sqlExample_defs)

lemma sqlExample_storable: "storable (sqlProcess ''t1'' ''r1'' 30) sqlExampleDb" "storable (sqlProcess ''t2'' ''r2'' 30) sqlExampleDb"
  by (auto simp: storable_def sqlExample_defs)

lemma sqlExample_held: "heldByOther ''B'' ''t2'' sqlExampleDb" "\<not> heldByOther ''B'' ''t1'' sqlExampleDb"
  by (simp_all add: heldByOther_def sqlExample_leases)

section \<open>The properties at work\<close>

theorem sql_lease_refines_witness:
  "session_ok (startTransaction sqlExample) \<and>
   implements (sql_acquireLease ''B'' None 2000 ''t1'') (acquireSpec ''B'' 2000 ''t1'') (startTransaction sqlExample) \<and>
   acquireSpec ''B'' 2000 ''t2'' (leases sqlExampleDb) = None \<and>
   implements (sql_acquireLease ''B'' None 2000 ''t2'') (acquireSpec ''B'' 2000 ''t2'') (startTransaction sqlExample)"
proof -
  have s: "session_ok (startTransaction sqlExample)" by (rule session_ok_start [OF sqlExample_ok])
  have "acquireSpec ''B'' 2000 ''t2'' (leases sqlExampleDb) = None"
    by (simp add: acquireSpec_def sqlExample_leases sqlLease_isExpired_def)
  then show ?thesis
    using s sql_lease_refines [OF s, of "''t1''" "''B''" 2000] sql_lease_refines [OF s, of "''t2''" "''B''" 2000]
    by (simp add: startTransaction_def)
qed

theorem sql_batches_disjoint_witness:
  "store_session_ok sqlExample \<and>
   distinct (map entityId (concat (fetches sql_fetch
     [(100, 1, ''B'', 2000, None), (100, 5, ''C'', 62000, Some 3)] sqlExample)))"
  using sqlExample_ok
    sql_batches_disjoint [OF sqlExample_ok, of "[(100, 1, ''B'', 2000, None), (100, 5, ''C'', 62000, Some 3)]"]
  by (simp add: sqlBefore_def sqlCovers_def)

theorem sql_nextForState_spec_witness:
  "\<exists>ps s'. sql_nextForState 100 5 2000 ''B'' sqlExample = (Inr ps, s') \<and> map entityId ps = [''t1''] \<and>
     leases (committed s') ''t1'' = Some \<lparr>leasedBy = ''B'', leasedAt = 2000, leaseDuration = 60000\<rparr>"
proof -
  have "dueRows 100 2000 5 sqlExampleDb = [rowOf (sqlProcess ''t1'' ''r1'' 20)]"
    by (simp add: dueRows_def batch_def isLeased_leases [symmetric] sqlExample_leases sqlLease_isExpired_def)
      (simp add: sqlExample_defs sqlLease_isExpired_def)
  moreover have "findIn 2000 sqlExampleDb ''t1'' = Some (processOf 2000 (rowOf (sqlProcess ''t1'' ''r1'' 20))
      (dataRequest (sqlProcess ''t1'' ''r1'' 20)))"
    by (simp add: findIn_def sqlExample_defs)
  ultimately show ?thesis
    using sql_nextForState_spec [OF sqlExample_ok, of 5 100 2000 "''B''"] by (auto simp: rowOf_def sqlProcess_def)
qed

theorem sql_store_spec_witness:
  "isl (fst (sql_update 90000 ''B'' (Some (dataRequest (sqlProcess ''t2'' ''r2'' 30))) (sqlProcess ''t2'' ''r2'' 30) sqlExample)) \<and>
   fst (sql_create 90000 ''B'' (Some (dataRequest (sqlProcess ''t1'' ''r1'' 30))) (sqlProcess ''t1'' ''r1'' 30) sqlExample) = Inr () \<and>
   fst (sql_update 90000 ''B'' None (sqlProcess ''t3'' ''r3'' 30) sqlExample) = Inr () \<and>
   isl (fst (sql_find 90000 ''t3'' (snd (sql_update 90000 ''B'' None (sqlProcess ''t3'' ''r3'' 30) sqlExample))))"
proof -
  have ids: "entityId (sqlProcess k rid ts) = k" for k rid ts by (simp add: sqlProcess_def)
  show ?thesis
    using sql_store_spec [OF sqlExample_ok, of "sqlProcess ''t1'' ''r1'' 30" 90000 "''B''"]
      sql_store_spec [OF sqlExample_ok, of "sqlProcess ''t2'' ''r2'' 30" 90000 "''B''"]
      sql_store_spec [OF sqlExample_ok, of "sqlProcess ''t3'' ''r3'' 30" 90000 "''B''" 90000]
      sqlExample_storable sqlExample_held
    by (simp add: ids)
qed

theorem commit_failure_hidden_witness:
  "fst (sql_update 2000 ''B'' (Some (dataRequest (sqlProcess ''t1'' ''r1'' 30))) (sqlProcess ''t1'' ''r1'' 30) (sqlExample\<lparr>commitFails := True\<rparr>)) = Inr () \<and>
   committed (snd (sql_update 2000 ''B'' (Some (dataRequest (sqlProcess ''t1'' ''r1'' 30))) (sqlProcess ''t1'' ''r1'' 30) (sqlExample\<lparr>commitFails := True\<rparr>))) = sqlExampleDb"
  using commit_failure_hidden [of "sqlExample\<lparr>commitFails := True\<rparr>" "sqlProcess ''t1'' ''r1'' 30" "''B''" 2000]
    sqlExample_db sqlExample_storable sqlExample_held by (simp add: sqlProcess_def)

theorem sql_find_stored_witness:
  "fst (sql_find 3000 ''t1'' (snd (sql_update 2000 ''B'' (Some (dataRequest (sqlProcess ''t1'' ''r1'' 30))) (sqlProcess ''t1'' ''r1'' 30) sqlExample))) =
     Inr (Some (sqlProcess ''t1'' ''r1'' 30))"
proof -
  have "fst (sql_find 3000 ''t1'' sqlExample) = Inr (Some (sqlProcess ''t1'' ''r1'' 20))"
    using find_working [of sqlExample 3000 "''t1''"] sqlExample_db
    by (simp add: findIn_def processOf_def copy_process_def copy_entity_def associate_def sqlExample_defs)
  then show ?thesis
    using sql_find_stored [OF sqlExample_ok, of "sqlProcess ''t1'' ''r1'' 30" "''B''" 3000 "''t1''" 2000]
      sqlExample_storable(1) sqlExample_held(2)
    by (simp add: sqlProcess_def keptColumns_def copy_process_def copy_entity_def associate_def)
qed

theorem sql_delete_spec_witness:
  "fst (sql_delete 2000 ''B'' ''t1'' sqlExample) = Inr () \<and>
   map leaseId (leaseTable (committed (snd (sql_delete 2000 ''B'' ''t1'' sqlExample)))) = [''l1'', ''u''] \<and>
   isl (fst (sql_delete 2000 ''A'' ''t2'' sqlExample))"
proof -
  have "\<not> isLeased 2000 sqlExampleDb ''t1''" "isLeased 2000 sqlExampleDb ''t2''"
    by (simp_all add: isLeased_leases [symmetric] sqlExample_leases sqlLease_isExpired_def)
  with sql_delete_spec [OF sqlExample_ok, of "''t1''" 2000 "''B''"] sql_delete_spec [OF sqlExample_ok, of "''t2''" 2000 "''A''"]
  show ?thesis by (simp add: sqlExample_def) (simp add: sqlExampleDb_def)
qed

theorem sql_request_repeated_witness:
  "fst (sql_processIdForTransferId ''r1'' sqlExample) = Inr None \<and>
   isl (fst (sql_create 2000 ''B'' (Some (dataRequest (sqlProcess ''t3'' ''r1'' 30))) (sqlProcess ''t3'' ''r1'' 30) sqlExample))"
  using sql_request_repeated [OF sqlExample_ok, of "\<lparr>rowRequest = dataRequest (sqlProcess ''t1'' ''r1'' 20), transferProcessId = ''t1''\<rparr>"
      "sqlProcess ''t3'' ''r1'' 30" 2000 "''B''"]
  by (simp add: sqlProcess_def sqlExampleDb_def rowOf_def)

theorem sql_rolled_back_witness:
  "isl (fst (sql_update 2000 ''B'' (Some (dataRequest (sqlProcess ''t1'' ''r1'' 30))) (sqlProcess ''t1'' ''r1'' 30) (sqlExample\<lparr>statementsLeft := Some 2\<rparr>))) \<and>
   committed (snd (sql_update 2000 ''B'' (Some (dataRequest (sqlProcess ''t1'' ''r1'' 30))) (sqlProcess ''t1'' ''r1'' 30) (sqlExample\<lparr>statementsLeft := Some 2\<rparr>))) = sqlExampleDb"
proof -
  have "isl (fst (sql_update 2000 ''B'' (Some (dataRequest (sqlProcess ''t1'' ''r1'' 30))) (sqlProcess ''t1'' ''r1'' 30) (sqlExample\<lparr>statementsLeft := Some 2\<rparr>)))"
    by code_simp
  then show ?thesis
    using sql_rolled_back [of "sqlExample\<lparr>statementsLeft := Some 2\<rparr>" 2000 "''B''"
        "Some (dataRequest (sqlProcess ''t1'' ''r1'' 30))" "sqlProcess ''t1'' ''r1'' 30"] by simp
qed

end
