(* ===== verification/Sql_Negotiation_Store.thy ===== *)
theory Sql_Negotiation_Store
  imports Sql_Leasing Contract_Negotiation
begin

text \<open>
  The SQL store of contract negotiations, \<open>extensions/sql/contract-negotiation-store-sql\<close>:
  \<open>SqlContractNegotiationStore\<close> on the tables of \<open>docs/schema.sql\<close>, with the statements of
  \<open>BaseSqlDialectStatements\<close>. An agreement has a row of its own, which is the agreement itself.
  JSON columns hold the values they are the text of; \<open>textAsJson\<close> says whether the driver passes a text
  to them without a cast, as that of PostgreSQL does if it is configured to (\<open>stringtype\<close>) and not by default.
\<close>

section \<open>Rows\<close>

record 'pol negotiationRow = leasedRow +
  negCorrelationId :: "string option"
  negCounterPartyId :: string
  negCounterPartyAddress :: string
  negType :: cnType
  negProtocol :: string
  negState :: int
  negStateCount :: int
  negStateTimestamp :: int
  negErrorDetail :: "string option"
  negAgreementId :: "string option"
  negOffers :: "'pol contractOffer list"
  negTraceContext :: "string jmap"

type_synonym 'pol negotiationDb = "(('pol, unit) negotiationRow_ext, 'pol contractAgreement) database"

type_synonym 'pol joinedRow = "'pol negotiationRow \<times> 'pol contractAgreement option"

definition negotiationRowOf :: "'pol contract_negotiation \<Rightarrow> 'pol negotiationRow" where
  "negotiationRowOf n =
     \<lparr>rowId = entityId n, rowLease = None, negCorrelationId = correlationId n,
      negCounterPartyId = counterPartyId n, negCounterPartyAddress = counterPartyAddress n,
      negType = cnType n, negProtocol = cnProtocol n, negState = state n, negStateCount = stateCount n,
      negStateTimestamp = stateTimestamp n, negErrorDetail = errorDetail n,
      negAgreementId = map_option agreementId (contractAgreement n),
      negOffers = contractOffers n, negTraceContext = traceContext n\<rparr>"

text \<open>The columns that an update sets.\<close>

definition overwriteNegotiation ::
  "'pol contract_negotiation \<Rightarrow> 'pol negotiationRow \<Rightarrow> 'pol negotiationRow" where
  "overwriteNegotiation n r =
     r\<lparr>negState := state n, negStateCount := stateCount n, negStateTimestamp := stateTimestamp n,
       negErrorDetail := errorDetail n, negOffers := contractOffers n, negTraceContext := traceContext n,
       negAgreementId := map_option agreementId (contractAgreement n)\<rparr>"

text \<open>The agreement that was joined to a row; of null columns none can be built.\<close>

definition extractContractAgreement :: "'pol joinedRow \<Rightarrow> java_exn + 'pol contractAgreement option" where
  "extractContractAgreement ra =
     (case negAgreementId (fst ra) of
        None \<Rightarrow> Inr None
      | Some _ \<Rightarrow> (case snd ra of None \<Rightarrow> Inl (NullPointerException []) | Some a \<Rightarrow> Inr (Some a)))"

text \<open>Neither the type nor the creation time is read: they are those of a new builder.\<close>

definition mapContractNegotiation :: "int \<Rightarrow> 'pol joinedRow \<Rightarrow> java_exn + 'pol contract_negotiation" where
  "mapContractNegotiation now ra =
     (let r = fst ra in
      orThrow (extractContractAgreement ra) (\<lambda>agreement.
        build_negotiation now (Some (rowId r))
          \<lparr>entityId = rowId r, createdTimestamp = 0, state = negState r, stateCount = negStateCount r,
           stateTimestamp = negStateTimestamp r, traceContext = negTraceContext r,
           errorDetail = negErrorDetail r, correlationId = negCorrelationId r,
           counterPartyId = negCounterPartyId r, counterPartyAddress = negCounterPartyAddress r,
           cnProtocol = negProtocol r, cnType = CN_CONSUMER, contractAgreement = agreement,
           contractOffers = negOffers r\<rparr>))"

section \<open>Statements\<close>

definition joinAgreements :: "'pol negotiationDb \<Rightarrow> 'pol joinedRow list" where
  "joinAgreements db =
     leftJoin (\<lambda>r a. negAgreementId r = Some (agreementId a)) (relatedTable db) (entityTable db)"

definition selectNegotiation :: "string \<Rightarrow> 'pol negotiationDb \<Rightarrow> 'pol joinedRow list" where
  "selectNegotiation ident db = filter (\<lambda>ra. rowId (fst ra) = ident) (joinAgreements db)"

text \<open>A query with the filter \<open>correlationId = ident\<close> and the default limit.\<close>

definition selectByCorrelationId :: "string \<Rightarrow> 'pol negotiationDb \<Rightarrow> 'pol joinedRow list" where
  "selectByCorrelationId ident db =
     take 50 (filter (\<lambda>ra. negCorrelationId (fst ra) = Some ident) (joinAgreements db))"

definition selectAgreement :: "string \<Rightarrow> 'pol negotiationDb \<Rightarrow> 'pol contractAgreement list" where
  "selectAgreement ident db = filter (\<lambda>a. agreementId a = ident) (relatedTable db)"

text \<open>\<open>LIKE\<close>, with its wildcards and its escape character.\<close>

function (sequential) like :: "string \<Rightarrow> string \<Rightarrow> bool" where
  "like [] s \<longleftrightarrow> s = []"
| "like (c # p) s \<longleftrightarrow>
     (if c = CHR ''%'' then like p s \<or> (case s of [] \<Rightarrow> False | _ # s' \<Rightarrow> like (c # p) s')
      else case s of
        [] \<Rightarrow> False
      | x # s' \<Rightarrow>
          if c = CHR ''_'' then like p s'
          else if c = CHR 0x5C then (case p of [] \<Rightarrow> False | d # p' \<Rightarrow> x = d \<and> like p' s')
          else x = c \<and> like p s')"
  by pat_completeness auto
termination by (relation "measure (\<lambda>(p, s). length p + length s)") auto

definition selectAgreementsLike :: "string \<Rightarrow> 'pol negotiationDb \<Rightarrow> 'pol contractAgreement list" where
  "selectAgreementsLike pattern db = filter (\<lambda>a. like pattern (agreementId a)) (relatedTable db)"

text \<open>The rows come in an order of the database's own, \<open>rank\<close>: the statement gives none. It joins no agreements.\<close>

definition selectNextNegotiations ::
  "('pol negotiationDb \<Rightarrow> string \<Rightarrow> int) \<Rightarrow> int \<Rightarrow> int \<Rightarrow> nat \<Rightarrow> 'pol negotiationDb \<Rightarrow> 'pol negotiationRow list" where
  "selectNextNegotiations rank st now limit db =
     batch (\<lambda>r. rank db (rowId r)) limit (filter (\<lambda>r. negState r = st \<and> leaseFree now db r) (entityTable db))"

text \<open>The foreign key to the table of agreements, and the check of the type: providers have a correlation.\<close>

definition agreementKnown :: "string option \<Rightarrow> 'pol negotiationDb \<Rightarrow> bool" where
  "agreementKnown ident db \<longleftrightarrow> (case ident of None \<Rightarrow> True | Some a \<Rightarrow> a \<in> agreementId ` set (relatedTable db))"

definition providerCorrelation :: "cnType \<Rightarrow> string option \<Rightarrow> bool" where
  "providerCorrelation ty correlation \<longleftrightarrow> ty = CN_CONSUMER \<or> correlation \<noteq> None"

definition insertNegotiation ::
  "'pol contract_negotiation \<Rightarrow> 'pol negotiationDb \<Rightarrow> 'pol negotiationDb option" where
  "insertNegotiation n db =
     (if entityId n \<in> rowId ` set (entityTable db) \<or> \<not> providerCorrelation (cnType n) (correlationId n) \<or>
        \<not> agreementKnown (map_option agreementId (contractAgreement n)) db then None
      else Some (db\<lparr>entityTable := entityTable db @ [negotiationRowOf n]\<rparr>))"

definition updateNegotiation ::
  "'pol contract_negotiation \<Rightarrow> 'pol negotiationDb \<Rightarrow> 'pol negotiationDb option" where
  "updateNegotiation n db =
     (if entityId n \<in> rowId ` set (entityTable db) \<and>
        \<not> agreementKnown (map_option agreementId (contractAgreement n)) db then None
      else Some (db\<lparr>entityTable :=
             map (\<lambda>r. if rowId r = entityId n then overwriteNegotiation n r else r) (entityTable db)\<rparr>))"

definition deleteNegotiation :: "string \<Rightarrow> 'pol negotiationDb \<Rightarrow> 'pol negotiationDb" where
  "deleteNegotiation ident db =
     db\<lparr>entityTable := filter (\<lambda>r. \<not> (rowId r = ident \<and> negAgreementId r = None)) (entityTable db)\<rparr>"

text \<open>The column of the end date is an \<open>INTEGER\<close>.\<close>

definition endDateFits :: "'pol contractAgreement \<Rightarrow> bool" where
  "endDateFits a \<longleftrightarrow> - 2147483648 \<le> contractEndDate a \<and> contractEndDate a < 2147483648"

definition insertAgreement ::
  "'pol contractAgreement \<Rightarrow> 'pol negotiationDb \<Rightarrow> 'pol negotiationDb option" where
  "insertAgreement a db =
     (if agreementId a \<in> agreementId ` set (relatedTable db) \<or> \<not> endDateFits a then None
      else Some (db\<lparr>relatedTable := relatedTable db @ [a]\<rparr>))"

text \<open>The only statement that gives a JSON column a text without a cast.\<close>

definition updateAgreement ::
  "bool \<Rightarrow> 'pol contractAgreement \<Rightarrow> 'pol negotiationDb \<Rightarrow> 'pol negotiationDb option" where
  "updateAgreement textAsJson a db =
     (if \<not> textAsJson then None
      else if agreementId a \<in> agreementId ` set (relatedTable db) \<and> \<not> endDateFits a then None
      else Some (db\<lparr>relatedTable := map (\<lambda>b. if agreementId b = agreementId a then a else b) (relatedTable db)\<rparr>))"

section \<open>SqlContractNegotiationStore\<close>

type_synonym 'pol negotiationSession = "'pol negotiationDb session"

definition findInternal :: "int \<Rightarrow> string \<Rightarrow> ('pol negotiationSession, 'pol contract_negotiation option) op" where
  "findInternal now ident =
     andThen (executeQuery (\<lambda>_ db. mapOrThrow (mapContractNegotiation now) (selectNegotiation ident db)))
       (\<lambda>ns. liftE (single ns))"

definition sqlcn_find :: "int \<Rightarrow> string \<Rightarrow> ('pol negotiationSession, 'pol contract_negotiation option) op" where
  "sqlcn_find now ident = execute (findInternal now ident)"

definition sqlcn_findForCorrelationId ::
  "int \<Rightarrow> string \<Rightarrow> ('pol negotiationSession, 'pol contract_negotiation option) op" where
  "sqlcn_findForCorrelationId now ident =
     execute (andThen
       (execute (executeQuery (\<lambda>_ db. mapOrThrow (mapContractNegotiation now) (selectByCorrelationId ident db))))
       (\<lambda>ns. liftE (single ns)))"

definition sqlcn_findContractAgreement ::
  "string \<Rightarrow> ('pol negotiationSession, 'pol contractAgreement option) op" where
  "sqlcn_findContractAgreement ident =
     execute (andThen (executeQuery (\<lambda>_ db. Inr (selectAgreement ident db))) (\<lambda>as. liftE (single as)))"

definition sqlcn_getAgreementsForDefinitionId ::
  "string \<Rightarrow> ('pol negotiationSession, 'pol contractAgreement list) op" where
  "sqlcn_getAgreementsForDefinitionId definitionId =
     execute (executeQuery (\<lambda>_ db. Inr (selectAgreementsLike (definitionId @ '':%'') db)))"

definition upsertAgreement :: "bool \<Rightarrow> 'pol contractAgreement \<Rightarrow> ('pol negotiationSession, unit) op" where
  "upsertAgreement textAsJson a =
     execute (andThen (sqlcn_findContractAgreement (agreementId a)) (\<lambda>existing.
       case existing of
         None \<Rightarrow> executeUpdate (insertAgreement a)
       | Some _ \<Rightarrow> executeUpdate (updateAgreement textAsJson a)))"

definition upsertAgreementOf :: "bool \<Rightarrow> 'pol contract_negotiation \<Rightarrow> ('pol negotiationSession, unit) op" where
  "upsertAgreementOf textAsJson n =
     (case contractAgreement n of None \<Rightarrow> ret () | Some a \<Rightarrow> upsertAgreement textAsJson a)"

definition sqlcn_insert :: "bool \<Rightarrow> 'pol contract_negotiation \<Rightarrow> ('pol negotiationSession, unit) op" where
  "sqlcn_insert textAsJson n =
     andThen (upsertAgreementOf textAsJson n) (\<lambda>_. executeUpdate (insertNegotiation n))"

definition sqlcn_update :: "bool \<Rightarrow> 'pol contract_negotiation \<Rightarrow> ('pol negotiationSession, unit) op" where
  "sqlcn_update textAsJson n =
     andThen (upsertAgreementOf textAsJson n) (\<lambda>_. executeUpdate (updateNegotiation n))"

definition sqlcn_save ::
  "bool \<Rightarrow> int \<Rightarrow> string \<Rightarrow> 'pol contract_negotiation \<Rightarrow> ('pol negotiationSession, unit) op" where
  "sqlcn_save textAsJson now leaseHolder n =
     execute (andThen (findInternal now (entityId n)) (\<lambda>existing.
       case existing of
         None \<Rightarrow> sqlcn_insert textAsJson n
       | Some _ \<Rightarrow> andThen (sql_breakLease leaseHolder (entityId n)) (\<lambda>_. sqlcn_update textAsJson n)))"

definition sqlcn_delete :: "int \<Rightarrow> string \<Rightarrow> string \<Rightarrow> ('pol negotiationSession, unit) op" where
  "sqlcn_delete now leaseHolder ident =
     execute (andThen (sqlcn_find now ident) (\<lambda>existing.
       case existing of
         None \<Rightarrow> ret ()
       | Some n \<Rightarrow>
           if contractAgreement (n :: 'pol contract_negotiation) \<noteq> None
           then throw (IllegalStateException (''Cannot delete ContractNegotiation [ID='' @ ident @
                  ''] - ContractAgreement already created.''))
           else
             andThen (sql_acquireLease leaseHolder None now ident) (\<lambda>_.
             andThen (executeUpdate (\<lambda>db. Some (deleteNegotiation ident db))) (\<lambda>_.
             sql_breakLease leaseHolder ident))))"

text \<open>The batch of \<open>nextForState\<close>: the column of the identifier of an agreement is not in the result.\<close>

definition nextNegotiations ::
  "('pol negotiationDb \<Rightarrow> string \<Rightarrow> int) \<Rightarrow> int \<Rightarrow> int \<Rightarrow> int \<Rightarrow> string \<Rightarrow> 'pol negotiationDb \<Rightarrow>
   java_exn + 'pol contract_negotiation list" where
  "nextNegotiations rank st limit now message db =
     (if limit < 0 then Inl (EdcException message)
      else mapOrThrow
        (\<lambda>r. if negAgreementId r \<noteq> None then Inl (EdcException message) else mapContractNegotiation now (r, None))
        (selectNextNegotiations rank st now (nat limit) db))"

definition sqlcn_nextForState ::
  "('pol negotiationDb \<Rightarrow> string \<Rightarrow> int) \<Rightarrow> int \<Rightarrow> int \<Rightarrow> int \<Rightarrow> string \<Rightarrow>
   ('pol negotiationSession, 'pol contract_negotiation list) op" where
  "sqlcn_nextForState rank st limit now leaseHolder =
     handOut (nextNegotiations rank st limit now) entityId leaseHolder now"

section \<open>Well-formed tables\<close>

text \<open>Keys, the foreign key to the agreements, and the check of the type.\<close>

definition negotiationDb_ok :: "'pol negotiationDb \<Rightarrow> bool" where
  "negotiationDb_ok db \<longleftrightarrow> db_ok db \<and> distinct (map agreementId (relatedTable db)) \<and>
     (\<forall>r \<in> set (entityTable db). agreementKnown (negAgreementId r) db \<and> providerCorrelation (negType r) (negCorrelationId r))"

lemma negotiationDb_ok_unleased:
  assumes "negotiationDb_ok db" "unleased db' = unleased db" "db_ok db'"
  shows "negotiationDb_ok db'"
proof -
  have rel: "relatedTable db' = relatedTable db"
    and rows: "map (\<lambda>r. r\<lparr>rowLease := None\<rparr>) (entityTable db') = map (\<lambda>r. r\<lparr>rowLease := None\<rparr>) (entityTable db)"
    using assms(2) by (simp_all add: unleased_def)
  have "\<exists>r' \<in> set (entityTable db). negAgreementId r = negAgreementId r' \<and> negType r = negType r' \<and>
      negCorrelationId r = negCorrelationId r'" if r: "r \<in> set (entityTable db')" for r
  proof -
    obtain r' where r': "r' \<in> set (entityTable db)" and e: "r\<lparr>rowLease := None\<rparr> = r'\<lparr>rowLease := None\<rparr>"
      using arg_cong [where f = set, OF rows] r unfolding list.set_map by blast
    from e have "negAgreementId r = negAgreementId r'" "negType r = negType r'" "negCorrelationId r = negCorrelationId r'"
      by (cases r; cases r'; simp)+
    with r' show ?thesis by blast
  qed
  then have "agreementKnown (negAgreementId r) db' \<and> providerCorrelation (negType r) (negCorrelationId r)"
    if "r \<in> set (entityTable db')" for r
    using that assms(1) rel unfolding negotiationDb_ok_def agreementKnown_def by metis
  with assms(1,3) rel show ?thesis by (simp add: negotiationDb_ok_def)
qed

section \<open>The leasing contract\<close>

lemma mapContractNegotiation_id: "mapContractNegotiation now ra = Inr n \<Longrightarrow> entityId n = rowId (fst ra)"
  by (auto simp: mapContractNegotiation_def build_negotiation_def entity_build_def Let_def orThrow_Inr split: if_splits)

lemma nextNegotiations_ids:
  "nextNegotiations rank st limit now m db = Inr ns \<Longrightarrow>
     map entityId ns = map rowId (selectNextNegotiations rank st now (nat limit) db)"
  unfolding nextNegotiations_def
  by (rule mapOrThrow_map [where f = "\<lambda>r. if negAgreementId r \<noteq> None then Inl (EdcException m) else mapContractNegotiation now (r, None)"])
    (auto split: if_splits dest: mapContractNegotiation_id)

lemma selectedNegotiations:
  "r \<in> set (selectNextNegotiations rank st now n db) \<Longrightarrow>
     r \<in> set (entityTable db) \<and> negState r = st \<and> leaseFree now db r"
  unfolding selectNextNegotiations_def by (auto dest: batch_filter)

text \<open>Whatever the order of the rows, this store, too, implements the contract of the state machines.\<close>

interpretation negotiations: leased_query "nextNegotiations rank" entityId negotiationDb_ok for rank
proof unfold_locales
  fix rank and db db' :: "'pol negotiationDb" and st n now m ns e
  show "negotiationDb_ok db \<Longrightarrow> db_ok db" by (simp add: negotiationDb_ok_def)
  show "negotiationDb_ok db \<Longrightarrow> unleased db' = unleased db \<Longrightarrow> db_ok db' \<Longrightarrow> negotiationDb_ok db'"
    by (rule negotiationDb_ok_unleased)
  assume ok: "negotiationDb_ok db" and ns: "nextNegotiations rank st n now m db = Inr ns"
  then have db: "db_ok db" by (simp add: negotiationDb_ok_def)
  then have "distinct (map rowId (entityTable db))" by (simp add: db_ok_def)
  then show "distinct (map entityId ns)"
    unfolding nextNegotiations_ids [OF ns] selectNextNegotiations_def by (rule batch_distinct_map)
  assume "e \<in> set ns"
  then have "entityId e \<in> set (map entityId ns)" by simp
  then obtain r where r: "r \<in> set (selectNextNegotiations rank st now (nat n) db)" "entityId e = rowId r"
    unfolding nextNegotiations_ids [OF ns] by auto
  from selectedNegotiations [OF r(1)] show "entityId e \<in> rowId ` set (entityTable db) \<and> \<not> isLeased now db (entityId e)"
    using r(2) leaseFree_leaseOf [OF db, of r now] by (auto simp: isLeased_def)
qed

definition sqlcn_fetch ::
  "('pol negotiationDb \<Rightarrow> string \<Rightarrow> int) \<Rightarrow> int \<Rightarrow> int \<Rightarrow> sqlCall \<Rightarrow>
   ('pol negotiationSession, 'pol contract_negotiation list) op" where
  "sqlcn_fetch rank st limit q s =
     (case q of (h, now, left) \<Rightarrow> sqlcn_nextForState rank st limit now h (s\<lparr>statementsLeft := left\<rparr>))"

lemma sqlcn_fetch_query: "sqlcn_fetch rank = sqlFetch (nextNegotiations rank) entityId"
  by (intro ext) (simp add: sqlcn_fetch_def sqlFetch_def sqlcn_nextForState_def)

end
