(* ===== verification/Sql_Negotiation_Properties.thy ===== *)
theory Sql_Negotiation_Properties
  imports Sql_Negotiation_Store
begin

text \<open>
  What the operations of the SQL store of negotiations do, with a database that works, and what is left
  of them when it does not.
\<close>

section \<open>Lookups\<close>

definition agreementOf :: "'pol negotiationDb \<Rightarrow> 'pol negotiationRow \<Rightarrow> 'pol contractAgreement option" where
  "agreementOf db r =
     (case negAgreementId r of None \<Rightarrow> None | Some i \<Rightarrow> List.find (\<lambda>a. agreementId a = i) (relatedTable db))"

text \<open>The negotiation that a row and its agreement stand for.\<close>

definition negotiationOf ::
  "int \<Rightarrow> 'pol negotiationRow \<Rightarrow> 'pol contractAgreement option \<Rightarrow> 'pol contract_negotiation" where
  "negotiationOf now r agreement = copy_negotiation now
     \<lparr>entityId = rowId r, createdTimestamp = 0, state = negState r, stateCount = negStateCount r,
      stateTimestamp = negStateTimestamp r, traceContext = negTraceContext r,
      errorDetail = negErrorDetail r, correlationId = negCorrelationId r,
      counterPartyId = negCounterPartyId r, counterPartyAddress = negCounterPartyAddress r,
      cnProtocol = negProtocol r, cnType = CN_CONSUMER, contractAgreement = agreement,
      contractOffers = negOffers r\<rparr>"

definition negotiationIn :: "int \<Rightarrow> 'pol negotiationDb \<Rightarrow> string \<Rightarrow> 'pol contract_negotiation option" where
  "negotiationIn now db k =
     (case filter (\<lambda>r. rowId r = k) (entityTable db) of
        [] \<Rightarrow> None
      | r # _ \<Rightarrow> Some (negotiationOf now r (agreementOf db r)))"

lemma find_key: "distinct (map f xs) \<Longrightarrow> filter (\<lambda>x. f x = k) xs = (case List.find (\<lambda>x. f x = k) xs of None \<Rightarrow> [] | Some x \<Rightarrow> [x])"
proof (induction xs)
  case (Cons x xs)
  show ?case
  proof (cases "f x = k")
    case True
    with Cons.prems have "filter (\<lambda>x. f x = k) xs = []" by (auto simp: filter_empty_conv image_iff)
    with True show ?thesis by simp
  qed (use Cons in simp)
qed simp

lemma joinAgreements_map:
  assumes "distinct (map agreementId (relatedTable db))"
  shows "joinAgreements db = map (\<lambda>r. (r, agreementOf db r)) (entityTable db)"
proof -
  have "(case filter (\<lambda>a. negAgreementId r = Some (agreementId a)) (relatedTable db) of
      [] \<Rightarrow> [(r, None)] | js \<Rightarrow> map (\<lambda>d. (r, Some d)) js) = [(r, agreementOf db r)]" for r :: "'a negotiationRow"
  proof (cases "negAgreementId r")
    case (Some i)
    then have same: "filter (\<lambda>a. negAgreementId r = Some (agreementId a)) (relatedTable db) =
        filter (\<lambda>a. agreementId a = i) (relatedTable db)" by (intro filter_cong) auto
    show ?thesis unfolding same find_key [OF assms] using Some by (simp add: agreementOf_def split: option.split)
  qed (simp add: agreementOf_def)
  then show ?thesis by (simp add: joinAgreements_def leftJoin_def concat_map_singleton)
qed

lemma agreementOf_known: "agreementKnown (negAgreementId r) db \<Longrightarrow> negAgreementId r = Some i \<Longrightarrow> \<exists>a. agreementOf db r = Some a"
  by (cases "agreementOf db r") (auto simp: agreementKnown_def agreementOf_def find_None_iff)

lemma mapContractNegotiation_row:
  assumes "negotiationDb_ok db" "r \<in> set (entityTable db)"
  shows "mapContractNegotiation now (r, agreementOf db r) = Inr (negotiationOf now r (agreementOf db r))"
proof -
  have known: "agreementKnown (negAgreementId r) db" using assms by (simp add: negotiationDb_ok_def)
  have "extractContractAgreement (r, agreementOf db r) = Inr (agreementOf db r)"
    using agreementOf_known [OF known]
    by (cases "negAgreementId r") (auto simp: extractContractAgreement_def agreementOf_def)
  then show ?thesis
    by (auto simp: mapContractNegotiation_def Let_def build_negotiation_def entity_build_def negotiationOf_def
        copy_negotiation_def copy_entity_def)
qed

lemma found_rows:
  assumes "negotiationDb_ok db"
  shows "mapOrThrow (mapContractNegotiation now) (filter (\<lambda>ra. P (fst ra)) (joinAgreements db)) =
    Inr (map (\<lambda>r. negotiationOf now r (agreementOf db r)) (filter P (entityTable db)))"
proof -
  have join: "joinAgreements db = map (\<lambda>r. (r, agreementOf db r)) (entityTable db)"
    by (rule joinAgreements_map) (use assms in \<open>simp add: negotiationDb_ok_def\<close>)
  have "mapOrThrow (mapContractNegotiation now) (map (\<lambda>r. (r, agreementOf db r)) rs) =
      Inr (map (\<lambda>r. negotiationOf now r (agreementOf db r)) rs)" if "set rs \<subseteq> set (entityTable db)" for rs
    using that by (induction rs) (simp_all add: mapContractNegotiation_row [OF assms])
  from this [of "filter P (entityTable db)"] show ?thesis by (simp add: join filter_map comp_def)
qed

lemma rows_by_id:
  assumes "negotiationDb_ok db"
  shows "filter (\<lambda>r. rowId r = k) (entityTable db) =
    (case List.find (\<lambda>r. rowId r = k) (entityTable db) of None \<Rightarrow> [] | Some r \<Rightarrow> [r])"
  using assms by (intro find_key) (simp add: negotiationDb_ok_def db_ok_def)

text \<open>\<open>find\<close>, in a transaction.\<close>

lemma findInternal_run:
  assumes "negotiationDb_ok (current s)" "statementsLeft s = None"
  shows "findInternal now k s = (Inr (negotiationIn now (current s) k), s)"
proof -
  have "single (map (\<lambda>r. negotiationOf now r (agreementOf (current s) r)) (filter (\<lambda>r. rowId r = k) (entityTable (current s)))) =
      Inr (negotiationIn now (current s) k)"
    unfolding negotiationIn_def rows_by_id [OF assms(1)] by (simp add: single_def split: option.split)
  then show ?thesis
    using assms(2) found_rows [OF assms(1), of now "\<lambda>r. rowId r = k"]
    by (simp add: findInternal_def andThen_def executeQuery_def selectNegotiation_def)
qed

lemma sqlcn_find_run:
  assumes "negotiationDb_ok (current s)" "statementsLeft s = None" "rollbackOnly s \<noteq> None"
  shows "sqlcn_find now k s = (Inr (negotiationIn now (current s) k), s)"
  using findInternal_run [OF assms(1,2)] assms(3) by (auto simp: sqlcn_find_def execute_def runBlock_def)

lemma negotiationIn_None: "negotiationIn now db k = None \<longleftrightarrow> k \<notin> rowId ` set (entityTable db)"
proof -
  have "negotiationIn now db k = None \<longleftrightarrow> filter (\<lambda>r. rowId r = k) (entityTable db) = []"
    by (simp add: negotiationIn_def split: list.split)
  also have "\<dots> \<longleftrightarrow> k \<notin> rowId ` set (entityTable db)" by (auto simp: filter_empty_conv)
  finally show ?thesis .
qed

lemma sqlcn_find_working:
  assumes t: "rollbackOnly s = None" and "statementsLeft s = None" and ok: "negotiationDb_ok (committed s)"
  shows "fst (sqlcn_find now k s) = Inr (negotiationIn now (committed s) k)"
proof -
  have "sqlcn_find now k (startTransaction s) = (Inr (negotiationIn now (committed s) k), startTransaction s)"
    using sqlcn_find_run [of "startTransaction s" now k] assms by (simp add: startTransaction_def)
  then show ?thesis unfolding sqlcn_find_def by (simp only: execute_start [OF t]) simp
qed

section \<open>Writing a negotiation\<close>

text \<open>What an upsert makes of the table of agreements, if anything.\<close>

definition agreementUpserted :: "bool \<Rightarrow> 'pol contractAgreement \<Rightarrow> 'pol negotiationDb \<Rightarrow> 'pol negotiationDb option" where
  "agreementUpserted textAsJson a db =
     (if \<not> endDateFits a then None
      else if agreementId a \<notin> agreementId ` set (relatedTable db) then Some (db\<lparr>relatedTable := relatedTable db @ [a]\<rparr>)
      else if textAsJson
      then Some (db\<lparr>relatedTable := map (\<lambda>b. if agreementId b = agreementId a then a else b) (relatedTable db)\<rparr>)
      else None)"

definition rowWritten :: "'pol contract_negotiation \<Rightarrow> 'pol negotiationDb \<Rightarrow> 'pol negotiationDb" where
  "rowWritten n db =
     (if entityId n \<in> rowId ` set (entityTable db)
      then db\<lparr>entityTable := map (\<lambda>r. if rowId r = entityId n then overwriteNegotiation n r else r) (entityTable db)\<rparr>
      else db\<lparr>entityTable := entityTable db @ [negotiationRowOf n]\<rparr>)"

definition negotiationWritten ::
  "bool \<Rightarrow> 'pol contract_negotiation \<Rightarrow> 'pol negotiationDb \<Rightarrow> 'pol negotiationDb option" where
  "negotiationWritten textAsJson n db =
     map_option (rowWritten n)
       (case contractAgreement n of None \<Rightarrow> Some db | Some a \<Rightarrow> agreementUpserted textAsJson a db)"

lemma overwriteNegotiation_simps [simp]:
  "rowId (overwriteNegotiation n r) = rowId r" "rowLease (overwriteNegotiation n r) = rowLease r"
  "negType (overwriteNegotiation n r) = negType r" "negCorrelationId (overwriteNegotiation n r) = negCorrelationId r"
  "negAgreementId (overwriteNegotiation n r) = map_option agreementId (contractAgreement n)"
  "(overwriteNegotiation n r)\<lparr>rowLease := l\<rparr> = overwriteNegotiation n (r\<lparr>rowLease := l\<rparr>)"
  by (simp_all add: overwriteNegotiation_def)

lemma negotiationRowOf_simps [simp]:
  "rowId (negotiationRowOf n) = entityId n" "rowLease (negotiationRowOf n) = None"
  "negType (negotiationRowOf n) = cnType n" "negCorrelationId (negotiationRowOf n) = correlationId n"
  "negAgreementId (negotiationRowOf n) = map_option agreementId (contractAgreement n)"
  by (simp_all add: negotiationRowOf_def)

lemma agreementUpserted_simps:
  assumes "agreementUpserted tj a db = Some db'"
  shows "entityTable db' = entityTable db" "leaseTable db' = leaseTable db"
    "agreementId ` set (relatedTable db') = insert (agreementId a) (agreementId ` set (relatedTable db))"
    "distinct (map agreementId (relatedTable db)) \<Longrightarrow> distinct (map agreementId (relatedTable db'))"
proof -
  have ids: "map agreementId (map (\<lambda>b. if agreementId b = agreementId a then a else b) as) = map agreementId as" for as :: "'a contractAgreement list"
    by (induction as) simp_all
  from ids have idset: "agreementId ` (\<lambda>b. if agreementId b = agreementId a then a else b) ` set as = agreementId ` set as" for as :: "'a contractAgreement list"
    by (metis list.set_map)
  show "entityTable db' = entityTable db" "leaseTable db' = leaseTable db"
    "agreementId ` set (relatedTable db') = insert (agreementId a) (agreementId ` set (relatedTable db))"
    "distinct (map agreementId (relatedTable db)) \<Longrightarrow> distinct (map agreementId (relatedTable db'))"
    using assms ids [of "relatedTable db"] idset [of "relatedTable db"]
    by (auto simp: agreementUpserted_def insert_absorb simp del: map_map image_eqI split: if_splits)
qed

text \<open>The statements, in a transaction with a database that works.\<close>

lemma findContractAgreement_run:
  assumes "distinct (map agreementId (relatedTable (current s)))" "statementsLeft s = None" "rollbackOnly s \<noteq> None"
  shows "sqlcn_findContractAgreement k s =
    (Inr (List.find (\<lambda>a. agreementId a = k) (relatedTable (current s))), s)"
  using assms find_key [OF assms(1), of k]
  by (auto simp: sqlcn_findContractAgreement_def execute_def runBlock_def andThen_def executeQuery_def selectAgreement_def
      single_def split: option.splits)

lemma upsertAgreement_run:
  assumes "distinct (map agreementId (relatedTable (current s)))" "statementsLeft s = None" "rollbackOnly s \<noteq> None"
  shows "upsertAgreement tj a s =
    (case agreementUpserted tj a (current s) of
       None \<Rightarrow> failedWith (databaseError s) s
     | Some db \<Rightarrow> (Inr (), s\<lparr>current := db\<rparr>))"
proof (cases "List.find (\<lambda>b. agreementId b = agreementId a) (relatedTable (current s))")
  case None
  then have "agreementId a \<notin> agreementId ` set (relatedTable (current s))" by (auto simp: find_None_iff)
  then show ?thesis using None findContractAgreement_run [OF assms, of "agreementId a"] assms(2,3)
    by (auto simp: upsertAgreement_def execute_def runBlock_def andThen_def executeUpdate_def insertAgreement_def
        agreementUpserted_def failedWith_def rethrown_def)
next
  case (Some b)
  then have "agreementId a \<in> agreementId ` set (relatedTable (current s))" by (auto simp: find_Some_iff in_set_conv_nth intro!: image_eqI [of _ _ b])
  then show ?thesis using Some findContractAgreement_run [OF assms, of "agreementId a"] assms(2,3)
    by (auto simp: upsertAgreement_def execute_def runBlock_def andThen_def executeUpdate_def updateAgreement_def
        agreementUpserted_def failedWith_def rethrown_def)
qed

text \<open>The row is written after its agreement.\<close>

definition writeAll ::
  "bool \<Rightarrow> 'pol contract_negotiation \<Rightarrow> 'pol negotiationSession \<Rightarrow> (java_exn + unit) \<times> 'pol negotiationSession" where
  "writeAll tj n s =
     (case negotiationWritten tj n (current s) of
        None \<Rightarrow> failedWith (databaseError s) s
      | Some db \<Rightarrow> (Inr (), s\<lparr>current := db\<rparr>))"

lemma upsertAgreementOf_run:
  assumes "distinct (map agreementId (relatedTable (current s)))" "statementsLeft s = None" "rollbackOnly s \<noteq> None"
  shows "upsertAgreementOf tj n s =
    (case (case contractAgreement n of None \<Rightarrow> Some (current s) | Some a \<Rightarrow> agreementUpserted tj a (current s)) of
       None \<Rightarrow> failedWith (databaseError s) s
     | Some db \<Rightarrow> (Inr (), s\<lparr>current := db\<rparr>))"
  using upsertAgreement_run [OF assms] by (simp add: upsertAgreementOf_def split: option.split)

lemma sqlcn_write_run:
  assumes "distinct (map agreementId (relatedTable (current s)))" "statementsLeft s = None" "rollbackOnly s \<noteq> None"
    and typed: "providerCorrelation (cnType n) (correlationId n)"
  shows "entityId n \<notin> rowId ` set (entityTable (current s)) \<Longrightarrow> sqlcn_insert tj n s = writeAll tj n s"
    and "entityId n \<in> rowId ` set (entityTable (current s)) \<Longrightarrow> sqlcn_update tj n s = writeAll tj n s"
proof -
  let ?up = "case contractAgreement n of None \<Rightarrow> Some (current s) | Some a \<Rightarrow> agreementUpserted tj a (current s)"
  have up: "entityTable db = entityTable (current s) \<and> agreementKnown (map_option agreementId (contractAgreement n)) db"
    if "?up = Some db" for db
    using that by (cases "contractAgreement n") (use agreementUpserted_simps(1,3) in \<open>fastforce simp: agreementKnown_def\<close>)+
  note run = upsertAgreementOf_run [OF assms(1-3), of tj n]
  show "sqlcn_insert tj n s = writeAll tj n s" if "entityId n \<notin> rowId ` set (entityTable (current s))"
  proof (cases ?up)
    case None
    then show ?thesis by (simp add: sqlcn_insert_def andThen_def run writeAll_def negotiationWritten_def failedWith_def)
  next
    case (Some db)
    then show ?thesis using that up [OF Some] assms(2) typed
      by (simp add: sqlcn_insert_def andThen_def run writeAll_def negotiationWritten_def executeUpdate_def
          insertNegotiation_def rowWritten_def)
  qed
  show "sqlcn_update tj n s = writeAll tj n s" if "entityId n \<in> rowId ` set (entityTable (current s))"
  proof (cases ?up)
    case None
    then show ?thesis by (simp add: sqlcn_update_def andThen_def run writeAll_def negotiationWritten_def failedWith_def)
  next
    case (Some db)
    then show ?thesis using that up [OF Some] assms(2)
      by (simp add: sqlcn_update_def andThen_def run writeAll_def negotiationWritten_def executeUpdate_def
          updateNegotiation_def rowWritten_def)
  qed
qed

lemma rowWritten_facts:
  assumes ok: "negotiationDb_ok db" and typed: "providerCorrelation (cnType n) (correlationId n)"
    and known: "agreementKnown (map_option agreementId (contractAgreement n)) db"
  shows "negotiationDb_ok (rowWritten n db)" "leases (rowWritten n db) = leases db"
proof -
  have rel: "relatedTable (rowWritten n db) = relatedTable db" by (simp add: rowWritten_def)
  have same: "agreementKnown i (rowWritten n db) = agreementKnown i db" for i by (cases i) (simp_all add: agreementKnown_def rel)
  have rows: "agreementKnown (negAgreementId r) (rowWritten n db) \<and> providerCorrelation (negType r) (negCorrelationId r)"
    if "r \<in> set (entityTable (rowWritten n db))" for r
    unfolding same using that ok typed known by (auto simp: rowWritten_def negotiationDb_ok_def split: if_splits)
  have "db_ok (rowWritten n db) \<and> leases (rowWritten n db) = leases db"
  proof (cases "entityId n \<in> rowId ` set (entityTable db)")
    case True
    have "leaseTable (rowWritten n db) = leaseTable db" "entityTable (rowWritten n db) =
        map (\<lambda>r. if rowId r = entityId n then overwriteNegotiation n r else r) (entityTable db)"
      using True by (simp_all add: rowWritten_def)
    from lease_columns [OF this] ok show ?thesis by (simp add: negotiationDb_ok_def)
  next
    case False
    have "leaseTable (rowWritten n db) = leaseTable db" "entityTable (rowWritten n db) = entityTable db @ [negotiationRowOf n]"
      "rowLease (negotiationRowOf n) = None" using False by (simp_all add: rowWritten_def)
    from lease_columns_snoc [OF this] False ok show ?thesis by (simp add: negotiationDb_ok_def)
  qed
  with rel rows ok show "negotiationDb_ok (rowWritten n db)" "leases (rowWritten n db) = leases db"
    by (simp_all add: negotiationDb_ok_def)
qed

lemma agreementUpserted_facts:
  assumes ok: "negotiationDb_ok db" and up: "agreementUpserted tj a db = Some db'"
  shows "negotiationDb_ok db'" "leases db' = leases db"
proof -
  note u = agreementUpserted_simps [OF up]
  have "entityTable db' = map (\<lambda>r. r) (entityTable db)" using u(1) by simp
  from lease_columns [OF u(2) this] have l: "leases db' = leases db" "db_ok db' = db_ok db" by simp_all
  have "agreementKnown i db'" if "agreementKnown i db" for i
    using that u(3) by (auto simp: agreementKnown_def split: option.splits)
  with ok u l show "negotiationDb_ok db'" "leases db' = leases db" by (simp_all add: negotiationDb_ok_def)
qed

lemma negotiationWritten_facts:
  assumes ok: "negotiationDb_ok db" and typed: "providerCorrelation (cnType n) (correlationId n)"
    and w: "negotiationWritten tj n db = Some db'"
  shows "negotiationDb_ok db'" "leases db' = leases db"
proof -
  from w obtain db1 where db1: "db' = rowWritten n db1"
    "(case contractAgreement n of None \<Rightarrow> Some db | Some a \<Rightarrow> agreementUpserted tj a db) = Some db1"
    by (auto simp: negotiationWritten_def)
  have "negotiationDb_ok db1 \<and> leases db1 = leases db \<and> agreementKnown (map_option agreementId (contractAgreement n)) db1"
    using db1(2) ok agreementUpserted_facts agreementUpserted_simps(3)
    by (cases "contractAgreement n") (fastforce simp: agreementKnown_def)+
  then show "negotiationDb_ok db'" "leases db' = leases db" using rowWritten_facts [OF _ typed, of db1] db1(1) by simp_all
qed

lemma unleased_negotiationWritten:
  assumes "unleased db = unleased db'"
  shows "map_option unleased (negotiationWritten tj n db) = map_option unleased (negotiationWritten tj n db')"
proof -
  have rel: "relatedTable db = relatedTable db'"
    and rows: "map (\<lambda>r. r\<lparr>rowLease := None\<rparr>) (entityTable db) = map (\<lambda>r. r\<lparr>rowLease := None\<rparr>) (entityTable db')"
    using assms by (simp_all add: unleased_def)
  have ids: "rowId ` set (entityTable db) = rowId ` set (entityTable db')"
    using arg_cong [where f = set, OF unleased_rowIds [OF assms]] unfolding list.set_map .
  have over: "map (\<lambda>r. r\<lparr>rowLease := None\<rparr>) (map (\<lambda>r. if rowId r = entityId n then overwriteNegotiation n r else r) rs) =
      map (\<lambda>r. if rowId r = entityId n then overwriteNegotiation n r else r) (map (\<lambda>r. r\<lparr>rowLease := None\<rparr>) rs)" for rs
    by simp
  have row: "unleased (rowWritten n (db\<lparr>relatedTable := as\<rparr>)) = unleased (rowWritten n (db'\<lparr>relatedTable := as\<rparr>))" for as
    using over [of "entityTable db"] over [of "entityTable db'"] rows ids
    by (simp add: unleased_def rowWritten_def del: map_map)
  have "db\<lparr>relatedTable := relatedTable db'\<rparr> = db" using rel by simp
  with row [of "relatedTable db'"] have row': "unleased (rowWritten n db) = unleased (rowWritten n db')" by simp
  show ?thesis
    using row row' rel by (auto simp: negotiationWritten_def agreementUpserted_def split: option.split)
qed

text \<open>\<open>save\<close>, in a transaction.\<close>

lemma sqlcn_save_nested:
  assumes t: "rollbackOnly s \<noteq> None" "statementsLeft s = None" and ok: "negotiationDb_ok (current s)"
    and typed: "providerCorrelation (cnType n) (correlationId n)"
  shows "sqlcn_save tj now h n s =
    (if heldByOther h (entityId n) (current s)
     then failedWith (''Current runtime does not hold the lease for Object (id ['' @ entityId n @ '']), cannot break lease!'') s
     else writeAll tj n (s\<lparr>current := brokenLease (entityId n) (current s)\<rparr>))"
proof -
  let ?k = "entityId n" and ?s = "s\<lparr>current := brokenLease (entityId n) (current s)\<rparr>"
  have db: "db_ok (current s)" and dist: "distinct (map agreementId (relatedTable (current s)))"
    using ok by (simp_all add: negotiationDb_ok_def)
  note b = brokenLease_facts [OF db, of ?k]
  have ok': "distinct (map agreementId (relatedTable (current ?s)))" using dist b(3) by (simp add: unleased_def)
  have ids: "rowId ` set (entityTable (current ?s)) = rowId ` set (entityTable (current s))"
    using arg_cong [where f = set, OF unleased_rowIds [OF b(3)]] unfolding list.set_map by simp
  have s': "statementsLeft ?s = None" "rollbackOnly ?s \<noteq> None" using t by simp_all
  note find = findInternal_run [OF ok t(2), of now ?k] and written = sqlcn_write_run [OF ok' s' typed, of tj, unfolded ids]
  obtain b where tb: "rollbackOnly s = Some b" using t(1) by blast
  have fails: "rethrown (EdcException m) = EdcException m" for m by (simp add: rethrown_def)
  have exec: "execute (\<lambda>_. writeAll tj n ?s) s = writeAll tj n ?s"
    using t by (auto simp: execute_def runBlock_def writeAll_def failedWith_def fails split: option.split)
  show ?thesis
  proof (cases "?k \<in> rowId ` set (entityTable (current s))")
    case False
    have "leaseOf (current s) ?k = None" by (rule heldByOther_absent [OF False])
    then have "\<not> heldByOther h ?k (current s)" "?s = s" by (simp_all add: heldByOther_leaseOf brokenLease_def)
    moreover have "negotiationIn now (current s) ?k = None" using False negotiationIn_None by blast
    then have "sqlcn_save tj now h n s = execute (\<lambda>_. writeAll tj n s) s"
      using find written(1) [OF False] \<open>?s = s\<close> tb by (simp add: sqlcn_save_def execute_def runBlock_def andThen_def)
    ultimately show ?thesis using exec by simp
  next
    case True
    then have "negotiationIn now (current s) ?k \<noteq> None" unfolding negotiationIn_None by simp
    then obtain m where m: "negotiationIn now (current s) ?k = Some m" by blast
    note break = sql_breakLease_run [OF t, of h ?k]
    show ?thesis
    proof (cases "heldByOther h ?k (current s)")
      case True
      then show ?thesis using find m break t
        by (auto simp: sqlcn_save_def execute_def runBlock_def andThen_def heldByOther_leaseOf failedWith_def fails)
    next
      case False
      then have "sql_breakLease h ?k s = (Inr (), ?s)"
        using break by (auto simp: heldByOther_leaseOf brokenLease_def split: option.split)
      then have "sqlcn_save tj now h n s = execute (\<lambda>_. writeAll tj n ?s) s"
        using find m written(2) [OF True] tb by (simp add: sqlcn_save_def execute_def runBlock_def andThen_def)
      then show ?thesis using False exec by simp
    qed
  qed
qed

lemma keeps_findInternal: "keeps (within s0) (findInternal now k)"
  unfolding findInternal_def by (auto intro!: within_intros)

lemma noError_findInternal: "noError (findInternal now k)"
  unfolding findInternal_def by (auto intro!: noError_intros dest: single_noError)

lemma keeps_upsert: "keeps (within s0) (upsertAgreementOf tj n)"
  unfolding upsertAgreementOf_def upsertAgreement_def sqlcn_findContractAgreement_def
  by (auto intro!: within_intros split: option.split)

lemma noError_upsert: "noError (upsertAgreementOf tj n)"
  unfolding upsertAgreementOf_def upsertAgreement_def sqlcn_findContractAgreement_def
  by (auto intro!: noError_intros dest: single_noError split: option.split)

lemma sqlcn_rolled_back:
  assumes "rollbackOnly s = None"
  shows "isl (fst (sqlcn_save tj now h n s)) \<Longrightarrow> committed (snd (sqlcn_save tj now h n s)) = committed s"
    and "isl (fst (sqlcn_delete now h k s)) \<Longrightarrow> committed (snd (sqlcn_delete now h k s)) = committed s"
    and "isl (fst (sqlcn_nextForState rank st m now h s)) \<Longrightarrow> committed (snd (sqlcn_nextForState rank st m now h s)) = committed s"
  unfolding sqlcn_save_def sqlcn_delete_def sqlcn_nextForState_def handOut_def
  by (rule execute_isl [OF assms];
    auto intro!: within_intros noError_intros keeps_sql_leases noError_sql_leases keeps_findInternal noError_findInternal
      keeps_upsert noError_upsert simp: sqlcn_insert_def sqlcn_update_def sqlcn_find_def split: option.split)+

lemma sqlcn_save_outer:
  assumes "rollbackOnly s = None" "statementsLeft s = None" and ok: "negotiationDb_ok (committed s)"
    and typed: "providerCorrelation (cnType n) (correlationId n)"
  shows "sqlcn_save tj now h n s =
    map_prod id endTransaction
      (if heldByOther h (entityId n) (committed s)
       then failedWith (''Current runtime does not hold the lease for Object (id ['' @ entityId n @ '']), cannot break lease!'')
         (startTransaction s)
       else writeAll tj n ((startTransaction s)\<lparr>current := brokenLease (entityId n) (committed s)\<rparr>))"
proof -
  let ?s = "startTransaction s"
  have s: "rollbackOnly ?s \<noteq> None" "statementsLeft ?s = None" "negotiationDb_ok (current ?s)" "current ?s = committed s"
    using assms by (simp_all add: startTransaction_def)
  have "sqlcn_save tj now h n s = map_prod id endTransaction (sqlcn_save tj now h n ?s)"
    unfolding sqlcn_save_def by (rule execute_start [OF assms(1)])
  then show ?thesis unfolding sqlcn_save_nested [OF s(1-3) typed] s(4) .
qed

lemma save_session:
  assumes "sessionOk negotiationDb_ok s" "statementsLeft s = None" "providerCorrelation (cnType n) (correlationId n)"
  shows "rollbackOnly (snd (sqlcn_save tj now h n s)) = None" "statementsLeft (snd (sqlcn_save tj now h n s)) = None"
  using assms sqlcn_save_outer [of s n tj now h]
  by (auto simp: sessionOk_def writeAll_def failedWith_def endTransaction_def startTransaction_def split: option.splits)

lemma save_fails:
  assumes t: "rollbackOnly s = None" and w: "statementsLeft s = None" and ok: "negotiationDb_ok (committed s)"
    and typed: "providerCorrelation (cnType n) (correlationId n)"
    and refused: "heldByOther h (entityId n) (committed s) \<or> negotiationWritten tj n (committed s) = None"
  shows "isl (fst (sqlcn_save tj now h n s)) \<and> committed (snd (sqlcn_save tj now h n s)) = committed s"
proof -
  have "db_ok (committed s)" using ok by (simp add: negotiationDb_ok_def)
  note b = brokenLease_facts [OF this, of "entityId n"]
  have "heldByOther h (entityId n) (committed s) \<or>
      negotiationWritten tj n (brokenLease (entityId n) (committed s)) = None"
    using refused unleased_negotiationWritten [OF b(3), of tj n] by auto
  then have "isl (fst (sqlcn_save tj now h n s))"
    unfolding sqlcn_save_outer [OF t w ok typed] by (auto simp: failedWith_def writeAll_def)
  with sqlcn_rolled_back(1) [OF t this] show ?thesis by simp
qed

lemma save_returns:
  assumes s: "sessionOk negotiationDb_ok s" and w: "statementsLeft s = None"
    and typed: "providerCorrelation (cnType n) (correlationId n)"
    and free: "\<not> heldByOther h (entityId n) (committed s)" and db: "negotiationWritten tj n (committed s) = Some db"
  shows "fst (sqlcn_save tj now h n s) = Inr ()" "negotiationDb_ok (committed (snd (sqlcn_save tj now h n s)))"
    and "unleased (committed (snd (sqlcn_save tj now h n s))) = unleased db"
    and "leases (committed (snd (sqlcn_save tj now h n s))) = (leases (committed s))(entityId n := None)"
proof -
  have t: "rollbackOnly s = None" "\<not> commitFails s" and ok: "negotiationDb_ok (committed s)"
    using s by (simp_all add: sessionOk_def)
  let ?k = "entityId n" and ?db = "brokenLease (entityId n) (committed s)"
  have "db_ok (committed s)" using ok by (simp add: negotiationDb_ok_def)
  note b = brokenLease_facts [OF this, of ?k]
  have ok': "negotiationDb_ok ?db" by (rule negotiationDb_ok_unleased [OF ok b(3,1)])
  obtain db' where db': "negotiationWritten tj n ?db = Some db'" "unleased db' = unleased db"
    using unleased_negotiationWritten [OF b(3), of tj n] db by fastforce
  then have "sqlcn_save tj now h n s = (Inr (), endTransaction ((startTransaction s)\<lparr>current := db'\<rparr>))"
    using free unfolding sqlcn_save_outer [OF t(1) w ok typed] by (simp add: writeAll_def)
  then have run: "fst (sqlcn_save tj now h n s) = Inr ()" "committed (snd (sqlcn_save tj now h n s)) = db'"
    using t by (simp_all add: endTransaction_def startTransaction_def)
  show "fst (sqlcn_save tj now h n s) = Inr ()" by (rule run)
  show "negotiationDb_ok (committed (snd (sqlcn_save tj now h n s)))"
    "unleased (committed (snd (sqlcn_save tj now h n s))) = unleased db"
    "leases (committed (snd (sqlcn_save tj now h n s))) = (leases (committed s))(?k := None)"
    unfolding run using negotiationWritten_facts [OF ok' typed db'(1)] db'(2) b(2) by simp_all
qed

text \<open>
  (C32) Saving a negotiation, with a database that works: it fails and changes nothing if another runtime
  holds the lease of the negotiation, expired or not, if the end date of its agreement is out of the range of its
  column, or if its agreement is stored already, unless the driver passes texts as JSON. Else the
  negotiation is written, to its row or a new one, after its agreement, and its lease ends; all
  other rows and leases stay, and the tables stay well formed.
\<close>

theorem sqlcn_save_spec:
  assumes "sessionOk negotiationDb_ok s" "statementsLeft s = None"
    and "providerCorrelation (cnType n) (correlationId n)"
  shows "case negotiationWritten tj n (committed s) of
      None \<Rightarrow> isl (fst (sqlcn_save tj now h n s)) \<and> committed (snd (sqlcn_save tj now h n s)) = committed s
    | Some db \<Rightarrow>
        if heldByOther h (entityId n) (committed s)
        then isl (fst (sqlcn_save tj now h n s)) \<and> committed (snd (sqlcn_save tj now h n s)) = committed s
        else fst (sqlcn_save tj now h n s) = Inr () \<and> negotiationDb_ok (committed (snd (sqlcn_save tj now h n s))) \<and>
          unleased (committed (snd (sqlcn_save tj now h n s))) = unleased db \<and>
          leases (committed (snd (sqlcn_save tj now h n s))) = (leases (committed s))(entityId n := None)"
  using assms save_fails [of s n h tj now] save_returns [OF assms, of h tj _ now]
  by (simp add: sessionOk_def split: option.split)

section \<open>What is found\<close>

definition asFound :: "'pol contract_negotiation \<Rightarrow> bool" where
  "asFound n \<longleftrightarrow> cnType n = CN_CONSUMER \<and> createdTimestamp n = 0"

lemma mapped_asFound: "mapContractNegotiation now ra = Inr n \<Longrightarrow> asFound n"
  by (auto simp: mapContractNegotiation_def Let_def orThrow_Inr build_negotiation_def entity_build_def asFound_def split: if_splits)

lemma mapped_all_asFound:
  "mapOrThrow (mapContractNegotiation now) ras = Inr ns \<Longrightarrow> \<forall>n \<in> set ns. asFound n"
  by (auto dest!: mapOrThrow_mem dest: mapped_asFound)

lemma nextNegotiations_asFound: "nextNegotiations rank st m now msg db = Inr ns \<Longrightarrow> \<forall>n \<in> set ns. asFound n"
  by (auto simp: nextNegotiations_def split: if_splits dest!: mapOrThrow_mem dest: mapped_asFound)

lemma single_mem: "single ns = Inr (Some n) \<Longrightarrow> n \<in> set ns"
  by (auto simp: single_def split: list.splits)

lemma yields_asFound:
  fixes rank :: "'pol negotiationDb \<Rightarrow> string \<Rightarrow> int"
  shows "yields (\<lambda>r. \<forall>n. r = Some (n :: 'pol contract_negotiation) \<longrightarrow> asFound n) (sqlcn_find now k)"
    and "yields (\<lambda>r. \<forall>n. r = Some (n :: 'pol contract_negotiation) \<longrightarrow> asFound n) (sqlcn_findForCorrelationId now k)"
    and "yields (\<lambda>ns. \<forall>n \<in> set ns. asFound n) (sqlcn_nextForState rank st m now h)"
proof -
  let ?all = "\<lambda>ns. \<forall>n \<in> set ns. asFound (n :: 'pol contract_negotiation)"
  have one: "yields (\<lambda>r. \<forall>n. r = Some n \<longrightarrow> asFound n) (liftE (single ns))" if "?all ns" for ns :: "'pol contract_negotiation list"
    using that by (intro yields_pure(2)) (auto dest: single_mem)
  show "yields (\<lambda>r. \<forall>n. r = Some (n :: 'pol contract_negotiation) \<longrightarrow> asFound n) (sqlcn_find now k)"
    unfolding sqlcn_find_def findInternal_def
    by (intro yields_execute yields_andThen [where Q = ?all] yields_executeQuery one) (auto dest: mapped_all_asFound)
  show "yields (\<lambda>r. \<forall>n. r = Some (n :: 'pol contract_negotiation) \<longrightarrow> asFound n) (sqlcn_findForCorrelationId now k)"
    unfolding sqlcn_findForCorrelationId_def
    by (intro yields_execute yields_andThen [where Q = ?all] yields_executeQuery one) (auto dest: mapped_all_asFound)
  have rest: "yields ?all (andThen (forEachM ns f) (\<lambda>_. ret ns))" if "?all ns" for ns :: "'pol contract_negotiation list"
    and f :: "'pol contract_negotiation \<Rightarrow> ('pol negotiationSession, unit) op"
    using that by (intro yields_andThen [where Q = "\<lambda>_. True"] yields_any yields_pure(1)) simp_all
  show "yields ?all (sqlcn_nextForState rank st m now h)"
    unfolding sqlcn_nextForState_def handOut_def
    by (intro yields_execute yields_andThen [where Q = ?all] yields_executeQuery rest) (rule nextNegotiations_asFound)
qed

text \<open>
  (C33) Whatever the tables hold, and whoever stored it: every negotiation that the store returns is one of a
  consumer, created at time 0, so the step that only a provider may take throws.
\<close>

theorem sqlcn_only_consumers:
  assumes "fst (sqlcn_find now k s) = Inr (Some n) \<or> fst (sqlcn_findForCorrelationId now k s) = Inr (Some n) \<or>
    (\<exists>ns. fst (sqlcn_nextForState rank st m now h s) = Inr ns \<and> n \<in> set ns)"
  shows "cnType n = CN_CONSUMER \<and> createdTimestamp n = 0 \<and>
    transitionConfirming now' n = Inl (IllegalStateException ''Consumer processes have no CONFIRMING state'')"
proof -
  have "asFound n" using assms yields_asFound [THEN yieldsD] by blast
  then show ?thesis by (simp add: asFound_def transitionConfirming_def)
qed

text \<open>
  An agreement is never changed: once a negotiation was saved with its agreement, to save it again, or another
  one with this agreement, fails and changes nothing, whatever changed and whichever runtime saves it, unless the
  driver passes texts as JSON.
\<close>

theorem sqlcn_agreement_final:
  assumes "sessionOk negotiationDb_ok s" "statementsLeft s = None"
    and "providerCorrelation (cnType n) (correlationId n)" "providerCorrelation (cnType n') (correlationId n')"
    and "contractAgreement n = Some a" "contractAgreement n' = Some a'" "agreementId a' = agreementId a"
    and "fst (sqlcn_save False now h n s) = Inr ()"
  shows "isl (fst (sqlcn_save False now' h' n' (snd (sqlcn_save False now h n s)))) \<and>
    committed (snd (sqlcn_save False now' h' n' (snd (sqlcn_save False now h n s)))) =
      committed (snd (sqlcn_save False now h n s))"
proof -
  let ?s' = "snd (sqlcn_save False now h n s)"
  have t: "rollbackOnly s = None" and ok: "negotiationDb_ok (committed s)" using assms(1) by (simp_all add: sessionOk_def)
  have free: "\<not> heldByOther h (entityId n) (committed s)" and "negotiationWritten False n (committed s) \<noteq> None"
    using save_fails [OF t assms(2) ok assms(3), of h False now] assms(8) by auto
  then obtain db where db: "negotiationWritten False n (committed s) = Some db" by blast
  note run = save_returns [OF assms(1-3) free db, of now]
  have "agreementId a \<in> agreementId ` set (relatedTable db)"
    using db assms(5) agreementUpserted_simps(3) by (fastforce simp: negotiationWritten_def rowWritten_def)
  then have "agreementId a \<in> agreementId ` set (relatedTable (committed ?s'))"
    using run(3) by (simp add: unleased_def)
  then have "negotiationWritten False n' (committed ?s') = None"
    using assms(6,7) by (simp add: negotiationWritten_def agreementUpserted_def)
  then show ?thesis
    using save_fails [OF save_session [OF assms(1-3)] run(2) assms(4)] by blast
qed

text \<open>A negotiation as it is found again; a row keeps the columns that no update sets.\<close>

definition storedAs ::
  "'pol contract_negotiation option \<Rightarrow> 'pol contract_negotiation \<Rightarrow> 'pol contract_negotiation" where
  "storedAs existing n =
     (let m = n\<lparr>createdTimestamp := 0, cnType := CN_CONSUMER\<rparr> in
      case existing of
        None \<Rightarrow> m
      | Some e \<Rightarrow> m\<lparr>correlationId := correlationId e, counterPartyId := counterPartyId e,
            counterPartyAddress := counterPartyAddress e, cnProtocol := cnProtocol e\<rparr>)"

lemma find_append_key:
  "k \<notin> f ` set xs \<Longrightarrow> List.find (\<lambda>x. f x = k) (xs @ [y]) = (if f y = k then Some y else None)"
  "k \<in> f ` set xs \<Longrightarrow> List.find (\<lambda>x. f x = k) (xs @ [y]) = List.find (\<lambda>x. f x = k) xs"
  by (induction xs) auto

text \<open>The agreements after an upsert that only inserts.\<close>

lemma agreementOf_written:
  assumes "negotiationWritten False n db = Some db'"
  shows "negAgreementId r = map_option agreementId (contractAgreement n) \<Longrightarrow> agreementOf db' r = contractAgreement n"
    and "agreementKnown (negAgreementId r) db \<Longrightarrow> agreementOf db' r = agreementOf db r"
proof -
  have rel: "case contractAgreement n of None \<Rightarrow> relatedTable db' = relatedTable db
    | Some a \<Rightarrow> relatedTable db' = relatedTable db @ [a] \<and> agreementId a \<notin> agreementId ` set (relatedTable db)"
    using assms by (auto simp: negotiationWritten_def agreementUpserted_def rowWritten_def split: option.splits if_splits)
  then show "negAgreementId r = map_option agreementId (contractAgreement n) \<Longrightarrow> agreementOf db' r = contractAgreement n"
    by (cases "contractAgreement n") (auto simp: agreementOf_def find_append_key(1))
  show "agreementOf db' r = agreementOf db r" if "agreementKnown (negAgreementId r) db"
    using rel that
    by (cases "contractAgreement n"; cases "negAgreementId r") (auto simp: agreementOf_def agreementKnown_def find_append_key(2))
qed

lemma rows_written:
  assumes "negotiationWritten False n db = Some db'"
  shows "entityTable db' =
    (if entityId n \<in> rowId ` set (entityTable db)
     then map (\<lambda>r. if rowId r = entityId n then overwriteNegotiation n r else r) (entityTable db)
     else entityTable db @ [negotiationRowOf n])"
  using assms by (auto simp: negotiationWritten_def agreementUpserted_def rowWritten_def split: option.splits if_splits)

lemma negotiationOf_overwrite:
  "rowId r = entityId n \<Longrightarrow> negotiationOf now (overwriteNegotiation n r) (contractAgreement n) =
     copy_negotiation now (storedAs (Some (negotiationOf now' r a)) n)"
  by (cases n) (simp add: negotiationOf_def overwriteNegotiation_def storedAs_def)

lemma negotiationOf_rowOf:
  "negotiationOf now (negotiationRowOf n) (contractAgreement n) = copy_negotiation now (storedAs None n)"
  by (cases n) (simp add: negotiationOf_def negotiationRowOf_def storedAs_def)

lemma negotiationIn_unique:
  assumes "negotiationDb_ok db" "r \<in> set (entityTable db)"
  shows "negotiationIn now db (rowId r) = Some (negotiationOf now r (agreementOf db r))"
proof -
  have "filter (\<lambda>r'. rowId r' = rowId r) (entityTable db) = [r]"
    using assms by (intro filter_unique) (simp_all add: negotiationDb_ok_def db_ok_def)
  then show ?thesis by (simp add: negotiationIn_def)
qed

lemma negotiationIn_written:
  assumes ok: "negotiationDb_ok db" and typed: "providerCorrelation (cnType n) (correlationId n)"
    and w: "negotiationWritten False n db = Some db'"
  shows "negotiationIn now db' (entityId n) =
    Some (copy_negotiation now (storedAs (negotiationIn now db (entityId n)) n))"
proof -
  note ok' = negotiationWritten_facts(1) [OF ok typed w]
  show ?thesis
  proof (cases "entityId n \<in> rowId ` set (entityTable db)")
    case True
    then obtain r where r: "r \<in> set (entityTable db)" "rowId r = entityId n" by force
    then have "overwriteNegotiation n r \<in> set (entityTable db')" using True by (force simp: rows_written [OF w])
    from negotiationIn_unique [OF ok' this] negotiationIn_unique [OF ok r(1)] show ?thesis
      using r(2) agreementOf_written(1) [OF w, of "overwriteNegotiation n r"] by (simp add: negotiationOf_overwrite)
  next
    case False
    then have "negotiationRowOf n \<in> set (entityTable db')" by (simp add: rows_written [OF w])
    moreover have "negotiationIn now db (entityId n) = None" unfolding negotiationIn_None by (rule False)
    ultimately show ?thesis
      using negotiationIn_unique [OF ok', of "negotiationRowOf n" now] agreementOf_written(1) [OF w, of "negotiationRowOf n"]
      by (simp add: negotiationOf_rowOf)
  qed
qed

lemma negotiationIn_written_other:
  assumes ok: "negotiationDb_ok db" and w: "negotiationWritten False n db = Some db'" and k: "k \<noteq> entityId n"
  shows "negotiationIn now db' k = negotiationIn now db k"
proof -
  have "filter (\<lambda>r. rowId r = k) (map (\<lambda>r. if rowId r = entityId n then overwriteNegotiation n r else r) rs) =
      filter (\<lambda>r. rowId r = k) rs" for rs
    using k by (induction rs) auto
  then have rows: "filter (\<lambda>r. rowId r = k) (entityTable db') = filter (\<lambda>r. rowId r = k) (entityTable db)"
    using k by (simp add: rows_written [OF w])
  have "agreementOf db' r = agreementOf db r" if "r \<in> set (filter (\<lambda>r. rowId r = k) (entityTable db))" for r
    by (rule agreementOf_written(2) [OF w]) (use ok that in \<open>simp add: negotiationDb_ok_def\<close>)
  then show ?thesis
    unfolding negotiationIn_def rows by (cases "filter (\<lambda>r. rowId r = k) (entityTable db)") simp_all
qed

lemma negotiationIn_unleased:
  assumes "unleased db = unleased db'"
  shows "negotiationIn now db k = negotiationIn now db' k"
proof -
  have "relatedTable db = relatedTable db'" using assms by (simp add: unleased_def)
  then have rel: "agreementOf db = agreementOf db'" unfolding agreementOf_def fun_eq_iff by (simp cong: option.case_cong)
  have find: "negotiationIn now e k = (case map (\<lambda>r. negotiationOf now r (agreementOf e r))
      (filter (\<lambda>r. rowId r = k) (map (\<lambda>r. r\<lparr>rowLease := None\<rparr>) (entityTable e))) of [] \<Rightarrow> None | n # _ \<Rightarrow> Some n)"
    for e :: "'a negotiationDb"
    by (auto simp: negotiationIn_def filter_map comp_def negotiationOf_def agreementOf_def split: list.splits)
  show ?thesis using assms unfolding find rel by (simp add: unleased_def del: map_map)
qed

text \<open>
  What was saved is found: after \<open>save\<close> has returned, \<open>find\<close> gives a copy of the negotiation with its
  agreement, but as a consumer's, created at time 0, and of a negotiation that was there before the
  correlation, the counter-party and the protocol as they were; and every other negotiation as before.
\<close>

theorem sqlcn_find_stored:
  assumes "sessionOk negotiationDb_ok s" "statementsLeft s = None"
    and "providerCorrelation (cnType n) (correlationId n)"
    and "fst (sqlcn_save False now h n s) = Inr ()"
  shows "\<exists>existing. fst (sqlcn_find now' (entityId n) s) = Inr existing \<and>
    fst (sqlcn_find now' k (snd (sqlcn_save False now h n s))) =
      (if k = entityId n then Inr (Some (copy_negotiation now' (storedAs existing n))) else fst (sqlcn_find now' k s))"
proof -
  have t: "rollbackOnly s = None" and ok: "negotiationDb_ok (committed s)" using assms(1) by (simp_all add: sessionOk_def)
  have free: "\<not> heldByOther h (entityId n) (committed s)" and "negotiationWritten False n (committed s) \<noteq> None"
    using save_fails [OF t assms(2) ok assms(3), of h False now] assms(4) by auto
  then obtain db where db: "negotiationWritten False n (committed s) = Some db" by blast
  note run = save_returns [OF assms(1-3) free db, of now]
  note find' = sqlcn_find_working [OF save_session [OF assms(1-3)] run(2)]
  show ?thesis
    unfolding find' sqlcn_find_working [OF t assms(2) ok] negotiationIn_unleased [OF run(3)]
    using negotiationIn_written [OF ok assms(3) db] negotiationIn_written_other [OF ok db, of k now'] by simp
qed

section \<open>The next batch\<close>

definition dueNegotiations ::
  "('pol negotiationDb \<Rightarrow> string \<Rightarrow> int) \<Rightarrow> int \<Rightarrow> int \<Rightarrow> nat \<Rightarrow> 'pol negotiationDb \<Rightarrow> 'pol negotiationRow list" where
  "dueNegotiations rank st now limit db =
     batch (\<lambda>r. rank db (rowId r)) limit
       (filter (\<lambda>r. negState r = st \<and> \<not> isLeased now db (rowId r)) (entityTable db))"

lemma selected_dueNegotiations:
  assumes "db_ok db"
  shows "selectNextNegotiations rank st now n db = dueNegotiations rank st now n db"
proof -
  have "filter (\<lambda>r. negState r = st \<and> leaseFree now db r) (entityTable db) =
      filter (\<lambda>r. negState r = st \<and> \<not> isLeased now db (rowId r)) (entityTable db)"
    by (rule filter_cong [OF refl]) (auto simp: isLeased_def leaseFree_leaseOf [OF assms])
  then show ?thesis by (simp add: selectNextNegotiations_def dueNegotiations_def)
qed

lemma nextNegotiations_run:
  assumes ok: "negotiationDb_ok db" and "0 \<le> limit"
    and plain: "\<forall>r \<in> set (dueNegotiations rank st now (nat limit) db). negAgreementId r = None"
  shows "nextNegotiations rank st limit now m db =
    Inr (map (\<lambda>r. negotiationOf now r (agreementOf db r)) (dueNegotiations rank st now (nat limit) db))"
proof -
  have db: "db_ok db" using ok by (simp add: negotiationDb_ok_def)
  have "(if negAgreementId r \<noteq> None then Inl (EdcException m) else mapContractNegotiation now (r, None)) =
      Inr (negotiationOf now r (agreementOf db r))" if "r \<in> set (dueNegotiations rank st now (nat limit) db)" for r
  proof -
    have r: "r \<in> set (entityTable db)" using that unfolding dueNegotiations_def by (auto dest: batch_filter)
    have none: "negAgreementId r = None" using plain that by blast
    then have "agreementOf db r = None" by (simp add: agreementOf_def)
    with mapContractNegotiation_row [OF ok r, of now] none show ?thesis by simp
  qed
  then show ?thesis
    using assms(2) unfolding nextNegotiations_def selected_dueNegotiations [OF db] by (simp add: mapOrThrow_total)
qed

text \<open>
  \<open>nextForState\<close> with a database that works and a limit that is not negative: it takes negotiations in the
  state that no runtime has leased or whose lease has expired, up to the limit and in any order the database
  likes. If one of them has an agreement, it throws and changes nothing; else they are handed out, each leased
  to the caller for a minute, and all else stays as it is.
\<close>

theorem sqlcn_nextForState_spec:
  assumes "sessionOk negotiationDb_ok s" "statementsLeft s = None" "0 \<le> limit"
  shows "if \<exists>r \<in> set (dueNegotiations rank st now (nat limit) (committed s)). negAgreementId r \<noteq> None
    then isl (fst (sqlcn_nextForState rank st limit now h s)) \<and>
      committed (snd (sqlcn_nextForState rank st limit now h s)) = committed s
    else \<exists>ns s'. sqlcn_nextForState rank st limit now h s = (Inr ns, s') \<and>
      map Some ns = map (\<lambda>r. negotiationIn now (committed s) (rowId r)) (dueNegotiations rank st now (nat limit) (committed s)) \<and>
      unleased (committed s') = unleased (committed s) \<and>
      leases (committed s') = (\<lambda>k. if k \<in> rowId ` set (dueNegotiations rank st now (nat limit) (committed s))
        then Some \<lparr>leasedBy = h, leasedAt = now, leaseDuration = 60000\<rparr> else leases (committed s) k)"
proof (cases "\<exists>r \<in> set (dueNegotiations rank st now (nat limit) (committed s)). negAgreementId r \<noteq> None")
  let ?db = "committed s" and ?due = "dueNegotiations rank st now (nat limit) (committed s)"
  have t: "rollbackOnly s = None" and ok: "negotiationDb_ok ?db" using assms(1) by (simp_all add: sessionOk_def)
  then have db: "db_ok ?db" by (simp add: negotiationDb_ok_def)
  {
    case True
    then obtain r where r: "r \<in> set ?due" "negAgreementId r \<noteq> None" by blast
    let ?f = "\<lambda>r. if negAgreementId r \<noteq> None then Inl (EdcException (databaseError s)) else mapContractNegotiation now (r, None)"
    have "?f r = Inl (EdcException (databaseError s))" using r(2) by simp
    from mapOrThrow_Inl [OF r(1), of ?f, OF this]
    obtain e where "nextNegotiations rank st limit now (databaseError s) ?db = Inl e"
      using assms(3) unfolding nextNegotiations_def selected_dueNegotiations [OF db] by auto
    from negotiations.handOut_throws [OF assms(1) this, of h] have "isl (fst (sqlcn_nextForState rank st limit now h s))"
      by (simp add: sqlcn_nextForState_def)
    with sqlcn_rolled_back(3) [OF t this] True show ?thesis by simp
  next
    case False
    let ?ns = "map (\<lambda>r. negotiationOf now r (agreementOf ?db r)) ?due"
    have sel: "nextNegotiations rank st limit now (databaseError s) ?db = Inr ?ns"
      by (rule nextNegotiations_run [OF ok assms(3)]) (use False in blast)
    obtain s' where run: "handOut (nextNegotiations rank st limit now) entityId h now s = (Inr ?ns, s')"
      using negotiations.handOut_run [OF assms(1,2) sel] by blast
    have "negotiationIn now ?db (rowId r) = Some (negotiationOf now r (agreementOf ?db r))" if "r \<in> set ?due" for r
      by (rule negotiationIn_unique [OF ok]) (use that in \<open>auto simp: dueNegotiations_def dest: batch_filter\<close>)
    then have "map Some ?ns = map (\<lambda>r. negotiationIn now ?db (rowId r)) ?due" by simp
    moreover have "entityId ` set ?ns = rowId ` set ?due" by (auto simp: negotiationOf_def image_image)
    ultimately show ?thesis
      using False run negotiations.handOut_Inr(3,4) [OF assms(1) run] by (auto simp: sqlcn_nextForState_def)
  }
qed

text \<open>
  The SQL store of negotiations keeps the contract of the state machines: whatever the runtimes that call
  \<open>nextForState\<close>, the states, the batch sizes and the order in which the database returns rows, and whichever
  statement of a call the database fails at, as long as commits work, no negotiation is handed out twice by calls made within one minute of each other.
\<close>

theorem sqlcn_batches_disjoint:
  assumes "sessionOk negotiationDb_ok s"
    and "sorted_wrt (\<lambda>r r'. sqlBefore (snd (snd r)) (snd (snd r')) \<and> sqlCovers (snd (snd r)) (snd (snd r'))) rs"
  shows "distinct (map entityId (concat (fetches (sqlcn_fetch rank) rs s)))"
  using assms unfolding sqlcn_fetch_query by (rule negotiations.source.fetches_disjoint)

section \<open>Agreements of a definition\<close>

lemma like_any: "like ''%'' s"
  by (induction s) simp_all

lemma like_literal:
  "\<forall>c \<in> set d. c \<noteq> CHR ''%'' \<and> c \<noteq> CHR ''_'' \<and> c \<noteq> CHR 0x5C \<Longrightarrow> like (d @ p) s \<longleftrightarrow> (\<exists>t. s = d @ t \<and> like p t)"
proof (induction d arbitrary: s)
  case (Cons c d)
  then show ?case by (cases s) auto
qed simp

lemma like_self: "\<forall>c \<in> set d. c \<noteq> CHR 0x5C \<Longrightarrow> like p t \<Longrightarrow> like (d @ p) (d @ t)"
proof (induction d)
  case (Cons c d)
  then have "like (d @ p) (d @ t)" by simp
  moreover from this have "like (CHR ''%'' # d @ p) (d @ t)" by (subst like.simps) simp
  ultimately show ?case using Cons.prems by simp
qed simp

text \<open>
  The agreements of a contract definition, with a database that works: all whose identifier was created for
  the definition, if the definition has no backslash in its identifier, and no others, if it has no
  wildcard of \<open>LIKE\<close> either.
\<close>

theorem sqlcn_agreements_for_definition:
  assumes "rollbackOnly s = None" "statementsLeft s = None"
  shows "\<exists>as. fst (sqlcn_getAgreementsForDefinitionId d s) = Inr as \<and>
    (CHR 0x5C \<notin> set d \<longrightarrow> (\<forall>a \<in> set (relatedTable (committed s)). \<forall>uuid.
      agreementId a = createContractId uuid d \<longrightarrow> a \<in> set as)) \<and>
    (CHR 0x5C \<notin> set d \<and> CHR ''%'' \<notin> set d \<and> CHR ''_'' \<notin> set d \<longrightarrow>
      as = filter (\<lambda>a. \<exists>uuid. agreementId a = createContractId uuid d) (relatedTable (committed s)))"
proof -
  let ?as = "selectAgreementsLike (d @ '':%'') (committed s)"
  have "fst (sqlcn_getAgreementsForDefinitionId d s) = Inr ?as"
    using assms by (simp add: sqlcn_getAgreementsForDefinitionId_def execute_def runBlock_def executeQuery_def startTransaction_def)
  moreover have "like (d @ '':%'') (createContractId uuid d)" if "CHR 0x5C \<notin> set d" for uuid
    unfolding createContractId_def by (rule like_self) (use that like_any in auto)
  moreover have "like (d @ '':%'') k \<longleftrightarrow> (\<exists>uuid. k = createContractId uuid d)"
    if "CHR 0x5C \<notin> set d \<and> CHR ''%'' \<notin> set d \<and> CHR ''_'' \<notin> set d" for k
    using like_literal [of "d @ '':''" "''%''" k] that like_any by (auto simp: createContractId_def)
  ultimately show ?thesis by (auto simp: selectAgreementsLike_def)
qed

section \<open>Delete\<close>

lemma deleteNegotiation_leased:
  assumes ok: "negotiationDb_ok db" and r: "r \<in> set (entityTable db)" "negAgreementId r = None"
  shows "deleteNegotiation (rowId r) (leaseEntity h d now lid (rowId r) db) =
    \<lparr>leaseTable = leaseTable db @ [newLease h d now lid],
     entityTable = filter (\<lambda>r'. rowId r' \<noteq> rowId r) (entityTable db), relatedTable = relatedTable db\<rparr>"
proof -
  have "negAgreementId r' = None" if "r' \<in> set (entityTable db)" "rowId r' = rowId r" for r'
    using db_ok_row [of db r' r] ok r that by (simp add: negotiationDb_ok_def)
  then have "filter (\<lambda>r'. rowId r' = rowId r \<longrightarrow> negAgreementId r' \<noteq> None) (setLease lid (rowId r) rs) =
      filter (\<lambda>r'. rowId r' \<noteq> rowId r) rs" if "set rs \<subseteq> set (entityTable db)" for rs
    using that by (induction rs) (auto simp: setLease_def)
  then show ?thesis by (simp add: deleteNegotiation_def)
qed

lemma sqlcn_delete_free:
  assumes so: "session_ok s" and ok: "negotiationDb_ok (current s)" and w: "statementsLeft s = None"
    and n: "negotiationIn now (current s) k = Some n" "contractAgreement n = None"
  shows "sqlcn_delete now h k s =
    (if isLeased now (current s) k then failedWith ''Entity is currently leased!'' s
     else (Inr (), (acquired h None now k s)\<lparr>current :=
       \<lparr>leaseTable = leaseTable (current s) @ [newLease h None now (randomIds s 0)],
        entityTable = filter (\<lambda>r. rowId r \<noteq> k) (entityTable (current s)),
        relatedTable = relatedTable (current s)\<rparr>\<rparr>))"
proof -
  have t: "rollbackOnly s \<noteq> None" using so by (simp add: session_ok_def)
  then obtain b where b: "rollbackOnly s = Some b" by blast
  have k: "k \<in> rowId ` set (entityTable (current s))" using n(1) negotiationIn_None [of now "current s" k] by force
  then obtain r where r: "r \<in> set (entityTable (current s))" "rowId r = k" by blast
  have "agreementKnown (negAgreementId r) (current s)" using ok r(1) by (simp add: negotiationDb_ok_def)
  moreover have "agreementOf (current s) r = None"
    using negotiationIn_unique [OF ok r(1), of now] n r(2) by (simp add: negotiationOf_def)
  ultimately have "negAgreementId r = None" using agreementOf_known [of r "current s"] by (cases "negAgreementId r") auto
  note db = deleteNegotiation_leased [OF ok r(1) this, unfolded r(2), of h None now "randomIds s 0"]
  let ?db = "deleteNegotiation k (leaseEntity h None now (randomIds s 0) k (current s))"
  let ?s1 = "acquired h None now k s" and ?s2 = "(acquired h None now k s)\<lparr>current := ?db\<rparr>"
  have s2: "rollbackOnly ?s2 \<noteq> None" "statementsLeft ?s2 = None" using t w by simp_all
  have "leaseOf ?db k = None" by (rule heldByOther_absent) (auto simp: db)
  then have break: "sql_breakLease h k ?s2 = (Inr (), ?s2)" using sql_breakLease_run [OF s2, of h k] by simp
  have del: "executeUpdate (\<lambda>db. Some (deleteNegotiation k db)) ?s1 = (Inr (), ?s2)"
    using w by (simp add: executeUpdate_def acquired_def)
  show ?thesis
    using sqlcn_find_run [OF ok w t, of now k] n sql_acquireLease_run [OF so k w, of h None now] break del b
    unfolding db [symmetric] by (simp add: sqlcn_delete_def execute_def runBlock_def andThen_def failedWith_def rethrown_def)
qed

text \<open>
  Deleting a negotiation, with a database that works: it fails and changes nothing if the negotiation has an
  agreement, or while a lease on it lasts, also one of the runtime that deletes it; else the negotiation is
  gone, but the lease that was acquired for it stays in the table of leases, where no row refers to it.
\<close>

theorem sqlcn_delete_spec:
  assumes "sessionOk negotiationDb_ok s" "statementsLeft s = None"
  shows "case negotiationIn now (committed s) k of
      None \<Rightarrow> fst (sqlcn_delete now h k s) = Inr () \<and> committed (snd (sqlcn_delete now h k s)) = committed s
    | Some n \<Rightarrow>
        if contractAgreement n \<noteq> None \<or> isLeased now (committed s) k
        then isl (fst (sqlcn_delete now h k s)) \<and> committed (snd (sqlcn_delete now h k s)) = committed s
        else fst (sqlcn_delete now h k s) = Inr () \<and> committed (snd (sqlcn_delete now h k s)) =
          \<lparr>leaseTable = leaseTable (committed s) @ [newLease h None now (randomIds s 0)],
           entityTable = filter (\<lambda>r. rowId r \<noteq> k) (entityTable (committed s)),
           relatedTable = relatedTable (committed s)\<rparr>"
proof -
  let ?s = "startTransaction s"
  have t: "rollbackOnly s = None" "\<not> commitFails s" and ok: "negotiationDb_ok (committed s)"
    using assms(1) by (simp_all add: sessionOk_def)
  have s: "negotiationDb_ok (current ?s)" "statementsLeft ?s = None" "current ?s = committed s"
    "committed ?s = committed s" "commitFails ?s = commitFails s" "rollbackOnly ?s = Some False" "randomIds ?s = randomIds s"
    using assms(2) ok by (simp_all add: startTransaction_def)
  have outer: "sqlcn_delete now h k s = map_prod id endTransaction (sqlcn_delete now h k ?s)"
    unfolding sqlcn_delete_def by (rule execute_start [OF t(1)])
  have find: "sqlcn_find now k ?s = (Inr (negotiationIn now (committed s) k), ?s)"
    using sqlcn_find_run [OF s(1,2), of now k] s(3,6) by simp
  show ?thesis
  proof (cases "negotiationIn now (committed s) k")
    case None
    then show ?thesis
      unfolding outer using find s t by (simp add: sqlcn_delete_def execute_def runBlock_def andThen_def endTransaction_def)
  next
    case (Some n)
    show ?thesis
    proof (cases "contractAgreement n = None")
      case False
      then have "isl (fst (sqlcn_delete now h k s))"
        unfolding outer using find Some s(6) by (auto simp: sqlcn_delete_def execute_def runBlock_def andThen_def)
      from this sqlcn_rolled_back(2) [OF t(1) this] show ?thesis using Some False by simp
    next
      case True
      from sqlcn_delete_free [OF negotiations.session_ok_start [OF assms(1)] s(1,2), unfolded s(3,7), OF Some True, of h]
      show ?thesis using Some True s t by (simp add: outer failedWith_def endTransaction_def acquired_def)
    qed
  qed
qed

end
