(* ===== verification/Sql_Negotiation_Examples.thy ===== *)
theory Sql_Negotiation_Examples
  imports Sql_Negotiation_Properties
begin

text \<open>
  The properties of the SQL store of negotiations on concrete tables: three negotiations of a provider, of which
  the second is leased by the runtime \<open>A\<close> and the third has an agreement.
\<close>

definition sqlAgreement :: "string \<Rightarrow> string contractAgreement" where
  "sqlAgreement k =
     \<lparr>agreementId = k, providerAgentId = ''provider'', consumerAgentId = ''consumer'', contractSigningDate = 1,
      contractStartDate = 2, contractEndDate = 3, agreementAssetId = ''asset'', agreementPolicy = ''policy''\<rparr>"

definition sqlNegotiation :: "string \<Rightarrow> int \<Rightarrow> string contractAgreement option \<Rightarrow> string contract_negotiation" where
  "sqlNegotiation k st agreement =
     \<lparr>entityId = k, createdTimestamp = 5, state = st, stateCount = 1, stateTimestamp = 10, traceContext = [],
      errorDetail = None, correlationId = Some ''remote'', counterPartyId = ''consumer'',
      counterPartyAddress = ''http://consumer'', cnProtocol = ''ids-multipart'', cnType = CN_PROVIDER,
      contractAgreement = agreement, contractOffers = []\<rparr>"

definition sqlcnExampleDb :: "string negotiationDb" where
  "sqlcnExampleDb =
     \<lparr>leaseTable = [\<lparr>leasedBy = ''A'', leasedAt = 1000, leaseDuration = 60000, leaseId = ''l1''\<rparr>],
      entityTable = [negotiationRowOf (sqlNegotiation ''n1'' 1100 None),
        (negotiationRowOf (sqlNegotiation ''n2'' 1100 None))\<lparr>rowLease := Some ''l1''\<rparr>,
        negotiationRowOf (sqlNegotiation ''n3'' 1200 (Some (sqlAgreement ''a_b:1'')))],
      relatedTable = [sqlAgreement ''a_b:1'', sqlAgreement ''axb:2'']\<rparr>"

definition sqlcnExample :: "string negotiationSession" where
  "sqlcnExample =
     \<lparr>committed = sqlcnExampleDb, current = sqlcnExampleDb, rollbackOnly = None, statementsLeft = None,
      databaseError = ''connection lost'', commitFails = False,
      randomIds = \<lambda>n. replicate (Suc n) (CHR ''u'')\<rparr>"

lemmas sqlcnExample_defs = sqlcnExample_def sqlcnExampleDb_def sqlNegotiation_def sqlAgreement_def negotiationRowOf_def

lemma sqlcnExample_db: "negotiationDb_ok sqlcnExampleDb"
  by (auto simp: negotiationDb_ok_def db_ok_def agreementKnown_def providerCorrelation_def sqlcnExample_defs)

lemma sqlcnExample_ok: "sessionOk negotiationDb_ok sqlcnExample"
proof -
  have "inj (\<lambda>n. replicate (Suc n) (CHR ''u''))" by (rule injI) (metis Suc_inject length_replicate)
  moreover have "replicate (Suc n) (CHR ''u'') \<noteq> CHR ''l'' # xs" "replicate (Suc n) (CHR ''u'') \<noteq> CHR ''n'' # xs" for n xs
    by simp_all
  ultimately have "ids_fresh (randomIds sqlcnExample) sqlcnExampleDb" by (auto simp: ids_fresh_def sqlcnExample_defs)
  then show ?thesis using sqlcnExample_db by (simp add: sessionOk_def sqlcnExample_def)
qed

lemma sqlcnExample_simps [simp]:
  "statementsLeft sqlcnExample = None" "committed sqlcnExample = sqlcnExampleDb" "rollbackOnly sqlcnExample = None"
  "randomIds sqlcnExample 0 = ''u''"
  by (simp_all add: sqlcnExample_def)

lemma sqlNegotiation_simps [simp]:
  "entityId (sqlNegotiation k st a) = k" "cnType (sqlNegotiation k st a) = CN_PROVIDER"
  "contractAgreement (sqlNegotiation k st a) = a" "correlationId (sqlNegotiation k st a) = Some ''remote''"
  "agreementId (sqlAgreement i) = i"
  by (simp_all add: sqlNegotiation_def sqlAgreement_def)

lemma sqlcnExample_leases: "leases sqlcnExampleDb =
    [''n2'' \<mapsto> \<lparr>leasedBy = ''A'', leasedAt = 1000, leaseDuration = 60000\<rparr>]"
  by (auto simp: fun_eq_iff leases_def leaseOf_def findLeaseByEntity_def lease.truncate_def sqlcnExample_defs)

lemma sqlcnExample_leased: "isLeased 2000 sqlcnExampleDb k \<longleftrightarrow> k = ''n2''"
  by (simp add: isLeased_leases [symmetric] sqlcnExample_leases sqlLease_isExpired_def)

lemma sqlcnExample_held: "heldByOther ''B'' k sqlcnExampleDb \<longleftrightarrow> k = ''n2''"
  by (simp add: heldByOther_def sqlcnExample_leases)

lemma sqlcnExample_typed: "providerCorrelation CN_PROVIDER (Some x)"
  by (simp add: providerCorrelation_def)

section \<open>The properties at work\<close>

text \<open>The first negotiation, confirmed with a new agreement; the third one, saved again; and one of the far future.\<close>

abbreviation confirmedNegotiation :: "string contract_negotiation" where
  "confirmedNegotiation \<equiv> sqlNegotiation ''n1'' 1200 (Some (sqlAgreement ''d:3''))"

lemma sqlcnExample_written:
  "negotiationWritten False confirmedNegotiation sqlcnExampleDb \<noteq> None"
  "negotiationWritten False (sqlNegotiation ''n3'' 1200 (Some (sqlAgreement ''a_b:1''))) sqlcnExampleDb = None"
  "negotiationWritten True (sqlNegotiation ''n1'' 1200 (Some ((sqlAgreement ''d:3'')\<lparr>contractEndDate := 2147483648\<rparr>))) sqlcnExampleDb = None"
  by (simp_all add: negotiationWritten_def agreementUpserted_def endDateFits_def sqlcnExample_defs)

lemma sqlcnExample_saved: "fst (sqlcn_save False 2000 ''B'' confirmedNegotiation sqlcnExample) = Inr ()"
  using save_returns(1) [OF sqlcnExample_ok, of confirmedNegotiation "''B''"] sqlcnExample_written(1) sqlcnExample_held
  by (auto simp: sqlcnExample_typed)

theorem sqlcn_save_spec_witness:
  "fst (sqlcn_save False 2000 ''B'' confirmedNegotiation sqlcnExample) = Inr () \<and>
   isl (fst (sqlcn_save False 2000 ''B'' (sqlNegotiation ''n3'' 1200 (Some (sqlAgreement ''a_b:1''))) sqlcnExample)) \<and>
   isl (fst (sqlcn_save True 2000 ''B'' (sqlNegotiation ''n1'' 1200
     (Some ((sqlAgreement ''d:3'')\<lparr>contractEndDate := 2147483648\<rparr>))) sqlcnExample))"
proof -
  note spec = sqlcn_save_spec [OF sqlcnExample_ok sqlcnExample_simps(1), unfolded sqlcnExample_simps(2), where h = "''B''" and now = 2000]
  show ?thesis
    using spec [of confirmedNegotiation False]
      spec [of "sqlNegotiation ''n3'' 1200 (Some (sqlAgreement ''a_b:1''))" False]
      spec [of "sqlNegotiation ''n1'' 1200 (Some ((sqlAgreement ''d:3'')\<lparr>contractEndDate := 2147483648\<rparr>))" True]
      sqlcnExample_written
    by (auto simp: sqlcnExample_typed sqlcnExample_held)
qed

lemma sqlcnExample_find:
  "fst (sqlcn_find 2000 ''n1'' sqlcnExample) =
     Inr (Some ((sqlNegotiation ''n1'' 1100 None)\<lparr>createdTimestamp := 0, cnType := CN_CONSUMER\<rparr>))"
  using sqlcn_find_working [of sqlcnExample 2000 "''n1''"] sqlcnExample_db
  by (simp add: negotiationIn_def negotiationOf_def agreementOf_def copy_negotiation_def copy_entity_def sqlcnExample_defs)

theorem sqlcn_only_consumers_witness:
  "\<exists>n. fst (sqlcn_find 2000 ''n1'' sqlcnExample) = Inr (Some n) \<and>
     transitionConfirming 3000 n = Inl (IllegalStateException ''Consumer processes have no CONFIRMING state'')"
  using sqlcnExample_find sqlcn_only_consumers [where n = "(sqlNegotiation ''n1'' 1100 None)\<lparr>createdTimestamp := 0, cnType := CN_CONSUMER\<rparr>"
      and now = 2000 and k = "''n1''" and s = sqlcnExample and now' = 3000] by blast

theorem sqlcn_agreement_final_witness:
  "fst (sqlcn_save False 2000 ''B'' confirmedNegotiation sqlcnExample) = Inr () \<and>
   isl (fst (sqlcn_save False 3000 ''B'' (confirmedNegotiation\<lparr>stateCount := 2\<rparr>)
     (snd (sqlcn_save False 2000 ''B'' confirmedNegotiation sqlcnExample))))"
proof -
  have "providerCorrelation (cnType (confirmedNegotiation\<lparr>stateCount := 2\<rparr>)) (correlationId (confirmedNegotiation\<lparr>stateCount := 2\<rparr>))"
    "contractAgreement (confirmedNegotiation\<lparr>stateCount := 2\<rparr>) = Some (sqlAgreement ''d:3'')"
    by (simp_all add: sqlNegotiation_def providerCorrelation_def)
  from sqlcn_agreement_final [OF sqlcnExample_ok _ _ this(1) _ this(2) _ sqlcnExample_saved] show ?thesis
    using sqlcnExample_saved by (simp add: sqlcnExample_typed)
qed

theorem sqlcn_find_stored_witness:
  "fst (sqlcn_find 3000 ''n1'' (snd (sqlcn_save False 2000 ''B'' confirmedNegotiation sqlcnExample))) =
     Inr (Some (confirmedNegotiation\<lparr>createdTimestamp := 0, cnType := CN_CONSUMER\<rparr>))"
proof -
  have "fst (sqlcn_find 3000 ''n1'' sqlcnExample) =
      Inr (Some ((sqlNegotiation ''n1'' 1100 None)\<lparr>createdTimestamp := 0, cnType := CN_CONSUMER\<rparr>))"
    using sqlcn_find_working [of sqlcnExample 3000 "''n1''"] sqlcnExample_db
    by (simp add: negotiationIn_def negotiationOf_def agreementOf_def copy_negotiation_def copy_entity_def sqlcnExample_defs)
  then show ?thesis
    using sqlcn_find_stored [OF sqlcnExample_ok _ _ sqlcnExample_saved, of 3000 "''n1''"]
    by (simp add: sqlcnExample_typed) (simp add: storedAs_def sqlNegotiation_def copy_negotiation_def copy_entity_def)
qed

lemma sqlcnExample_due:
  "dueNegotiations rank 1100 2000 5 sqlcnExampleDb = [negotiationRowOf (sqlNegotiation ''n1'' 1100 None)]"
  "dueNegotiations rank 1200 2000 5 sqlcnExampleDb = [negotiationRowOf (sqlNegotiation ''n3'' 1200 (Some (sqlAgreement ''a_b:1'')))]"
  by (simp_all add: dueNegotiations_def sqlcnExample_leased batch_def) (simp_all add: sqlcnExample_defs)

theorem sqlcn_nextForState_spec_witness:
  "(\<exists>ns s'. sqlcn_nextForState (\<lambda>_ _. 0) 1100 5 2000 ''B'' sqlcnExample = (Inr ns, s') \<and> map entityId ns = [''n1''] \<and>
     leases (committed s') ''n1'' = Some \<lparr>leasedBy = ''B'', leasedAt = 2000, leaseDuration = 60000\<rparr>) \<and>
   isl (fst (sqlcn_nextForState (\<lambda>_ _. 0) 1200 5 2000 ''B'' sqlcnExample))"
proof -
  note spec = sqlcn_nextForState_spec [OF sqlcnExample_ok sqlcnExample_simps(1), unfolded sqlcnExample_simps(2),
      of 5 "\<lambda>_ _. 0" _ 2000 "''B''", simplified]
  have "negotiationIn 2000 sqlcnExampleDb ''n1'' =
      Some ((sqlNegotiation ''n1'' 1100 None)\<lparr>createdTimestamp := 0, cnType := CN_CONSUMER\<rparr>)"
    by (simp add: negotiationIn_def negotiationOf_def agreementOf_def copy_negotiation_def copy_entity_def sqlcnExample_defs)
  then show ?thesis using spec [of 1100] spec [of 1200] by (auto simp: sqlcnExample_due)
qed

theorem sqlcn_batches_disjoint_witness:
  "distinct (map entityId (concat (fetches (sqlcn_fetch (\<lambda>_ _. 0))
     [(1100, 1, ''B'', 2000, None), (1100, 5, ''C'', 62000, Some 3)] sqlcnExample)))"
  using sqlcn_batches_disjoint [OF sqlcnExample_ok, of "[(1100, 1, ''B'', 2000, None), (1100, 5, ''C'', 62000, Some 3)]" "\<lambda>_ _. 0"]
  by (simp add: sqlBefore_def sqlCovers_def)

theorem sqlcn_agreements_for_definition_witness:
  "fst (sqlcn_getAgreementsForDefinitionId ''axb'' sqlcnExample) = Inr [sqlAgreement ''axb:2''] \<and>
   fst (sqlcn_getAgreementsForDefinitionId ''a_b'' sqlcnExample) = Inr [sqlAgreement ''a_b:1'', sqlAgreement ''axb:2'']"
proof -
  have "fst (sqlcn_getAgreementsForDefinitionId ''axb'' sqlcnExample) = Inr [sqlAgreement ''axb:2'']"
    using sqlcn_agreements_for_definition [of sqlcnExample "''axb''"]
    by (auto simp: createContractId_def sqlcnExampleDb_def)
  moreover have "fst (sqlcn_getAgreementsForDefinitionId ''a_b'' sqlcnExample) = Inr [sqlAgreement ''a_b:1'', sqlAgreement ''axb:2'']"
    by (simp add: sqlcn_getAgreementsForDefinitionId_def execute_def runBlock_def executeQuery_def startTransaction_def
        selectAgreementsLike_def sqlcnExampleDb_def)
  ultimately show ?thesis by simp
qed

theorem sqlcn_delete_spec_witness:
  "fst (sqlcn_delete 2000 ''B'' ''n1'' sqlcnExample) = Inr () \<and>
   map leaseId (leaseTable (committed (snd (sqlcn_delete 2000 ''B'' ''n1'' sqlcnExample)))) = [''l1'', ''u''] \<and>
   isl (fst (sqlcn_delete 2000 ''B'' ''n3'' sqlcnExample))"
proof -
  note spec = sqlcn_delete_spec [OF sqlcnExample_ok sqlcnExample_simps(1), unfolded sqlcnExample_simps, where now = 2000 and h = "''B''"]
  have "negotiationIn 2000 sqlcnExampleDb ''n1'' =
      Some ((sqlNegotiation ''n1'' 1100 None)\<lparr>createdTimestamp := 0, cnType := CN_CONSUMER\<rparr>)"
    "negotiationIn 2000 sqlcnExampleDb ''n3'' =
      Some ((sqlNegotiation ''n3'' 1200 (Some (sqlAgreement ''a_b:1'')))\<lparr>createdTimestamp := 0, cnType := CN_CONSUMER\<rparr>)"
    by (simp_all add: negotiationIn_def negotiationOf_def agreementOf_def copy_negotiation_def copy_entity_def sqlcnExample_defs)
  then show ?thesis
    using spec [where k = "''n1''"] spec [where k = "''n3''"] by (simp add: sqlcnExample_leased) (simp add: sqlcnExample_defs)
qed

end
