(* ===== verification/Sql_Query.thy ===== *)
theory Sql_Query
  imports Asset_Index
begin

text \<open>
  The translation of queries to SQL, \<open>extensions/sql/common-sql/.../sql/translation\<close>, with the mappings of the
  stores of negotiations and transfer processes for PostgreSQL, and the filters that a client gives to the APIs,
  \<open>spi/core-spi/.../spi/query/QuerySpec.java\<close>. The text of a statement is fixed; the values of a query are
  parameters, but the paths into JSON columns are part of the text.
\<close>

section \<open>Mappings of fields to columns\<close>

text \<open>A mapping of fields, with the name of its class; a mapping into a JSON column; the name of a column.\<close>

datatype translationMapping =
    Fields string "(string \<times> translationMapping) list"
  | JsonField string
  | Column string

text \<open>\<open>split\<close> with limit 2.\<close>

definition splitFirst :: "char \<Rightarrow> string \<Rightarrow> string \<times> string option" where
  "splitFirst d s =
     (takeWhile (\<lambda>c. c \<noteq> d) s, if d \<in> set s then Some (tl (dropWhile (\<lambda>c. c \<noteq> d) s)) else None)"

definition quoted :: "string \<Rightarrow> string" where
  "quoted s = CHR 0x27 # s @ [CHR 0x27]"

definition jsonFieldStatement :: "string \<Rightarrow> string \<Rightarrow> java_exn + string" where
  "jsonFieldStatement columnName name =
     (let tokens = split_string (CHR ''.'') name in
      if tokens = [] then Inl (IndexOutOfBoundsException ''Index -1 out of bounds for length 0'')
      else Inr (columnName @ concat (map (\<lambda>t. '' -> '' @ quoted t) (butlast tokens)) @
        '' ->> '' @ quoted (last tokens)))"

lemma map_of_size [termination_simp]: "map_of fm k = Some m \<Longrightarrow> size m < Suc (size_list (\<lambda>x. Suc (size (snd x))) fm)"
  by (induction fm) (auto split: if_splits)

fun getStatement :: "translationMapping \<Rightarrow> string option \<Rightarrow> java_exn + string" where
  "getStatement (Column columnName) name = Inr columnName"
| "getStatement m None = Inl (NullPointerException [])"
| "getStatement (JsonField columnName) (Some name) = jsonFieldStatement columnName name"
| "getStatement (Fields cls fm) (Some name) =
     (case splitFirst (CHR ''.'') name of (key, rest) \<Rightarrow>
        (case map_of fm key of
           None \<Rightarrow> Inl (IllegalArgumentException
             (''Translation failed for Model '' @ quoted cls @ '' at token '' @ quoted key))
         | Some entry \<Rightarrow> getStatement entry rest))"

section \<open>Statements of a query\<close>

definition isValidExpression :: "criterion \<Rightarrow> string option" where
  "isValidExpression c =
     (if map lower (criterionOperator c) \<notin> {''='', ''like'', ''in''}
      then Some (''unsupported operator '' @ criterionOperator c)
      else if criterionOperator c = ''in'' \<and> \<not> (case operandRight c of ListOperand _ \<Rightarrow> True | _ \<Rightarrow> False)
      then Some (''The '' @ CHR 0x22 # ''in'' @ CHR 0x22 # '' operator requires the right-hand operand to be of type interface java.lang.Iterable'')
      else None)"

definition toValuePlaceholder :: "criterion \<Rightarrow> string" where
  "toValuePlaceholder c =
     (case operandRight c of
        ListOperand os \<Rightarrow> ''('' @ join '','' (replicate (length os) ''?'') @ '')''
      | _ \<Rightarrow> ''?'')"

definition toStatementParameter :: "criterion \<Rightarrow> java_exn + string list" where
  "toStatementParameter c =
     (case operandRight c of
        ListOperand os \<Rightarrow> Inr (operandLeft c # os)
      | StringOperand x \<Rightarrow> Inr [operandLeft c, x]
      | NullOperand \<Rightarrow> Inl (NullPointerException []))"

datatype sqlParameter = TextParameter string | IntParameter int

record sqlQueryStatement =
  selectStatement :: string
  whereClauses :: "string list"
  queryParameters :: "sqlParameter list"

definition parseExpression ::
  "translationMapping \<Rightarrow> sqlQueryStatement \<Rightarrow> criterion \<Rightarrow> java_exn + sqlQueryStatement" where
  "parseExpression rootModel st c =
     orThrow (getStatement rootModel (Some (operandLeft c))) (\<lambda>columnName.
       case isValidExpression c of
         Some m \<Rightarrow> Inl (IllegalArgumentException (''This expression is not valid: '' @ m))
       | None \<Rightarrow>
           (let prefix = (if whereClauses st = [] then ''WHERE'' else ''AND'');
                clause = prefix @ '' '' @ columnName @ '' '' @ criterionOperator c @ '' '' @ toValuePlaceholder c
            in orThrow (toStatementParameter c) (\<lambda>params.
              Inr (st\<lparr>whereClauses := whereClauses st @ [clause],
                queryParameters := queryParameters st @ map TextParameter (drop 1 params)\<rparr>))))"

primrec parseExpressions ::
  "translationMapping \<Rightarrow> criterion list \<Rightarrow> sqlQueryStatement \<Rightarrow> java_exn + sqlQueryStatement" where
  "parseExpressions rootModel [] st = Inr st"
| "parseExpressions rootModel (c # cs) st = orThrow (parseExpression rootModel st c) (parseExpressions rootModel cs)"

definition sqlQuery :: "string \<Rightarrow> querySpec \<Rightarrow> translationMapping \<Rightarrow> java_exn + sqlQueryStatement" where
  "sqlQuery select q rootModel =
     orThrow (parseExpressions rootModel (filterExpression q)
         \<lparr>selectStatement = select, whereClauses = [], queryParameters = []\<rparr>) (\<lambda>st.
       Inr (st\<lparr>queryParameters := queryParameters st @ [IntParameter (limit q), IntParameter (offset q)]\<rparr>))"

definition getQueryAsString :: "sqlQueryStatement \<Rightarrow> string" where
  "getQueryAsString st =
     selectStatement st @ '' '' @ join '' '' (whereClauses st) @ '' '' @ ''LIMIT ? '' @ ''OFFSET ?'' @ '';''"

section \<open>The mappings of the stores\<close>

definition contractAgreementMapping :: translationMapping where
  "contractAgreementMapping = Fields ''org.eclipse.dataspaceconnector.sql.contractnegotiation.store.schema.postgres.ContractAgreementMapping''
     [(''id'', Column ''agr_id''), (''providerAgentId'', Column ''provider_agent_id''),
      (''consumerAgentId'', Column ''consumer_agent_id''), (''contractSigningDate'', Column ''signing_date''),
      (''contractStartDate'', Column ''start_date''), (''contractEndDate'', Column ''end_date''),
      (''assetId'', Column ''asset_id''), (''policy'', JsonField ''policy'')]"

definition contractNegotiationMapping :: translationMapping where
  "contractNegotiationMapping = Fields ''org.eclipse.dataspaceconnector.sql.contractnegotiation.store.schema.postgres.ContractNegotiationMapping''
     [(''id'', Column ''id''), (''correlationId'', Column ''correlation_id''),
      (''counterPartyId'', Column ''counterparty_id''), (''counterPartyAddress'', Column ''counterparty_address''),
      (''protocol'', Column ''protocol''), (''type'', Column ''type''), (''state'', Column ''state''),
      (''stateCount'', Column ''state_count''), (''stateTimestamp'', Column ''state_timestamp''),
      (''errorDetail'', Column ''error_detail''), (''contractAgreement'', contractAgreementMapping),
      (''traceContext'', Column ''trace_context'')]"

definition dataRequestMapping :: translationMapping where
  "dataRequestMapping = Fields ''org.eclipse.dataspaceconnector.sql.transferprocess.store.schema.postgres.DataRequestMapping''
     [(''id'', Column ''datarequest_id''), (''processId'', Column ''process_id''),
      (''connectorAddress'', Column ''connector_address''), (''protocol'', Column ''protocol''),
      (''connectorId'', Column ''connector_id''), (''assetId'', Column ''asset_id''),
      (''contractId'', Column ''contract_id''), (''dataDestination'', JsonField ''data_destination''),
      (''managedResources'', Column ''managed_resources''), (''properties'', JsonField ''properties''),
      (''transferType'', JsonField ''transfer_type''), (''transferProcessId'', Column ''transfer_process_id'')]"

definition transferProcessMapping :: translationMapping where
  "transferProcessMapping = Fields ''org.eclipse.dataspaceconnector.sql.transferprocess.store.schema.postgres.TransferProcessMapping''
     [(''id'', Column ''transferprocess_id''), (''type'', Column ''type''),
      (''createdTimestamp'', Column ''created_time_stamp''), (''traceContext'', JsonField ''trace_context''),
      (''errorDetail'', Column ''error_detail''), (''dataRequest'', dataRequestMapping),
      (''dataAddress'', JsonField ''content_data_address''), (''contentDataAddress'', JsonField ''content_data_address''),
      (''resourceManifest'', Fields ''org.eclipse.dataspaceconnector.sql.transferprocess.store.schema.postgres.ResourceManifestMapping''
         [(''definitions'', JsonField ''definitions'')]),
      (''provisionedResourceSet'', Fields ''org.eclipse.dataspaceconnector.sql.transferprocess.store.schema.postgres.ProvisionedResourceSetMapping''
         [(''resources'', JsonField ''resources'')]),
      (''deprovisionedResources'', JsonField ''dpr'')]"

definition selectNegotiationsTemplate :: string where
  "selectNegotiationsTemplate =
     ''SELECT * FROM edc_contract_negotiation LEFT JOIN edc_contract_agreement agr ON edc_contract_negotiation.agreement_id = agr.agr_id''"

definition selectTransfersTemplate :: string where
  "selectTransfersTemplate =
     ''SELECT *, edr.datarequest_id as edc_data_request_id FROM edc_transfer_process LEFT OUTER JOIN edc_data_request edr on edc_transfer_process.transferprocess_id = edr.process_id''"

definition createNegotiationsQuery :: "querySpec \<Rightarrow> java_exn + sqlQueryStatement" where
  "createNegotiationsQuery q = sqlQuery selectNegotiationsTemplate q contractNegotiationMapping"

text \<open>A JSON array that the filter looks into is joined.\<close>

definition containsAnyLeftOperand :: "string \<Rightarrow> querySpec \<Rightarrow> bool" where
  "containsAnyLeftOperand p q = list_ex (\<lambda>c. take (length p) (operandLeft c) = p) (filterExpression q)"

definition getSelectFromJsonArrayTemplate :: "string \<Rightarrow> string \<Rightarrow> string \<Rightarrow> string" where
  "getSelectFromJsonArrayTemplate select jsonPath aliasName =
     select @ '', json_array_elements('' @ jsonPath @ '') as '' @ aliasName"

definition createTransfersQuery :: "querySpec \<Rightarrow> java_exn + sqlQueryStatement" where
  "createTransfersQuery q =
     sqlQuery
       (if containsAnyLeftOperand ''resourceManifest.definitions'' q
        then getSelectFromJsonArrayTemplate selectTransfersTemplate (''resource_manifest -> '' @ quoted ''definitions'') ''definitions''
        else if containsAnyLeftOperand ''provisionedResourceSet.resources'' q
        then getSelectFromJsonArrayTemplate selectTransfersTemplate (''provisioned_resource_set -> '' @ quoted ''resources'') ''resources''
        else if containsAnyLeftOperand ''deprovisionedResources'' q
        then getSelectFromJsonArrayTemplate selectTransfersTemplate ''deprovisioned_resources'' ''dpr''
        else selectTransfersTemplate) q transferProcessMapping"

section \<open>Filters of a client\<close>








section \<open>Text outside of quotes\<close>

text \<open>What the database reads as SQL, and not as the content of a literal.\<close>

fun outside :: "bool \<Rightarrow> string \<Rightarrow> string" where
  "outside inside [] = []"
| "outside inside (c # cs) =
     (if c = CHR 0x27 then outside (\<not> inside) cs
      else if inside then outside inside cs
      else c # outside inside cs)"

text \<open>A text that closes every literal it opens.\<close>

definition closedText :: "string \<Rightarrow> bool" where
  "closedText s \<longleftrightarrow> (\<forall>t. outside False (s @ t) = outside False s @ outside False t)"

lemma outside_inside: "CHR 0x27 \<notin> set s \<Longrightarrow> outside True (s @ t) = outside True t"
  by (induction s) auto

lemma outside_plain: "CHR 0x27 \<notin> set s \<Longrightarrow> outside False (s @ t) = s @ outside False t"
  by (induction s) auto

lemma outside_plain_text [simp]: "CHR 0x27 \<notin> set s \<Longrightarrow> outside False s = s"
  using outside_plain [of s "[]"] by simp

lemma closed_plain: "CHR 0x27 \<notin> set s \<Longrightarrow> closedText s"
  by (simp add: closedText_def outside_plain)

lemma closed_append: "closedText s \<Longrightarrow> closedText t \<Longrightarrow> closedText (s @ t)"
  by (simp add: closedText_def)

lemma closed_concat: "(\<And>x. x \<in> set xs \<Longrightarrow> closedText x) \<Longrightarrow> closedText (concat xs)"
  by (induction xs) (auto simp: closed_append closed_plain)

lemma outside_append: "closedText s \<Longrightarrow> outside False (s @ t) = outside False s @ outside False t"
  by (simp add: closedText_def)

lemma outside_concat: "(\<And>x. x \<in> set xs \<Longrightarrow> closedText x) \<Longrightarrow> outside False (concat xs) = concat (map (outside False) xs)"
  by (induction xs) (auto simp: outside_append)

lemma outside_quoted: "CHR 0x27 \<notin> set s \<Longrightarrow> outside False (quoted s @ t) = outside False t"
  using outside_inside [of s "CHR 0x27 # t"] by (simp add: quoted_def)

lemma closed_quoted: "CHR 0x27 \<notin> set s \<Longrightarrow> closedText (quoted s) \<and> outside False (quoted s) = []"
  using outside_quoted [of s] outside_quoted [of s "[]"] by (simp add: closedText_def)

section \<open>The text of a statement\<close>

fun columns :: "translationMapping \<Rightarrow> string list" where
  "columns (Column c) = [c]"
| "columns (JsonField c) = [c]"
| "columns (Fields cls fm) = concat (map (\<lambda>e. columns (snd e)) fm)"

text \<open>A column, or a path into it without the names of its steps.\<close>

definition columnText :: "translationMapping \<Rightarrow> string \<Rightarrow> bool" where
  "columnText m x \<longleftrightarrow> (\<exists>c \<in> set (columns m). x = c \<or> (\<exists>n. x = c @ concat (replicate n '' -> '') @ '' ->> ''))"

lemma split_parts_chars: "p \<in> set (split_parts d s) \<Longrightarrow> set p \<subseteq> set s"
proof (induction s arbitrary: p)
  case (Cons c s)
  then show ?case by (cases "split_parts d s") (fastforce split: if_splits)+
qed simp

lemma split_string_chars: "p \<in> set (split_string d s) \<Longrightarrow> set p \<subseteq> set s"
  by (auto simp: split_string_def split: if_splits dest!: set_dropWhileD split_parts_chars)

lemma jsonField_text:
  assumes "jsonFieldStatement c name = Inr s" "CHR 0x27 \<notin> set name" "CHR 0x27 \<notin> set c"
  shows "closedText s" "\<exists>n. outside False s = c @ concat (replicate n '' -> '') @ '' ->> ''"
proof -
  let ?ts = "split_string (CHR ''.'') name"
  have s: "s = c @ concat (map (\<lambda>t. '' -> '' @ quoted t) (butlast ?ts)) @ '' ->> '' @ quoted (last ?ts)" and ne: "?ts \<noteq> []"
    using assms(1) by (auto simp: jsonFieldStatement_def Let_def split: if_splits)
  have plain: "CHR 0x27 \<notin> set t" if "t \<in> set ?ts" for t using split_string_chars [OF that] assms(2) by blast
  have step: "closedText ('' -> '' @ quoted t) \<and> outside False ('' -> '' @ quoted t) = '' -> ''" if "t \<in> set ?ts" for t
    using closed_quoted [OF plain [OF that]] by (simp add: closedText_def)
  have steps: "closedText (concat (map (\<lambda>t. '' -> '' @ quoted t) (butlast ?ts)))"
    using step [OF in_set_butlastD] by (intro closed_concat) auto
  have "outside False (concat (map (\<lambda>t. '' -> '' @ quoted t) (butlast ?ts))) = concat (map (\<lambda>t. '' -> '') (butlast ?ts))"
    using step [OF in_set_butlastD] by (subst outside_concat) (auto intro!: arg_cong [where f = concat])
  moreover have "map (\<lambda>t. '' -> '') ts = replicate (length ts) '' -> ''" for ts :: "string list" by (induction ts) simp_all
  ultimately have mid: "outside False (concat (map (\<lambda>t. '' -> '' @ quoted t) (butlast ?ts))) =
      concat (replicate (length (butlast ?ts)) '' -> '')" by simp
  have last: "closedText ('' ->> '' @ quoted (last ?ts)) \<and> outside False ('' ->> '' @ quoted (last ?ts)) = '' ->> ''"
    using closed_quoted [OF plain [OF last_in_set [OF ne]]] by (simp add: closedText_def)
  show "closedText s" unfolding s using closed_append [OF closed_plain [OF assms(3)] closed_append [OF steps conjunct1 [OF last]]] by simp
  show "\<exists>n. outside False s = c @ concat (replicate n '' -> '') @ '' ->> ''"
    unfolding s outside_plain [OF assms(3)] outside_append [OF steps] mid using last by blast
qed

lemma getStatement_text:
  "getStatement m name = Inr s \<Longrightarrow> \<forall>x. name = Some x \<longrightarrow> CHR 0x27 \<notin> set x \<Longrightarrow>
     \<forall>c \<in> set (columns m). CHR 0x27 \<notin> set c \<Longrightarrow> closedText s \<and> columnText m (outside False s)"
proof (induction m name rule: getStatement.induct)
  case (4 cls fm name)
  obtain key rest where kr: "splitFirst (CHR ''.'') name = (key, rest)" by (cases "splitFirst (CHR ''.'') name")
  then obtain m where m: "map_of fm key = Some m" "getStatement m rest = Inr s"
    using "4.prems"(1) by (auto split: option.splits)
  have "\<forall>x. rest = Some x \<longrightarrow> CHR 0x27 \<notin> set x"
    using kr "4.prems"(2) by (auto simp: splitFirst_def split: if_splits dest!: list.set_sel(2) [rotated] set_dropWhileD)
  moreover have sub: "set (columns m) \<subseteq> set (columns (Fields cls fm))"
    using map_of_SomeD [OF m(1)] by force
  ultimately have "closedText s \<and> columnText m (outside False s)"
    using "4.IH" [OF kr [symmetric] m] "4.prems"(3) by blast
  then show ?case using sub unfolding columnText_def by blast
qed (auto simp: columnText_def closed_plain dest: jsonField_text)

text \<open>The clauses of a filter, each with the text that its column has.\<close>

primrec clausesOf :: "string \<Rightarrow> (string \<times> criterion) list \<Rightarrow> string list" where
  "clausesOf prefix [] = []"
| "clausesOf prefix (xc # rest) =
     (prefix @ '' '' @ fst xc @ '' '' @ criterionOperator (snd xc) @ '' '' @ toValuePlaceholder (snd xc)) #
     clausesOf ''AND'' rest"

definition supported :: "criterion \<Rightarrow> bool" where
  "supported c \<longleftrightarrow> map lower (criterionOperator c) \<in> {''='', ''like'', ''in''}"

lemma parseExpression_Inr:
  assumes "parseExpression m st c = Inr st'"
  shows "\<exists>s ps. getStatement m (Some (operandLeft c)) = Inr s \<and> supported c \<and>
    st' = st\<lparr>whereClauses := whereClauses st @ clausesOf (if whereClauses st = [] then ''WHERE'' else ''AND'') [(s, c)],
      queryParameters := queryParameters st @ ps\<rparr> \<and>
    length ps = count_list (toValuePlaceholder c) (CHR ''?'')"
proof -
  have placeholders: "length (drop 1 ps) = count_list (toValuePlaceholder c) (CHR ''?'')" if "toStatementParameter c = Inr ps" for ps
  proof (cases "operandRight c")
    case (ListOperand os)
    have "count_list (concat (map (\<lambda>z. '','' @ z) (replicate n ''?''))) (CHR ''?'') = n" for n by (induction n) simp_all
    then have "count_list (join '','' (replicate (length os) ''?'')) (CHR ''?'') = length os"
      by (cases os) (simp_all add: join_def)
    then show ?thesis using that ListOperand by (auto simp: toStatementParameter_def toValuePlaceholder_def)
  qed (use that in \<open>auto simp: toStatementParameter_def toValuePlaceholder_def\<close>)
  from assms obtain s ps where "getStatement m (Some (operandLeft c)) = Inr s" "isValidExpression c = None"
    "toStatementParameter c = Inr ps"
    "st' = st\<lparr>whereClauses := whereClauses st @ clausesOf (if whereClauses st = [] then ''WHERE'' else ''AND'') [(s, c)],
      queryParameters := queryParameters st @ map TextParameter (drop 1 ps)\<rparr>"
    by (auto simp: parseExpression_def orThrow_Inr Let_def split: option.splits)
  with placeholders show ?thesis
    by (auto simp: isValidExpression_def supported_def split: if_splits intro!: exI [of _ "map TextParameter (drop 1 ps)"])
qed

lemma clausesOf_append: "xs \<noteq> [] \<Longrightarrow> clausesOf p (xs @ ys) = clausesOf p xs @ clausesOf ''AND'' ys"
proof (induction xs arbitrary: p)
  case (Cons x xs)
  then show ?case by (cases "xs = []") simp_all
qed simp

lemma parseExpressions_Inr:
  "parseExpressions m cs st = Inr st' \<Longrightarrow>
     \<exists>ss ps. length ss = length cs \<and> (\<forall>(s, c) \<in> set (zip ss cs). getStatement m (Some (operandLeft c)) = Inr s) \<and>
       (\<forall>c \<in> set cs. supported c) \<and> selectStatement st' = selectStatement st \<and>
       whereClauses st' = whereClauses st @ clausesOf (if whereClauses st = [] then ''WHERE'' else ''AND'') (zip ss cs) \<and>
       queryParameters st' = queryParameters st @ ps \<and>
       length ps = sum_list (map (\<lambda>c. count_list (toValuePlaceholder c) (CHR ''?'')) cs)"
proof (induction cs arbitrary: st)
  case (Cons c cs)
  then obtain st1 where st1: "parseExpression m st c = Inr st1" "parseExpressions m cs st1 = Inr st'"
    by (auto simp: orThrow_Inr)
  from parseExpression_Inr [OF st1(1)] obtain s ps where s: "getStatement m (Some (operandLeft c)) = Inr s" "supported c"
    "st1 = st\<lparr>whereClauses := whereClauses st @ clausesOf (if whereClauses st = [] then ''WHERE'' else ''AND'') [(s, c)],
      queryParameters := queryParameters st @ ps\<rparr>" "length ps = count_list (toValuePlaceholder c) (CHR ''?'')"
    by blast
  from Cons.IH [OF st1(2)] obtain ss qs where ss: "length ss = length cs"
    "\<forall>(s, c) \<in> set (zip ss cs). getStatement m (Some (operandLeft c)) = Inr s" "\<forall>c \<in> set cs. supported c"
    "selectStatement st' = selectStatement st1" "whereClauses st' = whereClauses st1 @ clausesOf ''AND'' (zip ss cs)"
    "queryParameters st' = queryParameters st1 @ qs"
    "length qs = sum_list (map (\<lambda>c. count_list (toValuePlaceholder c) (CHR ''?'')) cs)"
    using s(3) by auto
  show ?case
    by (rule exI [of _ "s # ss"], rule exI [of _ "ps @ qs"]) (use s ss in auto)
qed simp

lemma supported_operator: "supported c \<Longrightarrow> CHR 0x27 \<notin> set (criterionOperator c) \<and> CHR ''?'' \<notin> set (criterionOperator c)"
proof -
  assume s: "supported c"
  have "lower x \<in> set ''=likein''" if "x \<in> set (criterionOperator c)" for x
  proof -
    have "lower x \<in> set (map lower (criterionOperator c))" using that by simp
    with s show ?thesis unfolding supported_def by (elim insertE emptyE) (simp_all only:, auto)
  qed
  moreover have "lower (CHR 0x27) \<notin> set ''=likein''" "lower (CHR ''?'') \<notin> set ''=likein''" by (simp_all add: lower_def)
  ultimately show ?thesis by metis
qed

lemma toValuePlaceholder_plain: "CHR 0x27 \<notin> set (toValuePlaceholder c)"
proof (cases "operandRight c")
  case (ListOperand os)
  have "set (join '','' (replicate n ''?'')) \<subseteq> set '',?''" for n by (cases n) (auto simp: join_def)
  then show ?thesis using ListOperand by (auto simp: toValuePlaceholder_def)
qed (simp_all add: toValuePlaceholder_def)

text \<open>The clauses outside of literals.\<close>

lemma clause_text:
  assumes "closedText s" "supported c" "CHR 0x27 \<notin> set p"
  shows "closedText (p @ '' '' @ s @ '' '' @ criterionOperator c @ '' '' @ toValuePlaceholder c)"
    and "outside False (p @ '' '' @ s @ '' '' @ criterionOperator c @ '' '' @ toValuePlaceholder c) =
      p @ '' '' @ outside False s @ '' '' @ criterionOperator c @ '' '' @ toValuePlaceholder c"
proof -
  have rest: "CHR 0x27 \<notin> set ('' '' @ criterionOperator c @ '' '' @ toValuePlaceholder c)"
    using supported_operator [OF assms(2)] toValuePlaceholder_plain by simp
  have head: "CHR 0x27 \<notin> set (p @ '' '')" using assms(3) by simp
  show "closedText (p @ '' '' @ s @ '' '' @ criterionOperator c @ '' '' @ toValuePlaceholder c)"
    using closed_append [OF closed_plain [OF head] closed_append [OF assms(1) closed_plain [OF rest]]] by simp
  show "outside False (p @ '' '' @ s @ '' '' @ criterionOperator c @ '' '' @ toValuePlaceholder c) =
      p @ '' '' @ outside False s @ '' '' @ criterionOperator c @ '' '' @ toValuePlaceholder c"
    using outside_plain [OF head, of "s @ '' '' @ criterionOperator c @ '' '' @ toValuePlaceholder c"]
      outside_append [OF assms(1)] outside_plain_text [OF rest] by simp
qed

lemma clauses_text:
  "\<forall>(s, c) \<in> set xs. closedText s \<and> supported c \<Longrightarrow> CHR 0x27 \<notin> set p \<Longrightarrow>
     (\<forall>x \<in> set (clausesOf p xs). closedText x) \<and>
     map (outside False) (clausesOf p xs) = clausesOf p (map (\<lambda>(s, c). (outside False s, c)) xs)"
proof (induction xs arbitrary: p)
  case (Cons x xs)
  obtain s c where x: "x = (s, c)" by (cases x)
  with Cons.prems have "closedText s" "supported c" by auto
  note clause_text [OF this Cons.prems(2)]
  moreover have "(\<forall>x \<in> set (clausesOf ''AND'' xs). closedText x) \<and>
      map (outside False) (clausesOf ''AND'' xs) = clausesOf ''AND'' (map (\<lambda>(s, c). (outside False s, c)) xs)"
    by (rule Cons.IH) (use Cons.prems in auto)
  ultimately show ?case by (simp add: x)
qed simp

lemma join_text:
  "\<forall>x \<in> set xs. closedText x \<Longrightarrow> closedText (join '' '' xs) \<and> outside False (join '' '' xs) = join '' '' (map (outside False) xs)"
proof (induction xs)
  case (Cons x xs)
  have "closedText (concat (map (\<lambda>z. '' '' @ z) xs)) \<and>
      outside False (concat (map (\<lambda>z. '' '' @ z) xs)) = concat (map (\<lambda>z. '' '' @ z) (map (outside False) xs))"
    using Cons.prems by (induction xs) (auto simp: closedText_def)
  moreover have "(@) '' '' = (#) (CHR '' '')" by (simp add: fun_eq_iff)
  ultimately show ?case using Cons.prems by (simp add: join_def closedText_def)
qed (simp add: join_def closed_plain)

text \<open>The placeholders of the clauses.\<close>

lemma count_clauses:
  "\<forall>(x, c) \<in> set xs. CHR ''?'' \<notin> set x \<and> supported c \<Longrightarrow> CHR ''?'' \<notin> set p \<Longrightarrow>
     sum_list (map (\<lambda>s. count_list s (CHR ''?'')) (clausesOf p xs)) =
     sum_list (map (\<lambda>(x, c). count_list (toValuePlaceholder c) (CHR ''?'')) xs)"
proof (induction xs arbitrary: p)
  case (Cons xc xs)
  obtain x c where xc: "xc = (x, c)" by (cases xc)
  have "CHR ''?'' \<notin> set x" "CHR ''?'' \<notin> set (criterionOperator c)" using Cons.prems(1) supported_operator by (auto simp: xc)
  moreover have "sum_list (map (\<lambda>s. count_list s (CHR ''?'')) (clausesOf ''AND'' xs)) =
      sum_list (map (\<lambda>(x, c). count_list (toValuePlaceholder c) (CHR ''?'')) xs)"
    by (rule Cons.IH) (use Cons.prems in auto)
  ultimately show ?case using Cons.prems(2) by (simp add: xc count_notin)
qed simp

lemma count_join: "count_list (join '' '' xs) (CHR ''?'') = sum_list (map (\<lambda>s. count_list s (CHR ''?'')) xs)"
proof -
  have "count_list (concat (map (\<lambda>z. '' '' @ z) ys)) (CHR ''?'') = sum_list (map (\<lambda>s. count_list s (CHR ''?'')) ys)" for ys
    by (induction ys) simp_all
  moreover have "(@) '' '' = (#) (CHR '' '')" by (simp add: fun_eq_iff)
  ultimately show ?thesis by (cases xs) (simp_all add: join_def)
qed

lemma map_zip_snd: "length xs = length ys \<Longrightarrow> map (\<lambda>(x, y). f y) (zip xs ys) = map f ys"
  by (induction rule: list_induct2) simp_all

lemma columnText_placeholder:
  "columnText m x \<Longrightarrow> \<forall>c \<in> set (columns m). CHR ''?'' \<notin> set c \<Longrightarrow> CHR ''?'' \<notin> set x"
  by (auto simp: columnText_def split: if_splits)

text \<open>
  (C34) The text of a query, where no operand on the left has a quote: outside of literals it is fixed by the
  mapping, by the operators, which are the supported ones, and by the shape of the values; and it has
  a placeholder for each parameter.
\<close>

theorem query_text_fixed:
  assumes "sqlQuery select q m = Inr st" "\<forall>c \<in> set (filterExpression q). CHR 0x27 \<notin> set (operandLeft c)"
    and "CHR 0x27 \<notin> set select" "\<forall>c \<in> set (columns m). CHR 0x27 \<notin> set c \<and> CHR ''?'' \<notin> set c"
  shows "\<exists>texts. length texts = length (filterExpression q) \<and> (\<forall>x \<in> set texts. columnText m x) \<and>
    (\<forall>c \<in> set (filterExpression q). supported c) \<and>
    outside False (getQueryAsString st) =
      select @ '' '' @ join '' '' (clausesOf ''WHERE'' (zip texts (filterExpression q))) @ '' LIMIT ? OFFSET ?;'' \<and>
    count_list (outside False (getQueryAsString st)) (CHR ''?'') = count_list select (CHR ''?'') + length (queryParameters st)"
proof -
  let ?cs = "filterExpression q" and ?st = "\<lparr>selectStatement = select, whereClauses = [], queryParameters = []\<rparr>"
  obtain st1 where st1: "parseExpressions m ?cs ?st = Inr st1"
    "st = st1\<lparr>queryParameters := queryParameters st1 @ [IntParameter (limit q), IntParameter (offset q)]\<rparr>"
    using assms(1) by (auto simp: sqlQuery_def orThrow_Inr)
  from parseExpressions_Inr [OF st1(1)] obtain ss ps where ss: "length ss = length ?cs"
    "\<forall>(s, c) \<in> set (zip ss ?cs). getStatement m (Some (operandLeft c)) = Inr s" "\<forall>c \<in> set ?cs. supported c"
    "selectStatement st1 = select" "whereClauses st1 = clausesOf ''WHERE'' (zip ss ?cs)" "queryParameters st1 = ps"
    "length ps = sum_list (map (\<lambda>c. count_list (toValuePlaceholder c) (CHR ''?'')) ?cs)" by auto
  let ?texts = "map (outside False) ss"
  have col: "closedText s \<and> columnText m (outside False s)" if "(s, c) \<in> set (zip ss ?cs)" for s c
    using that ss(2) assms(2,4) getStatement_text [of m "Some (operandLeft c)" s] by (fastforce dest: set_zip_rightD)
  have cl: "closedText s \<and> supported c" if "(s, c) \<in> set (zip ss ?cs)" for s c
    using col [OF that] ss(3) set_zip_rightD [OF that] by blast
  have "(\<forall>x \<in> set (clausesOf ''WHERE'' (zip ss ?cs)). closedText x) \<and>
      map (outside False) (clausesOf ''WHERE'' (zip ss ?cs)) = clausesOf ''WHERE'' (map (\<lambda>(s, c). (outside False s, c)) (zip ss ?cs))"
    by (rule clauses_text) (use cl in auto)
  moreover have "map (\<lambda>(s, c). (outside False s, c)) (zip ss ?cs) = zip ?texts ?cs" by (simp add: zip_map1)
  ultimately have j: "closedText (join '' '' (whereClauses st1))"
    "outside False (join '' '' (whereClauses st1)) = join '' '' (clausesOf ''WHERE'' (zip ?texts ?cs))"
    using join_text [of "whereClauses st1"] ss(5) by simp_all
  have head: "CHR 0x27 \<notin> set (select @ '' '')" using assms(3) by simp
  have out: "outside False (getQueryAsString st) =
      select @ '' '' @ join '' '' (clausesOf ''WHERE'' (zip ?texts ?cs)) @ '' LIMIT ? OFFSET ?;''"
    using outside_plain [OF head] outside_append [OF j(1)] j(2) ss(4) st1(2) by (simp add: getQueryAsString_def)
  have texts: "columnText m x" if "x \<in> set ?texts" for x
  proof -
    from that obtain s where "s \<in> set ss" "x = outside False s" by auto
    then obtain c where "(s, c) \<in> set (zip ss ?cs)" using ss(1) by (metis in_set_impl_in_set_zip1)
    with col \<open>x = outside False s\<close> show ?thesis by blast
  qed
  have "count_list (join '' '' (clausesOf ''WHERE'' (zip ?texts ?cs))) (CHR ''?'') =
      sum_list (map (\<lambda>c. count_list (toValuePlaceholder c) (CHR ''?'')) ?cs)"
  proof -
    have "CHR ''?'' \<notin> set x \<and> supported c" if "(x, c) \<in> set (zip ?texts ?cs)" for x c
      using columnText_placeholder [OF texts [OF set_zip_leftD [OF that]]] assms(4) ss(3) set_zip_rightD [OF that] by blast
    then have "\<forall>(x, c) \<in> set (zip ?texts ?cs). CHR ''?'' \<notin> set x \<and> supported c" by blast
    from count_clauses [OF this, of "''WHERE''"] show ?thesis
      unfolding count_join using ss(1) by (simp add: map_zip_snd)
  qed
  then show ?thesis using ss(1,3,6,7) texts out st1(2) by (intro exI [of _ ?texts]) auto
qed

section \<open>Quotes\<close>






section \<open>The properties at work\<close>


text \<open>The query for a correlation.\<close>

definition correlationQuery :: "string \<Rightarrow> querySpec" where
  "correlationQuery k = noQuery\<lparr>filterExpression :=
     [\<lparr>operandLeft = ''correlationId'', criterionOperator = ''='', operandRight = StringOperand k\<rparr>]\<rparr>"

lemma correlation_query_text:
  "createNegotiationsQuery (correlationQuery k) = Inr
     \<lparr>selectStatement = selectNegotiationsTemplate, whereClauses = [''WHERE correlation_id = ?''],
      queryParameters = [TextParameter k, IntParameter 50, IntParameter 0]\<rparr>"
  by (simp add: createNegotiationsQuery_def sqlQuery_def parseExpression_def isValidExpression_def lower_def
      toValuePlaceholder_def toStatementParameter_def correlationQuery_def noQuery_def contractNegotiationMapping_def
      splitFirst_def)

theorem query_text_fixed_witness:
  "\<exists>st. createNegotiationsQuery (correlationQuery ''k'') = Inr st \<and>
     count_list (outside False (getQueryAsString st)) (CHR ''?'') = length (queryParameters st)"
proof -
  have "CHR 0x27 \<notin> set selectNegotiationsTemplate" "count_list selectNegotiationsTemplate (CHR ''?'') = 0"
    "\<forall>c \<in> set (columns contractNegotiationMapping). CHR 0x27 \<notin> set c \<and> CHR ''?'' \<notin> set c"
    "\<forall>c \<in> set (filterExpression (correlationQuery ''k'')). CHR 0x27 \<notin> set (operandLeft c)"
    by (simp_all add: selectNegotiationsTemplate_def contractNegotiationMapping_def contractAgreementMapping_def correlationQuery_def)
  then show ?thesis
    using correlation_query_text [of "''k''"]
      query_text_fixed [of selectNegotiationsTemplate "correlationQuery ''k''" contractNegotiationMapping]
    by (fastforce simp: createNegotiationsQuery_def)
qed

end
