(* ===== verification/Data_Plane_Store.thy ===== *)
theory Data_Plane_Store
  imports EDC_Prelude
begin

text \<open>
  Where the data plane keeps the states of its transfers: \<open>LruCache\<close> of \<open>common/util\<close>, a
  \<open>LinkedHashMap\<close> in access order with a capacity, and \<open>InMemoryDataPlaneStore\<close> of
  \<open>extensions/data-plane/data-plane-framework\<close> on it. \<open>DataPlaneStore\<close>, the interface of the store, is the
  locale \<open>flow_store\<close>: what a client may rely on is that a state it reads is the one written last, or that the
  process is not tracked. What the cache keeps, and what it forgets, is proved for it alone.
\<close>

section \<open>LruCache\<close>

text \<open>
  The entries of the map, from the one accessed longest ago to the last accessed one. An entry that is
  overwritten or read moves to the end; only the insertion of a new key may remove the eldest.
\<close>

record 'v lruCache =
  capacity :: nat
  entries :: "'v jmap"

definition removeEldestEntry :: "'v lruCache \<Rightarrow> bool" where
  "removeEldestEntry c \<longleftrightarrow> length (entries c) > capacity c"

definition lru_put :: "string \<Rightarrow> 'v \<Rightarrow> 'v lruCache \<Rightarrow> 'v lruCache" where
  "lru_put k v c =
     (case map_of (entries c) k of
        Some _ \<Rightarrow> c\<lparr>entries := remove_key k (entries c) @ [(k, v)]\<rparr>
      | None \<Rightarrow>
          (let c' = c\<lparr>entries := entries c @ [(k, v)]\<rparr>
           in if removeEldestEntry c' then c'\<lparr>entries := tl (entries c')\<rparr> else c'))"

definition lru_getOrDefault :: "string \<Rightarrow> 'v \<Rightarrow> 'v lruCache \<Rightarrow> 'v \<times> 'v lruCache" where
  "lru_getOrDefault k d c =
     (case map_of (entries c) k of
        None \<Rightarrow> (d, c)
      | Some v \<Rightarrow> (v, c\<lparr>entries := remove_key k (entries c) @ [(k, v)]\<rparr>))"

section \<open>InMemoryDataPlaneStore\<close>

datatype flowState = NOT_TRACKED | RECEIVED | FLOW_COMPLETED

definition inMemoryDataPlaneStore :: "nat \<Rightarrow> flowState lruCache" where
  "inMemoryDataPlaneStore c = \<lparr>capacity = c, entries = []\<rparr>"

definition received :: "string \<Rightarrow> flowState lruCache \<Rightarrow> flowState lruCache" where
  "received processId = lru_put processId RECEIVED"

definition completed :: "string \<Rightarrow> flowState lruCache \<Rightarrow> flowState lruCache" where
  "completed processId = lru_put processId FLOW_COMPLETED"

definition store_getState :: "string \<Rightarrow> flowState lruCache \<Rightarrow> flowState \<times> flowState lruCache" where
  "store_getState processId = lru_getOrDefault processId NOT_TRACKED"

section \<open>The interface DataPlaneStore\<close>

text \<open>The calls of a client, and the state after a sequence of them.\<close>

datatype storeCall = Received string | Completed string | GetState string

primrec callKey :: "storeCall \<Rightarrow> string" where
  "callKey (Received p) = p"
| "callKey (Completed p) = p"
| "callKey (GetState p) = p"

primrec callWrites :: "storeCall \<Rightarrow> flowState option" where
  "callWrites (Received p) = Some RECEIVED"
| "callWrites (Completed p) = Some FLOW_COMPLETED"
| "callWrites (GetState p) = None"

primrec applyCall ::
  "(string \<Rightarrow> 's \<Rightarrow> 's) \<Rightarrow> (string \<Rightarrow> 's \<Rightarrow> 's) \<Rightarrow> (string \<Rightarrow> 's \<Rightarrow> flowState \<times> 's) \<Rightarrow> storeCall \<Rightarrow> 's \<Rightarrow> 's" where
  "applyCall rcv cpl get (Received p) s = rcv p s"
| "applyCall rcv cpl get (Completed p) s = cpl p s"
| "applyCall rcv cpl get (GetState p) s = snd (get p s)"

text \<open>The state the calls wrote last for a process, \<open>v\<close> if they wrote none.\<close>

fun lastWritten :: "string \<Rightarrow> flowState \<Rightarrow> storeCall list \<Rightarrow> flowState" where
  "lastWritten k v [] = v"
| "lastWritten k v (c # cs) =
     lastWritten k (if callKey c = k then (case callWrites c of None \<Rightarrow> v | Some w \<Rightarrow> w) else v) cs"

lemma lastWritten_start:
  "(\<forall>v w. lastWritten k w cs = lastWritten k v cs) \<or> (\<forall>v. lastWritten k v cs = v)"
proof (induction cs)
  case (Cons c cs)
  then show ?case by (cases "callKey c = k"; cases "callWrites c") auto
qed simp

lemma lastWritten_unwritten:
  "(\<And>c. c \<in> set cs \<Longrightarrow> callKey c = k \<Longrightarrow> callWrites c = None) \<Longrightarrow> lastWritten k v cs = v"
  by (induction k v cs rule: lastWritten.induct) auto

locale flow_store =
  fixes rcv :: "string \<Rightarrow> 's \<Rightarrow> 's" and cpl :: "string \<Rightarrow> 's \<Rightarrow> 's"
    and get :: "string \<Rightarrow> 's \<Rightarrow> flowState \<times> 's"
    and invar :: "'s \<Rightarrow> bool"
  assumes rec_invar: "invar s \<Longrightarrow> invar (rcv k s)"
    and comp_invar: "invar s \<Longrightarrow> invar (cpl k s)"
    and get_invar: "invar s \<Longrightarrow> invar (snd (get k s))"
    and rec_get: "invar s \<Longrightarrow> fst (get k (rcv k' s)) \<in> {if k = k' then RECEIVED else fst (get k s), NOT_TRACKED}"
    and comp_get: "invar s \<Longrightarrow> fst (get k (cpl k' s)) \<in> {if k = k' then FLOW_COMPLETED else fst (get k s), NOT_TRACKED}"
    and get_get: "invar s \<Longrightarrow> fst (get k (snd (get k' s))) = fst (get k s)"
begin

lemma apply_invar: "invar s \<Longrightarrow> invar (applyCall rcv cpl get c s)"
  by (cases c) (auto intro: rec_invar comp_invar get_invar)

lemma apply_get:
  assumes "invar s"
  shows "fst (get k (applyCall rcv cpl get c s)) \<in>
     {if callKey c = k then (case callWrites c of None \<Rightarrow> fst (get k s) | Some w \<Rightarrow> w) else fst (get k s), NOT_TRACKED}"
proof (cases c)
  case (Received p)
  then show ?thesis using rec_get [OF assms, of k p] by (auto split: if_splits)
next
  case (Completed p)
  then show ?thesis using comp_get [OF assms, of k p] by (auto split: if_splits)
next
  case (GetState p)
  then show ?thesis using get_get [OF assms, of k p] by simp
qed

text \<open>A store may forget, but it never answers with a state that is out of date.\<close>

lemma never_stale:
  "invar s \<Longrightarrow> fst (get k (fold (applyCall rcv cpl get) cs s)) \<in> {lastWritten k (fst (get k s)) cs, NOT_TRACKED}"
proof (induction cs arbitrary: s)
  case (Cons c cs)
  let ?s = "applyCall rcv cpl get c s"
  have IH: "fst (get k (fold (applyCall rcv cpl get) cs ?s)) \<in> {lastWritten k (fst (get k ?s)) cs, NOT_TRACKED}"
    by (rule Cons.IH [OF apply_invar [OF Cons.prems]])
  from apply_get [OF Cons.prems, of k c] consider
      (same) "fst (get k ?s) = (if callKey c = k then (case callWrites c of None \<Rightarrow> fst (get k s) | Some w \<Rightarrow> w) else fst (get k s))"
    | (lost) "fst (get k ?s) = NOT_TRACKED" by blast
  then show ?case
  proof cases
    case same
    then show ?thesis using IH by simp
  next
    case lost
    have "lastWritten k NOT_TRACKED cs = lastWritten k w cs \<or> lastWritten k NOT_TRACKED cs = NOT_TRACKED" for w
      using lastWritten_start [of k cs] by blast
    then show ?thesis using IH lost by (fastforce simp only: lastWritten.simps fold.simps comp_apply insert_iff empty_iff)
  qed
qed simp

end

section \<open>What the cache promises\<close>

text \<open>The invariant: keys are distinct, and there are no more entries than the capacity.\<close>

definition lru_ok :: "'v lruCache \<Rightarrow> bool" where
  "lru_ok c \<longleftrightarrow> keys_distinct (entries c) \<and> length (entries c) \<le> capacity c"

lemma keys_remove_key: "set (map fst (remove_key k m)) = set (map fst m) - {k}"
  by (auto simp: remove_key_def)

lemma move_to_end_distinct: "keys_distinct m \<Longrightarrow> keys_distinct (remove_key k m @ [(k, v)])"
  using keys_remove_key [of k m] keys_distinct_remove_key [of m k] by (auto simp: keys_distinct_def)

lemma remove_key_absent: "map_of m k = None \<Longrightarrow> remove_key k m = m"
  by (induction m) (auto simp: remove_key_def split: if_splits)

lemma length_move_to_end:
  "keys_distinct m \<Longrightarrow> map_of m k = Some v \<Longrightarrow> length (remove_key k m @ [(k, w)]) = length m"
proof (induction m)
  case (Cons p m)
  show ?case
  proof (cases "fst p = k")
    case True
    then have "map_of m k = None" using Cons.prems(1) by (auto simp: keys_distinct_def map_of_eq_None_iff)
    then show ?thesis using True remove_key_absent [of m k] by (simp add: remove_key_def)
  next
    case False
    then show ?thesis using Cons by (auto simp: keys_distinct_def remove_key_def split: prod.splits if_splits)
  qed
qed simp

lemma lru_put_capacity [simp]: "capacity (lru_put k v c) = capacity c"
  by (simp add: lru_put_def Let_def split: option.split)

lemma lru_get_capacity [simp]: "capacity (snd (lru_getOrDefault k d c)) = capacity c"
  by (simp add: lru_getOrDefault_def split: option.split)

lemma snoc_distinct: "keys_distinct m \<Longrightarrow> map_of m k = None \<Longrightarrow> keys_distinct (m @ [(k, v)])"
  by (simp add: keys_distinct_def map_of_eq_None_iff)

lemma keys_distinct_tl: "keys_distinct m \<Longrightarrow> keys_distinct (tl m)"
  by (simp add: keys_distinct_def map_tl distinct_tl)

lemma lru_put_ok [edc_inv]:
  assumes "lru_ok c" shows "lru_ok (lru_put k v c)"
proof (cases "map_of (entries c) k")
  case None
  then show ?thesis using assms snoc_distinct [of "entries c" k v] keys_distinct_tl [of "entries c @ [(k, v)]"]
    by (auto simp: lru_ok_def lru_put_def Let_def removeEldestEntry_def)
next
  case (Some w)
  then show ?thesis using assms length_move_to_end [of "entries c" k w v] move_to_end_distinct [of "entries c" k v]
    by (simp add: lru_ok_def lru_put_def)
qed

lemma lru_get_ok [edc_inv]: "lru_ok c \<Longrightarrow> lru_ok (snd (lru_getOrDefault k d c))"
  using length_move_to_end [of "entries c" k] move_to_end_distinct [of "entries c" k]
  by (auto simp: lru_ok_def lru_getOrDefault_def split: option.split)

text \<open>What is read after a write: that entry, the entries not evicted, and nothing else.\<close>

lemma lru_get_fst: "fst (lru_getOrDefault k d c) = (case map_of (entries c) k of None \<Rightarrow> d | Some v \<Rightarrow> v)"
  by (simp add: lru_getOrDefault_def split: option.split)

lemma map_of_tl: "keys_distinct m \<Longrightarrow> map_of (tl m) k \<in> {map_of m k, None}"
  by (cases m) (auto simp: keys_distinct_def map_of_eq_None_iff split: if_splits)

lemma move_to_end_add [simp]: "[k \<mapsto> v] ++ m(k := None) = m(k \<mapsto> v)"
  by (auto simp: fun_eq_iff map_add_def split: option.split)

lemma map_of_move: "map_of (remove_key k m @ [(k, v)]) = (map_of m)(k \<mapsto> v)"
  by simp

lemma lru_put_entries:
  assumes "lru_ok c"
  shows "map_of (entries (lru_put k v c)) k' \<in> {if k' = k then Some v else map_of (entries c) k', None}"
proof (cases "map_of (entries c) k")
  case None
  then have "map_of (entries c @ [(k, v)]) = (map_of (entries c))(k \<mapsto> v)"
    using map_of_move [of k "entries c" v] remove_key_absent [of "entries c" k] by simp
  moreover have "keys_distinct (entries c @ [(k, v)])"
    using assms None snoc_distinct by (auto simp: lru_ok_def)
  ultimately show ?thesis using None map_of_tl [of "entries c @ [(k, v)]" k']
    by (auto simp: lru_put_def Let_def)
next
  case (Some w)
  then show ?thesis by (simp add: lru_put_def)
qed

lemma lru_get_entries [simp]: "map_of (entries (snd (lru_getOrDefault k d c))) = map_of (entries c)"
  by (auto simp: lru_getOrDefault_def fun_eq_iff split: option.split)

lemma getState_eq: "fst (store_getState k c) = (case map_of (entries c) k of None \<Rightarrow> NOT_TRACKED | Some v \<Rightarrow> v)"
  by (simp add: store_getState_def lru_get_fst)

lemma mark_getState:
  "lru_ok c \<Longrightarrow> fst (store_getState k (lru_put k' v c)) \<in> {if k = k' then v else fst (store_getState k c), NOT_TRACKED}"
  using lru_put_entries [of c k' v k] by (auto simp: getState_eq)

interpretation inMemory: flow_store received completed store_getState "lru_ok :: flowState lruCache \<Rightarrow> bool"
proof
  show "lru_ok (received k s)" "lru_ok (completed k s)" "lru_ok (snd (store_getState k s))" if "lru_ok s" for k s
    using that by (simp_all add: received_def completed_def store_getState_def edc_inv)
  show "fst (store_getState k (received k' s)) \<in> {if k = k' then RECEIVED else fst (store_getState k s), NOT_TRACKED}"
    "fst (store_getState k (completed k' s)) \<in> {if k = k' then FLOW_COMPLETED else fst (store_getState k s), NOT_TRACKED}"
    if "lru_ok s" for k k' s
    using that mark_getState by (simp_all add: received_def completed_def)
  show "fst (store_getState k (snd (store_getState k' s))) = fst (store_getState k s)" for k k' s
    by (simp add: getState_eq store_getState_def [of k'])
qed

section \<open>How long a state is kept\<close>

text \<open>
  The entries behind \<open>k\<close> are those accessed after it. \<open>behind\<close> bounds them: \<open>k\<close> is in the cache with
  \<open>v\<close>, and only keys of \<open>T\<close> follow it.
\<close>

definition behind :: "string \<Rightarrow> 'v \<Rightarrow> string set \<Rightarrow> 'v lruCache \<Rightarrow> bool" where
  "behind k v T c \<longleftrightarrow> (\<exists>xs ys. entries c = xs @ (k, v) # ys \<and> set (map fst ys) \<subseteq> T)"

lemma behind_lookup:
  assumes "behind k v T c" "lru_ok c"
  shows "map_of (entries c) k = Some v"
  using assms by (auto simp: behind_def lru_ok_def keys_distinct_def map_of_eq_None_iff image_iff split: option.splits)

lemma behind_mono: "behind k v T c \<Longrightarrow> T \<subseteq> T' \<Longrightarrow> behind k v T' c"
  by (fastforce simp: behind_def)

lemma behind_moved:
  assumes "behind k v T c" "k' \<noteq> k"
  shows "behind k v (insert k' T) (c\<lparr>entries := remove_key k' (entries c) @ [(k', w)]\<rparr>)"
proof -
  from assms(1) obtain xs ys where c: "entries c = xs @ (k, v) # ys" "set (map fst ys) \<subseteq> T"
    by (auto simp: behind_def)
  have "remove_key k' (entries c) @ [(k', w)] = remove_key k' xs @ (k, v) # (remove_key k' ys @ [(k', w)])"
    using assms(2) by (simp add: c remove_key_def)
  moreover have "set (map fst (remove_key k' ys @ [(k', w)])) \<subseteq> insert k' T"
    using c(2) by (auto simp: remove_key_def)
  ultimately show ?thesis unfolding behind_def by (metis lruCache.select_convs(2) lruCache.surjective lruCache.update_convs(2))
qed

lemma behind_put:
  assumes "behind k v T c" "lru_ok c" "k' \<noteq> k" "finite T" "card (insert k' T) < capacity c"
  shows "behind k v (insert k' T) (lru_put k' w c)"
proof (cases "map_of (entries c) k'")
  case (Some w')
  then show ?thesis using behind_moved [OF assms(1,3), of w] by (simp add: lru_put_def)
next
  case None
  from assms(1) obtain xs ys where c: "entries c = xs @ (k, v) # ys" "set (map fst ys) \<subseteq> T"
    by (auto simp: behind_def)
  have "k' \<notin> fst ` set (entries c)" using None by (simp only: map_of_eq_None_iff not_False_eq_True)
  then have "distinct (map fst (ys @ [(k', w)]))"
    using assms(2) by (auto simp: c lru_ok_def keys_distinct_def)
  then have "length ys + 1 = card (set (map fst (ys @ [(k', w)])))"
    by (metis distinct_card length_append length_map list.size(3,4) add_0 One_nat_def)
  also have "\<dots> \<le> card (insert k' T)"
    using c(2) assms(4) by (intro card_mono) auto
  finally have room: "length ys + 2 \<le> capacity c" using assms(5) by simp
  let ?m = "entries c @ [(k', w)]"
  have put: "entries (lru_put k' w c) = (if capacity c < length ?m then tl ?m else ?m)"
    using None by (simp add: lru_put_def Let_def removeEldestEntry_def)
  have last: "set (map fst (ys @ [(k', w)])) \<subseteq> insert k' T" using c(2) by auto
  show ?thesis
  proof (cases "capacity c < length ?m")
    case True
    then have "xs \<noteq> []" using room by (auto simp: c)
    then have "entries (lru_put k' w c) = tl xs @ (k, v) # (ys @ [(k', w)])"
      using True by (simp add: put c)
    then show ?thesis unfolding behind_def using last by blast
  next
    case False
    then have "entries (lru_put k' w c) = xs @ (k, v) # (ys @ [(k', w)])"
      by (simp add: put c)
    then show ?thesis unfolding behind_def using last by blast
  qed
qed

lemma behind_get:
  assumes "behind k v T c" "k' \<noteq> k"
  shows "behind k v (insert k' T) (snd (lru_getOrDefault k' d c))"
  using behind_moved [OF assms] behind_mono [OF assms(1), of "insert k' T"]
  by (auto simp: lru_getOrDefault_def split: option.split)

abbreviation storeCalls :: "storeCall list \<Rightarrow> flowState lruCache \<Rightarrow> flowState lruCache" where
  "storeCalls cs \<equiv> fold (applyCall received completed store_getState) cs"

lemma applyCall_capacity [simp]: "capacity (applyCall received completed store_getState c s) = capacity s"
  by (cases c) (simp_all add: received_def completed_def store_getState_def)

lemma behind_applyCall:
  assumes "behind k v T s" "lru_ok s" "callKey c \<noteq> k" "finite T" "card (insert (callKey c) T) < capacity s"
  shows "behind k v (insert (callKey c) T) (applyCall received completed store_getState c s)"
  using assms behind_put behind_get by (cases c) (auto simp: received_def completed_def store_getState_def)

lemma behind_storeCalls:
  assumes "behind k v T s" "lru_ok s" "\<And>c. c \<in> set cs \<Longrightarrow> callKey c \<noteq> k" "finite T"
    "card (callKey ` set cs \<union> T) < capacity s"
  shows "behind k v (callKey ` set cs \<union> T) (storeCalls cs s)"
  using assms
proof (induction cs arbitrary: T s)
  case (Cons c cs)
  let ?s = "applyCall received completed store_getState c s"
  have sub: "insert (callKey c) T \<subseteq> callKey ` set (c # cs) \<union> T" by auto
  then have "card (insert (callKey c) T) < capacity s"
    using Cons.prems(4,5) by (meson card_mono finite_UnI finite_imageI finite_set le_less_trans)
  then have "behind k v (insert (callKey c) T) ?s"
    using Cons.prems behind_applyCall by auto
  moreover have "callKey ` set cs \<union> insert (callKey c) T = callKey ` set (c # cs) \<union> T" by auto
  ultimately show ?case
    using Cons.IH [of "insert (callKey c) T" ?s] Cons.prems inMemory.apply_invar by simp
qed simp

text \<open>The keys accessed after \<open>k\<close>, and a cache in which the keys of \<open>W\<close> are, if \<open>k\<close> is still in it.\<close>

definition keysAfter :: "string \<Rightarrow> 'v jmap \<Rightarrow> string set" where
  "keysAfter k m = fst ` set (tl (dropWhile (\<lambda>p. fst p \<noteq> k) m))"

definition passed :: "string \<Rightarrow> string set \<Rightarrow> 'v lruCache \<Rightarrow> bool" where
  "passed k W c \<longleftrightarrow> (k \<in> fst ` set (entries c) \<longrightarrow> W \<subseteq> keysAfter k (entries c))"

lemma keysAfter_snoc:
  "k \<in> fst ` set m \<Longrightarrow> keysAfter k (m @ [(k', w)]) = insert k' (keysAfter k m)"
  by (induction m) (auto simp: keysAfter_def)

lemma keysAfter_remove: "k' \<noteq> k \<Longrightarrow> keysAfter k (remove_key k' m) = keysAfter k m - {k'}"
  by (induction m) (auto simp: keysAfter_def remove_key_def)

lemma keysAfter_tl:
  "keys_distinct m \<Longrightarrow> k \<in> fst ` set (tl m) \<Longrightarrow> keysAfter k (tl m) = keysAfter k m \<and> k \<in> fst ` set m"
  by (cases m) (auto simp: keysAfter_def keys_distinct_def)

lemma keysAfter_subset: "keysAfter k m \<subseteq> fst ` set m"
  by (induction m) (auto simp: keysAfter_def)

lemma keysAfter_not_self: "keys_distinct m \<Longrightarrow> k \<notin> keysAfter k m"
  by (induction m) (auto simp: keysAfter_def keys_distinct_def)

lemma passed_moved:
  assumes "passed k W c" "k' \<noteq> k"
  shows "passed k (insert k' W) (c\<lparr>entries := remove_key k' (entries c) @ [(k', w)]\<rparr>)"
proof -
  have "k \<in> fst ` set (remove_key k' (entries c)) \<longleftrightarrow> k \<in> fst ` set (entries c)"
    using keys_remove_key [of k' "entries c"] assms(2) by auto
  then show ?thesis using assms keysAfter_snoc [of k "remove_key k' (entries c)" k' w]
    by (auto simp: passed_def keysAfter_remove)
qed

lemma passed_put:
  assumes "passed k W c" "lru_ok c" "k' \<noteq> k"
  shows "passed k (insert k' W) (lru_put k' w c)"
proof (cases "map_of (entries c) k'")
  case (Some w')
  then show ?thesis using passed_moved [OF assms(1,3), of w] by (simp add: lru_put_def)
next
  case None
  let ?m = "entries c @ [(k', w)]"
  have d: "keys_distinct ?m" using assms(2) None snoc_distinct by (auto simp: lru_ok_def)
  have snoc: "k \<in> fst ` set ?m \<Longrightarrow> insert k' W \<subseteq> keysAfter k ?m"
    using assms(1,3) by (auto simp: passed_def keysAfter_snoc image_iff)
  have "entries (lru_put k' w c) \<in> {?m, tl ?m}"
    using None by (simp add: lru_put_def Let_def)
  then show ?thesis using snoc keysAfter_tl [OF d, of k] unfolding passed_def by (metis insertE singletonD)
qed

lemma passed_get:
  assumes "passed k W c" "k' \<noteq> k"
  shows "passed k W (snd (lru_getOrDefault k' d c))"
proof (cases "map_of (entries c) k'")
  case None
  then show ?thesis using assms(1) by (simp add: lru_getOrDefault_def)
next
  case (Some v)
  then show ?thesis using passed_moved [OF assms, of v] by (auto simp: lru_getOrDefault_def passed_def)
qed

text \<open>The keys a sequence of calls writes.\<close>

definition writtenKeys :: "storeCall list \<Rightarrow> string set" where
  "writtenKeys cs = callKey ` {c \<in> set cs. callWrites c \<noteq> None}"

lemma passed_storeCalls:
  "passed k W s \<Longrightarrow> lru_ok s \<Longrightarrow> (\<And>c. c \<in> set cs \<Longrightarrow> callKey c \<noteq> k) \<Longrightarrow> passed k (writtenKeys cs \<union> W) (storeCalls cs s)"
proof (induction cs arbitrary: W s)
  case (Cons c cs)
  let ?s = "applyCall received completed store_getState c s"
  let ?W = "if callWrites c = None then W else insert (callKey c) W"
  have "callKey c \<noteq> k" using Cons.prems(3) by simp
  then have "passed k ?W ?s"
    using passed_put [OF Cons.prems(1,2)] passed_get [OF Cons.prems(1)]
    by (cases c) (simp_all add: received_def completed_def store_getState_def)
  moreover have "writtenKeys (c # cs) \<union> W = writtenKeys cs \<union> ?W" by (auto simp: writtenKeys_def)
  ultimately show ?case
    using Cons.IH [of ?W ?s] Cons.prems inMemory.apply_invar by simp
qed (simp add: writtenKeys_def)

lemma behind_written:
  assumes "lru_ok s" "callWrites w = Some v" "0 < capacity s"
  shows "behind (callKey w) v {} (applyCall received completed store_getState w s)"
proof -
  have "\<exists>xs. entries (lru_put k u s) = xs @ [(k, u)]" for k u
    using assms(1,3)
    by (cases "entries s") (auto simp: lru_put_def lru_ok_def Let_def removeEldestEntry_def split: option.split)
  then show ?thesis using assms(2) by (cases w) (auto simp: behind_def received_def completed_def)
qed

lemma passed_full:
  assumes "passed k W c" "lru_ok c" "capacity c \<le> card W" "finite W"
  shows "map_of (entries c) k = None"
proof (rule ccontr)
  assume "map_of (entries c) k \<noteq> None"
  then have k: "k \<in> fst ` set (entries c)" by (simp only: map_of_eq_None_iff not_not)
  then have "insert k W \<subseteq> fst ` set (entries c)"
    using assms(1) keysAfter_subset [of k "entries c"] by (auto simp: passed_def simp del: set_map)
  then have "card (insert k W) \<le> length (entries c)"
    using surj_card_le [of "set (entries c)" "insert k W" fst] card_length [of "entries c"] by simp
  moreover have "k \<notin> W"
    using assms(1,2) k keysAfter_not_self [of "entries c" k] by (auto simp: passed_def lru_ok_def)
  ultimately show False using assms(2,3,4) by (simp add: lru_ok_def)
qed

lemma storeCalls_ok [simp]: "lru_ok s \<Longrightarrow> lru_ok (storeCalls cs s)"
  by (induction cs arbitrary: s) (simp_all add: inMemory.apply_invar)

lemma storeCalls_capacity [simp]: "capacity (storeCalls cs s) = capacity s"
  by (induction cs arbitrary: s) simp_all

lemma inMemoryDataPlaneStore_ok [simp]: "lru_ok (inMemoryDataPlaneStore n)"
  by (simp add: lru_ok_def inMemoryDataPlaneStore_def)

lemma state_kept:
  assumes "lru_ok s" "callWrites w = Some v" "\<And>c. c \<in> set cs \<Longrightarrow> callKey c \<noteq> callKey w"
    "card (callKey ` set cs) < capacity s"
  shows "fst (store_getState (callKey w) (storeCalls (w # cs) s)) = v"
proof -
  let ?s = "applyCall received completed store_getState w s"
  have ok: "lru_ok ?s" by (rule inMemory.apply_invar [OF assms(1)])
  have "behind (callKey w) v (callKey ` set cs \<union> {}) (storeCalls cs ?s)"
    using behind_storeCalls [OF behind_written [OF assms(1,2)] ok assms(3)] assms(4) by simp
  then show ?thesis using ok behind_lookup by (fastforce simp: getState_eq)
qed

lemma state_evicted:
  assumes "lru_ok s" "\<And>c. c \<in> set cs \<Longrightarrow> callKey c \<noteq> callKey w" "capacity s \<le> card (writtenKeys cs)"
  shows "fst (store_getState (callKey w) (storeCalls (w # cs) s)) = NOT_TRACKED"
proof -
  let ?s = "applyCall received completed store_getState w s"
  have ok: "lru_ok ?s" by (rule inMemory.apply_invar [OF assms(1)])
  have "passed (callKey w) (writtenKeys cs) (storeCalls cs ?s)"
    using passed_storeCalls [of "callKey w" "{}" ?s cs] ok assms(2) by (simp add: passed_def)
  moreover have "finite (writtenKeys cs)" by (simp add: writtenKeys_def)
  ultimately show ?thesis using passed_full [of "callKey w" "writtenKeys cs" "storeCalls cs ?s"] ok assms(3)
    by (simp add: getState_eq)
qed

text \<open>
  (C25) A state that is written is kept as long as the calls that follow are for fewer other processes than
  the capacity, and is forgotten, the process then being reported as not tracked, once as many other processes
  as the capacity have been written without an access to it.
\<close>

theorem state_kept_and_evicted:
  assumes "lru_ok s" "callWrites w = Some v" "\<forall>c \<in> set cs. callKey c \<noteq> callKey w"
  shows "(card (callKey ` set cs) < capacity s \<longrightarrow> fst (store_getState (callKey w) (storeCalls (w # cs) s)) = v) \<and>
    (capacity s \<le> card (writtenKeys cs) \<longrightarrow> fst (store_getState (callKey w) (storeCalls (w # cs) s)) = NOT_TRACKED)"
  using state_kept [OF assms(1,2)] state_evicted [OF assms(1)] assms(3) by blast

theorem state_kept_and_evicted_witness:
  "fst (store_getState ''a'' (storeCalls [Received ''a'', Completed ''b'', GetState ''c''] (inMemoryDataPlaneStore 3))) = RECEIVED \<and>
   fst (store_getState ''a'' (storeCalls [Received ''a'', Completed ''b'', Received ''c''] (inMemoryDataPlaneStore 2))) = NOT_TRACKED"
proof -
  have c: "card {''b'', ''c''} = 2" by simp
  have w: "writtenKeys [Completed ''b'', Received ''c''] = {''b'', ''c''}"
    by (force simp: writtenKeys_def intro: rev_image_eqI)
  show ?thesis
    using state_kept_and_evicted [of "inMemoryDataPlaneStore 3" "Received ''a''" RECEIVED "[Completed ''b'', GetState ''c'']"]
      state_kept_and_evicted [of "inMemoryDataPlaneStore 2" "Received ''a''" RECEIVED "[Completed ''b'', Received ''c'']"] c
    by (simp add: w inMemoryDataPlaneStore_def lru_ok_def)
qed

text \<open>
  Whatever calls a client makes, the store answers with the state that was written last for a process or
  that the process is not tracked, and it never holds more entries than its capacity.
\<close>

theorem state_never_stale:
  "fst (store_getState k (storeCalls cs (inMemoryDataPlaneStore n))) \<in> {lastWritten k NOT_TRACKED cs, NOT_TRACKED} \<and>
   length (entries (storeCalls cs (inMemoryDataPlaneStore n))) \<le> n"
proof -
  have "fst (store_getState k (inMemoryDataPlaneStore n)) = NOT_TRACKED"
    by (simp add: getState_eq inMemoryDataPlaneStore_def)
  moreover have "capacity (storeCalls cs (inMemoryDataPlaneStore n)) = n"
    by (simp add: inMemoryDataPlaneStore_def)
  moreover have "lru_ok (storeCalls cs (inMemoryDataPlaneStore n))" by simp
  ultimately show ?thesis
    using inMemory.never_stale [OF inMemoryDataPlaneStore_ok, of k cs n] by (simp add: lru_ok_def)
qed

end
