(* ===== verification/Data_Plane_Sinks.thy ===== *)
theory Data_Plane_Sinks
  imports Provisioning
begin

text \<open>
  How the data plane moves data: \<open>PartitionIterator\<close> of \<open>common/util\<close>, and the sinks and sources of
  \<open>extensions/data-plane/data-plane-spi/.../spi/pipeline\<close>: \<open>ParallelSink\<close>, \<open>OutputStreamDataSink\<close> and
  \<open>InputStreamDataSource\<close>. A source delivers its parts in order until it ends or throws; the executor takes
  or rejects each task; what a task answers or throws is an input. A task that was handed over runs, whatever
  happens to the call that handed it over.
\<close>

section \<open>Sources\<close>

record 'p partStream =
  streamParts :: "'p list"
  streamFailure :: "java_exn option"
  streamClose :: "java_exn option"

type_synonym 'p dataSource = "java_exn + 'p partStream"

text \<open>What \<open>toString\<close> of an exception gives; it is the message of a \<open>CompletionException\<close> that wraps it.\<close>

fun exnToString :: "java_exn \<Rightarrow> string" where
  "exnToString (IllegalStateException m) = ''java.lang.IllegalStateException: '' @ m"
| "exnToString (IllegalArgumentException m) = ''java.lang.IllegalArgumentException: '' @ m"
| "exnToString (NullPointerException m) = ''java.lang.NullPointerException: '' @ m"
| "exnToString (EdcException m) = ''org.eclipse.dataspaceconnector.spi.EdcException: '' @ m"
| "exnToString (IndexOutOfBoundsException m) = ''java.lang.IndexOutOfBoundsException: '' @ m"
| "exnToString (JsThrow m) = m"
| "exnToString (JavaError m) = ''java.lang.Error: '' @ m"

text \<open>\<open>catch (Exception e)\<close>: an error passes.\<close>

definition catchException :: "java_exn + 'a \<Rightarrow> (java_exn \<Rightarrow> 'a) \<Rightarrow> java_exn + 'a" where
  "catchException r h =
     (case r of
        Inl (JavaError m) \<Rightarrow> Inl (JavaError m)
      | Inl e \<Rightarrow> Inr (h e)
      | Inr a \<Rightarrow> Inr a)"

lemma catchException_Inr [simp]: "catchException (Inr a) h = Inr a"
  by (simp add: catchException_def)

lemma catchException_Inl: "catchException (Inl e) h = Inr b \<Longrightarrow> b = h e"
  by (cases e) (simp_all add: catchException_def)

section \<open>PartitionIterator\<close>

text \<open>
  \<open>next\<close> asks the source whether it has another element before it looks at the size of the partition, so a
  source that fails right after a full partition takes that partition with it.
\<close>

fun nextPartition :: "nat \<Rightarrow> 'p list \<Rightarrow> java_exn option \<Rightarrow> 'p list \<Rightarrow> java_exn + 'p list \<times> 'p list" where
  "nextPartition n part failure [] =
     (case failure of None \<Rightarrow> Inr (part, []) | Some e \<Rightarrow> Inl e)"
| "nextPartition n part failure (x # xs) =
     (if length part < n then nextPartition n (part @ [x]) failure xs
      else Inr (part, x # xs))"

lemma nextPartition_split:
  "nextPartition n p f xs = Inr (q, rest) \<Longrightarrow> p @ xs = q @ rest \<and> length rest \<le> length xs"
  by (induction n p f xs rule: nextPartition.induct) (auto split: if_splits option.splits)

lemma nextPartition_progress:
  "0 < n \<Longrightarrow> nextPartition n [] f (x # xs) = Inr (q, rest) \<Longrightarrow> length rest < length (x # xs)"
  by (auto dest!: nextPartition_split)

text \<open>
  The partitions that a traversal of \<open>streamOf\<close> reaches, and the exception that ends it. The constructor
  refuses a size that is not positive.
\<close>

function partitions :: "nat \<Rightarrow> java_exn option \<Rightarrow> 'p list \<Rightarrow> 'p list list \<times> java_exn option" where
  "partitions n failure xs =
     (if n = 0 \<or> xs = [] then ([], failure)
      else case nextPartition n [] failure xs of
             Inl e \<Rightarrow> ([], Some e)
           | Inr (p, rest) \<Rightarrow> (let (ps, e) = partitions n failure rest in (p # ps, e)))"
  by pat_completeness auto
termination
proof (relation "measure (\<lambda>(n, f, xs). length xs)")
  fix n f and xs :: "'p list" and y p rest
  assume "\<not> (n = 0 \<or> xs = [])" "nextPartition n [] f xs = Inr y" "(p, rest) = y"
  then show "((n, f, rest), n, f, xs) \<in> measure (\<lambda>(n, f, xs). length xs)"
    using nextPartition_progress [of n f "hd xs" "tl xs" p rest] by (cases xs) auto
qed simp

declare partitions.simps [simp del]

definition streamOf :: "int \<Rightarrow> 'p partStream \<Rightarrow> 'p list list \<times> java_exn option" where
  "streamOf n st =
     (if n \<le> 0 then ([], Some (IllegalArgumentException (''Invalid partition size:'' @ showInt n)))
      else partitions (nat n) (streamFailure st) (streamParts st))"

section \<open>Handing over to an executor\<close>

text \<open>The executor's answer to the submission of each task: an exception if it rejects it.\<close>

type_synonym executor = "nat \<Rightarrow> java_exn option"

fun supplyAll :: "executor \<Rightarrow> nat \<Rightarrow> 'p list \<Rightarrow> 'p list \<times> java_exn option" where
  "supplyAll ex i [] = ([], None)"
| "supplyAll ex i (p # ps) =
     (case ex i of
        Some e \<Rightarrow> ([], Some e)
      | None \<Rightarrow> (let (qs, r) = supplyAll ex (Suc i) ps in (p # qs, r)))"

text \<open>
  A traversal that hands over each element: a rejection ends it before an exception of the stream can.
\<close>

definition supplyEach :: "executor \<Rightarrow> 'p list \<times> java_exn option \<Rightarrow> 'p list \<times> java_exn option" where
  "supplyEach ex run =
     (let (qs, rejected) = supplyAll ex 0 (fst run)
      in (qs, case rejected of Some e \<Rightarrow> Some e | None \<Rightarrow> snd run))"

section \<open>ParallelSink\<close>

record 'p parallelSink =
  partitionSize :: int
  sinkExecutor :: executor
  transferParts :: "'p list \<Rightarrow> java_exn + unit statusResult"
  completeSink :: "java_exn + unit statusResult"

definition statusFailed :: "'a statusResult \<Rightarrow> bool" where
  "statusFailed r = (case r of StatusSuccess _ \<Rightarrow> False | StatusFailure _ _ \<Rightarrow> True)"

definition statusMessages :: "'a statusResult \<Rightarrow> string list" where
  "statusMessages r = (case r of StatusSuccess _ \<Rightarrow> [] | StatusFailure _ ms \<Rightarrow> ms)"

definition unhandled :: "java_exn \<Rightarrow> unit statusResult" where
  "unhandled e = StatusFailure ERROR_RETRY
     [''Unhandled exception raised when transferring data: '' @ exnToString e]"

definition processingError :: "unit statusResult" where
  "processingError = StatusFailure ERROR_RETRY [''Error processing data transfer request'']"

text \<open>
  What becomes of the results of the tasks, and whether \<open>complete\<close> is called.
\<close>

definition collectResults ::
  "(java_exn + unit statusResult) list \<Rightarrow> java_exn + unit statusResult \<Rightarrow> bool \<times> unit statusResult" where
  "collectResults futures complete =
     (case asyncAllOf futures of
        Inl e \<Rightarrow> (False, unhandled e)
      | Inr results \<Rightarrow>
          (case List.find statusFailed results of
             Some r \<Rightarrow> (False, StatusFailure ERROR_RETRY [join '','' (statusMessages r)])
           | None \<Rightarrow> (True, case complete of Inl e \<Rightarrow> unhandled e | Inr r \<Rightarrow> r)))"

text \<open>
  A run: the partitions that were handed over, whether \<open>complete\<close> was called, and what \<open>transfer\<close> threw or
  its future completes with. The stream is closed when the method returns, before the tasks have run; what the
  close throws replaces the future.
\<close>

record 'p sinkRun =
  handedOver :: "'p list list"
  completeCalled :: bool
  outcome :: "java_exn + unit statusResult"

definition parallelTransfer :: "'p parallelSink \<Rightarrow> 'p dataSource \<Rightarrow> 'p sinkRun" where
  "parallelTransfer sink source =
     (case source of
        Inl e \<Rightarrow> \<lparr>handedOver = [], completeCalled = False, outcome = catchException (Inl e) (\<lambda>_. processingError)\<rparr>
      | Inr st \<Rightarrow>
          (let (parts, thrown) = supplyEach (sinkExecutor sink) (streamOf (partitionSize sink) st);
               (called, result) = collectResults (map (transferParts sink) parts) (completeSink sink)
           in case (thrown, streamClose st) of
                (Some e, _) \<Rightarrow>
                  \<lparr>handedOver = parts, completeCalled = False, outcome = catchException (Inl e) (\<lambda>_. processingError)\<rparr>
              | (None, Some e) \<Rightarrow>
                  \<lparr>handedOver = parts, completeCalled = called, outcome = catchException (Inl e) (\<lambda>_. processingError)\<rparr>
              | (None, None) \<Rightarrow>
                  \<lparr>handedOver = parts, completeCalled = called, outcome = Inr result\<rparr>))"

section \<open>What a parallel transfer promises\<close>

text \<open>The reference: the elements in chunks of \<open>n\<close>.\<close>

fun chunks :: "nat \<Rightarrow> 'p list \<Rightarrow> 'p list list" where
  "chunks 0 xs = []"
| "chunks (Suc n) [] = []"
| "chunks (Suc n) (x # xs) = take (Suc n) (x # xs) # chunks (Suc n) (drop n xs)"

lemma concat_chunks: "0 < n \<Longrightarrow> concat (chunks n xs) = xs"
  by (induction n xs rule: chunks.induct) simp_all

lemma chunks_sizes: "p \<in> set (chunks n xs) \<Longrightarrow> p \<noteq> [] \<and> length p \<le> n"
  by (induction n xs rule: chunks.induct) auto

lemma nextPartition_ends:
  "length p \<le> n \<Longrightarrow> nextPartition n p None xs = Inr (p @ take (n - length p) xs, drop (n - length p) xs)"
proof (induction xs arbitrary: p)
  case (Cons x xs)
  show ?case
  proof (cases "length p < n")
    case True
    then have "n - length p = Suc (n - Suc (length p))" by simp
    then show ?thesis using True Cons.IH [of "p @ [x]"] by simp
  qed (use Cons.prems in simp)
qed simp

lemma partitions_chunks: "0 < n \<Longrightarrow> partitions n None xs = (chunks n xs, None)"
proof (induction n xs rule: chunks.induct)
  case (3 n x xs)
  have "nextPartition (Suc n) [] None (x # xs) = Inr (take (Suc n) (x # xs), drop n xs)"
    using nextPartition_ends [of "[]" "Suc n" "x # xs"] by simp
  with 3 show ?case by (subst partitions.simps) simp
qed (simp_all add: partitions.simps)

text \<open>A source that throws: the elements that do not follow a full partition and a further element are lost.\<close>

lemma nextPartition_fails:
  "length p \<le> n \<Longrightarrow> nextPartition n p (Some e) xs =
     (if length p + length xs \<le> n then Inl e else Inr (p @ take (n - length p) xs, drop (n - length p) xs))"
proof (induction xs arbitrary: p)
  case (Cons x xs)
  show ?case
  proof (cases "length p < n")
    case True
    then have "n - length p = Suc (n - Suc (length p))" by simp
    then show ?thesis using True Cons.IH [of "p @ [x]"] by simp
  qed (use Cons.prems in simp)
qed simp

lemma partitions_failure:
  assumes "0 < n"
  obtains lost where "concat (fst (partitions n (Some e) xs)) @ lost = xs" "length lost \<le> n" "xs = [] \<or> lost \<noteq> []"
    "snd (partitions n (Some e) xs) = Some e" "\<And>p. p \<in> set (fst (partitions n (Some e) xs)) \<Longrightarrow> length p = n"
proof -
  have "\<exists>lost. concat (fst (partitions n (Some e) xs)) @ lost = xs \<and> length lost \<le> n \<and> (xs = [] \<or> lost \<noteq> []) \<and>
    snd (partitions n (Some e) xs) = Some e \<and> (\<forall>p \<in> set (fst (partitions n (Some e) xs)). length p = n)"
  proof (induction "length xs" arbitrary: xs rule: less_induct)
    case less
    show ?case
    proof (cases "length xs \<le> n")
      case True
      then show ?thesis using assms by (subst (1 2 3) partitions.simps) (simp add: nextPartition_fails)
    next
      case False
      then have "length (drop n xs) < length xs" using assms by simp
      from less [OF this] obtain lost where IH: "concat (fst (partitions n (Some e) (drop n xs))) @ lost = drop n xs"
        "length lost \<le> n" "drop n xs = [] \<or> lost \<noteq> []" "snd (partitions n (Some e) (drop n xs)) = Some e"
        "\<forall>p \<in> set (fst (partitions n (Some e) (drop n xs))). length p = n"
        by blast
      have "partitions n (Some e) xs =
          (take n xs # fst (partitions n (Some e) (drop n xs)), snd (partitions n (Some e) (drop n xs)))"
        using False assms by (subst partitions.simps) (auto simp: nextPartition_fails split: prod.split)
      moreover have "concat (take n xs # fst (partitions n (Some e) (drop n xs))) @ lost = xs"
        using IH(1) by simp
      ultimately show ?thesis using IH(2-5) False by (intro exI [of _ lost]) auto
    qed
  qed
  then show ?thesis using that by auto
qed

lemma partitions_failure_snd: "0 < n \<Longrightarrow> snd (partitions n (Some e) xs) = Some e"
  by (rule partitions_failure) auto

text \<open>Tasks handed over: all of them if none is rejected, else those before the rejection.\<close>

lemma supplyAll_prefix: "supplyAll ex i ps = (qs, r) \<Longrightarrow> \<exists>ms. ps = qs @ ms \<and> (r = None \<longleftrightarrow> ms = [])"
  by (induction ex i ps arbitrary: qs r rule: supplyAll.induct) (auto split: option.splits prod.splits)

definition accepts :: "executor \<Rightarrow> nat \<Rightarrow> bool" where
  "accepts ex n \<longleftrightarrow> list_all (\<lambda>i. ex i = None) [0..<n]"

lemma supplyAll_accepted:
  "snd (supplyAll ex i ps) = None \<longleftrightarrow> (\<forall>k < length ps. ex (i + k) = None)"
proof (induction ps arbitrary: i)
  case (Cons p ps)
  have "(\<forall>k < length (p # ps). ex (i + k) = None) \<longleftrightarrow> ex i = None \<and> (\<forall>k < length ps. ex (Suc i + k) = None)"
    by (simp add: All_less_Suc2)
  then show ?case using Cons.IH [of "Suc i"] by (auto split: option.split prod.split)
qed simp

lemma supplyEach_accepted:
  "snd (supplyEach ex (ps, None)) = None \<longleftrightarrow> accepts ex (length ps)"
  using supplyAll_accepted [of ex 0 ps]
  by (auto simp: supplyEach_def accepts_def list_all_iff split: prod.split option.split)

lemma supplyEach_all: "snd (supplyEach ex (ps, e)) = None \<Longrightarrow> fst (supplyEach ex (ps, e)) = ps \<and> e = None"
  using supplyAll_prefix [of ex 0 ps] by (auto simp: supplyEach_def split: prod.splits option.splits)

lemma supplyEach_prefix: "\<exists>ms. fst (supplyEach ex (ps, e)) @ ms = ps"
  using supplyAll_prefix [of ex 0 ps] by (auto simp: supplyEach_def split: prod.splits)

lemma supplyEach_fails: "snd (supplyEach ex (ps, Some e)) \<noteq> None"
  by (auto simp: supplyEach_def split: prod.splits option.splits)

text \<open>All tasks succeed.\<close>

lemma asyncAllOf_find:
  "(\<exists>rs. asyncAllOf fs = Inr rs \<and> List.find statusFailed rs = None) \<longleftrightarrow> list_all (\<lambda>f. f = Inr (StatusSuccess ())) fs"
proof (induction fs)
  case (Cons f fs)
  show ?case
  proof (cases f)
    case (Inr r)
    then show ?thesis using Cons by (cases r) (auto simp: statusFailed_def split: sum.splits)
  qed simp
qed simp

lemma collectResults_success:
  "snd (collectResults fs complete) = StatusSuccess u \<longleftrightarrow>
     list_all (\<lambda>f. f = Inr (StatusSuccess ())) fs \<and> complete = Inr (StatusSuccess u)"
  using asyncAllOf_find [of fs]
  by (auto simp: collectResults_def unhandled_def split: sum.splits option.splits)

lemma collectResults_called: "fst (collectResults fs complete) \<longleftrightarrow> list_all (\<lambda>f. f = Inr (StatusSuccess ())) fs"
  using asyncAllOf_find [of fs] by (auto simp: collectResults_def split: sum.splits option.splits)

lemma streamOf_pos:
  "0 < n \<Longrightarrow> streamFailure st = None \<Longrightarrow> streamOf n st = (chunks (nat n) (streamParts st), None)"
  by (simp add: streamOf_def partitions_chunks)

text \<open>
  (C26) \<open>ParallelSink.transfer\<close> succeeds exactly if the source delivers all its parts and closes, the executor
  takes every partition, every partition is transferred and the completion succeeds. Then the partitions are
  the parts of the source in chunks of the partition size, so that each part was handed over once, in order.
\<close>

theorem parallel_transfer_succeeds:
  "outcome (parallelTransfer sink source) = Inr (StatusSuccess ()) \<longleftrightarrow>
     (\<exists>st. source = Inr st \<and> 0 < partitionSize sink \<and> streamFailure st = None \<and> streamClose st = None \<and>
       accepts (sinkExecutor sink) (length (chunks (nat (partitionSize sink)) (streamParts st))) \<and>
       list_all (\<lambda>ps. transferParts sink ps = Inr (StatusSuccess ())) (chunks (nat (partitionSize sink)) (streamParts st)) \<and>
       completeSink sink = Inr (StatusSuccess ()) \<and>
       handedOver (parallelTransfer sink source) = chunks (nat (partitionSize sink)) (streamParts st) \<and>
       concat (handedOver (parallelTransfer sink source)) = streamParts st \<and>
       completeCalled (parallelTransfer sink source))"
proof (cases source)
  case (Inl e)
  then show ?thesis
    by (auto simp: parallelTransfer_def processingError_def dest: catchException_Inl)
next
  case (Inr st)
  let ?run = "streamOf (partitionSize sink) st"
  let ?each = "supplyEach (sinkExecutor sink) ?run"
  show ?thesis
  proof (cases "snd ?each")
    case (Some e)
    have "streamFailure st = None \<and> 0 < partitionSize sink \<Longrightarrow>
        \<not> accepts (sinkExecutor sink) (length (chunks (nat (partitionSize sink)) (streamParts st)))"
      using Some supplyEach_accepted [of "sinkExecutor sink" "chunks (nat (partitionSize sink)) (streamParts st)"]
      by (auto simp: streamOf_pos)
    then show ?thesis using Inr Some
      by (auto simp: parallelTransfer_def processingError_def split: prod.splits dest: catchException_Inl)
  next
    case None
    then have all: "fst ?each = fst ?run" "snd ?run = None"
      using supplyEach_all [of "sinkExecutor sink" "fst ?run" "snd ?run"] by auto
    have ok: "0 < partitionSize sink \<and> streamFailure st = None"
    proof (cases "streamFailure st")
      case (Some e)
      then show ?thesis
        using all(2) by (auto simp: streamOf_def partitions_failure_snd split: if_splits)
    qed (use all(2) in \<open>auto simp: streamOf_def split: if_splits\<close>)
    then have run: "?run = (chunks (nat (partitionSize sink)) (streamParts st), None)" by (simp add: streamOf_pos)
    have acc: "accepts (sinkExecutor sink) (length (chunks (nat (partitionSize sink)) (streamParts st)))"
      using None supplyEach_accepted [of "sinkExecutor sink" "fst ?run"] by (simp add: run)
    let ?col = "collectResults (map (transferParts sink) (fst ?run)) (completeSink sink)"
    have P: "parallelTransfer sink source =
        (case streamClose st of
           Some e \<Rightarrow> \<lparr>handedOver = fst ?run, completeCalled = fst ?col, outcome = catchException (Inl e) (\<lambda>_. processingError)\<rparr>
         | None \<Rightarrow> \<lparr>handedOver = fst ?run, completeCalled = fst ?col, outcome = Inr (snd ?col)\<rparr>)"
      using Inr None all by (simp add: parallelTransfer_def split_beta Let_def split: option.split)
    show ?thesis
    proof (cases "streamClose st")
      case (Some e)
      then have "outcome (parallelTransfer sink source) \<noteq> Inr (StatusSuccess ())"
        by (auto simp: P processingError_def dest: catchException_Inl)
      then show ?thesis using Inr Some by auto
    next
      case None
      then have P': "parallelTransfer sink (Inr st) = \<lparr>handedOver = fst ?run, completeCalled = fst ?col, outcome = Inr (snd ?col)\<rparr>"
        using P Inr by simp
      show ?thesis using Inr None ok acc
        by (simp add: P' run collectResults_success collectResults_called concat_chunks list_all_iff) blast
    qed
  qed
qed

text \<open>
  A source that throws has still had the partitions before handed over, to tasks that run; only parts of the
  last partition, or a whole one that was complete, never reach the sink. \<open>complete\<close> is not called.
\<close>

lemma parallel_transfer_source_fails:
  assumes "streamFailure st = Some e" "0 < partitionSize sink" "\<forall>m. e \<noteq> JavaError m"
    "\<And>i. sinkExecutor sink i = None"
  obtains lost where "concat (handedOver (parallelTransfer sink (Inr st))) @ lost = streamParts st"
    "length lost \<le> nat (partitionSize sink)" "streamParts st = [] \<or> lost \<noteq> []"
    "outcome (parallelTransfer sink (Inr st)) = Inr processingError" "\<not> completeCalled (parallelTransfer sink (Inr st))"
proof -
  let ?run = "partitions (nat (partitionSize sink)) (Some e) (streamParts st)"
  have run: "streamOf (partitionSize sink) st = ?run" using assms(1,2) by (simp add: streamOf_def)
  have "snd ?run = Some e" using assms(2) by (simp add: partitions_failure_snd)
  then have "supplyEach (sinkExecutor sink) ?run = (fst ?run, Some e)"
    using supplyAll_accepted [of "sinkExecutor sink" 0 "fst ?run"] supplyAll_prefix [of "sinkExecutor sink" 0 "fst ?run"]
      assms(4) by (auto simp: supplyEach_def split: prod.splits option.splits)
  moreover have "catchException (Inl e) (\<lambda>_. processingError) = Inr processingError"
    using assms(3) by (cases e) (simp_all add: catchException_def)
  ultimately have "parallelTransfer sink (Inr st) =
      \<lparr>handedOver = fst ?run, completeCalled = False, outcome = Inr processingError\<rparr>"
    by (simp add: parallelTransfer_def run split_beta Let_def)
  with partitions_failure [of "nat (partitionSize sink)" e "streamParts st"] assms(2) that show ?thesis by auto
qed

section \<open>OutputStreamDataSink\<close>

text \<open>
  A part: opening it throws, or gives what is written to the output piece by piece until the input ends or
  reading, writing or closing throws.
\<close>

record 'c dataPart =
  partName :: string
  partSize :: int
  openStream :: "java_exn + 'c list \<times> java_exn option"

definition writtenBy :: "'c dataPart \<Rightarrow> 'c list" where
  "writtenBy part = (case openStream part of Inl e \<Rightarrow> [] | Inr (written, _) \<Rightarrow> written)"

definition transferData :: "'c dataPart \<Rightarrow> java_exn + unit result" where
  "transferData part =
     catchException
       (case openStream part of
          Inl e \<Rightarrow> Inl e
        | Inr (_, None) \<Rightarrow> Inr (Success ())
        | Inr (_, Some e) \<Rightarrow> Inl e)
       (\<lambda>_. Failure [''Error writing data''])"

text \<open>
  The parts that were handed over, and what \<open>transfer\<close> threw or its future completes with; there is no handler
  of what a task throws.
\<close>

definition outputStreamTransfer ::
  "executor \<Rightarrow> 'c dataPart dataSource \<Rightarrow> 'c dataPart list \<times> (java_exn + (java_exn + unit statusResult))" where
  "outputStreamTransfer ex source =
     (case source of
        Inl e \<Rightarrow> ([], catchException (Inl e) (\<lambda>_. Inr processingError))
      | Inr st \<Rightarrow>
          (let (parts, thrown) = supplyEach ex (streamParts st, streamFailure st)
           in case (thrown, streamClose st) of
                (Some e, _) \<Rightarrow> (parts, catchException (Inl e) (\<lambda>_. Inr processingError))
              | (None, Some e) \<Rightarrow> (parts, catchException (Inl e) (\<lambda>_. Inr processingError))
              | (None, None) \<Rightarrow>
                  (parts, Inr (orThrow (asyncAllOf (map transferData parts)) (\<lambda>results.
                     Inr (if list_ex failed results then StatusFailure ERROR_RETRY [''Error transferring data'']
                          else StatusSuccess ()))))))"

text \<open>\<open>InputStreamDataSource\<close> is a source and its only part.\<close>

definition inputStreamDataSource ::
  "string \<Rightarrow> 'c list \<times> java_exn option \<Rightarrow> 'c dataPart dataSource" where
  "inputStreamDataSource name stream =
     Inr \<lparr>streamParts = [\<lparr>partName = name, partSize = - 1, openStream = Inr stream\<rparr>],
          streamFailure = None, streamClose = None\<rparr>"

text \<open>
  The output of tasks that run at once: a schedule says whose next piece is written. The tasks write to the
  same stream, and nothing keeps the pieces of a part together.
\<close>

fun interleave :: "nat list \<Rightarrow> 'c list list \<Rightarrow> 'c list" where
  "interleave [] runs = []"
| "interleave (i # is) runs =
     (if i < length runs \<and> runs ! i \<noteq> []
      then hd (runs ! i) # interleave is (runs[i := tl (runs ! i)])
      else interleave is runs)"

fun remaining :: "nat list \<Rightarrow> 'c list list \<Rightarrow> 'c list list" where
  "remaining [] runs = runs"
| "remaining (i # is) runs =
     (if i < length runs \<and> runs ! i \<noteq> [] then remaining is (runs[i := tl (runs ! i)]) else remaining is runs)"

text \<open>The schedules that run every task to its end.\<close>

definition finishes :: "nat list \<Rightarrow> 'c list list \<Rightarrow> bool" where
  "finishes sched runs \<longleftrightarrow> list_all (\<lambda>r. r = []) (remaining sched runs)"

text \<open>
  What an output made of the pieces of several parts is: every piece has an owner, and the pieces of each owner,
  in the order of the output, are those of its part.
\<close>

definition mixture :: "'c list list \<Rightarrow> 'c list \<Rightarrow> bool" where
  "mixture runs out \<longleftrightarrow>
     (\<exists>owners. length owners = length out \<and> set owners \<subseteq> {..<length runs} \<and>
        (\<forall>i < length runs. map fst (filter (\<lambda>xj. snd xj = i) (zip out owners)) = runs ! i))"

lemma owned_step:
  assumes "i < length runs" "runs ! i = x # r"
  shows "(\<forall>k < length runs. map fst (filter (\<lambda>xj. snd xj = k) (zip (x # out) (i # owners))) = runs ! k) \<longleftrightarrow>
    (\<forall>k < length runs. map fst (filter (\<lambda>xj. snd xj = k) (zip out owners)) = runs[i := r] ! k)"
  using assms by (auto simp: nth_list_update)

lemma interleave_mixture: "finishes sched runs \<Longrightarrow> mixture runs (interleave sched runs)"
proof (induction sched runs rule: interleave.induct)
  case (1 runs)
  then have "runs ! i = []" if "i < length runs" for i using that by (simp add: finishes_def list_all_length)
  then show ?case by (simp add: mixture_def)
next
  case (2 i sched runs)
  show ?case
  proof (cases "i < length runs \<and> runs ! i \<noteq> []")
    case True
    then obtain x r where run: "runs ! i = x # r" by (meson neq_Nil_conv)
    have "finishes sched (runs[i := r])" using "2.prems" True by (simp add: finishes_def run)
    then have "mixture (runs[i := r]) (interleave sched (runs[i := r]))" using "2.IH"(1) True by (simp add: run)
    then obtain owners where "length owners = length (interleave sched (runs[i := r]))"
      "set owners \<subseteq> {..<length runs}"
      "\<forall>k < length runs. map fst (filter (\<lambda>xj. snd xj = k) (zip (interleave sched (runs[i := r])) owners)) = runs[i := r] ! k"
      by (auto simp: mixture_def)
    then have "mixture runs (x # interleave sched (runs[i := r]))"
      using True owned_step [of i runs x r "interleave sched (runs[i := r])" owners] run
      unfolding mixture_def by (intro exI [of _ "i # owners"]) auto
    then show ?thesis using True by (simp add: run)
  next
    case False
    then have "finishes sched runs" using "2.prems" unfolding finishes_def by (simp only: remaining.simps if_False)
    then show ?thesis using "2.IH"(2) [OF False] False by (simp only: interleave.simps if_False)
  qed
qed

lemma mixture_interleave:
  assumes "length owners = length out" "set owners \<subseteq> {..<length runs}"
    "\<forall>i < length runs. map fst (filter (\<lambda>xj. snd xj = i) (zip out owners)) = runs ! i"
  shows "finishes owners runs \<and> interleave owners runs = out"
  using assms
proof (induction out owners arbitrary: runs rule: list_induct2')
  case 1
  then show ?case by (auto simp: finishes_def list_all_length)
next
  case (4 x out i owners)
  have i: "i < length runs" using "4.prems"(2) by simp
  then have "runs ! i = x # map fst (filter (\<lambda>xj. snd xj = i) (zip out owners))" using "4.prems"(3) by fastforce
  then obtain r where run: "runs ! i = x # r" by simp
  have "finishes owners (runs[i := r]) \<and> interleave owners (runs[i := r]) = out"
    using "4.prems" owned_step [OF i run, of out owners] by (intro "4.IH") simp_all
  then show ?case using i run by (simp add: finishes_def)
qed simp_all

text \<open>So the outputs of the schedules that run every task to its end are exactly the mixtures.\<close>

lemma outputs_mixtures:
  "(\<exists>sched. finishes sched runs \<and> out = interleave sched runs) \<longleftrightarrow> mixture runs out"
proof
  assume "\<exists>sched. finishes sched runs \<and> out = interleave sched runs"
  then show "mixture runs out" by (auto intro: interleave_mixture)
next
  assume "mixture runs out"
  then obtain owners where owners: "length owners = length out" "set owners \<subseteq> {..<length runs}"
    "\<forall>i < length runs. map fst (filter (\<lambda>xj. snd xj = i) (zip out owners)) = runs ! i"
    by (auto simp: mixture_def)
  from mixture_interleave [OF this] show "\<exists>sched. finishes sched runs \<and> out = interleave sched runs" by metis
qed

lemma mixture_single: "mixture [r] out \<longleftrightarrow> out = r"
proof
  assume "mixture [r] out"
  then obtain owners where o': "length owners = length out" "set owners \<subseteq> {0::nat}"
    "map fst (filter (\<lambda>xj. snd xj = 0) (zip out owners)) = r" by (auto simp: mixture_def lessThan_Suc)
  then have "filter (\<lambda>xj. snd xj = 0) (zip out owners) = zip out owners"
    by (intro filter_True) (auto dest: set_zip_rightD)
  with o' show "out = r" by simp
next
  assume "out = r"
  then show "mixture [r] out"
    unfolding mixture_def by (intro exI [of _ "replicate (length r) 0"]) (auto simp: zip_replicate2 comp_def filter_map)
qed

section \<open>What a stream sink promises\<close>

text \<open>What opening, reading or writing a part throws.\<close>

definition partFailure :: "'c dataPart \<Rightarrow> java_exn option" where
  "partFailure p = (case openStream p of Inl e \<Rightarrow> Some e | Inr (written, r) \<Rightarrow> r)"

lemma transferData_cases:
  "transferData p =
     (case partFailure p of
        None \<Rightarrow> Inr (Success ())
      | Some (JavaError m) \<Rightarrow> Inl (JavaError m)
      | Some e \<Rightarrow> Inr (Failure [''Error writing data'']))"
  by (auto simp: transferData_def partFailure_def catchException_def split: sum.splits option.splits java_exn.splits)

lemma transferData_all:
  "case asyncAllOf (map transferData ps) of
     Inl e \<Rightarrow> \<exists>p \<in> set ps. \<exists>m. partFailure p = Some (JavaError m) \<and> e = JavaError m
   | Inr rs \<Rightarrow> (\<forall>p \<in> set ps. \<forall>m. partFailure p \<noteq> Some (JavaError m)) \<and>
       (list_ex failed rs \<longleftrightarrow> (\<exists>p \<in> set ps. partFailure p \<noteq> None))"
proof (induction ps)
  case (Cons p ps)
  then show ?case
    by (auto simp: transferData_cases failed_def split: sum.splits option.splits java_exn.splits)
qed simp

text \<open>The number of tasks that the executor takes.\<close>

definition takenTasks :: "executor \<Rightarrow> 'p list \<Rightarrow> nat" where
  "takenTasks ex ps = length (takeWhile (\<lambda>i. ex i = None) [0..<length ps])"

lemma supplyAll_taken:
  "supplyAll ex i ps =
     (let m = length (takeWhile (\<lambda>k. ex k = None) [i..<i + length ps])
      in (take m ps, if m < length ps then ex (i + m) else None))"
proof (induction ps arbitrary: i)
  case (Cons p ps)
  have "[i..<i + length (p # ps)] = i # [Suc i..<Suc i + length ps]" by (simp add: upt_conv_Cons del: upt_Suc)
  then show ?case using Cons.IH [of "Suc i"] by (auto simp: Let_def split: option.split)
qed simp

lemma supplyEach_taken:
  "supplyEach ex (ps, failure) =
     (take (takenTasks ex ps) ps,
      if takenTasks ex ps < length ps then ex (takenTasks ex ps) else failure)"
proof -
  have "ex (takenTasks ex ps) \<noteq> None" if "takenTasks ex ps < length ps"
    using that nth_length_takeWhile [of "\<lambda>i. ex i = None" "[0..<length ps]"] by (simp add: takenTasks_def)
  then show ?thesis
    by (auto simp: supplyEach_def supplyAll_taken takenTasks_def Let_def split: option.split)
qed

text \<open>
  (C27) What \<open>OutputStreamDataSink.transfer\<close> answers and has written, on every branch. The parts before the
  first one that the executor rejects are handed over. What the source throws when it is opened, what the
  executor, the traversal or the close throws, in this order, is answered by a failure, unless it is an error,
  which passes. Else the future fails with an error that a part has thrown, if one has; it succeeds if every
  part is opened and read to its end, and is a failure if some part throws. On all these branches, the outputs
  that the schedules of the tasks can leave are exactly those made of the pieces of the parts handed over
  that were read, each once and those of a part in their order: with one part its pieces in order, with
  several any mixture of them.
\<close>

theorem output_stream_transfer:
  assumes "outputStreamTransfer ex source = (parts, answer)"
  shows "(case source of
      Inl e \<Rightarrow> parts = [] \<and> answer = (case e of JavaError m \<Rightarrow> Inl e | _ \<Rightarrow> Inr (Inr processingError))
    | Inr st \<Rightarrow>
        parts = take (takenTasks ex (streamParts st)) (streamParts st) \<and>
        (case (if length parts < length (streamParts st) then ex (length parts)
               else if streamFailure st \<noteq> None then streamFailure st else streamClose st) of
           Some e \<Rightarrow> answer = (case e of JavaError m \<Rightarrow> Inl e | _ \<Rightarrow> Inr (Inr processingError))
         | None \<Rightarrow>
             if \<exists>p \<in> set parts. \<exists>m. partFailure p = Some (JavaError m)
             then \<exists>p \<in> set parts. \<exists>m. partFailure p = Some (JavaError m) \<and> answer = Inr (Inl (JavaError m))
             else answer = Inr (Inr (if \<exists>p \<in> set parts. partFailure p \<noteq> None
                                     then StatusFailure ERROR_RETRY [''Error transferring data'']
                                     else StatusSuccess ())))) \<and>
    ((\<exists>sched. finishes sched (map writtenBy parts) \<and> out = interleave sched (map writtenBy parts)) \<longleftrightarrow>
      mixture (map writtenBy parts) out) \<and>
    (\<forall>p. parts = [p] \<longrightarrow> (mixture (map writtenBy parts) out \<longleftrightarrow> out = writtenBy p))"
proof -
  have caught: "catchException (Inl e) (\<lambda>_. Inr processingError) =
      (case e of JavaError m \<Rightarrow> Inl e | _ \<Rightarrow> Inr (Inr processingError))" for e
    by (cases e) (simp_all add: catchException_def)
  show ?thesis
  proof (cases source)
    case (Inl e)
    then show ?thesis using assms by (auto simp: outputStreamTransfer_def caught outputs_mixtures mixture_single)
  next
    case (Inr st)
    let ?m = "takenTasks ex (streamParts st)"
    have le: "?m \<le> length (streamParts st)"
      using length_takeWhile_le [of "\<lambda>i. ex i = None" "[0..<length (streamParts st)]"] by (simp add: takenTasks_def)
    have parts: "parts = take ?m (streamParts st)"
      using assms Inr by (auto simp: outputStreamTransfer_def supplyEach_taken Let_def split: option.splits)
    with le have m: "length parts = ?m" by simp
    have rejected: "ex ?m \<noteq> None" if "?m < length (streamParts st)"
      using that nth_length_takeWhile [of "\<lambda>i. ex i = None" "[0..<length (streamParts st)]"] by (simp add: takenTasks_def)
    have "answer =
        (case (if length parts < length (streamParts st) then ex (length parts)
               else if streamFailure st \<noteq> None then streamFailure st else streamClose st) of
           Some e \<Rightarrow> (case e of JavaError m \<Rightarrow> Inl e | _ \<Rightarrow> Inr (Inr processingError))
         | None \<Rightarrow> Inr (orThrow (asyncAllOf (map transferData parts)) (\<lambda>results.
             Inr (if list_ex failed results then StatusFailure ERROR_RETRY [''Error transferring data''] else StatusSuccess ()))))"
      unfolding m using assms Inr rejected
      by (auto simp: outputStreamTransfer_def supplyEach_taken Let_def caught parts split: option.splits if_splits)
    then show ?thesis using transferData_all [of parts] parts
      by (auto simp: Inr outputs_mixtures mixture_single split: option.splits sum.splits)
  qed
qed

text \<open>Two parts: a schedule that mixes them; and the second one throws after its first piece.\<close>

definition example_parts :: "java_exn option \<Rightarrow> string dataPart list" where
  "example_parts thrown =
     [\<lparr>partName = ''a'', partSize = - 1, openStream = Inr ([''a1'', ''a2''], None)\<rparr>,
      \<lparr>partName = ''b'', partSize = - 1, openStream = Inr ([''b1''], thrown)\<rparr>]"

theorem output_stream_transfer_witness:
  "mixture [[''a1'', ''a2''], [''b1'']] [''a1'', ''b1'', ''a2''] \<and>
   snd (outputStreamTransfer (\<lambda>_. None) (Inr \<lparr>streamParts = example_parts (Some (EdcException ''disk'')),
     streamFailure = None, streamClose = None\<rparr>)) = Inr (Inr (StatusFailure ERROR_RETRY [''Error transferring data'']))"
proof -
  let ?source = "\<lambda>r. Inr \<lparr>streamParts = example_parts r, streamFailure = None, streamClose = None\<rparr>"
  have run: "outputStreamTransfer (\<lambda>_. None) (?source r) = (example_parts r, snd (outputStreamTransfer (\<lambda>_. None) (?source r)))" for r
    by (simp add: outputStreamTransfer_def supplyEach_def example_parts_def Let_def)
  have runs: "map writtenBy (example_parts r) = [[''a1'', ''a2''], [''b1'']]" for r
    by (simp add: example_parts_def writtenBy_def)
  have "finishes [0, 1, 0] [[''a1'', ''a2''], [''b1'']] \<and>
      [''a1'', ''b1'', ''a2''] = interleave [0, 1, 0] [[''a1'', ''a2''], [''b1'']]" by (simp add: finishes_def)
  then have "mixture [[''a1'', ''a2''], [''b1'']] [''a1'', ''b1'', ''a2'']"
    using output_stream_transfer [OF run [of None], of "[''a1'', ''b1'', ''a2'']"] unfolding runs by blast
  moreover have "snd (outputStreamTransfer (\<lambda>_. None) (?source (Some (EdcException ''disk'')))) =
      Inr (Inr (StatusFailure ERROR_RETRY [''Error transferring data'']))"
    using output_stream_transfer [OF run [of "Some (EdcException ''disk'')"]]
    by (simp add: example_parts_def partFailure_def)
  ultimately show ?thesis by simp
qed

end
