(* ===== verification/Data_Plane_Pipeline.thy ===== *)
theory Data_Plane_Pipeline
  imports Data_Plane_Sinks
begin

text \<open>
  How the data plane chooses who moves the data: \<open>PipelineServiceImpl\<close> with its factories,
  \<open>PipelineServiceTransferServiceImpl\<close>, \<open>TransferServiceRegistryImpl\<close> with the default strategy, and
  \<open>OutputStreamDataSinkFactory\<close>. Factories, sources and sinks are extensions, given by what they answer;
  \<open>'src\<close> is what a source factory creates.
\<close>

section \<open>Requests and futures\<close>

record dataFlowRequest =
  flowId :: "string option"
  flowProcessId :: string
  sourceDataAddress :: dataAddress
  destinationDataAddress :: dataAddress
  isTrackable :: bool
  flowProperties :: "string jmap"
  traceContext :: "string jmap"

text \<open>A future when it is handed out: completed, normally or with an exception, or not yet.\<close>

datatype flowFuture = Done "java_exn + unit statusResult" | Pending

text \<open>A reference in a concatenation or as an argument of \<open>format\<close>.\<close>

definition shown :: "string option \<Rightarrow> string" where
  "shown x = (case x of None \<Rightarrow> ''null'' | Some s \<Rightarrow> s)"

text \<open>\<open>filter\<close> by a predicate that may throw, and \<open>findFirst\<close>.\<close>

primrec firstHandling :: "('a \<Rightarrow> java_exn + bool) \<Rightarrow> 'a list \<Rightarrow> java_exn + 'a option" where
  "firstHandling h [] = Inr None"
| "firstHandling h (x # xs) =
     (case h x of Inl e \<Rightarrow> Inl e | Inr b \<Rightarrow> if b then Inr (Some x) else firstHandling h xs)"

lemma firstHandling_append:
  "firstHandling h xs = Inr (Some x) \<Longrightarrow> firstHandling h (xs @ ys) = Inr (Some x)"
  by (induction xs) (auto split: sum.splits)

section \<open>PipelineServiceImpl\<close>

record 'src dataSourceFactory =
  handlesSource :: "dataFlowRequest \<Rightarrow> java_exn + bool"
  validateSource :: "dataFlowRequest \<Rightarrow> java_exn + bool result"
  createSource :: "dataFlowRequest \<Rightarrow> java_exn + 'src"

type_synonym 'src dataSink = "'src \<Rightarrow> java_exn + flowFuture"

record 'src dataSinkFactory =
  handlesSink :: "dataFlowRequest \<Rightarrow> java_exn + bool"
  validateSink :: "dataFlowRequest \<Rightarrow> java_exn + bool result"
  createSink :: "dataFlowRequest \<Rightarrow> java_exn + 'src dataSink"

record 'src pipelineService =
  sourceFactories :: "'src dataSourceFactory list"
  sinkFactories :: "'src dataSinkFactory list"

definition registerSourceFactory :: "'src dataSourceFactory \<Rightarrow> 'src pipelineService \<Rightarrow> 'src pipelineService" where
  "registerSourceFactory f p = p\<lparr>sourceFactories := sourceFactories p @ [f]\<rparr>"

definition registerSinkFactory :: "'src dataSinkFactory \<Rightarrow> 'src pipelineService \<Rightarrow> 'src pipelineService" where
  "registerSinkFactory f p = p\<lparr>sinkFactories := sinkFactories p @ [f]\<rparr>"

definition getSourceFactory ::
  "'src pipelineService \<Rightarrow> dataFlowRequest \<Rightarrow> java_exn + 'src dataSourceFactory option" where
  "getSourceFactory p request = firstHandling (\<lambda>s. handlesSource s request) (sourceFactories p)"

definition getSinkFactory ::
  "'src pipelineService \<Rightarrow> dataFlowRequest \<Rightarrow> java_exn + 'src dataSinkFactory option" where
  "getSinkFactory p request = firstHandling (\<lambda>s. handlesSink s request) (sinkFactories p)"

definition pipeline_canHandle :: "'src pipelineService \<Rightarrow> dataFlowRequest \<Rightarrow> java_exn + bool" where
  "pipeline_canHandle p request =
     orThrow (getSourceFactory p request) (\<lambda>source.
       case source of
         None \<Rightarrow> Inr False
       | Some _ \<Rightarrow> orThrow (getSinkFactory p request) (\<lambda>sink.
           case sink of None \<Rightarrow> Inr False | Some _ \<Rightarrow> Inr True))"

definition pipeline_validate :: "'src pipelineService \<Rightarrow> dataFlowRequest \<Rightarrow> java_exn + bool result" where
  "pipeline_validate p request =
     orThrow (getSourceFactory p request) (\<lambda>source.
       case source of
         None \<Rightarrow> Inr (Failure [''Data source not supported for: '' @ shown (flowId request)])
       | Some sourceFactory \<Rightarrow>
           orThrow (validateSource sourceFactory request) (\<lambda>sourceValidation.
             case sourceValidation of
               Failure ms \<Rightarrow> Inr (Failure ms)
             | Success _ \<Rightarrow>
                 orThrow (getSinkFactory p request) (\<lambda>sink.
                   case sink of
                     None \<Rightarrow> Inr (Failure [''Data sink not supported for: '' @ shown (flowId request)])
                   | Some sinkFactory \<Rightarrow>
                       orThrow (validateSink sinkFactory request) (\<lambda>sinkValidation.
                         case sinkValidation of
                           Failure ms \<Rightarrow> Inr (Failure ms)
                         | Success _ \<Rightarrow> Inr (Success True)))))"

definition noSourceFactory :: "dataFlowRequest \<Rightarrow> flowFuture" where
  "noSourceFactory request =
     Done (Inr (StatusFailure FATAL_ERROR
       [''Unknown data source type: '' @ shown (getType (sourceDataAddress request))]))"

definition noSinkFactory :: "dataFlowRequest \<Rightarrow> flowFuture" where
  "noSinkFactory request =
     Done (Inr (StatusFailure FATAL_ERROR
       [''Unknown data sink type: '' @ shown (getType (destinationDataAddress request))]))"

definition pipeline_transfer :: "'src pipelineService \<Rightarrow> dataFlowRequest \<Rightarrow> java_exn + flowFuture" where
  "pipeline_transfer p request =
     orThrow (getSourceFactory p request) (\<lambda>sourceFactory.
       case sourceFactory of
         None \<Rightarrow> Inr (noSourceFactory request)
       | Some sf \<Rightarrow>
           orThrow (getSinkFactory p request) (\<lambda>sinkFactory.
             case sinkFactory of
               None \<Rightarrow> Inr (noSinkFactory request)
             | Some kf \<Rightarrow>
                 orThrow (createSource sf request) (\<lambda>source.
                 orThrow (createSink kf request) (\<lambda>sink. sink source))))"

definition pipeline_transferFrom ::
  "'src pipelineService \<Rightarrow> 'src \<Rightarrow> dataFlowRequest \<Rightarrow> java_exn + flowFuture" where
  "pipeline_transferFrom p source request =
     orThrow (getSinkFactory p request) (\<lambda>sinkFactory.
       case sinkFactory of
         None \<Rightarrow> Inr (noSinkFactory request)
       | Some kf \<Rightarrow> orThrow (createSink kf request) (\<lambda>sink. sink source))"

definition pipeline_transferTo ::
  "'src pipelineService \<Rightarrow> 'src dataSink \<Rightarrow> dataFlowRequest \<Rightarrow> java_exn + flowFuture" where
  "pipeline_transferTo p sink request =
     orThrow (getSourceFactory p request) (\<lambda>sourceFactory.
       case sourceFactory of
         None \<Rightarrow> Inr (noSourceFactory request)
       | Some sf \<Rightarrow> orThrow (createSource sf request) (\<lambda>source. sink source))"

section \<open>OutputStreamDataSinkFactory\<close>

definition outputStream_handles :: "dataFlowRequest \<Rightarrow> bool" where
  "outputStream_handles request \<longleftrightarrow> getType (destinationDataAddress request) = Some ''OutputStream''"

definition outputStreamDataSinkFactory :: "'src dataSinkFactory" where
  "outputStreamDataSinkFactory =
     \<lparr>handlesSink = (\<lambda>request. Inr (outputStream_handles request)),
      validateSink = (\<lambda>request. Inr
        (if outputStream_handles request then Success True
         else Failure [''OutputStreamDataSinkFactory: Cannot handle destination data address with type: '' @
                       shown (getType (destinationDataAddress request))])),
      createSink = (\<lambda>request. Inr (\<lambda>source. Inr (Done (Inr (StatusSuccess ())))))\<rparr>"

section \<open>Transfer services\<close>

text \<open>The set of services knows its members by their identity.\<close>

record transferService =
  serviceRef :: nat
  serviceHandles :: "dataFlowRequest \<Rightarrow> java_exn + bool"
  serviceValidate :: "dataFlowRequest \<Rightarrow> java_exn + bool result"
  serviceTransfer :: "dataFlowRequest \<Rightarrow> java_exn + flowFuture"

definition pipelineServiceTransferService :: "nat \<Rightarrow> 'src pipelineService \<Rightarrow> transferService" where
  "pipelineServiceTransferService ref p =
     \<lparr>serviceRef = ref, serviceHandles = pipeline_canHandle p, serviceValidate = pipeline_validate p,
      serviceTransfer = pipeline_transfer p\<rparr>"

definition registerTransferService :: "transferService \<Rightarrow> transferService list \<Rightarrow> transferService list" where
  "registerTransferService s services =
     (if List.member (map serviceRef services) (serviceRef s) then services else services @ [s])"

definition resolveTransferService ::
  "transferService list \<Rightarrow> dataFlowRequest \<Rightarrow> java_exn + transferService option" where
  "resolveTransferService services request = firstHandling (\<lambda>s. serviceHandles s request) services"

text \<open>\<open>DataPlaneManagerImpl.validate\<close>.\<close>

definition manager_validate :: "transferService list \<Rightarrow> dataFlowRequest \<Rightarrow> java_exn + bool result" where
  "manager_validate services request =
     orThrow (resolveTransferService services request) (\<lambda>transferService.
       case transferService of
         Some s \<Rightarrow> serviceValidate s request
       | None \<Rightarrow> Inr (Failure [''Cannot find a transfer Service that can handle '' @
           shown (getType (sourceDataAddress request)) @ '' source and '' @
           shown (getType (destinationDataAddress request)) @ '' destination'']))"

text \<open>What \<open>DataPlaneFrameworkExtension.initialize\<close> registers.\<close>

definition frameworkPipeline :: "'src pipelineService" where
  "frameworkPipeline = registerSinkFactory outputStreamDataSinkFactory \<lparr>sourceFactories = [], sinkFactories = []\<rparr>"

section \<open>What validation promises\<close>

lemma registered_sources:
  "getSourceFactory p r = Inr (Some f) \<Longrightarrow> getSourceFactory (registerSourceFactory g p) r = Inr (Some f)"
  "getSourceFactory (registerSinkFactory k p) r = getSourceFactory p r"
  by (simp_all add: getSourceFactory_def registerSourceFactory_def registerSinkFactory_def firstHandling_append)

lemma registered_sinks:
  "getSinkFactory p r = Inr (Some f) \<Longrightarrow> getSinkFactory (registerSinkFactory g p) r = Inr (Some f)"
  "getSinkFactory (registerSourceFactory k p) r = getSinkFactory p r"
  by (simp_all add: getSinkFactory_def registerSourceFactory_def registerSinkFactory_def firstHandling_append)

definition registerAll ::
  "'src dataSourceFactory list \<Rightarrow> 'src dataSinkFactory list \<Rightarrow> 'src pipelineService \<Rightarrow> 'src pipelineService" where
  "registerAll sfs kfs p = fold registerSinkFactory kfs (fold registerSourceFactory sfs p)"

lemma getSourceFactory_registerAll:
  assumes "getSourceFactory p r = Inr (Some f)"
  shows "getSourceFactory (registerAll sfs kfs p) r = Inr (Some f)"
proof -
  have "getSourceFactory (fold registerSourceFactory sfs p) r = Inr (Some f)"
    using assms by (induction sfs arbitrary: p) (simp_all add: registered_sources)
  moreover have "getSourceFactory (fold registerSinkFactory kfs q) r = getSourceFactory q r" for q
    by (induction kfs arbitrary: q) (simp_all add: registered_sources)
  ultimately show ?thesis by (simp add: registerAll_def)
qed

lemma getSinkFactory_registerAll:
  assumes "getSinkFactory p r = Inr (Some f)"
  shows "getSinkFactory (registerAll sfs kfs p) r = Inr (Some f)"
proof -
  have "getSinkFactory (fold registerSourceFactory sfs p) r = Inr (Some f)"
    using assms by (induction sfs arbitrary: p) (simp_all add: registered_sinks)
  moreover have "getSinkFactory (fold registerSinkFactory kfs q) r = Inr (Some f)"
    if "getSinkFactory q r = Inr (Some f)" for q
    using that by (induction kfs arbitrary: q) (simp_all add: registered_sinks)
  ultimately show ?thesis by (simp add: registerAll_def)
qed

lemma pipeline_validate_success:
  assumes "pipeline_validate p request = Inr (Success b)"
  obtains sf kf vs vk where "getSourceFactory p request = Inr (Some sf)" "getSinkFactory p request = Inr (Some kf)"
    "validateSource sf request = Inr (Success vs)" "validateSink kf request = Inr (Success vk)"
proof -
  from assms obtain sf vs where s: "getSourceFactory p request = Inr (Some sf)"
    "validateSource sf request = Inr (Success vs)"
    by (auto simp: pipeline_validate_def orThrow_def split: sum.splits option.splits result.splits)
  with assms obtain kf vk where "getSinkFactory p request = Inr (Some kf)" "validateSink kf request = Inr (Success vk)"
    by (auto simp: pipeline_validate_def orThrow_def split: sum.splits option.splits result.splits)
  with s that show ?thesis by blast
qed

text \<open>
  A request the pipeline has validated is transferred, by the first factories that can handle its
  source and its destination, also when further factories have been registered in between: the transfer
  is the sink's own answer for the source, never a failure for an unknown type.
\<close>

theorem validated_transfer:
  assumes "pipeline_validate p request = Inr (Success b)"
  shows "\<exists>sf kf. getSourceFactory p request = Inr (Some sf) \<and> getSinkFactory p request = Inr (Some kf) \<and>
    pipeline_canHandle (registerAll sfs kfs p) request = Inr True \<and>
    pipeline_transfer (registerAll sfs kfs p) request =
      orThrow (createSource sf request) (\<lambda>source. orThrow (createSink kf request) (\<lambda>sink. sink source))"
proof -
  obtain sf kf where f: "getSourceFactory p request = Inr (Some sf)" "getSinkFactory p request = Inr (Some kf)"
    using assms by (rule pipeline_validate_success)
  then show ?thesis
    by (auto simp: pipeline_canHandle_def pipeline_transfer_def getSourceFactory_registerAll getSinkFactory_registerAll)
qed

definition example_sourceFactory :: "string dataSourceFactory" where
  "example_sourceFactory =
     \<lparr>handlesSource = (\<lambda>r. Inr (getType (sourceDataAddress r) = Some ''HttpData'')),
      validateSource = (\<lambda>r. Inr (Success True)), createSource = (\<lambda>r. Inr ''data'')\<rparr>"

definition example_flow :: dataFlowRequest where
  "example_flow =
     \<lparr>flowId = Some ''1'', flowProcessId = ''p'', sourceDataAddress = [(''type'', ''HttpData'')],
      destinationDataAddress = [(''type'', ''OutputStream'')], isTrackable = True, flowProperties = [],
      traceContext = []\<rparr>"

definition example_pipeline :: "string pipelineService" where
  "example_pipeline = registerSourceFactory example_sourceFactory frameworkPipeline"

lemmas example_pipeline_defs = example_pipeline_def example_flow_def example_sourceFactory_def frameworkPipeline_def
  registerSourceFactory_def registerSinkFactory_def outputStreamDataSinkFactory_def outputStream_handles_def
  getSourceFactory_def getSinkFactory_def getType_def

lemma example_validated: "pipeline_validate example_pipeline example_flow = Inr (Success True)"
  by (simp add: pipeline_validate_def example_pipeline_defs)

theorem validated_transfer_witness:
  "pipeline_canHandle (registerAll [example_sourceFactory] [] example_pipeline) example_flow = Inr True \<and>
   pipeline_transfer (registerAll [example_sourceFactory] [] example_pipeline) example_flow = Inr (Done (Inr (StatusSuccess ())))"
  using validated_transfer [OF example_validated, of "[example_sourceFactory]" "[]"]
  by (auto simp: example_pipeline_defs)

end
