(* ===== verification/Data_Plane_Manager.thy ===== *)
theory Data_Plane_Manager
  imports Data_Plane_Store Data_Plane_Pipeline
begin

text \<open>
  \<open>DataPlaneManagerImpl\<close> of \<open>extensions/data-plane/data-plane-framework\<close>: a bounded queue, the workers that
  take requests from it, and the store of their states. The threads are made of steps: a client adds a request
  and then marks it as received; a worker tests \<open>active\<close>, polls, and processes; a future completes when it
  likes. The transfer services are an argument of each processing step, so what they do may change over time.
\<close>

section \<open>The manager\<close>

datatype worker = AtTest | Polling | Processing dataFlowRequest | Ended

text \<open>
  The queue is null until \<open>start\<close>. \<open>dpAdding\<close> are the requests whose client is between \<open>queue.add\<close> and
  \<open>store.received\<close>, \<open>dpInFlight\<close> those whose future has not completed. The last five fields record what
  happened: the requests accepted, taken by a worker, finished, lost to an error, and the calls of the store.
\<close>

record dataPlaneManager =
  queueCapacity :: int
  workerCount :: int
  dpQueue :: "dataFlowRequest list option"
  dpActive :: bool
  dpInterrupted :: bool
  dpWorkers :: "worker list"
  dpStore :: "flowState lruCache"
  dpAdding :: "dataFlowRequest list"
  dpInFlight :: "dataFlowRequest list"
  dpAccepted :: "dataFlowRequest list"
  dpTaken :: "dataFlowRequest list"
  dpFinished :: "dataFlowRequest list"
  dpLost :: "dataFlowRequest list"
  dpLog :: "storeCall list"

definition newManager :: "int \<Rightarrow> int \<Rightarrow> nat \<Rightarrow> dataPlaneManager" where
  "newManager cap n storeCap =
     \<lparr>queueCapacity = cap, workerCount = n, dpQueue = None, dpActive = False, dpInterrupted = False, dpWorkers = [],
      dpStore = inMemoryDataPlaneStore storeCap, dpAdding = [], dpInFlight = [], dpAccepted = [], dpTaken = [],
      dpFinished = [], dpLost = [], dpLog = []\<rparr>"

text \<open>A call of the store.\<close>

definition callStore :: "storeCall \<Rightarrow> dataPlaneManager \<Rightarrow> dataPlaneManager" where
  "callStore c s = s\<lparr>dpStore := applyCall received completed store_getState c (dpStore s), dpLog := dpLog s @ [c]\<rparr>"

text \<open>
  The constructor of the queue refuses a capacity below 1; that of the pool refuses a size below 1, when the
  queue is in place and the manager active.
\<close>

definition dp_start :: "(dataPlaneManager, unit) op" where
  "dp_start s =
     (if queueCapacity s < 1 then (Inl (IllegalArgumentException []), s)
      else
        (let s' = s\<lparr>dpQueue := Some [], dpActive := True\<rparr>
         in if workerCount s < 1 then (Inl (IllegalArgumentException []), s')
            else (Inr (), s'\<lparr>dpWorkers := replicate (nat (workerCount s)) AtTest\<rparr>)))"

definition dp_stop :: "dataPlaneManager \<Rightarrow> dataPlaneManager" where
  "dp_stop s = s\<lparr>dpActive := False\<rparr>"

definition dp_forceStop :: "dataPlaneManager \<Rightarrow> dataPlaneManager" where
  "dp_forceStop s = s\<lparr>dpActive := False, dpInterrupted := True\<rparr>"

text \<open>\<open>initiateTransfer\<close> up to \<open>queue.add\<close>, which throws if the queue is full; and the rest of it.\<close>

definition dp_add :: "string jmap \<Rightarrow> dataFlowRequest \<Rightarrow> (dataPlaneManager, unit) op" where
  "dp_add trace flowRequest s =
     (let r = flowRequest\<lparr>traceContext := trace\<rparr>
      in case dpQueue s of
           None \<Rightarrow> (Inl (NullPointerException []), s)
         | Some q \<Rightarrow>
             if int (length q) \<ge> queueCapacity s then (Inl (IllegalStateException ''Queue full''), s)
             else (Inr (), s\<lparr>dpQueue := Some (q @ [r]), dpAdding := dpAdding s @ [r], dpAccepted := dpAccepted s @ [r]\<rparr>))"

text \<open>An element taken out of a list by its position.\<close>

definition removeNth :: "nat \<Rightarrow> 'a list \<Rightarrow> 'a list" where
  "removeNth i xs = take i xs @ drop (Suc i) xs"

definition dp_received :: "nat \<Rightarrow> dataPlaneManager \<Rightarrow> dataPlaneManager" where
  "dp_received j s =
     callStore (Received (flowProcessId (dpAdding s ! j))) (s\<lparr>dpAdding := removeNth j (dpAdding s)\<rparr>)"

text \<open>A client that is not overtaken by a worker.\<close>

definition dp_initiateTransfer :: "string jmap \<Rightarrow> dataFlowRequest \<Rightarrow> (dataPlaneManager, unit) op" where
  "dp_initiateTransfer trace flowRequest =
     andThen (dp_add trace flowRequest) (\<lambda>_. modify (\<lambda>s. dp_received (length (dpAdding s) - 1) s))"

definition dp_transferState :: "string \<Rightarrow> (dataPlaneManager, flowState) op" where
  "dp_transferState processId s = (Inr (fst (store_getState processId (dpStore s))), callStore (GetState processId) s)"

section \<open>The workers\<close>

text \<open>The action of \<open>whenComplete\<close>.\<close>

definition dp_whenComplete :: "dataFlowRequest \<Rightarrow> dataPlaneManager \<Rightarrow> dataPlaneManager" where
  "dp_whenComplete request s =
     (let s' = s\<lparr>dpFinished := dpFinished s @ [request]\<rparr>
      in if isTrackable request then callStore (Completed (flowProcessId request)) s' else s')"

definition processDataFlowRequest ::
  "transferService list \<Rightarrow> dataFlowRequest \<Rightarrow> (dataPlaneManager, unit) op" where
  "processDataFlowRequest services request s =
     (case resolveTransferService services request of
        Inl e \<Rightarrow> (Inl e, s)
      | Inr None \<Rightarrow>
          (Inr (), callStore (Completed (flowProcessId request)) (s\<lparr>dpFinished := dpFinished s @ [request]\<rparr>))
      | Inr (Some transferService) \<Rightarrow>
          (case serviceTransfer transferService request of
             Inl e \<Rightarrow> (Inl e, s)
           | Inr (Done _) \<Rightarrow> (Inr (), dp_whenComplete request s)
           | Inr Pending \<Rightarrow> (Inr (), s\<lparr>dpInFlight := dpInFlight s @ [request]\<rparr>)))"

definition setWorker :: "nat \<Rightarrow> worker \<Rightarrow> dataPlaneManager \<Rightarrow> dataPlaneManager" where
  "setWorker i w s = s\<lparr>dpWorkers := (dpWorkers s)[i := w]\<rparr>"

text \<open>
  The body of the loop with a request in hand: an exception completes the request, an error ends the worker,
  which the thread pool does not notice.
\<close>

definition workerProcess ::
  "transferService list \<Rightarrow> nat \<Rightarrow> dataFlowRequest \<Rightarrow> dataPlaneManager \<Rightarrow> dataPlaneManager" where
  "workerProcess services i request s =
     (case processDataFlowRequest services request s of
        (Inr _, s') \<Rightarrow> setWorker i AtTest s'
      | (Inl (JavaError m), s') \<Rightarrow> setWorker i Ended (s'\<lparr>dpLost := dpLost s' @ [request]\<rparr>)
      | (Inl e, s') \<Rightarrow>
          setWorker i AtTest
            (callStore (Completed (flowProcessId request)) (s'\<lparr>dpFinished := dpFinished s' @ [request]\<rparr>)))"

definition workerTest :: "nat \<Rightarrow> dataPlaneManager \<Rightarrow> dataPlaneManager" where
  "workerTest i s = setWorker i (if dpActive s then Polling else Ended) s"

text \<open>
  \<open>poll\<close> throws if the thread has been interrupted; else it gives the first request, or null when it has waited
  in vain.
\<close>

definition workerPoll :: "nat \<Rightarrow> dataPlaneManager \<Rightarrow> dataPlaneManager" where
  "workerPoll i s =
     (if dpInterrupted s then setWorker i Ended (s\<lparr>dpActive := False\<rparr>)
      else case dpQueue s of
             Some (r # q) \<Rightarrow> setWorker i (Processing r) (s\<lparr>dpQueue := Some q, dpTaken := dpTaken s @ [r]\<rparr>)
           | _ \<Rightarrow> setWorker i AtTest s)"

section \<open>The steps of the system\<close>

datatype dpEvent =
    Initiate "string jmap" dataFlowRequest
  | MarkReceived nat
  | TransferState string
  | WorkerStep nat "transferService list"
  | FutureCompletes nat
  | Stop
  | ForceStop

definition workerStep :: "nat \<Rightarrow> transferService list \<Rightarrow> dataPlaneManager \<Rightarrow> dataPlaneManager" where
  "workerStep i services s =
     (if i < length (dpWorkers s) then
        (case dpWorkers s ! i of
           AtTest \<Rightarrow> workerTest i s
         | Polling \<Rightarrow> workerPoll i s
         | Processing r \<Rightarrow> workerProcess services i r s
         | Ended \<Rightarrow> s)
      else s)"

definition futureCompletes :: "nat \<Rightarrow> dataPlaneManager \<Rightarrow> dataPlaneManager" where
  "futureCompletes j s = dp_whenComplete (dpInFlight s ! j) (s\<lparr>dpInFlight := removeNth j (dpInFlight s)\<rparr>)"

primrec dp_event :: "dpEvent \<Rightarrow> dataPlaneManager \<Rightarrow> dataPlaneManager" where
  "dp_event (Initiate trace r) s = snd (dp_add trace r s)"
| "dp_event (MarkReceived j) s = (if j < length (dpAdding s) then dp_received j s else s)"
| "dp_event (TransferState p) s = snd (dp_transferState p s)"
| "dp_event (WorkerStep i services) s = workerStep i services s"
| "dp_event (FutureCompletes j) s = (if j < length (dpInFlight s) then futureCompletes j s else s)"
| "dp_event Stop s = dp_stop s"
| "dp_event ForceStop s = dp_forceStop s"

abbreviation dp_run :: "dpEvent list \<Rightarrow> dataPlaneManager \<Rightarrow> dataPlaneManager" where
  "dp_run es \<equiv> fold dp_event es"

section \<open>The invariant\<close>

definition queued :: "dataPlaneManager \<Rightarrow> dataFlowRequest list" where
  "queued s = (case dpQueue s of None \<Rightarrow> [] | Some q \<Rightarrow> q)"

primrec inHand :: "worker \<Rightarrow> dataFlowRequest multiset" where
  "inHand AtTest = {#}"
| "inHand Polling = {#}"
| "inHand (Processing r) = {#r#}"
| "inHand Ended = {#}"

definition inHands :: "worker list \<Rightarrow> dataFlowRequest multiset" where
  "inHands ws = sum_list (map inHand ws)"

text \<open>The processes the calls of the store marked as received, and as completed.\<close>

definition receivedIds :: "storeCall list \<Rightarrow> string multiset" where
  "receivedIds log = mset (map callKey (filter (\<lambda>c. callWrites c = Some RECEIVED) log))"

definition completedIds :: "storeCall list \<Rightarrow> string multiset" where
  "completedIds log = mset (map callKey (filter (\<lambda>c. callWrites c = Some FLOW_COMPLETED) log))"

definition processIds :: "dataFlowRequest list \<Rightarrow> string multiset" where
  "processIds rs = mset (map flowProcessId rs)"

text \<open>
  Requests leave the queue in the order they entered it; each one taken is in the hands of one worker, in
  flight, finished or lost; the store is what its calls made of it. Each accepted request is marked as received
  once, or will be; each finished one is marked as completed, once if it is trackable.
\<close>

definition dp_ok :: "nat \<Rightarrow> dataPlaneManager \<Rightarrow> bool" where
  "dp_ok n s \<longleftrightarrow>
     dpTaken s @ queued s = dpAccepted s \<and>
     int (length (queued s)) \<le> queueCapacity s \<and>
     mset (dpTaken s) = inHands (dpWorkers s) + mset (dpInFlight s) + mset (dpFinished s) + mset (dpLost s) \<and>
     dpStore s = storeCalls (dpLog s) (inMemoryDataPlaneStore n) \<and>
     receivedIds (dpLog s) + processIds (dpAdding s) = processIds (dpAccepted s) \<and>
     processIds (filter isTrackable (dpFinished s)) \<subseteq># completedIds (dpLog s) \<and>
     completedIds (dpLog s) \<subseteq># processIds (dpFinished s)"

lemma mset_removeNth: "j < length xs \<Longrightarrow> mset xs = add_mset (xs ! j) (mset (removeNth j xs))"
proof -
  assume "j < length xs"
  then have "mset xs = mset (take j xs @ xs ! j # drop (Suc j) xs)" by (simp add: id_take_nth_drop [symmetric])
  then show ?thesis by (simp add: removeNth_def)
qed

lemma inHands_update: "i < length ws \<Longrightarrow> inHands (ws[i := w]) + inHand (ws ! i) = inHands ws + inHand w"
proof (induction ws arbitrary: i)
  case (Cons v ws)
  show ?case
  proof (cases i)
    case (Suc j)
    then show ?thesis using Cons.IH [of j] Cons.prems by (simp add: inHands_def ac_simps)
  qed (simp add: inHands_def ac_simps)
qed simp

lemma ids_simps [simp]:
  "receivedIds (log @ [Received p]) = add_mset p (receivedIds log)"
  "receivedIds (log @ [Completed p]) = receivedIds log"
  "receivedIds (log @ [GetState p]) = receivedIds log"
  "completedIds (log @ [Received p]) = completedIds log"
  "completedIds (log @ [Completed p]) = add_mset p (completedIds log)"
  "completedIds (log @ [GetState p]) = completedIds log"
  "processIds (rs @ [r]) = add_mset (flowProcessId r) (processIds rs)"
  "processIds [] = {#}"
  by (simp_all add: receivedIds_def completedIds_def processIds_def)

lemma processIds_removeNth:
  "j < length rs \<Longrightarrow> processIds rs = add_mset (flowProcessId (rs ! j)) (processIds (removeNth j rs))"
  using mset_removeNth [of j rs] by (simp add: processIds_def)

lemmas dp_step_defs = callStore_def dp_received_def dp_whenComplete_def setWorker_def queued_def Let_def

text \<open>The parts of a worker's step, on a request it has in hand.\<close>

lemma finish_ok:
  assumes "dp_ok n s" "i < length (dpWorkers s)" "dpWorkers s ! i = Processing r"
  shows "dp_ok n (setWorker i AtTest (callStore (Completed (flowProcessId r)) (s\<lparr>dpFinished := dpFinished s @ [r]\<rparr>)))"
    and "dp_ok n (setWorker i AtTest (dp_whenComplete r s))"
    and "dp_ok n (setWorker i AtTest (s\<lparr>dpInFlight := dpInFlight s @ [r]\<rparr>))"
    and "dp_ok n (setWorker i Ended (s\<lparr>dpLost := dpLost s @ [r]\<rparr>))"
  using assms inHands_update [OF assms(2), of AtTest] inHands_update [OF assms(2), of Ended]
  by (auto simp: dp_ok_def dp_step_defs intro: subset_mset.trans)

text \<open>What an exception of a service, or of the choice of one, leaves.\<close>

definition thrownInProcess :: "nat \<Rightarrow> dataFlowRequest \<Rightarrow> java_exn \<Rightarrow> dataPlaneManager \<Rightarrow> dataPlaneManager" where
  "thrownInProcess i r e s =
     (case e of
        JavaError m \<Rightarrow> setWorker i Ended (s\<lparr>dpLost := dpLost s @ [r]\<rparr>)
      | _ \<Rightarrow> setWorker i AtTest (callStore (Completed (flowProcessId r)) (s\<lparr>dpFinished := dpFinished s @ [r]\<rparr>)))"

lemma workerProcess_eq:
  "workerProcess services i r s =
     (case resolveTransferService services r of
        Inl e \<Rightarrow> thrownInProcess i r e s
      | Inr None \<Rightarrow>
          setWorker i AtTest (callStore (Completed (flowProcessId r)) (s\<lparr>dpFinished := dpFinished s @ [r]\<rparr>))
      | Inr (Some ts) \<Rightarrow>
          (case serviceTransfer ts r of
             Inl e \<Rightarrow> thrownInProcess i r e s
           | Inr (Done _) \<Rightarrow> setWorker i AtTest (dp_whenComplete r s)
           | Inr Pending \<Rightarrow> setWorker i AtTest (s\<lparr>dpInFlight := dpInFlight s @ [r]\<rparr>)))"
  by (auto simp: workerProcess_def processDataFlowRequest_def thrownInProcess_def
      split: sum.split option.split flowFuture.split java_exn.split)

lemma workerProcess_ok:
  assumes "dp_ok n s" "i < length (dpWorkers s)" "dpWorkers s ! i = Processing r"
  shows "dp_ok n (workerProcess services i r s)"
  by (simp add: workerProcess_eq thrownInProcess_def finish_ok [OF assms] split: sum.split option.split flowFuture.split java_exn.split)

lemma setWorker_ok:
  assumes "dp_ok n s" "i < length (dpWorkers s)" "inHand (dpWorkers s ! i) = {#}" "inHand w = {#}"
  shows "dp_ok n (setWorker i w s)"
  using assms inHands_update [OF assms(2), of w] by (simp add: dp_ok_def setWorker_def queued_def)

lemma dp_ok_fields [simp]:
  "dp_ok n (s\<lparr>dpActive := b\<rparr>) = dp_ok n s" "dp_ok n (s\<lparr>dpInterrupted := b\<rparr>) = dp_ok n s"
  by (simp_all add: dp_ok_def queued_def)

lemma workerPoll_ok:
  assumes "dp_ok n s" "i < length (dpWorkers s)" "dpWorkers s ! i = Polling"
  shows "dp_ok n (workerPoll i s)"
proof -
  have "dp_ok n (setWorker i (Processing r) (s\<lparr>dpQueue := Some q, dpTaken := dpTaken s @ [r]\<rparr>))"
    if "dpQueue s = Some (r # q)" for r q
    using assms that inHands_update [OF assms(2), of "Processing r"]
    by (simp add: dp_ok_def setWorker_def queued_def)
  then show ?thesis using assms setWorker_ok [of n s i AtTest] setWorker_ok [of n "s\<lparr>dpActive := False\<rparr>" i Ended]
    by (auto simp: workerPoll_def split: option.split list.split)
qed

lemma workerStep_ok: "dp_ok n s \<Longrightarrow> dp_ok n (workerStep i services s)"
  using workerProcess_ok [of n s i _ services] workerPoll_ok [of n s i] setWorker_ok [of n s i]
  by (auto simp: workerStep_def workerTest_def split: worker.split)

lemma dp_add_ok: "dp_ok n s \<Longrightarrow> dp_ok n (snd (dp_add trace r s))"
  by (auto simp: dp_add_def dp_ok_def queued_def Let_def split: option.split)

lemma dp_received_ok: "dp_ok n s \<Longrightarrow> j < length (dpAdding s) \<Longrightarrow> dp_ok n (dp_received j s)"
  using processIds_removeNth [of j "dpAdding s"] by (auto simp: dp_ok_def dp_step_defs)

lemma futureCompletes_ok: "dp_ok n s \<Longrightarrow> j < length (dpInFlight s) \<Longrightarrow> dp_ok n (futureCompletes j s)"
  using mset_removeNth [of j "dpInFlight s"]
  by (auto simp: dp_ok_def futureCompletes_def dp_step_defs intro: subset_mset.trans)

lemma dp_event_ok: "dp_ok n s \<Longrightarrow> dp_ok n (dp_event e s)"
proof (cases e)
  case (TransferState p)
  then show "dp_ok n s \<Longrightarrow> ?thesis" by (simp add: dp_transferState_def dp_ok_def callStore_def queued_def)
qed (simp_all add: dp_add_ok dp_received_ok workerStep_ok futureCompletes_ok dp_stop_def dp_forceStop_def)

lemma dp_run_ok: "dp_ok n s \<Longrightarrow> dp_ok n (dp_run es s)"
  by (induction es arbitrary: s) (simp_all add: dp_event_ok)

definition startedManager :: "int \<Rightarrow> int \<Rightarrow> nat \<Rightarrow> dataPlaneManager" where
  "startedManager cap n storeCap = snd (dp_start (newManager cap n storeCap))"

lemma startedManager_fields:
  "1 \<le> cap \<Longrightarrow> 1 \<le> n \<Longrightarrow> startedManager cap n k =
     (newManager cap n k)\<lparr>dpQueue := Some [], dpActive := True, dpWorkers := replicate (nat n) AtTest\<rparr>"
  by (simp add: startedManager_def dp_start_def newManager_def)

lemma inHands_idle: "inHands (replicate n AtTest) = {#}"
  by (induction n) (simp_all add: inHands_def)

lemma startedManager_ok: "1 \<le> cap \<Longrightarrow> 1 \<le> n \<Longrightarrow> dp_ok k (startedManager cap n k)"
  by (simp add: startedManager_fields newManager_def dp_ok_def queued_def inHands_idle receivedIds_def completedIds_def)

lemma queueCapacity_event [simp]: "queueCapacity (dp_event e s) = queueCapacity s"
  by (cases e) (auto simp: dp_add_def dp_step_defs dp_transferState_def workerStep_def workerTest_def workerPoll_def
      workerProcess_eq thrownInProcess_def futureCompletes_def dp_stop_def dp_forceStop_def
      split: option.split worker.split list.split sum.split flowFuture.split java_exn.split)

lemma queueCapacity_run [simp]: "queueCapacity (dp_run es s) = queueCapacity s"
  by (induction es arbitrary: s) simp_all

text \<open>
  (C8) Whatever clients, workers and futures do, requests are taken in the order they were accepted, none twice
  and none left out; the queue keeps within its capacity; each one taken is in the hands of one worker, in
  flight, finished or lost to an error; and each accepted one is marked as received once, or will be, each
  finished one that is trackable is marked as completed, and none is marked as completed before it is finished.
\<close>

theorem flow_requests_conserved:
  assumes "1 \<le> cap" "1 \<le> n" "s = dp_run es (startedManager cap n k)"
  shows "dpTaken s @ queued s = dpAccepted s \<and> int (length (queued s)) \<le> cap \<and>
    mset (dpTaken s) = inHands (dpWorkers s) + mset (dpInFlight s) + mset (dpFinished s) + mset (dpLost s) \<and>
    receivedIds (dpLog s) + processIds (dpAdding s) = processIds (dpAccepted s) \<and>
    processIds (filter isTrackable (dpFinished s)) \<subseteq># completedIds (dpLog s) \<and>
    completedIds (dpLog s) \<subseteq># processIds (dpFinished s)"
proof -
  have "dp_ok k s" using dp_run_ok [OF startedManager_ok [OF assms(1,2)]] by (simp add: assms(3))
  moreover have "queueCapacity s = cap" by (simp add: assms startedManager_fields newManager_def)
  ultimately show ?thesis by (simp add: dp_ok_def)
qed

section \<open>The queue is worked off\<close>

definition throwsError :: "transferService list \<Rightarrow> dataFlowRequest \<Rightarrow> bool" where
  "throwsError services r \<longleftrightarrow>
     (case resolveTransferService services r of
        Inl e \<Rightarrow> (case e of JavaError m \<Rightarrow> True | _ \<Rightarrow> False)
      | Inr None \<Rightarrow> False
      | Inr (Some ts) \<Rightarrow>
          (case serviceTransfer ts r of
             Inl e \<Rightarrow> (case e of JavaError m \<Rightarrow> True | _ \<Rightarrow> False)
           | Inr _ \<Rightarrow> False))"

definition serving :: "nat \<Rightarrow> dataFlowRequest list \<Rightarrow> dataPlaneManager \<Rightarrow> bool" where
  "serving i q s \<longleftrightarrow> dpActive s \<and> \<not> dpInterrupted s \<and> i < length (dpWorkers s) \<and> dpWorkers s ! i = AtTest \<and> dpQueue s = Some q"

lemma serve_process:
  assumes "\<not> throwsError services r" "i < length (dpWorkers s)" "dpActive s" "\<not> dpInterrupted s" "dpQueue s = Some q"
  shows "serving i q (workerProcess services i r s)" "dpTaken (workerProcess services i r s) = dpTaken s"
    "mset (dpFinished (workerProcess services i r s)) + mset (dpInFlight (workerProcess services i r s)) =
       add_mset r (mset (dpFinished s) + mset (dpInFlight s))"
    "dpLost (workerProcess services i r s) = dpLost s"
  using assms
  by (auto simp: workerProcess_eq throwsError_def thrownInProcess_def serving_def dp_step_defs
      split: sum.split option.split flowFuture.split java_exn.splits)

text \<open>Three steps of a worker: its test, the poll, and the request.\<close>

lemma serve_three:
  assumes "serving i (r # q) s"
  shows "dp_run (replicate 3 (WorkerStep i services)) s = workerProcess services i r
    (s\<lparr>dpQueue := Some q, dpTaken := dpTaken s @ [r], dpWorkers := (dpWorkers s)[i := Processing r]\<rparr>)"
proof -
  have steps: "replicate 3 (WorkerStep i services) = [WorkerStep i services, WorkerStep i services, WorkerStep i services]"
    by (simp add: numeral_3_eq_3)
  show ?thesis unfolding steps using assms
    by (simp add: serving_def workerStep_def workerTest_def workerPoll_def setWorker_def)
qed

lemma process_error:
  "throwsError services r \<Longrightarrow> workerProcess services i r s = setWorker i Ended (s\<lparr>dpLost := dpLost s @ [r]\<rparr>)"
  by (auto simp: throwsError_def workerProcess_eq thrownInProcess_def split: sum.splits option.splits java_exn.splits)

lemma serve_one:
  assumes "serving i (r # q) s" "\<not> throwsError services r"
    "s' = dp_run (replicate 3 (WorkerStep i services)) s"
  shows "serving i q s'" "dpTaken s' = dpTaken s @ [r]" "dpLost s' = dpLost s"
    "mset (dpFinished s') + mset (dpInFlight s') = add_mset r (mset (dpFinished s) + mset (dpInFlight s))"
proof -
  let ?p = "s\<lparr>dpQueue := Some q, dpTaken := dpTaken s @ [r], dpWorkers := (dpWorkers s)[i := Processing r]\<rparr>"
  have "s' = workerProcess services i r ?p" unfolding assms(3) by (rule serve_three [OF assms(1)])
  then show "serving i q s'" "dpTaken s' = dpTaken s @ [r]" "dpLost s' = dpLost s"
    "mset (dpFinished s') + mset (dpInFlight s') = add_mset r (mset (dpFinished s) + mset (dpInFlight s))"
    using assms(1) serve_process [OF assms(2), of i ?p q] by (simp_all add: serving_def)
qed

lemma serve_error:
  assumes "serving i (r # q) s" "throwsError services r"
  shows "dp_run (replicate 3 (WorkerStep i services)) s =
    s\<lparr>dpQueue := Some q, dpTaken := dpTaken s @ [r], dpWorkers := (dpWorkers s)[i := Ended], dpLost := dpLost s @ [r]\<rparr>"
  unfolding serve_three [OF assms(1)] process_error [OF assms(2)] by (simp add: setWorker_def)

lemma ended_steps:
  "dpWorkers s ! i = Ended \<Longrightarrow> dp_run (replicate m (WorkerStep i services)) s = s"
  by (induction m) (simp_all add: workerStep_def)

lemma serve_all:
  assumes "serving i q s" "ok = takeWhile (\<lambda>r. \<not> throwsError services r) q" "lost = take 1 (drop (length ok) q)"
    "s' = dp_run (replicate (3 * length q) (WorkerStep i services)) s"
  shows "queued s' = drop (length ok + 1) q \<and> dpTaken s' = dpTaken s @ ok @ lost \<and> dpLost s' = dpLost s @ lost \<and>
    dpActive s' \<and> dpWorkers s' ! i = (if lost = [] then AtTest else Ended) \<and>
    mset (dpFinished s') + mset (dpInFlight s') = mset ok + mset (dpFinished s) + mset (dpInFlight s)"
  using assms
proof (induction q arbitrary: s ok)
  case Nil
  then show ?case by (simp add: serving_def queued_def)
next
  case (Cons r q)
  have steps: "replicate (3 * length (r # q)) (WorkerStep i services) =
      replicate 3 (WorkerStep i services) @ replicate (3 * length q) (WorkerStep i services)"
    by (simp add: replicate_add [symmetric])
  define t where "t = dp_run (replicate 3 (WorkerStep i services)) s"
  have s': "s' = dp_run (replicate (3 * length q) (WorkerStep i services)) t"
    using Cons.prems(4) unfolding steps by (simp add: t_def)
  show ?case
  proof (cases "throwsError services r")
    case True
    have t: "t = s\<lparr>dpQueue := Some q, dpTaken := dpTaken s @ [r], dpWorkers := (dpWorkers s)[i := Ended],
        dpLost := dpLost s @ [r]\<rparr>"
      unfolding t_def by (rule serve_error [OF Cons.prems(1) True])
    have "i < length (dpWorkers s)" "dpActive s" using Cons.prems(1) by (simp_all add: serving_def)
    moreover from this have "s' = t" unfolding s' by (intro ended_steps) (simp add: t)
    ultimately show ?thesis using True Cons.prems(2,3) by (simp add: t queued_def)
  next
    case False
    note one = serve_one [OF Cons.prems(1) False t_def]
    have "lost = take 1 (drop (length (takeWhile (\<lambda>r. \<not> throwsError services r) q)) q)"
      using False Cons.prems(2,3) by simp
    from Cons.IH [OF one(1) refl this s'] one(2-4) False Cons.prems(2) show ?thesis
      by (simp add: union_assoc)
  qed
qed

text \<open>
  (C16) From every state the system can reach in which the manager has not been stopped and some worker is at the
  test of its loop, three steps of that worker for each queued request, with services that behave in any way.
  The requests before the first one whose transfer throws an error are taken in their order and end finished
  or in flight. If there is no such request, the queue is empty and the worker ready for the next one; else
  that request is taken and lost, the worker has ended, and the requests behind it stay in the queue.
\<close>

theorem flow_queue_drained:
  assumes "1 \<le> cap" "1 \<le> n" "s = dp_run es (startedManager cap n k)"
    and "dpActive s" "\<not> dpInterrupted s" "i < length (dpWorkers s)" "dpWorkers s ! i = AtTest"
    and "ok = takeWhile (\<lambda>r. \<not> throwsError services r) (queued s)" "lost = take 1 (drop (length ok) (queued s))"
    and "s' = dp_run (replicate (3 * length (queued s)) (WorkerStep i services)) s"
  shows "queued s' = drop (length ok + 1) (queued s) \<and> dpTaken s' = dpTaken s @ ok @ lost \<and>
    dpLost s' = dpLost s @ lost \<and> dpActive s' \<and> dpWorkers s' ! i = (if lost = [] then AtTest else Ended) \<and>
    mset (dpFinished s') + mset (dpInFlight s') = mset ok + mset (dpFinished s) + mset (dpInFlight s) \<and>
    (list_all (\<lambda>r. \<not> throwsError services r) (queued s) \<longrightarrow> queued s' = [] \<and> dpTaken s' = dpAccepted s)"
proof -
  have q: "dpQueue t \<noteq> None \<Longrightarrow> dpQueue (dp_event e t) \<noteq> None" for e t
    by (cases e) (auto simp: dp_add_def dp_step_defs dp_transferState_def workerStep_def workerTest_def workerPoll_def
        workerProcess_eq thrownInProcess_def futureCompletes_def dp_stop_def dp_forceStop_def
        split: option.split worker.split list.split sum.split flowFuture.split java_exn.split)
  have "dpQueue t \<noteq> None \<Longrightarrow> dpQueue (dp_run es t) \<noteq> None" for t
    by (induction es arbitrary: t) (simp_all add: q del: not_None_eq)
  then have "dpQueue s \<noteq> None" using assms(1-3) by (simp add: startedManager_fields)
  then have serving: "serving i (queued s) s" using assms(4-7) by (auto simp: serving_def queued_def)
  have "dpTaken s @ queued s = dpAccepted s"
    using dp_run_ok [OF startedManager_ok [OF assms(1,2)]] by (simp add: assms(3) dp_ok_def)
  moreover have "ok = queued s" if "list_all (\<lambda>r. \<not> throwsError services r) (queued s)"
    using that by (simp add: assms(8) list_all_iff)
  ultimately show ?thesis using serve_all [OF serving assms(8-10)] assms(9) by auto
qed

definition example_service :: "bool \<Rightarrow> transferService" where
  "example_service ok =
     \<lparr>serviceRef = 0, serviceHandles = (\<lambda>r. Inr True), serviceValidate = (\<lambda>r. Inr (Success True)),
      serviceTransfer = (\<lambda>r. if ok then Inr (Done (Inr (StatusSuccess ()))) else Inl (JavaError ''linkage''))\<rparr>"

theorem flow_queue_drained_witness:
  "queued (dp_run (replicate 3 (WorkerStep 0 [example_service True])) (dp_run [Initiate [] example_flow] (startedManager 5 1 5))) = [] \<and>
   dpLost (dp_run (replicate 3 (WorkerStep 0 [example_service False])) (dp_run [Initiate [] example_flow] (startedManager 5 1 5))) =
     [example_flow]"
proof -
  let ?s = "dp_run [Initiate [] example_flow] (startedManager 5 1 5)"
  have s: "dpActive ?s" "\<not> dpInterrupted ?s" "0 < length (dpWorkers ?s)" "dpWorkers ?s ! 0 = AtTest"
    "queued ?s = [example_flow]" "dpLost ?s = []"
    by (simp_all add: startedManager_fields newManager_def dp_add_def queued_def example_flow_def Let_def)
  have e: "throwsError [example_service ok] r \<longleftrightarrow> \<not> ok" for ok r
    by (simp add: throwsError_def resolveTransferService_def example_service_def)
  have m: "3 * length (queued ?s) = 3" by (simp only: s(5)) simp
  show ?thesis
    using flow_queue_drained [OF _ _ refl s(1-4) refl refl refl, of "[example_service True]", unfolded m s(5,6)]
      flow_queue_drained [OF _ _ refl s(1-4) refl refl refl, of "[example_service False]", unfolded m s(5,6)]
    by (simp add: e del: fold_simps fold_replicate)
qed

theorem flow_requests_conserved_witness:
  "dpTaken (dp_run [Initiate [] example_flow, WorkerStep 0 [], WorkerStep 0 []] (startedManager 5 1 5)) = [example_flow] \<and>
   receivedIds (dpLog (dp_run [Initiate [] example_flow, WorkerStep 0 [], WorkerStep 0 []] (startedManager 5 1 5))) = {#}"
proof -
  let ?s = "dp_run [Initiate [] example_flow, WorkerStep 0 [], WorkerStep 0 []] (startedManager 5 1 5)"
  have "dpAccepted ?s = [example_flow]" "queued ?s = []" "dpAdding ?s = [example_flow]"
    by (simp_all add: startedManager_fields newManager_def dp_add_def queued_def example_flow_def Let_def
        workerStep_def workerTest_def workerPoll_def setWorker_def)
  then show ?thesis using flow_requests_conserved [of 5 1 ?s "[Initiate [] example_flow, WorkerStep 0 [], WorkerStep 0 []]" 5]
    by simp
qed

section \<open>The state that is reported\<close>

text \<open>
  What one attempt at a request leaves as its state: whether the transfer succeeded makes no difference, and a
  request that is not tracked stays received.
\<close>

definition reportedState :: "transferService list \<Rightarrow> dataFlowRequest \<Rightarrow> flowState" where
  "reportedState services r =
     (case resolveTransferService services r of
        Inl e \<Rightarrow> (case e of JavaError m \<Rightarrow> RECEIVED | _ \<Rightarrow> FLOW_COMPLETED)
      | Inr None \<Rightarrow> FLOW_COMPLETED
      | Inr (Some ts) \<Rightarrow>
          (case serviceTransfer ts r of
             Inl e \<Rightarrow> (case e of JavaError m \<Rightarrow> RECEIVED | _ \<Rightarrow> FLOW_COMPLETED)
           | Inr (Done _) \<Rightarrow> (if isTrackable r then FLOW_COMPLETED else RECEIVED)
           | Inr Pending \<Rightarrow> RECEIVED))"

abbreviation stateOf :: "string \<Rightarrow> dataPlaneManager \<Rightarrow> flowState" where
  "stateOf p s \<equiv> fst (store_getState p (dpStore s))"

lemma store_mark:
  assumes "lru_ok st" "0 < capacity st"
  shows "fst (store_getState p (received p st)) = RECEIVED" "fst (store_getState p (completed p st)) = FLOW_COMPLETED"
  using state_kept [OF assms(1), of "Received p" RECEIVED "[]"] state_kept [OF assms(1), of "Completed p" FLOW_COMPLETED "[]"]
    assms(2) by simp_all

lemma dp_ok_store: "dp_ok n s \<Longrightarrow> lru_ok (dpStore s) \<and> capacity (dpStore s) = n"
  by (simp add: dp_ok_def) (simp add: inMemoryDataPlaneStore_def)

text \<open>A worker that has just been given a request, with the store in any state.\<close>

lemma process_state:
  assumes "lru_ok (dpStore s)" "0 < capacity (dpStore s)"
  shows "stateOf (flowProcessId r) (workerProcess services i r s) =
     (if reportedState services r = FLOW_COMPLETED then FLOW_COMPLETED else stateOf (flowProcessId r) s)"
  using store_mark [OF assms]
  by (auto simp: workerProcess_eq reportedState_def thrownInProcess_def dp_step_defs
      split: sum.split option.split flowFuture.split java_exn.split)

text \<open>An idle manager is given a request, which a worker takes.\<close>

lemma initiate_serve:
  assumes "serving i [] s" "dpAdding s = []" "1 \<le> queueCapacity s"
  shows "dp_run [Initiate trace r, WorkerStep i services, WorkerStep i services] s =
     s\<lparr>dpWorkers := (dpWorkers s)[i := Processing (r\<lparr>traceContext := trace\<rparr>)],
       dpAdding := [r\<lparr>traceContext := trace\<rparr>], dpAccepted := dpAccepted s @ [r\<lparr>traceContext := trace\<rparr>],
       dpTaken := dpTaken s @ [r\<lparr>traceContext := trace\<rparr>]\<rparr>"
  using assms by (simp add: serving_def dp_add_def workerStep_def workerTest_def workerPoll_def setWorker_def Let_def)

lemma reachable_fields:
  assumes "1 \<le> cap" "1 \<le> n" "s = dp_run es (startedManager cap n k)"
  shows "queueCapacity s = cap" "dp_ok k s" "lru_ok (dpStore s)" "capacity (dpStore s) = k"
  using dp_run_ok [OF startedManager_ok [OF assms(1,2)], of k es] dp_ok_store [of k s] assms
  by (simp_all add: startedManager_fields newManager_def)

section \<open>A client that is overtaken\<close>

text \<open>Nothing the manager still has to do is for the process, but that its requests in flight are not trackable.\<close>

definition settled :: "string \<Rightarrow> dataPlaneManager \<Rightarrow> bool" where
  "settled p s \<longleftrightarrow>
     (\<forall>r. r \<in> set (queued s) \<or> r \<in> set (dpAdding s) \<or> r \<in># inHands (dpWorkers s) \<longrightarrow> flowProcessId r \<noteq> p) \<and>
     (\<forall>r \<in> set (dpInFlight s). isTrackable r \<longrightarrow> flowProcessId r \<noteq> p)"

primrec initiatesOther :: "string \<Rightarrow> dpEvent \<Rightarrow> bool" where
  "initiatesOther p (Initiate trace r) \<longleftrightarrow> flowProcessId r \<noteq> p"
| "initiatesOther p (MarkReceived j) \<longleftrightarrow> True"
| "initiatesOther p (TransferState q) \<longleftrightarrow> True"
| "initiatesOther p (WorkerStep i services) \<longleftrightarrow> True"
| "initiatesOther p (FutureCompletes j) \<longleftrightarrow> True"
| "initiatesOther p Stop \<longleftrightarrow> True"
| "initiatesOther p ForceStop \<longleftrightarrow> True"

lemma inHands_mem: "r \<in># inHands ws \<longleftrightarrow> Processing r \<in> set ws"
proof (induction ws)
  case (Cons w ws)
  then show ?case by (cases w) (auto simp: inHands_def)
qed (simp add: inHands_def)

lemma set_removeNth: "set (removeNth j xs) \<subseteq> set xs"
  by (auto simp: removeNth_def dest: in_set_takeD in_set_dropD)

lemma settled_setWorker:
  "settled p s \<Longrightarrow> (\<And>r. w = Processing r \<Longrightarrow> flowProcessId r \<noteq> p) \<Longrightarrow> settled p (setWorker i w s)"
  by (auto simp: settled_def setWorker_def queued_def inHands_mem dest: set_update_subset_insert [THEN subsetD])

lemma settled_setWorker_idle:
  "settled p s \<Longrightarrow> settled p (setWorker i AtTest s)" "settled p s \<Longrightarrow> settled p (setWorker i Polling s)"
  "settled p s \<Longrightarrow> settled p (setWorker i Ended s)"
  by (auto intro: settled_setWorker)

text \<open>A step calls the store at most once, and not to mark a settled process.\<close>

definition callsOther :: "string \<Rightarrow> dataPlaneManager \<Rightarrow> dataPlaneManager \<Rightarrow> bool" where
  "callsOther p s s' \<longleftrightarrow> dpStore s' = dpStore s \<or>
     (\<exists>c. dpStore s' = applyCall received completed store_getState c (dpStore s) \<and> (callKey c = p \<longrightarrow> callWrites c = None))"

lemma callsOther_state:
  assumes "lru_ok (dpStore s)" "callsOther p s s'"
  shows "stateOf p s' \<in> {stateOf p s, NOT_TRACKED}"
  using assms(2) unfolding callsOther_def
proof (elim disjE exE conjE)
  fix c assume c: "dpStore s' = applyCall received completed store_getState c (dpStore s)" "callKey c = p \<longrightarrow> callWrites c = None"
  show ?thesis using inMemory.apply_get [OF assms(1), of p c] c by (auto split: if_splits)
qed simp

lemma callsOther_mark:
  "dpStore s' = dpStore s \<Longrightarrow> callKey c \<noteq> p \<or> callWrites c = None \<Longrightarrow> callsOther p s (callStore c s')"
  "dpStore s' = dpStore s \<Longrightarrow> callsOther p s s'"
  "callsOther p s (setWorker i w s') \<longleftrightarrow> callsOther p s s'"
  by (auto simp: callsOther_def callStore_def setWorker_def)

lemma settled_fields [simp]:
  "settled p (s\<lparr>dpFinished := rs\<rparr>) = settled p s" "settled p (s\<lparr>dpLost := rs\<rparr>) = settled p s"
  "settled p (s\<lparr>dpActive := b\<rparr>) = settled p s" "settled p (s\<lparr>dpInterrupted := b\<rparr>) = settled p s"
  "settled p (callStore c s) = settled p s"
  by (simp_all add: settled_def queued_def callStore_def)

lemma settled_process:
  assumes "settled p s" "flowProcessId r \<noteq> p"
  shows "settled p (workerProcess services i r s) \<and> callsOther p s (workerProcess services i r s)"
proof -
  have "settled p (s\<lparr>dpInFlight := dpInFlight s @ [r]\<rparr>)" using assms by (auto simp: settled_def queued_def)
  then show ?thesis using assms
    by (auto simp: workerProcess_eq thrownInProcess_def dp_whenComplete_def Let_def settled_setWorker_idle callsOther_mark
        split: sum.split option.split flowFuture.split java_exn.split)
qed

lemma settled_poll:
  assumes "settled p s" shows "settled p (workerPoll i s) \<and> callsOther p s (workerPoll i s)"
proof -
  have "settled p (setWorker i (Processing r) (s\<lparr>dpQueue := Some q, dpTaken := dpTaken s @ [r]\<rparr>))"
    if "dpQueue s = Some (r # q)" for r q
    using assms that by (intro settled_setWorker) (auto simp: settled_def queued_def)
  then show ?thesis using assms
    by (auto simp: workerPoll_def settled_setWorker_idle callsOther_mark split: option.split list.split)
qed

lemma settled_event:
  assumes "settled p s" "initiatesOther p e"
  shows "settled p (dp_event e s) \<and> callsOther p s (dp_event e s)"
proof (cases e)
  case (Initiate trace r)
  then show ?thesis using assms
    by (auto simp: dp_add_def Let_def settled_def queued_def callsOther_mark split: option.split)
next
  case (MarkReceived j)
  have "settled p (s\<lparr>dpAdding := removeNth j (dpAdding s)\<rparr>)"
    using assms(1) set_removeNth by (fastforce simp: settled_def queued_def)
  moreover have "j < length (dpAdding s) \<Longrightarrow> flowProcessId (dpAdding s ! j) \<noteq> p"
    using assms(1) by (simp add: settled_def)
  ultimately show ?thesis using assms(1) MarkReceived by (simp add: dp_received_def callsOther_mark)
next
  case (TransferState q)
  then show ?thesis using assms(1) by (simp add: dp_transferState_def callsOther_mark)
next
  case (WorkerStep i services)
  have "dpWorkers s ! i = Processing r \<Longrightarrow> i < length (dpWorkers s) \<Longrightarrow> flowProcessId r \<noteq> p" for r
    using assms(1) nth_mem [of i "dpWorkers s"] by (auto simp: settled_def inHands_mem)
  then show ?thesis using assms(1) WorkerStep settled_process [OF assms(1)] settled_poll [OF assms(1)]
    by (auto simp: workerStep_def workerTest_def settled_setWorker_idle callsOther_mark split: worker.split)
next
  case (FutureCompletes j)
  have "settled p (s\<lparr>dpInFlight := removeNth j (dpInFlight s)\<rparr>)"
    using assms(1) set_removeNth by (fastforce simp: settled_def queued_def)
  moreover have "j < length (dpInFlight s) \<Longrightarrow> isTrackable (dpInFlight s ! j) \<Longrightarrow> flowProcessId (dpInFlight s ! j) \<noteq> p"
    using assms(1) by (simp add: settled_def)
  ultimately show ?thesis using assms(1) FutureCompletes
    by (auto simp: futureCompletes_def dp_whenComplete_def Let_def callsOther_mark)
qed (use assms in \<open>simp_all add: dp_stop_def dp_forceStop_def callsOther_mark\<close>)

lemma settled_run:
  assumes "settled p s" "dp_ok n s" "list_all (initiatesOther p) es"
  shows "stateOf p (dp_run es s) \<in> {stateOf p s, NOT_TRACKED}"
  using assms
proof (induction es arbitrary: s)
  case (Cons e es)
  have "stateOf p (dp_event e s) \<in> {stateOf p s, NOT_TRACKED}"
    using Cons.prems settled_event [of p s e] dp_ok_store callsOther_state by auto
  moreover have "stateOf p (dp_run es (dp_event e s)) \<in> {stateOf p (dp_event e s), NOT_TRACKED}"
    using Cons.IH [of "dp_event e s"] Cons.prems settled_event [of p s e] dp_event_ok by auto
  ultimately show ?case by auto
qed simp

text \<open>
  (C24) \<open>initiateTransfer\<close> queues a request before it marks it as received. When a worker transfers the request
  in between, the request is finished, but it is reported as received; and as long as no request for the same
  process is initiated, nothing the system can do makes it reported as completed.
\<close>

theorem flow_received_overtaken:
  assumes "1 \<le> cap" "1 \<le> n" "1 \<le> k" "s = dp_run es (startedManager cap n k)" "serving i [] s" "dpAdding s = []"
    and "settled (flowProcessId r) s"
    and "resolveTransferService services (r\<lparr>traceContext := trace\<rparr>) = Inr (Some ts)"
    and "serviceTransfer ts (r\<lparr>traceContext := trace\<rparr>) = Inr (Done result)"
    and "s' = dp_run [Initiate trace r, WorkerStep i services, WorkerStep i services, WorkerStep i services, MarkReceived 0] s"
    and "list_all (initiatesOther (flowProcessId r)) es'"
  shows "dpFinished s' = dpFinished s @ [r\<lparr>traceContext := trace\<rparr>] \<and> stateOf (flowProcessId r) s' = RECEIVED \<and>
    stateOf (flowProcessId r) (dp_run es' s') \<noteq> FLOW_COMPLETED"
proof -
  note fields = reachable_fields [OF assms(1,2,4)]
  let ?r = "r\<lparr>traceContext := trace\<rparr>" and ?p = "flowProcessId r"
  define t where "t = dp_run [Initiate trace r, WorkerStep i services, WorkerStep i services] s"
  have t: "t = s\<lparr>dpWorkers := (dpWorkers s)[i := Processing ?r], dpAdding := [?r],
      dpAccepted := dpAccepted s @ [?r], dpTaken := dpTaken s @ [?r]\<rparr>"
    using initiate_serve [OF assms(5,6)] assms(1) fields(1) by (simp add: t_def)
  define u where "u = workerStep i services t"
  have i: "i < length (dpWorkers s)" using assms(5) by (simp add: serving_def)
  then have u: "u = setWorker i AtTest (dp_whenComplete ?r t)"
    using assms(8,9) by (simp add: u_def t workerStep_def workerProcess_eq)
  then have u': "dpAdding u = [?r]" "dpFinished u = dpFinished s @ [?r]" "dpWorkers u = (dpWorkers s)[i := AtTest]"
    "queued u = queued s" "dpInFlight u = dpInFlight s"
    by (simp_all add: t setWorker_def dp_whenComplete_def callStore_def Let_def queued_def)
  have s': "s' = dp_received 0 u" using assms(10) u'(1) by (simp add: u_def t_def)
  have ok: "dp_ok k u" "dp_ok k s'"
    using fields(2) assms(10) by (simp_all add: u_def t_def dp_event_ok flip: fold_simps(1) dp_event.simps)
  then have "stateOf ?p s' = RECEIVED"
    using store_mark [of "dpStore u"] dp_ok_store [OF ok(1)] assms(3) u'(1)
    by (simp add: s' dp_received_def callStore_def)
  moreover have "settled ?p s'"
    using assms(5,7) i u' set_update_subset_insert [of "dpWorkers s" i AtTest]
    by (auto simp: s' dp_received_def callStore_def settled_def queued_def inHands_mem removeNth_def)
  ultimately have "stateOf ?p (dp_run es' s') \<in> {RECEIVED, NOT_TRACKED}"
    using settled_run [OF _ ok(2) assms(11)] by auto
  with \<open>stateOf ?p s' = RECEIVED\<close> show ?thesis by (auto simp: s' dp_received_def callStore_def u'(2))
qed

theorem flow_received_overtaken_witness:
  "let sv = [example_service True];
       s = dp_run [Initiate [] example_flow, WorkerStep 0 sv, WorkerStep 0 sv, WorkerStep 0 sv, MarkReceived 0] (startedManager 5 1 5)
   in dpFinished s = [example_flow] \<and> stateOf ''p'' s = RECEIVED \<and>
      stateOf ''p'' (dp_run [WorkerStep 0 sv, TransferState ''p''] s) \<noteq> FLOW_COMPLETED"
proof -
  let ?s = "startedManager 5 1 5"
  have s: "serving 0 [] (dp_run [] ?s)" "dpAdding (dp_run [] ?s) = []" "settled (flowProcessId example_flow) (dp_run [] ?s)"
    by (simp_all add: serving_def startedManager_fields newManager_def settled_def queued_def inHands_mem)
  have r: "resolveTransferService [example_service True] (example_flow\<lparr>traceContext := []\<rparr>) = Inr (Some (example_service True))"
    "serviceTransfer (example_service True) (example_flow\<lparr>traceContext := []\<rparr>) = Inr (Done (Inr (StatusSuccess ())))"
    by (simp_all add: resolveTransferService_def example_service_def)
  have "dpFinished ?s = []" "example_flow\<lparr>traceContext := []\<rparr> = example_flow"
    by (simp_all add: startedManager_fields newManager_def example_flow_def)
  then show ?thesis
    using flow_received_overtaken [OF _ _ _ refl s r refl, of "[WorkerStep 0 [example_service True], TransferState ''p'']"]
    by (simp add: Let_def example_flow_def)
qed

section \<open>The state that is left\<close>

text \<open>
  (C23) The state that is reported of a process, from every state that clients, workers and futures can reach.
  When a worker attempts a request of the process with any services: it becomes completed if a service has
  answered, with success or failure, and the request is trackable, and if no service or an exception kept the
  request from being transferred, trackable or not; else, that is for a request that is not trackable, while
  the future runs, and after an error, it is as before. When a future completes, with success or failure, it
  becomes completed if the request is trackable, and is as before if not. So a process that was received
  when its last request was attempted and left as it was, with no trackable future running, is not reported
  as completed, whatever the system does after, as long as no request for the process is initiated.
\<close>

theorem flow_state_reported:
  assumes "1 \<le> cap" "1 \<le> n" "1 \<le> k" "s = dp_run es (startedManager cap n k)"
    and "i < length (dpWorkers s)" "dpWorkers s ! i = Processing r" "s' = dp_event (WorkerStep i services) s"
  shows "stateOf (flowProcessId r) s' =
      (if reportedState services r = FLOW_COMPLETED then FLOW_COMPLETED else stateOf (flowProcessId r) s) \<and>
    (\<forall>j f. j < length (dpInFlight s) \<and> f = dpInFlight s ! j \<longrightarrow>
      stateOf (flowProcessId f) (dp_event (FutureCompletes j) s) =
        (if isTrackable f then FLOW_COMPLETED else stateOf (flowProcessId f) s)) \<and>
    (stateOf (flowProcessId r) s = RECEIVED \<and> reportedState services r = RECEIVED \<and>
      settled (flowProcessId r) s' \<and> list_all (initiatesOther (flowProcessId r)) es' \<longrightarrow>
      stateOf (flowProcessId r) (dp_run es' s') \<noteq> FLOW_COMPLETED)"
proof -
  note fields = reachable_fields [OF assms(1,2,4)]
  have store: "lru_ok (dpStore s)" "0 < capacity (dpStore s)" using fields(3,4) assms(3) by simp_all
  have "s' = workerProcess services i r s" using assms(5-7) by (simp add: workerStep_def)
  then have now: "stateOf (flowProcessId r) s' =
      (if reportedState services r = FLOW_COMPLETED then FLOW_COMPLETED else stateOf (flowProcessId r) s)"
    using process_state [OF store] by simp
  have later: "stateOf (flowProcessId (dpInFlight s ! j)) (dp_event (FutureCompletes j) s) =
      (if isTrackable (dpInFlight s ! j) then FLOW_COMPLETED else stateOf (flowProcessId (dpInFlight s ! j)) s)"
    if "j < length (dpInFlight s)" for j
    using that store_mark(2) [OF store] by (simp add: futureCompletes_def dp_whenComplete_def callStore_def Let_def)
  have "dp_ok k s'" using dp_event_ok [OF fields(2), of "WorkerStep i services"] assms(7) by simp
  then have "stateOf (flowProcessId r) (dp_run es' s') \<noteq> FLOW_COMPLETED"
    if "stateOf (flowProcessId r) s = RECEIVED" "reportedState services r = RECEIVED"
      "settled (flowProcessId r) s'" "list_all (initiatesOther (flowProcessId r)) es'"
    using settled_run [OF that(3) _ that(4), of k] now that(1,2) by auto
  with now later show ?thesis by blast
qed

text \<open>A request that is trackable, and one that is not.\<close>

theorem flow_state_reported_witness:
  "let sv = [example_service True];
       taken = (\<lambda>r. dp_run [Initiate [] r, MarkReceived 0, WorkerStep 0 sv, WorkerStep 0 sv] (startedManager 5 1 5));
       untracked = example_flow\<lparr>isTrackable := False\<rparr>
   in stateOf ''p'' (dp_event (WorkerStep 0 sv) (taken example_flow)) = FLOW_COMPLETED \<and>
      stateOf ''p'' (dp_run [Stop, TransferState ''p''] (dp_event (WorkerStep 0 sv) (taken untracked))) \<noteq> FLOW_COMPLETED"
proof -
  let ?sv = "[example_service True]"
  let ?taken = "\<lambda>r. dp_run [Initiate [] r, MarkReceived 0, WorkerStep 0 ?sv, WorkerStep 0 ?sv] (startedManager 5 1 5)"
  let ?untracked = "example_flow\<lparr>isTrackable := False\<rparr>"
  have taken: "?taken r = (startedManager 5 1 5)\<lparr>dpWorkers := [Processing r],
      dpStore := received (flowProcessId r) (inMemoryDataPlaneStore 5), dpLog := [Received (flowProcessId r)],
      dpAccepted := [r], dpTaken := [r]\<rparr>" if "r\<lparr>traceContext := []\<rparr> = r" for r
    using that by (simp add: startedManager_fields newManager_def dp_add_def Let_def workerStep_def workerTest_def
        workerPoll_def setWorker_def dp_received_def callStore_def removeNth_def)
  have trace: "example_flow\<lparr>traceContext := []\<rparr> = example_flow" "?untracked\<lparr>traceContext := []\<rparr> = ?untracked"
    by (simp_all add: example_flow_def)
  have ids: "flowProcessId example_flow = ''p''" "flowProcessId ?untracked = ''p''" by (simp_all add: example_flow_def)
  have w: "0 < length (dpWorkers (?taken r))" "dpWorkers (?taken r) ! 0 = Processing r"
    if "r\<lparr>traceContext := []\<rparr> = r" for r
    using taken [OF that] by (simp_all del: fold_simps)
  have rep: "reportedState ?sv example_flow = FLOW_COMPLETED" "reportedState ?sv ?untracked = RECEIVED"
    by (simp_all add: reportedState_def example_flow_def example_service_def resolveTransferService_def)
  have "stateOf ''p'' (?taken ?untracked) = RECEIVED"
    using taken [OF trace(2)] store_mark(1) [of "inMemoryDataPlaneStore 5" "''p''"] ids
    by (simp add: inMemoryDataPlaneStore_def lru_ok_def del: fold_simps)
  moreover have "settled ''p'' (dp_event (WorkerStep 0 ?sv) (?taken ?untracked))"
    unfolding taken [OF trace(2)]
    by (simp add: workerStep_def workerProcess_eq resolveTransferService_def example_service_def setWorker_def
        dp_whenComplete_def Let_def settled_def queued_def startedManager_fields newManager_def inHands_def)
  ultimately show ?thesis
    using flow_state_reported [OF _ _ _ refl w [OF trace(1)] refl, of ?sv] 
      flow_state_reported [OF _ _ _ refl w [OF trace(2)] refl, of ?sv "[Stop, TransferState ''p'']"] rep
    unfolding Let_def ids by simp
qed

section \<open>Workers that are lost, states that are forgotten\<close>

text \<open>
  The manager never replaces a worker that an error has ended. When all have ended, no request is ever taken
  again, and every request that is initiated is accepted until the queue is full.
\<close>

theorem flow_workers_lost:
  assumes "list_all (\<lambda>w. w = Ended) (dpWorkers s)"
  shows "dpTaken (dp_run es s) = dpTaken s \<and> list_all (\<lambda>w. w = Ended) (dpWorkers (dp_run es s)) \<and>
    (\<exists>new. queued (dp_run es s) = queued s @ new)"
  using assms
proof (induction es arbitrary: s)
  case (Cons e es)
  have "dpTaken (dp_event e s) = dpTaken s \<and> dpWorkers (dp_event e s) = dpWorkers s \<and>
      (\<exists>new. queued (dp_event e s) = queued s @ new)"
  proof (cases e)
    case (WorkerStep i services)
    then show ?thesis using Cons.prems by (auto simp: workerStep_def list_all_length)
  next
    case (Initiate trace r)
    then show ?thesis by (auto simp: dp_add_def Let_def queued_def split: option.split)
  qed (auto simp: dp_step_defs dp_transferState_def futureCompletes_def dp_stop_def dp_forceStop_def)
  then show ?case using Cons.IH [of "dp_event e s"] Cons.prems by auto
qed simp

theorem flow_workers_lost_witness:
  "let s = dp_run ([Initiate [] example_flow] @ replicate 3 (WorkerStep 0 [example_service False])) (startedManager 5 1 5)
   in dpActive s \<and> dpLost s = [example_flow] \<and>
      dpTaken (dp_run [Initiate [] example_flow, WorkerStep 0 [example_service True]] s) = [example_flow]"
proof -
  let ?s = "dp_run ([Initiate [] example_flow] @ replicate 3 (WorkerStep 0 [example_service False])) (startedManager 5 1 5)"
  have s: "dpActive ?s" "dpLost ?s = [example_flow]" "dpTaken ?s = [example_flow]" "dpWorkers ?s = [Ended]"
    by (simp_all add: numeral_3_eq_3 startedManager_fields newManager_def dp_add_def Let_def example_flow_def workerStep_def
        workerTest_def workerPoll_def setWorker_def workerProcess_eq resolveTransferService_def example_service_def
        thrownInProcess_def)
  then have "dpTaken (dp_run [Initiate [] example_flow, WorkerStep 0 [example_service True]] ?s) = [example_flow]"
    using flow_workers_lost [of ?s "[Initiate [] example_flow, WorkerStep 0 [example_service True]]"] by simp
  with s show ?thesis by (simp only: Let_def simp_thms)
qed

end
