(* ===== verification/Data_Plane_Clients.thy ===== *)
theory Data_Plane_Clients
  imports Data_Plane_Manager
begin

text \<open>
  Who starts transfers of a data plane: \<open>DataPlaneTransferFlowController\<close> and
  \<open>EmbeddedDataPlaneTransferClient\<close> of \<open>extensions/data-plane-transfer/data-plane-transfer-client\<close>, through which
  the transfer manager reaches a data plane of its own runtime, and \<open>DataPlaneControlApiController\<close> of
  \<open>extensions/data-plane/data-plane-api\<close>, through which others do.
\<close>

section \<open>EmbeddedDataPlaneTransferClient\<close>

definition embeddedTransfer ::
  "transferService list \<Rightarrow> string jmap \<Rightarrow> dataFlowRequest \<Rightarrow> (dataPlaneManager, unit statusResult) op" where
  "embeddedTransfer services trace request =
     andThen (liftE (manager_validate services request)) (\<lambda>result.
       case result of
         Failure ms \<Rightarrow> ret (StatusFailure FATAL_ERROR [join '', '' ms])
       | Success _ \<Rightarrow> andThen (dp_initiateTransfer trace request) (\<lambda>_. ret (StatusSuccess ())))"

section \<open>DataPlaneTransferFlowController\<close>

text \<open>\<open>String.isBlank\<close>: only white space, on the characters of the model.\<close>

definition isBlankString :: "string \<Rightarrow> bool" where
  "isBlankString s =
     list_all (\<lambda>c. (let n = (of_char c :: nat) in (9 \<le> n \<and> n \<le> 13) \<or> (28 \<le> n \<and> n \<le> 32))) s"

definition HTTP_PROXY :: string where
  "HTTP_PROXY = ''HttpProxy''"

definition flowController_canHandle :: "dataRequest \<Rightarrow> dataAddress option \<Rightarrow> java_exn + bool" where
  "flowController_canHandle r contentAddress =
     Inr (case getDestinationType r of
            None \<Rightarrow> False
          | Some type \<Rightarrow> \<not> isBlankString type \<and> type \<noteq> HTTP_PROXY)"

text \<open>
  The builder sets the destination to a new address of the type and then to the destination of the request; it
  refuses nulls. \<open>uuid\<close> is the random identifier.
\<close>

definition createRequest :: "string \<Rightarrow> dataRequest \<Rightarrow> dataAddress option \<Rightarrow> java_exn + dataFlowRequest" where
  "createRequest uuid r sourceAddress =
     (case (getDestinationType r, requestProcessId r, sourceAddress, dataDestination r) of
        (None, _, _, _) \<Rightarrow> Inl (NullPointerException [])
      | (_, None, _, _) \<Rightarrow> Inl (NullPointerException ''processId'')
      | (_, _, None, _) \<Rightarrow> Inl (NullPointerException ''sourceDataAddress'')
      | (_, _, _, None) \<Rightarrow> Inl (NullPointerException ''destinationDataAddress'')
      | (Some _, Some p, Some source, Some destination) \<Rightarrow>
          Inr \<lparr>flowId = Some uuid, flowProcessId = p, sourceDataAddress = source,
               destinationDataAddress = destination, isTrackable = True, flowProperties = [], traceContext = []\<rparr>)"

text \<open>The client is what starts the transfer; \<open>'s\<close> is its state.\<close>

definition flowController_initiate ::
  "(dataFlowRequest \<Rightarrow> ('s, unit statusResult) op) \<Rightarrow> string \<Rightarrow> dataRequest \<Rightarrow> dataAddress option \<Rightarrow>
   ('s, unit statusResult) op" where
  "flowController_initiate client uuid r contentAddress =
     andThen (liftE (createRequest uuid r contentAddress)) (\<lambda>dataFlowRequest.
     andThen (client dataFlowRequest) (\<lambda>result.
       ret (case result of
              StatusFailure _ ms \<Rightarrow>
                StatusFailure FATAL_ERROR [''Failed to delegate data transfer to Data Plane: '' @ join '', '' ms]
            | StatusSuccess _ \<Rightarrow> StatusSuccess ())))"

text \<open>The controller as the data flow manager of the transfers sees it, with the client in a given state.\<close>

definition dataPlaneFlowController ::
  "(dataFlowRequest \<Rightarrow> ('s, unit statusResult) op) \<Rightarrow> string \<Rightarrow> 's \<Rightarrow> 'pol dataFlowController" where
  "dataPlaneFlowController client uuid s =
     \<lparr>canHandle = flowController_canHandle,
      initiateFlow = (\<lambda>r contentAddress policy. fst (flowController_initiate client uuid r contentAddress s))\<rparr>"

section \<open>DataPlaneControlApiController\<close>

text \<open>The status of the response and the errors in its body.\<close>

definition control_initiateTransfer ::
  "transferService list \<Rightarrow> string jmap \<Rightarrow> dataFlowRequest \<Rightarrow> (dataPlaneManager, nat \<times> string list) op" where
  "control_initiateTransfer services trace request =
     andThen (liftE (manager_validate services request)) (\<lambda>result.
       case result of
         Success _ \<Rightarrow> andThen (dp_initiateTransfer trace request) (\<lambda>_. ret (200, []))
       | Failure ms \<Rightarrow>
           ret (400, if ms = [] then [''Failed to validate request: '' @ shown (flowId request)] else ms))"

definition control_getTransferState :: "string \<Rightarrow> (dataPlaneManager, flowState) op" where
  "control_getTransferState = dp_transferState"

section \<open>What starting a transfer promises\<close>

text \<open>A data plane that is running.\<close>

definition dp_running :: "nat \<Rightarrow> dataPlaneManager \<Rightarrow> bool" where
  "dp_running n s \<longleftrightarrow> dp_ok n s \<and> dpQueue s \<noteq> None"

lemma dp_initiateTransfer_eq:
  assumes "dp_running n s"
  shows "dp_initiateTransfer trace r s =
    (if queueCapacity s \<le> int (length (queued s)) then (Inl (IllegalStateException ''Queue full''), s)
     else (Inr (), s\<lparr>dpQueue := Some (queued s @ [r\<lparr>traceContext := trace\<rparr>]),
             dpStore := received (flowProcessId r) (dpStore s), dpLog := dpLog s @ [Received (flowProcessId r)],
             dpAccepted := dpAccepted s @ [r\<lparr>traceContext := trace\<rparr>]\<rparr>))"
  using assms
  by (auto simp: dp_running_def dp_initiateTransfer_def dp_add_def andThen_def queued_def dp_received_def
      callStore_def removeNth_def Let_def)

lemma dp_initiateTransfer_ok:
  assumes "dp_running n s"
  shows "dp_running n (snd (dp_initiateTransfer trace r s))"
  using assms by (simp add: dp_initiateTransfer_eq [OF assms]) (auto simp: dp_running_def dp_ok_def queued_def)

text \<open>
  (C15) When the data flow manager of the transfers answers with success for a request the data plane's
  controller handles, the services have validated the request, the data plane has accepted it, at the end of its
  queue, for the process of the request, between its content address and its destination, to be tracked; and
  the process is reported as received.
\<close>

theorem flow_delegated:
  assumes "dp_running n s" "0 < n" "flowController_canHandle r contentAddress = Inr True"
    and "initiate [dataPlaneFlowController (embeddedTransfer services trace) uuid s] r contentAddress policy = Inr (StatusSuccess ())"
    and "s' = snd (flowController_initiate (embeddedTransfer services trace) uuid r contentAddress s)"
  shows "\<exists>p source destination b fr.
    requestProcessId r = Some p \<and> contentAddress = Some source \<and> dataDestination r = Some destination \<and>
    fr = \<lparr>flowId = Some uuid, flowProcessId = p, sourceDataAddress = source, destinationDataAddress = destination,
          isTrackable = True, flowProperties = [], traceContext = trace\<rparr> \<and>
    manager_validate services (fr\<lparr>traceContext := []\<rparr>) = Inr (Success b) \<and>
    queued s' = queued s @ [fr] \<and> dpAccepted s' = dpAccepted s @ [fr] \<and> stateOf p s' = RECEIVED"
proof -
  have "fst (flowController_initiate (embeddedTransfer services trace) uuid r contentAddress s) = Inr (StatusSuccess ())"
    using assms(3,4) by (auto simp: initiate_def dataPlaneFlowController_def Let_def split: sum.splits java_exn.splits)
  then obtain fr result where fr: "createRequest uuid r contentAddress = Inr fr"
    "embeddedTransfer services trace fr s = (Inr (StatusSuccess ()), s')"
    unfolding flowController_initiate_def assms(5) [unfolded flowController_initiate_def]
    by (auto simp: andThen_def liftE_def split: sum.splits prod.splits statusResult.splits)
  from fr(2) obtain b where b: "manager_validate services fr = Inr (Success b)"
    and init: "dp_initiateTransfer trace fr s = (Inr (), s')"
    by (auto simp: embeddedTransfer_def andThen_def split: sum.splits prod.splits result.splits)
  have "fst (store_getState (flowProcessId fr) (received (flowProcessId fr) (dpStore s))) = RECEIVED"
    using assms(1,2) dp_ok_store store_mark by (auto simp: dp_running_def)
  moreover have "s' = s\<lparr>dpQueue := Some (queued s @ [fr\<lparr>traceContext := trace\<rparr>]),
             dpStore := received (flowProcessId fr) (dpStore s), dpLog := dpLog s @ [Received (flowProcessId fr)],
             dpAccepted := dpAccepted s @ [fr\<lparr>traceContext := trace\<rparr>]\<rparr>"
    using init by (simp add: dp_initiateTransfer_eq [OF assms(1)] split: if_splits)
  ultimately show ?thesis using fr(1) b
    by (auto simp: createRequest_def queued_def split: option.splits)
qed

text \<open>
  A data plane whose queue is full, which is a matter of load, is a fatal error to the transfer: the data
  flow manager reports it as one, and not as one to retry. Nothing changes in the data plane.
\<close>

theorem flow_queue_full_is_fatal:
  assumes "dp_running n s" "queueCapacity s \<le> int (length (queued s))" "flowController_canHandle r contentAddress = Inr True"
    and "createRequest uuid r contentAddress = Inr fr" "manager_validate services fr = Inr (Success b)"
  shows "initiate [dataPlaneFlowController (embeddedTransfer services trace) uuid s] r contentAddress policy =
      Inr (StatusFailure FATAL_ERROR [''Unable to process data request '' @ requestId r @
        ''. Data flow controller throws an exception: Queue full'']) \<and>
    snd (flowController_initiate (embeddedTransfer services trace) uuid r contentAddress s) = s"
proof -
  have "flowController_initiate (embeddedTransfer services trace) uuid r contentAddress s = (Inl (IllegalStateException ''Queue full''), s)"
    using assms(2,4,5) by (simp add: flowController_initiate_def embeddedTransfer_def andThen_def dp_initiateTransfer_eq [OF assms(1)])
  then show ?thesis using assms(3) by (simp add: initiate_def dataPlaneFlowController_def)
qed

text \<open>
  The control API answers 200 exactly if the request is valid and the queue has room; then the request is
  the last in the queue and its process is reported as received. It answers 400 with at least one error if the
  request is not valid, and lets the exception of a full queue through; both change nothing.
\<close>

theorem control_answers:
  assumes "dp_running n s" "0 < n" "manager_validate services r = Inr result"
  shows "case control_initiateTransfer services trace r s of
      (Inl e, s') \<Rightarrow>
        e = IllegalStateException ''Queue full'' \<and> \<not> failed result \<and> queueCapacity s \<le> int (length (queued s)) \<and> s' = s
    | (Inr (status, errors), s') \<Rightarrow>
        if status = 200
        then \<not> failed result \<and> int (length (queued s)) < queueCapacity s \<and> errors = [] \<and>
          queued s' = queued s @ [r\<lparr>traceContext := trace\<rparr>] \<and> stateOf (flowProcessId r) s' = RECEIVED
        else status = 400 \<and> failed result \<and> errors \<noteq> [] \<and> s' = s"
proof (cases result)
  case (Failure ms)
  then show ?thesis using assms(3) by (simp add: control_initiateTransfer_def)
next
  case (Success b)
  have "fst (store_getState (flowProcessId r) (received (flowProcessId r) (dpStore s))) = RECEIVED"
    using assms(1,2) dp_ok_store store_mark by (auto simp: dp_running_def)
  then show ?thesis using Success assms(3)
    by (simp add: control_initiateTransfer_def andThen_def dp_initiateTransfer_eq [OF assms(1)] queued_def)
qed

text \<open>The premises hold on a data plane that has just started.\<close>

lemma started_running: "1 \<le> cap \<Longrightarrow> 1 \<le> n \<Longrightarrow> dp_running k (startedManager cap n k)"
  using startedManager_ok [of cap n k] by (simp add: dp_running_def startedManager_fields)

lemma started_queue [simp]:
  "1 \<le> cap \<Longrightarrow> 1 \<le> n \<Longrightarrow> queued (startedManager cap n k) = []"
  "1 \<le> cap \<Longrightarrow> 1 \<le> n \<Longrightarrow> queueCapacity (startedManager cap n k) = cap"
  by (simp_all add: startedManager_fields newManager_def queued_def)

lemma example_accepted: "manager_validate [example_service ok] r = Inr (Success True)"
  by (simp add: manager_validate_def resolveTransferService_def example_service_def)

definition example_dataRequest :: dataRequest where
  "example_dataRequest =
     \<lparr>requestId = ''1'', requestProcessId = Some ''p'', connectorAddress = [], protocol = [], connectorId = [],
      assetId = ''a'', contractId = ''c'', dataDestination = Some [(''type'', ''AmazonS3'')], managedResources = False,
      requestProperties = [], requestTransferType = \<lparr>contentType = [], isFinite = True\<rparr>\<rparr>"

lemma example_handled: "flowController_canHandle example_dataRequest a = Inr True"
  by (simp add: flowController_canHandle_def example_dataRequest_def getDestinationType_def getType_def
      isBlankString_def HTTP_PROXY_def)

definition example_created :: dataFlowRequest where
  "example_created =
     \<lparr>flowId = Some ''u'', flowProcessId = ''p'', sourceDataAddress = [(''type'', ''HttpData'')],
      destinationDataAddress = [(''type'', ''AmazonS3'')], isTrackable = True, flowProperties = [], traceContext = []\<rparr>"

lemma example_createRequest:
  "createRequest ''u'' example_dataRequest (Some [(''type'', ''HttpData'')]) = Inr example_created"
  by (simp add: createRequest_def example_dataRequest_def getDestinationType_def getType_def example_created_def)

theorem control_answers_witness:
  "fst (control_initiateTransfer [example_service True] [] example_flow (startedManager 5 1 5)) = Inr (200, []) \<and>
   stateOf ''p'' (snd (control_initiateTransfer [example_service True] [] example_flow (startedManager 5 1 5))) = RECEIVED"
proof -
  have r: "dp_running 5 (startedManager 5 1 5)" by (simp add: started_running)
  obtain s' where c: "control_initiateTransfer [example_service True] [] example_flow (startedManager 5 1 5) = (Inr (200, []), s')"
    by (simp add: control_initiateTransfer_def example_accepted andThen_def dp_initiateTransfer_eq [OF r])
  have "flowProcessId example_flow = ''p''" by (simp add: example_flow_def)
  then show ?thesis
    using control_answers [OF r _ example_accepted [of True], of "[]" example_flow] by (simp add: c)
qed

theorem flow_delegated_witness:
  "queued (snd (flowController_initiate (embeddedTransfer [example_service True] []) ''u'' example_dataRequest
     (Some [(''type'', ''HttpData'')]) (startedManager 5 1 5))) = [example_created]"
proof -
  have r: "dp_running 5 (startedManager 5 1 5)" by (simp add: started_running)
  have "initiate [dataPlaneFlowController (embeddedTransfer [example_service True] []) ''u'' (startedManager 5 1 5)] example_dataRequest
      (Some [(''type'', ''HttpData'')]) () = Inr (StatusSuccess ())"
    by (simp add: initiate_def dataPlaneFlowController_def example_handled flowController_initiate_def
        example_createRequest embeddedTransfer_def example_accepted andThen_def dp_initiateTransfer_eq [OF r])
  from flow_delegated [OF r _ example_handled this refl] show ?thesis
    by (auto simp: example_dataRequest_def example_created_def)
qed

theorem flow_queue_full_is_fatal_witness:
  "initiate [dataPlaneFlowController (embeddedTransfer [example_service True] []) ''u'' (snd (dp_initiateTransfer [] example_flow (startedManager 1 1 5)))]
     example_dataRequest (Some [(''type'', ''HttpData'')]) () =
   Inr (StatusFailure FATAL_ERROR
     [''Unable to process data request 1. Data flow controller throws an exception: Queue full''])"
proof -
  have r: "dp_running 5 (startedManager 1 1 5)" by (simp add: started_running)
  let ?s = "snd (dp_initiateTransfer [] example_flow (startedManager 1 1 5))"
  have "queueCapacity ?s \<le> int (length (queued ?s))"
    by (simp add: dp_initiateTransfer_eq [OF r]) (simp add: queued_def)
  from flow_queue_full_is_fatal [OF dp_initiateTransfer_ok [OF r] this example_handled example_createRequest
      example_accepted [of True], of "[]" "()"]
  have "initiate [dataPlaneFlowController (embeddedTransfer [example_service True] []) ''u'' ?s] example_dataRequest (Some [(''type'', ''HttpData'')]) () =
      Inr (StatusFailure FATAL_ERROR [''Unable to process data request '' @ requestId example_dataRequest @
        ''. Data flow controller throws an exception: Queue full''])" by (rule conjunct1)
  then show ?thesis by (simp add: example_dataRequest_def)
qed

section \<open>The data plane a runtime is given\<close>

text \<open>
  \<open>DataPlaneFrameworkExtension\<close> with its default settings: a queue for 10000 requests, ten workers, and a store for
  the states of 1000 processes.
\<close>

definition frameworkManager :: dataPlaneManager where
  "frameworkManager = snd (dp_start (newManager 10000 10 1000))"

text \<open>Requests given to the control API one after the other.\<close>

definition initiateAll ::
  "transferService list \<Rightarrow> string jmap \<Rightarrow> dataFlowRequest list \<Rightarrow> dataPlaneManager \<Rightarrow> dataPlaneManager" where
  "initiateAll services trace rs s = fold (\<lambda>r s. snd (control_initiateTransfer services trace r s)) rs s"

definition validated :: "transferService list \<Rightarrow> dataFlowRequest \<Rightarrow> bool" where
  "validated services r \<longleftrightarrow> (case manager_validate services r of Inr (Success _) \<Rightarrow> True | _ \<Rightarrow> False)"

lemma control_validated:
  "validated services r \<Longrightarrow>
     snd (control_initiateTransfer services trace r s) = snd (dp_initiateTransfer trace r s)"
  by (auto simp: validated_def control_initiateTransfer_def andThen_def split: sum.splits result.splits prod.split)

lemma initiateAll_accepts:
  assumes "dp_running n s" "int (length (queued s) + length rs) \<le> queueCapacity s" "list_all (validated services) rs"
  shows "queued (initiateAll services trace rs s) = queued s @ map (\<lambda>r. r\<lparr>traceContext := trace\<rparr>) rs \<and>
    dpTaken (initiateAll services trace rs s) = dpTaken s \<and>
    dpStore (initiateAll services trace rs s) = storeCalls (map (\<lambda>r. Received (flowProcessId r)) rs) (dpStore s)"
  using assms
proof (induction rs arbitrary: s)
  case (Cons r rs)
  let ?t = "snd (control_initiateTransfer services trace r s)"
  have t: "?t = s\<lparr>dpQueue := Some (queued s @ [r\<lparr>traceContext := trace\<rparr>]),
             dpStore := received (flowProcessId r) (dpStore s), dpLog := dpLog s @ [Received (flowProcessId r)],
             dpAccepted := dpAccepted s @ [r\<lparr>traceContext := trace\<rparr>]\<rparr>"
    using Cons.prems by (simp add: control_validated dp_initiateTransfer_eq)
  have "dp_running n ?t"
    using Cons.prems dp_initiateTransfer_ok [of n s trace r] by (simp add: control_validated)
  moreover have "int (length (queued ?t) + length rs) \<le> queueCapacity ?t"
    using Cons.prems(2) by (simp add: t queued_def)
  ultimately have "queued (initiateAll services trace rs ?t) = queued ?t @ map (\<lambda>r. r\<lparr>traceContext := trace\<rparr>) rs \<and>
    dpTaken (initiateAll services trace rs ?t) = dpTaken ?t \<and>
    dpStore (initiateAll services trace rs ?t) = storeCalls (map (\<lambda>r. Received (flowProcessId r)) rs) (dpStore ?t)"
    using Cons.IH [of ?t] Cons.prems(3) by simp
  then show ?case by (simp add: initiateAll_def) (simp add: t queued_def)
qed (simp add: initiateAll_def)

lemma written_received: "writtenKeys (map (\<lambda>r. Received (flowProcessId r)) rs) = flowProcessId ` set rs"
  by (force simp: writtenKeys_def)

text \<open>
  With the default settings, of requests for different processes that are accepted one after the other,
  the first is no longer tracked when a thousand others have been accepted after it, though it is still the first
  in the queue, and no worker has taken any.
\<close>

theorem flow_state_forgotten:
  assumes "distinct (map flowProcessId (r # rs))" "1000 \<le> length rs" "length rs < 10000"
    and "list_all (validated services) (r # rs)"
    and "s = initiateAll services trace (r # rs) frameworkManager"
  shows "queued s = map (\<lambda>r. r\<lparr>traceContext := trace\<rparr>) (r # rs) \<and> dpTaken s = [] \<and>
    stateOf (flowProcessId r) s = NOT_TRACKED"
proof -
  have fm: "frameworkManager = startedManager 10000 10 1000"
    by (simp add: frameworkManager_def startedManager_def)
  have run: "dp_running 1000 frameworkManager" by (simp add: fm started_running)
  have start: "queued frameworkManager = []" "queueCapacity frameworkManager = 10000" "dpTaken frameworkManager = []"
    "dpStore frameworkManager = inMemoryDataPlaneStore 1000"
    by (simp_all add: fm startedManager_fields newManager_def queued_def)
  have s: "queued s = map (\<lambda>r. r\<lparr>traceContext := trace\<rparr>) (r # rs)" "dpTaken s = []"
    "dpStore s = storeCalls (map (\<lambda>r. Received (flowProcessId r)) (r # rs)) (inMemoryDataPlaneStore 1000)"
    using initiateAll_accepts [OF run, of "r # rs" services trace] assms(3,4) by (simp_all add: start assms(5))
  have "card (flowProcessId ` set rs) = length rs"
    using assms(1) by (metis distinct.simps(2) distinct_card length_map list.simps(9) set_map)
  then have "capacity (inMemoryDataPlaneStore 1000) \<le> card (writtenKeys (map (\<lambda>r. Received (flowProcessId r)) rs))"
    using assms(2) by (simp only: written_received) (simp add: inMemoryDataPlaneStore_def)
  moreover have "callKey c \<noteq> callKey (Received (flowProcessId r))"
    if "c \<in> set (map (\<lambda>r. Received (flowProcessId r)) rs)" for c
    using that assms(1) by (metis (no_types, lifting) callKey.simps(1) distinct.simps(2) imageE image_eqI list.set_map list.simps(9))
  ultimately have "fst (store_getState (callKey (Received (flowProcessId r)))
      (storeCalls (Received (flowProcessId r) # map (\<lambda>r. Received (flowProcessId r)) rs) (inMemoryDataPlaneStore 1000))) = NOT_TRACKED"
    by (intro state_evicted inMemoryDataPlaneStore_ok)
  then have "stateOf (flowProcessId r) s = NOT_TRACKED" by (simp only: s(3) list.map callKey.simps)
  with s show ?thesis by simp
qed

definition flow_number :: "nat \<Rightarrow> dataFlowRequest" where
  "flow_number i = example_flow\<lparr>flowProcessId := replicate i CHR ''p''\<rparr>"

lemma distinct_flow_numbers: "distinct (map flowProcessId (map flow_number [m..<n]))"
proof -
  have "inj (\<lambda>i. replicate i CHR ''p'')" by (metis injI length_replicate)
  then have "distinct (map (\<lambda>i. replicate i CHR ''p'') [m..<n])" by (auto simp: distinct_map inj_on_def)
  moreover have "map flowProcessId (map flow_number [m..<n]) = map (\<lambda>i. replicate i CHR ''p'') [m..<n]"
    by (simp add: flow_number_def)
  ultimately show ?thesis by (simp only:)
qed

lemma example_all_validated: "list_all (validated [example_service True]) rs"
  by (simp add: list_all_iff validated_def example_accepted)

theorem flow_state_forgotten_witness:
  "stateOf [] (initiateAll [example_service True] [] (map flow_number [0..<1001]) frameworkManager) = NOT_TRACKED"
proof -
  have "0 < (1001::nat)" by simp
  from upt_conv_Cons [OF this]
  have rs: "map flow_number [0..<1001] = flow_number 0 # map flow_number [Suc 0..<1001]" by (simp only: list.map)
  have d: "distinct (map flowProcessId (flow_number 0 # map flow_number [Suc 0..<1001]))"
    using distinct_flow_numbers [of 0 1001] by (simp only: rs)
  have l: "length (map flow_number [Suc 0..<1001]) = 1000" by (simp only: length_map length_upt)
  have "1000 \<le> length (map flow_number [Suc 0..<1001])" "length (map flow_number [Suc 0..<1001]) < 10000"
    unfolding l by simp_all
  from flow_state_forgotten [OF d this example_all_validated refl, of "[]"]
  have "stateOf (flowProcessId (flow_number 0))
      (initiateAll [example_service True] [] (map flow_number [0..<1001]) frameworkManager) = NOT_TRACKED"
    by (simp only: rs)
  moreover have "flowProcessId (flow_number 0) = []" by (simp add: flow_number_def)
  ultimately show ?thesis by simp
qed

text \<open>
  In a runtime with the framework, whatever factories are registered after it, a request whose
  destination has the type \<open>OutputStream\<close> is answered by a sink that succeeds without reading the source: the control
  API accepts it, and its process is reported as completed, and nothing has been moved.
\<close>

theorem output_stream_request_moves_nothing:
  fixes pipeline :: "'src pipelineService"
  assumes "getType (destinationDataAddress request) = Some ''OutputStream''"
    and "pipeline = registerAll sfs kfs frameworkPipeline"
    and "getSourceFactory pipeline request = Inr (Some sf)" "validateSource sf request = Inr (Success b)"
  shows "pipeline_validate pipeline request = Inr (Success True) \<and>
    pipeline_transfer pipeline request = orThrow (createSource sf request) (\<lambda>source. Inr (Done (Inr (StatusSuccess ()))))"
proof -
  have "getSinkFactory (frameworkPipeline :: 'src pipelineService) request = Inr (Some outputStreamDataSinkFactory)"
    using assms(1) by (simp add: getSinkFactory_def frameworkPipeline_def registerSinkFactory_def
        outputStreamDataSinkFactory_def outputStream_handles_def)
  then have "getSinkFactory pipeline request = Inr (Some outputStreamDataSinkFactory)"
    by (simp add: assms(2) getSinkFactory_registerAll)
  then show ?thesis using assms(1,3,4)
    by (simp add: pipeline_validate_def pipeline_transfer_def outputStreamDataSinkFactory_def outputStream_handles_def)
qed

theorem output_stream_request_moves_nothing_witness:
  "pipeline_transfer (registerAll [example_sourceFactory] [] frameworkPipeline) example_flow = Inr (Done (Inr (StatusSuccess ())))"
proof -
  have "getType (destinationDataAddress example_flow) = Some ''OutputStream''"
    by (simp add: example_flow_def getType_def)
  moreover have "getSourceFactory (registerAll [example_sourceFactory] [] frameworkPipeline) example_flow = Inr (Some example_sourceFactory)"
    "validateSource example_sourceFactory example_flow = Inr (Success True)"
    by (simp_all add: registerAll_def example_pipeline_defs)
  ultimately show ?thesis
    using output_stream_request_moves_nothing [OF _ refl] by (fastforce simp: example_sourceFactory_def)
qed

end
