(* ===== verification/Data_Plane_Selector.thy ===== *)
theory Data_Plane_Selector
  imports Data_Plane_Clients
begin

text \<open>
  Data planes of other runtimes: the selector of \<open>extensions/data-plane-selector\<close> (\<open>DataPlaneInstanceImpl\<close>,
  \<open>DefaultDataPlaneInstanceStore\<close>, the strategies, \<open>DataPlaneSelectorImpl\<close>, \<open>DataPlaneSelectorServiceImpl\<close> and
  its API), which chooses one of the known instances for a request, and \<open>RemoteDataPlaneTransferClient\<close> of
  \<open>extensions/data-plane-transfer/data-plane-transfer-client\<close>, which sends the request to the control API of the
  instance. What the network does with each attempt is an input.
\<close>

section \<open>DataPlaneInstanceImpl\<close>

text \<open>
  The properties of an instance, which nothing here reads, are left out. Only the destination types can be null:
  the builder lets them be overwritten with null when an instance is read from JSON.
\<close>

record dataPlaneInstance =
  instanceId :: string
  instanceUrl :: string
  allowedSourceTypes :: "string list"
  allowedDestTypes :: "string list option"
  turnCount :: int
  lastActive :: int

definition instance_canHandle ::
  "dataPlaneInstance \<Rightarrow> dataAddress option \<Rightarrow> dataAddress option \<Rightarrow> java_exn + bool" where
  "instance_canHandle i sourceAddress destinationAddress =
     (case (sourceAddress, destinationAddress) of
        (None, _) \<Rightarrow> Inl (NullPointerException ''source cannot be null!'')
      | (_, None) \<Rightarrow> Inl (NullPointerException ''destination cannot be null'')
      | (Some s, Some d) \<Rightarrow>
          if \<not> list_ex (\<lambda>t. getType s = Some t) (allowedSourceTypes i) then Inr False
          else case allowedDestTypes i of
                 None \<Rightarrow> Inl (NullPointerException [])
               | Some ts \<Rightarrow> Inr (list_ex (\<lambda>t. getType d = Some t) ts))"

text \<open>\<open>Builder.build\<close>: a missing identifier is random, a missing url is refused.\<close>

definition buildInstance ::
  "string \<Rightarrow> int \<Rightarrow> string option \<Rightarrow> string option \<Rightarrow> string list \<Rightarrow> string list option \<Rightarrow> java_exn + dataPlaneInstance" where
  "buildInstance uuid now ident url sources dests =
     (case url of
        None \<Rightarrow> Inl (NullPointerException ''DataPlaneInstance must have an URL'')
      | Some u \<Rightarrow>
          Inr \<lparr>instanceId = (case ident of None \<Rightarrow> uuid | Some x \<Rightarrow> x), instanceUrl = u,
               allowedSourceTypes = sources, allowedDestTypes = dests, turnCount = 0, lastActive = now\<rparr>)"

section \<open>DefaultDataPlaneInstanceStore\<close>

definition instance_save :: "dataPlaneInstance \<Rightarrow> dataPlaneInstance list \<Rightarrow> dataPlaneInstance list" where
  "instance_save i xs = filter (\<lambda>x. instanceId x \<noteq> instanceId i) xs @ [i]"

definition instance_saveAll :: "dataPlaneInstance list \<Rightarrow> dataPlaneInstance list \<Rightarrow> dataPlaneInstance list" where
  "instance_saveAll is xs = xs @ is"

definition instance_findById :: "string \<Rightarrow> dataPlaneInstance list \<Rightarrow> dataPlaneInstance option" where
  "instance_findById ident xs = find (\<lambda>x. instanceId x = ident) xs"

section \<open>Strategies\<close>

type_synonym selectionStrategy = "dataPlaneInstance list \<Rightarrow> java_exn + dataPlaneInstance option"

text \<open>\<open>n\<close> gives the random index: \<open>nextInt\<close> answers any number below its bound.\<close>

definition randomSelectionStrategy :: "nat \<Rightarrow> selectionStrategy" where
  "randomSelectionStrategy n instances =
     (if instances = [] then Inr None else Inr (Some (instances ! (n mod length instances))))"

text \<open>The registry, by name. The extension of the core registers the random strategy.\<close>

definition strategy_find :: "string option \<Rightarrow> selectionStrategy jmap \<Rightarrow> selectionStrategy option" where
  "strategy_find strategyName registry = (case strategyName of None \<Rightarrow> None | Some s \<Rightarrow> map_of registry s)"

definition strategy_add :: "string \<Rightarrow> selectionStrategy \<Rightarrow> selectionStrategy jmap \<Rightarrow> selectionStrategy jmap" where
  "strategy_add strategyName strategy registry = put strategyName strategy registry"

definition coreStrategies :: "nat \<Rightarrow> selectionStrategy jmap" where
  "coreStrategies n = strategy_add ''random'' (randomSelectionStrategy n) []"

section \<open>DataPlaneSelectorImpl and DataPlaneSelectorServiceImpl\<close>

definition selector_select ::
  "dataPlaneInstance list \<Rightarrow> dataAddress option \<Rightarrow> dataAddress option \<Rightarrow> selectionStrategy \<Rightarrow>
   java_exn + dataPlaneInstance option" where
  "selector_select instances sourceAddress destinationAddress strategy =
     orThrow (flatMapOrThrow (\<lambda>i. instance_canHandle i sourceAddress destinationAddress) (\<lambda>i. Inr [i]) instances) strategy"

definition service_select ::
  "selectionStrategy jmap \<Rightarrow> dataPlaneInstance list \<Rightarrow> dataAddress option \<Rightarrow> dataAddress option \<Rightarrow> string option \<Rightarrow>
   java_exn + dataPlaneInstance option" where
  "service_select registry instances source destination selectionStrategy =
     (case strategy_find selectionStrategy registry of
        None \<Rightarrow> Inl (IllegalArgumentException (''Strategy '' @ shown selectionStrategy @ '' was not found''))
      | Some strategy \<Rightarrow> selector_select instances source destination strategy)"

text \<open>\<open>DataplaneSelectorApiController.find\<close>: without the name of a strategy it is a random one.\<close>

definition selectorApi_find ::
  "nat \<Rightarrow> selectionStrategy jmap \<Rightarrow> dataPlaneInstance list \<Rightarrow> dataAddress option \<Rightarrow> dataAddress option \<Rightarrow>
   string option \<Rightarrow> java_exn + dataPlaneInstance option" where
  "selectorApi_find n registry instances source destination strategy =
     (if strategy \<noteq> None then service_select registry instances source destination strategy
      else selector_select instances source destination (randomSelectionStrategy n))"

section \<open>RemoteDataPlaneTransferClient\<close>

text \<open>
  The body of a response to a request that failed: none, one that cannot be read, one whose errors are null, or
  errors.
\<close>

datatype errorBody = NoBody | Unreadable | NullErrors | ErrorsOf "string list"

record httpAnswer =
  answerCode :: nat
  answerBody :: errorBody

definition formatErrorMessage :: "errorBody \<Rightarrow> java_exn + string" where
  "formatErrorMessage body =
     (case body of
        NoBody \<Rightarrow> Inr ''null response body''
      | Unreadable \<Rightarrow> Inr ''failed to read response body''
      | NullErrors \<Rightarrow> Inl (NullPointerException [])
      | ErrorsOf es \<Rightarrow> Inr (join '', '' es))"

definition remote_handleResponse :: "httpAnswer \<Rightarrow> string option \<Rightarrow> java_exn + unit statusResult" where
  "remote_handleResponse answer flowIdent =
     (if 200 \<le> answerCode answer \<and> answerCode answer < 300 then Inr (StatusSuccess ())
      else orThrow (formatErrorMessage (answerBody answer)) (\<lambda>errorMsg.
        Inr (StatusFailure FATAL_ERROR
          [''Transfer request failed with status code '' @ showNat (answerCode answer) @ '' for request '' @
           shown flowIdent @ '': '' @ errorMsg])))"

text \<open>
  An attempt of the retry policy: the request does not reach the other runtime, or its answer is lost, or the
  answer arrives. When no attempts are left the policy throws \<open>lastFailure\<close>. \<open>server\<close> is the other runtime.
\<close>

datatype attempt = NotReached | AnswerLost | Answered

primrec executeRequest ::
  "('s \<Rightarrow> httpAnswer \<times> 's) \<Rightarrow> java_exn \<Rightarrow> attempt list \<Rightarrow> ('s, httpAnswer) op" where
  "executeRequest server lastFailure [] s = (Inl lastFailure, s)"
| "executeRequest server lastFailure (a # as) s =
     (case a of
        NotReached \<Rightarrow> executeRequest server lastFailure as s
      | AnswerLost \<Rightarrow> executeRequest server lastFailure as (snd (server s))
      | Answered \<Rightarrow> (let (answer, s') = server s in (Inr answer, s')))"

text \<open>
  The control API of a data plane as the client sees it: an exception in it is an internal error of the web
  server, with a body of its own.
\<close>

definition controlServer ::
  "transferService list \<Rightarrow> string jmap \<Rightarrow> errorBody \<Rightarrow> dataFlowRequest \<Rightarrow> dataPlaneManager \<Rightarrow> httpAnswer \<times> dataPlaneManager" where
  "controlServer services trace internalError request s =
     (case control_initiateTransfer services trace request s of
        (Inl e, s') \<Rightarrow> (\<lparr>answerCode = 500, answerBody = internalError\<rparr>, s')
      | (Inr (status, errors), s') \<Rightarrow>
          (\<lparr>answerCode = status, answerBody = (if status = 200 then NoBody else ErrorsOf errors)\<rparr>, s'))"

text \<open>The data planes by their url, one of which serves.\<close>

type_synonym dataPlanes = "string \<Rightarrow> dataPlaneManager"

definition atUrl ::
  "string \<Rightarrow> (dataPlaneManager \<Rightarrow> httpAnswer \<times> dataPlaneManager) \<Rightarrow> dataPlanes \<Rightarrow> httpAnswer \<times> dataPlanes" where
  "atUrl url server planes = (let (answer, s') = server (planes url) in (answer, planes(url := s')))"

text \<open>\<open>selectorFind\<close> is the answer of the selector client to the addresses of the request.\<close>

definition remoteTransfer ::
  "(dataAddress option \<Rightarrow> dataAddress option \<Rightarrow> java_exn + dataPlaneInstance option) \<Rightarrow>
   (dataFlowRequest \<Rightarrow> dataPlaneManager \<Rightarrow> httpAnswer \<times> dataPlaneManager) \<Rightarrow> java_exn \<Rightarrow> attempt list \<Rightarrow>
   dataFlowRequest \<Rightarrow> (dataPlanes, unit statusResult) op" where
  "remoteTransfer selectorFind server lastFailure attempts request =
     andThen (liftE (selectorFind (Some (sourceDataAddress request)) (Some (destinationDataAddress request)))) (\<lambda>found.
       case found of
         None \<Rightarrow> ret (StatusFailure FATAL_ERROR
                   [''Failed to find data plane instance supporting request: '' @ shown (flowId request)])
       | Some i \<Rightarrow>
           andThen (executeRequest (atUrl (instanceUrl i) (server request)) lastFailure attempts) (\<lambda>answer.
             liftE (remote_handleResponse answer (flowId request))))"

section \<open>The store as a map\<close>

text \<open>What was saved last under an identifier.\<close>

definition lastSaved :: "string \<Rightarrow> dataPlaneInstance list \<Rightarrow> dataPlaneInstance option" where
  "lastSaved ident saves = find (\<lambda>i. instanceId i = ident) (rev saves)"

definition savedInstances :: "dataPlaneInstance list \<Rightarrow> dataPlaneInstance list" where
  "savedInstances saves = fold instance_save saves []"

lemma savedInstances_snoc: "savedInstances (saves @ [i]) = instance_save i (savedInstances saves)"
  by (simp add: savedInstances_def)

lemma lastSaved_snoc: "lastSaved ident (saves @ [i]) = (if instanceId i = ident then Some i else lastSaved ident saves)"
  by (simp add: lastSaved_def)

lemma lastSaved_mem: "lastSaved ident saves = Some i \<Longrightarrow> i \<in> set saves \<and> instanceId i = ident"
  by (induction saves rule: rev_induct) (auto simp: lastSaved_def split: if_splits)

lemma savedInstances_mem: "i \<in> set (savedInstances saves) \<longleftrightarrow> lastSaved (instanceId i) saves = Some i"
proof (induction saves rule: rev_induct)
  case (snoc x xs)
  then show ?case by (auto simp: savedInstances_snoc instance_save_def lastSaved_snoc)
qed (simp add: savedInstances_def lastSaved_def)

lemma savedInstances_distinct: "distinct (map instanceId (savedInstances saves))"
proof (induction saves rule: rev_induct)
  case (snoc x xs)
  then show ?case by (auto simp: savedInstances_snoc instance_save_def distinct_map_filter)
qed (simp add: savedInstances_def)

lemma findById_saved: "instance_findById ident (savedInstances saves) = lastSaved ident saves"
proof (cases "instance_findById ident (savedInstances saves)")
  case None
  then have unknown: "instanceId i \<noteq> ident" if "i \<in> set (savedInstances saves)" for i
    using that by (auto simp: instance_findById_def find_None_iff)
  have "lastSaved ident saves \<noteq> Some i" for i
  proof
    assume i: "lastSaved ident saves = Some i"
    then have "instanceId i = ident" using lastSaved_mem by blast
    then show False using unknown [of i] i savedInstances_mem [of i saves] by blast
  qed
  then have "lastSaved ident saves = None" by blast
  then show ?thesis using None by simp
next
  case (Some i)
  then have "i \<in> set (savedInstances saves)" "instanceId i = ident"
    by (auto simp: instance_findById_def find_Some_iff)
  then show ?thesis using Some savedInstances_mem by auto
qed

text \<open>\<open>saveAll\<close> does not replace: the old instance is still the one that is found.\<close>

lemma saveAll_keeps_old:
  "instance_findById ident xs = Some i \<Longrightarrow> instance_findById ident (instance_saveAll is xs) = Some i"
  by (induction xs) (auto simp: instance_findById_def instance_saveAll_def)

section \<open>What a strategy promises\<close>

lemma handle_throws:
  "\<not> (\<forall>i \<in> set instances. \<exists>b. instance_canHandle i s d = Inr b) \<Longrightarrow>
   \<exists>e. flatMapOrThrow (\<lambda>i. instance_canHandle i s d) (\<lambda>i. Inr [i]) instances = Inl e \<and>
     (\<exists>i \<in> set instances. instance_canHandle i s d = Inl e)"
proof (induction instances)
  case (Cons i js)
  show ?case
  proof (cases "instance_canHandle i s d")
    case (Inr b)
    then have "\<not> (\<forall>i \<in> set js. \<exists>b. instance_canHandle i s d = Inr b)" using Cons.prems by auto
    from Cons.IH [OF this] obtain e where "flatMapOrThrow (\<lambda>i. instance_canHandle i s d) (\<lambda>i. Inr [i]) js = Inl e"
      "\<exists>i \<in> set js. instance_canHandle i s d = Inl e" by blast
    with Inr show ?thesis by (cases b) auto
  qed simp
qed simp

text \<open>A strategy answers one of the instances, if there is one.\<close>

locale selection_strategy =
  fixes strategy :: selectionStrategy
  assumes chooses: "xs \<noteq> [] \<Longrightarrow> \<exists>x \<in> set xs. strategy xs = Inr (Some x)"
    and none: "strategy [] = Inr None"
begin

text \<open>
  So the selector answers an instance that handles the request, and none exactly if no instance does, unless
  an instance throws when it is asked.
\<close>

lemma selected:
  "case selector_select instances s d strategy of
     Inl e \<Rightarrow> \<exists>i \<in> set instances. instance_canHandle i s d = Inl e
   | Inr r \<Rightarrow> (\<forall>i \<in> set instances. \<exists>b. instance_canHandle i s d = Inr b) \<and>
       (case r of
          None \<Rightarrow> \<forall>i \<in> set instances. instance_canHandle i s d = Inr False
        | Some i \<Rightarrow> i \<in> set instances \<and> instance_canHandle i s d = Inr True)"
proof (cases "\<forall>i \<in> set instances. \<exists>b. instance_canHandle i s d = Inr b")
  case False
  have "\<exists>e. flatMapOrThrow (\<lambda>i. instance_canHandle i s d) (\<lambda>i. Inr [i]) instances = Inl e \<and>
      (\<exists>i \<in> set instances. instance_canHandle i s d = Inl e)"
    using False by (rule handle_throws)
  then show ?thesis by (auto simp: selector_select_def)
next
  case all: True
  let ?h = "\<lambda>i. instance_canHandle i s d = Inr True"
  have "flatMapOrThrow (\<lambda>i. instance_canHandle i s d) (\<lambda>i. Inr [i]) instances = Inr (filter ?h instances)"
    using all
  proof (induction instances)
    case (Cons i js)
    then obtain b where b: "instance_canHandle i s d = Inr b" by auto
    have rest: "flatMapOrThrow (\<lambda>i. instance_canHandle i s d) (\<lambda>i. Inr [i]) js = Inr (filter ?h js)"
      by (rule Cons.IH) (use Cons.prems in simp)
    show ?case by (cases b) (simp_all add: b rest)
  qed simp
  then have eq: "selector_select instances s d strategy = strategy (filter ?h instances)" by (simp add: selector_select_def)
  show ?thesis
  proof (cases "filter ?h instances = []")
    case True
    have "instance_canHandle i s d = Inr False" if i: "i \<in> set instances" for i
    proof -
      obtain b where b: "instance_canHandle i s d = Inr b" using all i by blast
      have "\<not> ?h i" using True i by (metis (mono_tags, lifting) filter_empty_conv)
      then show ?thesis using b by (cases b) simp_all
    qed
    then show ?thesis using True all by (simp add: eq none)
  next
    case False
    from chooses [OF this] obtain x where "x \<in> set (filter ?h instances)" "strategy (filter ?h instances) = Inr (Some x)" by blast
    then show ?thesis using all by (simp add: eq)
  qed
qed

end

interpretation random: selection_strategy "randomSelectionStrategy n" for n
  by unfold_locales (auto simp: randomSelectionStrategy_def)

text \<open>An instance whose destination types are null throws for a source it allows.\<close>

definition handle_undefined :: "dataAddress \<Rightarrow> dataPlaneInstance \<Rightarrow> bool" where
  "handle_undefined s i \<longleftrightarrow> allowedDestTypes i = None \<and> (\<exists>t \<in> set (allowedSourceTypes i). getType s = Some t)"

lemma canHandle_throws:
  "instance_canHandle i (Some s) (Some d) = Inl e \<longleftrightarrow> handle_undefined s i \<and> e = NullPointerException []"
  by (auto simp: instance_canHandle_def handle_undefined_def list_ex_iff split: option.split)

text \<open>
  (C18) Whatever instances were added through the API, a request for the default strategy, or by its name: it
  throws exactly if one of the instances that were added last under their identifiers has no destination types
  (null) and allows the type of the source, however well others handle the request; else it answers the last
  instance added under some identifier, which handles both addresses, or none exactly if none of the instances
  added last under their identifiers does.
\<close>

theorem selected_plane:
  assumes "strategy = None \<or> strategy = Some ''random''"
  shows "case selectorApi_find m (coreStrategies n) (savedInstances saves) (Some s) (Some d) strategy of
      Inl e \<Rightarrow> e = NullPointerException [] \<and>
        (\<exists>ident i. lastSaved ident saves = Some i \<and> handle_undefined s i)
    | Inr r \<Rightarrow> \<not> (\<exists>ident i. lastSaved ident saves = Some i \<and> handle_undefined s i) \<and>
        (case r of
           None \<Rightarrow> \<forall>ident i. lastSaved ident saves = Some i \<longrightarrow> instance_canHandle i (Some s) (Some d) = Inr False
         | Some i \<Rightarrow> lastSaved (instanceId i) saves = Some i \<and> instance_canHandle i (Some s) (Some d) = Inr True)"
proof -
  obtain k where k: "selectorApi_find m (coreStrategies n) (savedInstances saves) (Some s) (Some d) strategy =
      selector_select (savedInstances saves) (Some s) (Some d) (randomSelectionStrategy k)"
    using assms by (auto simp: selectorApi_find_def service_select_def strategy_find_def coreStrategies_def strategy_add_def)
  have mem: "(\<exists>ident. lastSaved ident saves = Some i) \<longleftrightarrow> i \<in> set (savedInstances saves)" for i
    using lastSaved_mem [of _ saves i] by (auto simp: savedInstances_mem)
  have undefined: "(\<exists>e. instance_canHandle i (Some s) (Some d) = Inl e) \<longleftrightarrow> handle_undefined s i" for i
    by (simp add: canHandle_throws)
  show ?thesis
  proof (cases "selector_select (savedInstances saves) (Some s) (Some d) (randomSelectionStrategy k)")
    case (Inl e)
    then obtain i where i: "i \<in> set (savedInstances saves)" "instance_canHandle i (Some s) (Some d) = Inl e"
      using random.selected [of "savedInstances saves" "Some s" "Some d" k] by auto
    then obtain ident where "lastSaved ident saves = Some i" using mem [of i] by blast
    with Inl i(2) show ?thesis by (auto simp: k canHandle_throws)
  next
    case (Inr r)
    note sel = random.selected [of "savedInstances saves" "Some s" "Some d" k, unfolded Inr sum.case]
    have "\<not> handle_undefined s i" if "lastSaved ident saves = Some i" for ident i
    proof -
      have "i \<in> set (savedInstances saves)" using that mem [of i] by blast
      with sel obtain b where "instance_canHandle i (Some s) (Some d) = Inr b" by blast
      then show ?thesis using undefined [of i] by (metis sum.distinct(1))
    qed
    moreover have "i \<in> set (savedInstances saves)" if "lastSaved ident saves = Some i" for ident i
      using that mem [of i] by blast
    ultimately show ?thesis using Inr sel by (cases r) (auto simp: k savedInstances_mem [symmetric])
  qed
qed

section \<open>A remote transfer\<close>

text \<open>How often an attempt reaches the other runtime, until one is answered.\<close>

definition timesReached :: "attempt list \<Rightarrow> nat" where
  "timesReached attempts =
     length (filter (\<lambda>a. a = AnswerLost) (takeWhile (\<lambda>a. a \<noteq> Answered) attempts)) + (if Answered \<in> set attempts then 1 else 0)"

definition withTrace :: "string jmap \<Rightarrow> dataFlowRequest \<Rightarrow> dataFlowRequest" where
  "withTrace trace r = r\<lparr>traceContext := trace\<rparr>"

lemma controlServer_accepts:
  assumes "dp_running k s" "manager_validate services fr = Inr (Success b)" "int (length (queued s)) < queueCapacity s"
  shows "fst (controlServer services trace err fr s) = \<lparr>answerCode = 200, answerBody = NoBody\<rparr>"
    and "dp_running k (snd (controlServer services trace err fr s))"
    and "queued (snd (controlServer services trace err fr s)) = queued s @ [withTrace trace fr]"
    and "queueCapacity (snd (controlServer services trace err fr s)) = queueCapacity s"
  using assms dp_initiateTransfer_ok [OF assms(1), of trace fr]
  by (simp_all add: controlServer_def control_initiateTransfer_def andThen_def dp_initiateTransfer_eq [OF assms(1)]
      queued_def withTrace_def)

lemma executeRequest_copies:
  assumes "dp_running k (planes url)" "manager_validate services fr = Inr (Success b)"
    and "int (length (queued (planes url)) + timesReached attempts) \<le> queueCapacity (planes url)"
  shows "\<exists>t. executeRequest (atUrl url (controlServer services trace err fr)) lastFailure attempts planes =
      (if Answered \<in> set attempts then Inr \<lparr>answerCode = 200, answerBody = NoBody\<rparr> else Inl lastFailure, planes(url := t)) \<and>
    queued t = queued (planes url) @ replicate (timesReached attempts) (withTrace trace fr)"
  using assms
proof (induction attempts arbitrary: planes)
  case Nil
  show ?case by (rule exI [of _ "planes url"]) (simp add: timesReached_def)
next
  case (Cons a as)
  let ?sv = "controlServer services trace err fr"
  show ?case
  proof (cases "a = NotReached")
    case True
    then have "timesReached (a # as) = timesReached as" by (simp add: timesReached_def)
    then show ?thesis using Cons.IH [of planes] Cons.prems True by simp
  next
    case False
    then have t: "timesReached (a # as) = Suc (if a = Answered then 0 else timesReached as)"
      by (cases a) (simp_all add: timesReached_def)
    then have "int (length (queued (planes url))) < queueCapacity (planes url)" using Cons.prems(3) by (simp split: if_splits)
    note ok = controlServer_accepts [OF Cons.prems(1,2) this, of trace err]
    obtain ans s' where sv: "?sv (planes url) = (ans, s')" by fastforce
    have ok': "ans = \<lparr>answerCode = 200, answerBody = NoBody\<rparr>" "dp_running k s'" "queued s' = queued (planes url) @ [withTrace trace fr]"
      "queueCapacity s' = queueCapacity (planes url)" using ok by (simp_all add: sv)
    show ?thesis
    proof (cases "a = Answered")
      case True
      then show ?thesis using ok' t by (intro exI [of _ s']) (simp add: atUrl_def sv fun_upd_def)
    next
      case notAnswered: False
      then have a: "a = AnswerLost" using False by (cases a) simp_all
      have "int (length (queued s') + timesReached as) \<le> queueCapacity s'" using Cons.prems(3) t ok' notAnswered by simp
      from Cons.IH [of "planes(url := s')"] Cons.prems(2) ok' this obtain t where
        t': "executeRequest (atUrl url ?sv) lastFailure as (planes(url := s')) =
          (if Answered \<in> set as then Inr \<lparr>answerCode = 200, answerBody = NoBody\<rparr> else Inl lastFailure, planes(url := t))"
        "queued t = queued s' @ replicate (timesReached as) (withTrace trace fr)" by (auto simp: fun_upd_same fun_upd_upd simp del: fun_upd_apply)
      have "snd (atUrl url ?sv planes) = planes(url := s')" by (simp add: atUrl_def sv)
      then have "executeRequest (atUrl url ?sv) lastFailure (a # as) planes =
          executeRequest (atUrl url ?sv) lastFailure as (planes(url := s'))" by (simp add: a del: fun_upd_apply)
      then show ?thesis using t' ok'(3) t a by (intro exI [of _ t]) (simp del: fun_upd_apply)
    qed
  qed
qed

text \<open>
  (C19) A transfer through the selected data plane succeeds if an attempt is answered and the request is valid there,
  and its queue has room; the request is then in its queue, but once more for each attempt whose answer was lost:
  neither side recognises a request that is sent again, and its data is transferred as often.
\<close>

theorem remote_transfer_copies:
  assumes "selectorFind (Some (sourceDataAddress fr)) (Some (destinationDataAddress fr)) = Inr (Some i)"
    and "dp_running k (planes (instanceUrl i))" "manager_validate services fr = Inr (Success b)"
    and "int (length (queued (planes (instanceUrl i))) + timesReached attempts) \<le> queueCapacity (planes (instanceUrl i))"
  shows "\<exists>t. remoteTransfer selectorFind (controlServer services trace err) lastFailure attempts fr planes =
      (if Answered \<in> set attempts then Inr (StatusSuccess ()) else Inl lastFailure, planes(instanceUrl i := t)) \<and>
    queued t = queued (planes (instanceUrl i)) @ replicate (timesReached attempts) (withTrace trace fr)"
  using executeRequest_copies [where planes = planes and url = "instanceUrl i", OF assms(2,3,4), of trace err lastFailure]
  by (auto simp: remoteTransfer_def andThen_def liftE_def assms(1) remote_handleResponse_def)

section \<open>Examples\<close>

definition example_instance :: "string \<Rightarrow> dataPlaneInstance" where
  "example_instance dest =
     \<lparr>instanceId = ''dp'', instanceUrl = ''http://dp'', allowedSourceTypes = [''HttpData''],
      allowedDestTypes = Some [dest], turnCount = 0, lastActive = 0\<rparr>"

theorem selected_plane_witness:
  "selectorApi_find 7 (coreStrategies 3) (savedInstances [example_instance ''OutputStream'', example_instance ''HttpData''])
     (Some [(''type'', ''HttpData'')]) (Some [(''type'', ''HttpData'')]) None = Inr (Some (example_instance ''HttpData'')) \<and>
   selectorApi_find 7 (coreStrategies 3)
     (savedInstances [example_instance ''HttpData'', (example_instance ''HttpData'')\<lparr>instanceId := ''other'', allowedDestTypes := None\<rparr>])
     (Some [(''type'', ''HttpData'')]) (Some [(''type'', ''HttpData'')]) None = Inl (NullPointerException [])"
proof
  let ?saves = "[example_instance ''OutputStream'', example_instance ''HttpData'']"
  have last: "lastSaved ident ?saves = (if ident = ''dp'' then Some (example_instance ''HttpData'') else None)" for ident
    by (simp add: lastSaved_def example_instance_def)
  have "instance_canHandle (example_instance ''HttpData'') (Some [(''type'', ''HttpData'')]) (Some [(''type'', ''HttpData'')]) = Inr True"
    "\<not> handle_undefined [(''type'', ''HttpData'')] (example_instance ''HttpData'')"
    by (simp_all add: instance_canHandle_def handle_undefined_def example_instance_def getType_def)
  then show "selectorApi_find 7 (coreStrategies 3) (savedInstances ?saves)
     (Some [(''type'', ''HttpData'')]) (Some [(''type'', ''HttpData'')]) None = Inr (Some (example_instance ''HttpData''))"
    using selected_plane [where strategy = None and m = 7 and n = 3 and saves = ?saves and s = "[(''type'', ''HttpData'')]" and d = "[(''type'', ''HttpData'')]"]
    by (auto simp: last split: option.splits if_splits sum.splits)
next
  let ?other = "(example_instance ''HttpData'')\<lparr>instanceId := ''other'', allowedDestTypes := None\<rparr>"
  let ?saves = "[example_instance ''HttpData'', ?other]"
  have "lastSaved ''other'' ?saves = Some ?other" "handle_undefined [(''type'', ''HttpData'')] ?other"
    by (simp_all add: lastSaved_def handle_undefined_def example_instance_def getType_def)
  then have "\<exists>ident i. lastSaved ident ?saves = Some i \<and> handle_undefined [(''type'', ''HttpData'')] i" by blast
  then show "selectorApi_find 7 (coreStrategies 3) (savedInstances ?saves)
     (Some [(''type'', ''HttpData'')]) (Some [(''type'', ''HttpData'')]) None = Inl (NullPointerException [])"
    using selected_plane [where strategy = None and m = 7 and n = 3 and saves = ?saves and s = "[(''type'', ''HttpData'')]" and d = "[(''type'', ''HttpData'')]"]
    by (auto split: sum.splits)
qed

theorem remote_transfer_copies_witness:
  "\<exists>t. remoteTransfer (\<lambda>_ _. Inr (Some (example_instance ''OutputStream''))) (controlServer [example_service True] [] Unreadable)
       (EdcException []) [NotReached, AnswerLost, Answered] example_flow (\<lambda>_. startedManager 5 1 5) =
      (Inr (StatusSuccess ()), (\<lambda>_. startedManager 5 1 5)(''http://dp'' := t)) \<and>
    length (queued t) = 2"
proof -
  have u: "instanceUrl (example_instance d) = ''http://dp''" for d by (simp add: example_instance_def)
  have n: "timesReached [NotReached, AnswerLost, Answered] = 2" by (simp add: timesReached_def)
  have r: "dp_running 5 (startedManager 5 1 5)" by (simp add: started_running)
  obtain t where t: "remoteTransfer (\<lambda>_ _. Inr (Some (example_instance ''OutputStream''))) (controlServer [example_service True] [] Unreadable)
       (EdcException []) [NotReached, AnswerLost, Answered] example_flow (\<lambda>_. startedManager 5 1 5) =
      (Inr (StatusSuccess ()), (\<lambda>_. startedManager 5 1 5)(''http://dp'' := t))"
    "queued t = [] @ replicate 2 (withTrace [] example_flow)"
    using remote_transfer_copies [where planes = "\<lambda>_. startedManager 5 1 5" and i = "example_instance ''OutputStream''"
        and selectorFind = "\<lambda>_ _. Inr (Some (example_instance ''OutputStream''))" and fr = example_flow,
        OF refl r example_accepted [of True], of "[NotReached, AnswerLost, Answered]" "[]" Unreadable "EdcException []"]
    by (auto simp: u n)
  then show ?thesis by auto
qed

end
