(* ===== verification/Federated_Cache.thy ===== *)
theory Federated_Cache
  imports Contract_Services
begin

text \<open>
  The cache of the federated catalog, \<open>extensions/catalog/federated-catalog-cache\<close>: \<open>BatchedRequestFetcher\<close>,
  which reads the catalog of another connector page by page; \<open>InMemoryFederatedCacheStore\<close> and \<open>LoaderImpl\<close>,
  which keep what was read; \<open>LoaderManagerImpl\<close>, which loads it in batches; and the queries of its API. The
  order in which a \<open>ConcurrentHashMap\<close> iterates is that of the association list.
\<close>

section \<open>BatchedRequestFetcher\<close>

text \<open>
  \<open>send\<close> is the dispatcher: the answer of the other connector to a range, or the exception of the future. The
  recursion need not end.
\<close>

partial_function (option) fetch ::
  "(range \<Rightarrow> java_exn + 'o list) \<Rightarrow> int \<Rightarrow> int \<Rightarrow> (java_exn + 'o list) option" where
  "fetch send from batchSize =
     (case send \<lparr>fromIndex = from, toIndex = i32 (from + batchSize)\<rparr> of
        Inl e \<Rightarrow> Some (Inl e)
      | Inr offers \<Rightarrow>
          if offers = [] then Some (Inr [])
          else Option.bind (fetch send (i32 (from + batchSize)) batchSize) (\<lambda>rest.
                 Some (case rest of Inl e \<Rightarrow> Inl e | Inr others \<Rightarrow> Inr (offers @ others))))"

text \<open>The url an adapter for IDS asks: the path of the messages is appended unless it is there.\<close>

definition endsWith :: "string \<Rightarrow> string \<Rightarrow> bool" where
  "endsWith s t \<longleftrightarrow> take (length t) (rev s) = rev t"

definition getNodeUrl :: "string \<Rightarrow> string" where
  "getNodeUrl url = (if endsWith url ''/ids/data'' then url else url @ ''/api/v1/ids/data'')"

lemma getNodeUrl_idem: "getNodeUrl (getNodeUrl url) = getNodeUrl url"
  by (simp add: getNodeUrl_def endsWith_def)

section \<open>InMemoryFederatedCacheStore and LoaderImpl\<close>

record 'pol markableEntry =
  isMarked :: bool
  cachedOffer :: "'pol contractOffer"

type_synonym 'pol cacheStore = "'pol markableEntry jmap"

definition cache_save :: "'pol contractOffer \<Rightarrow> ('pol cacheStore, unit) op" where
  "cache_save offer =
     (case offerAsset offer of
        None \<Rightarrow> throw (NullPointerException ''getAsset'')
      | Some a \<Rightarrow> modify (put (theAssetId a) \<lparr>isMarked = False, cachedOffer = offer\<rparr>))"

text \<open>The criteria are converted before the entries are read.\<close>

definition cache_query ::
  "(criterion \<Rightarrow> java_exn + ('pol contractOffer \<Rightarrow> bool)) \<Rightarrow> criterion list \<Rightarrow> 'pol cacheStore \<Rightarrow>
   java_exn + 'pol contractOffer list" where
  "cache_query converter query cache' =
     orThrow (mapOrThrow converter query) (\<lambda>ps.
       Inr (filter (\<lambda>offer. list_all (\<lambda>p. p offer) ps) (map (\<lambda>e. cachedOffer (snd e)) cache')))"

definition deleteExpired :: "'pol cacheStore \<Rightarrow> 'pol cacheStore" where
  "deleteExpired = filter (\<lambda>e. \<not> isMarked (snd e))"

definition expireAll :: "'pol cacheStore \<Rightarrow> 'pol cacheStore" where
  "expireAll = map (\<lambda>(k, e). (k, \<lparr>isMarked = True, cachedOffer = cachedOffer e\<rparr>))"

text \<open>The store a runtime has by default: its converter makes every criterion hold.\<close>

definition defaultConverter :: "criterion \<Rightarrow> java_exn + ('pol contractOffer \<Rightarrow> bool)" where
  "defaultConverter c = Inr (\<lambda>offer. True)"

record 'pol updateResponse =
  responseSource :: string
  responseOffers :: "'pol contractOffer list"

text \<open>
  \<open>IdsMultipartNodeQueryAdapter.sendRequest\<close>: pages of 100, from the connector at the url; its answer names the
  url that was asked as its source.
\<close>

definition ids_sendRequest ::
  "(string \<Rightarrow> range \<Rightarrow> java_exn + 'pol contractOffer list) \<Rightarrow> string \<Rightarrow> (java_exn + 'pol updateResponse) option" where
  "ids_sendRequest send nodeUrl =
     map_option (\<lambda>r. case r of
         Inl e \<Rightarrow> Inl e
       | Inr offers \<Rightarrow> Inr \<lparr>responseSource = getNodeUrl nodeUrl, responseOffers = offers\<rparr>)
       (fetch (send (getNodeUrl nodeUrl)) 0 100)"

definition PROPERTY_ORIGINATOR :: string where
  "PROPERTY_ORIGINATOR = ''asset:prop:originator''"

text \<open>What the loader does with an offer: it writes the originator into the asset and saves the offer.\<close>

definition withOriginator :: "string \<Rightarrow> asset \<Rightarrow> asset" where
  "withOriginator source a = a\<lparr>assetProperties := put PROPERTY_ORIGINATOR source (assetProperties a)\<rparr>"

definition loadOffer :: "string \<Rightarrow> 'pol contractOffer \<Rightarrow> ('pol cacheStore, unit) op" where
  "loadOffer source offer =
     (case offerAsset offer of
        None \<Rightarrow> throw (NullPointerException ''getAsset'')
      | Some a \<Rightarrow> cache_save (offer\<lparr>offerAsset := Some (withOriginator source a)\<rparr>))"

definition loader_load :: "'pol updateResponse list \<Rightarrow> ('pol cacheStore, unit) op" where
  "loader_load responses =
     forEachM responses (\<lambda>response. forEachM (responseOffers response) (loadOffer (responseSource response)))"

definition loader_clear :: "'pol cacheStore \<Rightarrow> 'pol cacheStore" where
  "loader_clear s = expireAll (deleteExpired s)"

section \<open>LoaderManagerImpl\<close>

text \<open>
  One iteration of \<open>beginDequeue\<close>, with one loader: it loads a batch if the queue holds one, else it waits. An
  exception of the loader leaves the loop, and the batch is gone; nobody sees the exception.
\<close>

record 'pol loaderManager =
  loadQueue :: "'pol updateResponse list"
  loadCache :: "'pol cacheStore"
  loadRunning :: bool
  loadEnded :: bool

definition dequeueBatch :: "int \<Rightarrow> 'pol loaderManager \<Rightarrow> 'pol loaderManager" where
  "dequeueBatch batchSize s =
     (if loadEnded s then s
      else if \<not> loadRunning s then s\<lparr>loadEnded := True\<rparr>
      else if int (length (loadQueue s)) \<ge> batchSize then
        (case loader_load (take (nat batchSize) (loadQueue s)) (loadCache s) of
           (Inr _, c) \<Rightarrow> s\<lparr>loadQueue := drop (nat batchSize) (loadQueue s), loadCache := c\<rparr>
         | (Inl e, c) \<Rightarrow> s\<lparr>loadQueue := drop (nat batchSize) (loadQueue s), loadCache := c, loadEnded := True\<rparr>)
      else s)"

text \<open>\<open>LoaderManagerImpl.Builder.build\<close> refuses a negative batch size.\<close>

definition buildLoaderManager :: "int \<Rightarrow> java_exn + int" where
  "buildLoaderManager batchSize =
     (if batchSize < 0 then Inl (IllegalArgumentException ''Batch Size cannot be negative!'') else Inr batchSize)"

section \<open>Queries\<close>

datatype queryStatus = ACCEPTED | NO_ADAPTER_FOUND

record 'pol queryResponse =
  queryStatus :: queryStatus
  queryErrors :: "string list"
  queryOffers :: "'pol contractOffer list"

text \<open>An adapter: whether it can execute the query, and what it answers. Only an \<open>EdcException\<close> is caught.\<close>

record 'pol cacheQueryAdapter =
  canExecute :: "criterion list \<Rightarrow> bool"
  adapterQuery :: "criterion list \<Rightarrow> java_exn + 'pol contractOffer list"

primrec unionOfAdapters ::
  "'pol cacheQueryAdapter list \<Rightarrow> criterion list \<Rightarrow> java_exn + string list \<times> 'pol contractOffer list" where
  "unionOfAdapters [] query = Inr ([], [])"
| "unionOfAdapters (a # as) query =
     (case adapterQuery a query of
        Inl (EdcException m) \<Rightarrow>
          orThrow (unionOfAdapters as query) (\<lambda>(errors, offers). Inr ((''Adapter failed: '' @ m) # errors, offers))
      | Inl e \<Rightarrow> Inl e
      | Inr found \<Rightarrow> orThrow (unionOfAdapters as query) (\<lambda>(errors, offers). Inr (errors, found @ offers)))"

definition executeQueryOn ::
  "'pol cacheQueryAdapter list \<Rightarrow> criterion list \<Rightarrow> java_exn + 'pol queryResponse" where
  "executeQueryOn registry query =
     (let adapters = filter (\<lambda>a. canExecute a query) registry
      in if adapters = [] then Inr \<lparr>queryStatus = NO_ADAPTER_FOUND, queryErrors = [], queryOffers = []\<rparr>
         else orThrow (unionOfAdapters adapters query) (\<lambda>(errors, offers).
                Inr \<lparr>queryStatus = ACCEPTED, queryErrors = errors, queryOffers = offers\<rparr>))"

definition cacheQueryAdapterOf ::
  "(criterion \<Rightarrow> java_exn + ('pol contractOffer \<Rightarrow> bool)) \<Rightarrow> 'pol cacheStore \<Rightarrow> 'pol cacheQueryAdapter" where
  "cacheQueryAdapterOf converter s = \<lparr>canExecute = (\<lambda>q. True), adapterQuery = (\<lambda>q. cache_query converter q s)\<rparr>"

text \<open>\<open>FederatedCatalogApiController\<close>: the exceptions it throws.\<close>

datatype 'pol cachedCatalog =
    CachedOffers "'pol contractOffer list"
  | QueryNotAcceptedException
  | QueryException "string list"

definition getCachedCatalog ::
  "'pol cacheQueryAdapter list \<Rightarrow> criterion list \<Rightarrow> java_exn + 'pol cachedCatalog" where
  "getCachedCatalog registry query =
     orThrow (executeQueryOn registry query) (\<lambda>response. Inr
       (if queryStatus response = NO_ADAPTER_FOUND then QueryNotAcceptedException
        else if queryErrors response \<noteq> [] then QueryException (queryErrors response)
        else CachedOffers (queryOffers response)))"

section \<open>What the fetcher gets\<close>

text \<open>A connector that answers the ranges the fetcher asks for with the pages of a list, and then with nothing.\<close>

definition answersPages :: "(range \<Rightarrow> java_exn + 'o list) \<Rightarrow> int \<Rightarrow> 'o list list \<Rightarrow> bool" where
  "answersPages send n pages \<longleftrightarrow>
     (\<forall>i \<le> length pages. send \<lparr>fromIndex = int i * n, toIndex = int (Suc i) * n\<rparr> =
        Inr (if i < length pages then pages ! i else []))"

lemma fetch_from_page:
  assumes "answersPages send n pages" "0 < n" "int (Suc (length pages)) * n < 2147483648" "i \<le> length pages"
  shows "fetch send (int i * n) n = Some (Inr (concat (takeWhile (\<lambda>p. p \<noteq> []) (drop i pages))))"
  using assms(4)
proof (induction "length pages - i" arbitrary: i)
  case 0
  then have i: "i = length pages" by simp
  have "int (Suc i) * n < 2147483648" "0 \<le> int (Suc i) * n" using assms(2,3) by (simp_all add: i)
  then have "i32 (int i * n + n) = int (Suc i) * n" by (simp add: algebra_simps)
  then show ?case using assms(1) i by (subst fetch.simps) (simp add: answersPages_def)
next
  case (Suc k)
  then have i: "i < length pages" by simp
  then have "int (Suc i) * n \<le> int (Suc (length pages)) * n" using assms(2) by (intro mult_right_mono) simp_all
  moreover have "0 \<le> int (Suc i) * n" using assms(2) by simp
  ultimately have nxt: "i32 (int i * n + n) = int (Suc i) * n" using assms(3) by (simp add: algebra_simps)
  have send: "send \<lparr>fromIndex = int i * n, toIndex = int (Suc i) * n\<rparr> = Inr (pages ! i)"
    using assms(1) i by (simp add: answersPages_def)
  have "fetch send (int (Suc i) * n) n = Some (Inr (concat (takeWhile (\<lambda>p. p \<noteq> []) (drop (Suc i) pages))))"
    using Suc.hyps(1) [of "Suc i"] Suc.hyps(2) i by simp
  then show ?case using nxt send
    by (subst fetch.simps) (simp add: Cons_nth_drop_Suc [OF i, symmetric])
qed

text \<open>The pages of a catalog: definitions in chunks, each chunk with the offers the agent may see.\<close>

fun pagesOf :: "nat \<Rightarrow> 'd list \<Rightarrow> 'd list list" where
  "pagesOf 0 ds = []"
| "pagesOf (Suc n) [] = []"
| "pagesOf (Suc n) (d # ds) = take (Suc n) (d # ds) # pagesOf (Suc n) (drop n ds)"

lemma pagesOf_nth: "i < length (pagesOf n ds) \<Longrightarrow> pagesOf n ds ! i = take n (drop (i * n) ds)"
proof (induction n ds arbitrary: i rule: pagesOf.induct)
  case (3 n d ds)
  then show ?case by (cases i) (simp_all add: add.commute add.left_commute)
qed simp_all

lemma pagesOf_cover: "0 < n \<Longrightarrow> length ds \<le> length (pagesOf n ds) * n"
  by (induction n ds rule: pagesOf.induct) (simp_all add: le_diff_conv)

lemma pagesOf_few: "0 < n \<Longrightarrow> length (pagesOf n ds) * n \<le> length ds + n"
proof (induction n ds rule: pagesOf.induct)
  case (3 n d ds)
  then show ?case by (cases "n < length ds") simp_all
qed simp_all

lemma concat_pagesOf: "0 < n \<Longrightarrow> concat (map (\<lambda>c. concat (map h c)) (pagesOf n ds)) = concat (map h ds)"
proof (induction n ds rule: pagesOf.induct)
  case (3 n d ds)
  have "concat (map h ds) = concat (map h (take n ds)) @ concat (map h (drop n ds))"
    by (metis append_take_drop_id concat_append map_append)
  then show ?case using 3 by simp
qed simp_all

section \<open>A whole catalog\<close>

text \<open>The offers of a definition that an agent may see, where nothing throws.\<close>

definition visibleOffers ::
  "('d, 'addr) contract_services \<Rightarrow> (string \<Rightarrow> string \<Rightarrow> string) \<Rightarrow> participant_agent \<Rightarrow> contractDefinition \<Rightarrow>
   policy contractOffer list" where
  "visibleOffers sv uuids agent d =
     (case (evaluateAccessPolicy sv agent d, offersOf sv uuids d) of
        (Inr True, Inr offers) \<Rightarrow> offers
      | _ \<Rightarrow> [])"

definition nothingThrows ::
  "('d, 'addr) contract_services \<Rightarrow> (string \<Rightarrow> string \<Rightarrow> string) \<Rightarrow> participant_agent \<Rightarrow> bool" where
  "nothingThrows sv uuids agent \<longleftrightarrow>
     list_all (\<lambda>d. (case evaluateAccessPolicy sv agent d of Inl e \<Rightarrow> False | Inr b \<Rightarrow> True) \<and>
       (case offersOf sv uuids d of Inl e \<Rightarrow> False | Inr offers \<Rightarrow> True)) (map snd (definitionStore sv))"

lemma flatMapOrThrow_visible:
  assumes "list_all (\<lambda>d. (case evaluateAccessPolicy sv agent d of Inl e \<Rightarrow> False | Inr b \<Rightarrow> True) \<and>
       (case offersOf sv uuids d of Inl e \<Rightarrow> False | Inr offers \<Rightarrow> True)) ds"
  shows "flatMapOrThrow (evaluateAccessPolicy sv agent) (offersOf sv uuids) ds =
    Inr (concat (map (visibleOffers sv uuids agent) ds))"
  using assms
proof (induction ds)
  case (Cons d ds)
  then show ?case by (cases "evaluateAccessPolicy sv agent d"; cases "offersOf sv uuids d") (auto simp: visibleOffers_def)
qed simp

lemma queryContractOffers_range:
  assumes "createFor sv token = Inr agent" "nothingThrows sv uuids agent" "0 \<le> f" "f < t" "t < 2147483648"
  shows "queryContractOffers sv uuids token \<lparr>fromIndex = f, toIndex = t\<rparr> =
    Inr (concat (map (visibleOffers sv uuids agent) (take (nat (t - f)) (drop (nat f) (map snd (definitionStore sv))))))"
proof -
  let ?ds = "take (nat (t - f)) (drop (nat f) (map snd (definitionStore sv)))"
  have "flatMapOrThrow (evaluateAccessPolicy sv agent) (offersOf sv uuids) ?ds =
      Inr (concat (map (visibleOffers sv uuids agent) ?ds))"
    using assms(2) set_take_subset set_drop_subset
    by (intro flatMapOrThrow_visible) (fastforce simp: nothingThrows_def list_all_iff dest: in_set_takeD in_set_dropD)
  then show ?thesis using assms(1,3-5)
    by (simp add: queryContractOffers_def definitionsFor_def buildQuery_def noQuery_def)
qed

text \<open>
  (C28) What the federated catalog reads from a connector of this repository, page by page of its definitions: the
  offers of the pages before the first page without an offer the reader may see, and nothing after it. So it
  reads the whole catalog if every page has a visible offer; the loop ends in any case.
\<close>

theorem catalog_fetched:
  assumes "createFor sv token = Inr agent" "nothingThrows sv uuids agent" "0 < n"
    and "int (length (definitionStore sv)) + 2 * n < 2147483648"
    and "pages = map (\<lambda>ds. concat (map (visibleOffers sv uuids agent) ds)) (pagesOf (nat n) (map snd (definitionStore sv)))"
  shows "fetch (queryContractOffers sv uuids token) 0 n = Some (Inr (concat (takeWhile (\<lambda>p. p \<noteq> []) pages))) \<and>
    (list_all (\<lambda>p. p \<noteq> []) pages \<longrightarrow>
       fetch (queryContractOffers sv uuids token) 0 n = Some (queryContractOffers sv uuids token \<lparr>fromIndex = 0, toIndex = 2147483647\<rparr>))"
proof -
  let ?ds = "map snd (definitionStore sv)"
  let ?P = "pagesOf (nat n) ?ds"
  have few: "int (Suc (length pages)) * n < 2147483648"
  proof -
    have "int (length ?P * nat n) \<le> int (length ?ds + nat n)" using pagesOf_few [of "nat n" ?ds] assms(3) by linarith
    then show ?thesis using assms(3,4,5) by (simp add: algebra_simps)
  qed
  have "queryContractOffers sv uuids token \<lparr>fromIndex = int i * n, toIndex = int (Suc i) * n\<rparr> =
      Inr (if i < length pages then pages ! i else [])" if "i \<le> length pages" for i
  proof -
    have "int (Suc i) * n \<le> int (Suc (length pages)) * n" using that assms(3) by (intro mult_right_mono) simp_all
    then have "int (Suc i) * n < 2147483648" using few by (rule le_less_trans)
    then have "queryContractOffers sv uuids token \<lparr>fromIndex = int i * n, toIndex = int (Suc i) * n\<rparr> =
        Inr (concat (map (visibleOffers sv uuids agent) (take (nat (int (Suc i) * n - int i * n)) (drop (nat (int i * n)) ?ds))))"
      using assms(3) by (intro queryContractOffers_range [OF assms(1,2)]) (simp_all add: algebra_simps)
    moreover have "nat (int (Suc i) * n - int i * n) = nat n" "nat (int i * n) = i * nat n"
      using assms(3) by (simp_all add: algebra_simps nat_mult_distrib)
    moreover have "drop (i * nat n) ?ds = []" if "i = length pages"
      using pagesOf_cover [of "nat n" ?ds] assms(3,5) that by simp
    ultimately show ?thesis using that pagesOf_nth [of i "nat n" ?ds] by (auto simp: assms(5) le_less)
  qed
  then have "answersPages (queryContractOffers sv uuids token) n pages" by (simp add: answersPages_def)
  from fetch_from_page [OF this assms(3) few, of 0]
  have f: "fetch (queryContractOffers sv uuids token) 0 n = Some (Inr (concat (takeWhile (\<lambda>p. p \<noteq> []) pages)))" by simp
  moreover have "queryContractOffers sv uuids token \<lparr>fromIndex = 0, toIndex = 2147483647\<rparr> = Inr (concat pages)"
    using queryContractOffers_range [OF assms(1,2), of 0 2147483647] concat_pagesOf [of "nat n" "visibleOffers sv uuids agent" ?ds] assms(3,4,5) by simp
  moreover have "list_all (\<lambda>p. p \<noteq> []) pages \<Longrightarrow> concat (takeWhile (\<lambda>p. p \<noteq> []) pages) = concat pages"
    by (simp only: list_all_iff takeWhile_eq_all_conv [THEN iffD2])
  ultimately show ?thesis by simp
qed

text \<open>A catalog whose first definition names a contract policy that is not there.\<close>

definition example_gap where
  "example_gap = example_services\<lparr>definitionStore :=
     (''d0'', \<lparr>definitionId = ''d0'', accessPolicyId = ''p1'', contractPolicyId = ''p0'', selectorExpression = SELECT_ALL\<rparr>) #
     definitionStore example_services\<rparr>"

theorem catalog_fetched_witness:
  "fetch (queryContractOffers example_gap (\<lambda>_ _. ''u1'') example_token) 0 1 = Some (Inr []) \<and>
   fetch (queryContractOffers example_gap (\<lambda>_ _. ''u1'') example_token) 0 2 = Some (Inr [example_offer])"
proof -
  have agent: "createFor example_gap example_token = Inr \<lparr>agentClaims = [], agentAttributes = []\<rparr>"
    and total: "nothingThrows example_gap (\<lambda>_ _. ''u1'') \<lparr>agentClaims = [], agentAttributes = []\<rparr>"
    and few: "length (definitionStore example_gap) = 2"
    by code_simp+
  have pages:
    "concat (takeWhile (\<lambda>p. p \<noteq> []) (map (\<lambda>ds. concat (map (visibleOffers example_gap (\<lambda>_ _. ''u1'')
       \<lparr>agentClaims = [], agentAttributes = []\<rparr>) ds)) (pagesOf (nat 1) (map snd (definitionStore example_gap))))) = []"
    "concat (takeWhile (\<lambda>p. p \<noteq> []) (map (\<lambda>ds. concat (map (visibleOffers example_gap (\<lambda>_ _. ''u1'')
       \<lparr>agentClaims = [], agentAttributes = []\<rparr>) ds)) (pagesOf (nat 2) (map snd (definitionStore example_gap))))) = [example_offer]"
    by code_simp+
  have "fetch (queryContractOffers example_gap (\<lambda>_ _. ''u1'') example_token) 0 n =
      Some (Inr (concat (takeWhile (\<lambda>p. p \<noteq> []) (map (\<lambda>ds. concat (map (visibleOffers example_gap (\<lambda>_ _. ''u1'')
        \<lparr>agentClaims = [], agentAttributes = []\<rparr>) ds)) (pagesOf (nat n) (map snd (definitionStore example_gap)))))))"
    if "0 < n" "n < 10" for n
    by (rule conjunct1 [OF catalog_fetched [OF agent total that(1) _ refl]]) (use that few in simp)
  from this [of 1] this [of 2] show ?thesis unfolding pages by simp
qed

section \<open>The cache over two crawls\<close>

text \<open>The offers that responses bring for an asset, the last one first; and the entry it leaves.\<close>

definition loadedOffers :: "'pol updateResponse list \<Rightarrow> 'pol contractOffer list" where
  "loadedOffers responses =
     concat (map (\<lambda>r. map (\<lambda>offer. offer\<lparr>offerAsset := map_option (withOriginator (responseSource r)) (offerAsset offer)\<rparr>)
       (responseOffers r)) responses)"

definition isFor :: "string \<Rightarrow> 'pol contractOffer \<Rightarrow> bool" where
  "isFor k offer \<longleftrightarrow> map_option theAssetId (offerAsset offer) = Some k"

definition lastFor :: "string \<Rightarrow> 'pol contractOffer list \<Rightarrow> 'pol contractOffer option" where
  "lastFor k offers = List.find (isFor k) (rev offers)"

lemma lastFor_snoc: "lastFor k (offers @ [x]) = (if isFor k x then Some x else lastFor k offers)"
  by (simp add: lastFor_def)

text \<open>The offers all have an asset.\<close>

definition allAssets :: "'pol updateResponse list \<Rightarrow> bool" where
  "allAssets responses \<longleftrightarrow> list_all (\<lambda>r. list_all (\<lambda>offer. offerAsset offer \<noteq> None) (responseOffers r)) responses"

text \<open>A save of each of the offers, one after the other.\<close>

definition saveAllOffers :: "'pol contractOffer list \<Rightarrow> 'pol cacheStore \<Rightarrow> 'pol cacheStore" where
  "saveAllOffers = fold (\<lambda>offer. put (theAssetId (the (offerAsset offer))) \<lparr>isMarked = False, cachedOffer = offer\<rparr>)"

lemma saveAllOffers_append: "saveAllOffers (xs @ ys) s = saveAllOffers ys (saveAllOffers xs s)"
  by (simp add: saveAllOffers_def)

lemma load_offers:
  assumes "list_all (\<lambda>offer. offerAsset offer \<noteq> None) offers"
  shows "forEachM offers (loadOffer source) s =
    (Inr (), saveAllOffers (map (\<lambda>offer. offer\<lparr>offerAsset := map_option (withOriginator source) (offerAsset offer)\<rparr>) offers) s)"
  using assms
proof (induction offers arbitrary: s)
  case (Cons offer offers)
  then obtain a where "offerAsset offer = Some a" by auto
  then show ?case using Cons by (simp add: loadOffer_def cache_save_def saveAllOffers_def withOriginator_def)
qed (simp add: saveAllOffers_def)

lemma loader_load_offers:
  "allAssets responses \<Longrightarrow> loader_load responses s = (Inr (), saveAllOffers (loadedOffers responses) s)"
proof (induction responses arbitrary: s)
  case (Cons r responses)
  then show ?case
    by (simp add: loader_load_def allAssets_def loadedOffers_def andThen_def load_offers saveAllOffers_append)
qed (simp add: loader_load_def loadedOffers_def saveAllOffers_def)

lemma saveAllOffers_lookup:
  "list_all (\<lambda>offer. offerAsset offer \<noteq> None) offers \<Longrightarrow>
     map_of (saveAllOffers offers s) k =
       (case lastFor k offers of None \<Rightarrow> map_of s k | Some offer \<Rightarrow> Some \<lparr>isMarked = False, cachedOffer = offer\<rparr>)"
proof (induction offers arbitrary: s rule: rev_induct)
  case (snoc x offers)
  then obtain a where "offerAsset x = Some a" by auto
  then show ?case using snoc by (auto simp: saveAllOffers_append lastFor_snoc isFor_def) (auto simp: saveAllOffers_def)
qed (simp add: saveAllOffers_def lastFor_def)

lemma saveAllOffers_distinct: "keys_distinct s \<Longrightarrow> keys_distinct (saveAllOffers offers s)"
  unfolding saveAllOffers_def by (induction offers arbitrary: s) simp_all

lemma clear_keys: "fst ` set (loader_clear s) \<subseteq> fst ` set s"
  by (force simp: loader_clear_def deleteExpired_def expireAll_def)

lemma clear_Cons:
  "loader_clear ((k, e) # s) =
     (if isMarked e then loader_clear s else (k, \<lparr>isMarked = True, cachedOffer = cachedOffer e\<rparr>) # loader_clear s)"
  by (simp add: loader_clear_def deleteExpired_def expireAll_def)

lemma clear_lookup:
  "keys_distinct s \<Longrightarrow> map_of (loader_clear s) k =
     (case map_of s k of
        Some e \<Rightarrow> if isMarked e then None else Some \<lparr>isMarked = True, cachedOffer = cachedOffer e\<rparr>
      | None \<Rightarrow> None)"
proof (induction s)
  case (Cons p s)
  obtain k' e where p: "p = (k', e)" by (cases p)
  then have "k' \<notin> fst ` set s" "keys_distinct s" using Cons.prems by (simp_all add: keys_distinct_def)
  then have "map_of (loader_clear s) k' = None" using clear_keys [of s] by (auto simp: map_of_eq_None_iff)
  then show ?case using Cons.IH [OF \<open>keys_distinct s\<close>] by (auto simp: p clear_Cons)
qed (simp add: loader_clear_def deleteExpired_def expireAll_def)

lemma clear_distinct: "keys_distinct s \<Longrightarrow> keys_distinct (loader_clear s)"
  by (simp add: loader_clear_def deleteExpired_def expireAll_def keys_distinct_def distinct_map_filter comp_def split_def)

lemma cleared_marked: "e \<in> set (loader_clear s) \<Longrightarrow> isMarked (snd e)"
  by (auto simp: loader_clear_def deleteExpired_def expireAll_def)

text \<open>
  (C29) After a crawl, that is when the store is cleared, filled with the responses of all connectors and
  cleared again, the cache has for each asset the last offer that was loaded for it, with its originator, and
  nothing else: offers that no connector makes any more are gone, and of several offers for one asset, be they of
  different connectors, one is kept.
\<close>

theorem cache_after_crawl:
  assumes "keys_distinct s" "allAssets responses"
    and "loader_load responses (loader_clear s) = (result, s')"
  shows "result = Inr () \<and>
    map_of (loader_clear s') k =
      map_option (\<lambda>offer. \<lparr>isMarked = True, cachedOffer = offer\<rparr>) (lastFor k (loadedOffers responses))"
proof -
  have s': "result = Inr ()" "s' = saveAllOffers (loadedOffers responses) (loader_clear s)"
    using assms(3) loader_load_offers [OF assms(2), of "loader_clear s"] by simp_all
  have assets: "list_all (\<lambda>offer. offerAsset offer \<noteq> None) (loadedOffers responses)"
    using assms(2) by (auto simp: allAssets_def loadedOffers_def list_all_iff)
  have "keys_distinct s'" by (simp add: s'(2) assms(1) clear_distinct saveAllOffers_distinct)
  moreover have "map_of (loader_clear s) k = Some e \<Longrightarrow> isMarked e" for e
    using map_of_SomeD [of "loader_clear s" k e] cleared_marked [of "(k, e)" s] by auto
  ultimately show ?thesis
    using saveAllOffers_lookup [OF assets, of "loader_clear s" k] s'
    by (auto simp: clear_lookup split: option.splits)
qed

theorem cache_after_crawl_witness:
  "map_of (loader_clear (snd (loader_load [\<lparr>responseSource = ''url'', responseOffers = [example_offer]\<rparr>] []))) ''a2'' =
     Some \<lparr>isMarked = True, cachedOffer = example_offer\<lparr>offerAsset := map_option (withOriginator ''url'') (offerAsset example_offer)\<rparr>\<rparr>"
proof -
  let ?rs = "[\<lparr>responseSource = ''url'', responseOffers = [example_offer]\<rparr>]"
  have "allAssets ?rs" by (simp add: allAssets_def example_offer_def createContractOffer_def)
  moreover have "loader_load ?rs (loader_clear []) = (fst (loader_load ?rs []), snd (loader_load ?rs []))"
    by (simp add: loader_clear_def deleteExpired_def expireAll_def)
  ultimately have "map_of (loader_clear (snd (loader_load ?rs []))) ''a2'' =
      map_option (\<lambda>offer. \<lparr>isMarked = True, cachedOffer = offer\<rparr>) (lastFor ''a2'' (loadedOffers ?rs))"
    using cache_after_crawl [of "[]" ?rs] by (simp only: keys_distinct_Nil)
  then show ?thesis
    by (simp add: lastFor_def loadedOffers_def isFor_def example_offer_def createContractOffer_def withOriginator_def)
qed

section \<open>The loader\<close>

datatype 'pol loaderEvent = Enqueue "'pol updateResponse" | Iterate

primrec loaderStep :: "int \<Rightarrow> 'pol loaderEvent \<Rightarrow> 'pol loaderManager \<Rightarrow> 'pol loaderManager" where
  "loaderStep n (Enqueue r) s = s\<lparr>loadQueue := loadQueue s @ [r]\<rparr>"
| "loaderStep n Iterate s = dequeueBatch n s"

lemma loader_ended: "loadEnded s \<Longrightarrow> loadCache (fold (loaderStep n) es s) = loadCache s"
proof (induction es arbitrary: s)
  case (Cons e es)
  have "loadEnded (loaderStep n e s) \<and> loadCache (loaderStep n e s) = loadCache s"
    using Cons.prems by (cases e) (simp_all add: dequeueBatch_def)
  then show ?case using Cons.IH [of "loaderStep n e s"] by simp
qed simp

text \<open>
  One offer without an asset, in any response of a batch, ends the loading of the catalog for good: the
  loop is left, and nothing that is enqueued later is ever loaded.
\<close>

theorem loader_stopped_by_offer:
  assumes "loadRunning s" "0 \<le> n" "n \<le> int (length (loadQueue s))"
    and "r \<in> set (take (nat n) (loadQueue s))" "offer \<in> set (responseOffers r)" "offerAsset offer = None"
  shows "loadCache (fold (loaderStep n) es (dequeueBatch n s)) = loadCache (dequeueBatch n s)"
proof (cases "loadEnded s")
  case True
  then show ?thesis by (simp add: dequeueBatch_def loader_ended)
next
  case False
  have thrown: "\<exists>e s'. forEachM offers (loadOffer source) c = (Inl e, s')" if "offer \<in> set offers" for offers source c
    using that
  proof (induction offers arbitrary: c)
    case (Cons o' offers)
    show ?case
    proof (cases "offerAsset o'")
      case (Some a)
      then have "offer \<in> set offers" using Cons.prems assms(6) by auto
      then show ?thesis using Cons.IH Some by (simp add: loadOffer_def cache_save_def)
    qed (simp add: loadOffer_def andThen_def)
  qed simp
  have "\<exists>e s'. loader_load rs c = (Inl e, s')" if "r \<in> set rs" for rs c
    using that
  proof (induction rs arbitrary: c)
    case (Cons r' rs)
    show ?case
    proof (cases "r' = r")
      case True
      then obtain e c' where "forEachM (responseOffers r') (loadOffer (responseSource r')) c = (Inl e, c')"
        using thrown [OF assms(5)] by metis
      then show ?thesis by (simp add: loader_load_def andThen_def)
    next
      case False
      then have "r \<in> set rs" using Cons.prems by simp
      then show ?thesis using Cons.IH
        by (cases "forEachM (responseOffers r') (loadOffer (responseSource r')) c")
          (auto simp: loader_load_def andThen_def split: sum.split)
    qed
  qed simp
  from this [OF assms(4)] obtain e c where
    "loader_load (take (nat n) (loadQueue s)) (loadCache s) = (Inl e, c)" by metis
  then have "loadEnded (dequeueBatch n s)"
    using False assms(1,3) by (simp add: dequeueBatch_def)
  then show ?thesis by (rule loader_ended)
qed

theorem loader_stopped_by_offer_witness:
  "let bad = \<lparr>responseSource = ''u'', responseOffers = [example_offer\<lparr>offerAsset := None\<rparr>]\<rparr>;
       s = \<lparr>loadQueue = [bad], loadCache = [], loadRunning = True, loadEnded = False\<rparr>
   in loadCache (fold (loaderStep 1) [Enqueue \<lparr>responseSource = ''v'', responseOffers = [example_offer]\<rparr>, Iterate, Iterate]
        (dequeueBatch 1 s)) = []"
proof -
  let ?bad = "\<lparr>responseSource = ''u'', responseOffers = [example_offer\<lparr>offerAsset := None\<rparr>]\<rparr>"
  let ?s = "\<lparr>loadQueue = [?bad], loadCache = [], loadRunning = True, loadEnded = False\<rparr>"
  have "loadCache (dequeueBatch 1 ?s) = []"
    by (simp add: dequeueBatch_def loader_load_def loadOffer_def andThen_def)
  moreover have "loadCache (fold (loaderStep 1) [Enqueue \<lparr>responseSource = ''v'', responseOffers = [example_offer]\<rparr>, Iterate, Iterate]
        (dequeueBatch 1 ?s)) = loadCache (dequeueBatch 1 ?s)"
    by (rule loader_stopped_by_offer [of ?s 1 ?bad "example_offer\<lparr>offerAsset := None\<rparr>"]) simp_all
  ultimately show ?thesis by (simp only: Let_def)
qed

text \<open>
  What the loader loads: the queue but for less than a batch. A batch size of 0, which the builder accepts,
  loads nothing.
\<close>

lemma loader_loads:
  assumes "0 < n" "loadRunning s" "\<not> loadEnded s" "allAssets (loadQueue s)" "length (loadQueue s) \<le> k"
  shows "\<exists>loaded rest. loadQueue s = loaded @ rest \<and> int (length rest) < n \<and>
    (dequeueBatch n ^^ k) s = s\<lparr>loadQueue := rest, loadCache := saveAllOffers (loadedOffers loaded) (loadCache s)\<rparr>"
  using assms
proof (induction k arbitrary: s)
  case 0
  then show ?case by (auto simp: loadedOffers_def saveAllOffers_def intro!: exI [of _ "[]"])
next
  case (Suc k)
  show ?case
  proof (cases "n \<le> int (length (loadQueue s))")
    case True
    let ?b = "take (nat n) (loadQueue s)" and ?q = "drop (nat n) (loadQueue s)"
    have assets: "allAssets ?b" "allAssets ?q"
      using Suc.prems(4) by (auto simp: allAssets_def list_all_iff dest: in_set_takeD in_set_dropD)
    define t where "t = s\<lparr>loadQueue := ?q, loadCache := saveAllOffers (loadedOffers ?b) (loadCache s)\<rparr>"
    have "dequeueBatch n s = t"
      using Suc.prems(2,3) True loader_load_offers [OF assets(1)] by (simp add: dequeueBatch_def t_def)
    moreover have "length ?q \<le> k" using Suc.prems(1,5) by auto
    moreover obtain loaded rest where "?q = loaded @ rest" "int (length rest) < n"
      "(dequeueBatch n ^^ k) t = t\<lparr>loadQueue := rest, loadCache := saveAllOffers (loadedOffers loaded) (loadCache t)\<rparr>"
      using Suc.IH [of t] Suc.prems(1-3) assets(2) \<open>length ?q \<le> k\<close> by (auto simp: t_def)
    moreover have "loadedOffers (?b @ loaded) = loadedOffers ?b @ loadedOffers loaded" by (simp add: loadedOffers_def)
    moreover have "(dequeueBatch n ^^ Suc k) s = (dequeueBatch n ^^ k) (dequeueBatch n s)" by (simp only: funpow_Suc_right comp_apply)
    ultimately have "(dequeueBatch n ^^ Suc k) s =
        s\<lparr>loadQueue := rest, loadCache := saveAllOffers (loadedOffers (?b @ loaded)) (loadCache s)\<rparr>"
      by (simp only: saveAllOffers_append) (simp add: t_def)
    moreover have "loadQueue s = (?b @ loaded) @ rest"
      using \<open>?q = loaded @ rest\<close> by (metis append_assoc append_take_drop_id)
    ultimately show ?thesis using \<open>int (length rest) < n\<close> by blast
  next
    case False
    then have "dequeueBatch n s = s" using Suc.prems(2,3) by (simp add: dequeueBatch_def)
    then have "(dequeueBatch n ^^ Suc k) s = s" by (induction k) simp_all
    then have "loadQueue s = [] @ loadQueue s \<and> int (length (loadQueue s)) < n \<and>
      (dequeueBatch n ^^ Suc k) s =
        s\<lparr>loadQueue := loadQueue s, loadCache := saveAllOffers (loadedOffers []) (loadCache s)\<rparr>"
      using False by (simp add: loadedOffers_def saveAllOffers_def del: funpow.simps)
    then show ?thesis by blast
  qed
qed

lemma batch_size_zero: "loadCache ((dequeueBatch 0 ^^ k) s) = loadCache s"
proof (induction k)
  case (Suc k)
  then show ?case by (simp add: dequeueBatch_def loader_load_def)
qed simp

text \<open>By default, a query answers with the whole cache, whatever its criteria.\<close>

lemma default_query_ignores_criteria:
  fixes s :: "'pol cacheStore"
  shows "getCachedCatalog [cacheQueryAdapterOf defaultConverter s] query = Inr (CachedOffers (map (\<lambda>e. cachedOffer (snd e)) s))"
proof -
  have "mapOrThrow (defaultConverter :: criterion \<Rightarrow> java_exn + ('pol contractOffer \<Rightarrow> bool)) query =
      Inr (map (\<lambda>_ offer. True) query)"
    by (rule mapOrThrow_total) (simp add: defaultConverter_def)
  then have "cache_query defaultConverter query s = Inr (map (\<lambda>e. cachedOffer (snd e)) s)"
    by (simp add: cache_query_def list_all_iff)
  then show ?thesis
    by (simp add: getCachedCatalog_def executeQueryOn_def cacheQueryAdapterOf_def)
qed

end
