(* ===== verification/Federated_Negotiation.thy ===== *)
theory Federated_Negotiation
  imports Federated_Cache
begin

text \<open>
  From the catalog of one connector to a negotiation with another: what the fetcher of \<open>Federated_Cache\<close> reads
  with the catalogs of \<open>Contract_Services\<close> is loaded into the cache, read by a client of the API, and sent back to
  the connector that it names as its originator.
\<close>

text \<open>Whatever a connector answers: when the fetcher returns, each offer is of some page.\<close>

lemma fetch_member:
  fixes x :: 'a
  assumes "fetch send start n = Some (Inr offers)" "x \<in> set offers"
  shows "\<exists>g page. send g = Inr page \<and> x \<in> set page"
proof -
  let ?P = "\<lambda>(send :: range \<Rightarrow> java_exn + 'a list) (r :: java_exn + 'a list). \<forall>offers. r = Inr offers \<longrightarrow> x \<in> set offers \<longrightarrow> (\<exists>g page. send g = Inr page \<and> x \<in> set page)"
  have "?P send (Inr offers)"
  proof (rule fetch.raw_induct [where P = "\<lambda>send _ _ r. ?P send r", OF _ assms(1)])
    fix fetch' :: "(range \<Rightarrow> java_exn + 'a list) \<Rightarrow> int \<Rightarrow> int \<Rightarrow> (java_exn + 'a list) option"
      and send :: "range \<Rightarrow> java_exn + 'a list" and start n r
    assume IH: "\<And>send start n r. fetch' send start n = Some r \<Longrightarrow> ?P send r"
      and body: "(case send \<lparr>fromIndex = start, toIndex = i32 (start + n)\<rparr> of
        Inl e \<Rightarrow> Some (Inl e)
      | Inr offers \<Rightarrow>
          if offers = [] then Some (Inr [])
          else Option.bind (fetch' send (i32 (start + n)) n) (\<lambda>rest.
                 Some (case rest of Inl e \<Rightarrow> Inl e | Inr others \<Rightarrow> Inr (offers @ others)))) = Some r"
    show "?P send r"
    proof (cases "send \<lparr>fromIndex = start, toIndex = i32 (start + n)\<rparr>")
      case (Inr page)
      show ?thesis
      proof (cases "page = []")
        case False
        then obtain y where y: "fetch' send (i32 (start + n)) n = Some y"
          "r = (case y of Inl e \<Rightarrow> Inl e | Inr others \<Rightarrow> Inr (page @ others))"
          using body Inr by (auto simp: bind_eq_Some_conv)
        from IH [OF y(1)] show ?thesis using y(2) Inr by (cases y) auto
      qed (use body Inr in auto)
    qed (use body in auto)
  qed
  then show ?thesis using assms(2) by blast
qed

lemma ids_response:
  assumes "ids_sendRequest send url = Some (Inr r)" "x \<in> set (responseOffers r)"
  shows "\<exists>g page. send (responseSource r) g = Inr page \<and> x \<in> set page"
proof -
  from assms(1) obtain offers where f: "fetch (send (getNodeUrl url)) 0 100 = Some (Inr offers)"
    "r = \<lparr>responseSource = getNodeUrl url, responseOffers = offers\<rparr>"
    by (cases "fetch (send (getNodeUrl url)) 0 100") (auto simp: ids_sendRequest_def split: sum.splits)
  from fetch_member [OF f(1)] assms(2) show ?thesis by (simp add: f(2))
qed

lemma cached_catalog_member:
  assumes "getCachedCatalog [cacheQueryAdapterOf converter s] query = Inr (CachedOffers offers)" "x \<in> set offers"
  shows "\<exists>k e. (k, e) \<in> set s \<and> cachedOffer e = x"
proof -
  from assms(1) have "cache_query converter query s = Inr offers"
    by (auto simp: getCachedCatalog_def executeQueryOn_def cacheQueryAdapterOf_def orThrow_Inr split: sum.splits
        java_exn.splits if_splits)
  then show ?thesis using assms(2) by (fastforce simp: cache_query_def orThrow_Inr)
qed

text \<open>What the loader leaves, after the next clearing, are offers of the responses, with their originator.\<close>

lemma cleared_offer_loaded:
  assumes "keys_distinct s" "loader_load responses (loader_clear s) = (Inr (), s')" "allAssets responses"
    and "(k, e) \<in> set (loader_clear s')"
  shows "\<exists>r offer a. r \<in> set responses \<and> offer \<in> set (responseOffers r) \<and> offerAsset offer = Some a \<and>
    cachedOffer e = offer\<lparr>offerAsset := Some (withOriginator (responseSource r) a)\<rparr>"
proof -
  have s': "s' = saveAllOffers (loadedOffers responses) (loader_clear s)"
    using assms(2) loader_load_offers [OF assms(3), of "loader_clear s"] by simp
  have assets: "list_all (\<lambda>offer. offerAsset offer \<noteq> None) (loadedOffers responses)"
    using assms(3) by (auto simp: allAssets_def loadedOffers_def list_all_iff)
  have "keys_distinct s'" by (simp add: s' assms(1) clear_distinct saveAllOffers_distinct)
  then have "keys_distinct (loader_clear s')" by (rule clear_distinct)
  then have look: "map_of (loader_clear s') k = Some e"
    using assms(4) by (simp add: keys_distinct_def map_of_eq_Some_iff)
  moreover have "map_of (loader_clear s) k = Some e' \<Longrightarrow> isMarked e'" for e'
    using map_of_SomeD [of "loader_clear s" k e'] cleared_marked [of "(k, e')" s] by auto
  ultimately have "lastFor k (loadedOffers responses) = Some (cachedOffer e)"
    using saveAllOffers_lookup [OF assets, of "loader_clear s" k] \<open>keys_distinct s'\<close>
    by (auto simp: clear_lookup s' split: option.splits if_splits)
  then have "cachedOffer e \<in> set (loadedOffers responses)"
    by (auto simp: lastFor_def find_Some_iff dest: nth_mem) (metis length_rev nth_mem set_rev)
  then obtain r offer where "r \<in> set responses" "offer \<in> set (responseOffers r)"
    "cachedOffer e = offer\<lparr>offerAsset := map_option (withOriginator (responseSource r)) (offerAsset offer)\<rparr>"
    by (auto simp: loadedOffers_def)
  moreover from this assms(3) obtain a where "offerAsset offer = Some a" by (auto simp: allAssets_def list_all_iff)
  ultimately show ?thesis by auto
qed

text \<open>
  (C17) The connectors that are crawled are given by the urls they are asked at. An offer that a client of the
  catalog API gets, once the store is cleared for the next crawl, names as its originator a connector that made
  it, for the policy it has there; sent back to it by the agent the catalog was made for, it is valid up to the
  contract policy, although the cache has changed its asset.
\<close>

theorem crawled_offer_validates:
  fixes connectorAt :: "string \<Rightarrow> ('d, 'addr) contract_services"
  assumes ok: "\<And>url. services_ok (connectorAt url)"
    and colon: "\<And>url k. k \<in> fst ` set (definitionStore (connectorAt url)) \<Longrightarrow> CHR '':'' \<notin> set k"
      "\<And>k a. CHR '':'' \<notin> set (uuids k a) \<and> uuids k a \<noteq> []"
    and answers: "\<And>r. r \<in> set responses \<Longrightarrow>
      \<exists>url. ids_sendRequest (\<lambda>u. queryContractOffers (connectorAt u) uuids token) url = Some (Inr r)"
    and loaded: "keys_distinct s" "loader_load responses (loader_clear s) = (result, s')"
    and asked: "getCachedCatalog [cacheQueryAdapterOf converter (loader_clear s')] query = Inr (CachedOffers offers)"
      "offer \<in> set offers"
  shows "\<exists>url agent d p a b. offerAsset offer = Some b \<and> map_of (assetProperties b) PROPERTY_ORIGINATOR = Some url \<and>
    createFor (connectorAt url) token = Inr agent \<and> map_of (policyStore (connectorAt url)) (contractPolicyId d) = Some p \<and>
    offerPolicy offer = withTarget (theAssetId b) (definedPolicy p) \<and> theAssetId a = theAssetId b \<and>
    validateInitialOffer (connectorAt url) token offer = checkContractPolicy (connectorAt url) agent d (offerId offer) a"
proof -
  let ?send = "\<lambda>u. queryContractOffers (connectorAt u) uuids token"
  have made: "\<exists>agent d p a. createFor (connectorAt (responseSource r)) token = Inr agent \<and> offerAsset x = Some a \<and>
      map_of (policyStore (connectorAt (responseSource r))) (contractPolicyId d) = Some p \<and>
      offerPolicy x = withTarget (theAssetId a) (definedPolicy p) \<and>
      validateInitialOffer (connectorAt (responseSource r)) token x =
        checkContractPolicy (connectorAt (responseSource r)) agent d (offerId x) a"
    if r: "r \<in> set responses" "x \<in> set (responseOffers r)" for r x
  proof -
    obtain url where "ids_sendRequest ?send url = Some (Inr r)" using answers [OF r(1)] by blast
    from ids_response [OF this r(2)] obtain g page where "?send (responseSource r) g = Inr page" "x \<in> set page" by blast
    then show ?thesis by (rule catalog_offer_valid [OF ok]) (use colon in blast)+
  qed
  have "allAssets responses" using made by (fastforce simp: allAssets_def list_all_iff)
  moreover obtain k e where "(k, e) \<in> set (loader_clear s')" and offer: "cachedOffer e = offer"
    using cached_catalog_member [OF asked] by blast
  moreover have "result = Inr ()" using loaded(2) loader_load_offers [OF \<open>allAssets responses\<close>, of "loader_clear s"] by simp
  ultimately obtain r x a where r: "r \<in> set responses" "x \<in> set (responseOffers r)" "offerAsset x = Some a"
    "offer = x\<lparr>offerAsset := Some (withOriginator (responseSource r) a)\<rparr>"
    using cleared_offer_loaded loaded by blast
  have v: "validateInitialOffer sv token offer = validateInitialOffer sv token x" for sv :: "('d, 'addr) contract_services"
    unfolding r(4) by (rule validateInitialOffer_asset [OF r(3)]) (simp add: withOriginator_def)
  from made [OF r(1,2)] v show ?thesis by (auto simp: r(3,4) withOriginator_def)
qed

section \<open>An example\<close>

definition example_response :: "policy updateResponse" where
  "example_response = \<lparr>responseSource = ''http://b/ids/data'', responseOffers = [example_offer]\<rparr>"

definition example_cached :: "policy contractOffer" where
  "example_cached = example_offer\<lparr>offerAsset := map_option (withOriginator ''http://b/ids/data'') (offerAsset example_offer)\<rparr>"

lemma example_crawled:
  "ids_sendRequest (\<lambda>u. queryContractOffers example_services (\<lambda>_ _. ''u1'') example_token) ''http://b/ids/data'' =
     Some (Inr example_response)"
proof -
  let ?send = "queryContractOffers example_services (\<lambda>_ _. ''u1'') example_token"
  have url: "getNodeUrl ''http://b/ids/data'' = ''http://b/ids/data''" by (simp add: getNodeUrl_def endsWith_def)
  have pages: "?send \<lparr>fromIndex = 0, toIndex = 100\<rparr> = Inr [example_offer]"
    "?send \<lparr>fromIndex = 100, toIndex = 200\<rparr> = Inr []" by code_simp+
  have "fetch ?send 100 100 = Some (Inr [])" by (subst fetch.simps) (simp add: pages(2))
  then have "fetch ?send 0 100 = Some (Inr [example_offer])" by (subst fetch.simps) (simp add: pages(1))
  then show ?thesis by (simp add: ids_sendRequest_def url example_response_def)
qed

lemma example_cache:
  "loader_load [example_response] (loader_clear []) = (Inr (), [(''a2'', \<lparr>isMarked = False, cachedOffer = example_cached\<rparr>)])"
  by code_simp

lemma example_asked:
  "getCachedCatalog [cacheQueryAdapterOf defaultConverter (loader_clear [(''a2'', \<lparr>isMarked = False, cachedOffer = example_cached\<rparr>)])] [] =
     Inr (CachedOffers [example_cached])"
  by (simp add: getCachedCatalog_def executeQueryOn_def cacheQueryAdapterOf_def cache_query_def loader_clear_def
      deleteExpired_def expireAll_def)

theorem crawled_offer_validates_witness:
  "\<exists>agent d a b. offerAsset example_cached = Some b \<and> map_of (assetProperties b) PROPERTY_ORIGINATOR = Some ''http://b/ids/data'' \<and>
     createFor example_services example_token = Inr agent \<and>
     validateInitialOffer example_services example_token example_cached =
       checkContractPolicy example_services agent d (offerId example_cached) a"
proof -
  have keys: "\<And>k. k \<in> fst ` set (definitionStore example_services) \<Longrightarrow> CHR '':'' \<notin> set k"
    by (simp add: example_services_def)
  have crawled: "\<And>r. r \<in> set [example_response] \<Longrightarrow>
      \<exists>url. ids_sendRequest (\<lambda>u. queryContractOffers example_services (\<lambda>_ _. ''u1'') example_token) url = Some (Inr r)"
    using example_crawled by auto
  have "\<exists>url agent d p a b. offerAsset example_cached = Some b \<and> map_of (assetProperties b) PROPERTY_ORIGINATOR = Some url \<and>
    createFor example_services example_token = Inr agent \<and> map_of (policyStore example_services) (contractPolicyId d) = Some p \<and>
    offerPolicy example_cached = withTarget (theAssetId b) (definedPolicy p) \<and> theAssetId a = theAssetId b \<and>
    validateInitialOffer example_services example_token example_cached =
      checkContractPolicy example_services agent d (offerId example_cached) a"
    by (rule crawled_offer_validates [where connectorAt = "\<lambda>_. example_services", OF example_services_ok keys _ crawled
          keys_distinct_Nil example_cache example_asked]) simp_all
  moreover have "offerAsset example_cached = Some b \<Longrightarrow> map_of (assetProperties b) PROPERTY_ORIGINATOR = Some ''http://b/ids/data''" for b
    by (auto simp: example_cached_def withOriginator_def)
  ultimately show ?thesis by blast
qed

end
