(* ===== verification/Catalog_Crawler.thy ===== *)
theory Catalog_Crawler
  imports EDC_Prelude
begin

text \<open>
  How the federated catalog visits other connectors: \<open>PartitionManagerImpl\<close>, \<open>CrawlerImpl\<close> and
  \<open>DefaultWorkItemQueue\<close> of \<open>extensions/catalog/federated-catalog-cache\<close>, with the error handler and the source of
  the work that \<open>FederatedCatalogCacheExtension\<close> gives them. A crawler polls and sends while it holds the lock of the
  queue, and the partition manager fills the queue under the same lock, so each is one step; a request completes,
  and a delayed item returns to the queue, in steps of their own. What an adapter does with a request is an
  argument of the step. \<open>'r\<close> is a response.
\<close>

section \<open>Work items\<close>

text \<open>
  A work item is an object: copies of its reference in the queue and elsewhere share its list of errors, which
  the state keeps by \<open>itemRef\<close>.
\<close>

record workItem =
  itemRef :: nat
  itemUrl :: string
  itemProtocol :: "string option"

record cacheNode =
  nodeName :: string
  targetUrl :: string
  supportedProtocols :: "string list"

definition selectProtocol :: "string list \<Rightarrow> string option" where
  "selectProtocol protocols = (case protocols of [] \<Rightarrow> None | p # _ \<Rightarrow> Some p)"

text \<open>What an adapter does when asked: it throws, or its future has a response, an exception, or neither yet.\<close>

datatype 'r nodeAnswer = Responds 'r | Fails string | Waits

type_synonym 'r nodeAdapter = "string \<Rightarrow> java_exn + 'r nodeAnswer"

datatype crawlerState = Crawling | Terminated

record 'r crawlSystem =
  workCapacity :: int
  workQueue :: "workItem list"
  responseCapacity :: nat
  responseQueue :: "'r list"
  itemErrors :: "nat \<Rightarrow> string list"
  nextRef :: nat
  crawlers :: "crawlerState list"
  crawlerActive :: "bool list"
  awaiting :: "workItem list"
  delayed :: "workItem list"
  polled :: "workItem list"
  discarded :: "workItem list"

text \<open>
  A queue of the capacity, and \<open>numCrawlers\<close> crawlers, which run at once. With a capacity below 1, which the
  constructor of the queue refuses, nothing is ever added to it.
\<close>

definition newCrawlSystem :: "int \<Rightarrow> nat \<Rightarrow> nat \<Rightarrow> 'r crawlSystem" where
  "newCrawlSystem capacity responses numCrawlers =
     \<lparr>workCapacity = capacity, workQueue = [], responseCapacity = responses, responseQueue = [],
      itemErrors = (\<lambda>_. []), nextRef = 0, crawlers = replicate numCrawlers Crawling,
      crawlerActive = replicate numCrawlers True, awaiting = [], delayed = [], polled = [], discarded = []\<rparr>"

section \<open>PartitionManagerImpl\<close>

text \<open>The work of a run: an item for each node of the directory but the connector itself.\<close>

definition workload :: "string \<Rightarrow> nat \<Rightarrow> cacheNode list \<Rightarrow> workItem list" where
  "workload connectorId ref directory =
     (let nodes = filter (\<lambda>n. nodeName n \<noteq> connectorId) directory
      in map (\<lambda>(i, n). \<lparr>itemRef = ref + i, itemUrl = targetUrl n, itemProtocol = selectProtocol (supportedProtocols n)\<rparr>)
           (zip [0..<length nodes] nodes))"

text \<open>
  \<open>addAll\<close> of the queue adds one element after the other and throws when it is full; what was added stays. The
  partition manager logs the exception.
\<close>

fun addAll :: "int \<Rightarrow> workItem list \<Rightarrow> workItem list \<Rightarrow> workItem list" where
  "addAll capacity queue [] = queue"
| "addAll capacity queue (x # xs) =
     (if int (length queue) \<ge> capacity then queue else addAll capacity (queue @ [x]) xs)"

definition executePlan :: "string \<Rightarrow> cacheNode list \<Rightarrow> 'r crawlSystem \<Rightarrow> 'r crawlSystem" where
  "executePlan connectorId directory s =
     (let items = workload connectorId (nextRef s) directory
      in s\<lparr>workQueue := addAll (workCapacity s) (workQueue s) items, nextRef := nextRef s + length items\<rparr>)"

section \<open>CrawlerImpl\<close>

text \<open>
  \<open>handleError\<close>, with the handler of the extension: an item with more than 7 errors is discarded, any other is
  put back after a delay.
\<close>

definition handleError :: "workItem \<Rightarrow> string \<Rightarrow> 'r crawlSystem \<Rightarrow> 'r crawlSystem" where
  "handleError item message s =
     (let errors = itemErrors s (itemRef item) @ [message];
          s' = s\<lparr>itemErrors := (itemErrors s)(itemRef item := errors)\<rparr>
      in if length errors > 7 then s'\<lparr>discarded := discarded s @ [item]\<rparr>
         else s'\<lparr>delayed := delayed s @ [item]\<rparr>)"

text \<open>A response that finds the queue full is lost: \<open>offer\<close> answers false, which the retry policy takes as a success.\<close>

definition handleResponse :: "'r \<Rightarrow> 'r crawlSystem \<Rightarrow> 'r crawlSystem" where
  "handleResponse r s =
     (if length (responseQueue s) < responseCapacity s then s\<lparr>responseQueue := responseQueue s @ [r]\<rparr> else s)"

text \<open>The action of \<open>whenComplete\<close>.\<close>

definition whenAnswered :: "workItem \<Rightarrow> 'r nodeAnswer \<Rightarrow> 'r crawlSystem \<Rightarrow> 'r crawlSystem" where
  "whenAnswered item answer s =
     (case answer of
        Responds r \<Rightarrow> handleResponse r s
      | Fails message \<Rightarrow> handleError item message s
      | Waits \<Rightarrow> s\<lparr>awaiting := awaiting s @ [item]\<rparr>)"

primrec sendRequests :: "workItem \<Rightarrow> 'r nodeAdapter list \<Rightarrow> ('r crawlSystem, unit) op" where
  "sendRequests item [] s = (Inr (), s)"
| "sendRequests item (a # as) s =
     (case a (itemUrl item) of
        Inl e \<Rightarrow> (Inl e, s)
      | Inr answer \<Rightarrow> sendRequests item as (whenAnswered item answer s))"

text \<open>\<open>NodeQueryAdapterRegistryImpl.findForProtocol\<close>: a \<open>ConcurrentHashMap\<close> has no null key.\<close>

definition findForProtocol :: "'a list jmap \<Rightarrow> string option \<Rightarrow> java_exn + 'a list" where
  "findForProtocol adapters protocol =
     (case protocol of
        None \<Rightarrow> Inl (NullPointerException [])
      | Some p \<Rightarrow> Inr (case map_of adapters p of None \<Rightarrow> [] | Some as \<Rightarrow> as))"

definition registerAdapter :: "string option \<Rightarrow> 'a \<Rightarrow> 'a list jmap \<Rightarrow> java_exn + 'a list jmap" where
  "registerAdapter protocol adapter adapters =
     orThrow (findForProtocol adapters protocol) (\<lambda>as. Inr (put (the protocol) (as @ [adapter]) adapters))"

text \<open>\<open>unregister\<close> removes one occurrence of the adapter, and the entry of a protocol that has none left.\<close>

definition unregisterAdapter :: "string option \<Rightarrow> 'a \<Rightarrow> 'a list jmap \<Rightarrow> java_exn + 'a list jmap" where
  "unregisterAdapter protocol adapter adapters =
     (case protocol of
        None \<Rightarrow> Inl (NullPointerException [])
      | Some p \<Rightarrow>
          Inr (case map_of adapters p of
                 None \<Rightarrow> adapters
               | Some as \<Rightarrow>
                   let rest = remove1 adapter as
                   in if rest = [] then remove_key p adapters else put p rest adapters))"

text \<open>An adapter that is registered is the last of its protocol; unregistered, it leaves what was there before.\<close>

lemma adapter_registered:
  "registerAdapter (Some p) a adapters = Inr adapters' \<Longrightarrow>
     findForProtocol adapters' (Some q) =
       (if q = p then Inr ((case map_of adapters p of None \<Rightarrow> [] | Some as \<Rightarrow> as) @ [a]) else findForProtocol adapters (Some q))"
  by (auto simp: registerAdapter_def findForProtocol_def)

lemma adapter_unregistered:
  assumes "registerAdapter (Some p) a adapters = Inr adapters'" "\<forall>as. map_of adapters p = Some as \<longrightarrow> as \<noteq> [] \<and> a \<notin> set as"
  shows "\<exists>adapters''. unregisterAdapter (Some p) a adapters' = Inr adapters'' \<and> map_of adapters'' = map_of adapters"
  using assms by (cases "map_of adapters p")
    (auto simp: registerAdapter_def unregisterAdapter_def findForProtocol_def remove1_append Let_def fun_eq_iff)

text \<open>\<open>InMemoryNodeDirectory.insert\<close>.\<close>

definition insertNode :: "cacheNode \<Rightarrow> cacheNode list \<Rightarrow> cacheNode list" where
  "insertNode node directory = directory @ [node]"

definition shownProtocol :: "string option \<Rightarrow> string" where
  "shownProtocol p = (case p of None \<Rightarrow> ''null'' | Some x \<Rightarrow> x)"

text \<open>
  An iteration of the crawler \<open>i\<close>; \<open>crawlerId\<close> is its random name. Whatever is thrown in it ends the crawler.
\<close>

definition crawl :: "string \<Rightarrow> 'r nodeAdapter list jmap \<Rightarrow> nat \<Rightarrow> 'r crawlSystem \<Rightarrow> 'r crawlSystem" where
  "crawl crawlerId adapters i s =
     (if \<not> i < length (crawlers s) \<or> crawlers s ! i = Terminated then s
      else if \<not> crawlerActive s ! i then s\<lparr>crawlers := (crawlers s)[i := Terminated]\<rparr>
      else case workQueue s of
             [] \<Rightarrow> s
           | item # rest \<Rightarrow>
               (let s' = s\<lparr>workQueue := rest, polled := polled s @ [item]\<rparr>
                in case findForProtocol adapters (itemProtocol item) of
                     Inl e \<Rightarrow> s'\<lparr>crawlers := (crawlers s)[i := Terminated]\<rparr>
                   | Inr [] \<Rightarrow>
                       handleError item (crawlerId @ '': No Adapter found for protocol ['' @
                         shownProtocol (itemProtocol item) @ '' :: '' @ itemUrl item @ '']'') s'
                   | Inr as \<Rightarrow>
                       (case sendRequests item as s' of
                          (Inr _, t) \<Rightarrow> t
                        | (Inl e, t) \<Rightarrow> t\<lparr>crawlers := (crawlers t)[i := Terminated]\<rparr>)))"

text \<open>
  \<open>join\<close>: whether the lock was free in time is an input. When it was not, the crawler that waits has no lock
  to release, and \<open>unlock\<close> throws instead of the answer.
\<close>

definition joinCrawler :: "nat \<Rightarrow> bool \<Rightarrow> ('r crawlSystem, bool) op" where
  "joinCrawler i locked s =
     (let s' = s\<lparr>crawlerActive := (crawlerActive s)[i := False]\<rparr>
      in if locked then (Inr True, s') else (Inl (IllegalStateException ''java.lang.IllegalMonitorStateException''), s'))"

section \<open>The steps of the system\<close>

definition dropNth :: "nat \<Rightarrow> 'a list \<Rightarrow> 'a list" where
  "dropNth i xs = take i xs @ drop (Suc i) xs"

text \<open>A delayed item returns to the queue; \<open>offer\<close> does nothing when it is full.\<close>

definition requeue :: "nat \<Rightarrow> 'r crawlSystem \<Rightarrow> 'r crawlSystem" where
  "requeue j s =
     (let item = delayed s ! j; s' = s\<lparr>delayed := dropNth j (delayed s)\<rparr>
      in if int (length (workQueue s)) < workCapacity s then s'\<lparr>workQueue := workQueue s @ [item]\<rparr> else s')"

datatype 'r crawlEvent =
    ExecutePlan string "cacheNode list"
  | Crawl string "'r nodeAdapter list jmap" nat
  | Answered nat "'r nodeAnswer"
  | Requeue nat
  | TakeResponses nat
  | JoinCrawler nat bool

primrec crawl_event :: "'r crawlEvent \<Rightarrow> 'r crawlSystem \<Rightarrow> 'r crawlSystem" where
  "crawl_event (ExecutePlan connectorId directory) s = executePlan connectorId directory s"
| "crawl_event (Crawl crawlerId adapters i) s = crawl crawlerId adapters i s"
| "crawl_event (Answered j answer) s =
     (if j < length (awaiting s) \<and> answer \<noteq> Waits
      then whenAnswered (awaiting s ! j) answer (s\<lparr>awaiting := dropNth j (awaiting s)\<rparr>) else s)"
| "crawl_event (Requeue j) s = (if j < length (delayed s) then requeue j s else s)"
| "crawl_event (TakeResponses n) s = s\<lparr>responseQueue := drop n (responseQueue s)\<rparr>"
| "crawl_event (JoinCrawler i locked) s = snd (joinCrawler i locked s)"

section \<open>Attempts are bounded\<close>

text \<open>The references of an item that are, or have been, in play.\<close>

definition copies :: "nat \<Rightarrow> workItem list \<Rightarrow> nat" where
  "copies r xs = length (filter (\<lambda>x. itemRef x = r) xs)"

lemma copies_simps [simp]:
  "copies r [] = 0" "copies r (x # xs) = (if itemRef x = r then Suc (copies r xs) else copies r xs)"
  "copies r (xs @ ys) = copies r xs + copies r ys"
  by (simp_all add: copies_def)

text \<open>
  An item that was scheduled once is polled, queued or delayed at most once, and once more for each of its first
  seven errors.
\<close>

definition tries :: "nat \<Rightarrow> 'r crawlSystem \<Rightarrow> nat" where
  "tries r s = copies r (polled s) + copies r (workQueue s) + copies r (delayed s)"

definition allowance :: "nat \<Rightarrow> 'r crawlSystem \<Rightarrow> nat" where
  "allowance r s = (if r < nextRef s then 1 + min 7 (length (itemErrors s r)) else 0)"

definition attempts_ok :: "'r crawlSystem \<Rightarrow> bool" where
  "attempts_ok s \<longleftrightarrow> (\<forall>r. tries r s \<le> allowance r s) \<and> (\<forall>x \<in> set (awaiting s). itemRef x < nextRef s)"

lemma attempts_okD:
  "attempts_ok s \<Longrightarrow> tries r s \<le> allowance r s" "attempts_ok s \<Longrightarrow> x \<in> set (awaiting s) \<Longrightarrow> itemRef x < nextRef s"
  by (simp_all add: attempts_ok_def)

lemma attempts_okI:
  "(\<And>r. tries r s \<le> allowance r s) \<Longrightarrow> (\<And>x. x \<in> set (awaiting s) \<Longrightarrow> itemRef x < nextRef s) \<Longrightarrow> attempts_ok s"
  by (simp add: attempts_ok_def)

lemma attempts_ok_kept:
  "attempts_ok s \<Longrightarrow> (\<And>r. tries r t = tries r s) \<Longrightarrow> itemErrors t = itemErrors s \<Longrightarrow> nextRef t = nextRef s \<Longrightarrow>
     (\<And>x. x \<in> set (awaiting t) \<Longrightarrow> itemRef x < nextRef s) \<Longrightarrow> attempts_ok t"
  unfolding attempts_ok_def allowance_def by metis

lemma addAll_prefix: "\<exists>ys zs. addAll c q xs = q @ ys \<and> xs = ys @ zs"
proof (induction c q xs rule: addAll.induct)
  case (2 c q x xs)
  then show ?case by (cases "int (length q) \<ge> c") auto
qed simp

lemma workload_refs: "copies r (workload c n d) \<le> (if n \<le> r \<and> r < n + length (workload c n d) then 1 else 0)"
proof -
  have refs: "copies r (map (\<lambda>(i, n'). \<lparr>itemRef = n + i, itemUrl = targetUrl n', itemProtocol = P n'\<rparr>) (zip [m..<m + length ns] ns)) \<le>
      (if n + m \<le> r \<and> r < n + m + length ns then 1 else 0)" for m :: nat and ns P
  proof (induction ns arbitrary: m)
    case (Cons a ns)
    have "[m..<m + length (a # ns)] = m # [Suc m..<Suc m + length ns]" 
      by (rule trans [OF upt_conv_Cons]) simp_all
    then show ?case using Cons.IH [of "Suc m"] by (auto split: if_splits)
  qed simp
  show ?thesis
    using refs [where m1 = 0 and P1 = "\<lambda>x. selectProtocol (supportedProtocols x)" and ns1 = "filter (\<lambda>x. nodeName x \<noteq> c) d"]
    by (simp add: workload_def Let_def split: if_splits)
qed

lemma executePlan_ok:
  assumes "attempts_ok s" shows "attempts_ok (executePlan c d s)"
proof (rule attempts_okI)
  fix r
  let ?w = "workload c (nextRef s) d"
  obtain ys zs where add: "addAll (workCapacity s) (workQueue s) ?w = workQueue s @ ys" "?w = ys @ zs"
    using addAll_prefix by blast
  have "copies r ys \<le> copies r ?w" by (simp add: add(2))
  then have "copies r ys \<le> (if nextRef s \<le> r \<and> r < nextRef s + length ?w then 1 else 0)"
    using workload_refs [of r c "nextRef s" d] by (rule le_trans)
  moreover have "tries r (executePlan c d s) = tries r s + copies r ys"
    by (simp add: tries_def executePlan_def Let_def add(1))
  ultimately show "tries r (executePlan c d s) \<le> allowance r (executePlan c d s)"
    using attempts_okD(1) [OF assms, of r] by (auto simp: allowance_def executePlan_def Let_def split: if_splits)
next
  fix x assume "x \<in> set (awaiting (executePlan c d s))"
  then show "itemRef x < nextRef (executePlan c d s)"
    using attempts_okD(2) [OF assms, of x] by (simp add: executePlan_def Let_def)
qed

lemma handleError_ok:
  assumes "attempts_ok s" "itemRef item < nextRef s"
  shows "attempts_ok (handleError item m s)"
proof (rule attempts_okI)
  fix r show "tries r (handleError item m s) \<le> allowance r (handleError item m s)"
    using attempts_okD(1) [OF assms(1), of r] assms(2)
    by (auto simp: tries_def allowance_def handleError_def Let_def)
next
  fix x assume "x \<in> set (awaiting (handleError item m s))"
  then have "x \<in> set (awaiting s)" by (simp add: handleError_def Let_def split: if_splits)
  then show "itemRef x < nextRef (handleError item m s)"
    using attempts_okD(2) [OF assms(1)] by (simp add: handleError_def Let_def)
qed

lemma handleError_nextRef [simp]: "nextRef (handleError item m s) = nextRef s"
  by (simp add: handleError_def Let_def)

lemma awaiting_ok: "attempts_ok s \<Longrightarrow> (\<And>x. x \<in> set xs \<Longrightarrow> itemRef x < nextRef s) \<Longrightarrow> attempts_ok (s\<lparr>awaiting := xs\<rparr>)"
  by (erule attempts_ok_kept) (simp_all add: tries_def)

lemma attempts_fields [simp]:
  "attempts_ok (s\<lparr>crawlers := x\<rparr>) = attempts_ok s" "attempts_ok (s\<lparr>crawlerActive := y\<rparr>) = attempts_ok s"
  "attempts_ok (s\<lparr>responseQueue := z\<rparr>) = attempts_ok s"
  by (simp_all add: attempts_ok_def tries_def allowance_def)

lemma whenAnswered_ok:
  assumes "attempts_ok s" "itemRef item < nextRef s"
  shows "attempts_ok (whenAnswered item answer s)" "nextRef (whenAnswered item answer s) = nextRef s"
  using assms handleError_ok [OF assms] attempts_okD(2) [OF assms(1)]
  by (cases answer; auto simp: whenAnswered_def handleResponse_def intro!: awaiting_ok)+

lemma sendRequests_ok:
  "attempts_ok s \<Longrightarrow> itemRef item < nextRef s \<Longrightarrow> attempts_ok (snd (sendRequests item as s))"
proof (induction as arbitrary: s)
  case (Cons a as)
  then show ?case using whenAnswered_ok [OF Cons.prems] by (cases "a (itemUrl item)") auto
qed simp

lemma poll_ok:
  assumes "attempts_ok s" "workQueue s = item # rest"
  shows "attempts_ok (s\<lparr>workQueue := rest, polled := polled s @ [item]\<rparr>)" "itemRef item < nextRef s"
proof -
  have "tries r (s\<lparr>workQueue := rest, polled := polled s @ [item]\<rparr>) = tries r s" for r
    using assms(2) by (simp add: tries_def)
  then show "attempts_ok (s\<lparr>workQueue := rest, polled := polled s @ [item]\<rparr>)"
    by (intro attempts_ok_kept [OF assms(1)]) (simp_all add: attempts_okD(2) [OF assms(1)])
  have "0 < tries (itemRef item) s" using assms(2) by (simp add: tries_def)
  then show "itemRef item < nextRef s"
    using attempts_okD(1) [OF assms(1), of "itemRef item"] by (auto simp: allowance_def split: if_splits)
qed

text \<open>What an iteration with an item does, apart from the crawler that may end.\<close>

lemma crawl_ok:
  assumes "attempts_ok s" shows "attempts_ok (crawl crawlerId adapters i s)"
proof (cases "workQueue s")
  case (Cons item rest)
  define t where "t = s\<lparr>workQueue := rest, polled := polled s @ [item]\<rparr>"
  have t: "attempts_ok t" "itemRef item < nextRef t" using poll_ok [OF assms Cons] by (simp_all add: t_def)
  have sent: "attempts_ok (case sendRequests item as t of (Inr _, u) \<Rightarrow> u | (Inl e, u) \<Rightarrow> u\<lparr>crawlers := (crawlers u)[i := Terminated]\<rparr>)" for as
    using sendRequests_ok [OF t, of as] by (cases "sendRequests item as t"; cases "fst (sendRequests item as t)") auto
  show ?thesis
  proof (cases "findForProtocol adapters (itemProtocol item)")
    case (Inl e)
    then show ?thesis using assms t(1) Cons by (simp add: crawl_def Let_def t_def)
  next
    case (Inr as)
    then show ?thesis using assms Cons sent [of as] handleError_ok [OF t]
      by (cases as) (simp_all add: crawl_def Let_def t_def del: sendRequests.simps)
  qed
qed (use assms in \<open>simp add: crawl_def\<close>)

lemma copies_dropNth: "j < length xs \<Longrightarrow> copies r xs = copies r (dropNth j xs) + (if itemRef (xs ! j) = r then 1 else 0)"
proof -
  assume "j < length xs"
  then have "copies r xs = copies r (take j xs @ xs ! j # drop (Suc j) xs)" by (simp add: id_take_nth_drop [symmetric])
  then show ?thesis by (simp add: dropNth_def)
qed

lemma requeue_ok:
  assumes "attempts_ok s" "j < length (delayed s)"
  shows "attempts_ok (requeue j s)"
proof (rule attempts_okI)
  fix r
  have "tries r (requeue j s) \<le> tries r s"
    using copies_dropNth [OF assms(2), of r] by (simp add: tries_def requeue_def Let_def)
  also have "\<dots> \<le> allowance r s" by (rule attempts_okD(1) [OF assms(1)])
  also have "\<dots> = allowance r (requeue j s)" unfolding allowance_def requeue_def Let_def by simp
  finally show "tries r (requeue j s) \<le> allowance r (requeue j s)" .
next
  fix x assume "x \<in> set (awaiting (requeue j s))"
  then show "itemRef x < nextRef (requeue j s)"
    using attempts_okD(2) [OF assms(1)] by (simp add: requeue_def Let_def split: if_splits)
qed

lemma crawl_event_ok:
  assumes "attempts_ok s" shows "attempts_ok (crawl_event e s)"
proof (cases e)
  case (Answered j answer)
  have "attempts_ok (s\<lparr>awaiting := dropNth j (awaiting s)\<rparr>)"
    using attempts_okD(2) [OF assms] by (intro awaiting_ok assms) (auto simp: dropNth_def dest: in_set_takeD in_set_dropD)
  then have "attempts_ok (whenAnswered (awaiting s ! j) answer (s\<lparr>awaiting := dropNth j (awaiting s)\<rparr>))"
    if "j < length (awaiting s)"
    using that attempts_okD(2) [OF assms, of "awaiting s ! j"] by (intro whenAnswered_ok) simp_all
  then show ?thesis using assms Answered by simp
qed (use assms in \<open>simp_all add: executePlan_ok crawl_ok requeue_ok joinCrawler_def Let_def\<close>)

lemma crawl_run_ok: "attempts_ok s \<Longrightarrow> attempts_ok (fold crawl_event es s)"
  by (induction es arbitrary: s) (simp_all add: crawl_event_ok)

text \<open>
  (C30) Whatever the crawlers, the nodes and the delays do, an item is sent to its node at most eight times for each
  time its node is scheduled: it goes back to the queue only after each of its first seven errors, of all
  adapters together.
\<close>

theorem item_attempts_bounded:
  "copies r (polled (fold crawl_event es (newCrawlSystem capacity responses n))) \<le>
     1 + min 7 (length (itemErrors (fold crawl_event es (newCrawlSystem capacity responses n)) r))"
proof -
  have "attempts_ok (newCrawlSystem capacity responses n)" by (rule attempts_okI) (simp_all add: newCrawlSystem_def tries_def)
  then have "attempts_ok (fold crawl_event es (newCrawlSystem capacity responses n))" by (rule crawl_run_ok)
  from attempts_okD(1) [OF this, of r] show ?thesis by (auto simp: tries_def allowance_def split: if_splits)
qed

section \<open>Nodes that are never reached\<close>

definition everyItem :: "(string \<Rightarrow> bool) \<Rightarrow> 'r crawlSystem \<Rightarrow> bool" where
  "everyItem P s \<longleftrightarrow> (\<forall>x \<in> set (workQueue s) \<union> set (delayed s) \<union> set (awaiting s) \<union> set (polled s). P (itemUrl x))"

lemma addAll_bounded: "set (addAll c q xs) \<subseteq> set q \<union> set (take (nat c - length q) xs)"
proof (induction c q xs rule: addAll.induct)
  case (2 c q x xs)
  show ?case
  proof (cases "int (length q) \<ge> c")
    case False
    then have "nat c - length q = Suc (nat c - length (q @ [x]))" by simp
    then show ?thesis using 2 False by auto
  qed simp
qed simp

lemma workload_urls: "map itemUrl (workload c n d) = map targetUrl (filter (\<lambda>x. nodeName x \<noteq> c) d)"
  by (rule nth_equalityI) (simp_all add: workload_def Let_def)

lemma every_fields [simp]:
  "everyItem P (s\<lparr>crawlers := x\<rparr>) = everyItem P s" "everyItem P (s\<lparr>crawlerActive := y\<rparr>) = everyItem P s"
  "everyItem P (s\<lparr>responseQueue := z\<rparr>) = everyItem P s"
  by (simp_all add: everyItem_def)

lemma handleError_every: "everyItem P s \<Longrightarrow> P (itemUrl item) \<Longrightarrow> everyItem P (handleError item m s)"
  by (auto simp: everyItem_def handleError_def Let_def)

lemma whenAnswered_every: "everyItem P s \<Longrightarrow> P (itemUrl item) \<Longrightarrow> everyItem P (whenAnswered item answer s)"
proof (cases answer)
  case Waits
  assume "everyItem P s" "P (itemUrl item)"
  then show ?thesis by (auto simp: Waits whenAnswered_def everyItem_def)
qed (simp_all add: whenAnswered_def handleError_every handleResponse_def)

lemma sendRequests_every: "everyItem P s \<Longrightarrow> P (itemUrl item) \<Longrightarrow> everyItem P (snd (sendRequests item as s))"
  by (induction as arbitrary: s) (auto simp: whenAnswered_every split: sum.split)

lemma crawl_every:
  assumes "everyItem P s" shows "everyItem P (crawl crawlerId adapters i s)"
proof (cases "workQueue s")
  case (Cons item rest)
  define t where "t = s\<lparr>workQueue := rest, polled := polled s @ [item]\<rparr>"
  have t: "everyItem P t" "P (itemUrl item)" using assms Cons by (auto simp: everyItem_def t_def)
  have sent: "everyItem P (case sendRequests item as t of (Inr _, u) \<Rightarrow> u | (Inl e, u) \<Rightarrow> u\<lparr>crawlers := (crawlers u)[i := Terminated]\<rparr>)" for as
    using sendRequests_every [OF t, of as] by (cases "sendRequests item as t"; cases "fst (sendRequests item as t)") auto
  show ?thesis
  proof (cases "findForProtocol adapters (itemProtocol item)")
    case (Inl e)
    then show ?thesis using assms t(1) Cons by (simp add: crawl_def Let_def t_def)
  next
    case (Inr as)
    then show ?thesis using assms Cons sent [of as] handleError_every [OF t]
      by (cases as) (simp_all add: crawl_def Let_def t_def del: sendRequests.simps)
  qed
qed (use assms in \<open>simp add: crawl_def\<close>)

lemma dropNth_subset: "set (dropNth j xs) \<subseteq> set xs"
  by (auto simp: dropNth_def dest: in_set_takeD in_set_dropD)

lemma executePlan_every:
  assumes "everyItem P s" "\<And>n. n \<in> set (take (nat (workCapacity s)) (filter (\<lambda>x. nodeName x \<noteq> c) d)) \<Longrightarrow> P (targetUrl n)"
  shows "everyItem P (executePlan c d s)"
proof -
  let ?w = "workload c (nextRef s) d" and ?k = "nat (workCapacity s)"
  have "itemUrl ` set (take ?k ?w) = targetUrl ` set (take ?k (filter (\<lambda>x. nodeName x \<noteq> c) d))"
    by (simp only: set_map [symmetric] take_map [symmetric] workload_urls)
  then have new: "P (itemUrl x)" if "x \<in> set (take ?k ?w)" for x using that assms(2) by (metis (no_types, lifting) imageE imageI)
  have added: "set (addAll (workCapacity s) (workQueue s) ?w) \<subseteq> set (workQueue s) \<union> set (take ?k ?w)"
    by (rule order_trans [OF addAll_bounded Un_mono [OF order_refl set_take_subset_set_take]]) simp
  have "P (itemUrl x)" if "x \<in> set (workQueue s) \<union> set (take ?k ?w)" for x
    using that assms(1) new by (auto simp: everyItem_def)
  then have "P (itemUrl x)" if "x \<in> set (addAll (workCapacity s) (workQueue s) ?w)" for x using that added by blast
  then show ?thesis using assms(1) unfolding everyItem_def executePlan_def Let_def by simp blast
qed

lemma crawl_event_every:
  assumes "everyItem P s"
    and "\<And>c d n. e = ExecutePlan c d \<Longrightarrow> n \<in> set (take (nat (workCapacity s)) (filter (\<lambda>x. nodeName x \<noteq> c) d)) \<Longrightarrow> P (targetUrl n)"
  shows "everyItem P (crawl_event e s)"
proof (cases e)
  case (Answered j answer)
  have "everyItem P (s\<lparr>awaiting := dropNth j (awaiting s)\<rparr>)"
    using assms(1) dropNth_subset [of j "awaiting s"] by (auto simp: everyItem_def)
  moreover have "j < length (awaiting s) \<Longrightarrow> P (itemUrl (awaiting s ! j))" using assms(1) by (simp add: everyItem_def)
  ultimately show ?thesis using Answered assms(1) by (simp add: whenAnswered_every)
next
  case (Requeue j)
  then show ?thesis using assms(1) dropNth_subset [of j "delayed s"]
    by (auto simp: everyItem_def requeue_def Let_def)
next
  case (ExecutePlan c d)
  then show ?thesis using assms by (simp add: executePlan_every)
qed (use assms in \<open>simp_all add: crawl_every joinCrawler_def Let_def\<close>)

lemma sendRequests_fields [simp]: "workCapacity (snd (sendRequests item as s)) = workCapacity s"
  by (induction as arbitrary: s)
    (auto simp: whenAnswered_def handleError_def handleResponse_def Let_def split: sum.split nodeAnswer.split)

lemma workCapacity_event: "workCapacity (crawl_event e s) = workCapacity s"
proof (cases e)
  case (Crawl c a i)
  have "workCapacity (case sendRequests item as t of (Inr _, u) \<Rightarrow> u | (Inl x, u) \<Rightarrow> u\<lparr>crawlers := (crawlers u)[i := Terminated]\<rparr>) =
      workCapacity t" for item as and t :: "'a crawlSystem"
    using sendRequests_fields [of item as t] by (cases "sendRequests item as t"; cases "fst (sendRequests item as t)") auto
  then show ?thesis using Crawl
    by (simp add: crawl_def Let_def handleError_def del: sendRequests.simps split: list.split sum.split)
qed (auto simp: executePlan_def Let_def whenAnswered_def handleError_def handleResponse_def requeue_def joinCrawler_def
  split: nodeAnswer.split)

lemma crawl_run_every:
  assumes "everyItem P s"
    and "\<And>c d n. ExecutePlan c d \<in> set es \<Longrightarrow> n \<in> set (take (nat (workCapacity s)) (filter (\<lambda>x. nodeName x \<noteq> c) d)) \<Longrightarrow> P (targetUrl n)"
  shows "everyItem P (fold crawl_event es s)"
  using assms
proof (induction es arbitrary: s)
  case (Cons e es)
  have "everyItem P (crawl_event e s)" by (rule crawl_event_every [OF Cons.prems(1)]) (rule Cons.prems(2), simp_all)
  then have "everyItem P (fold crawl_event es (crawl_event e s))"
    by (rule Cons.IH) (rule Cons.prems(2), simp_all add: workCapacity_event)
  then show ?case by simp
qed simp

text \<open>
  (C31) Each run adds the nodes of the directory in its order until the queue is full and drops the rest. So while the
  directory does not change, only the first nodes, as many as the queue holds (10 by default), are ever crawled.
\<close>

theorem later_nodes_never_crawled:
  assumes "\<And>c d. ExecutePlan c d \<in> set es \<Longrightarrow> c = connectorId \<and> d = directory"
    and "x \<in> set (polled (fold crawl_event es (newCrawlSystem capacity responses n)))"
  shows "itemUrl x \<in> targetUrl ` set (take (nat capacity) (filter (\<lambda>x. nodeName x \<noteq> connectorId) directory))"
proof -
  let ?P = "\<lambda>u. u \<in> targetUrl ` set (take (nat capacity) (filter (\<lambda>x. nodeName x \<noteq> connectorId) directory))"
  have "everyItem ?P (fold crawl_event es (newCrawlSystem capacity responses n))"
  proof (rule crawl_run_every)
    show "everyItem ?P (newCrawlSystem capacity responses n)" by (simp add: everyItem_def newCrawlSystem_def)
    fix c d a
    assume "ExecutePlan c d \<in> set es"
      and a: "a \<in> set (take (nat (workCapacity (newCrawlSystem capacity responses n :: 'a crawlSystem))) (filter (\<lambda>x. nodeName x \<noteq> c) d))"
    then have "c = connectorId" "d = directory" using assms(1) by blast+
    then show "?P (targetUrl a)" using a by (simp add: newCrawlSystem_def)
  qed
  then show ?thesis using assms(2) by (simp add: everyItem_def)
qed

section \<open>A crawler that ends\<close>

lemma dead_kept:
  assumes "set (crawlers s) \<subseteq> {Terminated}"
  shows "set (crawlers (crawl_event e s)) \<subseteq> {Terminated} \<and> polled (crawl_event e s) = polled s"
proof (cases e)
  case (Crawl c a i)
  have "i < length (crawlers s) \<Longrightarrow> crawlers s ! i = Terminated" using assms nth_mem [of i "crawlers s"] by blast
  then show ?thesis using assms Crawl by (auto simp: crawl_def)
qed (use assms in \<open>auto simp: executePlan_def Let_def whenAnswered_def handleError_def handleResponse_def requeue_def joinCrawler_def
  split: nodeAnswer.split\<close>)

lemma dead_run: "set (crawlers s) \<subseteq> {Terminated} \<Longrightarrow> polled (fold crawl_event es s) = polled s"
  by (induction es arbitrary: s) (simp_all add: dead_kept)

text \<open>
  A node of the directory without protocols ends the crawler that polls its item: the look-up of the null
  protocol throws outside the error handler. With one crawler, the default, no other item is ever polled, however
  often the plan is executed again.
\<close>

theorem protocolless_node_ends_crawling:
  assumes "crawlers s = [Crawling]" "crawlerActive s = [True]" "workQueue s = item # rest" "itemProtocol item = None"
  shows "polled (fold crawl_event es (crawl_event (Crawl crawlerId adapters 0) s)) = polled s @ [item]"
proof -
  have "crawlers (crawl_event (Crawl crawlerId adapters 0) s) = [Terminated]"
    "polled (crawl_event (Crawl crawlerId adapters 0) s) = polled s @ [item]"
    using assms by (simp_all add: crawl_def findForProtocol_def Let_def)
  then show ?thesis using dead_run [of "crawl_event (Crawl crawlerId adapters 0) s" es] by simp
qed

section \<open>Examples\<close>

definition sampleDirectory :: "cacheNode list" where
  "sampleDirectory =
     [\<lparr>nodeName = ''self'', targetUrl = ''http://self'', supportedProtocols = [''ids'']\<rparr>,
      \<lparr>nodeName = ''a'', targetUrl = ''http://a'', supportedProtocols = []\<rparr>,
      \<lparr>nodeName = ''b'', targetUrl = ''http://b'', supportedProtocols = [''ids'']\<rparr>]"

theorem later_nodes_never_crawled_witness:
  "set (map itemUrl (polled (fold crawl_event
      [ExecutePlan ''self'' sampleDirectory, Crawl ''crawler'' [] 0, ExecutePlan ''self'' sampleDirectory, Crawl ''crawler'' [] 1]
      (newCrawlSystem 1 5 2 :: string crawlSystem)))) = {''http://a''}"
proof -
  let ?es = "[ExecutePlan ''self'' sampleDirectory, Crawl ''crawler'' [] 0, ExecutePlan ''self'' sampleDirectory,
    Crawl ''crawler'' [] 1] :: string crawlEvent list"
  let ?p = "polled (fold crawl_event ?es (newCrawlSystem 1 5 2))"
  have "itemUrl x \<in> {''http://a''}" if "x \<in> set ?p" for x
  proof -
    have "itemUrl x \<in> targetUrl ` set (take (nat 1) (filter (\<lambda>x. nodeName x \<noteq> ''self'') sampleDirectory))"
      by (rule later_nodes_never_crawled [OF _ that]) auto
    then show ?thesis by (simp add: sampleDirectory_def)
  qed
  moreover have "?p \<noteq> []"
    by (simp add: sampleDirectory_def newCrawlSystem_def executePlan_def workload_def selectProtocol_def crawl_def
      findForProtocol_def Let_def numeral_2_eq_2)
  ultimately show ?thesis by (cases ?p) auto
qed

theorem protocolless_node_ends_crawling_witness:
  "map itemUrl (polled (fold crawl_event [ExecutePlan ''self'' sampleDirectory, Crawl ''crawler'' [] 0]
      (crawl_event (Crawl ''crawler'' [] 0)
        (crawl_event (ExecutePlan ''self'' sampleDirectory) (newCrawlSystem 10 5 1 :: string crawlSystem))))) = [''http://a'']"
proof -
  let ?s = "crawl_event (ExecutePlan ''self'' sampleDirectory) (newCrawlSystem 10 5 1 :: string crawlSystem)"
  have "workQueue ?s = [\<lparr>itemRef = 0, itemUrl = ''http://a'', itemProtocol = None\<rparr>,
      \<lparr>itemRef = 1, itemUrl = ''http://b'', itemProtocol = Some ''ids''\<rparr>]"
    "crawlers ?s = [Crawling]" "crawlerActive ?s = [True]" "polled ?s = []"
    by (simp_all add: sampleDirectory_def newCrawlSystem_def executePlan_def workload_def selectProtocol_def Let_def)
  then show ?thesis using protocolless_node_ends_crawling
    [of ?s "\<lparr>itemRef = 0, itemUrl = ''http://a'', itemProtocol = None\<rparr>" _
      "[ExecutePlan ''self'' sampleDirectory, Crawl ''crawler'' [] 0]" "''crawler''" "[]"] by simp
qed

end
