(* ===== verification/Spec2Isabelle.thy ===== *)
theory Spec2Isabelle
  imports Cosmos_Exclusion Transfer_Provisioning Api_Negotiation_Responses Api_Transfer_Responses
    Catalog_Negotiation Dependency_Graph Sql_Transfer_Examples Sql_Negotiation_Examples
    Sql_Query Data_Plane_Selector Federated_Negotiation Catalog_Crawler
begin

text \<open>
  A verification library for the Eclipse Dataspace Connector. The connector lets a provider offer
  assets under policies, and a consumer negotiate a contract for one of them and transfer its data.
  Two state machines do the work: contract negotiations and transfer processes are entities in a
  store, which the loop of a manager fetches in batches, by state, under a lease; a handler moves each
  on and sends messages, whose callbacks move it further. Clients reach the managers through REST
  APIs that an OpenAPI document describes, and several connectors may share one CosmosDB store, whose
  leases are kept by stored procedures in JavaScript.

  \<^bold>\<open>Shared layer.\<close> \<open>EDC_Prelude\<close>: operations \<open>'s \<Rightarrow> (java_exn + 'a) \<times> 's\<close>, in which what was written
  before an exception stays written, and which \<open>keeps\<close> and \<open>ensures\<close> reason about; Java's \<open>int\<close> and
  \<open>long\<close> as wrapped integers; maps as association lists in iteration order. \<open>Leasing\<close>: the contract
  between a state machine and its store as the locale \<open>lease_source\<close>. \<open>Stateful_Entity\<close>:
  \<open>spi/core-spi/.../spi/entity/StatefulEntity.java\<close>. \<open>State_Machine\<close>: the loop and the retry policies of
  \<open>common/state-machine-lib\<close> and \<open>spi/core-spi/.../spi/retry\<close>. \<open>Commands\<close>: the command queue, runner and
  processor of \<open>spi/core-spi/.../spi/command\<close>, with the locale \<open>fifo_queue\<close>.

  \<^bold>\<open>Stores.\<close> \<open>Entity_Store\<close>: \<open>core/defaults/.../InMemoryStatefulEntityStore.java\<close>, in the locale
  \<open>entity_copy\<close> of the entity's copy method, which gives \<open>lease_source\<close>. \<open>Cosmos_Lease\<close>: the stored
  procedures \<open>lease.js\<close> and \<open>nextForState.js\<close>, on every branch, with the outcome of each call of the
  service as an input. \<open>Cosmos_Store\<close>: \<open>CosmosLeaseContext\<close>, \<open>CosmosDbApiImpl\<close> and the write path of
  the two CosmosDB stores; it interprets \<open>lease_source\<close>. \<open>Cosmos_Exclusion\<close>: the interleavings of
  several connectors on one collection; a live lease excludes every operation of other connectors but
  \<open>create\<close>, which overwrites a leased document.

  \<^bold>\<open>SQL.\<close> \<open>Sql_Transaction\<close>: \<open>LocalTransactionContext\<close> and \<open>SqlQueryExecutor\<close>, on a session that holds the
  committed tables and those of the transaction; a block that throws leaves nothing. \<open>Sql_Lease\<close>:
  \<open>SqlLeaseContext\<close> on a table of leases and one of entities; it refines a map of leases.
  \<open>Sql_Leasing\<close>: what the stores share, and the hand-out of leased entities for any query of a store, as the
  locale \<open>leased_query\<close>, which gives \<open>lease_source\<close> as long as commits work. \<open>Sql_Transfer_Store\<close>, \<open>Sql_Negotiation_Store\<close>:
  \<open>SqlTransferProcessStore\<close> and \<open>SqlContractNegotiationStore\<close> with their statements and tables; both interpret
  \<open>leased_query\<close>. \<open>Sql_Transfer_Properties\<close>, \<open>Sql_Negotiation_Properties\<close>: what each operation does on every
  branch, what is found after it, and what a failure leaves; the data request of a process may be null there
  (\<open>dr = None\<close>), while everywhere else a process has one; \<open>Sql_Transfer_Examples\<close>,
  \<open>Sql_Negotiation_Examples\<close>: the same on concrete tables. The order in which a database returns rows that no
  statement orders, and whether its driver passes texts as JSON, are arguments. \<open>Sql_Query\<close>: \<open>SqlQueryStatement\<close> and
  the mappings of fields to columns, from the filter of a request to the text of a statement; what of the text
  is fixed, and what is not.

  \<^bold>\<open>Boot.\<close> \<open>Topological_Sort\<close>, \<open>Dependency_Graph\<close>: \<open>core/boot/.../util/TopologicalSort.java\<close> and
  \<open>system/DependencyGraph.java\<close>, the order in which the extensions of a runtime are started; when there is
  one, and what it guarantees.

  \<^bold>\<open>Transfers.\<close> \<open>Transfer_Process\<close>: the entity, its states and every method that changes it; the state
  diagram they realise and the histories it allows. \<open>Provisioning\<close>: the services of \<open>core/transfer\<close> that
  ask extensions. \<open>Transfer_Manager\<close>: every handler, callback, command handler and client operation of
  \<open>TransferProcessManagerImpl\<close>, as a step relation. \<open>Transfer_Safety\<close>: the invariant of all
  interleavings. \<open>Transfer_Properties\<close>, \<open>Transfer_Liveness\<close>, \<open>Transfer_Provisioning\<close>: retries, the run
  of a transfer to its end, the result of provisioning, and places where the code loses a process.

  \<^bold>\<open>Negotiations.\<close> \<open>Contract_Negotiation\<close>, \<open>Negotiation_States\<close>: the entity, its methods, the state
  diagram, contract identifiers. \<open>Negotiation_Managers\<close>, \<open>Consumer_Negotiation\<close>,
  \<open>Provider_Negotiation\<close>, \<open>Negotiation_System\<close>: both managers of \<open>core/contract/.../negotiation\<close> on their
  common store, and all their interleavings. \<open>Negotiation_Safety\<close>: their invariant.
  \<open>Negotiation_Liveness\<close>: two connectors and their message handlers; an agreement is reached on both
  sides. \<open>Negotiation_Properties\<close>: answers to an agreement, and negotiations that get stuck.

  \<^bold>\<open>Data plane.\<close> \<open>Data_Plane_Store\<close>: \<open>LruCache\<close> and \<open>InMemoryDataPlaneStore\<close>, with the interface of the store as the
  locale \<open>flow_store\<close>; which states it still knows. \<open>Data_Plane_Sinks\<close>: \<open>PartitionIterator\<close>, \<open>ParallelSink\<close>,
  \<open>OutputStreamDataSink\<close>; when a transfer succeeds, what a stream sink answers on every branch, and what was
  handed over and written.
  \<open>Data_Plane_Pipeline\<close>: \<open>PipelineServiceImpl\<close>, the factories and the transfer services; what is validated is
  transferred. \<open>Data_Plane_Manager\<close>: \<open>DataPlaneManagerImpl\<close>, its queue and its workers, in all interleavings; no
  request is taken twice, none is lost but to an error, the queue is drained up to a request whose transfer
  throws an error, and what is reported of a process. \<open>Data_Plane_Clients\<close>: the
  flow controller of the transfers, its client in the same runtime, and the control API. \<open>Data_Plane_Selector\<close>:
  \<open>extensions/data-plane-selector\<close>, with the locale \<open>selection_strategy\<close>, and the client that sends a request to the
  data plane that was selected.

  \<^bold>\<open>Federated catalog.\<close> \<open>Federated_Cache\<close>: \<open>BatchedRequestFetcher\<close>, which reads the catalog of \<open>Contract_Services\<close>
  page by page, the cache store, its loader and loader manager, and the queries of \<open>extensions/catalog\<close>.
  \<open>Federated_Negotiation\<close>: an offer found there is valid at the connector it came from.
  \<open>Catalog_Crawler\<close>: the partition manager, the crawlers and their queue; how often a node is asked, and which
  nodes never are.

  \<^bold>\<open>Policies and offers.\<close> \<open>Policy_Evaluation\<close>: the policy model and \<open>PolicyEvaluator\<close>; evaluation is
  equivalent to the formula a policy stands for. \<open>Policy_Engine\<close>: rule bindings, \<open>ScopeFilter\<close> and
  \<open>PolicyEngineImpl\<close>; what the filter leaves. \<open>Asset_Index\<close>: \<open>InMemoryAssetIndex\<close> with criteria and lazy
  streams. \<open>Contract_Services\<close>: \<open>ContractDefinitionServiceImpl\<close>, \<open>ContractOfferServiceImpl\<close>,
  \<open>ContractValidationServiceImpl\<close>; what a validated offer guarantees, and that the offers of the catalog
  are valid. \<open>Catalog_Negotiation\<close>: the services behind the managers, and what policy an agreement has.

  \<^bold>\<open>APIs.\<close> \<open>Api_Json\<close>: JSON values, and schemas, references and responses as an OpenAPI document gives
  them. \<open>Api_Schemas\<close>, \<open>Api_Paths_Management\<close>, \<open>Api_Paths_Other\<close>, \<open>Api_Spec\<close>: the document of
  \<open>docs/swaggerui/swagger-spec.js\<close>, one definition for each schema and path; \<open>Api_Document\<close>: its
  operations. \<open>Api_Http\<close>: authentication, service results and exception mappers. \<open>Api_Negotiations\<close>,
  \<open>Api_Transfers\<close>: the controllers and services of negotiations and transfers. \<open>Api_Responses\<close>,
  \<open>Api_Negotiation_Responses\<close>, \<open>Api_Transfer_Responses\<close>: what each request answers and does, whether the
  document says so, and that requests are steps of the managers.

  \<^bold>\<open>Bounds and fuel.\<close> Loops of the code end by structure: batches, queues and lists are finite. Only
  \<open>run_loop\<close> and \<open>drain\<close> take a number of iterations, since the threads they stand for run until they are
  stopped; what is proved holds for every number, or for any that is large enough. The depth first search
  of \<open>Topological_Sort\<close> takes a depth; one more than the number of items is proved to be enough. \<open>fetch\<close> is a
  \<open>partial_function\<close>, since a connector may answer pages for ever; it is proved to return on a catalog of this
  repository. Liveness is stated for a given number of iterations, or of steps of a worker. The clock is an
  argument of each operation and does not advance within it. Times in SQL are milliseconds of the epoch, far
  from the bounds of \<open>long\<close>.

  \<^bold>\<open>Parameters.\<close> Extensions (provisioners, data flow controllers, dispatchers, policy functions,
  attributes of agents, the sources, sinks and adapters of the data plane and the catalog), the CosmosDB
  service, the network, the failures of a database, clocks and random identifiers are arguments: their results
  are inputs of the definitions, and every way they can fail is one of the results.

  \<^bold>\<open>Not modelled.\<close> Threads and locks: a call of a store is atomic, and interleavings are sequences of
  steps. Objects shared between Java references are values, except where \<open>Negotiation_Managers\<close> says
  that the sharing shows. Transactions of a database follow each other, so races below
  serializable isolation do not show. What a store answers to a query by criteria, and sorting; the SQL
  stores of assets, policies and definitions; the IDS messages and their transport between connectors, which
  arrive as they were sent; the sources and sinks of the data plane for HTTP and cloud stores, its public API,
  and the tokens and proxies of transfers that a consumer pulls; the schedule of the crawlers; the rest of the
  boot of a runtime, which is reflection; identity, cloud and HTTP adapters, which call services and libraries
  that are not part of the repository; the remaining resources of the APIs; the bundled Swagger UI.
\<close>

end
